(* ===== verification/GlassPrelude.thy ===== *)
theory GlassPrelude
  imports Complex_Main "HOL-Library.Word" "HOL-Library.Monad_Syntax"
begin

text \<open>
  Shared notions of the development. Every C function that can go wrong at the machine level
  (an invalid pointer, a write outside a buffer, a lock taken twice by its holder) is a
  function into \<open>option\<close>: \<open>None\<close> is "the program is stuck or its behaviour is
  undefined", \<open>Some\<close> carries the new state and the result. \<open>returns m P\<close> is total
  correctness: \<open>m\<close> does return and its value satisfies \<open>P\<close>.
\<close>

named_theorems ok_rules \<open>total-correctness rules of the operations, for composing them\<close>
named_theorems at_rules \<open>rules for the operations that also tell the windows afterwards\<close>
named_theorems keep_rules \<open>state updates that keep the invariant\<close>

section \<open>Total correctness of partial operations\<close>

definition returns :: "'a option \<Rightarrow> ('a \<Rightarrow> bool) \<Rightarrow> bool" where
  "returns m P = (case m of None \<Rightarrow> False | Some x \<Rightarrow> P x)"

lemma returns_Some [simp]: "returns (Some x) P = P x"
  by (simp add: returns_def)

lemma returns_None [simp]: "\<not> returns None P"
  by (simp add: returns_def)

lemma returns_iff: "returns m P = (\<exists>x. m = Some x \<and> P x)"
  by (cases m) auto

lemma returns_bindI:
  "returns m P \<Longrightarrow> (\<And>x. P x \<Longrightarrow> returns (f x) Q) \<Longrightarrow> returns (m \<bind> f) Q"
  by (auto simp: returns_iff)

lemma returns_conseq: "returns m P \<Longrightarrow> (\<And>x. P x \<Longrightarrow> Q x) \<Longrightarrow> returns m Q"
  by (auto simp: returns_iff)

lemma returnsE: "returns m P \<Longrightarrow> (\<And>x. m = Some x \<Longrightarrow> P x \<Longrightarrow> thesis) \<Longrightarrow> thesis"
  by (auto simp: returns_iff)

lemma returnsD: "returns m P \<Longrightarrow> m = Some x \<Longrightarrow> P x"
  by (simp add: returns_iff)

lemma returns_conj: "returns m P \<Longrightarrow> returns m Q \<Longrightarrow> returns m (\<lambda>x. P x \<and> Q x)"
  by (auto simp: returns_iff)

section \<open>Ends of lists, as pointers that may be null\<close>

definition first_opt :: "'a list \<Rightarrow> 'a option" where
  "first_opt xs = (case xs of [] \<Rightarrow> None | x # _ \<Rightarrow> Some x)"

definition last_opt :: "'a list \<Rightarrow> 'a option" where
  "last_opt xs = (if xs = [] then None else Some (last xs))"

lemma first_opt_simps [simp]: "first_opt [] = None" "first_opt (x # xs) = Some x"
  by (simp_all add: first_opt_def)

lemma last_opt_simps [simp]:
  "last_opt [] = None" "last_opt (xs @ [x]) = Some x"
  "last_opt (x # xs) = (if xs = [] then Some x else last_opt xs)"
  by (simp_all add: last_opt_def)

lemma first_opt_append: "first_opt (xs @ ys) = (if xs = [] then first_opt ys else first_opt xs)"
  by (cases xs) auto

lemma last_opt_append: "last_opt (xs @ ys) = (if ys = [] then last_opt xs else last_opt ys)"
  by (simp add: last_opt_def)

lemma first_opt_Some: "first_opt xs = Some x \<longleftrightarrow> (\<exists>ys. xs = x # ys)"
  by (cases xs) auto

lemma last_opt_Some: "last_opt xs = Some x \<longleftrightarrow> (\<exists>ys. xs = ys @ [x])"
  by (cases xs rule: rev_cases) auto

lemma last_opt_None [simp]: "last_opt xs = None \<longleftrightarrow> xs = []"
  by (simp add: last_opt_def)

lemma first_opt_None [simp]: "first_opt xs = None \<longleftrightarrow> xs = []"
  by (cases xs) auto

lemma last_opt_rev: "last_opt xs = first_opt (rev xs)"
  by (cases xs rule: rev_cases) auto

section \<open>Removing one element\<close>

lemma remove1_split: "x \<notin> set ys \<Longrightarrow> remove1 x (ys @ x # zs) = ys @ zs"
  by (simp add: remove1_append)

lemma distinct_remove1_filter: "distinct xs \<Longrightarrow> remove1 x xs = filter (\<lambda>y. y \<noteq> x) xs"
  by (simp add: distinct_remove1_removeAll removeAll_filter_not_eq) (metis (full_types))

section \<open>Counted loops\<close>

text \<open>\<open>for_range i n f s\<close> is \<open>for (k = i; k < i + n; k++) s = f k s\<close>, stopping where \<open>f\<close> is stuck.\<close>

fun for_range :: "nat \<Rightarrow> nat \<Rightarrow> (nat \<Rightarrow> 's \<Rightarrow> 's option) \<Rightarrow> 's \<Rightarrow> 's option" where
  "for_range i 0 f s = Some s"
| "for_range i (Suc n) f s = do { s \<leftarrow> f i s; for_range (Suc i) n f s }"

lemma for_range_rule:
  assumes "I i s" and "\<And>k s. i \<le> k \<Longrightarrow> k < i + n \<Longrightarrow> I k s \<Longrightarrow> returns (f k s) (I (Suc k))"
  shows "returns (for_range i n f s) (I (i + n))"
  using assms
proof (induction n arbitrary: i s)
  case (Suc n)
  have "returns (f i s) (I (Suc i))" using Suc.prems by simp
  moreover have "returns (for_range (Suc i) n f s') (I (Suc i + n))" if "I (Suc i) s'" for s'
    using Suc.prems(2) that by (intro Suc.IH) auto
  ultimately show ?case by (auto intro: returns_bindI)
qed simp

text \<open>A read or write through a pointer into a buffer, undefined outside it.\<close>

definition read_at :: "'a list \<Rightarrow> int \<Rightarrow> 'a option" where
  "read_at xs i = (if 0 \<le> i \<and> nat i < length xs then Some (xs ! nat i) else None)"

definition write_at :: "'a list \<Rightarrow> int \<Rightarrow> 'a \<Rightarrow> 'a list option" where
  "write_at xs i x = (if 0 \<le> i \<and> nat i < length xs then Some (xs[nat i := x]) else None)"

lemma write_at_length: "write_at xs i x = Some ys \<Longrightarrow> length ys = length xs"
  by (auto simp: write_at_def split: if_splits)

end
