(* ===== verification/LensTypes.thy ===== *)
theory LensTypes
  imports GlassPrelude
begin

text \<open>
  The data of Lens, the native window system of JavaFX on embedded Linux
  (\<open>modules/graphics/src/main/native-glass/lens\<close>): windows and views live in a heap and are
  named by address; the file-scope variables of \<open>LensWindowManager.c\<close>, \<open>LensWindow.c\<close>,
  \<open>LensApplication.c\<close> and \<open>LensInputEvents.c\<close> are the fields of one state record. The calls
  into Java are the output: they are appended to a trace, in order.
\<close>

section \<open>Constants shared with the Java side\<close>

abbreviation (input) MouseEvent_BUTTON_NONE :: int where "MouseEvent_BUTTON_NONE \<equiv> 211"
abbreviation (input) MouseEvent_BUTTON_LEFT :: int where "MouseEvent_BUTTON_LEFT \<equiv> 212"
abbreviation (input) MouseEvent_BUTTON_RIGHT :: int where "MouseEvent_BUTTON_RIGHT \<equiv> 213"
abbreviation (input) MouseEvent_BUTTON_OTHER :: int where "MouseEvent_BUTTON_OTHER \<equiv> 214"
abbreviation (input) MouseEvent_DOWN :: int where "MouseEvent_DOWN \<equiv> 221"
abbreviation (input) MouseEvent_UP :: int where "MouseEvent_UP \<equiv> 222"
abbreviation (input) MouseEvent_MOVE :: int where "MouseEvent_MOVE \<equiv> 224"
abbreviation (input) MouseEvent_ENTER :: int where "MouseEvent_ENTER \<equiv> 225"
abbreviation (input) MouseEvent_EXIT :: int where "MouseEvent_EXIT \<equiv> 226"

abbreviation (input) WindowEvent_RESIZE :: int where "WindowEvent_RESIZE \<equiv> 511"
abbreviation (input) WindowEvent_CLOSE :: int where "WindowEvent_CLOSE \<equiv> 521"
abbreviation (input) WindowEvent_DESTROY :: int where "WindowEvent_DESTROY \<equiv> 522"
abbreviation (input) WindowEvent_MINIMIZE :: int where "WindowEvent_MINIMIZE \<equiv> 531"
abbreviation (input) WindowEvent_MAXIMIZE :: int where "WindowEvent_MAXIMIZE \<equiv> 532"
abbreviation (input) WindowEvent_RESTORE :: int where "WindowEvent_RESTORE \<equiv> 533"
abbreviation (input) WindowEvent_FOCUS_LOST :: int where "WindowEvent_FOCUS_LOST \<equiv> 541"
abbreviation (input) WindowEvent_FOCUS_GAINED :: int where "WindowEvent_FOCUS_GAINED \<equiv> 542"
abbreviation (input) WindowEvent_FOCUS_DISABLED :: int where "WindowEvent_FOCUS_DISABLED \<equiv> 545"
abbreviation (input) WindowEvent_FOCUS_UNGRAB :: int where "WindowEvent_FOCUS_UNGRAB \<equiv> 546"

abbreviation (input) ViewEvent_ADD :: int where "ViewEvent_ADD \<equiv> 411"
abbreviation (input) ViewEvent_REMOVE :: int where "ViewEvent_REMOVE \<equiv> 412"
abbreviation (input) ViewEvent_REPAINT :: int where "ViewEvent_REPAINT \<equiv> 421"
abbreviation (input) ViewEvent_FULLSCREEN_ENTER :: int where "ViewEvent_FULLSCREEN_ENTER \<equiv> 431"
abbreviation (input) ViewEvent_FULLSCREEN_EXIT :: int where "ViewEvent_FULLSCREEN_EXIT \<equiv> 432"

abbreviation (input) TouchEvent_TOUCH_PRESSED :: int where "TouchEvent_TOUCH_PRESSED \<equiv> 811"
abbreviation (input) TouchEvent_TOUCH_MOVED :: int where "TouchEvent_TOUCH_MOVED \<equiv> 812"
abbreviation (input) TouchEvent_TOUCH_RELEASED :: int where "TouchEvent_TOUCH_RELEASED \<equiv> 813"
abbreviation (input) TouchEvent_TOUCH_STILL :: int where "TouchEvent_TOUCH_STILL \<equiv> 814"

section \<open>Windows, views and the screen\<close>

type_synonym win = nat
type_synonym viewp = nat
type_synonym jobject = nat

datatype LensResult = LENS_OK | LENS_FAILED

datatype NativeWindowState = NWS_NORMAL | NWS_MINIMIZED | NWS_MAXIMIZED | NWS_FULLSCREEN

record LensBounds =
  b_x :: int
  b_y :: int
  b_width :: int
  b_height :: int

text \<open>The pixels of the screen are absent (\<open>None\<close>) when \<open>malloc\<close> failed.\<close>

record NativeScreen =
  depth :: int
  scr_x :: int
  scr_y :: int
  scr_width :: int
  scr_height :: int
  visibleX :: int
  visibleY :: int
  visibleWidth :: int
  visibleHeight :: int
  resolutionX :: int
  resolutionY :: int
  scr_data :: "32 word list option"

record NativeWindow =
  lensWindow :: "jobject option"
  owner :: "win option"
  screen :: int
  window_id :: int
  creationMask :: int
  currentBounds :: LensBounds
  cachedBounds :: LensBounds
  processEvents :: bool
  minWidth :: int
  maxWidth :: int
  minHeight :: int
  maxHeight :: int
  win_state :: NativeWindowState
  previousWindow :: "win option"
  nextWindow :: "win option"
  view :: "viewp option"
  win_root :: "win option"
  alpha :: rat
  isFocusable :: bool
  isVisible :: bool
  isEnabled :: bool

record NativeView =
  lensView :: "jobject option"
  parent :: "win option"
  view_bounds :: LensBounds

text \<open>The zeroed structures that \<open>calloc\<close> hands out.\<close>

definition zero_bounds :: LensBounds where
  "zero_bounds = \<lparr>b_x = 0, b_y = 0, b_width = 0, b_height = 0\<rparr>"

definition calloc_window :: NativeWindow where
  "calloc_window = \<lparr>lensWindow = None, owner = None, screen = 0, window_id = 0, creationMask = 0,
     currentBounds = zero_bounds, cachedBounds = zero_bounds, processEvents = False,
     minWidth = 0, maxWidth = 0, minHeight = 0, maxHeight = 0, win_state = NWS_NORMAL,
     previousWindow = None, nextWindow = None, view = None, win_root = None, alpha = 0,
     isFocusable = False, isVisible = False, isEnabled = False\<rparr>"

definition calloc_view :: NativeView where
  "calloc_view = \<lparr>lensView = None, parent = None, view_bounds = zero_bounds\<rparr>"

section \<open>Calls into Java\<close>

text \<open>
  One constructor per Java method that the native code calls, with the arguments it passes.
  \<open>ReportException\<close> is \<open>LensApplication.reportException\<close>; \<open>Throw\<close> is a Java exception raised
  by the native code; \<open>RaiseSIGINT\<close> is the signal of the Ctrl-C trap.
\<close>

datatype upcall =
    NotifyKeyEvent "jobject option" int int "32 word" string
  | NotifyMouseEvent "jobject option" int int int int int int "32 word" bool bool
  | NotifyScrollEvent "jobject option" int int int int rat rat "32 word"
  | NotifyTouchEvent "jobject option" int int int int int int
  | NotifyMultiTouchEvent "jobject option" "int list" "int list" "int list" "int list" int int
  | NotifyWindowResize "jobject option" int int int
  | NotifyWindowMove "jobject option" int int
  | NotifyWindowEvent "jobject option" int
  | NotifyViewEvent "jobject option" int int int int int
  | NotifyMenuEvent "jobject option" int int int int bool
  | NotifyDeviceEvent int bool
  | NotifyScreenSettingsChanged
  | VisibleListAdd "jobject option"
  | VisibleListRemove "jobject option"
  | ReportException
  | Throw string string
  | RaiseSIGINT
  | CursorSetPosition int int

section \<open>The state of the native window system\<close>

text \<open>The file-scope variables of \<open>LensInputEvents.c\<close>.\<close>

record keystate =
  shiftDown :: int
  ctrlDown :: int
  altDown :: int
  metaDown :: int
  capsOn :: bool
  modifiersMask :: "32 word"

text \<open>
  The heap and the file-scope variables of the other files. The two mutexes are the ones of
  \<open>PTHREAD_MUTEX_INITIALIZER\<close>, not recursive. \<open>throws\<close> says for every call into Java whether
  the Java method leaves an exception behind.
\<close>

record lens =
  windows :: "win \<rightharpoonup> NativeWindow"
  views :: "viewp \<rightharpoonup> NativeView"
  windowList_head :: "win option"
  windowList_tail :: "win option"
  windowList_size :: int
  windowListLocked :: bool
  renderLocked :: bool
  windowIndex :: int
  focusedWindow :: "win option"
  grabbedWindow :: "win option"
  mouseWindow :: "win option"
  dragGrabbingWindow :: "win option"
  touchWindow :: "win option"
  mousePosX :: int
  mousePosY :: int
  onDraggingAction :: bool
  mousePressedButton :: int
  isDnDStarted :: bool
  mainScreen :: "NativeScreen option"
  pApplication :: "jobject option"
  trapCtrlC :: bool
  keys :: keystate
  throws :: "upcall \<Rightarrow> bool"
  trace :: "upcall list"

section \<open>Access to the heap, the locks\<close>

text \<open>Writing through a window or view pointer: undefined when it points at nothing allocated.\<close>

definition update_window :: "win \<Rightarrow> (NativeWindow \<Rightarrow> NativeWindow) \<Rightarrow> lens \<Rightarrow> lens option" where
  "update_window w f s = (case windows s w of
       None \<Rightarrow> None
     | Some win \<Rightarrow> Some (s\<lparr>windows := (windows s)(w \<mapsto> f win)\<rparr>))"

definition update_view :: "viewp \<Rightarrow> (NativeView \<Rightarrow> NativeView) \<Rightarrow> lens \<Rightarrow> lens option" where
  "update_view v f s = (case views s v of
       None \<Rightarrow> None
     | Some x \<Rightarrow> Some (s\<lparr>views := (views s)(v \<mapsto> f x)\<rparr>))"

text \<open>A second lock by the holder of the mutex never returns.\<close>

definition glass_window_list_lock :: "lens \<Rightarrow> lens option" where
  "glass_window_list_lock s =
     (if windowListLocked s then None else Some (s\<lparr>windowListLocked := True\<rparr>))"

definition glass_window_list_unlock :: "lens \<Rightarrow> lens" where
  "glass_window_list_unlock s = s\<lparr>windowListLocked := False\<rparr>"

definition render_lock :: "lens \<Rightarrow> lens option" where
  "render_lock s = (if renderLocked s then None else Some (s\<lparr>renderLocked := True\<rparr>))"

definition render_unlock :: "lens \<Rightarrow> lens" where
  "render_unlock s = s\<lparr>renderLocked := False\<rparr>"

definition glass_screen_getMainScreen :: "lens \<Rightarrow> NativeScreen option" where
  "glass_screen_getMainScreen s = mainScreen s"

end
