(* ===== verification/LensInputEvents.thy ===== *)
theory LensInputEvents
  imports LensTypes
begin

text \<open>
  \<open>LensInputEvents.c\<close>: the keyboard map from Linux key codes to JavaFX key codes and characters,
  and the tracking of the modifier keys and mouse buttons that are down. Key codes are those of
  the Linux input layer (as in \<open>LinuxInput.java\<close>) and of \<open>KeyEvent.java\<close>.
\<close>

unbundle bit_operations_syntax

section \<open>Key codes\<close>

abbreviation (input) KEY_RESERVED :: int where "KEY_RESERVED \<equiv> 0"
abbreviation (input) KEY_ESC :: int where "KEY_ESC \<equiv> 1"
abbreviation (input) KEY_1 :: int where "KEY_1 \<equiv> 2"
abbreviation (input) KEY_2 :: int where "KEY_2 \<equiv> 3"
abbreviation (input) KEY_3 :: int where "KEY_3 \<equiv> 4"
abbreviation (input) KEY_4 :: int where "KEY_4 \<equiv> 5"
abbreviation (input) KEY_5 :: int where "KEY_5 \<equiv> 6"
abbreviation (input) KEY_6 :: int where "KEY_6 \<equiv> 7"
abbreviation (input) KEY_7 :: int where "KEY_7 \<equiv> 8"
abbreviation (input) KEY_8 :: int where "KEY_8 \<equiv> 9"
abbreviation (input) KEY_9 :: int where "KEY_9 \<equiv> 10"
abbreviation (input) KEY_0 :: int where "KEY_0 \<equiv> 11"
abbreviation (input) KEY_MINUS :: int where "KEY_MINUS \<equiv> 12"
abbreviation (input) KEY_EQUAL :: int where "KEY_EQUAL \<equiv> 13"
abbreviation (input) KEY_BACKSPACE :: int where "KEY_BACKSPACE \<equiv> 14"
abbreviation (input) KEY_TAB :: int where "KEY_TAB \<equiv> 15"
abbreviation (input) KEY_Q :: int where "KEY_Q \<equiv> 16"
abbreviation (input) KEY_W :: int where "KEY_W \<equiv> 17"
abbreviation (input) KEY_E :: int where "KEY_E \<equiv> 18"
abbreviation (input) KEY_R :: int where "KEY_R \<equiv> 19"
abbreviation (input) KEY_T :: int where "KEY_T \<equiv> 20"
abbreviation (input) KEY_Y :: int where "KEY_Y \<equiv> 21"
abbreviation (input) KEY_U :: int where "KEY_U \<equiv> 22"
abbreviation (input) KEY_I :: int where "KEY_I \<equiv> 23"
abbreviation (input) KEY_O :: int where "KEY_O \<equiv> 24"
abbreviation (input) KEY_P :: int where "KEY_P \<equiv> 25"
abbreviation (input) KEY_LEFTBRACE :: int where "KEY_LEFTBRACE \<equiv> 26"
abbreviation (input) KEY_RIGHTBRACE :: int where "KEY_RIGHTBRACE \<equiv> 27"
abbreviation (input) KEY_ENTER :: int where "KEY_ENTER \<equiv> 28"
abbreviation (input) KEY_LEFTCTRL :: int where "KEY_LEFTCTRL \<equiv> 29"
abbreviation (input) KEY_A :: int where "KEY_A \<equiv> 30"
abbreviation (input) KEY_S :: int where "KEY_S \<equiv> 31"
abbreviation (input) KEY_D :: int where "KEY_D \<equiv> 32"
abbreviation (input) KEY_F :: int where "KEY_F \<equiv> 33"
abbreviation (input) KEY_G :: int where "KEY_G \<equiv> 34"
abbreviation (input) KEY_H :: int where "KEY_H \<equiv> 35"
abbreviation (input) KEY_J :: int where "KEY_J \<equiv> 36"
abbreviation (input) KEY_K :: int where "KEY_K \<equiv> 37"
abbreviation (input) KEY_L :: int where "KEY_L \<equiv> 38"
abbreviation (input) KEY_SEMICOLON :: int where "KEY_SEMICOLON \<equiv> 39"
abbreviation (input) KEY_APOSTROPHE :: int where "KEY_APOSTROPHE \<equiv> 40"
abbreviation (input) KEY_GRAVE :: int where "KEY_GRAVE \<equiv> 41"
abbreviation (input) KEY_LEFTSHIFT :: int where "KEY_LEFTSHIFT \<equiv> 42"
abbreviation (input) KEY_BACKSLASH :: int where "KEY_BACKSLASH \<equiv> 43"
abbreviation (input) KEY_Z :: int where "KEY_Z \<equiv> 44"
abbreviation (input) KEY_X :: int where "KEY_X \<equiv> 45"
abbreviation (input) KEY_C :: int where "KEY_C \<equiv> 46"
abbreviation (input) KEY_V :: int where "KEY_V \<equiv> 47"
abbreviation (input) KEY_B :: int where "KEY_B \<equiv> 48"
abbreviation (input) KEY_N :: int where "KEY_N \<equiv> 49"
abbreviation (input) KEY_M :: int where "KEY_M \<equiv> 50"
abbreviation (input) KEY_COMMA :: int where "KEY_COMMA \<equiv> 51"
abbreviation (input) KEY_DOT :: int where "KEY_DOT \<equiv> 52"
abbreviation (input) KEY_SLASH :: int where "KEY_SLASH \<equiv> 53"
abbreviation (input) KEY_RIGHTSHIFT :: int where "KEY_RIGHTSHIFT \<equiv> 54"
abbreviation (input) KEY_KPASTERISK :: int where "KEY_KPASTERISK \<equiv> 55"
abbreviation (input) KEY_LEFTALT :: int where "KEY_LEFTALT \<equiv> 56"
abbreviation (input) KEY_SPACE :: int where "KEY_SPACE \<equiv> 57"
abbreviation (input) KEY_CAPSLOCK :: int where "KEY_CAPSLOCK \<equiv> 58"
abbreviation (input) KEY_F1 :: int where "KEY_F1 \<equiv> 59"
abbreviation (input) KEY_F2 :: int where "KEY_F2 \<equiv> 60"
abbreviation (input) KEY_F3 :: int where "KEY_F3 \<equiv> 61"
abbreviation (input) KEY_F4 :: int where "KEY_F4 \<equiv> 62"
abbreviation (input) KEY_F5 :: int where "KEY_F5 \<equiv> 63"
abbreviation (input) KEY_F6 :: int where "KEY_F6 \<equiv> 64"
abbreviation (input) KEY_F7 :: int where "KEY_F7 \<equiv> 65"
abbreviation (input) KEY_F8 :: int where "KEY_F8 \<equiv> 66"
abbreviation (input) KEY_F9 :: int where "KEY_F9 \<equiv> 67"
abbreviation (input) KEY_F10 :: int where "KEY_F10 \<equiv> 68"
abbreviation (input) KEY_NUMLOCK :: int where "KEY_NUMLOCK \<equiv> 69"
abbreviation (input) KEY_SCROLLLOCK :: int where "KEY_SCROLLLOCK \<equiv> 70"
abbreviation (input) KEY_KP7 :: int where "KEY_KP7 \<equiv> 71"
abbreviation (input) KEY_KP8 :: int where "KEY_KP8 \<equiv> 72"
abbreviation (input) KEY_KP9 :: int where "KEY_KP9 \<equiv> 73"
abbreviation (input) KEY_KPMINUS :: int where "KEY_KPMINUS \<equiv> 74"
abbreviation (input) KEY_KP4 :: int where "KEY_KP4 \<equiv> 75"
abbreviation (input) KEY_KP5 :: int where "KEY_KP5 \<equiv> 76"
abbreviation (input) KEY_KP6 :: int where "KEY_KP6 \<equiv> 77"
abbreviation (input) KEY_KPPLUS :: int where "KEY_KPPLUS \<equiv> 78"
abbreviation (input) KEY_KP1 :: int where "KEY_KP1 \<equiv> 79"
abbreviation (input) KEY_KP2 :: int where "KEY_KP2 \<equiv> 80"
abbreviation (input) KEY_KP3 :: int where "KEY_KP3 \<equiv> 81"
abbreviation (input) KEY_KP0 :: int where "KEY_KP0 \<equiv> 82"
abbreviation (input) KEY_KPDOT :: int where "KEY_KPDOT \<equiv> 83"
abbreviation (input) KEY_F11 :: int where "KEY_F11 \<equiv> 87"
abbreviation (input) KEY_F12 :: int where "KEY_F12 \<equiv> 88"
abbreviation (input) KEY_KPENTER :: int where "KEY_KPENTER \<equiv> 96"
abbreviation (input) KEY_RIGHTCTRL :: int where "KEY_RIGHTCTRL \<equiv> 97"
abbreviation (input) KEY_KPSLASH :: int where "KEY_KPSLASH \<equiv> 98"
abbreviation (input) KEY_SYSRQ :: int where "KEY_SYSRQ \<equiv> 99"
abbreviation (input) KEY_RIGHTALT :: int where "KEY_RIGHTALT \<equiv> 100"
abbreviation (input) KEY_HOME :: int where "KEY_HOME \<equiv> 102"
abbreviation (input) KEY_UP :: int where "KEY_UP \<equiv> 103"
abbreviation (input) KEY_PAGEUP :: int where "KEY_PAGEUP \<equiv> 104"
abbreviation (input) KEY_LEFT :: int where "KEY_LEFT \<equiv> 105"
abbreviation (input) KEY_RIGHT :: int where "KEY_RIGHT \<equiv> 106"
abbreviation (input) KEY_END :: int where "KEY_END \<equiv> 107"
abbreviation (input) KEY_DOWN :: int where "KEY_DOWN \<equiv> 108"
abbreviation (input) KEY_PAGEDOWN :: int where "KEY_PAGEDOWN \<equiv> 109"
abbreviation (input) KEY_INSERT :: int where "KEY_INSERT \<equiv> 110"
abbreviation (input) KEY_DELETE :: int where "KEY_DELETE \<equiv> 111"
abbreviation (input) KEY_LEFTMETA :: int where "KEY_LEFTMETA \<equiv> 125"
abbreviation (input) KEY_RIGHTMETA :: int where "KEY_RIGHTMETA \<equiv> 126"
abbreviation (input) KEY_COMPOSE :: int where "KEY_COMPOSE \<equiv> 127"

abbreviation (input) VK_UNDEFINED :: int where "VK_UNDEFINED \<equiv> 0"
abbreviation (input) VK_ESCAPE :: int where "VK_ESCAPE \<equiv> 27"
abbreviation (input) VK_1 :: int where "VK_1 \<equiv> 49"
abbreviation (input) VK_2 :: int where "VK_2 \<equiv> 50"
abbreviation (input) VK_3 :: int where "VK_3 \<equiv> 51"
abbreviation (input) VK_4 :: int where "VK_4 \<equiv> 52"
abbreviation (input) VK_5 :: int where "VK_5 \<equiv> 53"
abbreviation (input) VK_6 :: int where "VK_6 \<equiv> 54"
abbreviation (input) VK_7 :: int where "VK_7 \<equiv> 55"
abbreviation (input) VK_8 :: int where "VK_8 \<equiv> 56"
abbreviation (input) VK_9 :: int where "VK_9 \<equiv> 57"
abbreviation (input) VK_0 :: int where "VK_0 \<equiv> 48"
abbreviation (input) VK_MINUS :: int where "VK_MINUS \<equiv> 45"
abbreviation (input) VK_EQUALS :: int where "VK_EQUALS \<equiv> 61"
abbreviation (input) VK_BACKSPACE :: int where "VK_BACKSPACE \<equiv> 8"
abbreviation (input) VK_TAB :: int where "VK_TAB \<equiv> 9"
abbreviation (input) VK_Q :: int where "VK_Q \<equiv> 81"
abbreviation (input) VK_W :: int where "VK_W \<equiv> 87"
abbreviation (input) VK_E :: int where "VK_E \<equiv> 69"
abbreviation (input) VK_R :: int where "VK_R \<equiv> 82"
abbreviation (input) VK_T :: int where "VK_T \<equiv> 84"
abbreviation (input) VK_Y :: int where "VK_Y \<equiv> 89"
abbreviation (input) VK_U :: int where "VK_U \<equiv> 85"
abbreviation (input) VK_I :: int where "VK_I \<equiv> 73"
abbreviation (input) VK_O :: int where "VK_O \<equiv> 79"
abbreviation (input) VK_P :: int where "VK_P \<equiv> 80"
abbreviation (input) VK_OPEN_BRACKET :: int where "VK_OPEN_BRACKET \<equiv> 91"
abbreviation (input) VK_CLOSE_BRACKET :: int where "VK_CLOSE_BRACKET \<equiv> 93"
abbreviation (input) VK_ENTER :: int where "VK_ENTER \<equiv> 10"
abbreviation (input) VK_CONTROL :: int where "VK_CONTROL \<equiv> 17"
abbreviation (input) VK_A :: int where "VK_A \<equiv> 65"
abbreviation (input) VK_S :: int where "VK_S \<equiv> 83"
abbreviation (input) VK_D :: int where "VK_D \<equiv> 68"
abbreviation (input) VK_F :: int where "VK_F \<equiv> 70"
abbreviation (input) VK_G :: int where "VK_G \<equiv> 71"
abbreviation (input) VK_H :: int where "VK_H \<equiv> 72"
abbreviation (input) VK_J :: int where "VK_J \<equiv> 74"
abbreviation (input) VK_K :: int where "VK_K \<equiv> 75"
abbreviation (input) VK_L :: int where "VK_L \<equiv> 76"
abbreviation (input) VK_SEMICOLON :: int where "VK_SEMICOLON \<equiv> 59"
abbreviation (input) VK_QUOTE :: int where "VK_QUOTE \<equiv> 222"
abbreviation (input) VK_BACK_QUOTE :: int where "VK_BACK_QUOTE \<equiv> 192"
abbreviation (input) VK_SHIFT :: int where "VK_SHIFT \<equiv> 16"
abbreviation (input) VK_BACK_SLASH :: int where "VK_BACK_SLASH \<equiv> 92"
abbreviation (input) VK_Z :: int where "VK_Z \<equiv> 90"
abbreviation (input) VK_X :: int where "VK_X \<equiv> 88"
abbreviation (input) VK_C :: int where "VK_C \<equiv> 67"
abbreviation (input) VK_V :: int where "VK_V \<equiv> 86"
abbreviation (input) VK_B :: int where "VK_B \<equiv> 66"
abbreviation (input) VK_N :: int where "VK_N \<equiv> 78"
abbreviation (input) VK_M :: int where "VK_M \<equiv> 77"
abbreviation (input) VK_COMMA :: int where "VK_COMMA \<equiv> 44"
abbreviation (input) VK_PERIOD :: int where "VK_PERIOD \<equiv> 46"
abbreviation (input) VK_SLASH :: int where "VK_SLASH \<equiv> 47"
abbreviation (input) VK_MULTIPLY :: int where "VK_MULTIPLY \<equiv> 106"
abbreviation (input) VK_ALT :: int where "VK_ALT \<equiv> 18"
abbreviation (input) VK_SPACE :: int where "VK_SPACE \<equiv> 32"
abbreviation (input) VK_CAPS_LOCK :: int where "VK_CAPS_LOCK \<equiv> 20"
abbreviation (input) VK_F1 :: int where "VK_F1 \<equiv> 112"
abbreviation (input) VK_F2 :: int where "VK_F2 \<equiv> 113"
abbreviation (input) VK_F3 :: int where "VK_F3 \<equiv> 114"
abbreviation (input) VK_F4 :: int where "VK_F4 \<equiv> 115"
abbreviation (input) VK_F5 :: int where "VK_F5 \<equiv> 116"
abbreviation (input) VK_F6 :: int where "VK_F6 \<equiv> 117"
abbreviation (input) VK_F7 :: int where "VK_F7 \<equiv> 118"
abbreviation (input) VK_F8 :: int where "VK_F8 \<equiv> 119"
abbreviation (input) VK_F9 :: int where "VK_F9 \<equiv> 120"
abbreviation (input) VK_F10 :: int where "VK_F10 \<equiv> 121"
abbreviation (input) VK_NUM_LOCK :: int where "VK_NUM_LOCK \<equiv> 144"
abbreviation (input) VK_SCROLL_LOCK :: int where "VK_SCROLL_LOCK \<equiv> 145"
abbreviation (input) VK_NUMPAD7 :: int where "VK_NUMPAD7 \<equiv> 103"
abbreviation (input) VK_NUMPAD8 :: int where "VK_NUMPAD8 \<equiv> 104"
abbreviation (input) VK_NUMPAD9 :: int where "VK_NUMPAD9 \<equiv> 105"
abbreviation (input) VK_SUBTRACT :: int where "VK_SUBTRACT \<equiv> 109"
abbreviation (input) VK_NUMPAD4 :: int where "VK_NUMPAD4 \<equiv> 100"
abbreviation (input) VK_NUMPAD5 :: int where "VK_NUMPAD5 \<equiv> 101"
abbreviation (input) VK_NUMPAD6 :: int where "VK_NUMPAD6 \<equiv> 102"
abbreviation (input) VK_ADD :: int where "VK_ADD \<equiv> 107"
abbreviation (input) VK_NUMPAD1 :: int where "VK_NUMPAD1 \<equiv> 97"
abbreviation (input) VK_NUMPAD2 :: int where "VK_NUMPAD2 \<equiv> 98"
abbreviation (input) VK_NUMPAD3 :: int where "VK_NUMPAD3 \<equiv> 99"
abbreviation (input) VK_DECIMAL :: int where "VK_DECIMAL \<equiv> 110"
abbreviation (input) VK_F11 :: int where "VK_F11 \<equiv> 122"
abbreviation (input) VK_F12 :: int where "VK_F12 \<equiv> 123"
abbreviation (input) VK_DIVIDE :: int where "VK_DIVIDE \<equiv> 111"
abbreviation (input) VK_PRINTSCREEN :: int where "VK_PRINTSCREEN \<equiv> 154"
abbreviation (input) VK_HOME :: int where "VK_HOME \<equiv> 36"
abbreviation (input) VK_UP :: int where "VK_UP \<equiv> 38"
abbreviation (input) VK_PAGE_UP :: int where "VK_PAGE_UP \<equiv> 33"
abbreviation (input) VK_LEFT :: int where "VK_LEFT \<equiv> 37"
abbreviation (input) VK_RIGHT :: int where "VK_RIGHT \<equiv> 39"
abbreviation (input) VK_END :: int where "VK_END \<equiv> 35"
abbreviation (input) VK_DOWN :: int where "VK_DOWN \<equiv> 40"
abbreviation (input) VK_PAGE_DOWN :: int where "VK_PAGE_DOWN \<equiv> 34"
abbreviation (input) VK_INSERT :: int where "VK_INSERT \<equiv> 155"
abbreviation (input) VK_DELETE :: int where "VK_DELETE \<equiv> 127"
abbreviation (input) VK_WINDOWS :: int where "VK_WINDOWS \<equiv> 524"
abbreviation (input) VK_CONTEXT_MENU :: int where "VK_CONTEXT_MENU \<equiv> 525"

abbreviation (input) KeyEvent_PRESS :: int where "KeyEvent_PRESS \<equiv> 111"
abbreviation (input) KeyEvent_RELEASE :: int where "KeyEvent_RELEASE \<equiv> 112"
abbreviation (input) KeyEvent_TYPED :: int where "KeyEvent_TYPED \<equiv> 113"

abbreviation (input) MODIFIER_NONE :: "32 word" where "MODIFIER_NONE \<equiv> 0"
abbreviation (input) MODIFIER_SHIFT :: "32 word" where "MODIFIER_SHIFT \<equiv> 1"
abbreviation (input) MODIFIER_CONTROL :: "32 word" where "MODIFIER_CONTROL \<equiv> 4"
abbreviation (input) MODIFIER_ALT :: "32 word" where "MODIFIER_ALT \<equiv> 8"
abbreviation (input) MODIFIER_WINDOWS :: "32 word" where "MODIFIER_WINDOWS \<equiv> 16"
abbreviation (input) MODIFIER_BUTTON_PRIMARY :: "32 word" where "MODIFIER_BUTTON_PRIMARY \<equiv> 32"
abbreviation (input) MODIFIER_BUTTON_SECONDARY :: "32 word" where "MODIFIER_BUTTON_SECONDARY \<equiv> 64"
abbreviation (input) MODIFIER_BUTTON_MIDDLE :: "32 word" where "MODIFIER_BUTTON_MIDDLE \<equiv> 128"

section \<open>The keyboard map\<close>

record LensKeyboardMap =
  platformKeyCode :: int
  jfxKeyCode :: int
  keyStr :: string
  keyStrWithShift :: string

definition keyEntry :: "int \<Rightarrow> int \<Rightarrow> string \<Rightarrow> string \<Rightarrow> LensKeyboardMap" where
  "keyEntry p j s t =
     \<lparr>platformKeyCode = p, jfxKeyCode = j, keyStr = s, keyStrWithShift = t\<rparr>"

definition keyMap :: "LensKeyboardMap list" where
  "keyMap = [
     keyEntry KEY_RESERVED VK_UNDEFINED '''' '''',
     keyEntry KEY_ESC VK_ESCAPE '''' '''',
     keyEntry KEY_1 VK_1 ''1'' ''!'',
     keyEntry KEY_2 VK_2 ''2'' ''@'',
     keyEntry KEY_3 VK_3 ''3'' ''#'',
     keyEntry KEY_4 VK_4 ''4'' ''$'',
     keyEntry KEY_5 VK_5 ''5'' ''%'',
     keyEntry KEY_6 VK_6 ''6'' ''^'',
     keyEntry KEY_7 VK_7 ''7'' ''&'',
     keyEntry KEY_8 VK_8 ''8'' ''*'',
     keyEntry KEY_9 VK_9 ''9'' ''('',
     keyEntry KEY_0 VK_0 ''0'' '')'',
     keyEntry KEY_MINUS VK_MINUS ''-'' ''_'',
     keyEntry KEY_EQUAL VK_EQUALS ''='' ''+'',
     keyEntry KEY_BACKSPACE VK_BACKSPACE '''' '''',
     keyEntry KEY_TAB VK_TAB '''' '''',
     keyEntry KEY_Q VK_Q ''q'' ''Q'',
     keyEntry KEY_W VK_W ''w'' ''W'',
     keyEntry KEY_E VK_E ''e'' ''E'',
     keyEntry KEY_R VK_R ''r'' ''R'',
     keyEntry KEY_T VK_T ''t'' ''T'',
     keyEntry KEY_Y VK_Y ''y'' ''Y'',
     keyEntry KEY_U VK_U ''u'' ''U'',
     keyEntry KEY_I VK_I ''i'' ''I'',
     keyEntry KEY_O VK_O ''o'' ''O'',
     keyEntry KEY_P VK_P ''p'' ''P'',
     keyEntry KEY_LEFTBRACE VK_OPEN_BRACKET ''['' ''{'',
     keyEntry KEY_RIGHTBRACE VK_CLOSE_BRACKET '']'' ''}'',
     keyEntry KEY_ENTER VK_ENTER '''' '''',
     keyEntry KEY_LEFTCTRL VK_CONTROL '''' '''',
     keyEntry KEY_A VK_A ''a'' ''A'',
     keyEntry KEY_S VK_S ''s'' ''S'',
     keyEntry KEY_D VK_D ''d'' ''D'',
     keyEntry KEY_F VK_F ''f'' ''F'',
     keyEntry KEY_G VK_G ''g'' ''G'',
     keyEntry KEY_H VK_H ''h'' ''H'',
     keyEntry KEY_J VK_J ''j'' ''J'',
     keyEntry KEY_K VK_K ''k'' ''K'',
     keyEntry KEY_L VK_L ''l'' ''L'',
     keyEntry KEY_SEMICOLON VK_SEMICOLON '';'' '':'',
     keyEntry KEY_APOSTROPHE VK_QUOTE [CHR 0x27] [CHR 0x22],
     keyEntry KEY_GRAVE VK_BACK_QUOTE [CHR 0x60] ''~'',
     keyEntry KEY_LEFTSHIFT VK_SHIFT '''' '''',
     keyEntry KEY_BACKSLASH VK_BACK_SLASH [CHR 0x5C] ''|'',
     keyEntry KEY_Z VK_Z ''z'' ''Z'',
     keyEntry KEY_X VK_X ''x'' ''X'',
     keyEntry KEY_C VK_C ''c'' ''C'',
     keyEntry KEY_V VK_V ''v'' ''V'',
     keyEntry KEY_B VK_B ''b'' ''B'',
     keyEntry KEY_N VK_N ''n'' ''N'',
     keyEntry KEY_M VK_M ''m'' ''M'',
     keyEntry KEY_COMMA VK_COMMA '','' ''<'',
     keyEntry KEY_DOT VK_PERIOD ''.'' ''>'',
     keyEntry KEY_SLASH VK_SLASH ''/'' ''?'',
     keyEntry KEY_RIGHTSHIFT VK_SHIFT '''' '''',
     keyEntry KEY_KPASTERISK VK_MULTIPLY ''*'' '''',
     keyEntry KEY_LEFTALT VK_ALT '''' '''',
     keyEntry KEY_SPACE VK_SPACE '' '' '' '',
     keyEntry KEY_CAPSLOCK VK_CAPS_LOCK '''' '''',
     keyEntry KEY_F1 VK_F1 '''' '''',
     keyEntry KEY_F2 VK_F2 '''' '''',
     keyEntry KEY_F3 VK_F3 '''' '''',
     keyEntry KEY_F4 VK_F4 '''' '''',
     keyEntry KEY_F5 VK_F5 '''' '''',
     keyEntry KEY_F6 VK_F6 '''' '''',
     keyEntry KEY_F7 VK_F7 '''' '''',
     keyEntry KEY_F8 VK_F8 '''' '''',
     keyEntry KEY_F9 VK_F9 '''' '''',
     keyEntry KEY_F10 VK_F10 '''' '''',
     keyEntry KEY_NUMLOCK VK_NUM_LOCK '''' '''',
     keyEntry KEY_SCROLLLOCK VK_SCROLL_LOCK '''' '''',
     keyEntry KEY_KP7 VK_NUMPAD7 ''7'' '''',
     keyEntry KEY_KP8 VK_NUMPAD8 ''8'' '''',
     keyEntry KEY_KP9 VK_NUMPAD9 ''9'' '''',
     keyEntry KEY_KPMINUS VK_SUBTRACT ''-'' '''',
     keyEntry KEY_KP4 VK_NUMPAD4 ''4'' '''',
     keyEntry KEY_KP5 VK_NUMPAD5 ''5'' '''',
     keyEntry KEY_KP6 VK_NUMPAD6 ''6'' '''',
     keyEntry KEY_KPPLUS VK_ADD ''+'' '''',
     keyEntry KEY_KP1 VK_NUMPAD1 ''1'' '''',
     keyEntry KEY_KP2 VK_NUMPAD2 ''2'' '''',
     keyEntry KEY_KP3 VK_NUMPAD3 ''3'' '''',
     keyEntry KEY_KP0 VK_NUMPAD7 ''0'' '''',
     keyEntry KEY_KPDOT VK_DECIMAL ''.'' '''',
     keyEntry KEY_F11 VK_F11 '''' '''',
     keyEntry KEY_F12 VK_F12 '''' '''',
     keyEntry KEY_KPENTER VK_ENTER '''' '''',
     keyEntry KEY_RIGHTCTRL VK_CONTROL '''' '''',
     keyEntry KEY_KPSLASH VK_DIVIDE ''/'' '''',
     keyEntry KEY_SYSRQ VK_PRINTSCREEN '''' '''',
     keyEntry KEY_RIGHTALT VK_ALT '''' '''',
     keyEntry KEY_HOME VK_HOME '''' '''',
     keyEntry KEY_UP VK_UP '''' '''',
     keyEntry KEY_PAGEUP VK_PAGE_UP '''' '''',
     keyEntry KEY_LEFT VK_LEFT '''' '''',
     keyEntry KEY_RIGHT VK_RIGHT '''' '''',
     keyEntry KEY_END VK_END '''' '''',
     keyEntry KEY_DOWN VK_DOWN '''' '''',
     keyEntry KEY_PAGEDOWN VK_PAGE_DOWN '''' '''',
     keyEntry KEY_INSERT VK_INSERT '''' '''',
     keyEntry KEY_DELETE VK_DELETE '''' '''',
     keyEntry KEY_LEFTMETA VK_WINDOWS '''' '''',
     keyEntry KEY_RIGHTMETA VK_WINDOWS '''' '''',
     keyEntry KEY_COMPOSE VK_CONTEXT_MENU '''' '''']"

section \<open>Shift state and modifiers\<close>

definition glass_inputEvents_isAlpha :: "int \<Rightarrow> bool" where
  "glass_inputEvents_isAlpha javaKeyCode = (VK_A \<le> javaKeyCode \<and> javaKeyCode \<le> VK_Z)"

text \<open>The count is stored into a \<open>jboolean\<close>, an unsigned byte: only its low eight bits count.\<close>

definition jboolean_of_int :: "int \<Rightarrow> bool" where
  "jboolean_of_int n = (n mod 256 \<noteq> 0)"

definition glass_inputEvents_checkForShift :: "keystate \<Rightarrow> int \<Rightarrow> bool" where
  "glass_inputEvents_checkForShift k keyCode =
     (if capsOn k
      then (if glass_inputEvents_isAlpha keyCode then shiftDown k = 0
            else jboolean_of_int (shiftDown k))
      else jboolean_of_int (shiftDown k))"

definition count_key :: "bool \<Rightarrow> int \<Rightarrow> int" where
  "count_key isPressed n = (if isPressed then n + 1 else n - 1)"

definition set_mask :: "bool \<Rightarrow> 32 word \<Rightarrow> 32 word \<Rightarrow> 32 word" where
  "set_mask on bits m = (if on then m OR bits else m AND NOT bits)"

definition update_modifier_keys :: "bool \<Rightarrow> int \<Rightarrow> keystate \<Rightarrow> keystate" where
  "update_modifier_keys isPressed key k =
     (if key = VK_SHIFT then
        (let n = count_key isPressed (shiftDown k)
         in k\<lparr>shiftDown := n, modifiersMask := set_mask (n \<noteq> 0) MODIFIER_SHIFT (modifiersMask k)\<rparr>)
      else if key = VK_CONTROL then
        (let n = count_key isPressed (ctrlDown k)
         in k\<lparr>ctrlDown := n, modifiersMask := set_mask (n \<noteq> 0) MODIFIER_CONTROL (modifiersMask k)\<rparr>)
      else if key = VK_ALT then
        (let n = count_key isPressed (altDown k)
         in k\<lparr>altDown := n, modifiersMask := set_mask (n \<noteq> 0) MODIFIER_ALT (modifiersMask k)\<rparr>)
      else if key = VK_WINDOWS then
        (let n = count_key isPressed (metaDown k)
         in k\<lparr>metaDown := n, modifiersMask := set_mask (n \<noteq> 0) MODIFIER_WINDOWS (modifiersMask k)\<rparr>)
      else if key = VK_CAPS_LOCK \<and> isPressed then k\<lparr>capsOn := \<not> capsOn k\<rparr>
      else k)"

definition glass_inputEvents_updateKeyModifiers :: "int \<Rightarrow> int \<Rightarrow> keystate \<Rightarrow> keystate" where
  "glass_inputEvents_updateKeyModifiers key eventType k =
     (if eventType = KeyEvent_PRESS then update_modifier_keys True key k
      else if eventType = KeyEvent_RELEASE then update_modifier_keys False key k
      else k)"

definition button_mask :: "int \<Rightarrow> 32 word" where
  "button_mask button =
     (if button = MouseEvent_BUTTON_LEFT then MODIFIER_BUTTON_PRIMARY
      else if button = MouseEvent_BUTTON_RIGHT then MODIFIER_BUTTON_SECONDARY
      else if button = MouseEvent_BUTTON_OTHER then MODIFIER_BUTTON_MIDDLE
      else MODIFIER_NONE)"

definition glass_inputEvents_updateMouseButtonModifiers :: "int \<Rightarrow> int \<Rightarrow> keystate \<Rightarrow> keystate" where
  "glass_inputEvents_updateMouseButtonModifiers button eventType k =
     (if eventType = MouseEvent_DOWN \<or> eventType = MouseEvent_UP then
        (let bits = button_mask button
         in if bits \<noteq> MODIFIER_NONE
            then k\<lparr>modifiersMask := set_mask (eventType = MouseEvent_DOWN) bits (modifiersMask k)\<rparr>
            else k)
      else k)"

definition glass_inputEvents_getModifiers :: "keystate \<Rightarrow> 32 word" where
  "glass_inputEvents_getModifiers k = modifiersMask k"

definition glass_inputEvents_isKeyModifier :: "int \<Rightarrow> bool" where
  "glass_inputEvents_isKeyModifier jfxKey =
     (jfxKey = VK_SHIFT \<or> jfxKey = VK_ALT \<or> jfxKey = VK_CONTROL \<or> jfxKey = VK_WINDOWS
      \<or> jfxKey = VK_CAPS_LOCK)"

section \<open>Look-ups in the keyboard map\<close>

text \<open>The \<open>for\<close> loops over the table, which return at the first match.\<close>

fun scan_platform :: "LensKeyboardMap list \<Rightarrow> int \<Rightarrow> int" where
  "scan_platform [] platformKey = VK_UNDEFINED"
| "scan_platform (e # es) platformKey =
     (if platformKeyCode e = platformKey then jfxKeyCode e else scan_platform es platformKey)"

definition glass_inputEvents_getJavaKeycodeFromPlatformKeyCode :: "int \<Rightarrow> int" where
  "glass_inputEvents_getJavaKeycodeFromPlatformKeyCode platformKey = scan_platform keyMap platformKey"

text \<open>\<open>s[0]\<close> of a C string: the terminating zero byte for the empty one.\<close>

definition first_byte :: "string \<Rightarrow> int" where
  "first_byte s = (case s of [] \<Rightarrow> 0 | c # _ \<Rightarrow> of_char c)"

fun scan_jchar :: "LensKeyboardMap list \<Rightarrow> int \<Rightarrow> int" where
  "scan_jchar [] c = VK_UNDEFINED"
| "scan_jchar (e # es) c =
     (if first_byte (keyStr e) = c \<or> first_byte (keyStrWithShift e) = c then jfxKeyCode e
      else scan_jchar es c)"

definition glass_inputEvents_getJavaKeyCodeFromJChar :: "int \<Rightarrow> int" where
  "glass_inputEvents_getJavaKeyCodeFromJChar c = scan_jchar keyMap c"

fun scan_keychar :: "keystate \<Rightarrow> LensKeyboardMap list \<Rightarrow> int \<Rightarrow> string option" where
  "scan_keychar k [] jfxKey = None"
| "scan_keychar k (e # es) jfxKey =
     (if jfxKeyCode e = jfxKey
      then Some (if glass_inputEvents_checkForShift k jfxKey then keyStrWithShift e else keyStr e)
      else scan_keychar k es jfxKey)"

text \<open>\<open>None\<close> is \<open>LENS_FAILED\<close>; the callers pass a non-null place for the string.\<close>

definition glass_inputEvents_getKeyChar :: "keystate \<Rightarrow> int \<Rightarrow> string option" where
  "glass_inputEvents_getKeyChar k jfxKey = scan_keychar k keyMap jfxKey"

section \<open>The modifier mask follows the keys and buttons\<close>

lemma bit_modifiers:
  "bit MODIFIER_SHIFT n = (n = 0)" "bit MODIFIER_CONTROL n = (n = 2)"
  "bit MODIFIER_ALT n = (n = 3)" "bit MODIFIER_WINDOWS n = (n = 4)"
  "bit MODIFIER_BUTTON_PRIMARY n = (n = 5)" "bit MODIFIER_BUTTON_SECONDARY n = (n = 6)"
  "bit MODIFIER_BUTTON_MIDDLE n = (n = 7)"
proof -
  have exp: "bit (2 ^ m :: 32 word) n = (n = m)" if "m < 32" for m
    using that by (auto simp: bit_exp_iff)
  show "bit MODIFIER_SHIFT n = (n = 0)" "bit MODIFIER_CONTROL n = (n = 2)"
    "bit MODIFIER_ALT n = (n = 3)" "bit MODIFIER_WINDOWS n = (n = 4)"
    "bit MODIFIER_BUTTON_PRIMARY n = (n = 5)" "bit MODIFIER_BUTTON_SECONDARY n = (n = 6)"
    "bit MODIFIER_BUTTON_MIDDLE n = (n = 7)"
    using exp [of 0] exp [of 2] exp [of 3] exp [of 4] exp [of 5] exp [of 6] exp [of 7] by simp_all
qed

lemma bit_set_mask: "n < 32 \<Longrightarrow> bit (set_mask on bits m) n = (if bit bits n then on else bit m n)"
  by (simp add: set_mask_def bit_simps)

lemmas modifier_defs = glass_inputEvents_updateKeyModifiers_def update_modifier_keys_def
  glass_inputEvents_updateMouseButtonModifiers_def button_mask_def count_key_def Let_def
  bit_set_mask bit_modifiers

text \<open>The events that reach the modifier state: a key or a mouse button, with its event type.\<close>

datatype input_event = KeyInput int int | ButtonInput int int

fun input_step :: "input_event \<Rightarrow> keystate \<Rightarrow> keystate" where
  "input_step (KeyInput key eventType) k = glass_inputEvents_updateKeyModifiers key eventType k"
| "input_step (ButtonInput button eventType) k =
     glass_inputEvents_updateMouseButtonModifiers button eventType k"

text \<open>The zero-initialised variables at program start.\<close>

definition keys_init :: keystate where
  "keys_init = \<lparr>shiftDown = 0, ctrlDown = 0, altDown = 0, metaDown = 0, capsOn = False,
     modifiersMask = MODIFIER_NONE\<rparr>"

definition presses :: "int \<Rightarrow> input_event list \<Rightarrow> int" where
  "presses key evs = int (count_list evs (KeyInput key KeyEvent_PRESS))
     - int (count_list evs (KeyInput key KeyEvent_RELEASE))"

text \<open>A mouse button is held when the last of its down and up events was a down.\<close>

definition held :: "int \<Rightarrow> input_event list \<Rightarrow> bool" where
  "held button evs = fold (\<lambda>e h. if e = ButtonInput button MouseEvent_DOWN then True
     else if e = ButtonInput button MouseEvent_UP then False else h) evs False"

text \<open>What every run keeps: the counters are press minus release, and a bit is its counter.\<close>

definition mask_agrees :: "input_event list \<Rightarrow> keystate \<Rightarrow> bool" where
  "mask_agrees evs k \<longleftrightarrow>
     shiftDown k = presses VK_SHIFT evs \<and> ctrlDown k = presses VK_CONTROL evs \<and>
     altDown k = presses VK_ALT evs \<and> metaDown k = presses VK_WINDOWS evs \<and>
     bit (modifiersMask k) 0 = (shiftDown k \<noteq> 0) \<and> bit (modifiersMask k) 2 = (ctrlDown k \<noteq> 0) \<and>
     bit (modifiersMask k) 3 = (altDown k \<noteq> 0) \<and> bit (modifiersMask k) 4 = (metaDown k \<noteq> 0) \<and>
     bit (modifiersMask k) 5 = held MouseEvent_BUTTON_LEFT evs \<and>
     bit (modifiersMask k) 6 = held MouseEvent_BUTTON_RIGHT evs \<and>
     bit (modifiersMask k) 7 = held MouseEvent_BUTTON_OTHER evs"

lemma presses_snoc [simp]:
  "presses key (evs @ [e]) = presses key evs +
     (if e = KeyInput key KeyEvent_PRESS then 1 else if e = KeyInput key KeyEvent_RELEASE then -1 else 0)"
  by (simp add: presses_def)

lemma held_snoc [simp]:
  "held button (evs @ [e]) = (if e = ButtonInput button MouseEvent_DOWN then True
     else if e = ButtonInput button MouseEvent_UP then False else held button evs)"
  by (simp add: held_def)

lemma mask_agrees_step: "mask_agrees evs k \<Longrightarrow> mask_agrees (evs @ [e]) (input_step e k)"
  by (cases e) (auto simp: mask_agrees_def modifier_defs)

lemma mask_agrees_run: "mask_agrees evs (fold input_step evs keys_init)"
proof (induction evs rule: rev_induct)
  case Nil
  show ?case by (simp add: mask_agrees_def keys_init_def presses_def held_def)
next
  case (snoc e evs)
  then show ?case using mask_agrees_step [of evs _ e] by simp
qed

text \<open>
  C7: the modifier mask is exact after any sequence of key and button events from program start:
  each of the Shift, Control, Alt and Windows bits is set if and only if that key (left or right)
  has been pressed a different number of times than released (so a release without its press
  leaves the bit set), and each mouse button bit is set if and only if the last down or up event
  of that button was a down.
\<close>

theorem modifier_mask_exact:
  "let m = glass_inputEvents_getModifiers (fold input_step evs keys_init) in
     (bit m 0 \<longleftrightarrow> presses VK_SHIFT evs \<noteq> 0) \<and> (bit m 2 \<longleftrightarrow> presses VK_CONTROL evs \<noteq> 0) \<and>
     (bit m 3 \<longleftrightarrow> presses VK_ALT evs \<noteq> 0) \<and> (bit m 4 \<longleftrightarrow> presses VK_WINDOWS evs \<noteq> 0) \<and>
     (bit m 5 \<longleftrightarrow> held MouseEvent_BUTTON_LEFT evs) \<and>
     (bit m 6 \<longleftrightarrow> held MouseEvent_BUTTON_RIGHT evs) \<and>
     (bit m 7 \<longleftrightarrow> held MouseEvent_BUTTON_OTHER evs)"
  using mask_agrees_run [of evs]
  by (simp add: Let_def glass_inputEvents_getModifiers_def mask_agrees_def)

section \<open>The keyboard map is consistent\<close>

text \<open>The two scans as searches in the table.\<close>

lemma scan_keychar_find:
  "scan_keychar k es j = map_option
     (\<lambda>e. if glass_inputEvents_checkForShift k j then keyStrWithShift e else keyStr e)
     (find (\<lambda>e. jfxKeyCode e = j) es)"
  by (induction es) auto

definition entry_consistent :: "LensKeyboardMap \<Rightarrow> bool" where
  "entry_consistent e =
     (case find (\<lambda>e'. jfxKeyCode e' = scan_platform keyMap (platformKeyCode e)) keyMap of
        None \<Rightarrow> False
      | Some e' \<Rightarrow> jfxKeyCode e' = jfxKeyCode e \<and> keyStr e' = keyStr e
                   \<and> keyStrWithShift e' = keyStrWithShift e)"

lemma keyMap_consistent:
  "list_all (\<lambda>e. platformKeyCode e = KEY_KP0 \<or> entry_consistent e) keyMap"
  by code_simp

lemma entry_consistent_char:
  assumes "entry_consistent e"
  shows "glass_inputEvents_getKeyChar k
           (glass_inputEvents_getJavaKeycodeFromPlatformKeyCode (platformKeyCode e)) =
         Some (if glass_inputEvents_checkForShift k (jfxKeyCode e) then keyStrWithShift e else keyStr e)"
proof -
  obtain e' where f: "find (\<lambda>e'. jfxKeyCode e' = scan_platform keyMap (platformKeyCode e)) keyMap = Some e'"
    and eq: "jfxKeyCode e' = jfxKeyCode e" "keyStr e' = keyStr e" "keyStrWithShift e' = keyStrWithShift e"
    using assms by (auto simp: entry_consistent_def split: option.splits)
  moreover have "jfxKeyCode e' = scan_platform keyMap (platformKeyCode e)"
    using f by (auto simp: find_Some_iff)
  ultimately show ?thesis
    by (simp add: glass_inputEvents_getKeyChar_def scan_keychar_find
        glass_inputEvents_getJavaKeycodeFromPlatformKeyCode_def)
qed

text \<open>
  C20: translating a Linux key code to a JavaFX key and that key to its characters gives back the
  characters of the key's own row of the table, shifted or not as the state of Shift and Caps Lock
  says, for every key of the keyboard map but one. The one is the keypad 0: its row names the
  JavaFX key of keypad 7, so pressing keypad 0 types a 7.
\<close>

theorem keyMap_roundtrip:
  "list_all (\<lambda>e. glass_inputEvents_getKeyChar k
        (glass_inputEvents_getJavaKeycodeFromPlatformKeyCode (platformKeyCode e)) =
        Some (if glass_inputEvents_checkForShift k (jfxKeyCode e) then keyStrWithShift e else keyStr e))
     (filter (\<lambda>e. platformKeyCode e \<noteq> KEY_KP0) keyMap)
   \<and> glass_inputEvents_getKeyChar keys_init
        (glass_inputEvents_getJavaKeycodeFromPlatformKeyCode KEY_KP0) = Some ''7''"
proof
  show "glass_inputEvents_getKeyChar keys_init
        (glass_inputEvents_getJavaKeycodeFromPlatformKeyCode KEY_KP0) = Some ''7''"
    by code_simp
qed (use keyMap_consistent in \<open>auto simp: list_all_iff entry_consistent_char\<close>)

end
