(* ===== verification/LensApplication.thy ===== *)
theory LensApplication
  imports LensInputEvents
begin

text \<open>
  \<open>LensApplication.c\<close>: the native side of \<open>LensApplication.java\<close>. Each \<open>notify\<close> function checks
  that there is an application (and a window, a view) to notify, calls the Java method and
  reports the exception the method may leave. The Java methods only post to the event queue of
  the Java event loop, so a call does not come back into native code before it returns.
\<close>

section \<open>The variables at program start\<close>

definition lens_init :: lens where
  "lens_init = \<lparr>windows = Map.empty, views = Map.empty, windowList_head = None,
     windowList_tail = None, windowList_size = 0, windowListLocked = False, renderLocked = False,
     windowIndex = 1, focusedWindow = None, grabbedWindow = None, mouseWindow = None,
     dragGrabbingWindow = None, touchWindow = None, mousePosX = 0, mousePosY = 0,
     onDraggingAction = False, mousePressedButton = MouseEvent_BUTTON_NONE, isDnDStarted = False,
     mainScreen = None, pApplication = None, trapCtrlC = False, keys = keys_init,
     throws = (\<lambda>_. False), trace = []\<rparr>"

section \<open>Exceptions, application object\<close>

definition glass_application_checkReportException :: "bool \<Rightarrow> lens \<Rightarrow> lens" where
  "glass_application_checkReportException t s =
     (if t then s\<lparr>trace := trace s @ [ReportException]\<rparr> else s)"

text \<open>A call of a Java method followed by \<open>glass_application_checkReportException\<close>.\<close>

definition call_java :: "upcall \<Rightarrow> lens \<Rightarrow> lens" where
  "call_java c s =
     glass_application_checkReportException (throws s c) (s\<lparr>trace := trace s @ [c]\<rparr>)"

definition glass_RuntimeException :: string where
  "glass_RuntimeException = ''java/lang/RuntimeException''"

definition glass_NullPointerException :: string where
  "glass_NullPointerException = ''java/lang/NullPointerException''"

definition glass_throw_exception_by_name :: "string \<Rightarrow> string \<Rightarrow> lens \<Rightarrow> lens" where
  "glass_throw_exception_by_name name msg s = s\<lparr>trace := trace s @ [Throw name msg]\<rparr>"

definition registerApplication :: "jobject option \<Rightarrow> lens \<Rightarrow> lens" where
  "registerApplication gref s = s\<lparr>pApplication := gref\<rparr>"

text \<open>With the headless screen \<open>lens_wm_shutdown\<close> has nothing left to do.\<close>

definition LensApplication_shutdown :: "lens \<Rightarrow> lens" where
  "LensApplication_shutdown s = s\<lparr>pApplication := None\<rparr>"

section \<open>Key events\<close>

definition glass_application_notifyKeyEvent :: "win option \<Rightarrow> int \<Rightarrow> int \<Rightarrow> bool \<Rightarrow> lens \<Rightarrow> lens option" where
  "glass_application_notifyKeyEvent window eventType jfxKey isRepeatEvent s =
     (if pApplication s = None then Some s
      else case window of
        None \<Rightarrow> Some s
      | Some w \<Rightarrow> do {
          win \<leftarrow> windows s w;
          case view win of
            None \<Rightarrow> Some s
          | Some v \<Rightarrow> do {
              nv \<leftarrow> views s v;
              if lensView nv = None then Some s
              else if jfxKey = VK_UNDEFINED then Some s
              else case glass_inputEvents_getKeyChar (keys s) jfxKey of
                None \<Rightarrow> Some s
              | Some chars \<Rightarrow>
                  if isRepeatEvent \<and> glass_inputEvents_isKeyModifier jfxKey then Some s
                  else
                    let s1 = s\<lparr>keys := glass_inputEvents_updateKeyModifiers jfxKey eventType (keys s)\<rparr>;
                        modifiers = glass_inputEvents_getModifiers (keys s1);
                        s2 = (if chars \<noteq> [] \<and> (eventType = KeyEvent_RELEASE \<or> isRepeatEvent)
                              then call_java (NotifyKeyEvent (lensView nv) KeyEvent_TYPED jfxKey
                                                modifiers chars) s1
                              else s1);
                        s3 = (if trapCtrlC s2 \<and> jfxKey = VK_C \<and> modifiers = MODIFIER_CONTROL
                              then s2\<lparr>trace := trace s2 @ [RaiseSIGINT]\<rparr> else s2)
                    in Some (call_java (NotifyKeyEvent (lensView nv) eventType jfxKey modifiers chars) s3)
            }
        })"

section \<open>Window, view, menu, device and screen events\<close>

definition glass_application_notifyWindowEvent_resize ::
    "win option \<Rightarrow> int \<Rightarrow> int \<Rightarrow> int \<Rightarrow> lens \<Rightarrow> lens option" where
  "glass_application_notifyWindowEvent_resize window eventType width height s =
     (if pApplication s = None then Some s
      else case window of
        None \<Rightarrow> Some s
      | Some w \<Rightarrow>
          if eventType = WindowEvent_RESTORE \<or> eventType = WindowEvent_MAXIMIZE
             \<or> eventType = WindowEvent_MINIMIZE \<or> eventType = WindowEvent_RESIZE
          then do {
            win \<leftarrow> windows s w;
            Some (call_java (NotifyWindowResize (lensWindow win) eventType width height) s)
          }
          else Some s)"

text \<open>
  The only \<open>notify\<close> function without the test of \<open>pApplication\<close>: with no application object it
  calls a Java method on a null reference, which is undefined.
\<close>

definition glass_application_notifyWindowEvent_move :: "win option \<Rightarrow> int \<Rightarrow> int \<Rightarrow> lens \<Rightarrow> lens option" where
  "glass_application_notifyWindowEvent_move window x y s =
     (case window of
        None \<Rightarrow> Some s
      | Some w \<Rightarrow> do {
          win \<leftarrow> windows s w;
          _ \<leftarrow> pApplication s;
          Some (call_java (NotifyWindowMove (lensWindow win) x y) s)
        })"

definition glass_application_notifyWindowEvent :: "win option \<Rightarrow> int \<Rightarrow> lens \<Rightarrow> lens option" where
  "glass_application_notifyWindowEvent window windowEvent s =
     (if pApplication s = None then Some s
      else case window of
        None \<Rightarrow> Some s
      | Some w \<Rightarrow> do {
          win \<leftarrow> windows s w;
          Some (call_java (NotifyWindowEvent (lensWindow win) windowEvent) s)
        })"

definition glass_application_notifyViewEvent ::
    "viewp option \<Rightarrow> int \<Rightarrow> int \<Rightarrow> int \<Rightarrow> int \<Rightarrow> int \<Rightarrow> lens \<Rightarrow> lens option" where
  "glass_application_notifyViewEvent vw viewEventType x y width height s =
     (if pApplication s = None then Some s
      else case vw of
        None \<Rightarrow> Some s
      | Some v \<Rightarrow> do {
          nv \<leftarrow> views s v;
          if lensView nv = None then Some s
          else Some (call_java (NotifyViewEvent (lensView nv) viewEventType x y width height) s)
        })"

definition glass_application_notifyMenuEvent ::
    "viewp option \<Rightarrow> int \<Rightarrow> int \<Rightarrow> int \<Rightarrow> int \<Rightarrow> bool \<Rightarrow> lens \<Rightarrow> lens option" where
  "glass_application_notifyMenuEvent vw x y xAbs yAbs isKeyboardTrigger s =
     (if pApplication s = None then Some s
      else case vw of
        None \<Rightarrow> Some s
      | Some v \<Rightarrow> do {
          nv \<leftarrow> views s v;
          if lensView nv = None then Some s
          else Some (call_java (NotifyMenuEvent (lensView nv) x y xAbs yAbs isKeyboardTrigger) s)
        })"

definition glass_application_notifyDeviceEvent :: "int \<Rightarrow> bool \<Rightarrow> lens \<Rightarrow> lens" where
  "glass_application_notifyDeviceEvent flags attach s =
     (if pApplication s = None then s else call_java (NotifyDeviceEvent flags attach) s)"

definition glass_application_notifyScreenSettingsChanged :: "lens \<Rightarrow> lens" where
  "glass_application_notifyScreenSettingsChanged s =
     (if pApplication s = None then s else call_java NotifyScreenSettingsChanged s)"

definition glass_application_addWindowToVisibleWindowList :: "win \<Rightarrow> lens \<Rightarrow> lens option" where
  "glass_application_addWindowToVisibleWindowList w s = do {
     win \<leftarrow> windows s w;
     Some (call_java (VisibleListAdd (lensWindow win)) s)
   }"

definition glass_application_RemoveWindowFromVisibleWindowList :: "win \<Rightarrow> lens \<Rightarrow> lens option" where
  "glass_application_RemoveWindowFromVisibleWindowList w s = do {
     win \<leftarrow> windows s w;
     Some (call_java (VisibleListRemove (lensWindow win)) s)
   }"

section \<open>Mouse, scroll and touch events\<close>

definition glass_application_notifyMouseEvent ::
    "win \<Rightarrow> int \<Rightarrow> int \<Rightarrow> int \<Rightarrow> int \<Rightarrow> int \<Rightarrow> int \<Rightarrow> lens \<Rightarrow> lens option" where
  "glass_application_notifyMouseEvent w eventType x y absx absy button s =
     (if pApplication s = None then Some s
      else do {
        win \<leftarrow> windows s w;
        if isEnabled win then
          (case view win of
             None \<Rightarrow> Some s
           | Some v \<Rightarrow> do {
               nv \<leftarrow> views s v;
               if lensView nv = None then Some s
               else
                 let isPopupTrigger = (eventType = MouseEvent_UP \<and> button = MouseEvent_BUTTON_RIGHT);
                     s1 = s\<lparr>keys := glass_inputEvents_updateMouseButtonModifiers button eventType (keys s)\<rparr>;
                     c = NotifyMouseEvent (lensView nv) eventType x y absx absy button
                           (glass_inputEvents_getModifiers (keys s1)) isPopupTrigger False;
                     s2 = call_java c s1
                 in if throws s1 c then Some s2
                    else if isPopupTrigger
                    then glass_application_notifyMenuEvent (view win) x y absx absy False s2
                    else Some s2
             })
        else glass_application_notifyWindowEvent (Some w) WindowEvent_FOCUS_DISABLED s
      })"

definition glass_application_notifyScrollEvent ::
    "win \<Rightarrow> int \<Rightarrow> int \<Rightarrow> int \<Rightarrow> int \<Rightarrow> rat \<Rightarrow> rat \<Rightarrow> lens \<Rightarrow> lens option" where
  "glass_application_notifyScrollEvent w x y xabs yabs dx dy s =
     (if pApplication s = None then Some s
      else do {
        win \<leftarrow> windows s w;
        case view win of
          None \<Rightarrow> Some s
        | Some v \<Rightarrow> do {
            nv \<leftarrow> views s v;
            if lensView nv = None then Some s
            else Some (call_java (NotifyScrollEvent (lensView nv) x y xabs yabs dx dy
                         (glass_inputEvents_getModifiers (keys s))) s)
          }
      })"

text \<open>
  One touch point is sent as a touch event, several as a multi-touch event. The arrays hold
  \<open>count\<close> elements; reading the first one of an empty array is undefined.
\<close>

definition glass_application_notifyMultiTouchEvent ::
    "win \<Rightarrow> nat \<Rightarrow> int list \<Rightarrow> int list \<Rightarrow> int list \<Rightarrow> int list \<Rightarrow> int \<Rightarrow> int \<Rightarrow> lens \<Rightarrow> lens option" where
  "glass_application_notifyMultiTouchEvent w count states ids xs ys dx dy s =
     (if pApplication s = None then Some s
      else do {
        win \<leftarrow> windows s w;
        if isEnabled win then
          (case view win of
             None \<Rightarrow> Some s
           | Some v \<Rightarrow> do {
               nv \<leftarrow> views s v;
               if lensView nv = None then Some s
               else if count = 1 then do {
                 st \<leftarrow> first_opt states;
                 i \<leftarrow> first_opt ids;
                 x \<leftarrow> first_opt xs;
                 y \<leftarrow> first_opt ys;
                 Some (call_java (NotifyTouchEvent (lensView nv) st i (x + dx) (y + dy) x y) s)
               }
               else if length states < count \<or> length ids < count \<or> length xs < count
                       \<or> length ys < count then None
               else Some (call_java (NotifyMultiTouchEvent (lensView nv) (take count states)
                            (take count ids) (take count xs) (take count ys) dx dy) s)
             })
        else glass_application_notifyWindowEvent (Some w) WindowEvent_FOCUS_DISABLED s
      })"

definition glass_application_notifyTouchEvent ::
    "win \<Rightarrow> int \<Rightarrow> int \<Rightarrow> int \<Rightarrow> int \<Rightarrow> int \<Rightarrow> int \<Rightarrow> lens \<Rightarrow> lens option" where
  "glass_application_notifyTouchEvent w st i x y xabs yabs s =
     glass_application_notifyMultiTouchEvent w 1 [st] [i] [xabs] [yabs] (x - xabs) (y - yabs) s"

end
