(* ===== verification/LensWindowList.thy ===== *)
theory LensWindowList
  imports LensApplication
begin

text \<open>
  The list of windows in \<open>LensWindow.c\<close>: a doubly linked list threaded through the windows, kept in
  Z order (head deepest, tail closest to the user), with its size and its mutex. The operations
  are modelled on the heap; \<open>zorder\<close> relates a state to the abstract list of windows, and the
  locale \<open>zorder_list\<close> states what the operations promise of it.
\<close>

section \<open>The operations\<close>

definition glass_window_list_getSize :: "lens \<Rightarrow> int" where
  "glass_window_list_getSize s = windowList_size s"

definition glass_window_list_getHead :: "lens \<Rightarrow> win option" where
  "glass_window_list_getHead s = windowList_head s"

definition glass_window_list_getTail :: "lens \<Rightarrow> win option" where
  "glass_window_list_getTail s = windowList_tail s"

partial_function (option) isExist_loop :: "(win \<rightharpoonup> NativeWindow) \<Rightarrow> win \<Rightarrow> win option \<Rightarrow> bool option" where
  "isExist_loop h window w =
     (case w of
        None \<Rightarrow> Some False
      | Some x \<Rightarrow> if x = window then Some True
                  else do { win \<leftarrow> h x; isExist_loop h window (nextWindow win) })"

definition glass_window_isExist :: "win \<Rightarrow> lens \<Rightarrow> bool option" where
  "glass_window_isExist window s =
     isExist_loop (windows s) window (glass_window_list_getHead s)"

text \<open>The two guarded assignments that take a window out of its neighbours' links.\<close>

definition disconnect :: "win \<Rightarrow> lens \<Rightarrow> lens option" where
  "disconnect window s = do {
     win \<leftarrow> windows s window;
     s \<leftarrow> (case previousWindow win of
             None \<Rightarrow> Some s
           | Some p \<Rightarrow> update_window p (\<lambda>x. x\<lparr>nextWindow := nextWindow win\<rparr>) s);
     win \<leftarrow> windows s window;
     (case nextWindow win of
        None \<Rightarrow> Some s
      | Some n \<Rightarrow> update_window n (\<lambda>x. x\<lparr>previousWindow := previousWindow win\<rparr>) s)
   }"

definition glass_window_list_toFront :: "win \<Rightarrow> lens \<Rightarrow> (bool \<times> lens) option" where
  "glass_window_list_toFront window s = do {
     s \<leftarrow> glass_window_list_lock s;
     if Some window = windowList_tail s then Some (False, glass_window_list_unlock s)
     else do {
       e \<leftarrow> glass_window_isExist window s;
       if \<not> e then Some (False, glass_window_list_unlock s)
       else do {
         s \<leftarrow> disconnect window s;
         win \<leftarrow> windows s window;
         s \<leftarrow> Some (if windowList_head s = Some window
                    then s\<lparr>windowList_head := nextWindow win\<rparr> else s);
         s \<leftarrow> update_window window
                (\<lambda>x. x\<lparr>previousWindow := windowList_tail s, nextWindow := None\<rparr>) s;
         t \<leftarrow> windowList_tail s;
         s \<leftarrow> update_window t (\<lambda>x. x\<lparr>nextWindow := Some window\<rparr>) s;
         Some (True, glass_window_list_unlock (s\<lparr>windowList_tail := Some window\<rparr>))
       }
     }
   }"

definition glass_window_list_toBack :: "win \<Rightarrow> lens \<Rightarrow> (bool \<times> lens) option" where
  "glass_window_list_toBack window s = do {
     s \<leftarrow> glass_window_list_lock s;
     if Some window = windowList_head s then Some (False, glass_window_list_unlock s)
     else do {
       e \<leftarrow> glass_window_isExist window s;
       if \<not> e then Some (False, glass_window_list_unlock s)
       else do {
         s \<leftarrow> disconnect window s;
         win \<leftarrow> windows s window;
         s \<leftarrow> Some (if windowList_tail s = Some window
                    then s\<lparr>windowList_tail := previousWindow win\<rparr> else s);
         s \<leftarrow> update_window window
                (\<lambda>x. x\<lparr>previousWindow := None, nextWindow := windowList_head s\<rparr>) s;
         h \<leftarrow> windowList_head s;
         s \<leftarrow> update_window h (\<lambda>x. x\<lparr>previousWindow := Some window\<rparr>) s;
         Some (True, glass_window_list_unlock (s\<lparr>windowList_head := Some window\<rparr>))
       }
     }
   }"

definition glass_window_list_add :: "win option \<Rightarrow> lens \<Rightarrow> lens option" where
  "glass_window_list_add w s =
     (case w of
        None \<Rightarrow> Some s
      | Some window \<Rightarrow> do {
          s \<leftarrow> glass_window_list_lock s;
          s \<leftarrow> Some (if windowList_head s = None then s\<lparr>windowList_head := Some window\<rparr> else s);
          s \<leftarrow> (case windowList_tail s of
                  None \<Rightarrow> Some s
                | Some t \<Rightarrow> update_window t (\<lambda>x. x\<lparr>nextWindow := Some window\<rparr>) s);
          s \<leftarrow> update_window window
                 (\<lambda>x. x\<lparr>previousWindow := windowList_tail s, nextWindow := None\<rparr>) s;
          Some (glass_window_list_unlock
                  (s\<lparr>windowList_tail := Some window, windowList_size := windowList_size s + 1\<rparr>))
        })"

definition glass_window_list_remove :: "win option \<Rightarrow> lens \<Rightarrow> lens option" where
  "glass_window_list_remove w s =
     (case w of
        None \<Rightarrow> Some s
      | Some window \<Rightarrow> do {
          s \<leftarrow> glass_window_list_lock s;
          e \<leftarrow> glass_window_isExist window s;
          if \<not> e then Some (glass_window_list_unlock s)
          else do {
            win \<leftarrow> windows s window;
            s \<leftarrow> (case previousWindow win of
                    Some p \<Rightarrow> update_window p (\<lambda>x. x\<lparr>nextWindow := nextWindow win\<rparr>) s
                  | None \<Rightarrow> Some (s\<lparr>windowList_head := nextWindow win\<rparr>));
            win \<leftarrow> windows s window;
            s \<leftarrow> (case nextWindow win of
                    Some n \<Rightarrow> update_window n (\<lambda>x. x\<lparr>previousWindow := previousWindow win\<rparr>) s
                  | None \<Rightarrow> Some (s\<lparr>windowList_tail := previousWindow win\<rparr>));
            Some (glass_window_list_unlock (s\<lparr>windowList_size := windowList_size s - 1\<rparr>))
          }
        })"

section \<open>Segments of the doubly linked list\<close>

definition next_of :: "win list \<Rightarrow> win option \<Rightarrow> win option" where
  "next_of xs n = (case xs of [] \<Rightarrow> n | x # _ \<Rightarrow> Some x)"

definition prev_of :: "win list \<Rightarrow> win option \<Rightarrow> win option" where
  "prev_of xs p = (if xs = [] then p else Some (last xs))"

lemma next_prev_simps [simp]:
  "next_of [] n = n" "next_of (x # xs) n = Some x" "prev_of [] p = p" "prev_of (xs @ [x]) p = Some x"
  "prev_of (x # xs) p = prev_of xs (Some x)" "next_of xs None = first_opt xs" "prev_of xs None = last_opt xs"
  by (auto simp: next_of_def prev_of_def first_opt_def last_opt_def)

fun dseg :: "(win \<rightharpoonup> NativeWindow) \<Rightarrow> win option \<Rightarrow> win list \<Rightarrow> win option \<Rightarrow> bool" where
  "dseg h p [] n = True"
| "dseg h p (x # xs) n =
     (\<exists>w. h x = Some w \<and> previousWindow w = p \<and> nextWindow w = next_of xs n \<and> dseg h (Some x) xs n)"

lemma dseg_append: "dseg h p (xs @ ys) n = (dseg h p xs (next_of ys n) \<and> dseg h (prev_of xs p) ys n)"
proof (induction xs arbitrary: p)
  case (Cons x xs)
  have "next_of (xs @ ys) n = next_of xs (next_of ys n)" by (cases xs) auto
  with Cons show ?case by auto
qed simp

lemma dseg_upd [simp]: "x \<notin> set xs \<Longrightarrow> dseg (h(x := v)) p xs n = dseg h p xs n"
  by (induction xs arbitrary: p) auto

lemma dseg_dom: "dseg h p xs n \<Longrightarrow> set xs \<subseteq> dom h"
  by (induction xs arbitrary: p) auto

text \<open>The heap agrees with another one outside the links.\<close>

definition nolinks :: "NativeWindow \<Rightarrow> NativeWindow" where
  "nolinks w = w\<lparr>previousWindow := None, nextWindow := None\<rparr>"

definition same_windows :: "(win \<rightharpoonup> NativeWindow) \<Rightarrow> (win \<rightharpoonup> NativeWindow) \<Rightarrow> bool" where
  "same_windows h h' \<longleftrightarrow> (\<forall>w. map_option nolinks (h' w) = map_option nolinks (h w))"

definition zorder :: "lens \<Rightarrow> win list \<Rightarrow> bool" where
  "zorder s xs \<longleftrightarrow> distinct xs \<and> dseg (windows s) None xs None \<and>
     windowList_head s = first_opt xs \<and> windowList_tail s = last_opt xs \<and>
     windowList_size s = int (length xs)"

lemma same_windows_refl [simp]: "same_windows h h"
  by (simp add: same_windows_def)

lemma same_windows_trans [trans]: "same_windows h h' \<Longrightarrow> same_windows h' h'' \<Longrightarrow> same_windows h h''"
  by (simp add: same_windows_def)

lemma nolinks_upd [simp]:
  "nolinks (w\<lparr>nextWindow := n\<rparr>) = nolinks w" "nolinks (w\<lparr>previousWindow := p\<rparr>) = nolinks w"
  "nolinks (w\<lparr>previousWindow := p, nextWindow := n\<rparr>) = nolinks w"
  by (simp_all add: nolinks_def)

lemma same_windows_upd:
  "same_windows h h' \<Longrightarrow> h' x = Some w \<Longrightarrow> nolinks w' = nolinks w \<Longrightarrow> same_windows h (h'(x \<mapsto> w'))"
  unfolding same_windows_def by (metis fun_upd_apply option.simps(9))

text \<open>The two link assignments, as heap transformers that do nothing on a null pointer.\<close>

definition set_next :: "(win \<rightharpoonup> NativeWindow) \<Rightarrow> win option \<Rightarrow> win option \<Rightarrow> (win \<rightharpoonup> NativeWindow)" where
  "set_next h p n = (case p of None \<Rightarrow> h | Some a \<Rightarrow>
     (case h a of None \<Rightarrow> h | Some w \<Rightarrow> h(a \<mapsto> w\<lparr>nextWindow := n\<rparr>)))"

definition set_prev :: "(win \<rightharpoonup> NativeWindow) \<Rightarrow> win option \<Rightarrow> win option \<Rightarrow> (win \<rightharpoonup> NativeWindow)" where
  "set_prev h n p = (case n of None \<Rightarrow> h | Some b \<Rightarrow>
     (case h b of None \<Rightarrow> h | Some w \<Rightarrow> h(b \<mapsto> w\<lparr>previousWindow := p\<rparr>)))"

lemma opt_notin [simp]: "x \<notin> set xs \<Longrightarrow> last_opt xs \<noteq> Some x" "x \<notin> set xs \<Longrightarrow> first_opt xs \<noteq> Some x"
  by (auto simp: last_opt_Some first_opt_Some)

lemma set_link_other [simp]: "p \<noteq> Some x \<Longrightarrow> set_next h p n x = h x" "p \<noteq> Some x \<Longrightarrow> set_prev h p n x = h x"
  by (auto simp: set_next_def set_prev_def split: option.split)

lemma same_windows_set [simp]: "same_windows h (set_next h p n)" "same_windows h (set_prev h p n)"
  by (auto simp: set_next_def set_prev_def intro: same_windows_upd split: option.split)

lemma dseg_cong: "(\<And>x. x \<in> set xs \<Longrightarrow> h x = h' x) \<Longrightarrow> dseg h p xs n = dseg h' p xs n"
  by (induction xs arbitrary: p) auto

lemma dseg_set_next: "dseg h p xs n \<Longrightarrow> distinct xs \<Longrightarrow> dseg (set_next h (last_opt xs) m) p xs m"
proof (cases xs rule: rev_cases)
  case (snoc as a)
  assume "dseg h p xs n" "distinct xs"
  with snoc show ?thesis by (auto simp: dseg_append set_next_def)
qed simp

lemma dseg_set_prev: "dseg h p xs n \<Longrightarrow> distinct xs \<Longrightarrow> dseg (set_prev h (first_opt xs) q) q xs n"
  by (cases xs) (auto simp: set_prev_def)

definition join :: "(win \<rightharpoonup> NativeWindow) \<Rightarrow> win list \<Rightarrow> win list \<Rightarrow> (win \<rightharpoonup> NativeWindow)" where
  "join h as bs = set_prev (set_next h (last_opt as) (first_opt bs)) (first_opt bs) (last_opt as)"

lemma dseg_join:
  assumes "dseg h None as n" "dseg h p bs None" "distinct (as @ bs)"
  shows "dseg (join h as bs) None (as @ bs) None"
proof -
  let ?h = "set_next h (last_opt as) (first_opt bs)"
  have "last_opt as \<noteq> Some y" if "y \<in> set bs" for y
    using that assms(3) by (auto simp: last_opt_Some)
  then have "dseg ?h p bs None"
    using assms(2) by (subst dseg_cong [where h' = h]) auto
  then have b: "dseg (join h as bs) (last_opt as) bs None"
    using assms(3) by (simp add: join_def dseg_set_prev)
  have "first_opt bs \<noteq> Some y" if "y \<in> set as" for y
    using that assms(3) by (auto simp: first_opt_Some)
  then have "dseg (join h as bs) None as (first_opt bs)"
    using assms(1,3) by (subst dseg_cong [where h' = ?h]) (auto simp: join_def dseg_set_next)
  with b show ?thesis by (simp add: dseg_append)
qed

lemma same_windows_join [simp]: "same_windows h (join h as bs)"
  unfolding join_def by (rule same_windows_trans [OF same_windows_set(1) same_windows_set(2)])

lemma join_other [simp]: "x \<notin> set as \<Longrightarrow> x \<notin> set bs \<Longrightarrow> join h as bs x = h x"
  by (simp add: join_def)

lemma update_window_links:
  "windows s a = Some w \<Longrightarrow>
     update_window a (\<lambda>x. x\<lparr>nextWindow := n\<rparr>) s = Some (s\<lparr>windows := set_next (windows s) (Some a) n\<rparr>)"
  "windows s a = Some w \<Longrightarrow>
     update_window a (\<lambda>x. x\<lparr>previousWindow := n\<rparr>) s = Some (s\<lparr>windows := set_prev (windows s) (Some a) n\<rparr>)"
  by (simp_all add: update_window_def set_next_def set_prev_def)

lemma dseg_mid:
  assumes "dseg h None (as @ x # bs) None"
  obtains w where "h x = Some w" "previousWindow w = last_opt as" "nextWindow w = first_opt bs"
    "dseg h None as (Some x)" "dseg h (Some x) bs None"
  using assms by (auto simp: dseg_append)

lemma disconnect_join:
  assumes d: "dseg (windows s) None (as @ x # bs) None" and dist: "distinct (as @ x # bs)"
  shows "disconnect x s = Some (s\<lparr>windows := join (windows s) as bs\<rparr>)"
proof -
  obtain w where w: "windows s x = Some w" "previousWindow w = last_opt as" "nextWindow w = first_opt bs"
    "dseg (windows s) None as (Some x)" "dseg (windows s) (Some x) bs None"
    using d by (rule dseg_mid)
  have 1: "(case last_opt as of None \<Rightarrow> Some s
       | Some p \<Rightarrow> update_window p (\<lambda>x. x\<lparr>nextWindow := nextWindow w\<rparr>) s) =
      Some (s\<lparr>windows := set_next (windows s) (last_opt as) (first_opt bs)\<rparr>)" (is "?a = Some ?s")
    using w dseg_dom [OF w(4)] by (cases as rule: rev_cases) (auto simp: update_window_links set_next_def)
  have x: "windows ?s x = Some w" using w(1) dist by simp
  have "windows ?s b = windows s b" if "b \<in> set bs" for b
  proof -
    have "b \<notin> set as" using that dist by auto
    then show ?thesis by simp
  qed
  then have "(case first_opt bs of None \<Rightarrow> Some ?s
       | Some n \<Rightarrow> update_window n (\<lambda>x. x\<lparr>previousWindow := previousWindow w\<rparr>) ?s) =
      Some (s\<lparr>windows := join (windows s) as bs\<rparr>)"
    using w dseg_dom [OF w(5)] by (cases bs) (auto simp: update_window_links join_def set_prev_def)
  then show ?thesis using w 1 x by (simp add: disconnect_def)
qed

lemma isExist_loop_dseg: "dseg h p xs None \<Longrightarrow> isExist_loop h x (first_opt xs) = Some (x \<in> set xs)"
  by (induction xs arbitrary: p) (auto simp: isExist_loop.simps)

lemma glass_window_isExist_zorder:
  "zorder s xs \<Longrightarrow> glass_window_isExist x s = Some (x \<in> set xs)"
  using isExist_loop_dseg [of "windows s" None xs x]
  by (simp add: zorder_def glass_window_isExist_def glass_window_list_getHead_def)

lemma zorder_unique: "zorder s xs \<Longrightarrow> zorder s ys \<Longrightarrow> xs = ys"
proof -
  have "dseg h p xs None \<Longrightarrow> dseg h p' ys None \<Longrightarrow> first_opt xs = first_opt ys \<Longrightarrow> xs = ys" for h p p'
  proof (induction xs arbitrary: ys p p')
    case Nil
    then show ?case by (metis first_opt_None first_opt_simps(1))
  next
    case (Cons x xs)
    then obtain zs where ys: "ys = x # zs" by (cases ys) auto
    with Cons.prems have "first_opt xs = first_opt zs" by auto
    with Cons ys show ?case by auto
  qed
  then show "zorder s xs \<Longrightarrow> zorder s ys \<Longrightarrow> xs = ys" by (auto simp: zorder_def)
qed

lemma dseg_snoc_link:
  assumes "dseg h None xs None" "distinct xs" "x \<notin> set xs" "h x = Some w"
    "previousWindow w = last_opt xs" "nextWindow w = None"
  shows "dseg (set_next h (last_opt xs) (Some x)) None (xs @ [x]) None"
  using dseg_set_next [OF assms(1,2), of "Some x"] assms by (simp add: dseg_append)

lemma dseg_cons_link:
  assumes "dseg h None xs None" "distinct xs" "x \<notin> set xs" "h x = Some w"
    "previousWindow w = None" "nextWindow w = first_opt xs"
  shows "dseg (set_prev h (first_opt xs) (Some x)) None (x # xs) None"
  using dseg_set_prev [OF assms(1,2), of "Some x"] assms by simp

text \<open>The state after a successful operation, with the lock free again.\<close>

definition relinked :: "lens \<Rightarrow> (win \<rightharpoonup> NativeWindow) \<Rightarrow> win list \<Rightarrow> lens" where
  "relinked s h xs = s\<lparr>windows := h, windowList_head := first_opt xs, windowList_tail := last_opt xs,
     windowList_size := int (length xs)\<rparr>"

lemma relinked_zorder: "dseg h None xs None \<Longrightarrow> distinct xs \<Longrightarrow> zorder (relinked s h xs) xs"
  by (simp add: zorder_def relinked_def)

lemmas list_op_defs = glass_window_list_lock_def glass_window_list_unlock_def zorder_def
  last_opt_append first_opt_append update_window_def relinked_def

lemma toFront_zorder:
  assumes z: "zorder s (as @ x # bs)" and l: "\<not> windowListLocked s" and bs: "bs \<noteq> []"
  shows "\<exists>h. glass_window_list_toFront x s = Some (True, relinked s h (as @ bs @ [x])) \<and>
           dseg h None (as @ bs @ [x]) None \<and> same_windows (windows s) h"
proof -
  let ?s = "s\<lparr>windowListLocked := True\<rparr>"
  let ?h = "join (windows s) as bs"
  have dist: "distinct (as @ x # bs)" and d: "dseg (windows s) None (as @ x # bs) None"
    using z by (simp_all add: zorder_def)
  obtain w where w: "windows s x = Some w" "previousWindow w = last_opt as" "nextWindow w = first_opt bs"
    "dseg (windows s) None as (Some x)" "dseg (windows s) (Some x) bs None"
    using d by (rule dseg_mid)
  have h: "dseg ?h None (as @ bs) None" using w dist by (intro dseg_join) auto
  have hx: "?h x = Some w" using w(1) dist by simp
  let ?w = "w\<lparr>previousWindow := last_opt bs, nextWindow := None\<rparr>"
  let ?h1 = "?h(x \<mapsto> ?w)" and ?h2 = "set_next (?h(x \<mapsto> ?w)) (last_opt bs) (Some x)"
  have d1: "dseg ?h1 None (as @ bs) None" using h dist by simp
  have d2: "dseg ?h2 None (as @ bs @ [x]) None"
    using dseg_snoc_link [OF d1, of x ?w] dist bs by (simp add: last_opt_append)
  have "same_windows (windows s) ?h1" using hx by (auto intro: same_windows_upd)
  then have same: "same_windows (windows s) ?h2" by (rule same_windows_trans) simp
  obtain t where t: "last_opt bs = Some t" "t \<in> set bs" using bs by (auto simp: last_opt_def)
  then have "t \<noteq> x" "\<exists>v. ?h1 t = Some v" using dist dseg_dom [OF d1] by auto
  then have up: "update_window t (\<lambda>v. v\<lparr>nextWindow := Some x\<rparr>) (r\<lparr>windows := ?h1\<rparr>) =
      Some (r\<lparr>windows := ?h2\<rparr>)" for r
    using t by (auto simp: update_window_links)
  have "disconnect x ?s = Some (?s\<lparr>windows := ?h\<rparr>)" using disconnect_join [of ?s as x bs] d dist by simp
  moreover have "glass_window_isExist x ?s = Some True"
    using glass_window_isExist_zorder [of ?s "as @ x # bs"] z by (simp add: zorder_def)
  ultimately have "glass_window_list_toFront x s = Some (True, relinked s ?h2 (as @ bs @ [x]))"
    using z l t hx w dist bs up \<open>t \<noteq> x\<close>
    by (auto simp: list_op_defs glass_window_list_toFront_def)
  then show ?thesis using d2 same by blast
qed

lemma toBack_zorder:
  assumes z: "zorder s (as @ x # bs)" and l: "\<not> windowListLocked s" and as: "as \<noteq> []"
  shows "\<exists>h. glass_window_list_toBack x s = Some (True, relinked s h (x # as @ bs)) \<and>
           dseg h None (x # as @ bs) None \<and> same_windows (windows s) h"
proof -
  let ?s = "s\<lparr>windowListLocked := True\<rparr>"
  let ?h = "join (windows s) as bs"
  have dist: "distinct (as @ x # bs)" and d: "dseg (windows s) None (as @ x # bs) None"
    using z by (simp_all add: zorder_def)
  obtain w where w: "windows s x = Some w" "previousWindow w = last_opt as" "nextWindow w = first_opt bs"
    "dseg (windows s) None as (Some x)" "dseg (windows s) (Some x) bs None"
    using d by (rule dseg_mid)
  have h: "dseg ?h None (as @ bs) None" using w dist by (intro dseg_join) auto
  have hx: "?h x = Some w" using w(1) dist by simp
  let ?w = "w\<lparr>previousWindow := None, nextWindow := first_opt as\<rparr>"
  let ?h1 = "?h(x \<mapsto> ?w)" and ?h2 = "set_prev (?h(x \<mapsto> ?w)) (first_opt as) (Some x)"
  have d1: "dseg ?h1 None (as @ bs) None" using h dist by simp
  have d2: "dseg ?h2 None (x # as @ bs) None"
    using dseg_cons_link [OF d1, of x ?w] dist as by (simp add: first_opt_append)
  have "same_windows (windows s) ?h1" using hx by (auto intro: same_windows_upd)
  then have same: "same_windows (windows s) ?h2" by (rule same_windows_trans) simp
  obtain t where t: "first_opt as = Some t" "t \<in> set as" using as by (cases as) auto
  then have "t \<noteq> x" "\<exists>v. ?h1 t = Some v" using dist dseg_dom [OF d1] by auto
  then have up: "update_window t (\<lambda>v. v\<lparr>previousWindow := Some x\<rparr>) (r\<lparr>windows := ?h1\<rparr>) =
      Some (r\<lparr>windows := ?h2\<rparr>)" for r
    using t by (auto simp: update_window_links)
  have "disconnect x ?s = Some (?s\<lparr>windows := ?h\<rparr>)" using disconnect_join [of ?s as x bs] d dist by simp
  moreover have "glass_window_isExist x ?s = Some True"
    using glass_window_isExist_zorder [of ?s "as @ x # bs"] z by (simp add: zorder_def)
  ultimately have "glass_window_list_toBack x s = Some (True, relinked s ?h2 (x # as @ bs))"
    using z l t hx w dist as up \<open>t \<noteq> x\<close>
    by (auto simp: list_op_defs glass_window_list_toBack_def)
  then show ?thesis using d2 same by blast
qed

lemma add_zorder:
  assumes z: "zorder s xs" and l: "\<not> windowListLocked s" and x: "windows s x = Some w" "x \<notin> set xs"
  shows "\<exists>h. glass_window_list_add (Some x) s = Some (relinked s h (xs @ [x])) \<and>
           dseg h None (xs @ [x]) None \<and> same_windows (windows s) h"
proof -
  have dist: "distinct xs" and d: "dseg (windows s) None xs None" using z by (simp_all add: zorder_def)
  let ?h1 = "set_next (windows s) (last_opt xs) (Some x)"
  let ?w = "w\<lparr>previousWindow := last_opt xs, nextWindow := None\<rparr>"
  let ?h2 = "?h1(x \<mapsto> ?w)"
  have h1x: "?h1 x = Some w" using x by simp
  have "dseg ?h1 None xs (Some x)" using d dist by (rule dseg_set_next)
  then have d2: "dseg ?h2 None (xs @ [x]) None" using x(2) by (simp add: dseg_append)
  have same: "same_windows (windows s) ?h2" using h1x by (intro same_windows_upd) auto
  have "glass_window_list_add (Some x) s = Some (relinked s ?h2 (xs @ [x]))"
  proof (cases xs rule: rev_cases)
    case Nil
    then show ?thesis
      using z l x by (simp add: list_op_defs glass_window_list_add_def set_next_def)
  next
    case (snoc ys y)
    obtain v where "windows s y = Some v" using dseg_dom [OF d] snoc by auto
    then show ?thesis
      using z l x snoc by (simp add: list_op_defs glass_window_list_add_def set_next_def)
  qed
  then show ?thesis using d2 same by blast
qed

lemma remove_zorder:
  assumes z: "zorder s (as @ x # bs)" and l: "\<not> windowListLocked s"
  shows "\<exists>h. glass_window_list_remove (Some x) s = Some (relinked s h (as @ bs)) \<and>
           dseg h None (as @ bs) None \<and> same_windows (windows s) h \<and> h x = windows s x"
proof -
  have dist: "distinct (as @ x # bs)" and d: "dseg (windows s) None (as @ x # bs) None"
    using z by (simp_all add: zorder_def)
  obtain w where w: "windows s x = Some w" "previousWindow w = last_opt as" "nextWindow w = first_opt bs"
    "dseg (windows s) None as (Some x)" "dseg (windows s) (Some x) bs None"
    using d by (rule dseg_mid)
  let ?h1 = "set_next (windows s) (last_opt as) (first_opt bs)" and ?h = "join (windows s) as bs"
  have h: "dseg ?h None (as @ bs) None" using w dist by (intro dseg_join) auto
  have hx: "?h1 x = Some w" "?h x = Some w" using w(1) dist by simp_all
  have ex: "glass_window_isExist x (s\<lparr>windowListLocked := True\<rparr>) = Some True"
    using glass_window_isExist_zorder [of "s\<lparr>windowListLocked := True\<rparr>" "as @ x # bs"] z by (simp add: zorder_def)
  have "glass_window_list_remove (Some x) s = Some (relinked s ?h (as @ bs))"
  proof (cases as rule: rev_cases)
    case Nil
    show ?thesis
    proof (cases bs)
      case Nil
      with \<open>as = []\<close> show ?thesis using z l w ex
        by (simp add: list_op_defs glass_window_list_remove_def join_def set_next_def set_prev_def)
    next
      case (Cons b bs')
      with \<open>as = []\<close> show ?thesis using z l w ex dseg_dom [OF w(5)]
        by (auto simp: list_op_defs glass_window_list_remove_def join_def set_next_def set_prev_def)
    qed
  next
    case (snoc as' a)
    show ?thesis
    proof (cases bs)
      case Nil
      with snoc show ?thesis using z l w ex dseg_dom [OF w(4)]
        by (auto simp: list_op_defs glass_window_list_remove_def join_def set_next_def set_prev_def)
    next
      case (Cons b bs')
      with snoc show ?thesis using z l w ex dseg_dom [OF w(4)] dseg_dom [OF w(5)]
        by (auto simp: list_op_defs glass_window_list_remove_def join_def set_next_def set_prev_def)
    qed
  qed
  then show ?thesis using h hx w by auto
qed
section \<open>What the operations promise\<close>

lemma locked_unlock [simp]: "\<not> windowListLocked s \<Longrightarrow> s\<lparr>windowListLocked := False\<rparr> = s"
  by simp

text \<open>The links, the two ends and the size are all that an operation on the list writes.\<close>

definition list_frame :: "lens \<Rightarrow> lens \<Rightarrow> bool" where
  "list_frame s s' \<longleftrightarrow> same_windows (windows s) (windows s') \<and>
     s' = s\<lparr>windows := windows s', windowList_head := windowList_head s',
            windowList_tail := windowList_tail s', windowList_size := windowList_size s'\<rparr>"

lemma list_frame_refl [simp]: "list_frame s s"
  by (simp add: list_frame_def)

lemma list_frame_relinked: "same_windows (windows s) h \<Longrightarrow> list_frame s (relinked s h xs)"
  by (simp add: list_frame_def relinked_def)

definition zlist :: "lens \<Rightarrow> win list \<Rightarrow> bool" where
  "zlist s xs \<longleftrightarrow> zorder s xs \<and> \<not> windowListLocked s"

lemma zlist_relinked:
  "dseg h None ys None \<Longrightarrow> distinct ys \<Longrightarrow> zlist s xs \<Longrightarrow> zlist (relinked s h ys) ys"
  by (simp add: zlist_def relinked_zorder) (simp add: relinked_def)

lemma toFront_refines:
  assumes z: "zlist s xs"
  shows "returns (glass_window_list_toFront x s) (\<lambda>(moved, s').
           moved = (x \<in> set xs \<and> last_opt xs \<noteq> Some x) \<and>
           zlist s' (if x \<in> set xs then remove1 x xs @ [x] else xs) \<and> list_frame s s')"
proof -
  have z': "zorder s xs" "\<not> windowListLocked s" and dist: "distinct xs"
    using z by (simp_all add: zlist_def zorder_def)
  have ex: "glass_window_isExist x (s\<lparr>windowListLocked := True\<rparr>) = Some (x \<in> set xs)"
    using glass_window_isExist_zorder [of "s\<lparr>windowListLocked := True\<rparr>" xs] z' by (simp add: zorder_def)
  consider "last_opt xs = Some x" | "x \<notin> set xs" | as bs where "xs = as @ x # bs" "bs \<noteq> []" "last_opt xs \<noteq> Some x"
    by (metis last_opt_Some split_list)
  then show ?thesis
  proof cases
    case 1
    then obtain as where "xs = as @ [x]" by (auto simp: last_opt_Some)
    with 1 z z' dist show ?thesis
      by (simp add: glass_window_list_toFront_def glass_window_list_lock_def glass_window_list_unlock_def
          zorder_def remove1_append)
  next
    case 2
    with z z' ex show ?thesis
      by (simp add: glass_window_list_toFront_def glass_window_list_lock_def glass_window_list_unlock_def zorder_def)
  next
    case 3
    with z' obtain h where "glass_window_list_toFront x s = Some (True, relinked s h (as @ bs @ [x]))"
      "dseg h None (as @ bs @ [x]) None" "same_windows (windows s) h"
      using toFront_zorder [of s as x bs] by auto
    with 3 dist z show ?thesis by (simp add: zlist_relinked list_frame_relinked remove1_append)
  qed
qed

lemma toBack_refines:
  assumes z: "zlist s xs"
  shows "returns (glass_window_list_toBack x s) (\<lambda>(moved, s').
           moved = (x \<in> set xs \<and> first_opt xs \<noteq> Some x) \<and>
           zlist s' (if x \<in> set xs then x # remove1 x xs else xs) \<and> list_frame s s')"
proof -
  have z': "zorder s xs" "\<not> windowListLocked s" and dist: "distinct xs"
    using z by (simp_all add: zlist_def zorder_def)
  have ex: "glass_window_isExist x (s\<lparr>windowListLocked := True\<rparr>) = Some (x \<in> set xs)"
    using glass_window_isExist_zorder [of "s\<lparr>windowListLocked := True\<rparr>" xs] z' by (simp add: zorder_def)
  consider "first_opt xs = Some x" | "x \<notin> set xs" | as bs where "xs = as @ x # bs" "as \<noteq> []" "first_opt xs \<noteq> Some x"
    by (metis append_Nil first_opt_simps(2) split_list)
  then show ?thesis
  proof cases
    case 1
    then obtain as where "xs = x # as" by (auto simp: first_opt_Some)
    with 1 z z' dist show ?thesis
      by (simp add: glass_window_list_toBack_def glass_window_list_lock_def glass_window_list_unlock_def zorder_def)
  next
    case 2
    with z z' ex show ?thesis
      by (simp add: glass_window_list_toBack_def glass_window_list_lock_def glass_window_list_unlock_def zorder_def)
  next
    case 3
    with z' obtain h where "glass_window_list_toBack x s = Some (True, relinked s h (x # as @ bs))"
      "dseg h None (x # as @ bs) None" "same_windows (windows s) h"
      using toBack_zorder [of s as x bs] by auto
    with 3 dist z show ?thesis by (simp add: zlist_relinked list_frame_relinked remove1_append)
  qed
qed

lemma add_refines:
  assumes "zlist s xs" "windows s x \<noteq> None" "x \<notin> set xs"
  shows "returns (glass_window_list_add (Some x) s) (\<lambda>s'. zlist s' (xs @ [x]) \<and> list_frame s s')"
  using assms add_zorder [of s xs x]
  by (auto simp: zlist_def returns_iff list_frame_relinked relinked_zorder zorder_def [of s])
     (simp add: relinked_def)

lemma remove_refines:
  assumes z: "zlist s xs"
  shows "returns (glass_window_list_remove (Some x) s)
           (\<lambda>s'. zlist s' (remove1 x xs) \<and> list_frame s s' \<and> windows s' x = windows s x)"
proof (cases "x \<in> set xs")
  case True
  have dist: "distinct xs" using z by (simp add: zlist_def zorder_def)
  from True obtain as bs where xs: "xs = as @ x # bs" by (meson split_list)
  with z obtain h where "glass_window_list_remove (Some x) s = Some (relinked s h (as @ bs))"
    "dseg h None (as @ bs) None" "same_windows (windows s) h" "h x = windows s x"
    using remove_zorder [of s as x bs] by (auto simp: zlist_def)
  with xs dist z show ?thesis
    by (simp add: zlist_relinked list_frame_relinked remove1_append) (simp add: relinked_def)
next
  case False
  then have "glass_window_isExist x (s\<lparr>windowListLocked := True\<rparr>) = Some False"
    using glass_window_isExist_zorder [of "s\<lparr>windowListLocked := True\<rparr>" xs] z by (simp add: zlist_def zorder_def)
  with False z show ?thesis
    by (simp add: glass_window_list_remove_def glass_window_list_lock_def glass_window_list_unlock_def
        zlist_def remove1_idem)
qed

section \<open>The interface of the Z order\<close>

fun run_each :: "('k \<Rightarrow> 's \<Rightarrow> (bool \<times> 's) option) \<Rightarrow> 'k list \<Rightarrow> 's \<Rightarrow> 's option" where
  "run_each f [] s = Some s"
| "run_each f (k # ks) s = do { r \<leftarrow> f k s; run_each f ks (snd r) }"

locale zorder_list =
  fixes rel :: "'s \<Rightarrow> 'k list \<Rightarrow> bool"
    and fresh :: "'k \<Rightarrow> 's \<Rightarrow> bool"
    and add :: "'k \<Rightarrow> 's \<Rightarrow> 's option"
    and remove :: "'k \<Rightarrow> 's \<Rightarrow> 's option"
    and toFront :: "'k \<Rightarrow> 's \<Rightarrow> (bool \<times> 's) option"
    and toBack :: "'k \<Rightarrow> 's \<Rightarrow> (bool \<times> 's) option"
  assumes rel_unique: "rel s xs \<Longrightarrow> rel s ys \<Longrightarrow> xs = ys"
    and rel_distinct: "rel s xs \<Longrightarrow> distinct xs"
    and add_law: "rel s xs \<Longrightarrow> fresh k s \<Longrightarrow> k \<notin> set xs \<Longrightarrow> returns (add k s) (\<lambda>s'. rel s' (xs @ [k]))"
    and remove_law: "rel s xs \<Longrightarrow> returns (remove k s) (\<lambda>s'. rel s' (remove1 k xs))"
    and toFront_law: "rel s xs \<Longrightarrow> returns (toFront k s) (\<lambda>(moved, s').
          moved = (k \<in> set xs \<and> last_opt xs \<noteq> Some k) \<and>
          rel s' (if k \<in> set xs then remove1 k xs @ [k] else xs))"
    and toBack_law: "rel s xs \<Longrightarrow> returns (toBack k s) (\<lambda>(moved, s').
          moved = (k \<in> set xs \<and> first_opt xs \<noteq> Some k) \<and>
          rel s' (if k \<in> set xs then k # remove1 k xs else xs))"
begin

text \<open>Adding a window and removing it again gives the list back.\<close>

lemma add_remove:
  assumes "rel s xs" "fresh k s" "k \<notin> set xs"
  shows "returns (add k s \<bind> remove k) (\<lambda>s'. rel s' xs)"
proof (rule returns_bindI [OF add_law [OF assms]])
  fix s' assume "rel s' (xs @ [k])"
  from remove_law [OF this, of k] show "returns (remove k s') (\<lambda>s'. rel s' xs)"
    using assms(3) by (simp add: remove1_append)
qed

text \<open>
  Bringing the windows of a list to the front one after the other puts them on top in that order
  and leaves the others below in theirs.
\<close>

lemma raise_each:
  assumes "rel s xs" "distinct ks" "set ks \<subseteq> set xs"
  shows "returns (run_each toFront ks s) (\<lambda>s'. rel s' (filter (\<lambda>x. x \<notin> set ks) xs @ ks))"
  using assms
proof (induction ks arbitrary: s xs)
  case Nil
  then show ?case by simp
next
  case (Cons k ks)
  have dist: "distinct xs" using Cons.prems(1) by (rule rel_distinct)
  have k: "k \<in> set xs" "k \<notin> set ks" and ks: "distinct ks" "set ks \<subseteq> set (remove1 k xs @ [k])"
    using Cons.prems dist by auto
  show ?case
    unfolding run_each.simps
  proof (rule returns_bindI [OF toFront_law [OF Cons.prems(1)]])
    fix r assume "case r of (moved, s') \<Rightarrow> moved = (k \<in> set xs \<and> last_opt xs \<noteq> Some k) \<and>
      rel s' (if k \<in> set xs then remove1 k xs @ [k] else xs)"
    then have "rel (snd r) (remove1 k xs @ [k])" using k by (cases r) simp
    then have "returns (run_each toFront ks (snd r))
        (\<lambda>s'. rel s' (filter (\<lambda>x. x \<notin> set ks) (remove1 k xs @ [k]) @ ks))"
      using ks by (rule Cons.IH)
    moreover have "filter (\<lambda>x. x \<notin> set ks) (remove1 k xs @ [k]) @ ks =
        filter (\<lambda>x. x \<notin> set (k # ks)) xs @ k # ks"
      using k dist by (simp add: distinct_remove1_filter)
    ultimately show "returns (run_each toFront ks (snd r))
        (\<lambda>s'. rel s' (filter (\<lambda>x. x \<notin> set (k # ks)) xs @ k # ks))"
      by (simp only:)
  qed
qed

end

interpretation lwl: zorder_list zlist "\<lambda>k s. windows s k \<noteq> None"
  "\<lambda>k. glass_window_list_add (Some k)" "\<lambda>k. glass_window_list_remove (Some k)"
  glass_window_list_toFront glass_window_list_toBack
proof unfold_locales
  show "zlist s xs \<Longrightarrow> zlist s ys \<Longrightarrow> xs = ys" for s xs ys
    by (auto simp: zlist_def dest: zorder_unique)
  show "zlist s xs \<Longrightarrow> distinct xs" for s xs
    by (simp add: zlist_def zorder_def)
qed (auto intro: add_refines remove_refines toFront_refines toBack_refines returns_conseq)

text \<open>
  C3: the four operations on the linked list of windows implement the operations on the abstract
  Z order: \<open>toFront\<close> moves a listed window to the closest place and tells whether it moved,
  \<open>toBack\<close> moves it to the deepest place, \<open>add\<close> puts a new window closest, \<open>remove\<close> takes one out and
  keeps the order of the others. Each leaves the mutex free, the links consistent in both
  directions, and everything else in the state (all other fields of every window) as it was.
\<close>

theorem window_list_refines:
  assumes "zlist s xs" and "windows s new \<noteq> None" and "new \<notin> set xs"
  shows "returns (glass_window_list_toFront x s) (\<lambda>(moved, s').
           moved = (x \<in> set xs \<and> last_opt xs \<noteq> Some x) \<and> list_frame s s' \<and>
           zlist s' (if x \<in> set xs then remove1 x xs @ [x] else xs))
       \<and> returns (glass_window_list_toBack x s) (\<lambda>(moved, s').
           moved = (x \<in> set xs \<and> first_opt xs \<noteq> Some x) \<and> list_frame s s' \<and>
           zlist s' (if x \<in> set xs then x # remove1 x xs else xs))
       \<and> returns (glass_window_list_add (Some new) s) (\<lambda>s'. zlist s' (xs @ [new]) \<and> list_frame s s')
       \<and> returns (glass_window_list_remove (Some x) s) (\<lambda>s'. zlist s' (remove1 x xs) \<and> list_frame s s')"
  using toFront_refines [OF assms(1), of x] toBack_refines [OF assms(1), of x]
    add_refines [OF assms] remove_refines [OF assms(1), of x]
  by (auto simp: returns_iff)

text \<open>Two windows in the list and a third one allocated, for the witnesses.\<close>

definition two_windows :: lens where
  "two_windows = lens_init
     \<lparr>windows := [1 \<mapsto> calloc_window\<lparr>nextWindow := Some 2\<rparr>,
        2 \<mapsto> calloc_window\<lparr>previousWindow := Some 1\<rparr>, 3 \<mapsto> calloc_window],
      windowList_head := Some 1, windowList_tail := Some 2, windowList_size := 2\<rparr>"

lemma two_windows_zlist: "zlist two_windows [1, 2]"
  by (simp add: zlist_def zorder_def two_windows_def lens_init_def calloc_window_def)

theorem window_list_refines_witness:
  "returns (glass_window_list_toFront 1 two_windows) (\<lambda>(moved, s'). moved \<and> zlist s' [2, 1])"
proof -
  have "windows two_windows 3 \<noteq> None" by (simp add: two_windows_def)
  from window_list_refines [OF two_windows_zlist this, of 1] show ?thesis
    by (auto simp: returns_iff)
qed

text \<open>
  Bringing windows to the front one after the other, each call on the state the one before
  left, puts them closest to the user in the order of the calls and keeps the others below them
  in their old order.
\<close>

theorem raise_windows_in_order:
  assumes "zlist s xs" and "distinct ks" and "set ks \<subseteq> set xs"
  shows "returns (run_each glass_window_list_toFront ks s)
           (\<lambda>s'. zlist s' (filter (\<lambda>x. x \<notin> set ks) xs @ ks))"
  using assms by (rule lwl.raise_each)

theorem raise_windows_in_order_witness:
  "returns (run_each glass_window_list_toFront [2, 1] two_windows) (\<lambda>s'. zlist s' [2, 1])"
  using raise_windows_in_order [OF two_windows_zlist, of "[2, 1]"] by simp

end
