(* ===== verification/SingleFloat.thy ===== *)
theory SingleFloat
  imports GlassPrelude "HOL-Library.Log_Nat"
begin

text \<open>
  Values of type \<open>float\<close> as rationals, without infinities and NaN: rounding to the 24 significant bits
  of the format, ties to even (the exponent is not bounded, the values of the program are far from
  the ends of its range), and the truncation of a conversion to an integer type.
\<close>

definition two_to :: "int \<Rightarrow> rat" where
  "two_to k = (if 0 \<le> k then 2 ^ nat k else 1 / 2 ^ nat (- k))"

definition round_half_even :: "rat \<Rightarrow> int" where
  "round_half_even y =
     (let n = \<lfloor>y\<rfloor>; d = y - of_int n
      in if d < 1 / 2 then n else if d > 1 / 2 then n + 1 else if even n then n else n + 1)"

text \<open>The exponent of the leading bit of a positive number.\<close>

definition leading_bit :: "rat \<Rightarrow> int" where
  "leading_bit x =
     (let (p, q) = quotient_of x;
          e = int (floorlog 2 (nat p)) - int (floorlog 2 (nat q))
      in if two_to e \<le> x then e else e - 1)"

definition float32 :: "rat \<Rightarrow> rat" where
  "float32 x =
     (if x = 0 then 0
      else let u = two_to (leading_bit \<bar>x\<bar> - 23)
           in (if x < 0 then - 1 else 1) * of_int (round_half_even (\<bar>x\<bar> / u)) * u)"

definition truncate_to_int :: "rat \<Rightarrow> int" where
  "truncate_to_int x = (if x < 0 then \<lceil>x\<rceil> else \<lfloor>x\<rfloor>)"

section \<open>Rounding\<close>

lemma two_to_pos [simp]: "0 < two_to k" "two_to k \<noteq> 0" "0 \<le> two_to k"
  by (simp_all add: two_to_def)

lemma two_to_Suc: "two_to (k + 1) = 2 * two_to k"
proof (cases "0 \<le> k")
  case True
  then show ?thesis by (simp add: two_to_def nat_add_distrib)
next
  case False
  then obtain n where "k = - int (Suc n)" by (metis int_cases not_le of_nat_0_le_iff)
  moreover have "nat (int n + 1) = Suc n" by simp
  ultimately show ?thesis by (simp add: two_to_def)
qed

lemma two_to_add: "two_to (a + b) = two_to a * two_to b"
proof (induction b rule: int_induct [where k = 0])
  case (step1 i)
  then show ?case using two_to_Suc [of "a + i"] two_to_Suc [of i] by (simp add: add.assoc)
next
  case (step2 i)
  then show ?case using two_to_Suc [of "a + (i - 1)"] two_to_Suc [of "i - 1"] by simp
qed (simp add: two_to_def)

lemma round_half_even_int [simp]: "round_half_even (of_int n) = n"
  by (simp add: round_half_even_def)

lemma round_half_even_near: "of_int (round_half_even y) \<le> y + 1 / 2" "y - 1 / 2 \<le> of_int (round_half_even y)"
  by (auto simp: round_half_even_def Let_def split: if_splits) linarith+

lemma floorlog_interval:
  "0 < n \<Longrightarrow> two_to (int (floorlog 2 n) - 1) \<le> of_nat n \<and> of_nat n < two_to (int (floorlog 2 n))"
proof -
  assume n: "0 < n"
  define f where "f = floorlog 2 n"
  have b: "2 ^ (f - 1) \<le> n" "n < 2 ^ f" using floorlog_bounds [of n 2] n by (simp_all add: f_def)
  then have "0 < f" using n by (cases f) auto
  then have "two_to (int f - 1) = 2 ^ (f - 1)" "two_to (int f) = 2 ^ f" by (simp_all add: two_to_def nat_diff_distrib')
  moreover have "(2::rat) ^ (f - 1) \<le> of_nat n" "of_nat n < (2::rat) ^ f"
    using b by (metis of_nat_le_iff of_nat_numeral of_nat_power, metis of_nat_less_iff of_nat_numeral of_nat_power)
  ultimately show ?thesis by (simp add: f_def)
qed

lemma leading_bit_le: "0 < x \<Longrightarrow> two_to (leading_bit x) \<le> x"
proof -
  assume x: "0 < x"
  obtain p q where pq: "quotient_of x = (p, q)" by force
  have q: "0 < q" using quotient_of_denom_pos [OF pq] .
  have xq: "x = of_int p / of_int q" using quotient_of_div [OF pq] .
  with x q have p: "0 < p" by (simp add: zero_less_divide_iff)
  let ?e = "int (floorlog 2 (nat p)) - int (floorlog 2 (nat q))"
  have "two_to (?e - 1) \<le> x"
  proof -
    have "two_to (int (floorlog 2 (nat p)) - 1) \<le> of_int p" "of_int q \<le> two_to (int (floorlog 2 (nat q)))"
      using floorlog_interval [of "nat p"] floorlog_interval [of "nat q"] p q by (auto simp: of_nat_nat)
    moreover have "two_to (?e - 1) * two_to (int (floorlog 2 (nat q))) = two_to (int (floorlog 2 (nat p)) - 1)"
      by (simp add: two_to_add [symmetric])
    ultimately have "two_to (?e - 1) * of_int q \<le> of_int p"
      by (metis mult_left_mono order_trans two_to_pos(3))
    with q xq show ?thesis by (simp add: pos_le_divide_eq)
  qed
  then show ?thesis by (simp add: leading_bit_def pq Let_def)
qed

lemma float32_0 [simp]: "float32 0 = 0"
  by (simp add: float32_def)

text \<open>Rounding keeps the sign and at most doubles a number.\<close>

lemma float32_bounds: "0 \<le> x \<Longrightarrow> 0 \<le> float32 x \<and> float32 x \<le> 2 * x"
proof (cases "x = 0")
  case False
  assume "0 \<le> x"
  with False have x: "0 < x" by simp
  let ?u = "two_to (leading_bit x - 23)" and ?r = "of_int (round_half_even (x / two_to (leading_bit x - 23))) :: rat"
  have u: "two_to (leading_bit x) = ?u * 2 ^ 23"
    using two_to_add [of "leading_bit x - 23" 23] by (simp add: two_to_def [of 23])
  have "?u \<le> two_to (leading_bit x)" unfolding u by simp
  also have "\<dots> \<le> x" using leading_bit_le [OF x] .
  finally have ux: "?u \<le> x" .
  then have "1 \<le> x / ?u" by (simp add: pos_le_divide_eq)
  then have "1 / 2 \<le> ?r" "?r \<le> x / ?u + x / ?u"
    using round_half_even_near [of "x / ?u"] by linarith+
  then have "0 \<le> ?r * ?u" "?r * ?u \<le> (x / ?u + x / ?u) * ?u"
    by (intro mult_nonneg_nonneg mult_right_mono; simp)+
  then have "0 \<le> ?r * ?u" "?r * ?u \<le> 2 * x" by (simp_all add: distrib_right)
  then show ?thesis using x by (simp add: float32_def Let_def)
qed simp

lemma round_half_even_le: "y \<le> of_int n \<Longrightarrow> round_half_even y \<le> n"
proof -
  assume y: "y \<le> of_int n"
  show ?thesis
  proof (cases "y = of_int n")
    case False
    with y have "\<lfloor>y\<rfloor> < n" by (simp add: floor_less_iff)
    then show ?thesis by (auto simp: round_half_even_def Let_def)
  qed simp
qed

lemma round_half_even_ge: "of_int n \<le> y \<Longrightarrow> n \<le> round_half_even y"
proof -
  assume "of_int n \<le> y"
  then have "n \<le> \<lfloor>y\<rfloor>" by (simp add: le_floor_iff)
  then show ?thesis by (auto simp: round_half_even_def Let_def)
qed

text \<open>Integers up to \<open>2 ^ 24\<close> are numbers of type \<open>float\<close>, and rounding does not cross them.\<close>

lemma float_step:
  assumes "0 < x" "x \<le> of_int n" "n \<le> 2 ^ 24" "x \<noteq> 2 ^ 24"
  shows "\<exists>k. two_to (leading_bit x - 23) = 1 / 2 ^ k"
proof -
  have "x \<le> 2 ^ 24" using assms(2,3) by (metis of_int_le_iff of_int_numeral of_int_power order_trans)
  with assms(4) have "x < 2 ^ 24" by simp
  then have "two_to (leading_bit x) < two_to 24" using leading_bit_le [OF assms(1)] by (simp add: two_to_def [of 24])
  then have "leading_bit x < 24"
  proof (rule contrapos_pp)
    assume "\<not> leading_bit x < 24"
    then have "two_to (leading_bit x) = two_to 24 * two_to (leading_bit x - 24)" by (simp flip: two_to_add)
    moreover have "1 \<le> two_to (leading_bit x - 24)" using \<open>\<not> leading_bit x < 24\<close> by (simp add: two_to_def)
    ultimately show "\<not> two_to (leading_bit x) < two_to 24"
      using mult_left_mono [of 1 "two_to (leading_bit x - 24)" "two_to 24"] by simp
  qed
  then have "leading_bit x - 23 \<le> 0" by simp
  then show ?thesis
    by (cases "leading_bit x = 23") (auto simp: two_to_def intro: exI [of _ "nat (23 - leading_bit x)"] exI [of _ "0::nat"])
qed

lemma float32_between:
  assumes "0 < x" "x < 2 ^ 24" 
  shows "x \<le> of_int n \<Longrightarrow> n \<le> 2 ^ 24 \<Longrightarrow> float32 x \<le> of_int n" "of_int n \<le> x \<Longrightarrow> of_int n \<le> float32 x"
proof -
  have "x \<le> of_int (2 ^ 24)" "x \<noteq> 2 ^ 24" using assms by auto
  from float_step [OF assms(1) this(1) _ this(2)] obtain k where k: "two_to (leading_bit x - 23) = 1 / 2 ^ k" by auto
  have f: "float32 x = of_int (round_half_even (x * 2 ^ k)) / 2 ^ k"
    using assms by (simp add: float32_def k Let_def)
  show "float32 x \<le> of_int n" if "x \<le> of_int n"
  proof -
    have "x * 2 ^ k \<le> of_int (n * 2 ^ k)" using that by (simp add: mult_right_mono)
    from round_half_even_le [OF this] have "round_half_even (x * 2 ^ k) \<le> n * 2 ^ k" .
    then have "(of_int (round_half_even (x * 2 ^ k)) :: rat) \<le> of_int (n * 2 ^ k)" by (simp only: of_int_le_iff)
    then show ?thesis by (simp add: f divide_le_eq)
  qed
  show "of_int n \<le> float32 x" if "of_int n \<le> x"
  proof -
    have "of_int (n * 2 ^ k) \<le> x * 2 ^ k" using that by (simp add: mult_right_mono)
    from round_half_even_ge [OF this] have "n * 2 ^ k \<le> round_half_even (x * 2 ^ k)" .
    then have "(of_int (n * 2 ^ k) :: rat) \<le> of_int (round_half_even (x * 2 ^ k))" by (simp only: of_int_le_iff)
    then show ?thesis by (simp add: f le_divide_eq)
  qed
qed

lemma float32_int: "0 \<le> n \<Longrightarrow> n < 2 ^ 24 \<Longrightarrow> float32 (of_int n) = of_int n"
proof (cases "n = 0")
  case False
  assume n: "0 \<le> n" "n < 2 ^ 24"
  then have "(of_int n :: rat) < of_int (2 ^ 24)" by (simp only: of_int_less_iff)
  then have "0 < (of_int n :: rat)" "(of_int n :: rat) < 2 ^ 24" using n False by auto
  from float32_between [OF this] n show ?thesis by (intro antisym) auto
qed simp

lemma float32_within:
  assumes "0 \<le> x" "x \<le> of_int n" "n < 2 ^ 24"
  shows "0 \<le> float32 x" "float32 x \<le> of_int n"
proof -
  have "(of_int n :: rat) < of_int (2 ^ 24)" using assms(3) by (simp only: of_int_less_iff)
  then have "x < 2 ^ 24" using assms(2) by simp
  then show "0 \<le> float32 x" "float32 x \<le> of_int n"
    using float32_bounds [OF assms(1)] float32_between(1) [of x n] assms by (cases "x = 0"; simp)+
qed

end
