(* ===== verification/HeadlessScreen.thy ===== *)
theory HeadlessScreen
  imports LensWindowList SingleFloat
begin

text \<open>
  \<open>wm/screen/headlessScreen.c\<close>: the screen without a device, a buffer of 600 by 800 pixels in
  memory. Of the platform back ends this is the one the development fixes; the window manager
  calls its functions for the platform data of windows, for clearing and for painting.
\<close>

unbundle bit_operations_syntax

abbreviation (input) SCREEN_WIDTH :: int where "SCREEN_WIDTH \<equiv> 600"
abbreviation (input) SCREEN_HEIGHT :: int where "SCREEN_HEIGHT \<equiv> 800"

section \<open>Platform data\<close>

definition glass_application_initialize :: bool where
  "glass_application_initialize = True"

definition lens_input_initialize :: bool where
  "lens_input_initialize = True"

definition glass_window_PlatformWindowData_create :: "win \<Rightarrow> lens \<Rightarrow> (LensResult \<times> lens) option" where
  "glass_window_PlatformWindowData_create w s = do {
     s \<leftarrow> update_window w (\<lambda>x. x\<lparr>window_id := windowIndex s\<rparr>) s;
     Some (LENS_OK, s\<lparr>windowIndex := windowIndex s + 1\<rparr>)
   }"

definition glass_window_PlatformWindowRelease :: "win \<Rightarrow> lens \<Rightarrow> LensResult \<times> lens" where
  "glass_window_PlatformWindowRelease w s = (LENS_OK, s)"

definition glass_view_PlatformViewData_create :: "viewp \<Rightarrow> lens \<Rightarrow> LensResult \<times> lens" where
  "glass_view_PlatformViewData_create v s = (LENS_OK, s)"

definition glass_view_PlatformViewRelease :: "viewp \<Rightarrow> lens \<Rightarrow> LensResult \<times> lens" where
  "glass_view_PlatformViewRelease v s = (LENS_OK, s)"

definition lens_platform_windowMinimize :: "win \<Rightarrow> bool \<Rightarrow> lens \<Rightarrow> lens" where
  "lens_platform_windowMinimize w toMinimize s = s"

definition lens_platform_windowSetVisible :: "win \<Rightarrow> bool \<Rightarrow> lens \<Rightarrow> lens" where
  "lens_platform_windowSetVisible w visible s = s"

section \<open>The frame buffer\<close>

text \<open>
  \<open>pixels\<close> is what \<open>malloc\<close> returned: null, or a buffer of 600 * 800 pixels with any content.
\<close>

definition lens_screen_initialize :: "32 word list option \<Rightarrow> NativeScreen" where
  "lens_screen_initialize pixels =
     \<lparr>depth = 24, scr_x = 0, scr_y = 0, scr_width = SCREEN_WIDTH, scr_height = SCREEN_HEIGHT,
      visibleX = 0, visibleY = 0, visibleWidth = SCREEN_WIDTH, visibleHeight = SCREEN_HEIGHT,
      resolutionX = 100, resolutionY = 100, scr_data = pixels\<rparr>"

text \<open>Writing \<open>n\<close> pixels through a pointer that moves along the buffer.\<close>

fun fill_pixels :: "nat \<Rightarrow> 32 word \<Rightarrow> 32 word list \<Rightarrow> 32 word list option" where
  "fill_pixels 0 px d = Some d"
| "fill_pixels (Suc n) px [] = None"
| "fill_pixels (Suc n) px (p # d) = map_option (Cons px) (fill_pixels n px d)"

definition clear_background :: "lens \<Rightarrow> lens option" where
  "clear_background s = do {
     scr \<leftarrow> glass_screen_getMainScreen s;
     case scr_data scr of
       None \<Rightarrow> Some s
     | Some dst \<Rightarrow> do {
         dst \<leftarrow> fill_pixels (nat (scr_width scr * scr_height scr)) 0xff000000 dst;
         Some (s\<lparr>mainScreen := Some (scr\<lparr>scr_data := Some dst\<rparr>)\<rparr>)
       }
   }"

definition glass_screen_clear :: "lens \<Rightarrow> lens option" where
  "glass_screen_clear s = clear_background s"

definition lens_screen_getFrameBuffer :: "lens \<Rightarrow> 32 word list option" where
  "lens_screen_getFrameBuffer s = mainScreen s \<bind> scr_data"

text \<open>From ARGB to the ABGR of the buffer, and back.\<close>

definition swap_red_blue :: "32 word \<Rightarrow> 32 word" where
  "swap_red_blue argb = (argb AND 0xff00ff00) OR push_bit 16 (argb AND 0xff)
     OR drop_bit 16 (argb AND 0xff0000)"

text \<open>
  One pixel of \<open>glass_pixel_attachIntBuffer\<close>: the source pixel over the pixel in the buffer, for a
  window of opacity \<open>alpha8\<close> (0 to 255).
\<close>

definition blend_pixel :: "32 word \<Rightarrow> 32 word \<Rightarrow> 32 word \<Rightarrow> 32 word" where
  "blend_pixel alpha8 argb dst =
     (if alpha8 = 255 \<and> argb AND 0xff000000 = 0xff000000 then swap_red_blue argb
      else if alpha8 = 0 \<or> argb AND 0xff000000 = 0 then dst
      else
        let As = drop_bit 24 (argb AND 0xff000000);
            Bs = drop_bit 16 (argb AND 0xff0000);
            Gs = drop_bit 8 (argb AND 0xff00);
            Rs = argb AND 0xff;
            As = drop_bit 8 (alpha8 * As);
            Rd = drop_bit 16 (dst AND 0xff0000);
            Gd = drop_bit 8 (dst AND 0xff00);
            Bd = dst AND 0xff;
            Rr = drop_bit 8 (Rs * As + Rd * (255 - As));
            Gr = drop_bit 8 (Gs * As + Gd * (255 - As));
            Br = drop_bit 8 (Bs * As + Bd * (255 - As))
        in 0xff000000 OR push_bit 16 Rr OR push_bit 8 Gr OR Br)"

text \<open>
  \<open>(unsigned int)(255 * window->alpha) & 0xff\<close>; converting a number that \<open>unsigned int\<close> cannot
  hold is undefined.
\<close>

definition paint_alpha :: "rat \<Rightarrow> 32 word option" where
  "paint_alpha a =
     (let x = float32 (255 * a)
      in if - 1 < x \<and> x < 2 ^ 32 then Some (word_of_int (truncate_to_int x) AND 0xff) else None)"

definition glass_pixel_attachIntBuffer ::
    "32 word list \<Rightarrow> win \<Rightarrow> int \<Rightarrow> int \<Rightarrow> int \<Rightarrow> lens \<Rightarrow> lens option" where
  "glass_pixel_attachIntBuffer srcPixels w width height offset s = do {
     scr \<leftarrow> glass_screen_getMainScreen s;
     win \<leftarrow> windows s w;
     alpha8 \<leftarrow> paint_alpha (alpha win);
     let win_x = b_x (currentBounds win);
         win_y = b_y (currentBounds win);
         win_width = (if win_x + width > scr_width scr then scr_width scr - win_x else width);
         win_height = (if win_y + height > scr_height scr then scr_height scr - win_y else height);
         framebuffer = (case scr_data scr of None \<Rightarrow> [] | Some d \<Rightarrow> d)
     in do {
       framebuffer \<leftarrow> for_range 0 (nat win_height) (\<lambda>y fb.
          for_range 0 (nat win_width) (\<lambda>x fb. do {
            argb \<leftarrow> read_at srcPixels (int y * width + int x);
            dst \<leftarrow> read_at fb ((win_y + int y) * scr_width scr + win_x + int x);
            write_at fb ((win_y + int y) * scr_width scr + win_x + int x)
              (blend_pixel alpha8 argb dst)
          }) fb) framebuffer;
       Some (s\<lparr>mainScreen := Some (scr\<lparr>scr_data :=
                 (if scr_data scr = None then None else Some framebuffer)\<rparr>)\<rparr>)
     }
   }"

text \<open>
  The screen capture: the pixels of the region, row by row, into a new buffer, or \<open>None\<close> in the
  pair for \<open>JNI_FALSE\<close>. Every row is read from the row \<open>y\<close> of the buffer.
\<close>

definition glass_screen_capture :: "int \<Rightarrow> int \<Rightarrow> int \<Rightarrow> int \<Rightarrow> lens \<Rightarrow> 32 word list option option" where
  "glass_screen_capture x y width height s = do {
     scr \<leftarrow> glass_screen_getMainScreen s;
     if x > scr_width scr \<or> x < 0 \<or> y > scr_height scr \<or> y < 0 then Some None
     else
       let framebuffer = (case scr_data scr of None \<Rightarrow> [] | Some d \<Rightarrow> d)
       in do {
         pixels \<leftarrow> for_range 0 (nat height) (\<lambda>ys out.
            for_range 0 (nat width) (\<lambda>xs out.
              if int ys < scr_height scr \<and> int xs < scr_width scr then do {
                argb \<leftarrow> read_at framebuffer (y * scr_width scr + x + int xs);
                Some (out @ [swap_red_blue argb])
              }
              else Some (out @ [0xff000000])) out) [];
         Some (Some pixels)
       }
   }"

end
