(* ===== verification/LensInvariant.thy ===== *)
theory LensInvariant
  imports HeadlessScreen
begin

text \<open>
  The invariant of the window system. \<open>wm_ok lv D V xs l r s\<close> says of a state \<open>s\<close>: the allocated windows
  and views are \<open>D\<close> and \<open>V\<close>; the linked list of windows is \<open>xs\<close>; the list mutex and the render mutex
  are held or free as \<open>l\<close> and \<open>r\<close> say; the pointers the window manager keeps, the view of every
  window and the parent of every view are valid or null; a window that holds the grab has the
  focus; there is an application object and a screen whose buffer has the size it claims. The
  rules for the \<open>notify\<close> functions of \<open>LensApplication.c\<close> say that they return and keep all of it.
\<close>

section \<open>The invariant\<close>

definition screen_ok :: "lens \<Rightarrow> bool" where
  "screen_ok s \<longleftrightarrow> (\<exists>d. mainScreen s = Some (lens_screen_initialize d) \<and>
     (\<forall>px. d = Some px \<longrightarrow> length px = 480000))"

definition ptr_ok :: "win set \<Rightarrow> win option \<Rightarrow> bool" where
  "ptr_ok D p \<longleftrightarrow> (\<forall>w. p = Some w \<longrightarrow> w \<in> D)"

definition wm_ok :: "bool \<times> bool \<Rightarrow> win set \<Rightarrow> viewp set \<Rightarrow> win list \<Rightarrow> bool \<Rightarrow> bool \<Rightarrow> lens \<Rightarrow> bool" where
  "wm_ok lv D V xs l r s \<longleftrightarrow> dom (windows s) = D \<and> dom (views s) = V \<and>
     windowListLocked s = l \<and> renderLocked s = r \<and> zorder s xs \<and>
     ptr_ok D (focusedWindow s) \<and> ptr_ok D (mouseWindow s) \<and> (fst lv \<longrightarrow> ptr_ok D (dragGrabbingWindow s)) \<and>
     (grabbedWindow s \<noteq> None \<longrightarrow> grabbedWindow s = focusedWindow s) \<and>
     (\<forall>w win. windows s w = Some win \<longrightarrow> ptr_ok V (view win)) \<and>
     (snd lv \<longrightarrow> (\<forall>v nv. views s v = Some nv \<longrightarrow> ptr_ok D (parent nv))) \<and>
     pApplication s \<noteq> None \<and> screen_ok s"

lemma zorder_fields:
  "windows s' = windows s \<Longrightarrow> windowList_head s' = windowList_head s \<Longrightarrow>
   windowList_tail s' = windowList_tail s \<Longrightarrow> windowList_size s' = windowList_size s \<Longrightarrow>
   zorder s' xs = zorder s xs"
  by (simp add: zorder_def)

lemma dseg_upd_links:
  "h w = Some x \<Longrightarrow> previousWindow y = previousWindow x \<Longrightarrow> nextWindow y = nextWindow x \<Longrightarrow>
     dseg (h(w \<mapsto> y)) p xs n = dseg h p xs n"
  by (induction xs arbitrary: p) auto

lemma zorder_update:
  "windows s w = Some x \<Longrightarrow> previousWindow y = previousWindow x \<Longrightarrow> nextWindow y = nextWindow x \<Longrightarrow>
     zorder (s\<lparr>windows := (windows s)(w \<mapsto> y)\<rparr>) xs = zorder s xs"
  by (simp add: zorder_def dseg_upd_links)

lemma ptr_ok_simps [simp]: "ptr_ok D None" "ptr_ok D (Some w) = (w \<in> D)"
  by (auto simp: ptr_ok_def)

section \<open>Writes that keep the invariant\<close>

lemma wm_ok_output [simp]:
  "wm_ok lv D V xs l r (s\<lparr>trace := t\<rparr>) = wm_ok lv D V xs l r s"
  "wm_ok lv D V xs l r (s\<lparr>keys := k\<rparr>) = wm_ok lv D V xs l r s"
  "wm_ok lv D V xs l r (s\<lparr>mousePosX := i\<rparr>) = wm_ok lv D V xs l r s"
  "wm_ok lv D V xs l r (s\<lparr>mousePosY := i\<rparr>) = wm_ok lv D V xs l r s"
  "wm_ok lv D V xs l r (s\<lparr>onDraggingAction := b\<rparr>) = wm_ok lv D V xs l r s"
  "wm_ok lv D V xs l r (s\<lparr>mousePressedButton := i\<rparr>) = wm_ok lv D V xs l r s"
  "wm_ok lv D V xs l r (s\<lparr>isDnDStarted := b\<rparr>) = wm_ok lv D V xs l r s"
  "wm_ok lv D V xs l r (s\<lparr>touchWindow := p\<rparr>) = wm_ok lv D V xs l r s"
  "wm_ok lv D V xs l r (s\<lparr>windowIndex := i\<rparr>) = wm_ok lv D V xs l r s"
  by (simp_all add: wm_ok_def screen_ok_def zorder_def)

lemma wm_ok_pointers:
  "wm_ok lv D V xs l r s \<Longrightarrow> ptr_ok D p \<Longrightarrow> wm_ok lv D V xs l r (s\<lparr>mouseWindow := p\<rparr>)"
  "wm_ok lv D V xs l r s \<Longrightarrow> ptr_ok D p \<Longrightarrow> wm_ok lv D V xs l r (s\<lparr>dragGrabbingWindow := p\<rparr>)"
  "wm_ok lv D V xs l r s \<Longrightarrow> wm_ok lv D V xs l r (s\<lparr>grabbedWindow := None\<rparr>)"
  "wm_ok lv D V xs l r s \<Longrightarrow> grabbedWindow s = None \<Longrightarrow> ptr_ok D p \<Longrightarrow> wm_ok lv D V xs l r (s\<lparr>focusedWindow := p\<rparr>)"
  "wm_ok lv D V xs l r s \<Longrightarrow> wm_ok lv D V xs l r (s\<lparr>grabbedWindow := focusedWindow s\<rparr>)"
  by (simp_all add: wm_ok_def screen_ok_def zorder_def)

lemma wm_ok_window [ok_rules]:
  "wm_ok lv D V xs l r s \<Longrightarrow> w \<in> D \<Longrightarrow>
     returns (windows s w) (\<lambda>x. windows s w = Some x \<and> ptr_ok V (view x))"
  by (auto simp: wm_ok_def returns_iff dom_def)

lemma wm_ok_view [ok_rules]:
  "wm_ok lv D V xs l r s \<Longrightarrow> v \<in> V \<Longrightarrow>
     returns (views s v) (\<lambda>x. views s v = Some x \<and> (snd lv \<longrightarrow> ptr_ok D (parent x)))"
  by (auto simp: wm_ok_def returns_iff dom_def)

lemma update_window_ok [ok_rules]:
  assumes "wm_ok lv D V xs l r s" "w \<in> D" "\<And>x. ptr_ok V (view x) \<Longrightarrow> ptr_ok V (view (f x))"
    "\<And>x. previousWindow (f x) = previousWindow x" "\<And>x. nextWindow (f x) = nextWindow x"
  shows "returns (update_window w f s) (wm_ok lv D V xs l r)"
proof -
  obtain x where x: "windows s w = Some x" using assms(1,2) by (auto simp: wm_ok_def)
  have "zorder (s\<lparr>windows := (windows s)(w \<mapsto> f x)\<rparr>) xs = zorder s xs" for xs
    using zorder_update [OF x, of "f x"] assms(4,5) by simp
  then show ?thesis
    using assms(1,2,3) x by (auto simp: wm_ok_def update_window_def screen_ok_def)
qed

lemma call_java_ok [simp]: "wm_ok lv D V xs l r (call_java c s) = wm_ok lv D V xs l r s"
  by (simp add: call_java_def glass_application_checkReportException_def)

lemma lock_ok [ok_rules]:
  "wm_ok lv D V xs False r s \<Longrightarrow> returns (glass_window_list_lock s) (wm_ok lv D V xs True r)"
  "wm_ok lv D V xs l False s \<Longrightarrow> returns (render_lock s) (wm_ok lv D V xs l True)"
  by (simp_all add: wm_ok_def glass_window_list_lock_def render_lock_def screen_ok_def zorder_def)

lemma unlock_ok [keep_rules]:
  "wm_ok lv D V xs True r s \<Longrightarrow> wm_ok lv D V xs False r (glass_window_list_unlock s)"
  "wm_ok lv D V xs l True s \<Longrightarrow> wm_ok lv D V xs l False (render_unlock s)"
  by (simp_all add: wm_ok_def glass_window_list_unlock_def render_unlock_def screen_ok_def zorder_def)

lemma application_ok [ok_rules]: "wm_ok lv D V xs l r s \<Longrightarrow> returns (pApplication s) (\<lambda>_. True)"
  by (auto simp: wm_ok_def returns_iff)

section \<open>The notify functions\<close>

lemma notifyWindowEvent_ok [ok_rules]:
  "wm_ok lv D V xs l r s \<Longrightarrow> ptr_ok D p \<Longrightarrow>
     returns (glass_application_notifyWindowEvent p e s) (wm_ok lv D V xs l r)"
  unfolding glass_application_notifyWindowEvent_def
  by (auto intro!: ok_rules ok_rules [THEN returns_bindI] split: option.split)

lemma notifyWindowEvent_resize_ok [ok_rules]:
  "wm_ok lv D V xs l r s \<Longrightarrow> ptr_ok D p \<Longrightarrow>
     returns (glass_application_notifyWindowEvent_resize p e w h s) (wm_ok lv D V xs l r)"
  unfolding glass_application_notifyWindowEvent_resize_def
  by (auto intro!: ok_rules ok_rules [THEN returns_bindI] split: option.split)

lemma notifyWindowEvent_move_ok [ok_rules]:
  "wm_ok lv D V xs l r s \<Longrightarrow> ptr_ok D p \<Longrightarrow>
     returns (glass_application_notifyWindowEvent_move p x y s) (wm_ok lv D V xs l r)"
  unfolding glass_application_notifyWindowEvent_move_def
  by (auto intro!: ok_rules ok_rules [THEN returns_bindI] split: option.split)

lemma notifyViewEvent_ok [ok_rules]:
  "wm_ok lv D V xs l r s \<Longrightarrow> ptr_ok V p \<Longrightarrow>
     returns (glass_application_notifyViewEvent p e x y w h s) (wm_ok lv D V xs l r)"
  unfolding glass_application_notifyViewEvent_def
  by (auto intro!: ok_rules ok_rules [THEN returns_bindI] split: option.split)

lemma notifyMenuEvent_ok [ok_rules]:
  "wm_ok lv D V xs l r s \<Longrightarrow> ptr_ok V p \<Longrightarrow>
     returns (glass_application_notifyMenuEvent p x y x' y' k s) (wm_ok lv D V xs l r)"
  unfolding glass_application_notifyMenuEvent_def
  by (auto intro!: ok_rules ok_rules [THEN returns_bindI] split: option.split)

lemma visibleWindowList_ok [ok_rules]:
  "wm_ok lv D V xs l r s \<Longrightarrow> w \<in> D \<Longrightarrow>
     returns (glass_application_addWindowToVisibleWindowList w s) (wm_ok lv D V xs l r)"
  "wm_ok lv D V xs l r s \<Longrightarrow> w \<in> D \<Longrightarrow>
     returns (glass_application_RemoveWindowFromVisibleWindowList w s) (wm_ok lv D V xs l r)"
  unfolding glass_application_addWindowToVisibleWindowList_def
    glass_application_RemoveWindowFromVisibleWindowList_def
  by (auto intro!: ok_rules ok_rules [THEN returns_bindI])

lemma notifyMouseEvent_ok [ok_rules]:
  "wm_ok lv D V xs l r s \<Longrightarrow> w \<in> D \<Longrightarrow>
     returns (glass_application_notifyMouseEvent w e x y x' y' b s) (wm_ok lv D V xs l r)"
  unfolding glass_application_notifyMouseEvent_def
  by (auto intro!: ok_rules ok_rules [THEN returns_bindI] split: option.split simp: Let_def)

lemma notifyScrollEvent_ok [ok_rules]:
  "wm_ok lv D V xs l r s \<Longrightarrow> w \<in> D \<Longrightarrow>
     returns (glass_application_notifyScrollEvent w x y x' y' dx dy s) (wm_ok lv D V xs l r)"
  unfolding glass_application_notifyScrollEvent_def
  by (auto intro!: ok_rules ok_rules [THEN returns_bindI] split: option.split simp: Let_def)

lemma notifyKeyEvent_ok [ok_rules]:
  "wm_ok lv D V xs l r s \<Longrightarrow> ptr_ok D p \<Longrightarrow>
     returns (glass_application_notifyKeyEvent p e k rep s) (wm_ok lv D V xs l r)"
  unfolding glass_application_notifyKeyEvent_def
  by (auto intro!: ok_rules ok_rules [THEN returns_bindI] split: option.split simp: Let_def)

lemma first_opt_ok [ok_rules]: "ys \<noteq> [] \<Longrightarrow> returns (first_opt ys) (\<lambda>_. True)"
  by (cases ys) auto

lemma notifyMultiTouchEvent_ok [ok_rules]:
  assumes "wm_ok lv D V xs l r s" "w \<in> D" and n: "1 \<le> n" "n \<le> length ss" "n \<le> length is" "n \<le> length ts" "n \<le> length us"
  shows "returns (glass_application_notifyMultiTouchEvent w n ss is ts us dx dy s) (wm_ok lv D V xs l r)"
proof -
  have "ss \<noteq> []" "is \<noteq> []" "ts \<noteq> []" "us \<noteq> []" using n by auto
  then show ?thesis
    using assms unfolding glass_application_notifyMultiTouchEvent_def
    by (auto intro!: ok_rules ok_rules [THEN returns_bindI] split: option.split simp: Let_def)
qed

section \<open>Clearing the screen\<close>

lemma fill_pixels_length: "n \<le> length d \<Longrightarrow> returns (fill_pixels n px d) (\<lambda>d'. d' = replicate n px @ drop n d)"
  by (induction n px d rule: fill_pixels.induct) (auto simp: returns_iff)

lemma screen_init_simps [simp]:
  "scr_width (lens_screen_initialize d) = 600" "scr_height (lens_screen_initialize d) = 800"
  "scr_data (lens_screen_initialize d) = d"
  "(lens_screen_initialize d)\<lparr>scr_data := e\<rparr> = lens_screen_initialize e"
  by (simp_all add: lens_screen_initialize_def)

lemma clear_screen_ok [ok_rules]:
  "wm_ok lv D V xs l r s \<Longrightarrow> returns (glass_screen_clear s) (wm_ok lv D V xs l r)"
proof -
  assume s: "wm_ok lv D V xs l r s"
  then obtain d where d: "mainScreen s = Some (lens_screen_initialize d)"
    "\<And>px. d = Some px \<Longrightarrow> length px = 480000"
    by (auto simp: wm_ok_def screen_ok_def)
  show ?thesis
  proof (cases d)
    case None
    with s d show ?thesis
      by (simp add: glass_screen_clear_def clear_background_def glass_screen_getMainScreen_def)
  next
    case (Some px)
    have "length px = 480000" using d(2) [OF Some] .
    then obtain px' where "fill_pixels 480000 0xff000000 px = Some px'" "length px' = 480000"
      using fill_pixels_length [of 480000 px "0xff000000"] by (auto simp: returns_iff)
    with s d Some show ?thesis
      by (simp add: glass_screen_clear_def clear_background_def
          glass_screen_getMainScreen_def wm_ok_def screen_ok_def zorder_def) blast
  qed
qed

lemma zorder_mem: "zorder s xs \<Longrightarrow> set xs \<subseteq> dom (windows s)"
  by (auto simp: zorder_def dest: dseg_dom)

lemma wm_ok_mem: "wm_ok lv D V xs l r s \<Longrightarrow> set xs \<subseteq> D"
  by (auto simp: wm_ok_def dest: zorder_mem)

section \<open>What the notify functions leave alone\<close>

text \<open>
  Notifying Java and clearing the screen write the trace, the key modifiers and the pixels, and
  take and free the mutexes: with these erased the state is the same before and after.
\<close>

definition core :: "lens \<Rightarrow> lens" where
  "core s = s\<lparr>windowListLocked := False, renderLocked := False, mainScreen := None,
     keys := keys_init, trace := []\<rparr>"

lemma core_upd [simp]:
  "core (s\<lparr>trace := t\<rparr>) = core s" "core (s\<lparr>keys := k\<rparr>) = core s" "core (s\<lparr>mainScreen := m\<rparr>) = core s"
  "core (s\<lparr>renderLocked := b\<rparr>) = core s" "core (s\<lparr>windowListLocked := b\<rparr>) = core s"
  "core (call_java c s) = core s" "core (glass_window_list_unlock s) = core s" "core (render_unlock s) = core s"
  by (simp_all add: core_def call_java_def glass_application_checkReportException_def
      glass_window_list_unlock_def render_unlock_def)

lemma core_sel:
  "windows (core s) = windows s" "views (core s) = views s" 
    "focusedWindow (core s) = focusedWindow s" "grabbedWindow (core s) = grabbedWindow s" 
    "mouseWindow (core s) = mouseWindow s" "dragGrabbingWindow (core s) = dragGrabbingWindow s" 
    "onDraggingAction (core s) = onDraggingAction s" 
    "mousePressedButton (core s) = mousePressedButton s" "mousePosX (core s) = mousePosX s" 
    "mousePosY (core s) = mousePosY s" "touchWindow (core s) = touchWindow s" 
    "isDnDStarted (core s) = isDnDStarted s" "throws (core s) = throws s" 
    "pApplication (core s) = pApplication s"
  by (simp_all add: core_def)

lemma core_fields:
  assumes "core s' = core s"
  shows
  "windows s' = windows s" "views s' = views s" "focusedWindow s' = focusedWindow s" 
    "grabbedWindow s' = grabbedWindow s" "mouseWindow s' = mouseWindow s" 
    "dragGrabbingWindow s' = dragGrabbingWindow s" "onDraggingAction s' = onDraggingAction s" 
    "mousePressedButton s' = mousePressedButton s" "mousePosX s' = mousePosX s" 
    "mousePosY s' = mousePosY s" "touchWindow s' = touchWindow s" 
    "isDnDStarted s' = isDnDStarted s" "throws s' = throws s" "pApplication s' = pApplication s"
  using assms core_sel [of s] core_sel [of s'] by simp_all

lemma core_locks:
  "glass_window_list_lock s = Some s' \<Longrightarrow> core s' = core s"
  "render_lock s = Some s' \<Longrightarrow> core s' = core s"
  by (auto simp: glass_window_list_lock_def render_lock_def split: if_splits)

lemma core_notify:
  "glass_application_notifyWindowEvent p e s = Some s' \<Longrightarrow> core s' = core s"
  "glass_application_notifyWindowEvent_resize p e w h s = Some s' \<Longrightarrow> core s' = core s"
  "glass_application_notifyWindowEvent_move p x y s = Some s' \<Longrightarrow> core s' = core s"
  "glass_application_notifyViewEvent q e x y w h s = Some s' \<Longrightarrow> core s' = core s"
  "glass_application_notifyMenuEvent q x y x' y' k s = Some s' \<Longrightarrow> core s' = core s"
  by (auto simp: glass_application_notifyWindowEvent_def glass_application_notifyWindowEvent_resize_def
      glass_application_notifyWindowEvent_move_def glass_application_notifyViewEvent_def
      glass_application_notifyMenuEvent_def split: if_splits option.splits bind_splits)

lemma core_notifyMouse:
  "glass_application_notifyMouseEvent w e x y x' y' b s = Some s' \<Longrightarrow> core s' = core s"
  by (auto simp: glass_application_notifyMouseEvent_def Let_def core_notify
      split: if_splits option.splits bind_splits dest!: core_notify)

lemma core_clear: "glass_screen_clear s = Some s' \<Longrightarrow> core s' = core s"
  by (auto simp: glass_screen_clear_def clear_background_def split: bind_splits option.splits)

end
