(* ===== verification/LensFocus.thy ===== *)
theory LensFocus
  imports LensInvariant
begin

text \<open>
  The part of \<open>wm/LensWindowManager.c\<close> that repaints windows and keeps the focus, the focus grab
  and the window under the mouse, with the focus variable of \<open>LensWindow.c\<close>. Each
  operation keeps the invariant; the focus events a change of focus sends are given exactly.
\<close>

section \<open>Start, pointers and repainting\<close>

text \<open>The RFB server is not compiled in (\<open>USE_RFB\<close> is not defined): its hooks are empty.\<close>

definition lens_wm_clearScreen :: "lens \<Rightarrow> lens option" where
  "lens_wm_clearScreen s = glass_screen_clear s"

definition lens_wm_notifyWindowUpdate :: "win \<Rightarrow> int \<Rightarrow> int \<Rightarrow> lens \<Rightarrow> lens" where
  "lens_wm_notifyWindowUpdate w width height s = s"

definition lens_wm_initialize :: "32 word list option \<Rightarrow> lens \<Rightarrow> (bool \<times> lens) option" where
  "lens_wm_initialize pixels s =
     (if glass_application_initialize then do {
        s \<leftarrow> lens_wm_clearScreen (s\<lparr>mainScreen := Some (lens_screen_initialize pixels)\<rparr>);
        Some (lens_input_initialize, s)
      }
      else Some (False, s))"

definition lens_wm_getPointerPosition :: "lens \<Rightarrow> int \<times> int" where
  "lens_wm_getPointerPosition s = (mousePosX s, mousePosY s)"

definition fbCursorSetPosition :: "int \<Rightarrow> int \<Rightarrow> lens \<Rightarrow> lens" where
  "fbCursorSetPosition x y s = s\<lparr>trace := trace s @ [CursorSetPosition x y]\<rparr>"

definition lens_wm_setPointerPosition :: "int \<Rightarrow> int \<Rightarrow> lens \<Rightarrow> lens" where
  "lens_wm_setPointerPosition x y s = fbCursorSetPosition x y (s\<lparr>mousePosX := x, mousePosY := y\<rparr>)"

text \<open>The body shared by the two functions that ask a window's view to repaint.\<close>

definition notify_repaint :: "win \<Rightarrow> lens \<Rightarrow> lens option" where
  "notify_repaint w s = do {
     win \<leftarrow> windows s w;
     if view win \<noteq> None then
       glass_application_notifyViewEvent (view win) ViewEvent_REPAINT
         (b_x (currentBounds win)) (b_y (currentBounds win))
         (b_width (currentBounds win)) (b_height (currentBounds win)) s
     else Some s
   }"

partial_function (option) repaint_loop :: "win option \<Rightarrow> lens \<Rightarrow> lens option" where
  "repaint_loop w s = (case w of
       None \<Rightarrow> Some s
     | Some x \<Rightarrow> do {
         s \<leftarrow> notify_repaint x s;
         win \<leftarrow> windows s x;
         repaint_loop (nextWindow win) s
       })"

definition lens_wm_repaint_all :: "lens \<Rightarrow> lens option" where
  "lens_wm_repaint_all s = do {
     s \<leftarrow> render_lock s;
     s \<leftarrow> glass_window_list_lock s;
     s \<leftarrow> repaint_loop (glass_window_list_getHead s) s;
     Some (render_unlock (glass_window_list_unlock s))
   }"

definition lens_wm_repaint :: "win option \<Rightarrow> lens \<Rightarrow> lens option" where
  "lens_wm_repaint window s = do {
     s \<leftarrow> render_lock s;
     s \<leftarrow> lens_wm_clearScreen s;
     s \<leftarrow> (case window of None \<Rightarrow> Some s | Some w \<Rightarrow> notify_repaint w s);
     Some (render_unlock s)
   }"

definition glass_view_drawBegin :: "lens \<Rightarrow> lens option" where
  "glass_view_drawBegin s = render_lock s"

definition glass_view_drawEnd :: "lens \<Rightarrow> lens" where
  "glass_view_drawEnd s = render_unlock s"

section \<open>Focus, grab, mouse window\<close>

definition glass_window_getFocusedWindow :: "lens \<Rightarrow> win option" where
  "glass_window_getFocusedWindow s = focusedWindow s"

definition glass_window_setFocusedWindow :: "win option \<Rightarrow> lens \<Rightarrow> lens" where
  "glass_window_setFocusedWindow window s = s\<lparr>focusedWindow := window\<rparr>"

definition glass_window_resetFocusedWindow :: "win option \<Rightarrow> lens \<Rightarrow> lens" where
  "glass_window_resetFocusedWindow window s =
     (if window = focusedWindow s then s\<lparr>focusedWindow := None\<rparr> else s)"

definition lens_wm_getGrabbedWindow :: "lens \<Rightarrow> win option" where
  "lens_wm_getGrabbedWindow s = grabbedWindow s"

definition lens_wm_setGrabbedWindow :: "win option \<Rightarrow> lens \<Rightarrow> lens" where
  "lens_wm_setGrabbedWindow window s = s\<lparr>grabbedWindow := window\<rparr>"

definition lens_wm_getMouseWindow :: "lens \<Rightarrow> win option" where
  "lens_wm_getMouseWindow s = mouseWindow s"

definition lens_wm_setMouseWindow :: "win option \<Rightarrow> lens \<Rightarrow> lens" where
  "lens_wm_setMouseWindow window s = s\<lparr>mouseWindow := window\<rparr>"

definition glass_window_grabFocus :: "win \<Rightarrow> lens \<Rightarrow> bool \<times> lens" where
  "glass_window_grabFocus window s =
     (if Some window = lens_wm_getGrabbedWindow s then (True, s)
      else if lens_wm_getGrabbedWindow s = None \<and> Some window = glass_window_getFocusedWindow s
      then (True, lens_wm_setGrabbedWindow (Some window) s)
      else (False, s))"

definition glass_window_ungrabFocus :: "win option \<Rightarrow> lens \<Rightarrow> lens option" where
  "glass_window_ungrabFocus window s =
     (if window = None then Some s
      else if window \<noteq> lens_wm_getGrabbedWindow s then Some s
      else glass_application_notifyWindowEvent window WindowEvent_FOCUS_UNGRAB
             (lens_wm_setGrabbedWindow None s))"

definition lens_wm_setFocusedWindow :: "win option \<Rightarrow> lens \<Rightarrow> lens option" where
  "lens_wm_setFocusedWindow window s =
     (let focused = glass_window_getFocusedWindow s
      in if window \<noteq> focused then do {
           s \<leftarrow> (if focused \<noteq> None then do {
                    s \<leftarrow> glass_window_ungrabFocus focused s;
                    glass_application_notifyWindowEvent focused WindowEvent_FOCUS_LOST s
                  }
                  else Some s);
           s \<leftarrow> Some (glass_window_setFocusedWindow window s);
           if window \<noteq> None
           then glass_application_notifyWindowEvent window WindowEvent_FOCUS_GAINED s
           else Some s
         }
         else Some s)"

text \<open>The search for the window to focus, from the tail of the list to its head.\<close>

partial_function (option) next_focusable :: "(win \<rightharpoonup> NativeWindow) \<Rightarrow> win option \<Rightarrow> win option option" where
  "next_focusable h w = (case w of
       None \<Rightarrow> Some None
     | Some x \<Rightarrow> do {
         win \<leftarrow> h x;
         if isVisible win \<and> win_state win \<noteq> NWS_MINIMIZED \<and> owner win = None \<and> isFocusable win
         then Some (Some x)
         else next_focusable h (previousWindow win)
       })"

definition lens_wm_unsetFocusedWindow :: "win \<Rightarrow> lens \<Rightarrow> (win option \<times> lens) option" where
  "lens_wm_unsetFocusedWindow window s =
     (if Some window = glass_window_getFocusedWindow s then do {
        s \<leftarrow> glass_window_ungrabFocus (Some window) s;
        s \<leftarrow> lens_wm_setFocusedWindow None s;
        s \<leftarrow> glass_window_list_lock s;
        f \<leftarrow> next_focusable (windows s) (glass_window_list_getTail s);
        s \<leftarrow> Some (glass_window_list_unlock s);
        s \<leftarrow> (if f \<noteq> None then lens_wm_setFocusedWindow f s else Some s);
        Some (f, s)
      }
      else Some (glass_window_getFocusedWindow s, s))"

definition glass_window_requestFocus :: "win option \<Rightarrow> int \<Rightarrow> lens \<Rightarrow> (bool \<times> lens) option" where
  "glass_window_requestFocus window focusType s =
     (case window of
        None \<Rightarrow> Some (False, s)
      | Some w \<Rightarrow>
          if window = glass_window_getFocusedWindow s then Some (True, s)
          else do {
            win \<leftarrow> windows s w;
            if \<not> isFocusable win then Some (False, s)
            else if \<not> isEnabled win then Some (False, s)
            else if \<not> isVisible win then Some (False, s)
            else do { s \<leftarrow> lens_wm_setFocusedWindow window s; Some (True, s) }
          })"

definition glass_window_setFocusable :: "win \<Rightarrow> bool \<Rightarrow> lens \<Rightarrow> (bool \<times> lens) option" where
  "glass_window_setFocusable window focusable s = do {
     win \<leftarrow> windows s window;
     if isFocusable win = focusable then Some (True, s)
     else do {
       s \<leftarrow> (if \<not> focusable \<and> glass_window_getFocusedWindow s = Some window
              then lens_wm_setFocusedWindow None s else Some s);
       s \<leftarrow> update_window window (\<lambda>x. x\<lparr>isFocusable := focusable\<rparr>) s;
       Some (True, s)
     }
   }"

text \<open>The released window is no longer the window under the mouse, the grabbed or the focused one.\<close>

definition forget_window :: "win \<Rightarrow> lens \<Rightarrow> lens" where
  "forget_window window s =
     (let s = (if Some window = lens_wm_getMouseWindow s then lens_wm_setMouseWindow None s else s);
          s = (if Some window = lens_wm_getGrabbedWindow s then lens_wm_setGrabbedWindow None s else s)
      in if Some window = glass_window_getFocusedWindow s then glass_window_setFocusedWindow None s else s)"

definition lens_wm_notifyPlatformWindowRelease :: "win \<Rightarrow> lens \<Rightarrow> (LensResult \<times> lens) option" where
  "lens_wm_notifyPlatformWindowRelease window s = do {
     s \<leftarrow> glass_window_list_lock (forget_window window s);
     head \<leftarrow> Some (glass_window_list_getHead s);
     s \<leftarrow> Some (glass_window_list_unlock s);
     s \<leftarrow> (case head of
             None \<Rightarrow> Some s
           | Some h \<Rightarrow> do {
               win \<leftarrow> windows s h;
               if view win \<noteq> None then lens_wm_repaint head s else Some s
             });
     Some (LENS_OK, s)
   }"

section \<open>Repainting keeps the invariant\<close>

lemma clearScreen_ok [ok_rules]:
  "wm_ok lv D V xs l r s \<Longrightarrow> returns (lens_wm_clearScreen s) (wm_ok lv D V xs l r)"
  unfolding lens_wm_clearScreen_def by (rule clear_screen_ok)

lemma cursor_ok [simp]: "wm_ok lv D V xs l r (fbCursorSetPosition x y s) = wm_ok lv D V xs l r s"
  by (simp add: fbCursorSetPosition_def)

lemma setPointerPosition_ok [simp]:
  "wm_ok lv D V xs l r (lens_wm_setPointerPosition x y s) = wm_ok lv D V xs l r s"
  by (simp add: lens_wm_setPointerPosition_def)

lemma notify_repaint_ok [ok_rules]:
  "wm_ok lv D V xs l r s \<Longrightarrow> w \<in> D \<Longrightarrow> returns (notify_repaint w s) (wm_ok lv D V xs l r)"
  unfolding notify_repaint_def by (auto intro!: ok_rules ok_rules [THEN returns_bindI])

lemma repaint_ok [ok_rules]:
  "wm_ok lv D V xs l False s \<Longrightarrow> ptr_ok D p \<Longrightarrow> returns (lens_wm_repaint p s) (wm_ok lv D V xs l False)"
  unfolding lens_wm_repaint_def
  by (auto intro!: ok_rules ok_rules [THEN returns_bindI] keep_rules split: option.split)

lemma wm_ok_links:
  "wm_ok lv D V (as @ x # bs) l r s \<Longrightarrow>
     returns (windows s x) (\<lambda>w. previousWindow w = last_opt as \<and> nextWindow w = first_opt bs)"
  unfolding wm_ok_def zorder_def by (elim conjE dseg_mid) (simp add: returns_iff)

lemma repaint_loop_ok:
  "wm_ok lv D V (as @ bs) l r s \<Longrightarrow> returns (repaint_loop (first_opt bs) s) (wm_ok lv D V (as @ bs) l r)"
proof (induction bs arbitrary: as s)
  case Nil
  then show ?case by (simp add: repaint_loop.simps)
next
  case (Cons x bs)
  have x: "x \<in> D" using wm_ok_mem [OF Cons.prems] by simp
  have IH: "returns (repaint_loop (first_opt bs) s') (wm_ok lv D V (as @ x # bs) l r)"
    if "wm_ok lv D V (as @ x # bs) l r s'" for s'
    using Cons.IH [of "as @ [x]"] that by simp
  show ?case
    by (subst repaint_loop.simps)
       (auto intro!: notify_repaint_ok [THEN returns_bindI] wm_ok_links [THEN returns_bindI] Cons.prems x IH)
qed

lemma repaint_all_ok [ok_rules]:
  "wm_ok lv D V xs False False s \<Longrightarrow> returns (lens_wm_repaint_all s) (wm_ok lv D V xs False False)"
proof -
  have "returns (repaint_loop (glass_window_list_getHead s) s) (wm_ok lv D V xs l r)"
    if "wm_ok lv D V xs l r s" for l r s
    using repaint_loop_ok [of lv D V "[]" xs l r s] that
    by (simp add: glass_window_list_getHead_def wm_ok_def zorder_def)
  note loop = this [THEN returns_bindI]
  show "wm_ok lv D V xs False False s \<Longrightarrow> returns (lens_wm_repaint_all s) (wm_ok lv D V xs False False)"
    unfolding lens_wm_repaint_all_def
    by (auto intro!: ok_rules [THEN returns_bindI] loop keep_rules)
qed

lemma core_notify_repaint: "notify_repaint w s = Some s' \<Longrightarrow> core s' = core s"
  by (auto simp: notify_repaint_def split: bind_splits if_splits dest!: core_notify)

lemma core_repaint: "lens_wm_repaint p s = Some s' \<Longrightarrow> core s' = core s"
  by (auto simp: lens_wm_repaint_def lens_wm_clearScreen_def split: bind_splits option.splits
      dest!: core_locks core_clear core_notify_repaint)

section \<open>Focus operations keep the invariant\<close>

lemma focus_getters_ok [intro]:
  "wm_ok lv D V xs l r s \<Longrightarrow> ptr_ok D (glass_window_getFocusedWindow s)"
  "wm_ok lv D V xs l r s \<Longrightarrow> ptr_ok D (lens_wm_getGrabbedWindow s)"
  "wm_ok lv D V xs l r s \<Longrightarrow> ptr_ok D (lens_wm_getMouseWindow s)"
  by (cases "grabbedWindow s"; simp add: wm_ok_def glass_window_getFocusedWindow_def
      lens_wm_getGrabbedWindow_def lens_wm_getMouseWindow_def)+

lemma setMouseWindow_ok [keep_rules]:
  "wm_ok lv D V xs l r s \<Longrightarrow> ptr_ok D p \<Longrightarrow> wm_ok lv D V xs l r (lens_wm_setMouseWindow p s)"
  by (simp add: lens_wm_setMouseWindow_def wm_ok_pointers)

lemma grabFocus_ok [keep_rules]:
  "wm_ok lv D V xs l r s \<Longrightarrow> wm_ok lv D V xs l r (snd (glass_window_grabFocus w s))"
  using wm_ok_pointers(5) [of lv D V xs l r s]
  by (simp add: glass_window_grabFocus_def lens_wm_setGrabbedWindow_def glass_window_getFocusedWindow_def)

lemma call_java_fields [simp]:
  "grabbedWindow (call_java c s) = grabbedWindow s" "focusedWindow (call_java c s) = focusedWindow s"
  "windows (call_java c s) = windows s" "pApplication (call_java c s) = pApplication s"
  "throws (call_java c s) = throws s"
  by (simp_all add: call_java_def glass_application_checkReportException_def)

lemma ungrabFocus_ok [ok_rules]:
  "wm_ok lv D V xs l r s \<Longrightarrow> ptr_ok D p \<Longrightarrow> returns (glass_window_ungrabFocus p s) (wm_ok lv D V xs l r)"
  unfolding glass_window_ungrabFocus_def lens_wm_setGrabbedWindow_def
  by (auto intro!: ok_rules wm_ok_pointers)

text \<open>A change of focus, in closed form.\<close>

definition jwindow :: "lens \<Rightarrow> win \<Rightarrow> jobject option" where
  "jwindow s w = windows s w \<bind> lensWindow"

definition focus_events :: "lens \<Rightarrow> win option \<Rightarrow> upcall list" where
  "focus_events s p =
     (case focusedWindow s of
        None \<Rightarrow> []
      | Some f \<Rightarrow> (if grabbedWindow s = Some f then [NotifyWindowEvent (jwindow s f) WindowEvent_FOCUS_UNGRAB] else [])
                  @ [NotifyWindowEvent (jwindow s f) WindowEvent_FOCUS_LOST])
     @ (case p of None \<Rightarrow> [] | Some w \<Rightarrow> [NotifyWindowEvent (jwindow s w) WindowEvent_FOCUS_GAINED])"

lemma call_java_swap [simp]:
  "call_java c (s\<lparr>focusedWindow := p\<rparr>) = (call_java c s)\<lparr>focusedWindow := p\<rparr>"
  "call_java c (s\<lparr>grabbedWindow := p\<rparr>) = (call_java c s)\<lparr>grabbedWindow := p\<rparr>"
  by (simp_all add: call_java_def glass_application_checkReportException_def)

lemma jwindow_simps [simp]:
  "jwindow (call_java c s) w = jwindow s w" "jwindow (s\<lparr>focusedWindow := p\<rparr>) w = jwindow s w"
  "jwindow (s\<lparr>grabbedWindow := p\<rparr>) w = jwindow s w"
  by (simp_all add: jwindow_def)

lemma notifyWindowEvent_eq:
  "pApplication s \<noteq> None \<Longrightarrow> windows s w \<noteq> None \<Longrightarrow>
     glass_application_notifyWindowEvent (Some w) e s = Some (call_java (NotifyWindowEvent (jwindow s w) e) s)"
  by (auto simp: glass_application_notifyWindowEvent_def jwindow_def)

lemma ungrabbed [simp]: "grabbedWindow s = None \<Longrightarrow> s\<lparr>grabbedWindow := None\<rparr> = s"
  by simp

lemma setFocusedWindow_exact:
  assumes "wm_ok lv D V xs l r s" "ptr_ok D p" "p \<noteq> focusedWindow s"
  shows "lens_wm_setFocusedWindow p s =
     Some ((fold call_java (focus_events s p) s)\<lparr>grabbedWindow := None, focusedWindow := p\<rparr>)"
proof -
  have g: "grabbedWindow s = None \<or> grabbedWindow s = focusedWindow s" and D: "dom (windows s) = D"
    and f: "ptr_ok D (focusedWindow s)" and a: "pApplication s \<noteq> None"
    using assms(1) by (auto simp: wm_ok_def)
  have w: "windows s w \<noteq> None" if "w \<in> D" for w using that D by auto
  show ?thesis
    using g f a assms(2,3) w
    by (cases p; cases "focusedWindow s"; cases "grabbedWindow s")
       (auto simp: lens_wm_setFocusedWindow_def focus_events_def glass_window_getFocusedWindow_def
         glass_window_setFocusedWindow_def glass_window_ungrabFocus_def lens_wm_getGrabbedWindow_def
         lens_wm_setGrabbedWindow_def notifyWindowEvent_eq Let_def)
qed

lemma fold_call_java_ok [simp]: "wm_ok lv D V xs l r (fold call_java cs s) = wm_ok lv D V xs l r s"
  by (induction cs arbitrary: s) auto

lemma setFocusedWindow_ok [ok_rules]:
  assumes "wm_ok lv D V xs l r s" "ptr_ok D p"
  shows "returns (lens_wm_setFocusedWindow p s) (wm_ok lv D V xs l r)"
proof (cases "p = focusedWindow s")
  case True
  then show ?thesis using assms by (simp add: lens_wm_setFocusedWindow_def glass_window_getFocusedWindow_def)
next
  case False
  have "wm_ok lv D V xs l r (fold call_java (focus_events s p) s)" using assms by simp
  then have "wm_ok lv D V xs l r ((fold call_java (focus_events s p) s)\<lparr>grabbedWindow := None, focusedWindow := p\<rparr>)"
    using assms(2) by (simp add: wm_ok_def zorder_def screen_ok_def)
  then show ?thesis using setFocusedWindow_exact [OF assms False] by simp
qed


section \<open>Giving up the focus\<close>

definition focus_candidate :: "NativeWindow \<Rightarrow> bool" where
  "focus_candidate win \<longleftrightarrow> isVisible win \<and> win_state win \<noteq> NWS_MINIMIZED \<and> owner win = None \<and> isFocusable win"

lemma next_focusable_find:
  "dseg h None xs n \<Longrightarrow>
     next_focusable h (last_opt xs) = Some (List.find (\<lambda>x. focus_candidate (the (h x))) (rev xs))"
proof (induction xs arbitrary: n rule: rev_induct)
  case Nil
  then show ?case by (simp add: next_focusable.simps)
next
  case (snoc x xs)
  then obtain w where w: "h x = Some w" "previousWindow w = last_opt xs" "dseg h None xs (Some x)"
    by (auto simp: dseg_append)
  from snoc.IH [OF w(3)] w(1,2) show ?case
    by (simp add: next_focusable.simps focus_candidate_def)
qed

text \<open>The window closest to the user that satisfies \<open>P\<close>.\<close>

definition topmost :: "(NativeWindow \<Rightarrow> bool) \<Rightarrow> (win \<rightharpoonup> NativeWindow) \<Rightarrow> win list \<Rightarrow> win option" where
  "topmost P W xs = List.find (\<lambda>x. P (the (W x))) (rev xs)"

lemma topmost_mem: "topmost P W xs = Some w \<Longrightarrow> w \<in> set xs"
  unfolding topmost_def find_Some_iff by (metis nth_mem set_rev)

lemma topmost_ptr_ok: "wm_ok lv D V xs l r s \<Longrightarrow> ptr_ok D (topmost P W xs)"
  by (auto simp: ptr_ok_def dest: topmost_mem wm_ok_mem)

text \<open>
  The focus operations write the focus, the grab and the trace, nothing else: with these three
  erased the state is the same before and after.
\<close>

definition but_focus :: "lens \<Rightarrow> lens" where
  "but_focus s = s\<lparr>focusedWindow := None, grabbedWindow := None, trace := []\<rparr>"

lemma but_focus_simps [simp]:
  "but_focus (s\<lparr>focusedWindow := p\<rparr>) = but_focus s" "but_focus (s\<lparr>grabbedWindow := p\<rparr>) = but_focus s"
  "but_focus (s\<lparr>trace := t\<rparr>) = but_focus s" "but_focus (call_java c s) = but_focus s"
  by (simp_all add: but_focus_def call_java_def glass_application_checkReportException_def)

lemma but_focus_fold [simp]: "but_focus (fold call_java cs s) = but_focus s"
  by (induction cs arbitrary: s) auto

lemma but_focus_windows: "but_focus s' = but_focus s \<Longrightarrow> windows s' = windows s"
proof -
  have "windows s = windows (but_focus s)" for s by (simp add: but_focus_def)
  then show "but_focus s' = but_focus s \<Longrightarrow> windows s' = windows s" by metis
qed

lemma setFocusedWindow_returns:
  assumes "wm_ok lv D V xs l r s" "ptr_ok D p"
  shows "returns (lens_wm_setFocusedWindow p s) (\<lambda>s'. wm_ok lv D V xs l r s' \<and> focusedWindow s' = p \<and>
     (p \<noteq> focusedWindow s \<longrightarrow> grabbedWindow s' = None) \<and> but_focus s' = but_focus s)"
proof (cases "p = focusedWindow s")
  case True
  then show ?thesis using assms by (simp add: lens_wm_setFocusedWindow_def glass_window_getFocusedWindow_def)
next
  case False
  then show ?thesis
    using setFocusedWindow_ok [OF assms] setFocusedWindow_exact [OF assms False] by simp
qed

lemma ungrabFocus_returns:
  assumes "wm_ok lv D V xs l r s" "ptr_ok D p"
  shows "returns (glass_window_ungrabFocus p s) (\<lambda>s'. wm_ok lv D V xs l r s' \<and>
     focusedWindow s' = focusedWindow s \<and> (p \<noteq> None \<longrightarrow> grabbedWindow s' \<noteq> p) \<and> but_focus s' = but_focus s)"
proof -
  have a: "pApplication s \<noteq> None" "\<And>w. p = Some w \<Longrightarrow> windows s w \<noteq> None"
    using assms by (auto simp: wm_ok_def)
  show ?thesis
  proof (cases "p \<noteq> None \<and> grabbedWindow s = p")
    case True
    then show ?thesis
      using a ungrabFocus_ok [OF assms]
      by (auto simp: glass_window_ungrabFocus_def lens_wm_getGrabbedWindow_def
          lens_wm_setGrabbedWindow_def notifyWindowEvent_eq)
  next
    case False
    then show ?thesis
      using assms by (auto simp: glass_window_ungrabFocus_def lens_wm_getGrabbedWindow_def)
  qed
qed

lemma next_focusable_topmost:
  "wm_ok lv D V xs l r s \<Longrightarrow>
     next_focusable (windows s) (glass_window_list_getTail s) = Some (topmost focus_candidate (windows s) xs)"
  using next_focusable_find [of "windows s" xs None]
  by (simp add: wm_ok_def zorder_def glass_window_list_getTail_def topmost_def)

lemma list_lock_eq:
  "wm_ok lv D V xs False r s \<Longrightarrow> glass_window_list_lock s = Some (s\<lparr>windowListLocked := True\<rparr>)"
  "wm_ok lv D V xs False r s \<Longrightarrow> glass_window_list_unlock (s\<lparr>windowListLocked := True\<rparr>) = s"
  by (simp_all add: glass_window_list_lock_def glass_window_list_unlock_def wm_ok_def)

lemma unsetFocusedWindow_returns:
  assumes s: "wm_ok lv D V xs False r s" and f: "focusedWindow s = Some w"
  shows "returns (lens_wm_unsetFocusedWindow w s) (\<lambda>(p, s'). wm_ok lv D V xs False r s' \<and>
     p = topmost focus_candidate (windows s) xs \<and> focusedWindow s' = p \<and> grabbedWindow s' = None \<and>
     but_focus s' = but_focus s)"
proof -
  have w: "ptr_ok D (Some w)" using s f by (simp add: wm_ok_def)
  have "lens_wm_unsetFocusedWindow w s = do {
        s \<leftarrow> glass_window_ungrabFocus (Some w) s;
        s \<leftarrow> lens_wm_setFocusedWindow None s;
        s \<leftarrow> glass_window_list_lock s;
        f \<leftarrow> next_focusable (windows s) (glass_window_list_getTail s);
        s \<leftarrow> Some (glass_window_list_unlock s);
        s \<leftarrow> (if f \<noteq> None then lens_wm_setFocusedWindow f s else Some s);
        Some (f, s)
      }"
    using f by (simp add: lens_wm_unsetFocusedWindow_def glass_window_getFocusedWindow_def)
  also have "returns \<dots> (\<lambda>(p, s'). wm_ok lv D V xs False r s' \<and>
     p = topmost focus_candidate (windows s) xs \<and> focusedWindow s' = p \<and> grabbedWindow s' = None \<and>
     but_focus s' = but_focus s)"
  proof (rule returns_bindI [OF ungrabFocus_returns [OF s w]], rule returns_bindI [OF setFocusedWindow_returns])
    fix s1 s2
    assume 1: "wm_ok lv D V xs False r s1 \<and> focusedWindow s1 = focusedWindow s \<and>
        (Some w \<noteq> None \<longrightarrow> grabbedWindow s1 \<noteq> Some w) \<and> but_focus s1 = but_focus s"
    assume 2: "wm_ok lv D V xs False r s2 \<and> focusedWindow s2 = None \<and>
        (None \<noteq> focusedWindow s1 \<longrightarrow> grabbedWindow s2 = None) \<and> but_focus s2 = but_focus s1"
    have b: "but_focus s2 = but_focus s" using 1 2 by simp
    have p: "topmost focus_candidate (windows s2) xs = topmost focus_candidate (windows s) xs"
      using but_focus_windows [OF b] by simp
    have n: "next_focusable (windows s2) (glass_window_list_getTail s2) = Some (topmost focus_candidate (windows s) xs)"
      using next_focusable_topmost [of lv D V xs False r s2] 2 p by simp
    have g: "grabbedWindow s2 = None" using 1 2 f by simp
    show "returns (glass_window_list_lock s2 \<bind> (\<lambda>s. next_focusable (windows s) (glass_window_list_getTail s) \<bind>
        (\<lambda>f. Some (glass_window_list_unlock s) \<bind> (\<lambda>s. (if f \<noteq> None then lens_wm_setFocusedWindow f s else Some s) \<bind>
        (\<lambda>s. Some (f, s)))))) (\<lambda>(p, s'). wm_ok lv D V xs False r s' \<and> p = topmost focus_candidate (windows s) xs \<and>
        focusedWindow s' = p \<and> grabbedWindow s' = None \<and> but_focus s' = but_focus s)"
      using n 2 b g setFocusedWindow_returns [of lv D V xs False r s2 "topmost focus_candidate (windows s) xs"]
        topmost_ptr_ok [OF s, of focus_candidate "windows s"]
      by (cases "topmost focus_candidate (windows s) xs") (auto simp: list_lock_eq [of lv D V xs r] glass_window_list_getTail_def returns_iff)
  qed (auto)
  finally show ?thesis .
qed

lemma unsetFocusedWindow_ok [ok_rules]:
  assumes "wm_ok lv D V xs False r s"
  shows "returns (lens_wm_unsetFocusedWindow w s) (\<lambda>(p, s'). wm_ok lv D V xs False r s')"
proof (cases "focusedWindow s = Some w")
  case True
  from unsetFocusedWindow_returns [OF assms this] show ?thesis by (rule returns_conseq) auto
next
  case False
  then show ?thesis using assms by (simp add: lens_wm_unsetFocusedWindow_def glass_window_getFocusedWindow_def)
qed

lemma requestFocus_ok [ok_rules]:
  "wm_ok lv D V xs l r s \<Longrightarrow> ptr_ok D p \<Longrightarrow>
     returns (glass_window_requestFocus p t s) (\<lambda>(b, s'). wm_ok lv D V xs l r s')"
  unfolding glass_window_requestFocus_def
  by (auto intro!: ok_rules ok_rules [THEN returns_bindI] split: option.split)

lemma setFocusable_ok [ok_rules]:
  "wm_ok lv D V xs l r s \<Longrightarrow> w \<in> D \<Longrightarrow>
     returns (glass_window_setFocusable w b s) (\<lambda>(b, s'). wm_ok lv D V xs l r s')"
  unfolding glass_window_setFocusable_def
  by (auto intro!: update_window_ok [THEN returns_bindI] ok_rules ok_rules [THEN returns_bindI] split: option.split)


lemma head_ptr: "wm_ok lv D V xs l r s \<Longrightarrow> ptr_ok D (glass_window_list_getHead s)"
  using wm_ok_mem [of lv D V xs l r s]
  by (cases xs) (auto simp: wm_ok_def zorder_def glass_window_list_getHead_def)

lemma forget_window_ok [keep_rules]:
  "wm_ok lv D V xs l r s \<Longrightarrow> wm_ok lv D V xs l r (forget_window w s) \<and>
     mouseWindow (forget_window w s) \<noteq> Some w \<and> focusedWindow (forget_window w s) \<noteq> Some w"
  by (auto simp: forget_window_def Let_def wm_ok_def screen_ok_def zorder_def lens_wm_getMouseWindow_def
      lens_wm_setMouseWindow_def lens_wm_getGrabbedWindow_def lens_wm_setGrabbedWindow_def
      glass_window_getFocusedWindow_def glass_window_setFocusedWindow_def)

lemma notifyPlatformWindowRelease_ok [ok_rules]:
  assumes s: "wm_ok lv D V xs False False s"
  shows "returns (lens_wm_notifyPlatformWindowRelease w s) (\<lambda>(res, s'). res = LENS_OK \<and>
     wm_ok lv D V xs False False s' \<and> core s' = core (forget_window w s))"
proof -
  let ?s = "forget_window w s"
  let ?P = "\<lambda>s'. wm_ok lv D V xs False False s' \<and> core s' = core ?s"
  have s': "wm_ok lv D V xs False False ?s" using forget_window_ok [OF s] by simp
  have keep: "returns (lens_wm_repaint p ?s) ?P" if "ptr_ok D p" for p
  proof (rule returnsE [OF repaint_ok [OF s' that]])
    fix s1 assume "lens_wm_repaint p ?s = Some s1" "wm_ok lv D V xs False False s1"
    then show "returns (lens_wm_repaint p ?s) ?P" using core_repaint [of p ?s s1] by simp
  qed
  note lock = list_lock_eq [OF s'] and hd = head_ptr [OF s'] and win = wm_ok_window [OF s']
  show ?thesis
    unfolding lens_wm_notifyPlatformWindowRelease_def lock
    using s' hd
    by (cases "windowList_head ?s")
       (auto simp: lock glass_window_list_getHead_def intro!: win [THEN returns_bindI] keep [THEN returns_bindI])
qed

section \<open>A desktop, for the witnesses\<close>

definition blank_pixels :: "32 word list" where
  "blank_pixels = replicate 480000 0xff000000"

lemma length_blank_pixels [simp]: "length blank_pixels = 480000"
  by (simp add: blank_pixels_def)

text \<open>
  Two windows of 300 by 300 pixels, each with a view, the second one above the first and moved by
  100 pixels; the first one has the focus and the grab.
\<close>

definition desk_window :: "nat \<Rightarrow> int \<Rightarrow> NativeWindow" where
  "desk_window i d = calloc_window\<lparr>lensWindow := Some (200 + i), window_id := int i,
     currentBounds := \<lparr>b_x = d, b_y = d, b_width = 300, b_height = 300\<rparr>,
     view := Some (10 + i), win_root := Some i, alpha := 1, isFocusable := True, isVisible := True,
     isEnabled := True\<rparr>"

definition desk :: lens where
  "desk = lens_init\<lparr>
     windows := [1 \<mapsto> (desk_window 1 0)\<lparr>nextWindow := Some 2\<rparr>, 2 \<mapsto> (desk_window 2 100)\<lparr>previousWindow := Some 1\<rparr>],
     views := [11 \<mapsto> \<lparr>lensView = Some 111, parent = Some 1, view_bounds = zero_bounds\<rparr>,
               12 \<mapsto> \<lparr>lensView = Some 112, parent = Some 2, view_bounds = zero_bounds\<rparr>],
     windowList_head := Some 1, windowList_tail := Some 2, windowList_size := 2,
     focusedWindow := Some 1, grabbedWindow := Some 1, mainScreen := Some (lens_screen_initialize (Some blank_pixels)),
     pApplication := Some 100\<rparr>"

lemma desk_ok: "wm_ok (True, True) {1, 2} {11, 12} [1, 2] False False desk"
  by (auto simp: wm_ok_def desk_def desk_window_def lens_init_def calloc_window_def zorder_def screen_ok_def
      lens_screen_initialize_def split: if_splits)

lemma desk_simps [simp]:
  "focusedWindow desk = Some 1" "grabbedWindow desk = Some 1" "throws desk = (\<lambda>_. False)" "trace desk = []"
  "windows desk 1 = Some ((desk_window 1 0)\<lparr>nextWindow := Some 2\<rparr>)"
  "windows desk (Suc 0) = Some ((desk_window 1 0)\<lparr>nextWindow := Some 2\<rparr>)"
  "windows desk 2 = Some ((desk_window 2 100)\<lparr>previousWindow := Some 1\<rparr>)"
  by (simp_all add: desk_def lens_init_def)

section \<open>Properties\<close>

text \<open>
  C12: a change of focus tells Java exactly what happened, in this order: the window that had the
  focus is ungrabbed if it held the grab, then loses the focus, then the new window gains it;
  the grab is free afterwards. Focusing the window that already has the focus does nothing.
\<close>

theorem focus_change_notifies:
  assumes "wm_ok lv D V xs l r s" and "ptr_ok D p"
  shows "lens_wm_setFocusedWindow p s = Some (if p = focusedWindow s then s
     else (fold call_java (focus_events s p) s)\<lparr>grabbedWindow := None, focusedWindow := p\<rparr>)"
  using setFocusedWindow_exact [OF assms]
  by (simp add: lens_wm_setFocusedWindow_def glass_window_getFocusedWindow_def)

theorem focus_change_notifies_witness:
  "map_option trace (lens_wm_setFocusedWindow (Some 2) desk) =
     Some [NotifyWindowEvent (Some 201) WindowEvent_FOCUS_UNGRAB,
           NotifyWindowEvent (Some 201) WindowEvent_FOCUS_LOST,
           NotifyWindowEvent (Some 202) WindowEvent_FOCUS_GAINED]"
  using focus_change_notifies [OF desk_ok, of "Some 2"]
  by (simp add: focus_events_def jwindow_def desk_window_def call_java_def
      glass_application_checkReportException_def)

text \<open>
  When the focused window gives up the focus, the focus goes to the window closest to the user
  among those that are visible, not minimized, focusable and without an owner, and to no window
  when there is none; nobody holds the grab; windows, views and Z order are as before.
\<close>

theorem unset_focus_picks_topmost:
  assumes "wm_ok lv D V xs False r s" and "focusedWindow s = Some w"
  shows "returns (lens_wm_unsetFocusedWindow w s) (\<lambda>(p, s').
     p = topmost focus_candidate (windows s) xs \<and> focusedWindow s' = p \<and> grabbedWindow s' = None \<and>
     but_focus s' = but_focus s)"
  by (rule returns_conseq [OF unsetFocusedWindow_returns [OF assms]]) auto

theorem unset_focus_picks_topmost_witness:
  "map_option fst (lens_wm_unsetFocusedWindow 1 desk) = Some (Some 2)"
proof -
  have "topmost focus_candidate (windows desk) [1, 2] = Some 2"
    by (simp add: topmost_def focus_candidate_def desk_window_def calloc_window_def)
  with unset_focus_picks_topmost [OF desk_ok, of 1] show ?thesis by (auto simp: returns_iff)
qed

end
