(* ===== verification/LensWindowState.thy ===== *)
theory LensWindowState
  imports LensFocus
begin

text \<open>
  The window state machine of \<open>wm/LensWindowManager.c\<close> (normal, minimized, maximized, full screen),
  bounds and size limits, visibility, Z order requests and the link between views and windows;
  \<open>glass_window_check_bounds\<close> of \<open>LensWindow.c\<close> and \<open>glass_window_setAlpha\<close> of \<open>headlessScreen.c\<close>.
\<close>

section \<open>Bounds\<close>

definition glass_window_check_bounds :: "NativeWindow \<Rightarrow> int \<Rightarrow> int \<Rightarrow> bool \<times> int \<times> int" where
  "glass_window_check_bounds win w h =
     (let (ok1, w') = (if minWidth win > 0 \<and> w < minWidth win then (False, minWidth win)
                       else if maxWidth win > 0 \<and> w > maxWidth win then (False, maxWidth win)
                       else (True, w));
          (ok2, h') = (if minHeight win > 0 \<and> h < minHeight win then (False, minHeight win)
                       else if maxHeight win > 0 \<and> h > maxHeight win then (False, maxHeight win)
                       else (True, h))
      in (ok1 \<and> ok2, w', h'))"

definition lens_window_getNativeStateName :: "NativeWindowState \<Rightarrow> string" where
  "lens_window_getNativeStateName st = (case st of
       NWS_FULLSCREEN \<Rightarrow> ''FULLSCREEN''
     | NWS_MAXIMIZED \<Rightarrow> ''MAXIMIZED''
     | NWS_MINIMIZED \<Rightarrow> ''MINIMIZED''
     | NWS_NORMAL \<Rightarrow> ''NORMAL'')"

text \<open>
  The two halves of \<open>glass_window_setBoundsImpl\<close>: the resize and the move, each done and notified
  only when asked for and when something changes.
\<close>

definition setBounds_resize :: "win \<Rightarrow> int \<Rightarrow> int \<Rightarrow> bool \<Rightarrow> lens \<Rightarrow> lens option" where
  "setBounds_resize window width height needToUpdateSize s = do {
     win \<leftarrow> windows s window;
     if needToUpdateSize \<and> (b_width (currentBounds win) \<noteq> width \<or> b_height (currentBounds win) \<noteq> height)
     then do {
       s \<leftarrow> update_window window
              (\<lambda>x. x\<lparr>currentBounds := (currentBounds x)\<lparr>b_width := width, b_height := height\<rparr>\<rparr>) s;
       glass_application_notifyWindowEvent_resize (Some window) WindowEvent_RESIZE width height s
     }
     else Some s
   }"

definition setBounds_move :: "win \<Rightarrow> int \<Rightarrow> int \<Rightarrow> bool \<Rightarrow> lens \<Rightarrow> lens option" where
  "setBounds_move window x y needToUpdatePostion s = do {
     win \<leftarrow> windows s window;
     if needToUpdatePostion \<and> (b_x (currentBounds win) \<noteq> x \<or> b_y (currentBounds win) \<noteq> y)
     then do {
       s \<leftarrow> update_window window
              (\<lambda>w. w\<lparr>currentBounds := (currentBounds w)\<lparr>b_x := x, b_y := y\<rparr>\<rparr>) s;
       s \<leftarrow> glass_application_notifyWindowEvent_move (Some window) x y s;
       lens_wm_repaint (Some window) s
     }
     else Some s
   }"

definition glass_window_setBoundsImpl ::
    "win \<Rightarrow> int \<Rightarrow> int \<Rightarrow> int \<Rightarrow> int \<Rightarrow> bool \<Rightarrow> bool \<Rightarrow> bool \<Rightarrow> lens \<Rightarrow> lens option" where
  "glass_window_setBoundsImpl window x y width height needToUpdatePostion needToUpdateSize isContentSize s =
     (let needToUpdateSize = (if isContentSize \<and> \<not> needToUpdateSize then isContentSize else needToUpdateSize)
      in do {
        s \<leftarrow> setBounds_resize window width height needToUpdateSize s;
        setBounds_move window x y needToUpdatePostion s
      })"

definition glass_window_setMinimumSize :: "win \<Rightarrow> int \<Rightarrow> int \<Rightarrow> lens \<Rightarrow> (bool \<times> lens) option" where
  "glass_window_setMinimumSize window width height s = do {
     s \<leftarrow> update_window window (\<lambda>x. x\<lparr>minWidth := width, minHeight := height\<rparr>) s;
     win \<leftarrow> windows s window;
     let (_, w, h) = glass_window_check_bounds win (b_width (currentBounds win)) (b_height (currentBounds win))
     in do {
       s \<leftarrow> (if w \<noteq> b_width (currentBounds win) \<or> h \<noteq> b_height (currentBounds win)
              then glass_window_setBoundsImpl window 0 0 w h False True False s
              else Some s);
       Some (True, s)
     }
   }"

definition glass_window_setMaximumSize :: "win \<Rightarrow> int \<Rightarrow> int \<Rightarrow> lens \<Rightarrow> (bool \<times> lens) option" where
  "glass_window_setMaximumSize window width height s = do {
     s \<leftarrow> update_window window (\<lambda>x. x\<lparr>maxWidth := width, maxHeight := height\<rparr>) s;
     win \<leftarrow> windows s window;
     let (_, w, h) = glass_window_check_bounds win (b_width (currentBounds win)) (b_height (currentBounds win))
     in do {
       s \<leftarrow> (if w \<noteq> b_width (currentBounds win) \<or> h \<noteq> b_height (currentBounds win)
              then glass_window_setBoundsImpl window 0 0 w h False True False s
              else Some s);
       Some (True, s)
     }
   }"

definition lens_wm_windowCacheBounds :: "win \<Rightarrow> lens \<Rightarrow> lens option" where
  "lens_wm_windowCacheBounds window = update_window window (\<lambda>w. w\<lparr>cachedBounds := currentBounds w\<rparr>)"

definition lens_wm_windowUncacheBounds :: "win \<Rightarrow> lens \<Rightarrow> lens option" where
  "lens_wm_windowUncacheBounds window = update_window window (\<lambda>w. w\<lparr>currentBounds := cachedBounds w\<rparr>)"

section \<open>The window state machine\<close>

definition set_state :: "win \<Rightarrow> NativeWindowState \<Rightarrow> lens \<Rightarrow> lens option" where
  "set_state window st = update_window window (\<lambda>w. w\<lparr>win_state := st\<rparr>)"

text \<open>Leaving the minimized or the full screen state, the first part of a restore.\<close>

definition restore_undo :: "win \<Rightarrow> lens \<Rightarrow> lens option" where
  "restore_undo window s = do {
     win \<leftarrow> windows s window;
     (case win_state win of
        NWS_MINIMIZED \<Rightarrow>
          (let s = lens_platform_windowMinimize window False s
           in if isVisible win then glass_application_addWindowToVisibleWindowList window s else Some s)
      | NWS_FULLSCREEN \<Rightarrow>
          glass_application_notifyViewEvent (view win) ViewEvent_FULLSCREEN_EXIT
            (b_x (cachedBounds win)) (b_y (cachedBounds win))
            (b_width (cachedBounds win)) (b_height (cachedBounds win)) s
      | _ \<Rightarrow> Some s)
   }"

definition lens_wm_windowRestore :: "win \<Rightarrow> lens \<Rightarrow> lens option" where
  "lens_wm_windowRestore window s = do {
     win \<leftarrow> windows s window;
     if win_state win = NWS_NORMAL then Some s
     else do {
       s \<leftarrow> restore_undo window s;
       s \<leftarrow> set_state window NWS_NORMAL s;
       win \<leftarrow> windows s window;
       s \<leftarrow> glass_window_setBoundsImpl window (b_x (cachedBounds win)) (b_y (cachedBounds win))
              (b_width (cachedBounds win)) (b_height (cachedBounds win)) True True False s;
       s \<leftarrow> lens_wm_windowUncacheBounds window s;
       win \<leftarrow> windows s window;
       s \<leftarrow> glass_application_notifyWindowEvent_resize (Some window) WindowEvent_RESTORE
              (b_width (currentBounds win)) (b_height (currentBounds win)) s;
       lens_wm_setFocusedWindow (Some window) s
     }
   }"

text \<open>The part of a minimize that follows the undoing of the previous state.\<close>

definition minimize_normal :: "win \<Rightarrow> lens \<Rightarrow> lens option" where
  "minimize_normal window s = do {
     s \<leftarrow> lens_wm_windowCacheBounds window s;
     s \<leftarrow> Some (lens_platform_windowMinimize window True s);
     s \<leftarrow> set_state window NWS_MINIMIZED s;
     r \<leftarrow> lens_wm_unsetFocusedWindow window s;
     s \<leftarrow> glass_application_RemoveWindowFromVisibleWindowList window (snd r);
     win \<leftarrow> windows s window;
     glass_application_notifyWindowEvent_resize (Some window) WindowEvent_MINIMIZE
       (b_width (cachedBounds win)) (b_height (cachedBounds win)) s
   }"

definition lens_wm_windowMinimize :: "win \<Rightarrow> lens \<Rightarrow> lens option" where
  "lens_wm_windowMinimize window s = do {
     win \<leftarrow> windows s window;
     if win_state win = NWS_MINIMIZED then Some s
     else do {
       s \<leftarrow> (if win_state win = NWS_FULLSCREEN then lens_wm_windowRestore window s else Some s);
       minimize_normal window s
     }
   }"

text \<open>Where a maximized window goes and how big it gets.\<close>

definition maximized_bounds :: "NativeScreen \<Rightarrow> NativeWindow \<Rightarrow> LensBounds" where
  "maximized_bounds scr win =
     (let (ok, width, height) = glass_window_check_bounds win (scr_width scr) (scr_height scr);
          (x, y) = (if ok then (0, 0)
                    else if width > b_width (currentBounds win) \<or> height > b_height (currentBounds win)
                    then (scr_width scr - width - 1, scr_height scr - height - 1)
                    else (b_x (currentBounds win), b_y (currentBounds win)))
      in \<lparr>b_x = x, b_y = y, b_width = width, b_height = height\<rparr>)"

text \<open>The part of a maximize that follows the undoing of the previous state.\<close>

definition maximize_normal :: "win \<Rightarrow> lens \<Rightarrow> lens option" where
  "maximize_normal window s = do {
     s \<leftarrow> lens_wm_windowCacheBounds window s;
     scr \<leftarrow> glass_screen_getMainScreen s;
     win \<leftarrow> windows s window;
     b \<leftarrow> Some (maximized_bounds scr win);
     s \<leftarrow> glass_window_setBoundsImpl window (b_x b) (b_y b) (b_width b) (b_height b) True True False s;
     s \<leftarrow> set_state window NWS_MAXIMIZED s;
     s \<leftarrow> glass_application_notifyWindowEvent_resize (Some window) WindowEvent_MAXIMIZE
            (b_width b) (b_height b) s;
     lens_wm_setFocusedWindow (Some window) s
   }"

definition lens_wm_windowMaximize :: "win \<Rightarrow> lens \<Rightarrow> lens option" where
  "lens_wm_windowMaximize window s = do {
     win \<leftarrow> windows s window;
     if win_state win = NWS_MAXIMIZED then Some s
     else do {
       s \<leftarrow> (if win_state win = NWS_MINIMIZED \<or> win_state win = NWS_FULLSCREEN
              then lens_wm_windowRestore window s else Some s);
       maximize_normal window s
     }
   }"

text \<open>The part of entering full screen that follows the undoing of the previous state.\<close>

definition fullscreen_normal :: "win \<Rightarrow> lens \<Rightarrow> lens option" where
  "fullscreen_normal window s = do {
     scr \<leftarrow> glass_screen_getMainScreen s;
     s \<leftarrow> lens_wm_windowCacheBounds window s;
     s \<leftarrow> glass_window_setBoundsImpl window 0 0 (scr_width scr) (scr_height scr) True True False s;
     win \<leftarrow> windows s window;
     s \<leftarrow> glass_application_notifyViewEvent (view win) ViewEvent_FULLSCREEN_ENTER
            (b_x (currentBounds win)) (b_y (currentBounds win))
            (b_width (currentBounds win)) (b_height (currentBounds win)) s;
     s \<leftarrow> lens_wm_setFocusedWindow (Some window) s;
     set_state window NWS_FULLSCREEN s
   }"

definition lens_wm_windowEnterFullscreen :: "win \<Rightarrow> lens \<Rightarrow> lens option" where
  "lens_wm_windowEnterFullscreen window s = do {
     win \<leftarrow> windows s window;
     if win_state win = NWS_FULLSCREEN then Some s
     else do {
       s \<leftarrow> (if win_state win = NWS_MINIMIZED then lens_wm_windowRestore window s else Some s);
       fullscreen_normal window s
     }
   }"

definition glass_window_minimize :: "win \<Rightarrow> bool \<Rightarrow> lens \<Rightarrow> (bool \<times> lens) option" where
  "glass_window_minimize window toMinimize s = do {
     s \<leftarrow> (if toMinimize then lens_wm_windowMinimize window s else lens_wm_windowRestore window s);
     Some (True, s)
   }"

definition glass_window_maximize :: "win \<Rightarrow> bool \<Rightarrow> bool \<Rightarrow> lens \<Rightarrow> (bool \<times> lens) option" where
  "glass_window_maximize window toMaximize isMaximized s =
     (if toMaximize \<and> \<not> isMaximized then do { s \<leftarrow> lens_wm_windowMaximize window s; Some (True, s) }
      else if \<not> toMaximize \<and> isMaximized then do { s \<leftarrow> lens_wm_windowRestore window s; Some (True, s) }
      else Some (False, s))"

definition glass_view_enterFullscreen :: "viewp \<Rightarrow> lens \<Rightarrow> (bool \<times> lens) option" where
  "glass_view_enterFullscreen v s = do {
     nv \<leftarrow> views s v;
     case parent nv of
       None \<Rightarrow> Some (False, s)
     | Some window \<Rightarrow> do { s \<leftarrow> lens_wm_windowEnterFullscreen window s; Some (True, s) }
   }"

definition glass_view_exitFullscreen :: "viewp \<Rightarrow> lens \<Rightarrow> (bool \<times> lens) option" where
  "glass_view_exitFullscreen v s = do {
     nv \<leftarrow> views s v;
     case parent nv of
       None \<Rightarrow> Some (False, s)
     | Some window \<Rightarrow> do { s \<leftarrow> lens_wm_windowRestore window s; Some (True, s) }
   }"

section \<open>Visibility, Z order, opacity, views\<close>

definition glass_window_setVisible :: "win \<Rightarrow> bool \<Rightarrow> lens \<Rightarrow> (bool \<times> lens) option" where
  "glass_window_setVisible window visible s = do {
     s \<leftarrow> Some (lens_platform_windowSetVisible window visible s);
     s \<leftarrow> update_window window (\<lambda>w. w\<lparr>isVisible := visible\<rparr>) s;
     s \<leftarrow> (if \<not> visible then do { r \<leftarrow> lens_wm_unsetFocusedWindow window s; Some (snd r) }
            else do {
              win \<leftarrow> windows s window;
              if isFocusable win \<and> isEnabled win then lens_wm_setFocusedWindow (Some window) s
              else Some s
            });
     Some (True, s)
   }"

definition glass_window_toFront :: "win \<Rightarrow> lens \<Rightarrow> lens option" where
  "glass_window_toFront window s = do {
     r \<leftarrow> glass_window_list_toFront window s;
     if fst r then lens_wm_repaint (Some window) (snd r) else Some (snd r)
   }"

definition glass_window_toBack :: "win \<Rightarrow> lens \<Rightarrow> lens option" where
  "glass_window_toBack window s = do {
     r \<leftarrow> glass_window_list_toBack window s;
     if fst r then lens_wm_repaint (Some window) (snd r) else Some (snd r)
   }"

definition glass_window_setAlpha :: "win \<Rightarrow> rat \<Rightarrow> lens \<Rightarrow> (bool \<times> lens) option" where
  "glass_window_setAlpha window a s = do {
     s \<leftarrow> update_window window (\<lambda>w. w\<lparr>alpha := a\<rparr>) s;
     s \<leftarrow> lens_wm_repaint (Some window) s;
     Some (True, s)
   }"

text \<open>Not implemented: both report success.\<close>

definition glass_window_setLevel :: "win \<Rightarrow> int \<Rightarrow> bool" where
  "glass_window_setLevel window level = True"

definition glass_window_setBackground :: "win \<Rightarrow> rat \<Rightarrow> rat \<Rightarrow> rat \<Rightarrow> bool" where
  "glass_window_setBackground window r g b = True"

definition glass_view_setParent :: "win option \<Rightarrow> viewp \<Rightarrow> lens \<Rightarrow> lens option" where
  "glass_view_setParent p v s = do {
     nv \<leftarrow> views s v;
     s \<leftarrow> (case parent nv of
             None \<Rightarrow> Some s
           | Some old \<Rightarrow> do {
               oldw \<leftarrow> windows s old;
               if view oldw \<noteq> None then do {
                 s \<leftarrow> glass_application_notifyViewEvent (view oldw) ViewEvent_REMOVE 0 0 0 0 s;
                 update_view v (\<lambda>x. x\<lparr>parent := None\<rparr>) s
               }
               else Some s
             });
     s \<leftarrow> update_view v (\<lambda>x. x\<lparr>parent := p\<rparr>) s;
     (case p of
        None \<Rightarrow> Some s
      | Some new \<Rightarrow> do {
          neww \<leftarrow> windows s new;
          if view neww \<noteq> None
          then glass_application_notifyViewEvent (view neww) ViewEvent_ADD 0 0 0 0 s
          else Some s
        })
   }"

section \<open>The windows after an operation\<close>

text \<open>\<open>wm_at\<close> is the invariant together with the exact contents of all windows.\<close>

definition wm_at :: "bool \<times> bool \<Rightarrow> win set \<Rightarrow> viewp set \<Rightarrow> win list \<Rightarrow> bool \<Rightarrow> bool \<Rightarrow> win option \<Rightarrow>
    (win \<rightharpoonup> NativeWindow) \<Rightarrow> lens \<Rightarrow> bool" where
  "wm_at lv D V xs l r fc W s \<longleftrightarrow> wm_ok lv D V xs l r s \<and> focusedWindow s = fc \<and> windows s = W"

lemma wm_at_ok: "wm_at lv D V xs l r fc W s \<Longrightarrow> wm_ok lv D V xs l r s"
  by (simp add: wm_at_def)

lemma wm_at_self: "wm_ok lv D V xs l r s \<Longrightarrow> wm_at lv D V xs l r (focusedWindow s) (windows s) s"
  by (simp add: wm_at_def)

lemma wm_at_D: "wm_at lv D V xs l r fc W s \<Longrightarrow> W w = Some x \<Longrightarrow> w \<in> D"
  by (auto simp: wm_at_def wm_ok_def)

lemma wm_at_view: "wm_at lv D V xs l r fc W s \<Longrightarrow> W w = Some x \<Longrightarrow> ptr_ok V (view x)"
  by (auto simp: wm_at_def wm_ok_def)

lemma at_frame:
  assumes "wm_at lv D V xs l r fc W s" "returns m (wm_ok lv D V xs l r)" "\<And>s'. m = Some s' \<Longrightarrow> core s' = core s"
  shows "returns m (wm_at lv D V xs l r fc W)"
proof -
  obtain s' where "m = Some s'" "wm_ok lv D V xs l r s'" using assms(2) by (auto simp: returns_iff)
  with assms(1,3) core_fields [of s' s] show ?thesis by (simp add: wm_at_def)
qed

lemma at_window [at_rules]:
  "wm_at lv D V xs l r fc W s \<Longrightarrow> W w = Some x \<Longrightarrow> returns (windows s w) (\<lambda>y. y = x)"
  by (simp add: wm_at_def)

lemma at_notify [at_rules]:
  assumes "wm_at lv D V xs l r fc W s"
  shows "ptr_ok D p \<Longrightarrow> returns (glass_application_notifyWindowEvent p e s) (wm_at lv D V xs l r fc W)"
    "ptr_ok D p \<Longrightarrow> returns (glass_application_notifyWindowEvent_resize p e w h s) (wm_at lv D V xs l r fc W)"
    "ptr_ok D p \<Longrightarrow> returns (glass_application_notifyWindowEvent_move p x y s) (wm_at lv D V xs l r fc W)"
    "ptr_ok V q \<Longrightarrow> returns (glass_application_notifyViewEvent q e x y w h s) (wm_at lv D V xs l r fc W)"
  by (rule at_frame [OF assms]; auto intro!: ok_rules wm_at_ok [OF assms] dest: core_notify)+

lemma at_visible [at_rules]:
  assumes "wm_at lv D V xs l r fc W s" "W w = Some x"
  shows "returns (glass_application_addWindowToVisibleWindowList w s) (wm_at lv D V xs l r fc W)"
    "returns (glass_application_RemoveWindowFromVisibleWindowList w s) (wm_at lv D V xs l r fc W)"
  using assms by (auto simp: wm_at_def glass_application_addWindowToVisibleWindowList_def
      glass_application_RemoveWindowFromVisibleWindowList_def)

lemma at_repaint [at_rules]:
  assumes "wm_at lv D V xs l False fc W s" "ptr_ok D p"
  shows "returns (lens_wm_repaint p s) (wm_at lv D V xs l False fc W)"
  by (rule at_frame [OF assms(1)])
     (auto intro!: ok_rules wm_at_ok [OF assms(1)] assms(2) dest: core_repaint)

lemma at_focus [at_rules]:
  assumes "wm_at lv D V xs l r fc W s" "ptr_ok D p"
  shows "returns (lens_wm_setFocusedWindow p s) (wm_at lv D V xs l r p W)"
  by (rule returns_conseq [OF setFocusedWindow_returns [OF wm_at_ok [OF assms(1)] assms(2)]])
     (use assms(1) in \<open>auto simp: wm_at_def dest: but_focus_windows\<close>)

definition focus_after_unset :: "win \<Rightarrow> win option \<Rightarrow> (win \<rightharpoonup> NativeWindow) \<Rightarrow> win list \<Rightarrow> win option" where
  "focus_after_unset w fc W xs = (if fc = Some w then topmost focus_candidate W xs else fc)"

lemma at_unset [at_rules]:
  assumes "wm_at lv D V xs False r fc W s"
  shows "returns (lens_wm_unsetFocusedWindow w s)
     (\<lambda>(p, s'). wm_at lv D V xs False r (focus_after_unset w fc W xs) W s')"
proof (cases "fc = Some w")
  case True
  then have f: "focusedWindow s = Some w" using assms by (simp add: wm_at_def)
  show ?thesis
    by (rule returns_conseq [OF unsetFocusedWindow_returns [OF wm_at_ok [OF assms] f]])
       (use assms True in \<open>auto simp: wm_at_def focus_after_unset_def dest: but_focus_windows\<close>)
next
  case False
  then show ?thesis
    using assms by (auto simp: lens_wm_unsetFocusedWindow_def glass_window_getFocusedWindow_def wm_at_def
        focus_after_unset_def)
qed

lemma at_update [at_rules]:
  assumes s: "wm_at lv D V xs l r fc W s" and x: "W w = Some x" and v: "ptr_ok V (view (f x))"
    and links: "previousWindow (f x) = previousWindow x" "nextWindow (f x) = nextWindow x"
  shows "returns (update_window w f s) (wm_at lv D V xs l r fc (W(w \<mapsto> f x)))"
proof -
  have W: "windows s = W" "windows s w = Some x" using s x by (auto simp: wm_at_def)
  have "zorder (s\<lparr>windows := (windows s)(w \<mapsto> f x)\<rparr>) ys = zorder s ys" for ys
    using zorder_update [OF W(2), of "f x"] links by simp
  then have "wm_ok lv D V xs l r (s\<lparr>windows := (windows s)(w \<mapsto> f x)\<rparr>)"
    using s W v by (auto simp: wm_at_def wm_ok_def screen_ok_def)
  then show ?thesis using W s by (simp add: wm_at_def update_window_def)
qed

lemma at_platform:
  "wm_at lv D V xs l r fc W s \<Longrightarrow> wm_at lv D V xs l r fc W (lens_platform_windowMinimize w b s)"
  by (simp add: lens_platform_windowMinimize_def)

text \<open>The bounds a window has after \<open>glass_window_setBoundsImpl\<close>.\<close>

definition new_bounds :: "int \<Rightarrow> int \<Rightarrow> int \<Rightarrow> int \<Rightarrow> bool \<Rightarrow> bool \<Rightarrow> LensBounds \<Rightarrow> LensBounds" where
  "new_bounds x y w h pos sz b =
     \<lparr>b_x = if pos then x else b_x b, b_y = if pos then y else b_y b,
      b_width = if sz then w else b_width b, b_height = if sz then h else b_height b\<rparr>"

lemma at_resize [at_rules]:
  assumes s: "wm_at lv D V xs l False fc W s" and a: "W w = Some a"
  shows "returns (setBounds_resize w wd ht sz s)
     (wm_at lv D V xs l False fc (W(w \<mapsto> a\<lparr>currentBounds := new_bounds 0 0 wd ht False sz (currentBounds a)\<rparr>)))"
proof (cases "sz \<and> (b_width (currentBounds a) \<noteq> wd \<or> b_height (currentBounds a) \<noteq> ht)")
  case True
  have eq: "(currentBounds a)\<lparr>b_width := wd, b_height := ht\<rparr> = new_bounds 0 0 wd ht False sz (currentBounds a)"
    using True by (simp add: new_bounds_def)
  show ?thesis
    unfolding setBounds_resize_def
    using True s a wm_at_D [OF s a] wm_at_view [OF s a]
    by (auto intro!: at_rules [THEN returns_bindI] at_rules simp: eq)
next
  case False
  then have "a\<lparr>currentBounds := new_bounds 0 0 wd ht False sz (currentBounds a)\<rparr> = a"
    by (auto simp: new_bounds_def)
  then show ?thesis using False s a by (auto simp: setBounds_resize_def wm_at_def fun_upd_idem)
qed

lemma at_move [at_rules]:
  assumes s: "wm_at lv D V xs l False fc W s" and a: "W w = Some a"
  shows "returns (setBounds_move w x y pos s)
     (wm_at lv D V xs l False fc (W(w \<mapsto> a\<lparr>currentBounds := new_bounds x y 0 0 pos False (currentBounds a)\<rparr>)))"
proof (cases "pos \<and> (b_x (currentBounds a) \<noteq> x \<or> b_y (currentBounds a) \<noteq> y)")
  case True
  have eq: "(currentBounds a)\<lparr>b_x := x, b_y := y\<rparr> = new_bounds x y 0 0 pos False (currentBounds a)"
    using True by (simp add: new_bounds_def)
  show ?thesis
    unfolding setBounds_move_def
    using True s a wm_at_D [OF s a] wm_at_view [OF s a]
    by (auto intro!: at_rules [THEN returns_bindI] at_rules simp: eq)
next
  case False
  then have "a\<lparr>currentBounds := new_bounds x y 0 0 pos False (currentBounds a)\<rparr> = a"
    by (auto simp: new_bounds_def)
  then show ?thesis using False s a by (auto simp: setBounds_move_def wm_at_def fun_upd_idem)
qed

lemma new_bounds_simps [simp]:
  "new_bounds x y 0 0 pos False (new_bounds 0 0 w h False sz b) = new_bounds x y w h pos sz b"
  "new_bounds x y w h True True b = \<lparr>b_x = x, b_y = y, b_width = w, b_height = h\<rparr>"
  "new_bounds 0 0 (b_width b) (b_height b) False True b = b"
  by (simp_all add: new_bounds_def)

lemma at_setBounds [at_rules]:
  assumes s: "wm_at lv D V xs l False fc W s" and a: "W w = Some a"
  shows "returns (glass_window_setBoundsImpl w x y wd ht pos sz cont s)
     (wm_at lv D V xs l False fc (W(w \<mapsto> a\<lparr>currentBounds := new_bounds x y wd ht pos (sz \<or> cont) (currentBounds a)\<rparr>)))"
proof -
  have eq: "(if cont \<and> \<not> sz then cont else sz) = (sz \<or> cont)" by auto
  show ?thesis
    unfolding glass_window_setBoundsImpl_def eq Let_def
  proof (rule returns_bindI [OF at_resize [OF s a]])
    let ?a = "a\<lparr>currentBounds := new_bounds 0 0 wd ht False (sz \<or> cont) (currentBounds a)\<rparr>"
    fix s1 assume "wm_at lv D V xs l False fc (W(w \<mapsto> ?a)) s1"
    from at_move [OF this, of w ?a x y pos]
    show "returns (setBounds_move w x y pos s1) (wm_at lv D V xs l False fc
        (W(w \<mapsto> a\<lparr>currentBounds := new_bounds x y wd ht pos (sz \<or> cont) (currentBounds a)\<rparr>)))"
      by simp
  qed
qed

section \<open>The window state machine, on the windows\<close>

definition restored :: "NativeWindow \<Rightarrow> NativeWindow" where
  "restored a = a\<lparr>win_state := NWS_NORMAL, currentBounds := cachedBounds a\<rparr>"

definition minimized :: "NativeWindow \<Rightarrow> NativeWindow" where
  "minimized a = a\<lparr>cachedBounds := currentBounds a, win_state := NWS_MINIMIZED\<rparr>"

definition maximized :: "NativeScreen \<Rightarrow> NativeWindow \<Rightarrow> NativeWindow" where
  "maximized scr a = a\<lparr>cachedBounds := currentBounds a, currentBounds := maximized_bounds scr a, win_state := NWS_MAXIMIZED\<rparr>"

definition fullscreened :: "NativeScreen \<Rightarrow> NativeWindow \<Rightarrow> NativeWindow" where
  "fullscreened scr a = a\<lparr>cachedBounds := currentBounds a,
     currentBounds := \<lparr>b_x = 0, b_y = 0, b_width = scr_width scr, b_height = scr_height scr\<rparr>,
     win_state := NWS_FULLSCREEN\<rparr>"

lemma at_undo [at_rules]:
  assumes s: "wm_at lv D V xs l r fc W s" and a: "W w = Some a"
  shows "returns (restore_undo w s) (wm_at lv D V xs l r fc W)"
  unfolding restore_undo_def lens_platform_windowMinimize_def
  using s a wm_at_D [OF s a] wm_at_view [OF s a]
  by (auto intro!: at_rules [THEN returns_bindI] at_rules split: NativeWindowState.split simp: Let_def)

lemma at_state [at_rules]:
  "wm_at lv D V xs l r fc W s \<Longrightarrow> W w = Some a \<Longrightarrow>
     returns (set_state w st s) (wm_at lv D V xs l r fc (W(w \<mapsto> a\<lparr>win_state := st\<rparr>)))"
  "wm_at lv D V xs l r fc W s \<Longrightarrow> W w = Some a \<Longrightarrow>
     returns (lens_wm_windowCacheBounds w s) (wm_at lv D V xs l r fc (W(w \<mapsto> a\<lparr>cachedBounds := currentBounds a\<rparr>)))"
  "wm_at lv D V xs l r fc W s \<Longrightarrow> W w = Some a \<Longrightarrow>
     returns (lens_wm_windowUncacheBounds w s) (wm_at lv D V xs l r fc (W(w \<mapsto> a\<lparr>currentBounds := cachedBounds a\<rparr>)))"
  unfolding set_state_def lens_wm_windowCacheBounds_def lens_wm_windowUncacheBounds_def
  by (auto intro!: at_update wm_at_view [where x = a])

lemma bounds_eta [simp]: "\<lparr>b_x = b_x b, b_y = b_y b, b_width = b_width b, b_height = b_height b\<rparr> = b"
  by simp

lemma restore_normal:
  "windows s w = Some a \<Longrightarrow> win_state a = NWS_NORMAL \<Longrightarrow> lens_wm_windowRestore w s = Some s"
  by (simp add: lens_wm_windowRestore_def)

lemma at_restore [at_rules]:
  assumes s: "wm_at lv D V xs l False fc W s" and a: "W w = Some a" and n: "win_state a \<noteq> NWS_NORMAL"
  shows "returns (lens_wm_windowRestore w s) (wm_at lv D V xs l False (Some w) (W(w \<mapsto> restored a)))"
proof -
  have D: "w \<in> D" by (rule wm_at_D [OF s a])
  show ?thesis
    unfolding lens_wm_windowRestore_def
    using s a n D by (auto intro!: at_rules [THEN returns_bindI] at_rules simp: restored_def)
qed

text \<open>Undoing a full screen or minimized state first, as the other three transitions do.\<close>

definition undone :: "NativeWindowState set \<Rightarrow> NativeWindow \<Rightarrow> NativeWindow" where
  "undone S a = (if win_state a \<in> S then restored a else a)"

text \<open>The part of a minimize that follows the undoing of the previous state.\<close>

lemma at_minimize_normal [at_rules]:
  assumes s: "wm_at lv D V xs False r fc W s" and a: "W w = Some a"
  shows "returns (minimize_normal w s) (wm_at lv D V xs False r
     (focus_after_unset w fc (W(w \<mapsto> minimized a)) xs) (W(w \<mapsto> minimized a)))"
proof -
  have D: "ptr_ok D (Some w)" using wm_at_D [OF s a] by simp
  show ?thesis
    unfolding minimize_normal_def lens_platform_windowMinimize_def bind.bind_lunit
    apply (rule returns_bindI [OF at_state(2) [OF s a]])
    apply (rule returns_bindI [OF at_state(1)], assumption, simp)
    apply (rule returns_bindI [OF at_unset], assumption, clarsimp)
    apply (rule returns_bindI [OF at_visible(2)], assumption, simp)
    apply (rule returns_bindI [OF at_window], assumption, simp)
    apply (rule returns_conseq [OF at_notify(2) [OF _ D]], assumption)
    apply (simp add: minimized_def)
    done
qed

lemma at_minimize:
  assumes s: "wm_at lv D V xs False False fc W s" and a: "W w = Some a" and n: "win_state a \<noteq> NWS_MINIMIZED"
  shows "returns (lens_wm_windowMinimize w s)
     (let a' = minimized (undone {NWS_FULLSCREEN} a);
          fc' = (if win_state a = NWS_FULLSCREEN then Some w else fc)
      in wm_at lv D V xs False False (focus_after_unset w fc' (W(w \<mapsto> a')) xs) (W(w \<mapsto> a')))"
proof (cases "win_state a = NWS_FULLSCREEN")
  case True
  then have r: "win_state a \<noteq> NWS_NORMAL" by simp
  have "returns (lens_wm_windowRestore w s \<bind> minimize_normal w)
     (wm_at lv D V xs False False (focus_after_unset w (Some w) (W(w \<mapsto> minimized (restored a))) xs)
        (W(w \<mapsto> minimized (restored a))))"
    by (rule returns_bindI [OF at_restore [OF s a r]])
       (use at_minimize_normal [of lv D V xs False _ "W(w \<mapsto> restored a)" _ w "restored a"] in simp)
  then show ?thesis using True s a by (simp add: lens_wm_windowMinimize_def wm_at_def undone_def Let_def)
next
  case False
  then show ?thesis
    using at_minimize_normal [OF s a] n s a by (simp add: lens_wm_windowMinimize_def undone_def wm_at_def Let_def)
qed

text \<open>The headless screen: its geometry is fixed, only its pixels change.\<close>

definition headless :: NativeScreen where
  "headless = lens_screen_initialize None"

lemma headless_simps [simp]: "scr_width headless = 600" "scr_height headless = 800"
  by (simp_all add: headless_def)

lemma maximized_bounds_headless [simp]:
  "maximized_bounds (lens_screen_initialize d) = maximized_bounds headless"
  by (rule ext) (simp add: maximized_bounds_def cong: if_cong)

lemma at_screen [at_rules]:
  "wm_at lv D V xs l r fc W s \<Longrightarrow> returns (glass_screen_getMainScreen s) (\<lambda>scr. \<exists>d. scr = lens_screen_initialize d)"
  by (auto simp: wm_at_def wm_ok_def screen_ok_def glass_screen_getMainScreen_def)

lemma at_maximize_normal [at_rules]:
  assumes s: "wm_at lv D V xs l False fc W s" and a: "W w = Some a"
  shows "returns (maximize_normal w s) (wm_at lv D V xs l False (Some w) (W(w \<mapsto> maximized headless a)))"
proof -
  have D: "ptr_ok D (Some w)" using wm_at_D [OF s a] by simp
  let ?a = "a\<lparr>cachedBounds := currentBounds a\<rparr>"
  have "glass_window_check_bounds ?a = glass_window_check_bounds a"
    by (simp add: glass_window_check_bounds_def [abs_def] cong: if_cong)
  then have mb: "maximized_bounds headless ?a = maximized_bounds headless a"
    by (simp add: maximized_bounds_def cong: if_cong)
  show ?thesis
    unfolding maximize_normal_def
    apply (rule returns_bindI [OF at_state(2) [OF s a]])
    apply (rule returns_bindI [OF at_screen], assumption)
    apply (rule returns_bindI [OF at_window], assumption, simp)
    apply (clarsimp simp: mb)
    apply (rule returns_bindI [OF at_setBounds], assumption, simp)
    apply (rule returns_bindI [OF at_state(1)], assumption, simp)
    apply (rule returns_bindI [OF at_notify(2)], assumption, rule D)
    apply (rule returns_conseq [OF at_focus [OF _ D]], assumption)
    apply (simp add: maximized_def)
    done
qed

lemma at_fullscreen_normal [at_rules]:
  assumes s: "wm_at lv D V xs l False fc W s" and a: "W w = Some a"
  shows "returns (fullscreen_normal w s) (wm_at lv D V xs l False (Some w) (W(w \<mapsto> fullscreened headless a)))"
proof -
  have D: "ptr_ok D (Some w)" and v: "ptr_ok V (view a)" using wm_at_D [OF s a] wm_at_view [OF s a] by auto
  show ?thesis
    unfolding fullscreen_normal_def
    apply (rule returns_bindI [OF at_screen [OF s]])
    apply (rule returns_bindI [OF at_state(2) [OF s a]])
    apply (rule returns_bindI [OF at_setBounds], assumption, simp)
    apply (rule returns_bindI [OF at_window], assumption, simp)
    apply (rule returns_bindI [OF at_notify(4)], assumption, simp add: v)
    apply (rule returns_bindI [OF at_focus [OF _ D]], assumption)
    apply (rule returns_conseq [OF at_state(1)], assumption, simp)
    apply (clarsimp simp: fullscreened_def)
    done
qed

lemma at_maximize:
  assumes s: "wm_at lv D V xs l False fc W s" and a: "W w = Some a" and n: "win_state a \<noteq> NWS_MAXIMIZED"
  shows "returns (lens_wm_windowMaximize w s) (wm_at lv D V xs l False (Some w)
     (W(w \<mapsto> maximized headless (undone {NWS_MINIMIZED, NWS_FULLSCREEN} a))))"
proof (cases "win_state a \<in> {NWS_MINIMIZED, NWS_FULLSCREEN}")
  case True
  then have r: "win_state a \<noteq> NWS_NORMAL" and u: "undone {NWS_MINIMIZED, NWS_FULLSCREEN} a = restored a"
    by (auto simp: undone_def)
  have "returns (lens_wm_windowRestore w s \<bind> maximize_normal w) (wm_at lv D V xs l False (Some w)
     (W(w \<mapsto> maximized headless (restored a))))"
    by (rule returns_bindI [OF at_restore [OF s a r]])
       (use at_maximize_normal [of lv D V xs l _ "W(w \<mapsto> restored a)" _ w "restored a"] in simp)
  then show ?thesis using True n s a u by (auto simp: lens_wm_windowMaximize_def wm_at_def)
next
  case False
  then show ?thesis
    using at_maximize_normal [OF s a] n s a by (auto simp: lens_wm_windowMaximize_def undone_def wm_at_def)
qed

lemma at_fullscreen:
  assumes s: "wm_at lv D V xs l False fc W s" and a: "W w = Some a" and n: "win_state a \<noteq> NWS_FULLSCREEN"
  shows "returns (lens_wm_windowEnterFullscreen w s)
     (wm_at lv D V xs l False (Some w) (W(w \<mapsto> fullscreened headless (undone {NWS_MINIMIZED} a))))"
proof (cases "win_state a = NWS_MINIMIZED")
  case True
  then have r: "win_state a \<noteq> NWS_NORMAL" by simp
  have "returns (lens_wm_windowRestore w s \<bind> fullscreen_normal w)
     (wm_at lv D V xs l False (Some w) (W(w \<mapsto> fullscreened headless (restored a))))"
    by (rule returns_bindI [OF at_restore [OF s a r]])
       (use at_fullscreen_normal [of lv D V xs l _ "W(w \<mapsto> restored a)" _ w "restored a"] in simp)
  then show ?thesis using True s a by (auto simp: lens_wm_windowEnterFullscreen_def wm_at_def undone_def)
next
  case False
  then show ?thesis
    using at_fullscreen_normal [OF s a] n s a by (auto simp: lens_wm_windowEnterFullscreen_def undone_def wm_at_def)
qed

lemma check_bounds_clamped:
  assumes "glass_window_check_bounds win w h = (ok, w', h')"
  shows "ok \<longleftrightarrow> w' = w \<and> h' = h"
    "minWidth win \<le> 0 \<or> maxWidth win \<le> 0 \<or> minWidth win \<le> maxWidth win \<Longrightarrow>
       (minWidth win > 0 \<longrightarrow> minWidth win \<le> w') \<and> (maxWidth win > 0 \<longrightarrow> w' \<le> maxWidth win)"
    "minHeight win \<le> 0 \<or> maxHeight win \<le> 0 \<or> minHeight win \<le> maxHeight win \<Longrightarrow>
       (minHeight win > 0 \<longrightarrow> minHeight win \<le> h') \<and> (maxHeight win > 0 \<longrightarrow> h' \<le> maxHeight win)"
  using assms by (auto simp: glass_window_check_bounds_def split: if_splits)

lemma at_minSize [at_rules]:
  assumes s: "wm_at lv D V xs l False fc W s" and a: "W w = Some a"
  shows "returns (glass_window_setMinimumSize w wd ht s) (\<lambda>(b, s'). b \<and> wm_at lv D V xs l False fc
     (W(w \<mapsto> (let a = a\<lparr>minWidth := wd, minHeight := ht\<rparr>; b = currentBounds a;
                (_, w', h') = glass_window_check_bounds a (b_width b) (b_height b)
            in a\<lparr>currentBounds := b\<lparr>b_width := w', b_height := h'\<rparr>\<rparr>))) s')"
proof -
  let ?a = "a\<lparr>minWidth := wd, minHeight := ht\<rparr>"
  let ?b = "currentBounds a"
  obtain ok w' h' where cb: "glass_window_check_bounds ?a (b_width ?b) (b_height ?b) = (ok, w', h')"
    using prod_cases3 by blast
  have nb: "new_bounds 0 0 w' h' False True ?b = ?b\<lparr>b_width := w', b_height := h'\<rparr>"
    by (simp add: new_bounds_def)
  have v: "ptr_ok V (view a)" by (rule wm_at_view [OF s a])
  have id: "?b\<lparr>b_width := b_width ?b, b_height := b_height ?b\<rparr> = ?b" by simp
  show ?thesis
    unfolding glass_window_setMinimumSize_def
  proof (rule returns_bindI [OF at_update [OF s a]])
    fix s1 assume s1: "wm_at lv D V xs l False fc (W(w \<mapsto> ?a)) s1"
    then have a1: "windows s1 w = Some ?a" by (simp add: wm_at_def)
    show "returns (windows s1 w \<bind> (\<lambda>win. let (_, w', h') = glass_window_check_bounds win
        (b_width (currentBounds win)) (b_height (currentBounds win)) in
        (if w' \<noteq> b_width (currentBounds win) \<or> h' \<noteq> b_height (currentBounds win)
         then glass_window_setBoundsImpl w 0 0 w' h' False True False s1 else Some s1) \<bind> (\<lambda>s. Some (True, s))))
      (\<lambda>(b, s'). b \<and> wm_at lv D V xs l False fc (W(w \<mapsto> (let a = ?a; b = currentBounds a;
          (_, w', h') = glass_window_check_bounds a (b_width b) (b_height b)
          in a\<lparr>currentBounds := b\<lparr>b_width := w', b_height := h'\<rparr>\<rparr>))) s')"
      using at_setBounds [OF s1, of w ?a 0 0 w' h' False True False] s1 cb nb id
      by (auto simp: a1 Let_def returns_iff)
  qed (use v in simp_all)
qed

section \<open>The operations keep the invariant\<close>

lemma wm_ok_at:
  assumes "wm_ok lv D V xs l r s" "w \<in> D"
  obtains a where "wm_at lv D V xs l r (focusedWindow s) (windows s) s" "windows s w = Some a"
  using assms by (auto simp: wm_at_def wm_ok_def)

lemma returns_at_ok: "returns m (wm_at lv D V xs l r fc W) \<Longrightarrow> returns m (wm_ok lv D V xs l r)"
  by (erule returns_conseq) (simp add: wm_at_def)

lemma setBounds_ok [ok_rules]:
  "wm_ok lv D V xs l False s \<Longrightarrow> w \<in> D \<Longrightarrow>
     returns (glass_window_setBoundsImpl w x y wd ht p sz c s) (wm_ok lv D V xs l False)"
  by (erule (1) wm_ok_at, rule returns_at_ok, rule at_setBounds)

lemma restore_ok [ok_rules]:
  "wm_ok lv D V xs l False s \<Longrightarrow> w \<in> D \<Longrightarrow> returns (lens_wm_windowRestore w s) (wm_ok lv D V xs l False)"
  by (erule (1) wm_ok_at) (metis (no_types) at_restore restore_normal returns_at_ok returns_Some wm_at_ok)

lemma minimize_ok [ok_rules]:
  assumes "wm_ok lv D V xs False False s" "w \<in> D"
  shows "returns (lens_wm_windowMinimize w s) (wm_ok lv D V xs False False)"
proof -
  obtain a where s: "wm_at lv D V xs False False (focusedWindow s) (windows s) s" and a: "windows s w = Some a"
    using assms by (rule wm_ok_at)
  then show ?thesis
    using assms at_minimize [OF s a]
    by (cases "win_state a = NWS_MINIMIZED") (auto simp: lens_wm_windowMinimize_def Let_def intro: returns_at_ok)
qed

lemma maximize_ok [ok_rules]:
  assumes "wm_ok lv D V xs l False s" "w \<in> D"
  shows "returns (lens_wm_windowMaximize w s) (wm_ok lv D V xs l False)"
proof -
  obtain a where s: "wm_at lv D V xs l False (focusedWindow s) (windows s) s" and a: "windows s w = Some a"
    using assms by (rule wm_ok_at)
  then show ?thesis
    using assms at_maximize [OF s a]
    by (cases "win_state a = NWS_MAXIMIZED") (auto simp: lens_wm_windowMaximize_def intro: returns_at_ok)
qed

lemma fullscreen_ok [ok_rules]:
  assumes "wm_ok lv D V xs l False s" "w \<in> D"
  shows "returns (lens_wm_windowEnterFullscreen w s) (wm_ok lv D V xs l False)"
proof -
  obtain a where s: "wm_at lv D V xs l False (focusedWindow s) (windows s) s" and a: "windows s w = Some a"
    using assms by (rule wm_ok_at)
  then show ?thesis
    using assms at_fullscreen [OF s a]
    by (cases "win_state a = NWS_FULLSCREEN") (auto simp: lens_wm_windowEnterFullscreen_def intro: returns_at_ok)
qed

lemma setSize_ok [ok_rules]:
  "wm_ok lv D V xs l False s \<Longrightarrow> w \<in> D \<Longrightarrow>
     returns (glass_window_setMinimumSize w wd ht s) (\<lambda>(b, s'). wm_ok lv D V xs l False s')"
  "wm_ok lv D V xs l False s \<Longrightarrow> w \<in> D \<Longrightarrow>
     returns (glass_window_setMaximumSize w wd ht s) (\<lambda>(b, s'). wm_ok lv D V xs l False s')"
  unfolding glass_window_setMinimumSize_def glass_window_setMaximumSize_def
  by (auto intro!: update_window_ok [THEN returns_bindI] ok_rules ok_rules [THEN returns_bindI] split: prod.split)

lemma minimize_maximize_ok [ok_rules]:
  "wm_ok lv D V xs False False s \<Longrightarrow> w \<in> D \<Longrightarrow>
     returns (glass_window_minimize w b s) (\<lambda>(b, s'). wm_ok lv D V xs False False s')"
  "wm_ok lv D V xs False False s \<Longrightarrow> w \<in> D \<Longrightarrow>
     returns (glass_window_maximize w b c s) (\<lambda>(b, s'). wm_ok lv D V xs False False s')"
  unfolding glass_window_minimize_def glass_window_maximize_def
  by (auto intro!: ok_rules [THEN returns_bindI])

lemma view_fullscreen_ok [ok_rules]:
  "wm_ok lv D V xs False False s \<Longrightarrow> v \<in> V \<Longrightarrow> (\<And>nv. views s v = Some nv \<Longrightarrow> ptr_ok D (parent nv)) \<Longrightarrow>
     returns (glass_view_enterFullscreen v s) (\<lambda>(b, s'). wm_ok lv D V xs False False s')"
  "wm_ok lv D V xs False False s \<Longrightarrow> v \<in> V \<Longrightarrow> (\<And>nv. views s v = Some nv \<Longrightarrow> ptr_ok D (parent nv)) \<Longrightarrow>
     returns (glass_view_exitFullscreen v s) (\<lambda>(b, s'). wm_ok lv D V xs False False s')"
  unfolding glass_view_enterFullscreen_def glass_view_exitFullscreen_def
  by (auto intro!: ok_rules [THEN returns_bindI] split: option.split)

lemma setVisible_ok [ok_rules]:
  "wm_ok lv D V xs False r s \<Longrightarrow> w \<in> D \<Longrightarrow>
     returns (glass_window_setVisible w b s) (\<lambda>(b, s'). wm_ok lv D V xs False r s')"
  unfolding glass_window_setVisible_def lens_platform_windowSetVisible_def
  by (auto intro!: update_window_ok [THEN returns_bindI] ok_rules ok_rules [THEN returns_bindI])

lemma setAlpha_ok [ok_rules]:
  "wm_ok lv D V xs l False s \<Longrightarrow> w \<in> D \<Longrightarrow>
     returns (glass_window_setAlpha w a s) (\<lambda>(b, s'). wm_ok lv D V xs l False s')"
  unfolding glass_window_setAlpha_def
  by (auto intro!: update_window_ok [THEN returns_bindI] ok_rules ok_rules [THEN returns_bindI])

lemma update_parent_ok [ok_rules]:
  assumes "wm_ok lv D V xs l r s" "v \<in> V" "ptr_ok D p"
  shows "returns (update_view v (\<lambda>x. x\<lparr>parent := p\<rparr>) s) (wm_ok lv D V xs l r)"
proof -
  obtain x where "views s v = Some x" using assms(1,2) by (auto simp: wm_ok_def)
  then show ?thesis using assms by (auto simp: update_view_def wm_ok_def screen_ok_def zorder_def)
qed

lemma setParent_ok [ok_rules]:
  "wm_ok lv D V xs l r s \<Longrightarrow> v \<in> V \<Longrightarrow> (\<And>nv. views s v = Some nv \<Longrightarrow> ptr_ok D (parent nv)) \<Longrightarrow> ptr_ok D p \<Longrightarrow>
     returns (glass_view_setParent p v s) (wm_ok lv D V xs l r)"
  unfolding glass_view_setParent_def
  by (auto intro!: ok_rules ok_rules [THEN returns_bindI] split: option.split)

text \<open>The links change, everything else of the invariant does not depend on them.\<close>

lemma list_frame_ok:
  assumes "wm_ok lv D V xs False r s" "list_frame s s'" "zlist s' ys"
  shows "wm_ok lv D V ys False r s'"
proof -
  have same: "same_windows (windows s) (windows s')" and s': "s' = s\<lparr>windows := windows s',
      windowList_head := windowList_head s', windowList_tail := windowList_tail s',
      windowList_size := windowList_size s'\<rparr>"
    using assms(2) by (auto simp: list_frame_def)
  have "dom (windows s') = dom (windows s)"
  proof -
    have "windows s' w = None \<longleftrightarrow> windows s w = None" for w
      using same unfolding same_windows_def by (metis map_option_is_None)
    then show ?thesis by (simp add: dom_def)
  qed
  moreover have "ptr_ok V (view y)" if y: "windows s' w = Some y" for w y
  proof -
    obtain x where x: "windows s w = Some x" "nolinks y = nolinks x"
      using same [unfolded same_windows_def, rule_format, of w] y by (cases "windows s w") auto
    have "view (nolinks z) = view z" for z by (simp add: nolinks_def)
    with x(2) have "view y = view x" by metis
    with x assms(1) show ?thesis by (auto simp: wm_ok_def)
  qed
  moreover have "focusedWindow s' = focusedWindow s" "grabbedWindow s' = grabbedWindow s"
    "mouseWindow s' = mouseWindow s" "dragGrabbingWindow s' = dragGrabbingWindow s" "views s' = views s"
    "renderLocked s' = renderLocked s" "mainScreen s' = mainScreen s" "pApplication s' = pApplication s"
    by (subst s', simp)+
  ultimately show ?thesis
    using assms(1,3) by (simp add: wm_ok_def zlist_def screen_ok_def)
qed

lemma wm_ok_zlist: "wm_ok lv D V xs False r s \<Longrightarrow> zlist s xs"
  by (simp add: wm_ok_def zlist_def)

lemma set_move: "zlist s xs \<Longrightarrow> w \<in> set xs \<Longrightarrow> insert w (set (remove1 w xs)) = set xs"
  by (auto simp: zlist_def zorder_def)

lemma toFront_ok:
  assumes "wm_ok lv D V xs False False s" "w \<in> D"
  shows "returns (glass_window_toFront w s)
    (wm_ok lv D V (if w \<in> set xs then remove1 w xs @ [w] else xs) False False)"
proof -
  have "returns (glass_window_list_toFront w s) (\<lambda>(moved, s').
      wm_ok lv D V (if w \<in> set xs then remove1 w xs @ [w] else xs) False False s')"
    by (rule returns_conseq [OF toFront_refines [OF wm_ok_zlist [OF assms(1)], of w]])
       (auto intro!: list_frame_ok [OF assms(1)] simp: set_move [OF wm_ok_zlist [OF assms(1)]])
  then show ?thesis
    using assms(2) unfolding glass_window_toFront_def
    by (auto intro!: ok_rules elim!: returns_bindI)
qed

lemma toBack_ok:
  assumes "wm_ok lv D V xs False False s" "w \<in> D"
  shows "returns (glass_window_toBack w s)
    (wm_ok lv D V (if w \<in> set xs then w # remove1 w xs else xs) False False)"
proof -
  have "returns (glass_window_list_toBack w s) (\<lambda>(moved, s').
      wm_ok lv D V (if w \<in> set xs then w # remove1 w xs else xs) False False s')"
    by (rule returns_conseq [OF toBack_refines [OF wm_ok_zlist [OF assms(1)], of w]])
       (auto intro!: list_frame_ok [OF assms(1)] simp: set_move [OF wm_ok_zlist [OF assms(1)]])
  then show ?thesis
    using assms(2) unfolding glass_window_toBack_def
    by (auto intro!: ok_rules elim!: returns_bindI)
qed

section \<open>Properties\<close>

text \<open>
  C13: the check of a window's size against its limits clamps both sizes into the limits that are
  set (positive) and consistent, says whether it changed anything, and leaves alone what it has
  clamped before.
\<close>

theorem check_bounds_clamps:
  assumes "glass_window_check_bounds win w h = (ok, w', h')"
    and "minWidth win \<le> 0 \<or> maxWidth win \<le> 0 \<or> minWidth win \<le> maxWidth win"
    and "minHeight win \<le> 0 \<or> maxHeight win \<le> 0 \<or> minHeight win \<le> maxHeight win"
  shows "(minWidth win > 0 \<longrightarrow> minWidth win \<le> w') \<and> (maxWidth win > 0 \<longrightarrow> w' \<le> maxWidth win) \<and>
    (minHeight win > 0 \<longrightarrow> minHeight win \<le> h') \<and> (maxHeight win > 0 \<longrightarrow> h' \<le> maxHeight win) \<and>
    ok = (w' = w \<and> h' = h) \<and> glass_window_check_bounds win w' h' = (True, w', h')"
proof -
  have "glass_window_check_bounds win w' h' = (True, w', h')"
    using assms by (auto simp: glass_window_check_bounds_def split: if_splits)
  then show ?thesis
    using check_bounds_clamped [OF assms(1)] assms(2,3) by blast
qed

theorem check_bounds_clamps_witness:
  "glass_window_check_bounds (calloc_window\<lparr>minWidth := 100, maxWidth := 400, maxHeight := 300\<rparr>) 50 500 = (False, 100, 300) \<and>
   glass_window_check_bounds (calloc_window\<lparr>minWidth := 100, maxWidth := 400, maxHeight := 300\<rparr>) 100 300 = (True, 100, 300)"
proof -
  let ?w = "calloc_window\<lparr>minWidth := 100, maxWidth := 400, maxHeight := 300\<rparr>"
  have "glass_window_check_bounds ?w 50 500 = (False, 100, 300)"
    by (simp add: glass_window_check_bounds_def calloc_window_def)
  with check_bounds_clamps [OF this] show ?thesis by (simp add: calloc_window_def)
qed

text \<open>
  C14: for a window in the normal state, minimizing, maximizing or entering full screen and then
  restoring gives the window back with its bounds and its normal state (only the cached bounds
  now hold the bounds too), and every other window is as before. Restoring puts the window in
  the focus.
\<close>

theorem restore_undoes:
  assumes "wm_ok lv D V xs False False s" and "windows s w = Some a" and "win_state a = NWS_NORMAL"
    and "op \<in> {lens_wm_windowMinimize, lens_wm_windowMaximize, lens_wm_windowEnterFullscreen}"
  shows "returns (op w s \<bind> lens_wm_windowRestore w) (\<lambda>s'. wm_ok lv D V xs False False s' \<and>
    windows s' = (windows s)(w \<mapsto> a\<lparr>cachedBounds := currentBounds a\<rparr>) \<and> focusedWindow s' = Some w)"
proof -
  have s: "wm_at lv D V xs False False (focusedWindow s) (windows s) s" using assms(1) by (rule wm_at_self)
  have key: "returns (op w s) (wm_at lv D V xs False False fc ((windows s)(w \<mapsto> b))) \<Longrightarrow>
      win_state b \<noteq> NWS_NORMAL \<Longrightarrow> restored b = a\<lparr>cachedBounds := currentBounds a\<rparr> \<Longrightarrow> ?thesis" for fc b
  proof (rule returns_bindI)
    fix s1 assume "wm_at lv D V xs False False fc ((windows s)(w \<mapsto> b)) s1" and n: "win_state b \<noteq> NWS_NORMAL"
      and b: "restored b = a\<lparr>cachedBounds := currentBounds a\<rparr>"
    from at_restore [OF this(1), of w b] n b
    show "returns (lens_wm_windowRestore w s1) (\<lambda>s'. wm_ok lv D V xs False False s' \<and>
        windows s' = (windows s)(w \<mapsto> a\<lparr>cachedBounds := currentBounds a\<rparr>) \<and> focusedWindow s' = Some w)"
      by (auto elim!: returns_conseq simp: wm_at_def)
  qed
  show ?thesis
    using assms(4)
  proof (elim insertE emptyE)
    assume op: "op = lens_wm_windowMinimize"
    show ?thesis
      by (rule key) (use at_minimize [OF s assms(2)] assms(3) op in
        \<open>auto simp: Let_def undone_def minimized_def restored_def\<close>)
  next
    assume op: "op = lens_wm_windowMaximize"
    show ?thesis
      by (rule key) (use at_maximize [OF s assms(2)] assms(3) op in
        \<open>auto simp: undone_def maximized_def restored_def\<close>)
  next
    assume op: "op = lens_wm_windowEnterFullscreen"
    show ?thesis
      by (rule key) (use at_fullscreen [OF s assms(2)] assms(3) op in
        \<open>auto simp: undone_def fullscreened_def restored_def\<close>)
  qed
qed

theorem restore_undoes_witness:
  "returns (lens_wm_windowMaximize 2 desk \<bind> lens_wm_windowRestore 2)
     (\<lambda>s'. map_option currentBounds (windows s' 2) = Some \<lparr>b_x = 100, b_y = 100, b_width = 300, b_height = 300\<rparr>)"
proof -
  have "win_state ((desk_window 2 100)\<lparr>previousWindow := Some 1\<rparr>) = NWS_NORMAL"
    by (simp add: desk_window_def calloc_window_def)
  from restore_undoes [OF desk_ok, of 2, OF _ this, of lens_wm_windowMaximize] show ?thesis
    by (auto elim!: returns_conseq simp: desk_window_def calloc_window_def)
qed

text \<open>
  Going from maximized to full screen and back does not lead back to the maximized state: the
  window becomes normal, keeps the bounds of the maximized window, and the bounds it had before
  it was maximized, which were cached, are overwritten.
\<close>

theorem fullscreen_forgets_maximized:
  assumes "wm_ok lv D V xs False False s" and "windows s w = Some a" and "win_state a = NWS_MAXIMIZED"
  shows "returns (lens_wm_windowEnterFullscreen w s \<bind> lens_wm_windowRestore w) (\<lambda>s'.
    windows s' = (windows s)(w \<mapsto> a\<lparr>win_state := NWS_NORMAL, cachedBounds := currentBounds a\<rparr>))"
proof -
  have s: "wm_at lv D V xs False False (focusedWindow s) (windows s) s" using assms(1) by (rule wm_at_self)
  let ?b = "fullscreened headless (undone {NWS_MINIMIZED} a)"
  have b: "win_state ?b \<noteq> NWS_NORMAL" "restored ?b = a\<lparr>win_state := NWS_NORMAL, cachedBounds := currentBounds a\<rparr>"
    using assms(3) by (auto simp: fullscreened_def undone_def restored_def)
  show ?thesis
  proof (rule returns_bindI [OF at_fullscreen [OF s assms(2)]])
    fix s1 assume "wm_at lv D V xs False False (Some w) ((windows s)(w \<mapsto> ?b)) s1"
    from at_restore [OF this, of w ?b] b
    show "returns (lens_wm_windowRestore w s1) (\<lambda>s'. windows s' =
        (windows s)(w \<mapsto> a\<lparr>win_state := NWS_NORMAL, cachedBounds := currentBounds a\<rparr>))"
      by (auto elim!: returns_conseq simp: wm_at_def)
  qed (use assms(3) in simp)
qed

text \<open>The desktop with its second window maximized from (100, 100).\<close>

definition desk_maximized :: lens where
  "desk_maximized = desk\<lparr>windows := (windows desk)(2 \<mapsto>
     maximized headless ((desk_window 2 100)\<lparr>previousWindow := Some 1\<rparr>)), focusedWindow := Some 2, grabbedWindow := None\<rparr>"

lemma desk_maximized_ok: "wm_ok (True, True) {1, 2} {11, 12} [1, 2] False False desk_maximized"
  using desk_ok
  by (auto simp: wm_ok_def desk_maximized_def zorder_def screen_ok_def maximized_def desk_window_def)

theorem fullscreen_forgets_maximized_witness:
  "returns (lens_wm_windowEnterFullscreen 2 desk_maximized \<bind> lens_wm_windowRestore 2) (\<lambda>s'.
     map_option (\<lambda>x. (win_state x, cachedBounds x)) (windows s' 2) =
     Some (NWS_NORMAL, \<lparr>b_x = 0, b_y = 0, b_width = 600, b_height = 800\<rparr>))"
proof -
  let ?a = "maximized headless ((desk_window 2 100)\<lparr>previousWindow := Some 1\<rparr>)"
  have "windows desk_maximized 2 = Some ?a" by (simp add: desk_maximized_def)
  from fullscreen_forgets_maximized [OF desk_maximized_ok this] show ?thesis
    by (auto elim!: returns_conseq simp: maximized_def maximized_bounds_def glass_window_check_bounds_def
        desk_window_def calloc_window_def)
qed

lemma topmost_P: "topmost P W xs = Some x \<Longrightarrow> P (the (W x))"
  by (auto simp: topmost_def find_Some_iff)

lemma focus_after_unset_not:
  "W w = Some a \<Longrightarrow> \<not> focus_candidate a \<Longrightarrow> focus_after_unset w fc W xs \<noteq> Some w"
  by (auto simp: focus_after_unset_def dest: topmost_P)

lemma at_hide:
  assumes s: "wm_at lv D V xs False r fc W s" and a: "W w = Some a"
  shows "returns (glass_window_setVisible w False s) (\<lambda>(b, s'). wm_at lv D V xs False r
     (focus_after_unset w fc (W(w \<mapsto> a\<lparr>isVisible := False\<rparr>)) xs) (W(w \<mapsto> a\<lparr>isVisible := False\<rparr>)) s')"
  unfolding glass_window_setVisible_def lens_platform_windowSetVisible_def
  using a wm_at_view [OF s a]
  by (auto intro!: at_update [OF s, THEN returns_bindI] at_unset [THEN returns_bindI])

text \<open>
  C15: a window that is hidden, or minimized when it was not minimized before, does not have the focus afterwards. If it had the
  focus (a full screen window takes it first, as it is restored before it is minimized), the topmost window that is visible,
  focusable, not minimized and not owned by another gets it, or nobody if there is none; otherwise the focus stays where it was.
  Minimizing a window that is minimized already does nothing.
\<close>

theorem hidden_window_loses_focus:
  assumes "wm_ok lv D V xs False False s" and "windows s w = Some a"
  shows "returns (lens_wm_windowMinimize w s) (\<lambda>s'. if win_state a = NWS_MINIMIZED then s' = s else focusedWindow s' \<noteq> Some w \<and>
      focusedWindow s' = focus_after_unset w (if win_state a = NWS_FULLSCREEN then Some w else focusedWindow s) (windows s') xs)
    \<and> returns (glass_window_setVisible w False s) (\<lambda>(b, s'). focusedWindow s' \<noteq> Some w \<and>
      focusedWindow s' = focus_after_unset w (focusedWindow s) (windows s') xs)"
proof
  have s: "wm_at lv D V xs False False (focusedWindow s) (windows s) s" using assms(1) by (rule wm_at_self)
  have not: "focus_after_unset w fc ((windows s)(w \<mapsto> b)) xs \<noteq> Some w" if "\<not> focus_candidate b" for fc b
    using that by (intro focus_after_unset_not) auto
  show "returns (glass_window_setVisible w False s) (\<lambda>(b, s'). focusedWindow s' \<noteq> Some w \<and>
      focusedWindow s' = focus_after_unset w (focusedWindow s) (windows s') xs)"
    by (rule returns_conseq [OF at_hide [OF s assms(2)]])
       (use not [of "a\<lparr>isVisible := False\<rparr>"] in \<open>clarsimp simp: wm_at_def focus_candidate_def\<close>)
  show "returns (lens_wm_windowMinimize w s) (\<lambda>s'. if win_state a = NWS_MINIMIZED then s' = s else focusedWindow s' \<noteq> Some w \<and>
      focusedWindow s' = focus_after_unset w (if win_state a = NWS_FULLSCREEN then Some w else focusedWindow s) (windows s') xs)"
  proof (cases "win_state a = NWS_MINIMIZED")
    case True
    then show ?thesis using assms(2) by (simp add: lens_wm_windowMinimize_def)
  next
    case False
    show ?thesis
      by (rule returns_conseq [OF at_minimize [OF s assms(2) False]])
         (use not [of "minimized (undone {NWS_FULLSCREEN} a)"] False in
           \<open>auto simp: wm_at_def focus_candidate_def minimized_def Let_def\<close>)
  qed
qed

theorem hidden_window_loses_focus_witness:
  "returns (glass_window_setVisible 1 False desk) (\<lambda>(b, s'). focusedWindow s' \<noteq> Some 1)"
  using hidden_window_loses_focus [OF desk_ok, of 1] by (auto elim!: returns_conseq)

text \<open>
  After \<open>glass_window_setMinimumSize\<close> with a size that is consistent with the maximum size, the
  window respects both limits in every direction that is limited, keeps its place and every other
  field, and no other window changes.
\<close>

theorem setMinimumSize_respects_limits:
  assumes "wm_ok lv D V xs False False s" and "windows s w = Some a"
    and "wd \<le> 0 \<or> maxWidth a \<le> 0 \<or> wd \<le> maxWidth a" and "ht \<le> 0 \<or> maxHeight a \<le> 0 \<or> ht \<le> maxHeight a"
  shows "returns (glass_window_setMinimumSize w wd ht s) (\<lambda>(b, s'). b \<and> (\<exists>w' h'.
    windows s' = (windows s)(w \<mapsto> a\<lparr>minWidth := wd, minHeight := ht,
       currentBounds := (currentBounds a)\<lparr>b_width := w', b_height := h'\<rparr>\<rparr>) \<and>
    (wd > 0 \<longrightarrow> wd \<le> w') \<and> (maxWidth a > 0 \<longrightarrow> w' \<le> maxWidth a) \<and>
    (ht > 0 \<longrightarrow> ht \<le> h') \<and> (maxHeight a > 0 \<longrightarrow> h' \<le> maxHeight a)))"
proof -
  have s: "wm_at lv D V xs False False (focusedWindow s) (windows s) s" using assms(1) by (rule wm_at_self)
  let ?a = "a\<lparr>minWidth := wd, minHeight := ht\<rparr>"
  obtain ok w' h' where cb: "glass_window_check_bounds ?a (b_width (currentBounds a)) (b_height (currentBounds a)) = (ok, w', h')"
    using prod_cases3 by blast
  have lim: "wd > 0 \<longrightarrow> wd \<le> w'" "maxWidth a > 0 \<longrightarrow> w' \<le> maxWidth a" "ht > 0 \<longrightarrow> ht \<le> h'"
    "maxHeight a > 0 \<longrightarrow> h' \<le> maxHeight a"
    using check_bounds_clamped [OF cb] assms(3,4) by simp_all
  have "returns (glass_window_setMinimumSize w wd ht s) (\<lambda>(b, s'). b \<and>
      windows s' = (windows s)(w \<mapsto> ?a\<lparr>currentBounds := (currentBounds a)\<lparr>b_width := w', b_height := h'\<rparr>\<rparr>))"
    by (rule returns_conseq [OF at_minSize [OF s assms(2), of wd ht]]) (simp add: wm_at_def cb split: prod.splits)
  then show ?thesis
    by (rule returns_conseq) (use lim in blast)
qed

theorem setMinimumSize_respects_limits_witness:
  "returns (glass_window_setMinimumSize 2 400 0 desk) (\<lambda>(b, s'). \<exists>x. windows s' 2 = Some x \<and>
     400 \<le> b_width (currentBounds x) \<and> b_x (currentBounds x) = 100)"
proof -
  have "maxWidth ((desk_window 2 100)\<lparr>previousWindow := Some 1\<rparr>) \<le> 0"
    by (simp add: desk_window_def calloc_window_def)
  then show ?thesis
    using setMinimumSize_respects_limits [OF desk_ok, of 2 _ 400 0]
    by (auto elim!: returns_conseq simp: desk_window_def calloc_window_def)
qed

end
