(* ===== verification/LensMouse.thy ===== *)
theory LensMouse
  imports LensWindowState
begin

text \<open>
  Mouse, drag, scroll and touch handling of \<open>wm/LensWindowManager.c\<close>. The C functions hand the
  coordinates relative to the found window out through pointers that stay unset when no window is
  found; here they are an \<open>option\<close>, and reading an unset pair is undefined.
\<close>

section \<open>The window under the pointer\<close>

definition hit :: "int \<Rightarrow> int \<Rightarrow> NativeWindow \<Rightarrow> bool" where
  "hit absX absY w \<longleftrightarrow> isVisible w \<and> win_state w \<noteq> NWS_MINIMIZED \<and>
     absX \<ge> b_x (currentBounds w) \<and> absX < b_x (currentBounds w) + b_width (currentBounds w) \<and>
     absY \<ge> b_y (currentBounds w) \<and> absY < b_y (currentBounds w) + b_height (currentBounds w) \<and>
     isEnabled w"

definition relative :: "int \<Rightarrow> int \<Rightarrow> NativeWindow \<Rightarrow> int \<times> int" where
  "relative absX absY w = (absX - b_x (currentBounds w), absY - b_y (currentBounds w))"

text \<open>The walk from the tail of the list to the first window that passes the tests.\<close>

partial_function (option) find_loop ::
    "(win \<rightharpoonup> NativeWindow) \<Rightarrow> (NativeWindow \<Rightarrow> bool) \<Rightarrow> win option \<Rightarrow> win option option" where
  "find_loop h test w = (case w of
       None \<Rightarrow> Some None
     | Some x \<Rightarrow> do {
         win \<leftarrow> h x;
         if test win then Some (Some x) else find_loop h test (previousWindow win)
       })"

definition glass_window_findWindowAtLocation ::
    "int \<Rightarrow> int \<Rightarrow> lens \<Rightarrow> ((win \<times> int \<times> int) option \<times> lens) option" where
  "glass_window_findWindowAtLocation absX absY s = do {
     s \<leftarrow> glass_window_list_lock s;
     w \<leftarrow> find_loop (windows s) (hit absX absY) (glass_window_list_getTail s);
     (case w of
        None \<Rightarrow> Some (None, glass_window_list_unlock s)
      | Some x \<Rightarrow> do {
          win \<leftarrow> windows s x;
          Some (Some (x, relative absX absY win), glass_window_list_unlock s)
        })
   }"

section \<open>Clicks and scrolling\<close>

text \<open>A click outside the tree of windows that holds the grab breaks the grab.\<close>

definition break_grab :: "win option \<Rightarrow> lens \<Rightarrow> lens option" where
  "break_grab window s = (case lens_wm_getGrabbedWindow s of
       None \<Rightarrow> Some s
     | Some g \<Rightarrow>
         (case window of
            None \<Rightarrow> glass_window_ungrabFocus (Some g) s
          | Some w \<Rightarrow> do {
              ww \<leftarrow> windows s w;
              gw \<leftarrow> windows s g;
              if win_root ww \<noteq> win_root gw then glass_window_ungrabFocus (Some g) s else Some s
            }))"

text \<open>A click outside the tree of windows that has the focus moves the focus.\<close>

definition click_focus :: "win option \<Rightarrow> lens \<Rightarrow> lens option" where
  "click_focus window s = (case window of
       None \<Rightarrow> Some s
     | Some w \<Rightarrow>
         (case glass_window_getFocusedWindow s of
            None \<Rightarrow> Some s
          | Some f \<Rightarrow> do {
              ww \<leftarrow> windows s w;
              fw \<leftarrow> windows s f;
              if win_root ww \<noteq> win_root fw then lens_wm_setFocusedWindow window s else Some s
            }))"

definition handleClickOrTouchEvent :: "int \<Rightarrow> int \<Rightarrow> lens \<Rightarrow> lens option" where
  "handleClickOrTouchEvent xabs yabs s = do {
     (f, s) \<leftarrow> glass_window_findWindowAtLocation xabs yabs s;
     s \<leftarrow> break_grab (map_option fst f) s;
     click_focus (map_option fst f) s
   }"

definition lens_wm_notifyScrollEvent :: "int \<Rightarrow> int \<Rightarrow> int \<Rightarrow> lens \<Rightarrow> lens option" where
  "lens_wm_notifyScrollEvent xabs yabs step s = do {
     (f, s) \<leftarrow> glass_window_findWindowAtLocation xabs yabs s;
     case f of
       None \<Rightarrow> Some s
     | Some (w, relX, relY) \<Rightarrow>
         glass_application_notifyScrollEvent w relX relY xabs yabs 0 (of_int step) s
   }"

section \<open>Enter and exit\<close>

text \<open>A mouse event on a window at the cached pointer position, without a button.\<close>

definition notify_at :: "win \<Rightarrow> int \<Rightarrow> int \<times> int \<Rightarrow> lens \<Rightarrow> lens option" where
  "notify_at w e rel s = glass_application_notifyMouseEvent w e (fst rel) (snd rel)
     (mousePosX s) (mousePosY s) MouseEvent_BUTTON_NONE s"

definition pointer_in :: "win \<Rightarrow> lens \<Rightarrow> (int \<times> int) option" where
  "pointer_in w s = do { win \<leftarrow> windows s w; Some (relative (mousePosX s) (mousePosY s) win) }"

text \<open>During a drag only the window that holds it is told; the exit event sets the coordinates.\<close>

definition enter_exit_drag ::
    "win \<Rightarrow> win option \<Rightarrow> win option \<Rightarrow> (int \<times> int) option \<Rightarrow> lens \<Rightarrow> ((int \<times> int) option \<times> lens) option" where
  "enter_exit_drag drag window lastMouseWindow rel s = do {
     (rel, s) \<leftarrow> (if window \<noteq> Some drag \<and> Some drag = lastMouseWindow then do {
                      r \<leftarrow> pointer_in drag s;
                      s \<leftarrow> notify_at drag MouseEvent_EXIT r s;
                      Some (Some r, s)
                    }
                    else Some (rel, s));
     s \<leftarrow> (if window = Some drag \<and> window \<noteq> lastMouseWindow then do {
              r \<leftarrow> rel;
              notify_at drag MouseEvent_ENTER r s
            }
            else Some s);
     Some (rel, s)
   }"

definition enter_exit_plain ::
    "win option \<Rightarrow> win option \<Rightarrow> (int \<times> int) option \<Rightarrow> lens \<Rightarrow> lens option" where
  "enter_exit_plain window lastMouseWindow rel s =
     (if window \<noteq> lastMouseWindow then do {
        s \<leftarrow> (case lastMouseWindow of
                None \<Rightarrow> Some s
              | Some l \<Rightarrow> do { r \<leftarrow> pointer_in l s; notify_at l MouseEvent_EXIT r s });
        (case window of
           None \<Rightarrow> Some s
         | Some w \<Rightarrow> do { r \<leftarrow> rel; notify_at w MouseEvent_ENTER r s })
      }
      else Some s)"

definition lens_wm_notifyEnterExitEvents :: "lens \<Rightarrow> (win option \<times> (int \<times> int) option \<times> lens) option" where
  "lens_wm_notifyEnterExitEvents s = do {
     (f, s) \<leftarrow> glass_window_findWindowAtLocation (mousePosX s) (mousePosY s) s;
     let window = map_option fst f; lastMouseWindow = lens_wm_getMouseWindow s
     in do {
       (rel, s) \<leftarrow> (if onDraggingAction s then
                        (case dragGrabbingWindow s of
                           None \<Rightarrow> Some (map_option snd f, s)
                         | Some drag \<Rightarrow> enter_exit_drag drag window lastMouseWindow (map_option snd f) s)
                      else Some (map_option snd f, s));
       s \<leftarrow> (if \<not> onDraggingAction s then enter_exit_plain window lastMouseWindow rel s else Some s);
       Some (window, rel, s)
     }
   }"

section \<open>Buttons\<close>

definition stop_drag :: "lens \<Rightarrow> lens" where
  "stop_drag s = s\<lparr>onDraggingAction := False, dragGrabbingWindow := None\<rparr>"

definition button_state :: "bool \<Rightarrow> int \<Rightarrow> lens \<Rightarrow> lens" where
  "button_state pressed button s =
     (if mousePressedButton s = MouseEvent_BUTTON_NONE
      then (if onDraggingAction s then stop_drag s else s)\<lparr>mousePressedButton := button\<rparr>
      else if \<not> pressed \<and> button = mousePressedButton s
      then stop_drag (s\<lparr>mousePressedButton := MouseEvent_BUTTON_NONE\<rparr>)
      else s)"

text \<open>The delivery of a button event: to the window that holds the drag, or to the one found.\<close>

definition deliver_button ::
    "bool \<Rightarrow> int \<Rightarrow> int \<Rightarrow> int \<Rightarrow> win option \<Rightarrow> (int \<times> int) option \<Rightarrow> lens \<Rightarrow> lens option" where
  "deliver_button pressed button xabs yabs window rel s =
     (if onDraggingAction s then do {
        s \<leftarrow> (case dragGrabbingWindow s of
                None \<Rightarrow> Some s
              | Some d \<Rightarrow> do {
                  win \<leftarrow> windows s d;
                  let r = relative xabs yabs win
                  in glass_application_notifyMouseEvent d MouseEvent_UP (fst r) (snd r) xabs yabs button s
                });
        Some (if button = mousePressedButton s then stop_drag s else s)
      }
      else (case window of
              None \<Rightarrow> Some s
            | Some w \<Rightarrow> do {
                r \<leftarrow> rel;
                glass_application_notifyMouseEvent w (if pressed then MouseEvent_DOWN else MouseEvent_UP)
                  (fst r) (snd r) xabs yabs button s
              }))"

definition lens_wm_notifyButtonEvent :: "bool \<Rightarrow> int \<Rightarrow> int \<Rightarrow> int \<Rightarrow> lens \<Rightarrow> lens option" where
  "lens_wm_notifyButtonEvent pressed button xabs yabs s = do {
     (window, rel, s) \<leftarrow> lens_wm_notifyEnterExitEvents (s\<lparr>mousePosX := xabs, mousePosY := yabs\<rparr>);
     s \<leftarrow> deliver_button pressed button xabs yabs window rel
            (button_state pressed button (lens_wm_setMouseWindow window s));
     handleClickOrTouchEvent xabs yabs s
   }"

section \<open>Motion, drag and drop\<close>

definition start_drag :: "lens \<Rightarrow> lens" where
  "start_drag s =
     (if mousePressedButton s \<noteq> MouseEvent_BUTTON_NONE \<and> \<not> onDraggingAction s \<and> \<not> isDnDStarted s
      then s\<lparr>onDraggingAction := True, dragGrabbingWindow := lens_wm_getMouseWindow s\<rparr>
      else s)"

definition deliver_motion :: "win option \<Rightarrow> (int \<times> int) option \<Rightarrow> lens \<Rightarrow> lens option" where
  "deliver_motion window rel s =
     (if onDraggingAction s \<and> dragGrabbingWindow s \<noteq> None then do {
        d \<leftarrow> dragGrabbingWindow s;
        r \<leftarrow> pointer_in d s;
        notify_at d MouseEvent_MOVE r s
      }
      else if \<not> onDraggingAction s \<and> window \<noteq> None then do {
        w \<leftarrow> window;
        r \<leftarrow> rel;
        notify_at w MouseEvent_MOVE r s
      }
      else Some s)"

definition lens_wm_notifyMotionEvent :: "int \<Rightarrow> int \<Rightarrow> lens \<Rightarrow> lens option" where
  "lens_wm_notifyMotionEvent x y s = do {
     (window, rel, s) \<leftarrow> lens_wm_notifyEnterExitEvents
        (start_drag (fbCursorSetPosition x y (s\<lparr>mousePosX := x, mousePosY := y\<rparr>)));
     deliver_motion window rel (lens_wm_setMouseWindow window s)
   }"

definition notify_lens_wm_DnDStarted :: "lens \<Rightarrow> lens" where
  "notify_lens_wm_DnDStarted s = stop_drag (s\<lparr>isDnDStarted := True\<rparr>)"

definition notify_lens_wm_DnDEnded :: "lens \<Rightarrow> lens" where
  "notify_lens_wm_DnDEnded s = s\<lparr>isDnDStarted := False\<rparr>"

section \<open>Touch\<close>

fun all_pressed :: "nat \<Rightarrow> int list \<Rightarrow> bool option" where
  "all_pressed 0 states = Some True"
| "all_pressed (Suc n) [] = None"
| "all_pressed (Suc n) (st # states) =
     (if st \<noteq> TouchEvent_TOUCH_PRESSED then Some False else all_pressed n states)"

text \<open>The touch window is chosen by the first event of a sequence, one whose points are all pressed.\<close>

definition set_touch_window :: "nat \<Rightarrow> int list \<Rightarrow> int list \<Rightarrow> int list \<Rightarrow> int \<Rightarrow> lens \<Rightarrow> lens option" where
  "set_touch_window count states xabs yabs primary s =
     (if touchWindow s = None \<and> primary \<ge> 0 \<and> \<not> onDraggingAction s then do {
        x \<leftarrow> read_at xabs primary;
        y \<leftarrow> read_at yabs primary;
        (f, s) \<leftarrow> glass_window_findWindowAtLocation x y s;
        (case f of
           None \<Rightarrow> Some (s\<lparr>touchWindow := None\<rparr>)
         | Some (w, _) \<Rightarrow> do {
             ok \<leftarrow> all_pressed count states;
             Some (s\<lparr>touchWindow := (if ok then Some w else None)\<rparr>)
           })
      }
      else Some s)"

definition touch_to_mouse :: "int list \<Rightarrow> int list \<Rightarrow> int list \<Rightarrow> int \<Rightarrow> lens \<Rightarrow> lens option" where
  "touch_to_mouse states xabs yabs primary s =
     (if primary = - 1
      then lens_wm_notifyButtonEvent False MouseEvent_BUTTON_LEFT (mousePosX s) (mousePosY s) s
      else do {
        absX \<leftarrow> read_at xabs primary;
        absY \<leftarrow> read_at yabs primary;
        st \<leftarrow> read_at states primary;
        if st = TouchEvent_TOUCH_PRESSED then do {
          s \<leftarrow> (if absX \<noteq> mousePosX s \<or> absY \<noteq> mousePosY s
                 then lens_wm_notifyMotionEvent absX absY s else Some s);
          s \<leftarrow> lens_wm_notifyButtonEvent True MouseEvent_BUTTON_LEFT absX absY s;
          Some (fbCursorSetPosition absX absY s)
        }
        else if st = TouchEvent_TOUCH_MOVED then lens_wm_notifyMotionEvent absX absY s
        else if st = TouchEvent_TOUCH_STILL then Some (s\<lparr>mousePosX := absX, mousePosY := absY\<rparr>)
        else Some s
      })"

definition deliver_touch ::
    "nat \<Rightarrow> int list \<Rightarrow> int list \<Rightarrow> int list \<Rightarrow> int list \<Rightarrow> int \<Rightarrow> lens \<Rightarrow> lens option" where
  "deliver_touch count states ids xabs yabs primary s =
     (case touchWindow s of
        None \<Rightarrow> Some s
      | Some w \<Rightarrow> do {
          s \<leftarrow> glass_window_list_lock s;
          e \<leftarrow> glass_window_isExist w s;
          s \<leftarrow> (if e then do {
                   win \<leftarrow> windows s w;
                   s \<leftarrow> glass_application_notifyMultiTouchEvent w count states ids xabs yabs
                          (- b_x (currentBounds win)) (- b_y (currentBounds win)) s;
                   Some (if primary = - 1 then s\<lparr>touchWindow := None\<rparr> else s)
                 }
                 else Some s);
          Some (glass_window_list_unlock s)
        })"

definition lens_wm_notifyMultiTouchEvent ::
    "nat \<Rightarrow> int list \<Rightarrow> int list \<Rightarrow> int list \<Rightarrow> int list \<Rightarrow> int \<Rightarrow> lens \<Rightarrow> lens option" where
  "lens_wm_notifyMultiTouchEvent count states ids xabs yabs primary s = do {
     s \<leftarrow> set_touch_window count states xabs yabs primary s;
     s \<leftarrow> touch_to_mouse states xabs yabs primary s;
     deliver_touch count states ids xabs yabs primary s
   }"

section \<open>The window under the pointer is the topmost one hit\<close>

lemma find_loop_topmost: "dseg h None xs n \<Longrightarrow> find_loop h test (last_opt xs) = Some (topmost test h xs)"
proof (induction xs arbitrary: n rule: rev_induct)
  case Nil
  then show ?case by (simp add: find_loop.simps topmost_def)
next
  case (snoc x xs)
  then obtain w where w: "h x = Some w" "previousWindow w = last_opt xs" "dseg h None xs (Some x)"
    by (auto simp: dseg_append)
  from snoc.IH [OF w(3)] w(1,2) show ?case by (simp add: find_loop.simps topmost_def)
qed

definition found_at :: "int \<Rightarrow> int \<Rightarrow> lens \<Rightarrow> win list \<Rightarrow> (win \<times> int \<times> int) option" where
  "found_at x y s xs = map_option (\<lambda>w. (w, relative x y (the (windows s w)))) (topmost (hit x y) (windows s) xs)"

lemma find_exact_zlist:
  assumes "zlist s xs"
  shows "glass_window_findWindowAtLocation x y s = Some (found_at x y s xs, s)"
proof -
  have z: "zorder s xs" "\<not> windowListLocked s" using assms by (simp_all add: zlist_def)
  have f: "find_loop (windows s) (hit x y) (glass_window_list_getTail s) = Some (topmost (hit x y) (windows s) xs)"
    using z(1) find_loop_topmost [of "windows s" xs None] by (simp add: zorder_def glass_window_list_getTail_def)
  have "windows s w \<noteq> None" if "topmost (hit x y) (windows s) xs = Some w" for w
    using topmost_mem [OF that] zorder_mem [OF z(1)] by auto
  with f z(2) show ?thesis
    by (auto simp: glass_window_findWindowAtLocation_def found_at_def glass_window_list_lock_def
        glass_window_list_unlock_def glass_window_list_getTail_def split: option.split)
qed

lemma find_exact:
  "wm_ok lv D V xs False r s \<Longrightarrow> glass_window_findWindowAtLocation x y s = Some (found_at x y s xs, s)"
  by (rule find_exact_zlist [OF wm_ok_zlist])

lemma find_ok [ok_rules]:
  "wm_ok lv D V xs False r s \<Longrightarrow>
     returns (glass_window_findWindowAtLocation x y s) (\<lambda>(f, s'). f = found_at x y s xs \<and> s' = s \<and>
       (\<forall>w rel. f = Some (w, rel) \<longrightarrow> w \<in> D))"
  using topmost_ptr_ok [of lv D V xs False r s "hit x y" "windows s"]
  by (auto simp: find_exact found_at_def)

section \<open>Mouse operations keep the invariant\<close>

lemma notify_at_ok [ok_rules]:
  "wm_ok lv D V xs l r s \<Longrightarrow> w \<in> D \<Longrightarrow> core s = c \<Longrightarrow>
     returns (notify_at w e rel s) (\<lambda>s'. wm_ok lv D V xs l r s' \<and> core s' = c)"
  using notifyMouseEvent_ok [of lv D V xs l r s w e "fst rel" "snd rel" "mousePosX s" "mousePosY s" MouseEvent_BUTTON_NONE]
  unfolding notify_at_def by (auto simp: returns_iff dest: core_notifyMouse)

lemma pointer_in_ok [ok_rules]:
  "wm_ok lv D V xs l r s \<Longrightarrow> w \<in> D \<Longrightarrow> returns (pointer_in w s) (\<lambda>p. True)"
  unfolding pointer_in_def by (auto intro!: ok_rules [THEN returns_bindI])

lemma pointers_ok [intro]:
  "wm_ok lv D V xs l r s \<Longrightarrow> ptr_ok D (focusedWindow s)"
  "wm_ok lv D V xs l r s \<Longrightarrow> ptr_ok D (mouseWindow s)"
  by (simp_all add: wm_ok_def)

lemma pointer_mem:
  "wm_ok lv D V xs l r s \<Longrightarrow> glass_window_getFocusedWindow s = Some w \<Longrightarrow> w \<in> D"
  "wm_ok lv D V xs l r s \<Longrightarrow> lens_wm_getGrabbedWindow s = Some w \<Longrightarrow> w \<in> D"
  "wm_ok lv D V xs l r s \<Longrightarrow> lens_wm_getMouseWindow s = Some w \<Longrightarrow> w \<in> D"
  using focus_getters_ok [of lv D V xs l r s] by simp_all

text \<open>A drag is alive when the window that holds it has not been freed.\<close>

definition drag_alive :: "win set \<Rightarrow> lens \<Rightarrow> bool" where
  "drag_alive D s \<longleftrightarrow> (onDraggingAction s \<longrightarrow> ptr_ok D (dragGrabbingWindow s))"

lemma drag_aliveI [intro]: "wm_ok lv D V xs l r s \<Longrightarrow> fst lv \<Longrightarrow> drag_alive D s"
  by (simp add: drag_alive_def wm_ok_def)

lemma drag_alive_core: "core s' = core s \<Longrightarrow> drag_alive D s' = drag_alive D s"
  by (simp add: drag_alive_def core_fields [of s' s])

lemma break_grab_ok [ok_rules]:
  assumes s: "wm_ok lv D V xs l r s" and w: "ptr_ok D w"
  shows "returns (break_grab w s) (wm_ok lv D V xs l r)"
  unfolding break_grab_def
  using s w pointer_mem(2) [OF s]
  by (auto intro!: ok_rules ok_rules [THEN returns_bindI] split: option.split)

lemma click_focus_ok [ok_rules]:
  assumes s: "wm_ok lv D V xs l r s" and w: "ptr_ok D w"
  shows "returns (click_focus w s) (wm_ok lv D V xs l r)"
  unfolding click_focus_def
  using s w pointer_mem(1) [OF s]
  by (auto intro!: ok_rules ok_rules [THEN returns_bindI] split: option.split)

lemma found_ptr_ok: "wm_ok lv D V xs l r s \<Longrightarrow> ptr_ok D (map_option fst (found_at x y s xs))"
  using topmost_ptr_ok [of lv D V xs l r s]
  by (simp add: found_at_def option.map_comp comp_def option.map_ident)

lemma handleClick_ok [ok_rules]:
  assumes s: "wm_ok lv D V xs False r s"
  shows "returns (handleClickOrTouchEvent x y s) (wm_ok lv D V xs False r)"
  unfolding handleClickOrTouchEvent_def find_exact [OF s]
  using s found_ptr_ok [OF s]
  by (auto intro!: ok_rules ok_rules [THEN returns_bindI])

lemma scroll_ok [ok_rules]:
  "wm_ok lv D V xs False r s \<Longrightarrow> returns (lens_wm_notifyScrollEvent x y n s) (wm_ok lv D V xs False r)"
  unfolding lens_wm_notifyScrollEvent_def
  by (auto intro!: ok_rules ok_rules [THEN returns_bindI] split: option.split)

lemma enter_exit_drag_ok [ok_rules]:
  "wm_ok lv D V xs l r s \<Longrightarrow> d \<in> D \<Longrightarrow> (window = Some d \<longrightarrow> rel \<noteq> None) \<Longrightarrow>
     returns (enter_exit_drag d window lst rel s) (\<lambda>(rel', s'). wm_ok lv D V xs l r s' \<and> core s' = core s \<and>
       (rel \<noteq> None \<longrightarrow> rel' \<noteq> None))"
  unfolding enter_exit_drag_def
  by (auto intro!: ok_rules ok_rules [THEN returns_bindI])


lemma enter_exit_plain_ok [ok_rules]:
  "wm_ok lv D V xs l r s \<Longrightarrow> ptr_ok D lst \<Longrightarrow> ptr_ok D window \<Longrightarrow> (window \<noteq> None \<longrightarrow> rel \<noteq> None) \<Longrightarrow>
     returns (enter_exit_plain window lst rel s) (\<lambda>s'. wm_ok lv D V xs l r s' \<and> core s' = core s)"
  unfolding enter_exit_plain_def
  by (auto intro!: ok_rules ok_rules [THEN returns_bindI] split: option.split)

text \<open>A window that is not allocated is neither under the pointer nor the last one that was: it is not told.\<close>

lemma enter_exit_drag_dead:
  "d \<notin> D \<Longrightarrow> ptr_ok D window \<Longrightarrow> ptr_ok D lst \<Longrightarrow> enter_exit_drag d window lst rel s = Some (rel, s)"
  by (auto simp: enter_exit_drag_def ptr_ok_def)

definition under :: "lens \<Rightarrow> win list \<Rightarrow> win option" where
  "under s xs = topmost (hit (mousePosX s) (mousePosY s)) (windows s) xs"

lemma found_at_under:
  "map_option fst (found_at (mousePosX s) (mousePosY s) s xs) = under s xs"
  by (simp add: found_at_def under_def option.map_comp comp_def option.map_ident)

lemma enter_exit_ok [ok_rules]:
  assumes s: "wm_ok lv D V xs False r s"
  shows "returns (lens_wm_notifyEnterExitEvents s) (\<lambda>(window, rel, s'). wm_ok lv D V xs False r s' \<and>
     core s' = core s \<and> window = under s xs \<and> ptr_ok D window \<and> (window \<noteq> None \<longrightarrow> rel \<noteq> None))"
proof -
  let ?f = "found_at (mousePosX s) (mousePosY s) s xs"
  have u: "map_option fst ?f = under s xs" by (rule found_at_under)
  have p: "ptr_ok D (under s xs)" unfolding under_def by (rule topmost_ptr_ok [OF s])
  have rel: "under s xs \<noteq> None \<Longrightarrow> map_option snd ?f \<noteq> None" using u by (cases ?f) auto
  have m: "ptr_ok D (lens_wm_getMouseWindow s)" using s by (rule focus_getters_ok)
  show ?thesis
  proof (cases "onDraggingAction s")
    case True
    show ?thesis
    proof (cases "dragGrabbingWindow s")
      case None
      then show ?thesis using True s p rel u find_exact [OF s]
        by (simp add: lens_wm_notifyEnterExitEvents_def) blast
    next
      case (Some d)
      show ?thesis
      proof (cases "d \<in> D")
        case False
        show ?thesis using True Some s p rel u find_exact [OF s] enter_exit_drag_dead [OF False p m]
          by (simp add: lens_wm_notifyEnterExitEvents_def) blast
      next
      case d: True
      have w: "under s xs = Some d \<longrightarrow> map_option snd ?f \<noteq> None" using rel by auto
      have "returns (enter_exit_drag d (under s xs) (lens_wm_getMouseWindow s) (map_option snd ?f) s)
          (\<lambda>(rel', s'). wm_ok lv D V xs False r s' \<and> core s' = core s \<and> onDraggingAction s' \<and>
             (under s xs \<noteq> None \<longrightarrow> rel' \<noteq> None))"
      proof (rule returns_conseq [OF enter_exit_drag_ok [OF s d w]])
        fix p assume "case p of (rel', s') \<Rightarrow> wm_ok lv D V xs False r s' \<and> core s' = core s \<and>
            (map_option snd ?f \<noteq> None \<longrightarrow> rel' \<noteq> None)"
        then show "case p of (rel', s') \<Rightarrow> wm_ok lv D V xs False r s' \<and> core s' = core s \<and> onDraggingAction s' \<and>
            (under s xs \<noteq> None \<longrightarrow> rel' \<noteq> None)"
          using True rel core_fields(7) [of "snd p" s] by (cases p) simp
      qed
      note e = returns_bindI [OF this]
      show ?thesis
        unfolding lens_wm_notifyEnterExitEvents_def find_exact [OF s]
        using True Some p by (auto simp: Let_def u intro!: e)
      qed
    qed
  next
    case False
    show ?thesis
      unfolding lens_wm_notifyEnterExitEvents_def find_exact [OF s]
      using False s p rel u m
      by (auto simp: Let_def intro!: enter_exit_plain_ok [THEN returns_bindI, of lv D V xs False r])
  qed
qed

lemma button_state_ok [simp]: "wm_ok lv D V xs l r s \<Longrightarrow> wm_ok lv D V xs l r (button_state pressed b s)"
  by (auto simp: button_state_def stop_drag_def intro!: wm_ok_pointers)

lemma start_drag_ok [simp]: "wm_ok lv D V xs l r s \<Longrightarrow> wm_ok lv D V xs l r (start_drag s)"
  by (auto simp: start_drag_def intro!: wm_ok_pointers)

lemma stop_drag_ok [simp]: "wm_ok lv D V xs l r s \<Longrightarrow> wm_ok lv D V xs l r (stop_drag s)"
  by (auto simp: stop_drag_def intro!: wm_ok_pointers)

lemma deliver_button_ok:
  assumes s: "wm_ok lv D V xs l r s" and w: "ptr_ok D w" "w \<noteq> None \<longrightarrow> rel \<noteq> None" and d: "drag_alive D s"
  shows "returns (deliver_button pressed b x y w rel s) (wm_ok lv D V xs l r)"
  unfolding deliver_button_def
  using s w d unfolding drag_alive_def
  by (auto intro!: ok_rules ok_rules [THEN returns_bindI] split: option.split simp: Let_def)

text \<open>
  What happens to the button decides whether the window that holds the drag is told: it is not when no button
  was down, nor when the one that was down is released, for that ends the drag before.
\<close>

definition keeps_drag :: "bool \<Rightarrow> int \<Rightarrow> lens \<Rightarrow> bool" where
  "keeps_drag pressed b s \<longleftrightarrow> mousePressedButton s \<noteq> MouseEvent_BUTTON_NONE \<and> (pressed \<or> b \<noteq> mousePressedButton s)"

lemma button_state_drag:
  "keeps_drag pressed b s \<Longrightarrow> button_state pressed b s = s"
  "\<not> keeps_drag pressed b s \<Longrightarrow> \<not> onDraggingAction (button_state pressed b s)"
  by (auto simp: keeps_drag_def button_state_def stop_drag_def)

lemma keeps_drag_core: "core s' = core s \<Longrightarrow> keeps_drag pressed b s' = keeps_drag pressed b s"
  by (simp add: keeps_drag_def core_fields [of s' s])

lemma buttonEvent_cases:
  assumes s: "wm_ok lv D V xs False r s"
  shows "if drag_alive D s \<or> \<not> keeps_drag pressed b s
    then returns (lens_wm_notifyButtonEvent pressed b x y s) (wm_ok lv D V xs False r)
    else lens_wm_notifyButtonEvent pressed b x y s = None"
proof -
  let ?s1 = "s\<lparr>mousePosX := x, mousePosY := y\<rparr>"
  have s1: "wm_ok lv D V xs False r ?s1" using s by simp
  obtain u rel s2 where e: "lens_wm_notifyEnterExitEvents ?s1 = Some (u, rel, s2)" and s2: "wm_ok lv D V xs False r s2"
      "core s2 = core ?s1" "ptr_ok D u" "u \<noteq> None \<longrightarrow> rel \<noteq> None"
    using enter_exit_ok [OF s1] by (auto simp: returns_iff)
  define s3 where "s3 = lens_wm_setMouseWindow u s2"
  have s3: "wm_ok lv D V xs False r s3" using setMouseWindow_ok [OF s2(1,3)] by (simp add: s3_def)
  have k: "drag_alive D s3 = drag_alive D s" "keeps_drag pressed b s3 = keeps_drag pressed b s"
      "onDraggingAction s3 = onDraggingAction s" "dragGrabbingWindow s3 = dragGrabbingWindow s"
    using core_fields [OF s2(2)] by (simp_all add: s3_def drag_alive_def keeps_drag_def lens_wm_setMouseWindow_def)
  have b: "lens_wm_notifyButtonEvent pressed b x y s =
      deliver_button pressed b x y u rel (button_state pressed b s3) \<bind> handleClickOrTouchEvent x y"
    by (simp add: lens_wm_notifyButtonEvent_def e s3_def)
  show ?thesis
  proof (cases "drag_alive D s \<or> \<not> keeps_drag pressed b s")
    case True
    then have "drag_alive D (button_state pressed b s3)"
      using button_state_drag [of pressed b s3] by (cases "keeps_drag pressed b s3") (auto simp: k drag_alive_def)
    from deliver_button_ok [OF button_state_ok [OF s3] s2(3,4) this]
    have "returns (lens_wm_notifyButtonEvent pressed b x y s) (wm_ok lv D V xs False r)"
      unfolding b by (rule returns_bindI) (rule handleClick_ok)
    with True show ?thesis by simp
  next
    case False
    then obtain d where "onDraggingAction s" "dragGrabbingWindow s = Some d" "d \<notin> D" "button_state pressed b s3 = s3"
      using button_state_drag(1) [of pressed b s3] k(2) by (auto simp: drag_alive_def ptr_ok_def)
    moreover have "windows s3 d = None" using \<open>d \<notin> D\<close> s3 by (auto simp: wm_ok_def)
    ultimately show ?thesis using False by (simp add: b deliver_button_def k)
  qed
qed

lemma buttonEvent_ok [ok_rules]:
  "wm_ok lv D V xs False r s \<Longrightarrow> drag_alive D s \<Longrightarrow>
     returns (lens_wm_notifyButtonEvent pressed b x y s) (wm_ok lv D V xs False r)"
  using buttonEvent_cases [of lv D V xs r s pressed b x y] by simp

lemma notify_at_ok' [ok_rules]:
  "wm_ok lv D V xs l r s \<Longrightarrow> w \<in> D \<Longrightarrow> returns (notify_at w e rel s) (wm_ok lv D V xs l r)"
  by (rule returns_conseq [OF notify_at_ok]) auto

lemma deliver_motion_ok:
  assumes s: "wm_ok lv D V xs l r s" and w: "ptr_ok D w" "w \<noteq> None \<longrightarrow> rel \<noteq> None" and d: "drag_alive D s"
  shows "returns (deliver_motion w rel s) (\<lambda>s'. wm_ok lv D V xs l r s' \<and> core s' = core s)"
  unfolding deliver_motion_def
  using s w d unfolding drag_alive_def
  by (auto intro!: notify_at_ok ok_rules [THEN returns_bindI])

lemma motionEvent_cases:
  assumes s: "wm_ok lv D V xs False r s"
  shows "if drag_alive D s then returns (lens_wm_notifyMotionEvent x y s) (\<lambda>s'. wm_ok lv D V xs False r s' \<and> drag_alive D s')
    else lens_wm_notifyMotionEvent x y s = None"
proof -
  let ?s1 = "start_drag (fbCursorSetPosition x y (s\<lparr>mousePosX := x, mousePosY := y\<rparr>))"
  have s1: "wm_ok lv D V xs False r ?s1" using s by simp
  obtain u rel s2 where e: "lens_wm_notifyEnterExitEvents ?s1 = Some (u, rel, s2)" and s2: "wm_ok lv D V xs False r s2"
      "core s2 = core ?s1" "ptr_ok D u" "u \<noteq> None \<longrightarrow> rel \<noteq> None"
    using enter_exit_ok [OF s1] by (auto simp: returns_iff)
  define s3 where "s3 = lens_wm_setMouseWindow u s2"
  have s3: "wm_ok lv D V xs False r s3" using setMouseWindow_ok [OF s2(1,3)] by (simp add: s3_def)
  have c: "onDraggingAction s3 = onDraggingAction ?s1" "dragGrabbingWindow s3 = dragGrabbingWindow ?s1"
    using core_fields [OF s2(2)] by (simp_all add: s3_def lens_wm_setMouseWindow_def)
  have "ptr_ok D (mouseWindow s)" using s by (simp add: wm_ok_def)
  then have k: "drag_alive D s3 = drag_alive D s"
    by (auto simp: drag_alive_def c start_drag_def fbCursorSetPosition_def lens_wm_getMouseWindow_def)
  have m: "lens_wm_notifyMotionEvent x y s = deliver_motion u rel s3"
    by (simp add: lens_wm_notifyMotionEvent_def e s3_def)
  show ?thesis
  proof (cases "drag_alive D s")
    case True
    with deliver_motion_ok [OF s3 s2(3,4)] k show ?thesis
      by (auto simp: m dest: drag_alive_core elim!: returns_conseq)
  next
    case False
    then obtain d where d: "onDraggingAction s3" "dragGrabbingWindow s3 = Some d" "d \<notin> D"
      unfolding k [symmetric] by (auto simp: drag_alive_def ptr_ok_def)
    moreover have "windows s3 d = None" using d(3) s3 by (auto simp: wm_ok_def)
    ultimately show ?thesis using False by (simp add: m deliver_motion_def pointer_in_def)
  qed
qed

lemma motionEvent_ok [ok_rules]:
  "wm_ok lv D V xs False r s \<Longrightarrow> drag_alive D s \<Longrightarrow>
     returns (lens_wm_notifyMotionEvent x y s) (\<lambda>s'. wm_ok lv D V xs False r s' \<and> drag_alive D s')"
  using motionEvent_cases [of lv D V xs r s x y] by simp

lemma DnD_ok [simp]:
  "wm_ok lv D V xs l r s \<Longrightarrow> wm_ok lv D V xs l r (notify_lens_wm_DnDStarted s)"
  "wm_ok lv D V xs l r s \<Longrightarrow> wm_ok lv D V xs l r (notify_lens_wm_DnDEnded s)"
  by (simp_all add: notify_lens_wm_DnDStarted_def notify_lens_wm_DnDEnded_def)

text \<open>The arrays of a touch event hold \<open>count\<close> elements and the primary point is one of them, or -1.\<close>

definition touch_args :: "nat \<Rightarrow> int list \<Rightarrow> int list \<Rightarrow> int list \<Rightarrow> int list \<Rightarrow> int \<Rightarrow> bool" where
  "touch_args count states ids xs ys primary \<longleftrightarrow> 1 \<le> count \<and> length states = count \<and> length ids = count \<and>
     length xs = count \<and> length ys = count \<and> - 1 \<le> primary \<and> primary < int count"

lemma read_at_ok [ok_rules]: "0 \<le> i \<Longrightarrow> i < int (length xs) \<Longrightarrow> returns (read_at xs i) (\<lambda>x. True)"
  by (simp add: read_at_def nat_less_iff)

lemma all_pressed_eq: "n \<le> length states \<Longrightarrow>
   all_pressed n states = Some (\<forall>x\<in>set (take n states). x = TouchEvent_TOUCH_PRESSED)"
  by (induction n states rule: all_pressed.induct) auto

lemma all_pressed_ok [ok_rules]: "n \<le> length states \<Longrightarrow> returns (all_pressed n states) (\<lambda>b. True)"
  by (simp add: all_pressed_eq)

lemma set_touch_window_ok [ok_rules]:
  assumes s: "wm_ok lv D V ws False r s" and t: "touch_args n states ids xs ys p"
  shows "returns (set_touch_window n states xs ys p s) (wm_ok lv D V ws False r)"
  unfolding set_touch_window_def find_exact [OF s]
  using s t unfolding touch_args_def
  by (auto intro!: ok_rules [THEN returns_bindI] split: option.split)

text \<open>The mouse events that a touch event is turned into tell the window that holds the drag.\<close>

definition touch_keeps_drag :: "int list \<Rightarrow> int list \<Rightarrow> int list \<Rightarrow> int \<Rightarrow> lens \<Rightarrow> bool" where
  "touch_keeps_drag states xs ys p s \<longleftrightarrow>
     (if p = - 1 then keeps_drag False MouseEvent_BUTTON_LEFT s
      else if states ! nat p = TouchEvent_TOUCH_PRESSED
      then xs ! nat p \<noteq> mousePosX s \<or> ys ! nat p \<noteq> mousePosY s \<or> keeps_drag True MouseEvent_BUTTON_LEFT s
      else states ! nat p = TouchEvent_TOUCH_MOVED)"

lemma touch_to_mouse_cases:
  assumes s: "wm_ok lv D V ws False r s" and t: "touch_args n states ids xs ys p"
  shows "if drag_alive D s \<or> \<not> touch_keeps_drag states xs ys p s
    then returns (touch_to_mouse states xs ys p s) (wm_ok lv D V ws False r)
    else touch_to_mouse states xs ys p s = None"
proof (cases "p = - 1")
  case True
  then show ?thesis using buttonEvent_cases [OF s] by (simp add: touch_to_mouse_def touch_keeps_drag_def)
next
  case False
  then have "0 \<le> p" using t by (simp add: touch_args_def)
  then have r: "read_at xs p = Some (xs ! nat p)" "read_at ys p = Some (ys ! nat p)" "read_at states p = Some (states ! nat p)"
    using t by (auto simp: touch_args_def read_at_def)
  have moved: "wm_ok lv D V ws False r (s\<lparr>mousePosX := i, mousePosY := j\<rparr>)" for i j using s by simp
  consider (pressed) "states ! nat p = TouchEvent_TOUCH_PRESSED" | (moved) "states ! nat p = TouchEvent_TOUCH_MOVED"
    | (other) "states ! nat p \<noteq> TouchEvent_TOUCH_PRESSED" "states ! nat p \<noteq> TouchEvent_TOUCH_MOVED" by blast
  then show ?thesis
  proof cases
    case pressed
    show ?thesis
    proof (cases "xs ! nat p \<noteq> mousePosX s \<or> ys ! nat p \<noteq> mousePosY s")
      case True
      then have k: "touch_keeps_drag states xs ys p s" "touch_to_mouse states xs ys p s = do {
          s \<leftarrow> lens_wm_notifyMotionEvent (xs ! nat p) (ys ! nat p) s;
          s \<leftarrow> lens_wm_notifyButtonEvent True MouseEvent_BUTTON_LEFT (xs ! nat p) (ys ! nat p) s;
          Some (fbCursorSetPosition (xs ! nat p) (ys ! nat p) s)
        }"
        using False r pressed by (auto simp: touch_to_mouse_def touch_keeps_drag_def)
      show ?thesis
      proof (cases "drag_alive D s")
        case True
        have "returns (touch_to_mouse states xs ys p s) (wm_ok lv D V ws False r)"
          unfolding k(2)
          by (rule returns_bindI [OF motionEvent_ok [OF s True]], elim conjE, rule returns_bindI [OF buttonEvent_ok])
            simp_all
        with True show ?thesis by simp
      next
        case dead: False
        then have "lens_wm_notifyMotionEvent (xs ! nat p) (ys ! nat p) s = None"
          using motionEvent_cases [OF s, of "xs ! nat p" "ys ! nat p"] by simp
        with dead k show ?thesis by simp
      qed
    next
      case same: False
      have "if drag_alive D s \<or> \<not> keeps_drag True MouseEvent_BUTTON_LEFT s
          then returns (lens_wm_notifyButtonEvent True MouseEvent_BUTTON_LEFT (xs ! nat p) (ys ! nat p) s) (wm_ok lv D V ws False r)
          else lens_wm_notifyButtonEvent True MouseEvent_BUTTON_LEFT (xs ! nat p) (ys ! nat p) s = None"
        by (rule buttonEvent_cases [OF s])
      moreover have "touch_keeps_drag states xs ys p s = keeps_drag True MouseEvent_BUTTON_LEFT s"
        "touch_to_mouse states xs ys p s = do {
          s \<leftarrow> lens_wm_notifyButtonEvent True MouseEvent_BUTTON_LEFT (xs ! nat p) (ys ! nat p) s;
          Some (fbCursorSetPosition (xs ! nat p) (ys ! nat p) s)
        }"
        using same False r pressed by (auto simp: touch_to_mouse_def touch_keeps_drag_def)
      moreover have "wm_ok lv D V ws False r s' \<Longrightarrow> wm_ok lv D V ws False r (fbCursorSetPosition i j s')" for s' i j by simp
      ultimately show ?thesis by (auto simp: returns_iff split: if_splits)
    qed
  next
    case moved
    then show ?thesis
      using motionEvent_cases [OF s, of "xs ! nat p" "ys ! nat p"] False r
      by (auto simp: touch_to_mouse_def touch_keeps_drag_def split: if_splits elim: returns_conseq)
  next
    case other
    then show ?thesis using False r s by (auto simp: touch_to_mouse_def touch_keeps_drag_def)
  qed
qed

lemma touch_to_mouse_ok:
  "wm_ok lv D V ws False r s \<Longrightarrow> touch_args n states ids xs ys p \<Longrightarrow> drag_alive D s \<Longrightarrow>
     returns (touch_to_mouse states xs ys p s) (wm_ok lv D V ws False r)"
  using touch_to_mouse_cases [of lv D V ws r s n states ids xs ys p] by simp

lemma isExist_ok [ok_rules]:
  assumes "wm_ok lv D V xs l r s"
  shows "returns (glass_window_isExist w s) (\<lambda>b. b = (w \<in> set xs))"
proof -
  have "zorder s xs" using assms unfolding wm_ok_def by blast
  from glass_window_isExist_zorder [OF this, of w] show ?thesis by (simp only: returns_Some)
qed

lemma deliver_touch_ok [ok_rules]:
  assumes s: "wm_ok lv D V ws False r s" and t: "touch_args n states ids xs ys p"
  shows "returns (deliver_touch n states ids xs ys p s) (wm_ok lv D V ws False r)"
proof -
  have "w \<in> D" if "w \<in> set ws" for w using wm_ok_mem [OF s] that by auto
  then show ?thesis
    unfolding deliver_touch_def
    using s t unfolding touch_args_def
    by (auto intro!: ok_rules [THEN returns_bindI] keep_rules split: option.split)
qed

lemma set_touch_window_eq:
  assumes s: "wm_ok lv D V ws False r s" and t: "touch_args n states ids xs ys p"
  obtains q where "set_touch_window n states xs ys p s = Some (s\<lparr>touchWindow := q\<rparr>)"
proof (cases "touchWindow s = None \<and> p \<ge> 0 \<and> \<not> onDraggingAction s")
  case True
  then have "0 \<le> p" by simp
  then obtain x y where "read_at xs p = Some x" "read_at ys p = Some y"
    using t read_at_ok [of p xs] read_at_ok [of p ys] by (auto simp: touch_args_def returns_iff)
  moreover have "n \<le> length states" using t by (simp add: touch_args_def)
  ultimately have "\<exists>q. set_touch_window n states xs ys p s = Some (s\<lparr>touchWindow := q\<rparr>)"
    using True find_exact [OF s, of x y] by (auto simp: set_touch_window_def all_pressed_eq split: option.split)
  with that show thesis by blast
next
  case False
  then have "set_touch_window n states xs ys p s = Some (s\<lparr>touchWindow := touchWindow s\<rparr>)"
    unfolding set_touch_window_def by (simp only: if_False) simp
  with that show thesis by blast
qed

lemma touch_frame [simp]:
  "drag_alive D (s\<lparr>touchWindow := q\<rparr>) = drag_alive D s"
  "touch_keeps_drag states xs ys p (s\<lparr>touchWindow := q\<rparr>) = touch_keeps_drag states xs ys p s"
  by (simp_all add: drag_alive_def touch_keeps_drag_def keeps_drag_def)

lemma multiTouchEvent_cases:
  assumes s: "wm_ok lv D V ws False r s" and t: "touch_args n states ids xs ys p"
  shows "if drag_alive D s \<or> \<not> touch_keeps_drag states xs ys p s
    then returns (lens_wm_notifyMultiTouchEvent n states ids xs ys p s) (wm_ok lv D V ws False r)
    else lens_wm_notifyMultiTouchEvent n states ids xs ys p s = None"
proof -
  obtain q where q: "set_touch_window n states xs ys p s = Some (s\<lparr>touchWindow := q\<rparr>)"
    using set_touch_window_eq [OF s t] .
  have "wm_ok lv D V ws False r (s\<lparr>touchWindow := q\<rparr>)" using s by simp
  note m = touch_to_mouse_cases [OF this t]
  have e: "lens_wm_notifyMultiTouchEvent n states ids xs ys p s =
      touch_to_mouse states xs ys p (s\<lparr>touchWindow := q\<rparr>) \<bind> deliver_touch n states ids xs ys p"
    by (simp add: lens_wm_notifyMultiTouchEvent_def q)
  show ?thesis
  proof (cases "drag_alive D s \<or> \<not> touch_keeps_drag states xs ys p s")
    case True
    then have "returns (touch_to_mouse states xs ys p (s\<lparr>touchWindow := q\<rparr>)) (wm_ok lv D V ws False r)" using m by simp
    then have "returns (lens_wm_notifyMultiTouchEvent n states ids xs ys p s) (wm_ok lv D V ws False r)"
      unfolding e by (rule returns_bindI) (rule deliver_touch_ok [OF _ t])
    with True show ?thesis by simp
  next
    case False
    then have "touch_to_mouse states xs ys p (s\<lparr>touchWindow := q\<rparr>) = None" using m by simp
    with False show ?thesis by (simp add: e)
  qed
qed

lemma multiTouchEvent_ok [ok_rules]:
  "wm_ok lv D V ws False r s \<Longrightarrow> touch_args n states ids xs ys p \<Longrightarrow> drag_alive D s \<Longrightarrow>
     returns (lens_wm_notifyMultiTouchEvent n states ids xs ys p s) (wm_ok lv D V ws False r)"
  using multiTouchEvent_cases [of lv D V ws r s n states ids xs ys p] by simp

section \<open>Which window gets which mouse event\<close>

text \<open>The mouse events in a trace: the view, the kind of event and the relative coordinates.\<close>

definition mouse_call :: "upcall \<Rightarrow> (jobject \<times> int \<times> int \<times> int) list" where
  "mouse_call c = (case c of NotifyMouseEvent (Some v) e x y _ _ _ _ _ _ \<Rightarrow> [(v, e, x, y)] | _ \<Rightarrow> [])"

definition mouse_log :: "lens \<Rightarrow> (jobject \<times> int \<times> int \<times> int) list" where
  "mouse_log s = concat (map mouse_call (trace s))"

text \<open>The Java view that receives the mouse events of a window: none for a disabled window.\<close>

definition receiver :: "lens \<Rightarrow> win \<Rightarrow> jobject option" where
  "receiver s w = do {
     win \<leftarrow> windows s w;
     v \<leftarrow> view win;
     nv \<leftarrow> views s v;
     if isEnabled win then lensView nv else None
   }"

definition sent :: "lens \<Rightarrow> win \<Rightarrow> int \<Rightarrow> int \<times> int \<Rightarrow> (jobject \<times> int \<times> int \<times> int) list" where
  "sent s w e rel = (case receiver s w of None \<Rightarrow> [] | Some v \<Rightarrow> [(v, e, fst rel, snd rel)])"

definition logs :: "(jobject \<times> int \<times> int \<times> int) list \<Rightarrow> lens \<Rightarrow> lens \<Rightarrow> bool" where
  "logs es s s' \<longleftrightarrow> core s' = core s \<and> mouse_log s' = mouse_log s @ es"

lemma logs_refl [simp]: "logs [] s s"
  by (simp add: logs_def)

lemma logs_trans: "logs a s s' \<Longrightarrow> logs b s' s'' \<Longrightarrow> logs (a @ b) s s''"
  by (simp add: logs_def)

lemma sent_core: "core s' = core s \<Longrightarrow> sent s' w e rel = sent s w e rel"
  by (simp add: sent_def receiver_def core_fields [of s' s])

lemma mouse_log_call [simp]:
  "mouse_log (call_java c s) = mouse_log s @ mouse_call c"
  "mouse_log (s\<lparr>keys := k\<rparr>) = mouse_log s"
  by (auto simp: mouse_log_def call_java_def glass_application_checkReportException_def mouse_call_def)

lemma notifyWindowEvent_log:
  "glass_application_notifyWindowEvent p e s = Some s' \<Longrightarrow> mouse_log s' = mouse_log s"
  by (auto simp: glass_application_notifyWindowEvent_def mouse_call_def split: if_splits option.splits bind_splits)

lemma notifyMenuEvent_log:
  "glass_application_notifyMenuEvent q x y x' y' k s = Some s' \<Longrightarrow> mouse_log s' = mouse_log s"
  by (auto simp: glass_application_notifyMenuEvent_def mouse_call_def split: if_splits option.splits bind_splits)

lemma notifyMouse_log:
  assumes "glass_application_notifyMouseEvent w e x y x' y' b s = Some s'" "pApplication s \<noteq> None"
  shows "logs (sent s w e (x, y)) s s'"
  using assms core_notifyMouse [OF assms(1)]
  by (auto simp: glass_application_notifyMouseEvent_def logs_def sent_def receiver_def mouse_call_def Let_def
      split: if_splits option.splits bind_splits dest!: notifyWindowEvent_log notifyMenuEvent_log)


lemma notify_at_log:
  assumes s: "wm_ok lv D V xs l r s" and w: "w \<in> D" and l: "logs es s0 s"
  shows "returns (notify_at w e rel s) (\<lambda>s'. wm_ok lv D V xs l r s' \<and> logs (es @ sent s0 w e rel) s0 s')"
proof (rule returnsE [OF notify_at_ok' [OF s w, of e rel]])
  fix s' assume s': "notify_at w e rel s = Some s'" "wm_ok lv D V xs l r s'"
  have "pApplication s \<noteq> None" using s by (simp add: wm_ok_def)
  then have "logs (sent s w e rel) s s'"
    using notifyMouse_log [of w e "fst rel" "snd rel" _ _ _ s s'] s'(1) by (simp add: notify_at_def)
  moreover have "sent s w e rel = sent s0 w e rel" using l by (intro sent_core) (simp add: logs_def)
  ultimately have "logs (es @ sent s0 w e rel) s0 s'" using logs_trans [OF l] by simp
  then show ?thesis using s' by simp
qed

definition pos_in :: "lens \<Rightarrow> win \<Rightarrow> int \<times> int" where
  "pos_in s w = relative (mousePosX s) (mousePosY s) (the (windows s w))"

lemma pos_in_core: "core s' = core s \<Longrightarrow> pos_in s' w = pos_in s w"
  by (simp add: pos_in_def core_fields [of s' s])

definition to_opt :: "(win \<Rightarrow> 'a list) \<Rightarrow> win option \<Rightarrow> 'a list" where
  "to_opt f p = (case p of None \<Rightarrow> [] | Some w \<Rightarrow> f w)"

text \<open>The enter and exit events for the window \<open>u\<close> under the pointer.\<close>

definition enter_exit_events :: "lens \<Rightarrow> win option \<Rightarrow> (jobject \<times> int \<times> int \<times> int) list" where
  "enter_exit_events s u =
     (let exit = (\<lambda>w. sent s w MouseEvent_EXIT (pos_in s w));
          enter = (\<lambda>w. sent s w MouseEvent_ENTER (pos_in s w));
          m = mouseWindow s
      in if onDraggingAction s then
           (case dragGrabbingWindow s of
              None \<Rightarrow> []
            | Some d \<Rightarrow> if u \<noteq> Some d \<and> m = Some d then exit d
                        else if u = Some d \<and> m \<noteq> Some d then enter d else [])
         else if u \<noteq> m then to_opt exit m @ to_opt enter u
         else [])"

lemma found_at_pos: "found_at (mousePosX s) (mousePosY s) s xs = map_option (\<lambda>w. (w, pos_in s w)) (under s xs)"
  by (simp add: found_at_def under_def pos_in_def)

lemma pointer_in_pos: "windows s w \<noteq> None \<Longrightarrow> pointer_in w s = Some (pos_in s w)"
  by (auto simp: pointer_in_def pos_in_def)

lemma pointer_in_valid: "wm_ok lv D V xs l r s \<Longrightarrow> w \<in> D \<Longrightarrow> pointer_in w s = Some (pos_in s w)"
proof -
  assume "wm_ok lv D V xs l r s" "w \<in> D"
  then have "w \<in> dom (windows s)" by (simp add: wm_ok_def)
  then show ?thesis by (auto intro: pointer_in_pos)
qed

lemma enter_exit_plain_log:
  assumes s: "wm_ok lv D V xs l r s" and p: "ptr_ok D lst" "ptr_ok D u"
  shows "returns (enter_exit_plain u lst (map_option (pos_in s) u) s) (\<lambda>s'. wm_ok lv D V xs l r s' \<and>
     logs (if u \<noteq> lst then to_opt (\<lambda>w. sent s w MouseEvent_EXIT (pos_in s w)) lst
             @ to_opt (\<lambda>w. sent s w MouseEvent_ENTER (pos_in s w)) u else []) s s')"
proof (cases lst)
  case None
  then show ?thesis
    using s p notify_at_log [OF s _ logs_refl]
    by (cases u) (auto simp: enter_exit_plain_def to_opt_def)
next
  case (Some w)
  then have w: "w \<in> D" using p by simp
  note exit = notify_at_log [OF s w logs_refl, of MouseEvent_EXIT "pos_in s w"]
  show ?thesis
    using Some p s exit
    by (cases u) (auto simp: enter_exit_plain_def to_opt_def pointer_in_valid [OF s w]
        intro!: returns_bindI [OF exit] notify_at_log)
qed

lemma enter_exit_drag_log:
  assumes s: "wm_ok lv D V xs l r s" and d: "d \<in> D"
  shows "returns (enter_exit_drag d u m (map_option (pos_in s) u) s) (\<lambda>(rel, s'). wm_ok lv D V xs l r s' \<and>
     logs (if u \<noteq> Some d \<and> m = Some d then sent s d MouseEvent_EXIT (pos_in s d)
           else if u = Some d \<and> m \<noteq> Some d then sent s d MouseEvent_ENTER (pos_in s d) else []) s s' \<and>
     (u = Some d \<or> m \<noteq> Some d \<longrightarrow> rel = map_option (pos_in s) u))"
proof -
  note n = notify_at_log [OF s d logs_refl]
  show ?thesis
    using s by (auto simp: enter_exit_drag_def pointer_in_valid [OF s d]
        intro!: n [THEN returns_bindI])
qed

lemma enter_exit_log:
  assumes s: "wm_ok lv D V xs False r s"
  shows "returns (lens_wm_notifyEnterExitEvents s) (\<lambda>(window, rel, s'). wm_ok lv D V xs False r s' \<and>
     window = under s xs \<and> logs (enter_exit_events s (under s xs)) s s' \<and>
     (\<not> onDraggingAction s \<or> mouseWindow s = under s xs \<longrightarrow> rel = map_option (pos_in s) (under s xs)))"
proof -
  let ?u = "under s xs" and ?rel = "map_option (pos_in s) (under s xs)"
  have f: "glass_window_findWindowAtLocation (mousePosX s) (mousePosY s) s = Some (map_option (\<lambda>w. (w, pos_in s w)) ?u, s)"
    using find_exact [OF s] by (simp add: found_at_pos)
  have m: "map_option fst (map_option (\<lambda>w. (w, pos_in s w)) ?u) = ?u"
    "map_option snd (map_option (\<lambda>w. (w, pos_in s w)) ?u) = ?rel"
    by (simp_all add: option.map_comp comp_def option.map_ident)
  have p: "ptr_ok D ?u" unfolding under_def by (rule topmost_ptr_ok [OF s])
  have mw: "ptr_ok D (mouseWindow s)" using s by (rule pointers_ok)
  note defs = lens_wm_notifyEnterExitEvents_def f bind.bind_lunit prod.case m Let_def lens_wm_getMouseWindow_def
  show ?thesis
  proof (cases "onDraggingAction s")
    case False
    have "returns (enter_exit_plain ?u (mouseWindow s) ?rel s)
        (\<lambda>s'. wm_ok lv D V xs False r s' \<and> logs (enter_exit_events s ?u) s s')"
      by (rule returns_conseq [OF enter_exit_plain_log [OF s mw p]])
         (use False in \<open>simp add: enter_exit_events_def Let_def\<close>)
    note e = returns_bindI [OF this]
    show ?thesis
      unfolding defs using False by (auto intro!: e)
  next
    case True
    show ?thesis
    proof (cases "dragGrabbingWindow s")
      case None
      with True s show ?thesis unfolding defs by (simp add: enter_exit_events_def)
    next
      case (Some d)
      show ?thesis
      proof (cases "d \<in> D")
        case dead: False
        then have "?u \<noteq> Some d" "mouseWindow s \<noteq> Some d" using p mw by auto
        then show ?thesis unfolding defs using True Some s enter_exit_drag_dead [OF dead p mw]
          by (simp add: enter_exit_events_def)
      next
      case d: True
      have "returns (enter_exit_drag d ?u (mouseWindow s) ?rel s) (\<lambda>(rel, s'). wm_ok lv D V xs False r s' \<and>
          onDraggingAction s' \<and> logs (enter_exit_events s ?u) s s' \<and> (mouseWindow s = ?u \<longrightarrow> rel = ?rel))"
      proof (rule returns_conseq [OF enter_exit_drag_log [OF s d]])
        fix p assume "case p of (rel, s') \<Rightarrow> wm_ok lv D V xs False r s' \<and>
          logs (if ?u \<noteq> Some d \<and> mouseWindow s = Some d then sent s d MouseEvent_EXIT (pos_in s d)
             else if ?u = Some d \<and> mouseWindow s \<noteq> Some d then sent s d MouseEvent_ENTER (pos_in s d) else []) s s' \<and>
          (?u = Some d \<or> mouseWindow s \<noteq> Some d \<longrightarrow> rel = ?rel)"
        then obtain rel s' where p: "p = (rel, s')" and k: "wm_ok lv D V xs False r s'"
          and l: "logs (enter_exit_events s ?u) s s'" and rel: "?u = Some d \<or> mouseWindow s \<noteq> Some d \<longrightarrow> rel = ?rel"
          using True Some by (cases p) (simp add: enter_exit_events_def Let_def)
        have "onDraggingAction s' = onDraggingAction s" using l by (intro core_fields) (simp add: logs_def)
        moreover have "mouseWindow s = ?u \<longrightarrow> rel = ?rel" using rel by metis
        ultimately show "case p of (rel, s') \<Rightarrow> wm_ok lv D V xs False r s' \<and> onDraggingAction s' \<and>
            logs (enter_exit_events s ?u) s s' \<and> (mouseWindow s = ?u \<longrightarrow> rel = ?rel)"
          using p k l True by simp
      qed
      note e = returns_bindI [OF this]
      show ?thesis
        unfolding defs using True Some by (auto intro!: e)
      qed
    qed
  qed
qed

text \<open>Focus events are no mouse events.\<close>

lemma mouse_log_focus [simp]:
  "mouse_log (s\<lparr>focusedWindow := p\<rparr>) = mouse_log s" "mouse_log (s\<lparr>grabbedWindow := p\<rparr>) = mouse_log s"
  "mouse_log (s\<lparr>mouseWindow := p\<rparr>) = mouse_log s" "mouse_log (s\<lparr>mousePressedButton := i\<rparr>) = mouse_log s"
  "mouse_log (s\<lparr>onDraggingAction := b\<rparr>) = mouse_log s" "mouse_log (s\<lparr>dragGrabbingWindow := p\<rparr>) = mouse_log s"
  "mouse_log (s\<lparr>mousePosX := i\<rparr>) = mouse_log s" "mouse_log (s\<lparr>mousePosY := i\<rparr>) = mouse_log s"
  "mouse_log (fbCursorSetPosition x y s) = mouse_log s"
  by (simp_all add: mouse_log_def fbCursorSetPosition_def mouse_call_def)

lemma ungrab_log: "glass_window_ungrabFocus p s = Some s' \<Longrightarrow> mouse_log s' = mouse_log s"
  by (auto simp: glass_window_ungrabFocus_def lens_wm_setGrabbedWindow_def split: if_splits
      dest!: notifyWindowEvent_log)

lemma setFocused_log: "lens_wm_setFocusedWindow p s = Some s' \<Longrightarrow> mouse_log s' = mouse_log s"
  by (auto simp: lens_wm_setFocusedWindow_def glass_window_setFocusedWindow_def Let_def
      split: if_splits bind_splits dest!: notifyWindowEvent_log ungrab_log)

lemma handleClick_log:
  assumes "wm_ok lv D V xs False r s"
  shows "returns (handleClickOrTouchEvent x y s) (\<lambda>s'. mouse_log s' = mouse_log s)"
proof (rule returnsE [OF handleClick_ok [OF assms, of x y]])
  fix s' assume s': "handleClickOrTouchEvent x y s = Some s'"
  have "break_grab w s1 = Some s2 \<Longrightarrow> mouse_log s2 = mouse_log s1" for w s1 s2
    by (auto simp: break_grab_def split: option.splits bind_splits if_splits dest: ungrab_log)
  moreover have "click_focus w s1 = Some s2 \<Longrightarrow> mouse_log s2 = mouse_log s1" for w s1 s2
    by (auto simp: click_focus_def split: option.splits bind_splits if_splits dest: setFocused_log)
  ultimately have "mouse_log s' = mouse_log s"
    using s' by (auto simp: handleClickOrTouchEvent_def find_exact [OF assms] split: bind_splits)
  then show ?thesis using s' by simp
qed

lemma sent_fields [simp]:
  "sent (s\<lparr>mousePosX := i\<rparr>) w e rel = sent s w e rel" "sent (s\<lparr>mousePosY := i\<rparr>) w e rel = sent s w e rel"
  "sent (s\<lparr>trace := t\<rparr>) w e rel = sent s w e rel" "sent (s\<lparr>mouseWindow := p\<rparr>) w e rel = sent s w e rel"
  "sent (s\<lparr>mousePressedButton := i\<rparr>) w e rel = sent s w e rel"
  "sent (s\<lparr>onDraggingAction := b\<rparr>) w e rel = sent s w e rel"
  "sent (s\<lparr>dragGrabbingWindow := p\<rparr>) w e rel = sent s w e rel"
  by (simp_all add: sent_def receiver_def)

text \<open>Where the point \<open>(x, y)\<close> is in a window, and the events there.\<close>

definition send_at :: "lens \<Rightarrow> int \<Rightarrow> int \<Rightarrow> int \<Rightarrow> win option \<Rightarrow> (jobject \<times> int \<times> int \<times> int) list" where
  "send_at s x y e p = to_opt (\<lambda>w. sent s w e (relative x y (the (windows s w)))) p"

definition crossing :: "lens \<Rightarrow> int \<Rightarrow> int \<Rightarrow> win option \<Rightarrow> (jobject \<times> int \<times> int \<times> int) list" where
  "crossing s x y u = (if u \<noteq> mouseWindow s
     then send_at s x y MouseEvent_EXIT (mouseWindow s) @ send_at s x y MouseEvent_ENTER u else [])"

lemma moved_state:
  fixes s x y
  defines "s1 \<equiv> fbCursorSetPosition x y (s\<lparr>mousePosX := x, mousePosY := y\<rparr>)"
  shows "pos_in s1 w = relative x y (the (windows s w))" "under s1 xs = topmost (hit x y) (windows s) xs"
    "mouse_log s1 = mouse_log s" "sent s1 w e rel = sent s w e rel" "mouseWindow s1 = mouseWindow s"
    "onDraggingAction s1 = onDraggingAction s" "dragGrabbingWindow s1 = dragGrabbingWindow s"
    "mousePressedButton s1 = mousePressedButton s" "mousePosX s1 = x" "mousePosY s1 = y"
    "isDnDStarted s1 = isDnDStarted s" "windows s1 = windows s"
  by (simp_all add: s1_def pos_in_def under_def fbCursorSetPosition_def) (simp_all add: mouse_log_def mouse_call_def)

lemma deliver_motion_log:
  assumes s: "wm_ok lv D V xs l r s" and u: "ptr_ok D u" and d: "\<not> onDraggingAction s"
  shows "returns (deliver_motion u (map_option f u) s) (\<lambda>s'. wm_ok lv D V xs l r s' \<and>
     logs (to_opt (\<lambda>w. sent s w MouseEvent_MOVE (f w)) u) s s')"
  using s u d notify_at_log [OF s _ logs_refl]
  by (cases u) (auto simp: deliver_motion_def to_opt_def)

lemma deliver_motion_drag_log:
  assumes s: "wm_ok lv D V xs l r s" and d: "onDraggingAction s" "dragGrabbingWindow s = Some d" and "d \<in> D"
  shows "returns (deliver_motion u rel s) (\<lambda>s'. wm_ok lv D V xs l r s' \<and>
     logs (sent s d MouseEvent_MOVE (pos_in s d)) s s')"
proof -
  from pointer_in_valid [OF s assms(4)] notify_at_log [OF s assms(4) logs_refl] show ?thesis
    using d by (simp add: deliver_motion_def)
qed

lemma sent_logs: "logs es s s' \<Longrightarrow> sent s' w e rel = sent s w e rel"
  by (rule sent_core) (simp add: logs_def)

lemma pos_in_logs: "logs es s s' \<Longrightarrow> pos_in s' w = pos_in s w"
  by (rule pos_in_core) (simp add: logs_def)

text \<open>
  C16: moving the pointer with no button pressed. The window under the pointer is the one closest
  to the user among the visible, enabled, not minimized ones that contain the point. When it is
  another one than before, the old one is told that the pointer left it and the new one that it
  entered; then the new one gets the move. Coordinates are relative to the window told, and no
  other window gets a mouse event.
\<close>

theorem motion_events:
  assumes "wm_ok lv D V xs False r s" and "mousePressedButton s = MouseEvent_BUTTON_NONE"
    and "\<not> onDraggingAction s" and "u = topmost (hit x y) (windows s) xs"
  shows "returns (lens_wm_notifyMotionEvent x y s) (\<lambda>s'. mouseWindow s' = u \<and>
    mousePosX s' = x \<and> mousePosY s' = y \<and> windows s' = windows s \<and>
    mouse_log s' = mouse_log s @ crossing s x y u @ send_at s x y MouseEvent_MOVE u)"
proof -
  let ?s1 = "fbCursorSetPosition x y (s\<lparr>mousePosX := x, mousePosY := y\<rparr>)"
  have s1: "wm_ok lv D V xs False r ?s1" using assms(1) by simp
  have sd: "start_drag ?s1 = ?s1" using assms(2) by (simp add: start_drag_def moved_state)
  note m = moved_state [of x y s]
  have ev: "enter_exit_events ?s1 u = crossing s x y u"
    using assms(3) by (simp add: enter_exit_events_def Let_def m crossing_def send_at_def)
  show ?thesis
    unfolding lens_wm_notifyMotionEvent_def sd
  proof (rule returns_bindI [OF enter_exit_log [OF s1]], clarify)
    fix rel s2
    assume s2: "wm_ok lv D V xs False r s2" and l: "logs (enter_exit_events ?s1 (under ?s1 xs)) ?s1 s2"
      and rel: "\<not> onDraggingAction ?s1 \<or> mouseWindow ?s1 = under ?s1 xs \<longrightarrow> rel = map_option (pos_in ?s1) (under ?s1 xs)"
    let ?s3 = "lens_wm_setMouseWindow u s2"
    have u: "under ?s1 xs = u" "ptr_ok D u" using assms(4) topmost_ptr_ok [OF assms(1)] by (simp_all add: m)
    have s3: "wm_ok lv D V xs False r ?s3" using s2 u(2) by (rule setMouseWindow_ok)
    have "core s2 = core ?s1" using l by (simp add: logs_def)
    note c = core_fields [OF this]
    have d3: "\<not> onDraggingAction ?s3" using assms(3) c m by (simp add: lens_wm_setMouseWindow_def)
    have r: "rel = map_option (pos_in ?s1) u" using rel assms(3) u m by simp
    have sent2: "sent s2 w e p = sent s w e p" for w e p
      using sent_logs [OF l] m by simp
    have l3: "mouse_log ?s3 = mouse_log s @ crossing s x y u"
      using l u m ev by (simp add: lens_wm_setMouseWindow_def logs_def)
    show "returns (deliver_motion (under ?s1 xs) rel (lens_wm_setMouseWindow (under ?s1 xs) s2))
        (\<lambda>s'. mouseWindow s' = u \<and> mousePosX s' = x \<and> mousePosY s' = y \<and> windows s' = windows s \<and>
          mouse_log s' = mouse_log s @ crossing s x y u @ send_at s x y MouseEvent_MOVE u)"
      unfolding u(1) r
    proof (rule returns_conseq [OF deliver_motion_log [OF s3 u(2) d3]])
      fix s' assume "wm_ok lv D V xs False r s' \<and>
          logs (to_opt (\<lambda>w. sent ?s3 w MouseEvent_MOVE (pos_in ?s1 w)) u) ?s3 s'"
      then have l4: "logs (to_opt (\<lambda>w. sent ?s3 w MouseEvent_MOVE (pos_in ?s1 w)) u) ?s3 s'" ..
      then have "core s' = core ?s3" by (simp add: logs_def)
      from core_fields [OF this] l4 l3 show "mouseWindow s' = u \<and> mousePosX s' = x \<and> mousePosY s' = y \<and>
          windows s' = windows s \<and> mouse_log s' = mouse_log s @ crossing s x y u @ send_at s x y MouseEvent_MOVE u"
        using c m by (simp add: lens_wm_setMouseWindow_def logs_def send_at_def sent2)
    qed
  qed
qed

lemma desk_mouse [simp]:
  "mouseWindow desk = None" "onDraggingAction desk = False" "dragGrabbingWindow desk = None"
  "mousePressedButton desk = MouseEvent_BUTTON_NONE" "mouse_log desk = []" "isDnDStarted desk = False"
  "touchWindow desk = None"
  "views desk = [11 \<mapsto> \<lparr>lensView = Some 111, parent = Some 1, view_bounds = zero_bounds\<rparr>,
     12 \<mapsto> \<lparr>lensView = Some 112, parent = Some 2, view_bounds = zero_bounds\<rparr>]"
  by (simp_all add: desk_def lens_init_def mouse_log_def)

lemma desk_hit:
  "topmost (hit x y) (windows desk) [1, 2] =
     (if 100 \<le> x \<and> x < 400 \<and> 100 \<le> y \<and> y < 400 then Some 2
      else if 0 \<le> x \<and> x < 300 \<and> 0 \<le> y \<and> y < 300 then Some 1 else None)"
  by (simp add: topmost_def hit_def desk_window_def calloc_window_def)

lemma desk_hit_2: "Some 2 = topmost (hit 150 160) (windows desk) [1, 2]"
  "Some 2 = topmost (hit 350 360) (windows desk) [1, 2]"
  by (simp_all only: desk_hit) simp_all

lemma desk_sent:
  "sent desk 1 e rel = [(111, e, fst rel, snd rel)]" "sent desk 2 e rel = [(112, e, fst rel, snd rel)]"
  "sent desk (Suc 0) e rel = [(111, e, fst rel, snd rel)]"
  by (simp_all add: sent_def receiver_def desk_window_def)

theorem motion_events_witness:
  "returns (lens_wm_notifyMotionEvent 150 160 desk) (\<lambda>s'. mouseWindow s' = Some 2 \<and>
     mouse_log s' = [(112, MouseEvent_ENTER, 50, 60), (112, MouseEvent_MOVE, 50, 60)])"
  using motion_events [OF desk_ok _ _ desk_hit_2(1)]
  by (auto elim!: returns_conseq simp: desk_hit crossing_def send_at_def to_opt_def desk_sent relative_def
      desk_window_def calloc_window_def)

text \<open>
  Moving the pointer while a drag is on. The window that holds the drag gets the move, with
  coordinates relative to it wherever the pointer is, and is told when the pointer leaves it or
  comes back; no other window gets a mouse event.
\<close>

theorem drag_motion_events:
  assumes "wm_ok lv D V xs False r s" and "onDraggingAction s" and "dragGrabbingWindow s = Some d" and "d \<in> D"
    and "u = topmost (hit x y) (windows s) xs"
  shows "returns (lens_wm_notifyMotionEvent x y s) (\<lambda>s'. mouseWindow s' = u \<and>
    onDraggingAction s' \<and> dragGrabbingWindow s' = Some d \<and> windows s' = windows s \<and>
    mouse_log s' = mouse_log s
      @ (if u \<noteq> Some d \<and> mouseWindow s = Some d then send_at s x y MouseEvent_EXIT (Some d)
         else if u = Some d \<and> mouseWindow s \<noteq> Some d then send_at s x y MouseEvent_ENTER (Some d) else [])
      @ send_at s x y MouseEvent_MOVE (Some d))"
proof -
  let ?s1 = "fbCursorSetPosition x y (s\<lparr>mousePosX := x, mousePosY := y\<rparr>)"
  let ?cross = "if u \<noteq> Some d \<and> mouseWindow s = Some d then send_at s x y MouseEvent_EXIT (Some d)
         else if u = Some d \<and> mouseWindow s \<noteq> Some d then send_at s x y MouseEvent_ENTER (Some d) else []"
  have s1: "wm_ok lv D V xs False r ?s1" using assms(1) by simp
  have sd: "start_drag ?s1 = ?s1" using assms(2) by (simp add: start_drag_def moved_state)
  note m = moved_state [of x y s]
  have ev: "enter_exit_events ?s1 u = ?cross"
    using assms(2,3) by (simp add: enter_exit_events_def Let_def m send_at_def to_opt_def)
  show ?thesis
    unfolding lens_wm_notifyMotionEvent_def sd
  proof (rule returns_bindI [OF enter_exit_log [OF s1]], clarify)
    fix rel s2
    assume s2: "wm_ok lv D V xs False r s2" and l: "logs (enter_exit_events ?s1 (under ?s1 xs)) ?s1 s2"
    let ?s3 = "lens_wm_setMouseWindow u s2"
    have u: "under ?s1 xs = u" "ptr_ok D u" using assms(5) topmost_ptr_ok [OF assms(1)] by (simp_all add: m)
    have s3: "wm_ok lv D V xs False r ?s3" using s2 u(2) by (rule setMouseWindow_ok)
    have "core s2 = core ?s1" using l by (simp add: logs_def)
    note c = core_fields [OF this]
    have d3: "onDraggingAction ?s3" "dragGrabbingWindow ?s3 = Some d"
      using assms(2,3) c m by (simp_all add: lens_wm_setMouseWindow_def)
    have sent2: "sent s2 w e p = sent s w e p" for w e p using sent_logs [OF l] m by simp
    have pos3: "pos_in ?s3 d = relative x y (the (windows s d))"
      using pos_in_logs [OF l] m by (simp add: lens_wm_setMouseWindow_def pos_in_def)
    have l3: "mouse_log ?s3 = mouse_log s @ ?cross"
      using l u m ev by (simp add: lens_wm_setMouseWindow_def logs_def)
    show "returns (deliver_motion (under ?s1 xs) rel (lens_wm_setMouseWindow (under ?s1 xs) s2))
        (\<lambda>s'. mouseWindow s' = u \<and> onDraggingAction s' \<and> dragGrabbingWindow s' = Some d \<and> windows s' = windows s \<and>
          mouse_log s' = mouse_log s @ ?cross @ send_at s x y MouseEvent_MOVE (Some d))"
      unfolding u(1)
    proof (rule returns_conseq [OF deliver_motion_drag_log [OF s3 d3 assms(4)]])
      fix s' assume "wm_ok lv D V xs False r s' \<and> logs (sent ?s3 d MouseEvent_MOVE (pos_in ?s3 d)) ?s3 s'"
      then have l4: "logs (sent ?s3 d MouseEvent_MOVE (pos_in ?s3 d)) ?s3 s'" ..
      then have "core s' = core ?s3" by (simp add: logs_def)
      from core_fields [OF this] l4 l3 d3 pos3
      show "mouseWindow s' = u \<and> onDraggingAction s' \<and> dragGrabbingWindow s' = Some d \<and> windows s' = windows s \<and>
          mouse_log s' = mouse_log s @ ?cross @ send_at s x y MouseEvent_MOVE (Some d)"
        using c m by (simp add: lens_wm_setMouseWindow_def logs_def send_at_def to_opt_def sent2)
    qed
  qed
qed

text \<open>The first window holds a drag that started in it with the left button.\<close>

definition desk_drag :: lens where
  "desk_drag = desk\<lparr>mouseWindow := Some 1, onDraggingAction := True, dragGrabbingWindow := Some 1,
     mousePressedButton := MouseEvent_BUTTON_LEFT, mousePosX := 50, mousePosY := 50\<rparr>"

lemma desk_drag_ok: "wm_ok (True, True) {1, 2} {11, 12} [1, 2] False False desk_drag"
  using desk_ok by (simp add: desk_drag_def wm_ok_def zorder_def screen_ok_def)

theorem drag_motion_events_witness:
  "returns (lens_wm_notifyMotionEvent 350 360 desk_drag) (\<lambda>s'. mouseWindow s' = Some 2 \<and>
     mouse_log s' = [(111, MouseEvent_EXIT, 350, 360), (111, MouseEvent_MOVE, 350, 360)])"
proof -
  have d: "onDraggingAction desk_drag" "dragGrabbingWindow desk_drag = Some 1" by (simp_all add: desk_drag_def)
  have "windows desk_drag = windows desk" "mouseWindow desk_drag = Some 1" "mouse_log desk_drag = []"
    "sent desk_drag = sent desk"
    by (simp_all add: desk_drag_def fun_eq_iff)
  with drag_motion_events [OF desk_drag_ok d _, of "Some 2" 350 360] desk_hit_2 show ?thesis
    by (auto elim!: returns_conseq simp: desk_hit send_at_def to_opt_def desk_sent relative_def
        desk_window_def calloc_window_def)
qed


section \<open>Button events\<close>

lemma moved_button_state:
  fixes s x y
  defines "s1 \<equiv> s\<lparr>mousePosX := x, mousePosY := y\<rparr>"
  shows "pos_in s1 w = relative x y (the (windows s w))" "under s1 xs = topmost (hit x y) (windows s) xs"
    "mouse_log s1 = mouse_log s" "sent s1 w e rel = sent s w e rel" "mouseWindow s1 = mouseWindow s"
    "onDraggingAction s1 = onDraggingAction s" "dragGrabbingWindow s1 = dragGrabbingWindow s"
    "mousePressedButton s1 = mousePressedButton s" "windows s1 = windows s"
  by (simp_all add: s1_def pos_in_def under_def)

lemma button_state_fields [simp]:
  "mouse_log (button_state p b s) = mouse_log s" "sent (button_state p b s) w e rel = sent s w e rel"
  "windows (button_state p b s) = windows s" "mouseWindow (button_state p b s) = mouseWindow s"
  "pApplication (button_state p b s) = pApplication s"
  by (auto simp: button_state_def stop_drag_def)

text \<open>
  The common part of the button properties: when no drag is on once the button state is updated,
  the window under the pointer gets the event.
\<close>

lemma button_log:
  assumes s: "wm_ok lv D V xs False r s" and u: "u = topmost (hit x y) (windows s) xs"
    and nodrag: "\<not> onDraggingAction s \<or> (mouseWindow s = u \<and> \<not> pressed \<and> b = mousePressedButton s)"
  shows "returns (lens_wm_notifyButtonEvent pressed b x y s) (\<lambda>s'. wm_ok lv D V xs False r s' \<and>
    mouse_log s' = mouse_log s @ enter_exit_events (s\<lparr>mousePosX := x, mousePosY := y\<rparr>) u
      @ send_at s x y (if pressed then MouseEvent_DOWN else MouseEvent_UP) u)"
proof -
  let ?s1 = "s\<lparr>mousePosX := x, mousePosY := y\<rparr>"
  let ?e = "if pressed then MouseEvent_DOWN else MouseEvent_UP"
  have s1: "wm_ok lv D V xs False r ?s1" using s by simp
  note m = moved_button_state [where s = s and x = x and y = y]
  show ?thesis
    unfolding lens_wm_notifyButtonEvent_def
  proof (rule returns_bindI [OF enter_exit_log [OF s1]], clarify)
    fix rel s2
    assume s2: "wm_ok lv D V xs False r s2" and l: "logs (enter_exit_events ?s1 (under ?s1 xs)) ?s1 s2"
      and rel: "\<not> onDraggingAction ?s1 \<or> mouseWindow ?s1 = under ?s1 xs \<longrightarrow> rel = map_option (pos_in ?s1) (under ?s1 xs)"
    let ?s3 = "button_state pressed b (lens_wm_setMouseWindow u s2)"
    have un: "under ?s1 xs = u" "ptr_ok D u" using u topmost_ptr_ok [OF s] by (simp_all add: m)
    have s3: "wm_ok lv D V xs False r ?s3" using s2 un(2) by (intro button_state_ok setMouseWindow_ok)
    have "core s2 = core ?s1" using l by (simp add: logs_def)
    note c = core_fields [OF this]
    have d3: "\<not> onDraggingAction ?s3"
      using nodrag c m by (auto simp: lens_wm_setMouseWindow_def button_state_def stop_drag_def)
    have r: "rel = map_option (pos_in ?s1) u" using rel nodrag un m by auto
    have sent2: "sent (lens_wm_setMouseWindow v s2) w e p = sent s w e p" for v w e p
      using sent_logs [OF l] m by (simp add: lens_wm_setMouseWindow_def)
    have l3: "mouse_log ?s3 = mouse_log s @ enter_exit_events ?s1 u"
      using l un m by (simp add: lens_wm_setMouseWindow_def logs_def)
    have "returns (deliver_button pressed b x y u rel ?s3) (\<lambda>s'. wm_ok lv D V xs False r s' \<and>
        mouse_log s' = mouse_log ?s3 @ send_at s x y ?e u)"
    proof (rule returnsE [OF deliver_button_ok [OF s3 un(2)], of rel pressed b x y])
      show "u \<noteq> None \<longrightarrow> rel \<noteq> None" using r by auto
      show "drag_alive D ?s3" using d3 by (simp add: drag_alive_def)
      fix s' assume s': "deliver_button pressed b x y u rel ?s3 = Some s'" "wm_ok lv D V xs False r s'"
      have "pApplication ?s3 \<noteq> None" using s3 by (simp add: wm_ok_def)
      then have "mouse_log s' = mouse_log ?s3 @ send_at s x y ?e u"
        using s'(1) d3 r notifyMouse_log
        by (cases u) (auto simp: deliver_button_def send_at_def to_opt_def m logs_def sent2)
      then show ?thesis using s' by simp
    qed
    then show "returns (deliver_button pressed b x y (under ?s1 xs) rel
          (button_state pressed b (lens_wm_setMouseWindow (under ?s1 xs) s2)) \<bind> handleClickOrTouchEvent x y)
        (\<lambda>s'. wm_ok lv D V xs False r s' \<and> mouse_log s' = mouse_log s @ enter_exit_events ?s1 u @ send_at s x y ?e u)"
      unfolding un
    proof (rule returns_bindI)
      fix s4 assume s4: "wm_ok lv D V xs False r s4 \<and> mouse_log s4 = mouse_log ?s3 @ send_at s x y ?e u"
      then show "returns (handleClickOrTouchEvent x y s4) (\<lambda>s'. wm_ok lv D V xs False r s' \<and>
          mouse_log s' = mouse_log s @ enter_exit_events ?s1 u @ send_at s x y ?e u)"
        using returns_conj [OF handleClick_ok [of lv D V xs r s4 x y] handleClick_log [of lv D V xs r s4 x y]] l3 by simp
    qed
  qed
qed

text \<open>
  C17: a button event while no drag is on. After the enter and exit events the move to that point
  would cause, the window under the pointer gets one press or release, with coordinates relative
  to it; no other window gets a mouse event, and outside every window nothing is sent.
\<close>

theorem button_event_goes_under_pointer:
  assumes "wm_ok lv D V xs False r s" and "\<not> onDraggingAction s" and "u = topmost (hit x y) (windows s) xs"
  shows "returns (lens_wm_notifyButtonEvent pressed b x y s) (\<lambda>s'. mouse_log s' = mouse_log s
     @ crossing s x y u @ send_at s x y (if pressed then MouseEvent_DOWN else MouseEvent_UP) u)"
proof -
  have "enter_exit_events (s\<lparr>mousePosX := x, mousePosY := y\<rparr>) u = crossing s x y u"
    using assms(2) by (simp add: enter_exit_events_def Let_def moved_button_state crossing_def send_at_def)
  with button_log [OF assms(1,3), of pressed b] assms(2) show ?thesis
    by (auto elim: returns_conseq)
qed

theorem button_event_goes_under_pointer_witness:
  "returns (lens_wm_notifyButtonEvent True MouseEvent_BUTTON_LEFT 150 160 desk) (\<lambda>s'.
     mouse_log s' = [(112, MouseEvent_ENTER, 50, 60), (112, MouseEvent_DOWN, 50, 60)])"
  using button_event_goes_under_pointer [OF desk_ok _ desk_hit_2(1), of True MouseEvent_BUTTON_LEFT]
  by (auto elim!: returns_conseq simp: crossing_def send_at_def to_opt_def desk_sent relative_def
      desk_window_def calloc_window_def)

text \<open>
  Releasing the button that holds a drag, at the place of the last motion. The release goes to
  the window under the pointer; the window that held the drag, if it is another one, is never told
  that the button is up.
\<close>

theorem drag_release_misses_drag_window:
  assumes "wm_ok lv D V xs False r s" and "onDraggingAction s" and "dragGrabbingWindow s = Some d"
    and "u = topmost (hit x y) (windows s) xs" and "mouseWindow s = u"
  shows "returns (lens_wm_notifyButtonEvent False (mousePressedButton s) x y s) (\<lambda>s'.
     mouse_log s' = mouse_log s @ send_at s x y MouseEvent_UP u)"
proof -
  have "enter_exit_events (s\<lparr>mousePosX := x, mousePosY := y\<rparr>) u = []"
    using assms(2,3,5) by (auto simp: enter_exit_events_def Let_def moved_button_state)
  with button_log [OF assms(1,4), of False "mousePressedButton s"] assms(5) show ?thesis
    by (auto elim: returns_conseq)
qed

theorem drag_release_misses_drag_window_witness:
  "returns (lens_wm_notifyButtonEvent False MouseEvent_BUTTON_LEFT 350 360 (desk_drag\<lparr>mouseWindow := Some 2\<rparr>))
     (\<lambda>s'. mouse_log s' = [(112, MouseEvent_UP, 250, 260)])"
proof -
  let ?s = "desk_drag\<lparr>mouseWindow := Some 2\<rparr>"
  have ok: "wm_ok (True, True) {1, 2} {11, 12} [1, 2] False False ?s"
    using desk_drag_ok by (rule wm_ok_pointers) simp
  have f: "onDraggingAction ?s" "dragGrabbingWindow ?s = Some 1" "mouseWindow ?s = Some 2"
    "windows ?s = windows desk" "mousePressedButton ?s = MouseEvent_BUTTON_LEFT" "mouse_log ?s = []"
    "sent desk_drag = sent desk" "windows desk_drag = windows desk"
    by (simp_all add: desk_drag_def fun_eq_iff)
  have u: "Some 2 = topmost (hit 350 360) (windows ?s) [1, 2]" using f(4) desk_hit_2(2) by simp
  from drag_release_misses_drag_window [OF ok f(1,2) u f(3)] f show ?thesis
    by (auto elim!: returns_conseq simp: send_at_def to_opt_def desk_sent relative_def
        desk_window_def calloc_window_def)
qed

text \<open>
  A release without a press is taken for a press by the button state: the next motion starts
  a drag that holds the window under the pointer, although no button is down.
\<close>

theorem stray_release_starts_drag:
  assumes "mousePressedButton s = MouseEvent_BUTTON_NONE" and "\<not> onDraggingAction s"
    and "\<not> isDnDStarted s" and "b \<noteq> MouseEvent_BUTTON_NONE"
  shows "mousePressedButton (button_state False b s) = b \<and>
    onDraggingAction (start_drag (button_state False b s)) \<and>
    dragGrabbingWindow (start_drag (button_state False b s)) = mouseWindow s"
  using assms by (simp add: button_state_def start_drag_def lens_wm_getMouseWindow_def)

theorem stray_release_starts_drag_witness:
  "onDraggingAction (start_drag (button_state False MouseEvent_BUTTON_RIGHT desk))"
  using stray_release_starts_drag [of desk MouseEvent_BUTTON_RIGHT] by simp

section \<open>Hit test, clicks and touch\<close>

lemma topmost_split:
  "topmost P W xs = Some w \<Longrightarrow> \<exists>as bs. xs = as @ w # bs \<and> P (the (W w)) \<and> (\<forall>x\<in>set bs. \<not> P (the (W x)))"
proof (induction xs rule: rev_induct)
  case Nil
  then show ?case by (simp add: topmost_def)
next
  case (snoc x xs)
  show ?case
  proof (cases "P (the (W x))")
    case True
    with snoc.prems have "xs @ [x] = xs @ w # []" "P (the (W w))" by (simp_all add: topmost_def)
    then show ?thesis by (metis empty_iff list.set(1))
  next
    case False
    with snoc.prems have "topmost P W xs = Some w" by (simp add: topmost_def)
    from snoc.IH [OF this] obtain as bs where "xs = as @ w # bs" "P (the (W w))" "\<forall>x\<in>set bs. \<not> P (the (W x))"
      by blast
    with False have "xs @ [x] = as @ w # (bs @ [x])" "\<forall>y\<in>set (bs @ [x]). \<not> P (the (W y))" by auto
    with \<open>P (the (W w))\<close> show ?thesis by blast
  qed
qed

text \<open>
  C18: the hit test finds the window closest to the user that is visible, enabled, not minimized
  and contains the point; the relative coordinates it hands out lie inside the window; it leaves
  the state, the mutex included, as it was.
\<close>

theorem hit_test_topmost:
  assumes "wm_ok lv D V xs False r s"
  shows "\<exists>f. glass_window_findWindowAtLocation x y s = Some (f, s) \<and> (case f of
     None \<Rightarrow> \<forall>w\<in>set xs. \<not> hit x y (the (windows s w))
   | Some (w, relX, relY) \<Rightarrow> \<exists>a below above. windows s w = Some a \<and> xs = below @ w # above \<and>
       hit x y a \<and> (\<forall>v\<in>set above. \<not> hit x y (the (windows s v))) \<and>
       0 \<le> relX \<and> relX < b_width (currentBounds a) \<and> 0 \<le> relY \<and> relY < b_height (currentBounds a))"
proof (cases "topmost (hit x y) (windows s) xs")
  case None
  then have "\<forall>w\<in>set xs. \<not> hit x y (the (windows s w))"
    by (auto simp: topmost_def find_None_iff)
  then show ?thesis using find_exact [OF assms, of x y] None by (simp add: found_at_def)
next
  case (Some w)
  have "w \<in> D" using topmost_mem [OF Some] wm_ok_mem [OF assms] by auto
  then obtain a where a: "windows s w = Some a" using assms by (auto simp: wm_ok_def)
  have f: "glass_window_findWindowAtLocation x y s = Some (Some (w, relative x y a), s)"
    using find_exact [OF assms, of x y] Some a by (simp add: found_at_def)
  obtain as bs where "xs = as @ w # bs" "hit x y a" "\<forall>v\<in>set bs. \<not> hit x y (the (windows s v))"
    using topmost_split [OF Some] a by auto
  then show ?thesis using a f by (auto simp: relative_def hit_def)
qed

theorem hit_test_topmost_witness:
  "\<exists>f. glass_window_findWindowAtLocation 150 160 desk = Some (f, desk)"
  using hit_test_topmost [OF desk_ok, of 150 160] by blast

definition root_of :: "lens \<Rightarrow> win \<Rightarrow> win option" where
  "root_of s w = win_root (the (windows s w))"

text \<open>
  C19: a click while a window holds the grab. Inside the tree of windows of the grab nothing
  happens; outside it the grab is released, and when the click hits a window of another tree the
  focus moves to that window, otherwise it stays.
\<close>

theorem click_outside_breaks_grab:
  assumes "wm_ok lv D V xs False r s" and "grabbedWindow s = Some g" and "u = topmost (hit x y) (windows s) xs"
  shows "returns (handleClickOrTouchEvent x y s) (\<lambda>s'.
     (if u \<noteq> None \<and> root_of s (the u) = root_of s g then s' = s
      else grabbedWindow s' = None \<and> focusedWindow s' = (if u = None then Some g else u)))"
proof -
  have foc: "focusedWindow s = Some g" using assms(1,2) by (auto simp: wm_ok_def)
  have g: "g \<in> D" using assms(1) assms(2) by (intro pointer_mem(2)) (auto simp: lens_wm_getGrabbedWindow_def)
  have f: "glass_window_findWindowAtLocation x y s = Some (found_at x y s xs, s)" "map_option fst (found_at x y s xs) = u"
    using find_exact [OF assms(1)] assms(3) by (simp_all add: found_at_def option.map_comp comp_def option.map_ident)
  have h: "handleClickOrTouchEvent x y s = break_grab u s \<bind> click_focus u"
    by (simp only: handleClickOrTouchEvent_def f bind.bind_lunit prod.case)
  have u: "ptr_ok D u" using topmost_ptr_ok [OF assms(1)] assms(3) by simp
  obtain ga where ga: "windows s g = Some ga" using assms(1) g by (auto simp: wm_ok_def)
  have app: "pApplication s \<noteq> None" using assms(1) by (simp add: wm_ok_def)
  have un: "returns (glass_window_ungrabFocus (Some g) s) (\<lambda>s1. wm_ok lv D V xs False r s1 \<and>
      focusedWindow s1 = Some g \<and> grabbedWindow s1 = None \<and> windows s1 = windows s)"
    using ungrabFocus_ok [OF assms(1), of "Some g"] g app ga assms(2) foc
    by (simp add: glass_window_ungrabFocus_def lens_wm_getGrabbedWindow_def lens_wm_setGrabbedWindow_def
        notifyWindowEvent_eq)
  show ?thesis
  proof (cases u)
    case None
    then show ?thesis
      using un by (auto simp: h break_grab_def click_focus_def [abs_def] assms(2)
          lens_wm_getGrabbedWindow_def elim!: returns_conseq)
  next
    case (Some w)
    then obtain wa where wa: "windows s w = Some wa" using assms(1) u by (auto simp: wm_ok_def)
    show ?thesis
    proof (cases "win_root wa = win_root ga")
      case True
      then show ?thesis using Some wa ga foc assms(2)
        by (simp add: h break_grab_def click_focus_def root_of_def
            lens_wm_getGrabbedWindow_def glass_window_getFocusedWindow_def)
    next
      case False
      have "returns (glass_window_ungrabFocus (Some g) s \<bind> click_focus (Some w))
          (\<lambda>s'. grabbedWindow s' = None \<and> focusedWindow s' = Some w)"
      proof (rule returns_bindI [OF un])
        fix s1 assume s1: "wm_ok lv D V xs False r s1 \<and> focusedWindow s1 = Some g \<and> grabbedWindow s1 = None \<and>
            windows s1 = windows s"
        then show "returns (click_focus (Some w) s1) (\<lambda>s'. grabbedWindow s' = None \<and> focusedWindow s' = Some w)"
          using setFocusedWindow_returns [of lv D V xs False r s1 "Some w"] u Some False wa ga
          by (auto simp: click_focus_def glass_window_getFocusedWindow_def elim!: returns_conseq)
      qed
      then show ?thesis using Some wa ga False assms(2)
        by (simp add: h break_grab_def root_of_def lens_wm_getGrabbedWindow_def)
    qed
  qed
qed

theorem click_outside_breaks_grab_witness:
  "returns (handleClickOrTouchEvent 150 160 desk) (\<lambda>s'. grabbedWindow s' = None \<and> focusedWindow s' = Some 2)"
  using click_outside_breaks_grab [OF desk_ok _ desk_hit_2(1), of 1]
  by (auto elim!: returns_conseq simp: root_of_def desk_window_def calloc_window_def)

section \<open>The touch window\<close>

text \<open>The touch events in a trace, and all that a device other than a touch screen leaves alone of touch.\<close>

definition touch_call :: "upcall \<Rightarrow> bool" where
  "touch_call c = (case c of NotifyTouchEvent _ _ _ _ _ _ _ \<Rightarrow> True | NotifyMultiTouchEvent _ _ _ _ _ _ _ \<Rightarrow> True | _ \<Rightarrow> False)"

definition touch_log :: "lens \<Rightarrow> upcall list" where
  "touch_log s = filter touch_call (trace s)"

definition touch_state :: "lens \<Rightarrow> win option \<times> upcall list" where
  "touch_state s = (touchWindow s, touch_log s)"

named_theorems touch_frames

lemma touch_call [simp]:
  "touch_state (call_java c s) = (touchWindow s, touch_log s @ (if touch_call c then [c] else []))"
  "touch_log (call_java c s) = touch_log s @ (if touch_call c then [c] else [])"
  "touchWindow (call_java c s) = touchWindow s" "touch_log (s\<lparr>trace := trace s' @ [c]\<rparr>) = touch_log s' @ (if touch_call c then [c] else [])"
  "touch_log (s\<lparr>keys := k\<rparr>) = touch_log s"
  by (auto simp: touch_state_def touch_log_def call_java_def glass_application_checkReportException_def touch_call_def)

lemma touch_updates [simp]:
  "touch_state (s\<lparr>keys := k\<rparr>) = touch_state s" "touch_state (s\<lparr>windowListLocked := l\<rparr>) = touch_state s"
  "touch_state (s\<lparr>mousePosX := i\<rparr>) = touch_state s" "touch_state (s\<lparr>mousePosY := i\<rparr>) = touch_state s"
  "touch_state (s\<lparr>focusedWindow := p\<rparr>) = touch_state s" "touch_state (s\<lparr>grabbedWindow := p\<rparr>) = touch_state s"
  "touch_state (start_drag s) = touch_state s" "touch_state (button_state b i s) = touch_state s"
  "touch_state (stop_drag s) = touch_state s" "touch_state (fbCursorSetPosition i j s) = touch_state s"
  "touch_state (lens_wm_setMouseWindow p s) = touch_state s" "touch_state (glass_window_list_unlock s) = touch_state s"
  by (simp_all add: touch_state_def touch_log_def start_drag_def button_state_def stop_drag_def fbCursorSetPosition_def
      lens_wm_setMouseWindow_def glass_window_list_unlock_def touch_call_def)

lemma touch_notify [touch_frames]:
  "glass_application_notifyWindowEvent p e s = Some s' \<Longrightarrow> touch_state s' = touch_state s"
  "glass_application_notifyMenuEvent q x y x' y' k s = Some s' \<Longrightarrow> touch_state s' = touch_state s"
  by (auto simp: glass_application_notifyWindowEvent_def glass_application_notifyMenuEvent_def touch_call_def
      touch_state_def split: if_splits option.splits bind_splits)

lemma touch_notifyMouse [touch_frames]:
  "glass_application_notifyMouseEvent w e x y x' y' b s = Some s' \<Longrightarrow> touch_state s' = touch_state s"
  by (auto simp: glass_application_notifyMouseEvent_def Let_def touch_call_def
      split: if_splits option.splits bind_splits dest!: touch_notify) (simp_all add: touch_state_def)

lemma touch_keys [touch_frames]:
  "glass_application_notifyKeyEvent p e k rep s = Some s' \<Longrightarrow> touch_state s' = touch_state s"
  "glass_application_notifyScrollEvent w x y x' y' dx dy s = Some s' \<Longrightarrow> touch_state s' = touch_state s"
  by (auto simp: glass_application_notifyKeyEvent_def glass_application_notifyScrollEvent_def Let_def touch_call_def
      split: if_splits option.splits bind_splits) (simp_all add: touch_state_def)

lemma touch_find [touch_frames]: "glass_window_findWindowAtLocation x y s = Some (f, s') \<Longrightarrow> touch_state s' = touch_state s"
  by (auto simp: glass_window_findWindowAtLocation_def glass_window_list_lock_def split: bind_splits option.splits if_splits)

lemma touch_notify_at [touch_frames]: "notify_at w e rel s = Some s' \<Longrightarrow> touch_state s' = touch_state s"
  by (simp add: notify_at_def touch_notifyMouse)

lemma touch_enter_exit_parts [touch_frames]:
  "enter_exit_drag d u m rel s = Some (rel', s') \<Longrightarrow> touch_state s' = touch_state s"
  "enter_exit_plain u m rel s = Some s' \<Longrightarrow> touch_state s' = touch_state s"
  by (auto simp: enter_exit_drag_def enter_exit_plain_def split: bind_splits if_splits option.splits dest!: touch_notify_at)

lemma touch_enter_exit [touch_frames]: "lens_wm_notifyEnterExitEvents s = Some (u, rel, s') \<Longrightarrow> touch_state s' = touch_state s"
  by (auto simp: lens_wm_notifyEnterExitEvents_def Let_def split: bind_splits if_splits option.splits
      dest!: touch_find touch_enter_exit_parts)

lemma touch_motion [touch_frames]: "lens_wm_notifyMotionEvent x y s = Some s' \<Longrightarrow> touch_state s' = touch_state s"
  by (auto simp: lens_wm_notifyMotionEvent_def deliver_motion_def split: bind_splits if_splits
      dest!: touch_enter_exit touch_notify_at)

lemma touch_ungrab [touch_frames]: "glass_window_ungrabFocus p s = Some s' \<Longrightarrow> touch_state s' = touch_state s"
  by (auto simp: glass_window_ungrabFocus_def lens_wm_setGrabbedWindow_def split: if_splits dest!: touch_notify)

lemma touch_setFocused [touch_frames]: "lens_wm_setFocusedWindow p s = Some s' \<Longrightarrow> touch_state s' = touch_state s"
  by (auto simp: lens_wm_setFocusedWindow_def glass_window_setFocusedWindow_def Let_def
      split: if_splits bind_splits dest!: touch_notify touch_ungrab)

lemma touch_click [touch_frames]: "handleClickOrTouchEvent x y s = Some s' \<Longrightarrow> touch_state s' = touch_state s"
  by (auto simp: handleClickOrTouchEvent_def break_grab_def click_focus_def split: bind_splits if_splits option.splits
      dest!: touch_find touch_ungrab touch_setFocused)

lemma touch_deliver_button [touch_frames]: "deliver_button p b x y u rel s = Some s' \<Longrightarrow> touch_state s' = touch_state s"
  by (auto simp: deliver_button_def Let_def split: bind_splits if_splits option.splits dest!: touch_notifyMouse)

lemma touch_button [touch_frames]: "lens_wm_notifyButtonEvent p b x y s = Some s' \<Longrightarrow> touch_state s' = touch_state s"
  by (auto simp: lens_wm_notifyButtonEvent_def split: bind_splits dest!: touch_enter_exit touch_deliver_button touch_click)

lemma touch_scroll [touch_frames]: "lens_wm_notifyScrollEvent x y n s = Some s' \<Longrightarrow> touch_state s' = touch_state s"
  by (auto simp: lens_wm_notifyScrollEvent_def split: bind_splits option.splits dest!: touch_find touch_keys)

lemma touch_to_mouse_touch [touch_frames]: "touch_to_mouse st xs ys p s = Some s' \<Longrightarrow> touch_state s' = touch_state s"
  by (auto simp: touch_to_mouse_def split: bind_splits if_splits dest!: touch_motion touch_button)

text \<open>
  A touch event while the touch window is one that is not in the list: it is turned into mouse events, and that is all.
\<close>

lemma stale_touch_step:
  assumes "wm_ok lv D V ws False r s" and "touchWindow s = Some w" and "w \<notin> set ws"
    and "touch_args n states ids xs ys p" and "drag_alive D s"
  shows "returns (lens_wm_notifyMultiTouchEvent n states ids xs ys p s) (\<lambda>s'. touch_state s' = touch_state s)"
proof -
  obtain s1 where s1: "touch_to_mouse states xs ys p s = Some s1" "wm_ok lv D V ws False r s1"
    using touch_to_mouse_ok [OF assms(1,4,5)] by (auto simp: returns_iff)
  have t1: "touch_state s1 = touch_state s" using touch_to_mouse_touch [OF s1(1)] .
  have "wm_ok lv D V ws True r (s1\<lparr>windowListLocked := True\<rparr>)"
    using lock_ok(1) [OF s1(2)] list_lock_eq(1) [OF s1(2)] by simp
  from isExist_ok [OF this, of w] have e: "glass_window_isExist w (s1\<lparr>windowListLocked := True\<rparr>) = Some False"
    using assms(3) by (auto simp: returns_iff)
  have "touchWindow s1 = Some w" using t1 assms(2) by (simp add: touch_state_def)
  then have "deliver_touch n states ids xs ys p s1 = Some s1"
    using e list_lock_eq [OF s1(2)] by (simp add: deliver_touch_def)
  then show ?thesis
    using assms(2) s1 t1 by (simp add: lens_wm_notifyMultiTouchEvent_def set_touch_window_def)
qed

end
