(* ===== verification/LensWindow.thy ===== *)
theory LensWindow
  imports LensMouse
begin

text \<open>
  \<open>LensWindow.c\<close>: creating and releasing windows, and the native methods of \<open>LensWindow.java\<close>. A
  null window handle raises a Java exception and does nothing else. The addresses that \<open>calloc\<close>
  hands out and the global references of JNI are arguments, \<open>None\<close> when the call fails.
\<close>

section \<open>Releasing a window\<close>

partial_function (option) owned_loop :: "(win \<rightharpoonup> NativeWindow) \<Rightarrow> win \<Rightarrow> win option \<Rightarrow> win list option" where
  "owned_loop h window w = (case w of
       None \<Rightarrow> Some []
     | Some x \<Rightarrow> do {
         win \<leftarrow> h x;
         rest \<leftarrow> owned_loop h window (nextWindow win);
         Some (if owner win = Some window then x # rest else rest)
       })"

fun send_close :: "win list \<Rightarrow> lens \<Rightarrow> lens option" where
  "send_close [] s = Some s"
| "send_close (w # ws) s = do {
     s \<leftarrow> glass_application_notifyWindowEvent (Some w) WindowEvent_CLOSE s;
     send_close ws s
   }"

definition LENS_STATIC_WINDOWS_LIST_SIZE :: int where
  "LENS_STATIC_WINDOWS_LIST_SIZE = 4"

text \<open>
  The windows owned by the one that closes are collected under the lock into an array of four, or
  of the size of the list when that is more; writing past its end is undefined.
\<close>

definition close_owned :: "win \<Rightarrow> lens \<Rightarrow> lens option" where
  "close_owned window s = do {
     s \<leftarrow> glass_window_list_lock s;
     ws \<leftarrow> owned_loop (windows s) window (glass_window_list_getHead s);
     let capacity = max LENS_STATIC_WINDOWS_LIST_SIZE (glass_window_list_getSize s);
         s = glass_window_list_unlock s
     in if int (length ws) > capacity then None else send_close ws s
   }"

definition free_window :: "win \<Rightarrow> lens \<Rightarrow> lens option" where
  "free_window w s = (if windows s w = None then None else Some (s\<lparr>windows := (windows s)(w := None)\<rparr>))"

text \<open>
  The result for a window that still has a view is \<open>JNI_FALSE\<close>, which as a \<open>LensResult\<close> is
  \<open>LENS_OK\<close>: the caller cannot tell that the window was not released.
\<close>

definition glass_window_NativeWindow_release :: "win \<Rightarrow> lens \<Rightarrow> (LensResult \<times> lens) option" where
  "glass_window_NativeWindow_release window s = do {
     s \<leftarrow> close_owned window s;
     s \<leftarrow> glass_window_list_remove (Some window) s;
     s \<leftarrow> update_window window (\<lambda>x. x\<lparr>processEvents := False\<rparr>) s;
     (_, s) \<leftarrow> lens_wm_notifyPlatformWindowRelease window s;
     let (_, s) = glass_window_PlatformWindowRelease window s
     in do {
       win \<leftarrow> windows s window;
       if view win \<noteq> None then Some (LENS_OK, s)
       else do {
         s \<leftarrow> glass_application_notifyWindowEvent (Some window) WindowEvent_DESTROY s;
         s \<leftarrow> free_window window s;
         Some (LENS_OK, s)
       }
     }
   }"

section \<open>Creating a window\<close>

definition new_window :: "win \<Rightarrow> jobject \<Rightarrow> win option \<Rightarrow> win option \<Rightarrow> int \<Rightarrow> int \<Rightarrow> NativeWindow" where
  "new_window w gref own rt nativeScreen createMask = calloc_window
     \<lparr>currentBounds := zero_bounds\<lparr>b_width := 1, b_height := 1\<rparr>, lensWindow := Some gref,
      owner := own, screen := nativeScreen, creationMask := createMask, isFocusable := True,
      isVisible := False, isEnabled := True, win_state := NWS_NORMAL, view := None, alpha := 1,
      previousWindow := None, nextWindow := None, win_root := rt\<rparr>"

text \<open>
  Without memory or without the global reference the code releases the window it could not
  create: with a null pointer that dereferences it; otherwise the release frees the window and
  the code frees it again.
\<close>

definition glass_create_native_window ::
    "win option \<Rightarrow> jobject option \<Rightarrow> win option \<Rightarrow> int \<Rightarrow> int \<Rightarrow> lens \<Rightarrow> (win option \<times> lens) option" where
  "glass_create_native_window addr gref own nativeScreen createMask s = do {
     w \<leftarrow> addr;
     case gref of
       None \<Rightarrow> do {
         (_, s) \<leftarrow> glass_window_NativeWindow_release w
            (s\<lparr>windows := (windows s)(w \<mapsto> calloc_window
                 \<lparr>currentBounds := zero_bounds\<lparr>b_width := 1, b_height := 1\<rparr>\<rparr>)\<rparr>);
         s \<leftarrow> free_window w s;
         Some (None, s)
       }
     | Some j \<Rightarrow> do {
         rt \<leftarrow> (case own of
                     None \<Rightarrow> Some (Some w)
                   | Some p \<Rightarrow> do { ow \<leftarrow> windows s p; Some (win_root ow) });
         s \<leftarrow> Some (s\<lparr>windows := (windows s)(w \<mapsto> new_window w j own rt nativeScreen createMask)\<rparr>);
         (_, s) \<leftarrow> glass_window_PlatformWindowData_create w s;
         s \<leftarrow> glass_window_list_add (Some w) s;
         Some (Some w, s)
       }
   }"

definition LensWindow_createChildWindow ::
    "win option \<Rightarrow> jobject option \<Rightarrow> win option \<Rightarrow> lens \<Rightarrow> (win option \<times> lens) option" where
  "LensWindow_createChildWindow addr gref own s =
     (case own of
        None \<Rightarrow> Some (None, s)
      | Some p \<Rightarrow> do {
          ow \<leftarrow> windows s p;
          glass_create_native_window addr gref own (screen ow) 0 s
        })"

definition LensWindow_createWindow ::
    "win option \<Rightarrow> jobject option \<Rightarrow> win option \<Rightarrow> int \<Rightarrow> int \<Rightarrow> lens \<Rightarrow> (win option \<times> lens) option" where
  "LensWindow_createWindow addr gref own nativeScreen createMask s =
     glass_create_native_window addr gref own nativeScreen createMask s"

section \<open>The native methods\<close>

text \<open>The test every native method makes of the window handle.\<close>

definition with_window :: "'a \<Rightarrow> (win \<Rightarrow> lens \<Rightarrow> ('a \<times> lens) option) \<Rightarrow> win option \<Rightarrow> lens \<Rightarrow> ('a \<times> lens) option" where
  "with_window failed f window s =
     (case window of
        None \<Rightarrow> Some (failed, glass_throw_exception_by_name glass_NullPointerException ''Window handle is null'' s)
      | Some w \<Rightarrow> f w s)"

text \<open>A native method without a result.\<close>

definition no_result :: "('s \<Rightarrow> 's option) \<Rightarrow> 's \<Rightarrow> (unit \<times> 's) option" where
  "no_result f s = do { s \<leftarrow> f s; Some ((), s) }"

definition LensWindow_attachViewToWindow :: "win option \<Rightarrow> viewp option \<Rightarrow> lens \<Rightarrow> (bool \<times> lens) option" where
  "LensWindow_attachViewToWindow window v = with_window False (\<lambda>w s. do {
     s \<leftarrow> update_window w (\<lambda>x. x\<lparr>view := v\<rparr>) s;
     Some (True, s)
   }) window"

definition LensWindow_close :: "win option \<Rightarrow> lens \<Rightarrow> (bool \<times> lens) option" where
  "LensWindow_close = with_window False (\<lambda>w s. do {
     (res, s) \<leftarrow> glass_window_NativeWindow_release w s;
     Some (res = LENS_OK, s)
   })"

definition LensWindow_minimize :: "bool \<Rightarrow> win option \<Rightarrow> lens \<Rightarrow> (bool \<times> lens) option" where
  "LensWindow_minimize minimize = with_window False (\<lambda>w. glass_window_minimize w minimize)"

definition LensWindow_maximize :: "bool \<Rightarrow> bool \<Rightarrow> win option \<Rightarrow> lens \<Rightarrow> (bool \<times> lens) option" where
  "LensWindow_maximize maximize wasMaximized =
     with_window False (\<lambda>w. glass_window_maximize w maximize wasMaximized)"

definition LensWindow_setBoundsImpl ::
    "int \<Rightarrow> int \<Rightarrow> int \<Rightarrow> int \<Rightarrow> bool \<Rightarrow> bool \<Rightarrow> bool \<Rightarrow> win option \<Rightarrow> lens \<Rightarrow> (unit \<times> lens) option" where
  "LensWindow_setBoundsImpl x y width height needToUpdatePostion needToUpdateSize isContentSize =
     with_window () (\<lambda>w. no_result (glass_window_setBoundsImpl w x y width height
        needToUpdatePostion needToUpdateSize isContentSize))"

definition LensWindow_setVisible :: "bool \<Rightarrow> win option \<Rightarrow> lens \<Rightarrow> (bool \<times> lens) option" where
  "LensWindow_setVisible visible = with_window False (\<lambda>w. glass_window_setVisible w visible)"

definition LensWindow_requestFocus :: "int \<Rightarrow> win option \<Rightarrow> lens \<Rightarrow> (bool \<times> lens) option" where
  "LensWindow_requestFocus focusEventType =
     with_window False (\<lambda>w. glass_window_requestFocus (Some w) focusEventType)"

definition LensWindow_setFocusable :: "bool \<Rightarrow> win option \<Rightarrow> lens \<Rightarrow> (unit \<times> lens) option" where
  "LensWindow_setFocusable focusable = with_window () (\<lambda>w s. do {
     (_, s) \<leftarrow> glass_window_setFocusable w focusable s;
     Some ((), s)
   })"

definition LensWindow_setLevel :: "int \<Rightarrow> win option \<Rightarrow> lens \<Rightarrow> (unit \<times> lens) option" where
  "LensWindow_setLevel level = with_window () (\<lambda>w s.
     Some ((), if glass_window_setLevel w level then s
               else glass_throw_exception_by_name glass_RuntimeException ''setLevel failed'' s))"

definition LensWindow_setAlpha :: "rat \<Rightarrow> win option \<Rightarrow> lens \<Rightarrow> (unit \<times> lens) option" where
  "LensWindow_setAlpha a = with_window () (\<lambda>w s. do {
     (_, s) \<leftarrow> glass_window_setAlpha w a s;
     Some ((), s)
   })"

definition LensWindow_setBackground :: "rat \<Rightarrow> rat \<Rightarrow> rat \<Rightarrow> win option \<Rightarrow> lens \<Rightarrow> (bool \<times> lens) option" where
  "LensWindow_setBackground r g b =
     with_window False (\<lambda>w s. Some (glass_window_setBackground w r g b, s))"

definition LensWindow_setEnabled :: "bool \<Rightarrow> win option \<Rightarrow> lens \<Rightarrow> (unit \<times> lens) option" where
  "LensWindow_setEnabled enabled = with_window () (\<lambda>w s. do {
     (_, s) \<leftarrow> glass_window_setFocusable w enabled s;
     win \<leftarrow> windows s w;
     s \<leftarrow> (if \<not> enabled \<and> view win \<noteq> None \<and> Some w = lens_wm_getMouseWindow s
            then glass_application_notifyMouseEvent w MouseEvent_EXIT 0 0 0 0 MouseEvent_BUTTON_NONE s
            else Some s);
     s \<leftarrow> update_window w (\<lambda>x. x\<lparr>isEnabled := enabled\<rparr>) s;
     Some ((), s)
   })"

definition LensWindow_setMinimumSize :: "int \<Rightarrow> int \<Rightarrow> win option \<Rightarrow> lens \<Rightarrow> (bool \<times> lens) option" where
  "LensWindow_setMinimumSize width height =
     with_window False (\<lambda>w. glass_window_setMinimumSize w width height)"

definition LensWindow_setMaximumSize :: "int \<Rightarrow> int \<Rightarrow> win option \<Rightarrow> lens \<Rightarrow> (bool \<times> lens) option" where
  "LensWindow_setMaximumSize width height =
     with_window False (\<lambda>w. glass_window_setMaximumSize w width height)"

definition LensWindow_toFrontImpl :: "win option \<Rightarrow> lens \<Rightarrow> (unit \<times> lens) option" where
  "LensWindow_toFrontImpl = with_window () (\<lambda>w. no_result (glass_window_toFront w))"

definition LensWindow_toBackImpl :: "win option \<Rightarrow> lens \<Rightarrow> (unit \<times> lens) option" where
  "LensWindow_toBackImpl = with_window () (\<lambda>w. no_result (glass_window_toBack w))"

definition LensWindow_grabFocus :: "win option \<Rightarrow> lens \<Rightarrow> (bool \<times> lens) option" where
  "LensWindow_grabFocus = with_window False (\<lambda>w s. Some (glass_window_grabFocus w s))"

definition LensWindow_ungrabFocus :: "win option \<Rightarrow> lens \<Rightarrow> (unit \<times> lens) option" where
  "LensWindow_ungrabFocus = with_window () (\<lambda>w. no_result (glass_window_ungrabFocus (Some w)))"

text \<open>Not supported by the undecorated windows of Lens: success, and nothing else.\<close>

definition LensWindow_setMenubar :: bool where
  "LensWindow_setMenubar = True"

definition LensWindow_setResizable :: bool where
  "LensWindow_setResizable = True"

definition LensWindow_setTitle :: bool where
  "LensWindow_setTitle = True"


section \<open>Releasing keeps the invariant\<close>

text \<open>The windows of the list that a window owns, in the order of the list.\<close>

definition owned :: "lens \<Rightarrow> win \<Rightarrow> win list \<Rightarrow> win list" where
  "owned s w xs = filter (\<lambda>x. map_option owner (windows s x) = Some (Some w)) xs"

lemma owned_loop_dseg:
  "dseg h p xs None \<Longrightarrow>
     owned_loop h w (first_opt xs) = Some (filter (\<lambda>x. map_option owner (h x) = Some (Some w)) xs)"
  by (induction xs arbitrary: p) (auto simp: owned_loop.simps)

lemma send_close_exact:
  assumes "pApplication s \<noteq> None" "set ws \<subseteq> dom (windows s)"
  shows "send_close ws s = Some (fold call_java (map (\<lambda>x. NotifyWindowEvent (jwindow s x) WindowEvent_CLOSE) ws) s)"
  using assms
proof (induction ws arbitrary: s)
  case (Cons w ws)
  then have "windows s w \<noteq> None" by auto
  with Cons show ?case by (simp add: notifyWindowEvent_eq)
qed simp

lemma close_owned_exact:
  assumes s: "wm_ok lv D V xs False r s"
  shows "close_owned w s =
     Some (fold call_java (map (\<lambda>x. NotifyWindowEvent (jwindow s x) WindowEvent_CLOSE) (owned s w xs)) s)"
proof -
  have z: "dseg (windows s) None xs None" "windowList_head s = first_opt xs" "windowList_size s = int (length xs)"
    and l: "\<not> windowListLocked s"
    using s by (auto simp: wm_ok_def zorder_def)
  have "set (owned s w xs) \<subseteq> dom (windows s)"
    using wm_ok_mem [OF s] s by (auto simp: owned_def wm_ok_def)
  moreover have "length (owned s w xs) \<le> length xs" by (simp add: owned_def)
  moreover have "pApplication s \<noteq> None" using s by (simp add: wm_ok_def)
  ultimately show ?thesis
    using owned_loop_dseg [OF z(1), of w] l z send_close_exact [of s "owned s w xs"]
    by (simp add: close_owned_def list_lock_eq [OF s] glass_window_list_getHead_def
        glass_window_list_getSize_def owned_def Let_def glass_window_list_unlock_def
        not_less length_filter_le)
qed

lemma remove_ok:
  assumes s: "wm_ok lv D V xs False r s"
  shows "returns (glass_window_list_remove (Some w) s)
     (\<lambda>s'. wm_ok lv D V (remove1 w xs) False r s' \<and> list_frame s s')"
  by (rule returns_conseq [OF remove_refines [OF wm_ok_zlist [OF s], of w]])
     (auto intro: list_frame_ok [OF s])

lemma list_frame_fields:
  assumes "list_frame s s'"
  shows "trace s' = trace s" "focusedWindow s' = focusedWindow s" "grabbedWindow s' = grabbedWindow s"
    "mouseWindow s' = mouseWindow s" "dragGrabbingWindow s' = dragGrabbingWindow s" "views s' = views s"
    "throws s' = throws s" "pApplication s' = pApplication s" "onDraggingAction s' = onDraggingAction s"
  using assms by (auto simp: list_frame_def elim!: ssubst)

lemma list_frame_window:
  assumes "list_frame s s'" "windows s' w = Some y"
  obtains x where "windows s w = Some x" "nolinks y = nolinks x"
proof -
  have "map_option nolinks (windows s' w) = map_option nolinks (windows s w)"
    using assms(1) by (simp add: list_frame_def same_windows_def)
  with assms(2) that show thesis by (cases "windows s w") auto
qed

text \<open>The calls of \<open>notifyWindowEvent\<close>: the life of the windows, as Java sees it.\<close>

definition window_call :: "upcall \<Rightarrow> bool" where
  "window_call c = (case c of NotifyWindowEvent j e \<Rightarrow> True | _ \<Rightarrow> False)"

definition window_log :: "lens \<Rightarrow> upcall list" where
  "window_log s = filter window_call (trace s)"

lemma window_log_call [simp]:
  "window_log (call_java c s) = window_log s @ (if window_call c then [c] else [])"
  by (auto simp: window_log_def call_java_def glass_application_checkReportException_def window_call_def)

lemma window_log_fold:
  "window_log (fold call_java (map (\<lambda>x. NotifyWindowEvent (f x) e) ws) s) =
     window_log s @ map (\<lambda>x. NotifyWindowEvent (f x) e) ws"
  by (induction ws arbitrary: s) (auto simp: window_call_def)

lemma window_log_fields [simp]:
  "window_log (s\<lparr>windows := h\<rparr>) = window_log s" "window_log (s\<lparr>mainScreen := m\<rparr>) = window_log s"
  "window_log (s\<lparr>renderLocked := b\<rparr>) = window_log s" "window_log (s\<lparr>windowListLocked := b\<rparr>) = window_log s"
  "window_log (forget_window w s) = window_log s"
  by (simp_all add: window_log_def forget_window_def Let_def lens_wm_setMouseWindow_def
      lens_wm_setGrabbedWindow_def glass_window_setFocusedWindow_def)

lemma window_log_repaint: "lens_wm_repaint p s = Some s' \<Longrightarrow> window_log s' = window_log s"
  by (auto simp: lens_wm_repaint_def lens_wm_clearScreen_def glass_screen_clear_def clear_background_def
      notify_repaint_def glass_application_notifyViewEvent_def render_lock_def render_unlock_def window_call_def
      split: bind_splits option.splits if_splits)

lemma window_log_release:
  "lens_wm_notifyPlatformWindowRelease w s = Some (r, s') \<Longrightarrow> window_log s' = window_log s"
  by (auto simp: lens_wm_notifyPlatformWindowRelease_def glass_window_list_lock_def glass_window_list_unlock_def
      split: bind_splits option.splits if_splits dest!: window_log_repaint)

text \<open>
  The focus, the grab and the mouse window are forgotten before a window is freed. The window that holds
  a drag, and the parents of views, still are allocated afterwards unless they are that very window.
\<close>

definition alive_after :: "win \<Rightarrow> lens \<Rightarrow> bool \<times> bool \<Rightarrow> bool \<times> bool" where
  "alive_after w s lv = (fst lv \<and> dragGrabbingWindow s \<noteq> Some w, snd lv \<and> (\<forall>nv \<in> ran (views s). parent nv \<noteq> Some w))"

lemma free_window_ok:
  assumes "wm_ok lv D V xs l r s" "w \<in> D" "w \<notin> set xs" "focusedWindow s \<noteq> Some w" "mouseWindow s \<noteq> Some w"
  shows "returns (free_window w s) (\<lambda>s'. wm_ok (alive_after w s lv) (D - {w}) V xs l r s' \<and> s' = s\<lparr>windows := (windows s)(w := None)\<rparr>)"
proof -
  have "ptr_ok (D - {w}) p" if "ptr_ok D p" "p \<noteq> Some w" for p using that by (auto simp: ptr_ok_def)
  moreover have "windows s w \<noteq> None" using assms(1,2) by (auto simp: wm_ok_def)
  ultimately show ?thesis
    using assms unfolding free_window_def
    by (auto simp: wm_ok_def zorder_def screen_ok_def alive_after_def ran_def)
qed

lemma nolinks_eq:
  "nolinks y = nolinks x \<Longrightarrow> view y = view x \<and> lensWindow y = lensWindow x \<and> owner y = owner x \<and>
     win_root y = win_root x"
  by (metis NativeWindow.select_convs nolinks_def NativeWindow.surjective NativeWindow.update_convs(14,15))

lemma core_forget:
  "windows (forget_window w s) = windows s" "views (forget_window w s) = views s"
  "dragGrabbingWindow (forget_window w s) = dragGrabbingWindow s"
  "onDraggingAction (forget_window w s) = onDraggingAction s"
  "pApplication (forget_window w s) = pApplication s" "throws (forget_window w s) = throws s"
  "focusedWindow (forget_window w s) = (if focusedWindow s = Some w then None else focusedWindow s)"
  "grabbedWindow (forget_window w s) = (if grabbedWindow s = Some w then None else grabbedWindow s)"
  "mouseWindow (forget_window w s) = (if mouseWindow s = Some w then None else mouseWindow s)"
  by (auto simp: forget_window_def Let_def lens_wm_getMouseWindow_def lens_wm_setMouseWindow_def
      lens_wm_getGrabbedWindow_def lens_wm_setGrabbedWindow_def
      glass_window_getFocusedWindow_def glass_window_setFocusedWindow_def)

text \<open>The state in which the release decides whether the window can be freed.\<close>

definition unlisted :: "lens \<Rightarrow> win \<Rightarrow> lens \<Rightarrow> bool" where
  "unlisted s w s' \<longleftrightarrow> views s' = views s \<and> dragGrabbingWindow s' = dragGrabbingWindow s \<and>
     onDraggingAction s' = onDraggingAction s \<and> throws s' = throws s \<and> jwindow s' w = jwindow s w \<and>
     map_option view (windows s' w) = map_option view (windows s w) \<and>
     focusedWindow s' = (if focusedWindow s = Some w then None else focusedWindow s) \<and>
     grabbedWindow s' = (if grabbedWindow s = Some w then None else grabbedWindow s) \<and>
     mouseWindow s' = (if mouseWindow s = Some w then None else mouseWindow s)"

definition release_to_view :: "win \<Rightarrow> lens \<Rightarrow> lens option" where
  "release_to_view window s = do {
     s \<leftarrow> close_owned window s;
     s \<leftarrow> glass_window_list_remove (Some window) s;
     s \<leftarrow> update_window window (\<lambda>x. x\<lparr>processEvents := False\<rparr>) s;
     (_, s) \<leftarrow> lens_wm_notifyPlatformWindowRelease window s;
     Some s
   }"

lemma release_split:
  "glass_window_NativeWindow_release w s = do {
     s \<leftarrow> release_to_view w s;
     win \<leftarrow> windows s w;
     if view win \<noteq> None then Some (LENS_OK, s)
     else do {
       s \<leftarrow> glass_application_notifyWindowEvent (Some w) WindowEvent_DESTROY s;
       s \<leftarrow> free_window w s;
       Some (LENS_OK, s)
     }
   }"
  by (simp add: glass_window_NativeWindow_release_def release_to_view_def glass_window_PlatformWindowRelease_def
      split_beta' Let_def cong: if_cong)

lemma core_fold [simp]: "core (fold call_java cs s) = core s"
  by (induction cs arbitrary: s) auto

lemma call_java_more [simp]:
  "mouseWindow (call_java c s) = mouseWindow s" "dragGrabbingWindow (call_java c s) = dragGrabbingWindow s"
  "views (call_java c s) = views s" "onDraggingAction (call_java c s) = onDraggingAction s"
  by (simp_all add: call_java_def glass_application_checkReportException_def)

lemma release_to_view_ok:
  assumes s: "wm_ok lv D V xs False False s" and w: "w \<in> D"
  shows "returns (release_to_view w s) (\<lambda>s'. wm_ok lv D V (remove1 w xs) False False s' \<and> unlisted s w s' \<and>
     window_log s' = window_log s @ map (\<lambda>x. NotifyWindowEvent (jwindow s x) WindowEvent_CLOSE) (owned s w xs))"
proof -
  let ?cs = "map (\<lambda>x. NotifyWindowEvent (jwindow s x) WindowEvent_CLOSE) (owned s w xs)"
  define s1 where "s1 = fold call_java ?cs s"
  have s1: "wm_ok lv D V xs False False s1" "core s1 = core s" "window_log s1 = window_log s @ ?cs"
    using s by (simp_all add: s1_def window_log_fold core_fold)
  obtain s2 where r2: "glass_window_list_remove (Some w) s1 = Some s2"
    and s2: "wm_ok lv D V (remove1 w xs) False False s2" "list_frame s1 s2"
    using remove_ok [OF s1(1), of w] by (auto elim: returnsE)
  obtain y where y: "windows s2 w = Some y" using s2(1) w by (auto simp: wm_ok_def)
  obtain x where x: "windows s1 w = Some x" "nolinks y = nolinks x" using list_frame_window [OF s2(2) y] .
  define s3 where "s3 = s2\<lparr>windows := (windows s2)(w \<mapsto> y\<lparr>processEvents := False\<rparr>)\<rparr>"
  have r3: "update_window w (\<lambda>x. x\<lparr>processEvents := False\<rparr>) s2 = Some s3"
    by (simp add: update_window_def y s3_def)
  have s3: "wm_ok lv D V (remove1 w xs) False False s3"
    using update_window_ok [OF s2(1) w, of "\<lambda>x. x\<lparr>processEvents := False\<rparr>"] r3 by simp
  obtain s4 where r4: "lens_wm_notifyPlatformWindowRelease w s3 = Some (LENS_OK, s4)"
    and s4: "wm_ok lv D V (remove1 w xs) False False s4" "core s4 = core (forget_window w s3)"
    using notifyPlatformWindowRelease_ok [OF s3, of w] by (auto elim: returnsE)
  have "unlisted s w s4"
    using core_fields [OF s4(2)] core_fields [OF s1(2)] list_frame_fields [OF s2(2)] x nolinks_eq [OF x(2)]
    by (simp add: unlisted_def core_forget s3_def jwindow_def)
  moreover have "window_log s4 = window_log s @ ?cs"
    using window_log_release [OF r4] list_frame_fields(1) [OF s2(2)] s1(3) by (simp add: s3_def window_log_def)
  ultimately show ?thesis
    using s4(1) r2 r3 r4 by (simp add: release_to_view_def close_owned_exact [OF s] s1_def [symmetric])
qed

text \<open>The release of a window without a view, in terms of the state in which it was unlisted.\<close>

lemma release_free:
  assumes s: "wm_ok lv D V xs False False s" and w: "w \<in> D" and free: "windows s w = Some win" "view win = None"
  obtains s1 where "wm_ok lv D V (remove1 w xs) False False s1" "unlisted s w s1"
    "window_log s1 = window_log s @ map (\<lambda>x. NotifyWindowEvent (jwindow s x) WindowEvent_CLOSE) (owned s w xs)"
    "glass_window_NativeWindow_release w s = Some (LENS_OK,
       (call_java (NotifyWindowEvent (jwindow s w) WindowEvent_DESTROY) s1)\<lparr>windows := (windows s1)(w := None)\<rparr>)"
proof -
  obtain s1 where r1: "release_to_view w s = Some s1" and s1: "wm_ok lv D V (remove1 w xs) False False s1" "unlisted s w s1"
    and log: "window_log s1 = window_log s @ map (\<lambda>x. NotifyWindowEvent (jwindow s x) WindowEvent_CLOSE) (owned s w xs)"
    using release_to_view_ok [OF s w] by (auto elim: returnsE)
  obtain y where y: "windows s1 w = Some y" using wm_ok_window [OF s1(1) w] by (auto elim: returnsE)
  have v: "view y = None" and j: "jwindow s1 w = jwindow s w" using s1(2) y free by (simp_all add: unlisted_def)
  have "glass_application_notifyWindowEvent (Some w) WindowEvent_DESTROY s1 =
      Some (call_java (NotifyWindowEvent (jwindow s w) WindowEvent_DESTROY) s1)"
    using notifyWindowEvent_eq [of s1 w WindowEvent_DESTROY] s1(1) y j by (auto simp: wm_ok_def)
  then have "glass_window_NativeWindow_release w s = Some (LENS_OK,
       (call_java (NotifyWindowEvent (jwindow s w) WindowEvent_DESTROY) s1)\<lparr>windows := (windows s1)(w := None)\<rparr>)"
    using r1 y v by (simp add: release_split free_window_def)
  with that s1 log show thesis by blast
qed

lemma release_ok:
  assumes s: "wm_ok lv D V xs False False s" and w: "w \<in> D" and free: "windows s w = Some win" "view win = None"
  shows "returns (glass_window_NativeWindow_release w s) (\<lambda>(res, s'). res = LENS_OK \<and>
     wm_ok (alive_after w s lv) (D - {w}) V (remove1 w xs) False False s' \<and> windows s' w = None \<and>
     focusedWindow s' = (if focusedWindow s = Some w then None else focusedWindow s) \<and>
     grabbedWindow s' = (if grabbedWindow s = Some w then None else grabbedWindow s) \<and>
     mouseWindow s' = (if mouseWindow s = Some w then None else mouseWindow s) \<and>
     dragGrabbingWindow s' = dragGrabbingWindow s \<and> views s' = views s \<and>
     window_log s' = window_log s @ map (\<lambda>x. NotifyWindowEvent (jwindow s x) WindowEvent_CLOSE) (owned s w xs)
        @ [NotifyWindowEvent (jwindow s w) WindowEvent_DESTROY])"
proof -
  obtain s1 where s1: "wm_ok lv D V (remove1 w xs) False False s1" "unlisted s w s1"
    and log: "window_log s1 = window_log s @ map (\<lambda>x. NotifyWindowEvent (jwindow s x) WindowEvent_CLOSE) (owned s w xs)"
    and r: "glass_window_NativeWindow_release w s = Some (LENS_OK,
       (call_java (NotifyWindowEvent (jwindow s w) WindowEvent_DESTROY) s1)\<lparr>windows := (windows s1)(w := None)\<rparr>)"
    using release_free [OF s w free] .
  let ?t = "call_java (NotifyWindowEvent (jwindow s w) WindowEvent_DESTROY) s1"
  have "distinct xs" using s by (simp add: wm_ok_def zorder_def)
  moreover have "alive_after w ?t lv = alive_after w s lv" using s1(2) by (simp add: alive_after_def unlisted_def)
  moreover have "wm_ok lv D V (remove1 w xs) False False ?t" using s1(1) by simp
  ultimately have "returns (free_window w ?t) (\<lambda>s'. wm_ok (alive_after w s lv) (D - {w}) V (remove1 w xs) False False s' \<and>
      s' = ?t\<lparr>windows := (windows ?t)(w := None)\<rparr>)"
    using s1(2) free_window_ok [of lv D V "remove1 w xs" False False ?t w] w by (auto simp: unlisted_def split: if_splits)
  then show ?thesis
    using r log s1(2) by (auto simp: returns_iff unlisted_def window_call_def)
qed

section \<open>Creating keeps the invariant\<close>

lemma add_ok:
  assumes "wm_ok lv D V xs False r s" "w \<in> D" "w \<notin> set xs"
  shows "returns (glass_window_list_add (Some w) s) (\<lambda>s'. wm_ok lv D V (xs @ [w]) False r s' \<and> list_frame s s')"
proof -
  have "windows s w \<noteq> None" using assms(1,2) by (auto simp: wm_ok_def)
  then show ?thesis
    by (rule returns_conseq [OF add_refines [OF wm_ok_zlist [OF assms(1)] _ assms(3)]])
       (auto intro: list_frame_ok [OF assms(1)])
qed

lemma new_window_ok:
  assumes "wm_ok lv D V xs l r s" "w \<notin> D" "view x = None"
  shows "wm_ok lv (insert w D) V xs l r (s\<lparr>windows := (windows s)(w \<mapsto> x)\<rparr>)"
proof -
  have "w \<notin> set xs" using wm_ok_mem [OF assms(1)] assms(2) by auto
  then have "zorder (s\<lparr>windows := (windows s)(w \<mapsto> x)\<rparr>) xs"
    using assms(1) by (simp add: wm_ok_def zorder_def)
  moreover have "ptr_ok (insert w D) p" if "ptr_ok D p" for p using that by (auto simp: ptr_ok_def)
  ultimately show ?thesis using assms by (auto simp: wm_ok_def screen_ok_def)
qed

lemma create_ok:
  assumes s: "wm_ok lv D V xs False r s" and w: "w \<notin> D" and own: "ptr_ok D own"
  shows "returns (glass_create_native_window (Some w) (Some j) own scr cm s) (\<lambda>(res, s'). res = Some w \<and>
     wm_ok lv (insert w D) V (xs @ [w]) False r s' \<and> trace s' = trace s \<and> focusedWindow s' = focusedWindow s \<and>
     (\<exists>y. windows s' w = Some y \<and> nolinks y = new_window w j own
        (case own of None \<Rightarrow> Some w | Some p \<Rightarrow> windows s p \<bind> win_root) scr cm\<lparr>window_id := windowIndex s\<rparr>) \<and>
     windowIndex s' = windowIndex s + 1)"
proof -
  let ?rt = "case own of None \<Rightarrow> Some w | Some p \<Rightarrow> windows s p \<bind> win_root"
  let ?y = "new_window w j own ?rt scr cm\<lparr>window_id := windowIndex s\<rparr>"
  define s1 where "s1 = s\<lparr>windows := (windows s)(w \<mapsto> ?y), windowIndex := windowIndex s + 1\<rparr>"
  have rt: "(case own of None \<Rightarrow> Some (Some w) | Some p \<Rightarrow> do { ow \<leftarrow> windows s p; Some (win_root ow) }) = Some ?rt"
    using own s by (auto simp: wm_ok_def split: option.split)
  have s1: "wm_ok lv (insert w D) V xs False r s1"
    using new_window_ok [OF s w, of ?y] by (simp add: s1_def new_window_def)
  have fresh: "w \<notin> set xs" using wm_ok_mem [OF s] w by auto
  obtain s2 where s2: "glass_window_list_add (Some w) s1 = Some s2" "wm_ok lv (insert w D) V (xs @ [w]) False r s2"
    "list_frame s1 s2"
    using add_ok [OF s1 _ fresh] by (auto elim: returnsE)
  have c: "glass_create_native_window (Some w) (Some j) own scr cm s = Some (Some w, s2)"
    using s2(1) by (simp add: glass_create_native_window_def rt s1_def glass_window_PlatformWindowData_create_def
        update_window_def)
  obtain y where y: "windows s2 w = Some y" using wm_ok_window [OF s2(2), of w] by (auto elim: returnsE)
  have "nolinks y = ?y"
    using list_frame_window [OF s2(3) y] by (auto simp: s1_def nolinks_def new_window_def calloc_window_def)
  moreover have "windowIndex s2 = windowIndex s + 1" 
    using s2(3) by (auto simp: list_frame_def s1_def elim!: ssubst)
  ultimately show ?thesis
    using c s2(2) y list_frame_fields [OF s2(3)] by (simp add: s1_def)
qed

section \<open>A drag whose window is released\<close>

lemma motion_dangling:
  assumes "zlist s xs" "onDraggingAction s" "dragGrabbingWindow s = Some w" "windows s w = None" "mouseWindow s \<noteq> Some w"
  shows "lens_wm_notifyMotionEvent x y s = None"
proof -
  let ?s = "fbCursorSetPosition x y (s\<lparr>mousePosX := x, mousePosY := y\<rparr>)"
  have z: "zlist ?s xs" using assms(1) by (simp add: zlist_def zorder_def fbCursorSetPosition_def)
  have "w \<notin> set xs" using assms(1,4) zorder_mem [of s xs] by (auto simp: zlist_def)
  then have "topmost (hit x y) (windows s) xs \<noteq> Some w" using topmost_mem by fastforce
  then show ?thesis
    using assms find_exact_zlist [OF z, of x y]
    by (simp add: lens_wm_notifyMotionEvent_def start_drag_def lens_wm_notifyEnterExitEvents_def fbCursorSetPosition_def
        found_at_def enter_exit_drag_def deliver_motion_def pointer_in_def lens_wm_setMouseWindow_def
        lens_wm_getMouseWindow_def option.map_comp comp_def option.map_ident Let_def cong: if_cong)
qed


section \<open>Properties\<close>

text \<open>
  C21: releasing a window without a view tells the windows in the list that it owns to close, in the order of
  the list from the bottom up, then reports its own destruction, exactly once and last; the window is
  taken out of the list and freed, and the focus, the grab and the mouse window no longer point to it. The
  window that holds a drag and the parents of views are not touched: when one of them was this window, it
  still points to the freed memory; up to these pointers the state is well-formed again. (The touch window and the links
  of other windows to their owner and root are not part of that well-formedness: they may still hold the old address, see C39.)
\<close>

theorem release_closes_owned_windows:
  assumes "wm_ok lv D V xs False False s" and "w \<in> D" and "windows s w = Some win" and "view win = None"
  shows "returns (glass_window_NativeWindow_release w s) (\<lambda>(res, s'). res = LENS_OK \<and>
     wm_ok (alive_after w s lv) (D - {w}) V (remove1 w xs) False False s' \<and>
     focusedWindow s' = (if focusedWindow s = Some w then None else focusedWindow s) \<and>
     grabbedWindow s' = (if grabbedWindow s = Some w then None else grabbedWindow s) \<and>
     mouseWindow s' = (if mouseWindow s = Some w then None else mouseWindow s) \<and>
     dragGrabbingWindow s' = dragGrabbingWindow s \<and> views s' = views s \<and>
     window_log s' = window_log s @ map (\<lambda>x. NotifyWindowEvent (jwindow s x) WindowEvent_CLOSE)
          (filter (\<lambda>x. map_option owner (windows s x) = Some (Some w)) xs)
        @ [NotifyWindowEvent (jwindow s w) WindowEvent_DESTROY])"
  by (rule returns_conseq [OF release_ok [OF assms]]) (auto simp: owned_def)

text \<open>A third window, owned by the second one, and a second window that has lost its view.\<close>

definition desk_owned :: lens where
  "desk_owned = desk\<lparr>
     windows := [1 \<mapsto> (desk_window 1 0)\<lparr>nextWindow := Some 2\<rparr>,
                 2 \<mapsto> (desk_window 2 100)\<lparr>previousWindow := Some 1, nextWindow := Some 3, view := None\<rparr>,
                 3 \<mapsto> (desk_window 3 50)\<lparr>previousWindow := Some 2, owner := Some 2, win_root := Some 2, view := None\<rparr>],
     views := [11 \<mapsto> \<lparr>lensView = Some 111, parent = Some 1, view_bounds = zero_bounds\<rparr>],
     windowList_tail := Some 3, windowList_size := 3\<rparr>"

lemma desk_owned_ok: "wm_ok (True, True) {1, 2, 3} {11} [1, 2, 3] False False desk_owned"
  by (auto simp: wm_ok_def desk_owned_def desk_def desk_window_def lens_init_def calloc_window_def zorder_def
      screen_ok_def lens_screen_initialize_def split: if_splits)

lemma desk_owned_simps [simp]:
  "windows desk_owned 2 = Some ((desk_window 2 100)\<lparr>previousWindow := Some 1, nextWindow := Some 3, view := None\<rparr>)"
  "windows desk_owned 3 = Some ((desk_window 3 50)\<lparr>previousWindow := Some 2, owner := Some 2, win_root := Some 2, view := None\<rparr>)"
  "windows desk_owned (Suc 0) = Some ((desk_window 1 0)\<lparr>nextWindow := Some 2\<rparr>)"
  "views desk_owned v = (if v = 11 then Some \<lparr>lensView = Some 111, parent = Some 1, view_bounds = zero_bounds\<rparr> else None)"
  "dragGrabbingWindow desk_owned = None" "window_log desk_owned = []" "focusedWindow desk_owned = Some 1"
  by (simp_all add: desk_owned_def desk_def lens_init_def window_log_def desk_window_def calloc_window_def)

theorem release_closes_owned_windows_witness:
  "map_option (\<lambda>r. window_log (snd r)) (glass_window_NativeWindow_release 2 desk_owned) =
     Some [NotifyWindowEvent (Some 203) WindowEvent_CLOSE, NotifyWindowEvent (Some 202) WindowEvent_DESTROY]"
proof -
  let ?w = "desk_window 2 100\<lparr>previousWindow := Some 1, nextWindow := Some 3, view := None\<rparr>"
  have "returns (glass_window_NativeWindow_release 2 desk_owned) (\<lambda>(res, s'). res = LENS_OK \<and>
     wm_ok (alive_after 2 desk_owned (True, True)) ({1, 2, 3} - {2}) {11} (remove1 2 [1, 2, 3]) False False s' \<and>
     focusedWindow s' = (if focusedWindow desk_owned = Some 2 then None else focusedWindow desk_owned) \<and>
     grabbedWindow s' = (if grabbedWindow desk_owned = Some 2 then None else grabbedWindow desk_owned) \<and>
     mouseWindow s' = (if mouseWindow desk_owned = Some 2 then None else mouseWindow desk_owned) \<and>
     dragGrabbingWindow s' = dragGrabbingWindow desk_owned \<and> views s' = views desk_owned \<and>
     window_log s' = window_log desk_owned @ map (\<lambda>x. NotifyWindowEvent (jwindow desk_owned x) WindowEvent_CLOSE)
          (filter (\<lambda>x. map_option owner (windows desk_owned x) = Some (Some 2)) [1, 2, 3])
        @ [NotifyWindowEvent (jwindow desk_owned 2) WindowEvent_DESTROY])"
    by (rule release_closes_owned_windows [OF desk_owned_ok, of 2 ?w]) auto
  then show ?thesis
    by (auto simp: returns_iff jwindow_def desk_window_def calloc_window_def)
qed

text \<open>
  Closing a window that still has a view succeeds in the eyes of the caller, but the window is
  only taken out of the list: it stays allocated and Java is never told that it was destroyed.
\<close>

theorem close_with_view_keeps_window:
  assumes "wm_ok lv D V xs False False s" and "w \<in> D" and "windows s w = Some win" and "view win \<noteq> None"
  shows "returns (LensWindow_close (Some w) s) (\<lambda>(closed, s'). closed \<and>
     wm_ok lv D V (remove1 w xs) False False s' \<and> windows s' w \<noteq> None \<and>
     window_log s' = window_log s @ map (\<lambda>x. NotifyWindowEvent (jwindow s x) WindowEvent_CLOSE)
          (filter (\<lambda>x. map_option owner (windows s x) = Some (Some w)) xs))"
proof -
  obtain s1 where r1: "release_to_view w s = Some s1" and s1: "wm_ok lv D V (remove1 w xs) False False s1" "unlisted s w s1"
    and log: "window_log s1 = window_log s @ map (\<lambda>x. NotifyWindowEvent (jwindow s x) WindowEvent_CLOSE) (owned s w xs)"
    using release_to_view_ok [OF assms(1,2)] by (auto elim: returnsE)
  obtain y where y: "windows s1 w = Some y" using wm_ok_window [OF s1(1) assms(2)] by (auto elim: returnsE)
  have v: "view y \<noteq> None" using s1(2) y assms(3,4) by (simp add: unlisted_def)
  then have "glass_window_NativeWindow_release w s = Some (LENS_OK, s1)"
    using r1 y by (simp add: release_split)
  then show ?thesis
    using s1(1) y log by (simp add: LensWindow_close_def with_window_def owned_def)
qed

theorem close_with_view_keeps_window_witness:
  "map_option (\<lambda>r. (fst r, window_log (snd r))) (LensWindow_close (Some 2) desk) = Some (True, [])"
proof -
  let ?w = "desk_window 2 100\<lparr>previousWindow := Some 1\<rparr>"
  have "returns (LensWindow_close (Some 2) desk) (\<lambda>(closed, s'). closed \<and>
     wm_ok (True, True) {1, 2} {11, 12} (remove1 2 [1, 2]) False False s' \<and> windows s' 2 \<noteq> None \<and>
     window_log s' = window_log desk @ map (\<lambda>x. NotifyWindowEvent (jwindow desk x) WindowEvent_CLOSE)
          (filter (\<lambda>x. map_option owner (windows desk x) = Some (Some 2)) [1, 2]))"
    by (rule close_with_view_keeps_window [OF desk_ok, of 2 ?w]) (auto simp: desk_window_def)
  then show ?thesis
    by (auto simp: returns_iff window_log_def desk_window_def calloc_window_def)
qed

text \<open>
  A window created at a fresh address is the topmost window of the list, has the next
  identifier, is normal, focusable, enabled, invisible, one pixel by one, and belongs to the tree of
  its owner, or starts a tree of its own; Java is not called and the focus stays where it is.
\<close>

theorem create_puts_on_top:
  assumes "wm_ok lv D V xs False r s" and "w \<notin> D" and "ptr_ok D own"
  shows "returns (LensWindow_createWindow (Some w) (Some j) own scr cm s) (\<lambda>(res, s'). res = Some w \<and>
     wm_ok lv (insert w D) V (xs @ [w]) False r s' \<and> trace s' = trace s \<and> focusedWindow s' = focusedWindow s \<and>
     windowIndex s' = windowIndex s + 1 \<and>
     (\<exists>y. windows s' w = Some y \<and> nolinks y = calloc_window\<lparr>
        currentBounds := \<lparr>b_x = 0, b_y = 0, b_width = 1, b_height = 1\<rparr>, lensWindow := Some j, owner := own,
        screen := scr, creationMask := cm, isFocusable := True, isEnabled := True, alpha := 1,
        win_root := (case own of None \<Rightarrow> Some w | Some p \<Rightarrow> windows s p \<bind> win_root),
        window_id := windowIndex s\<rparr>))"
  unfolding LensWindow_createWindow_def
  by (rule returns_conseq [OF create_ok [OF assms]]) (auto simp: new_window_def calloc_window_def zero_bounds_def)

theorem create_puts_on_top_witness:
  "map_option (\<lambda>r. windows (snd r) 3 \<bind> win_root) (LensWindow_createWindow (Some 3) (Some 203) (Some 2) 0 0 desk) =
     Some (Some 2)"
proof -
  obtain s' y where "LensWindow_createWindow (Some 3) (Some 203) (Some 2) 0 0 desk = Some (Some 3, s')"
    "windows s' 3 = Some y" "win_root (nolinks y) = Some 2"
    using create_puts_on_top [OF desk_ok, of 3 "Some 2" 203 0 0] 
    by (auto simp: returns_iff desk_window_def)
  then show ?thesis by (simp add: nolinks_def)
qed

text \<open>
  C40: releasing a window without a view that holds a drag frees it without ending the drag: the window manager
  keeps the pointer, and the next motion of the pointer, during the drag, dereferences it. (A window that still has a view is
  not freed.)
\<close>

theorem released_drag_window_dangles:
  assumes "wm_ok lv D V xs False False s" and "w \<in> D" and "windows s w = Some win" and "view win = None"
    and "onDraggingAction s" and "dragGrabbingWindow s = Some w"
  shows "returns (glass_window_NativeWindow_release w s)
     (\<lambda>(res, s'). res = LENS_OK \<and> lens_wm_notifyMotionEvent x y s' = None)"
proof -
  obtain s1 where s1: "wm_ok lv D V (remove1 w xs) False False s1" "unlisted s w s1"
    and r: "glass_window_NativeWindow_release w s = Some (LENS_OK,
       (call_java (NotifyWindowEvent (jwindow s w) WindowEvent_DESTROY) s1)\<lparr>windows := (windows s1)(w := None)\<rparr>)"
    using release_free [OF assms(1-4)] .
  let ?t = "call_java (NotifyWindowEvent (jwindow s w) WindowEvent_DESTROY) s1"
  have "distinct xs" using assms(1) by (simp add: wm_ok_def zorder_def)
  then have "zlist (?t\<lparr>windows := (windows ?t)(w := None)\<rparr>) (remove1 w xs)"
    using wm_ok_zlist [of lv D V "remove1 w xs" False ?t] s1(1) by (simp add: zlist_def zorder_def)
  then have "lens_wm_notifyMotionEvent x y (?t\<lparr>windows := (windows ?t)(w := None)\<rparr>) = None"
    using s1(2) assms(5,6) by (intro motion_dangling) (auto simp: unlisted_def)
  then show ?thesis using r by simp
qed

theorem released_drag_window_dangles_witness:
  "map_option (\<lambda>r. lens_wm_notifyMotionEvent 5 6 (snd r)) (glass_window_NativeWindow_release 2
     (desk_owned\<lparr>onDraggingAction := True, dragGrabbingWindow := Some 2\<rparr>)) = Some None"
proof -
  let ?s = "desk_owned\<lparr>onDraggingAction := True, dragGrabbingWindow := Some 2\<rparr>"
  let ?w = "desk_window 2 100\<lparr>previousWindow := Some 1, nextWindow := Some 3, view := None\<rparr>"
  have "wm_ok (True, True) {1, 2, 3} {11} [1, 2, 3] False False ?s"
    using wm_ok_pointers(2) [of "(True, True)" "{1, 2, 3}" "{11}" "[1, 2, 3]" False False "desk_owned\<lparr>onDraggingAction := True\<rparr>" "Some 2"]
      desk_owned_ok by simp
  then have "returns (glass_window_NativeWindow_release 2 ?s)
     (\<lambda>(res, s'). res = LENS_OK \<and> lens_wm_notifyMotionEvent 5 6 s' = None)"
    by (rule released_drag_window_dangles [of "(True, True)" _ _ _ _ _ ?w]) auto
  then show ?thesis by (auto simp: returns_iff)
qed

end
