(* ===== verification/LensView.thy ===== *)
theory LensView
  imports LensWindow "HOL-Library.Signed_Division"
begin

text \<open>
  \<open>LensView.c\<close>: views, the surfaces that Java paints and that windows show, and the native methods
  of \<open>LensView.java\<close>. A null view handle raises a Java exception, but none of the functions returns
  after raising it: each goes on to use the null pointer.
\<close>

section \<open>Creating and releasing views\<close>

definition glass_view_releaseNativeView :: "viewp \<Rightarrow> lens \<Rightarrow> (LensResult \<times> lens) option" where
  "glass_view_releaseNativeView v s = do {
     let (_, s) = glass_view_PlatformViewRelease v s
     in do {
       _ \<leftarrow> views s v;
       Some (LENS_OK, s\<lparr>views := (views s)(v := None)\<rparr>)
     }
   }"

text \<open>\<open>addr\<close> and \<open>gref\<close> are the results of \<open>calloc\<close> and of \<open>NewGlobalRef\<close>.\<close>

definition LensView_createNativeView :: "viewp option \<Rightarrow> jobject option \<Rightarrow> lens \<Rightarrow> (viewp option \<times> lens) option" where
  "LensView_createNativeView addr gref s = (case addr of
       None \<Rightarrow> Some (None, s)
     | Some v \<Rightarrow>
         let s = s\<lparr>views := (views s)(v \<mapsto> calloc_view\<lparr>lensView := gref, parent := None\<rparr>)\<rparr>;
             (res, s) = glass_view_PlatformViewData_create v s
         in if res \<noteq> LENS_OK then do {
              (_, s) \<leftarrow> glass_view_releaseNativeView v s;
              Some (None, s)
            }
            else Some (Some v, s))"

section \<open>Fitting a view to the screen\<close>

text \<open>
  The ratios are quotients of integers, which C truncates, and undefined for a divisor of zero. The
  numbers are small enough for \<open>float\<close> to hold them exactly.
\<close>

definition fit_length :: "int \<Rightarrow> rat \<Rightarrow> int" where
  "fit_length n ratio = truncate_to_int (of_int n * ratio + 1 / 2)"

definition glass_view_fitSurfaceToScreen :: "NativeScreen \<Rightarrow> viewp \<Rightarrow> lens \<Rightarrow> lens option" where
  "glass_view_fitSurfaceToScreen scr v s = do {
     nv \<leftarrow> views s v;
     let b = view_bounds nv
     in if b_width b = 0 \<or> b_height b = 0 then None
        else
          let wRatio = of_int (scr_width scr sdiv b_width b);
              hRatio = of_int (scr_height scr sdiv b_height b);
              ratio = (if wRatio < hRatio then wRatio else hRatio);
              w = fit_length (scr_width scr) ratio;
              h = fit_length (scr_height scr) ratio
          in update_view v (\<lambda>x. x\<lparr>view_bounds :=
               \<lparr>b_x = (scr_width scr - w) sdiv 2, b_y = (scr_height scr - h) sdiv 2, b_width = w, b_height = h\<rparr>\<rparr>) s
   }"

section \<open>The native methods\<close>

definition null_view :: "viewp option \<Rightarrow> lens \<Rightarrow> lens" where
  "null_view v s =
     (if v = None then glass_throw_exception_by_name glass_NullPointerException ''View handle is null'' s else s)"

text \<open>Drawing needs no view, so these two go on after the exception.\<close>

definition LensView_begin :: "viewp option \<Rightarrow> lens \<Rightarrow> lens option" where
  "LensView_begin v s = glass_view_drawBegin (null_view v s)"

definition LensView_end :: "viewp option \<Rightarrow> lens \<Rightarrow> lens" where
  "LensView_end v s = glass_view_drawEnd (null_view v s)"

text \<open>\<open>src\<close> is the pinned array, null when the virtual machine has no memory for it.\<close>

definition LensView_paintInt :: "viewp option \<Rightarrow> int \<Rightarrow> int \<Rightarrow> 32 word list option \<Rightarrow> int \<Rightarrow> lens \<Rightarrow> lens option" where
  "LensView_paintInt v width height src offset s = do {
     v \<leftarrow> v;
     nv \<leftarrow> views s v;
     let s = (if parent nv = None
              then glass_throw_exception_by_name glass_NullPointerException ''Window handle is null paintint'' s
              else s)
     in do {
       w \<leftarrow> parent nv;
       s \<leftarrow> glass_pixel_attachIntBuffer (case src of None \<Rightarrow> [] | Some a \<Rightarrow> a) w width height offset s;
       Some (lens_wm_notifyWindowUpdate w width height s)
     }
   }"

definition LensView_paintByte :: "lens \<Rightarrow> lens" where
  "LensView_paintByte s = glass_throw_exception_by_name glass_RuntimeException ''Unimplemented'' s"

definition LensView_paintIntDirect :: "viewp option \<Rightarrow> int \<Rightarrow> int \<Rightarrow> 32 word list option \<Rightarrow> lens \<Rightarrow> lens option" where
  "LensView_paintIntDirect v width height src s = do {
     v \<leftarrow> v;
     nv \<leftarrow> views s v;
     let s = (if parent nv = None
              then glass_throw_exception_by_name glass_NullPointerException ''Window handle is null'' s
              else s)
     in (case src of
           None \<Rightarrow> Some s
         | Some a \<Rightarrow> do {
             w \<leftarrow> parent nv;
             s \<leftarrow> glass_pixel_attachIntBuffer a w width height 0 s;
             Some (lens_wm_notifyWindowUpdate w width height s)
           })
   }"

definition LensView_close :: "viewp option \<Rightarrow> lens \<Rightarrow> (bool \<times> lens) option" where
  "LensView_close v s = do {
     s \<leftarrow> Some (null_view v s);
     v \<leftarrow> v;
     (res, s) \<leftarrow> glass_view_releaseNativeView v s;
     Some (res = LENS_OK, s)
   }"

text \<open>The flags that ask for an animation, the ratio and the cursor are ignored, as in the code.\<close>

definition LensView_enterFullscreen :: "viewp option \<Rightarrow> bool \<Rightarrow> bool \<Rightarrow> bool \<Rightarrow> lens \<Rightarrow> (bool \<times> lens) option" where
  "LensView_enterFullscreen v animate keepRatio hideCursor s = do {
     s \<leftarrow> Some (null_view v s);
     v \<leftarrow> v;
     glass_view_enterFullscreen v s
   }"

definition LensView_exitFullscreen :: "viewp option \<Rightarrow> bool \<Rightarrow> lens \<Rightarrow> lens option" where
  "LensView_exitFullscreen v animate s = do {
     s \<leftarrow> Some (null_view v s);
     v \<leftarrow> v;
     (_, s) \<leftarrow> glass_view_exitFullscreen v s;
     Some s
   }"

definition LensView_setParent :: "viewp option \<Rightarrow> win option \<Rightarrow> lens \<Rightarrow> lens option" where
  "LensView_setParent v p s = do {
     s \<leftarrow> Some (null_view v s);
     v \<leftarrow> v;
     glass_view_setParent p v s
   }"

end
