(* ===== verification/LensRobot.thy ===== *)
theory LensRobot
  imports LensView
begin

text \<open>
  \<open>wm/robot.c\<close> and \<open>LensRobot.c\<close>: input events that a test program posts through
  \<open>com.sun.glass.ui.Robot\<close>, the position of the pointer and the pixels of the screen.
\<close>

section \<open>Posting events\<close>

abbreviation (input) Robot_MOUSE_LEFT_BTN :: int where "Robot_MOUSE_LEFT_BTN \<equiv> 1"
abbreviation (input) Robot_MOUSE_RIGHT_BTN :: int where "Robot_MOUSE_RIGHT_BTN \<equiv> 2"
abbreviation (input) Robot_MOUSE_MIDDLE_BTN :: int where "Robot_MOUSE_MIDDLE_BTN \<equiv> 4"
abbreviation (input) LensRobot_GET_X :: int where "LensRobot_GET_X \<equiv> 1"

definition glass_robot_postKeyEvent :: "int \<Rightarrow> int \<Rightarrow> lens \<Rightarrow> (bool \<times> lens) option" where
  "glass_robot_postKeyEvent keyEventType jfxKey s =
     (let window = glass_window_getFocusedWindow s
      in if window = None then Some (False, s)
         else do {
           s \<leftarrow> glass_application_notifyKeyEvent window keyEventType jfxKey False s;
           Some (True, s)
         })"

definition glass_robot_postScrollEvent :: "int \<Rightarrow> lens \<Rightarrow> (bool \<times> lens) option" where
  "glass_robot_postScrollEvent wheelAmt s = do {
     let (x, y) = lens_wm_getPointerPosition s
     in do {
       s \<leftarrow> lens_wm_notifyScrollEvent x y wheelAmt s;
       Some (True, s)
     }
   }"

text \<open>A mask of several buttons is none of the three cases.\<close>

definition glass_button :: "int \<Rightarrow> int" where
  "glass_button buttons =
     (if buttons = Robot_MOUSE_LEFT_BTN then MouseEvent_BUTTON_LEFT
      else if buttons = Robot_MOUSE_RIGHT_BTN then MouseEvent_BUTTON_RIGHT
      else if buttons = Robot_MOUSE_MIDDLE_BTN then MouseEvent_BUTTON_OTHER
      else MouseEvent_BUTTON_NONE)"

definition glass_robot_postMouseEvent :: "int \<Rightarrow> int \<Rightarrow> int \<Rightarrow> int \<Rightarrow> lens \<Rightarrow> (bool \<times> lens) option" where
  "glass_robot_postMouseEvent mouseEventType x y buttons s =
     (if mouseEventType = MouseEvent_DOWN \<or> mouseEventType = MouseEvent_UP then
        let (posX, posY) = lens_wm_getPointerPosition s
        in do {
          s \<leftarrow> lens_wm_notifyButtonEvent (mouseEventType = MouseEvent_DOWN) (glass_button buttons) posX posY s;
          Some (True, s)
        }
      else if mouseEventType = MouseEvent_MOVE then do {
        s \<leftarrow> lens_wm_notifyMotionEvent x y (lens_wm_setPointerPosition x y s);
        Some (True, s)
      }
      else Some (False, s))"

definition glass_robot_getMouseLocation :: "lens \<Rightarrow> bool \<times> int \<times> int" where
  "glass_robot_getMouseLocation s = (True, lens_wm_getPointerPosition s)"

section \<open>The native methods\<close>

definition or_throw :: "string \<Rightarrow> (bool \<times> lens) option \<Rightarrow> lens option" where
  "or_throw msg r = do {
     (isSuccessful, s) \<leftarrow> r;
     Some (if isSuccessful then s else glass_throw_exception_by_name glass_RuntimeException msg s)
   }"

definition LensRobot_postScrollEvent :: "int \<Rightarrow> lens \<Rightarrow> lens option" where
  "LensRobot_postScrollEvent wheelAmt s =
     or_throw ''Failed to post scroll event'' (glass_robot_postScrollEvent wheelAmt s)"

definition LensRobot_postKeyEvent :: "int \<Rightarrow> int \<Rightarrow> lens \<Rightarrow> lens option" where
  "LensRobot_postKeyEvent keyEventType jfxKey s =
     or_throw ''Failed to post key event'' (glass_robot_postKeyEvent keyEventType jfxKey s)"

definition LensRobot_postMouseEvent :: "int \<Rightarrow> int \<Rightarrow> int \<Rightarrow> int \<Rightarrow> lens \<Rightarrow> lens option" where
  "LensRobot_postMouseEvent mouseEventType x y buttons s =
     or_throw ''Failed to post mouse event'' (glass_robot_postMouseEvent mouseEventType x y buttons s)"

definition LensRobot_getMouseLocation :: "int \<Rightarrow> lens \<Rightarrow> int \<times> lens" where
  "LensRobot_getMouseLocation axis s =
     (let (isSuccessful, x, y) = glass_robot_getMouseLocation s
      in if isSuccessful then (if axis = LensRobot_GET_X then x else y, s)
         else (- 1, glass_throw_exception_by_name glass_RuntimeException ''Failed to get mouse location'' s))"

definition LensRobot_getPixelColor :: "int \<Rightarrow> int \<Rightarrow> lens \<Rightarrow> (32 word \<times> lens) option" where
  "LensRobot_getPixelColor x y s = do {
     r \<leftarrow> glass_screen_capture x y 1 1 s;
     (case r of
        None \<Rightarrow> Some (0, glass_throw_exception_by_name glass_RuntimeException ''Failed to get pixel color'' s)
      | Some pixels \<Rightarrow> do { c \<leftarrow> first_opt pixels; Some (c, s) })
   }"

text \<open>\<open>memory\<close> says whether \<open>malloc\<close> finds room for the pixels.\<close>

definition LensRobot_getScreenCapture ::
    "bool \<Rightarrow> int \<Rightarrow> int \<Rightarrow> int \<Rightarrow> int \<Rightarrow> lens \<Rightarrow> (32 word list option \<times> lens) option" where
  "LensRobot_getScreenCapture memory x y width height s =
     (if memory then do {
        r \<leftarrow> glass_screen_capture x y width height s;
        (case r of
           None \<Rightarrow> Some (None, glass_throw_exception_by_name glass_RuntimeException ''Failed to capture screen'' s)
         | Some pixels \<Rightarrow> Some (Some pixels, s))
      }
      else Some (None, glass_throw_exception_by_name ''java/lang/OutOfMemoryError''
             ''Failed to allocate a buffer for screen capture'' s))"

end
