(* ===== verification/ScreenPaint.thy ===== *)
theory ScreenPaint
  imports LensRobot
begin

text \<open>
  What painting and capturing do to the pixels of the headless screen: the bits of a pixel, the
  arithmetic of blending, the rectangle that a paint writes, the rows that a capture reads.
\<close>

section \<open>Bits of a pixel\<close>

lemma mask_bytes:
  "(0xff :: 32 word) = mask 8" "(0xff00 :: 32 word) = push_bit 8 (mask 8)"
  "(0xff0000 :: 32 word) = push_bit 16 (mask 8)" "(0xff000000 :: 32 word) = push_bit 24 (mask 8)"
  "(0xff00ff00 :: 32 word) = push_bit 8 (mask 8) OR push_bit 24 (mask 8)"
proof -
  show m: "(0xff :: 32 word) = mask 8" by (simp add: mask_eq_exp_minus_1)
  show "(0xff00 :: 32 word) = push_bit 8 (mask 8)" "(0xff0000 :: 32 word) = push_bit 16 (mask 8)"
    "(0xff000000 :: 32 word) = push_bit 24 (mask 8)"
    "(0xff00ff00 :: 32 word) = push_bit 8 (mask 8) OR push_bit 24 (mask 8)"
    by (simp_all only: m [symmetric]) simp_all
qed

lemma bit_swap:
  "n < 32 \<Longrightarrow> bit (swap_red_blue p) n =
     (if n < 8 then bit p (n + 16) else if 16 \<le> n \<and> n < 24 then bit p (n - 16) else bit p n)"
  unfolding swap_red_blue_def mask_bytes
  by (simp only: bit_simps) (auto simp: bit_and_iff bit_push_bit_iff bit_mask_iff add.commute dest: bit_imp_le_length)

lemma swap_swap: "swap_red_blue (swap_red_blue p) = p"
  by (rule bit_word_eqI) (auto simp: bit_swap)

text \<open>The byte of a pixel that starts at a bit.\<close>

definition channel :: "nat \<Rightarrow> 32 word \<Rightarrow> 32 word" where
  "channel k p = drop_bit k p AND 0xff"

lemma channel_masks:
  "drop_bit 24 (p AND 0xff000000) = channel 24 p" "drop_bit 16 (p AND 0xff0000) = channel 16 p"
  "drop_bit 8 (p AND 0xff00) = channel 8 p" "p AND 0xff = channel 0 p"
  unfolding channel_def mask_bytes
  by (rule bit_word_eqI; auto simp: bit_simps)+

lemma channel_lt: "unat (channel k p) < 256"
proof -
  have "channel k p \<le> 0xff" unfolding channel_def by (rule word_and_le1)
  then show ?thesis by (simp add: word_le_nat_alt)
qed

lemma byte_and: "unat (b :: 32 word) < 256 \<Longrightarrow> b AND mask 8 = b"
  by (simp add: take_bit_eq_mask [symmetric] word_unat_eq_iff unsigned_take_bit_eq take_bit_nat_eq_self)

text \<open>Four bytes put together and taken apart again.\<close>

lemma channel_of_bytes:
  assumes "unat r < 256" "unat g < 256" "unat b < 256"
  defines "p \<equiv> 0xff000000 OR push_bit 16 r OR push_bit 8 g OR b"
  shows "channel 24 p = 0xff" "channel 16 p = r" "channel 8 p = g" "channel 0 p = b"
proof -
  have "bit x n \<Longrightarrow> n < 8" if "unat x < 256" for x :: "32 word" and n
    using arg_cong [OF byte_and [OF that], of "\<lambda>w. bit w n"] by (simp add: bit_simps)
  note small = this [OF assms(1)] this [OF assms(2)] this [OF assms(3)]
  show "channel 24 p = 0xff" "channel 16 p = r" "channel 8 p = g" "channel 0 p = b"
    unfolding channel_def mask_bytes p_def
    by (rule bit_word_eqI; auto simp: bit_simps dest: small)+
qed

section \<open>Blending\<close>

lemma unat_byte_mult: "unat (a :: 32 word) < 256 \<Longrightarrow> unat b < 256 \<Longrightarrow> unat (a * b) = unat a * unat b"
proof -
  assume "unat a < 256" "unat b < 256"
  then have "unat a * unat b \<le> 255 * 255" by (intro mult_mono) auto
  then show ?thesis by (simp add: unat_word_ariths)
qed

lemma unat_drop_8: "unat (drop_bit 8 w) = unat (w :: 32 word) div 256"
  by (simp add: drop_bit_eq_div unat_div)

definition mix :: "nat \<Rightarrow> nat \<Rightarrow> nat \<Rightarrow> nat" where
  "mix A c d = (c * A + d * (255 - A)) div 256"

lemma mix_word:
  assumes "unat A < 256" "unat c < 256" "unat d < 256"
  shows "unat (drop_bit 8 (c * A + d * (255 - A) :: 32 word)) = mix (unat A) (unat c) (unat d)"
proof -
  have 255: "unat (255 - A) = 255 - unat A"
    using assms(1) unat_sub [of A 255] by (simp add: word_le_nat_alt)
  have "unat (d * (255 - A)) = unat d * (255 - unat A)"
    using unat_byte_mult [OF assms(3), of "255 - A"] by (simp add: 255)
  moreover have "unat (c * A) = unat c * unat A" using unat_byte_mult assms by simp
  moreover have "unat c * unat A + unat d * (255 - unat A) \<le> 255 * 255 + 255 * 255"
    using assms by (intro add_mono mult_mono) auto
  ultimately have "unat (c * A + d * (255 - A)) = unat c * unat A + unat d * (255 - unat A)"
    by (simp add: unat_word_ariths)
  then show ?thesis by (simp only: mix_def unat_drop_8)
qed

lemma mix_le: "A \<le> 255 \<Longrightarrow> mix A c d \<le> max c d"
proof -
  assume "A \<le> 255"
  then have "c * A + d * (255 - A) \<le> max c d * A + max c d * (255 - A)" by (intro add_mono mult_right_mono) auto
  also have "\<dots> = max c d * 255" using \<open>A \<le> 255\<close> by (simp flip: distrib_left)
  finally show ?thesis by (simp add: mix_def less_mult_imp_div_less)
qed

lemma mix_ge: "A \<le> 255 \<Longrightarrow> c \<le> 255 \<Longrightarrow> min c d \<le> mix A c d + 1"
proof -
  assume A: "A \<le> 255" "c \<le> 255"
  have "min c d * 255 = min c d * A + min c d * (255 - A)" using A by (simp flip: distrib_left)
  also have "\<dots> \<le> c * A + d * (255 - A)" by (intro add_mono mult_right_mono) auto
  finally have "min c d * 255 \<le> c * A + d * (255 - A)" .
  moreover have "min c d \<le> 255" using A(2) by simp
  ultimately show ?thesis unfolding mix_def by linarith
qed

lemma blend_channels:
  assumes a: "unat a < 256" and "a \<noteq> 0" "argb AND 0xff000000 \<noteq> 0" "\<not> (a = 255 \<and> argb AND 0xff000000 = 0xff000000)"
  defines "A \<equiv> unat a * unat (channel 24 argb) div 256"
  shows "channel 24 (blend_pixel a argb d) = 0xff"
    "unat (channel 16 (blend_pixel a argb d)) = mix A (unat (channel 0 argb)) (unat (channel 16 d))"
    "unat (channel 8 (blend_pixel a argb d)) = mix A (unat (channel 8 argb)) (unat (channel 8 d))"
    "unat (channel 0 (blend_pixel a argb d)) = mix A (unat (channel 16 argb)) (unat (channel 0 d))"
proof -
  let ?A = "drop_bit 8 (a * channel 24 argb)"
  have A: "unat ?A = A"
    using unat_byte_mult [OF a channel_lt] by (simp only: A_def unat_drop_8)
  have "unat a * unat (channel 24 argb) \<le> 255 * 255"
    using a channel_lt [of 24 argb] by (intro mult_mono) auto
  then have lt: "A < 256" by (simp add: A_def)
  note m = mix_word [of ?A, unfolded A, OF lt channel_lt channel_lt]
  have le: "mix A c e < 256" if "c < 256" "e < 256" for c e
    using mix_le [of A c e] lt that by simp
  let ?mix = "\<lambda>c e. drop_bit 8 (channel c argb * ?A + channel e d * (255 - ?A))"
  have "blend_pixel a argb d = 0xff000000 OR push_bit 16 (?mix 0 16) OR push_bit 8 (?mix 8 8) OR ?mix 16 0"
  proof -
    have "(a = 255 \<and> argb AND 0xff000000 = 0xff000000) = False" "(a = 0 \<or> argb AND 0xff000000 = 0) = False"
      using assms(2-4) by blast+
    then show ?thesis by (simp only: blend_pixel_def Let_def if_False channel_masks)
  qed
  moreover have "unat (?mix c e) < 256" for c e by (simp add: m le channel_lt)
  note b = channel_of_bytes [OF this this this, of 0 16 8 8 16 0]
  ultimately show "channel 24 (blend_pixel a argb d) = 0xff"
    "unat (channel 16 (blend_pixel a argb d)) = mix A (unat (channel 0 argb)) (unat (channel 16 d))"
    "unat (channel 8 (blend_pixel a argb d)) = mix A (unat (channel 8 argb)) (unat (channel 8 d))"
    "unat (channel 0 (blend_pixel a argb d)) = mix A (unat (channel 16 argb)) (unat (channel 0 d))"
    by (simp_all only: m b)
qed

section \<open>Painting a rectangle\<close>

text \<open>
  The pixels that are written when the rows before \<open>y\<close> and the first \<open>x\<close> pixels of the row \<open>y\<close> of a
  rectangle of width \<open>ww\<close> at \<open>wx\<close>, \<open>wy\<close> are done.
\<close>

definition covered :: "nat \<Rightarrow> nat \<Rightarrow> nat \<Rightarrow> nat \<Rightarrow> nat \<Rightarrow> nat \<Rightarrow> bool" where
  "covered wx wy ww y x p \<longleftrightarrow> wx \<le> p mod 600 \<and> p mod 600 < wx + ww \<and> wy \<le> p div 600 \<and>
     (p div 600 < wy + y \<or> p div 600 = wy + y \<and> p mod 600 < wx + x)"

definition painted ::
    "(nat \<Rightarrow> nat \<Rightarrow> 32 word \<Rightarrow> 32 word) \<Rightarrow> 32 word list \<Rightarrow> nat \<Rightarrow> nat \<Rightarrow> nat \<Rightarrow> nat \<Rightarrow> nat \<Rightarrow> 32 word list \<Rightarrow> bool" where
  "painted f fb0 wx wy ww y x fb \<longleftrightarrow> length fb = 480000 \<and> (\<forall>p < 480000. fb ! p =
     (if covered wx wy ww y x p then f (p mod 600 - wx) (p div 600 - wy) (fb0 ! p) else fb0 ! p))"

lemma position: "c < 600 \<Longrightarrow> p = r * 600 + c \<longleftrightarrow> p div 600 = r \<and> p mod 600 = (c :: nat)"
  using div_mult_mod_eq [of p 600] by auto

lemma covered_Suc:
  assumes "x < ww" "wx + ww \<le> 600"
  shows "covered wx wy ww y (Suc x) p = (covered wx wy ww y x p \<or> p = (wy + y) * 600 + (wx + x))"
proof -
  have "p = (wy + y) * 600 + (wx + x) \<longleftrightarrow> p div 600 = wy + y \<and> p mod 600 = wx + x"
    using assms by (intro position) simp
  then show ?thesis using assms(1) by (auto simp: covered_def)
qed

lemma covered_row: "covered wx wy ww y ww p = covered wx wy ww (Suc y) 0 p"
  by (auto simp: covered_def)

lemma painted_step:
  assumes "painted f fb0 wx wy ww y x fb" "x < ww" "wx + ww \<le> 600" "wy + y < 800"
  defines "q \<equiv> (wy + y) * 600 + (wx + x)"
  shows "q < 480000" "fb ! q = fb0 ! q" "painted f fb0 wx wy ww y (Suc x) (fb[q := f x y (fb0 ! q)])"
proof -
  have q: "q div 600 = wy + y" "q mod 600 = wx + x" using position [of "wx + x" q "wy + y"] assms(2,3) by (simp_all add: q_def)
  show lt: "q < 480000" using assms(2-4) by (simp add: q_def)
  have "\<not> covered wx wy ww y x q" by (simp add: covered_def q)
  then show "fb ! q = fb0 ! q" using assms(1) lt by (simp add: painted_def)
  show "painted f fb0 wx wy ww y (Suc x) (fb[q := f x y (fb0 ! q)])"
    using assms(1) covered_Suc [OF assms(2,3), of wy y] q lt by (auto simp: painted_def nth_list_update q_def)
qed

lemma paint_loop:
  assumes "length fb0 = 480000" "0 < ww \<Longrightarrow> wx + ww \<le> 600" "0 < wh \<Longrightarrow> wy + wh \<le> 800"
    and src: "\<And>y x. y < wh \<Longrightarrow> x < ww \<Longrightarrow> read_at src (int y * width + int x) = Some (g x y)"
  shows "returns (for_range 0 wh (\<lambda>y fb. for_range 0 ww (\<lambda>x fb. do {
            argb \<leftarrow> read_at src (int y * width + int x);
            dst \<leftarrow> read_at fb ((int wy + int y) * 600 + int wx + int x);
            write_at fb ((int wy + int y) * 600 + int wx + int x) (blend_pixel a argb dst)
          }) fb) fb0)
     (painted (\<lambda>x y d. blend_pixel a (g x y) d) fb0 wx wy ww wh 0)"
proof -
  let ?f = "\<lambda>x y d. blend_pixel a (g x y) d"
  have "painted ?f fb0 wx wy ww 0 0 fb0"
    using assms(1) by (auto simp: painted_def covered_def)
  moreover have "returns (for_range 0 ww (\<lambda>x fb. do {
            argb \<leftarrow> read_at src (int y * width + int x);
            dst \<leftarrow> read_at fb ((int wy + int y) * 600 + int wx + int x);
            write_at fb ((int wy + int y) * 600 + int wx + int x) (blend_pixel a argb dst)
          }) fb) (painted ?f fb0 wx wy ww (Suc y) 0)"
    if y: "y < wh" and fb: "painted ?f fb0 wx wy ww y 0 fb" for y fb
  proof -
    have "returns (for_range 0 ww (\<lambda>x fb. do {
            argb \<leftarrow> read_at src (int y * width + int x);
            dst \<leftarrow> read_at fb ((int wy + int y) * 600 + int wx + int x);
            write_at fb ((int wy + int y) * 600 + int wx + int x) (blend_pixel a argb dst)
          }) fb) (painted ?f fb0 wx wy ww y (0 + ww))"
    proof (rule for_range_rule [where I = "painted ?f fb0 wx wy ww y", OF fb])
      fix x fb' assume x: "x < 0 + ww" and p: "painted ?f fb0 wx wy ww y x fb'"
      define q where "q = (wy + y) * 600 + (wx + x)"
      have i: "(int wy + int y) * 600 + int wx + int x = int q" by (simp add: q_def)
      have "wy + y < 800" "x < ww" "wx + ww \<le> 600" using y x assms(2,3) by simp_all
      note step = painted_step [OF p this(2,3,1), folded q_def]
      have len: "length fb' = 480000" using p by (simp add: painted_def)
      show "returns (do {
            argb \<leftarrow> read_at src (int y * width + int x);
            dst \<leftarrow> read_at fb' ((int wy + int y) * 600 + int wx + int x);
            write_at fb' ((int wy + int y) * 600 + int wx + int x) (blend_pixel a argb dst)
          }) (painted ?f fb0 wx wy ww y (Suc x))"
        using step src [OF y, of x] x
        unfolding i by (simp add: read_at_def [of fb'] write_at_def len)
    qed
    then show ?thesis by (rule returns_conseq) (simp add: painted_def covered_row)
  qed
  ultimately show ?thesis
    using for_range_rule [where I = "\<lambda>y. painted ?f fb0 wx wy ww y 0" and i = 0 and n = wh] by auto
qed


definition pixel_at :: "32 word list \<Rightarrow> int \<Rightarrow> int \<Rightarrow> 32 word" where
  "pixel_at fb c r = fb ! nat (r * 600 + c)"

lemma clipped:
  assumes "0 \<le> x" "0 \<le> c" "c < n"
  shows "nat x \<le> nat c \<and> nat c < nat x + nat (if x + w > n then n - x else w) \<longleftrightarrow> x \<le> c \<and> c < x + (w :: int)"
proof (cases "x + w > n")
  case True
  then show ?thesis using assms by (cases "x \<le> n") (simp_all add: nat_add_distrib [symmetric] nat_less_eq_zless nat_le_eq_zle)
next
  case False
  then show ?thesis
    using assms by (cases "0 \<le> w") (auto simp add: nat_add_distrib [symmetric] nat_less_eq_zless nat_le_eq_zle)
qed

lemma attach_exact:
  assumes win: "windows s w = Some win" and scr: "mainScreen s = Some (lens_screen_initialize (Some fb0))" "length fb0 = 480000"
    and a: "paint_alpha (alpha win) = Some a"
    and bounds: "b_x (currentBounds win) = x" "b_y (currentBounds win) = y" "0 \<le> x" "0 \<le> y"
    and src: "width * height \<le> int (length src)"
  shows "\<exists>fb. glass_pixel_attachIntBuffer src w width height offset s =
       Some (s\<lparr>mainScreen := Some (lens_screen_initialize (Some fb))\<rparr>) \<and> length fb = 480000 \<and>
     (\<forall>c r. 0 \<le> c \<and> c < 600 \<and> 0 \<le> r \<and> r < 800 \<longrightarrow> pixel_at fb c r =
        (if x \<le> c \<and> c < x + width \<and> y \<le> r \<and> r < y + height
         then blend_pixel a (src ! nat ((r - y) * width + (c - x))) (pixel_at fb0 c r)
         else pixel_at fb0 c r))"
proof -
  define ww where "ww = nat (if x + width > 600 then 600 - x else width)"
  define wh where "wh = nat (if y + height > 800 then 800 - y else height)"
  let ?g = "\<lambda>i j. src ! nat (int j * width + int i)"
  have read: "read_at src (int j * width + int i) = Some (?g i j)" if "j < wh" "i < ww" for i j
  proof -
    have w: "0 \<le> width" "int i < width" "int j + 1 \<le> height" using that bounds by (auto simp: ww_def wh_def split: if_splits)
    have "int j * width + int i < (int j + 1) * width" using w by (simp add: distrib_right)
    also have "\<dots> \<le> height * width" using w by (intro mult_right_mono) auto
    finally have "int j * width + int i < int (length src)" using src by (simp add: mult.commute)
    then show ?thesis using w by (simp add: read_at_def nat_less_iff)
  qed
  let ?loop = "for_range 0 wh (\<lambda>j fb. for_range 0 ww (\<lambda>i fb. do {
            argb \<leftarrow> read_at src (int j * width + int i);
            dst \<leftarrow> read_at fb ((int (nat y) + int j) * 600 + int (nat x) + int i);
            write_at fb ((int (nat y) + int j) * 600 + int (nat x) + int i) (blend_pixel a argb dst)
          }) fb) fb0"
  have "returns ?loop (painted (\<lambda>i j d. blend_pixel a (?g i j) d) fb0 (nat x) (nat y) ww wh 0)"
    using bounds by (intro paint_loop [OF scr(2) _ _ read]) (auto simp: ww_def wh_def)
  then obtain fb where fb: "?loop = Some fb"
    and p: "painted (\<lambda>i j d. blend_pixel a (?g i j) d) fb0 (nat x) (nat y) ww wh 0 fb"
    by (auto simp: returns_iff)
  have "glass_pixel_attachIntBuffer src w width height offset s =
       Some (s\<lparr>mainScreen := Some (lens_screen_initialize (Some fb))\<rparr>)"
    using fb win scr a bounds
    by (cases "x + width > 600"; cases "y + height > 800")
       (simp_all add: glass_pixel_attachIntBuffer_def glass_screen_getMainScreen_def ww_def wh_def)
  moreover have "pixel_at fb c r =
        (if x \<le> c \<and> c < x + width \<and> y \<le> r \<and> r < y + height
         then blend_pixel a (src ! nat ((r - y) * width + (c - x))) (pixel_at fb0 c r)
         else pixel_at fb0 c r)" if "0 \<le> c" "c < 600" "0 \<le> r" "r < 800" for c r
  proof -
    define q where "q = nat (r * 600 + c)"
    have "q = nat r * 600 + nat c" using that by (simp add: q_def nat_add_distrib nat_mult_distrib)
    then have q: "q div 600 = nat r" "q mod 600 = nat c" using position [of "nat c" q "nat r"] that by simp_all
    have lt: "q < 480000" using \<open>q = nat r * 600 + nat c\<close> that by simp
    have "covered (nat x) (nat y) ww wh 0 q \<longleftrightarrow> x \<le> c \<and> c < x + width \<and> y \<le> r \<and> r < y + height"
    proof -
      have "nat x \<le> nat c \<and> nat c < nat x + ww \<longleftrightarrow> x \<le> c \<and> c < x + width"
        using clipped [OF bounds(3) that(1,2)] by (simp add: ww_def)
      moreover have "nat y \<le> nat r \<and> nat r < nat y + wh \<longleftrightarrow> y \<le> r \<and> r < y + height"
        using clipped [OF bounds(4) that(3,4)] by (simp add: wh_def)
      ultimately show ?thesis unfolding covered_def q by auto
    qed
    moreover have "int (nat r - nat y) * width + int (nat c - nat x) = (r - y) * width + (c - x)"
      if "x \<le> c" "y \<le> r" using that bounds \<open>0 \<le> c\<close> \<open>0 \<le> r\<close> by (simp add: nat_diff_distrib [symmetric] nat_0_le)
    ultimately show ?thesis
      using p lt unfolding painted_def pixel_at_def q_def [symmetric] by (auto simp: q)
  qed
  moreover have "length fb = 480000" using p by (simp add: painted_def)
  ultimately show ?thesis by auto
qed

section \<open>Opacity\<close>

lemma paint_alpha_ok:
  assumes "0 \<le> a" "a \<le> 1"
  shows "\<exists>b. paint_alpha a = Some b \<and> unat b < 256"
proof -
  let ?x = "float32 (255 * a)"
  have "0 \<le> ?x" "?x \<le> 2 * (255 * a)" using float32_bounds [of "255 * a"] assms(1) by simp_all
  then have "- 1 < ?x" "?x < 2 ^ 32" using assms(2) by simp_all
  moreover have "unat (x AND 0xff :: 32 word) < 256" for x
    using channel_lt [of 0 x] by (simp add: channel_def)
  ultimately show ?thesis by (simp add: paint_alpha_def)
qed

lemma paint_alpha_1: "paint_alpha 1 = Some 255"
  by code_simp

lemma blend_opaque: "channel 24 p = 0xff \<Longrightarrow> blend_pixel 255 p d = swap_red_blue p"
proof -
  assume "channel 24 p = 0xff"
  then have "push_bit 24 (drop_bit 24 (p AND 0xff000000)) = 0xff000000" by (simp only: channel_masks) simp
  moreover have "push_bit 24 (drop_bit 24 (p AND 0xff000000)) = p AND 0xff000000"
    unfolding mask_bytes by (rule bit_word_eqI) (auto simp: bit_simps)
  ultimately show ?thesis by (simp add: blend_pixel_def)
qed

section \<open>Capturing a region\<close>

definition capture_row :: "32 word list \<Rightarrow> int \<Rightarrow> int \<Rightarrow> nat \<Rightarrow> 32 word list" where
  "capture_row fb x y n = map (\<lambda>j. swap_red_blue (pixel_at fb (x + int j) y)) [0..<n]"

lemma capture_row_loop:
  assumes "length fb = 480000" "0 \<le> x" "x + int n \<le> 600" "0 \<le> y" "y < 800"
  shows "for_range 0 n (\<lambda>xs out.
              if int ys < 800 \<and> int xs < 600 then do {
                argb \<leftarrow> read_at fb (y * 600 + x + int xs);
                Some (out @ [swap_red_blue argb])
              }
              else Some (out @ [0xff000000])) out =
     (if ys < 800 then Some (out @ capture_row fb x y n) else Some (out @ replicate n 0xff000000))"
proof -
  have "returns (for_range 0 n (\<lambda>xs out.
              if int ys < 800 \<and> int xs < 600 then do {
                argb \<leftarrow> read_at fb (y * 600 + x + int xs);
                Some (out @ [swap_red_blue argb])
              }
              else Some (out @ [0xff000000])) out)
     (\<lambda>o'. o' = out @ (if ys < 800 then capture_row fb x y (0 + n) else replicate (0 + n) 0xff000000))"
  proof (rule for_range_rule)
    show "out = out @ (if ys < 800 then capture_row fb x y 0 else replicate 0 0xff000000)"
      by (simp add: capture_row_def)
    fix k o' assume k: "k < 0 + n" and o': "o' = out @ (if ys < 800 then capture_row fb x y k else replicate k 0xff000000)"
    have "y * 600 + (x + int k) < 480000" using assms k by simp
    then have "read_at fb (y * 600 + x + int k) = Some (pixel_at fb (x + int k) y)"
      using assms by (simp add: read_at_def pixel_at_def add.assoc nat_less_iff)
    then show "returns (if int ys < 800 \<and> int k < 600 then do {
                argb \<leftarrow> read_at fb (y * 600 + x + int k);
                Some (o' @ [swap_red_blue argb])
              }
              else Some (o' @ [0xff000000]))
          (\<lambda>o''. o'' = out @ (if ys < 800 then capture_row fb x y (Suc k) else replicate (Suc k) 0xff000000))"
      using k o' assms by (simp add: capture_row_def replicate_append_same)
  qed
  then show ?thesis by (auto simp: returns_iff)
qed

lemma concat_replicate_append: "concat (replicate k ys) @ ys = ys @ concat (replicate k ys)"
  by (induction k) auto

lemma capture_exact:
  assumes scr: "mainScreen s = Some (lens_screen_initialize (Some fb))" "length fb = 480000"
    and "0 \<le> x" "0 \<le> width" "x + width \<le> 600" "0 \<le> y" "0 \<le> height" "y + height \<le> 800" "y < 800"
  shows "glass_screen_capture x y width height s =
     Some (Some (concat (replicate (nat height) (capture_row fb x y (nat width)))))"
proof -
  have h: "0 + nat height \<le> 800" using assms(8,6) by simp
  have row: "for_range 0 (nat width) (\<lambda>xs out.
              if int ys < 800 \<and> int xs < 600 then do {
                argb \<leftarrow> read_at fb (y * 600 + x + int xs);
                Some (out @ [swap_red_blue argb])
              }
              else Some (out @ [0xff000000])) out = Some (out @ capture_row fb x y (nat width))"
    if "ys < nat height" for ys out
    using capture_row_loop [OF scr(2) assms(3) _ assms(6,9), of "nat width" ys out] assms(4,5) h that by simp
  have "returns (for_range 0 (nat height) (\<lambda>ys out. for_range 0 (nat width) (\<lambda>xs out.
              if int ys < 800 \<and> int xs < 600 then do {
                argb \<leftarrow> read_at fb (y * 600 + x + int xs);
                Some (out @ [swap_red_blue argb])
              }
              else Some (out @ [0xff000000])) out) [])
     (\<lambda>out. out = concat (replicate (0 + nat height) (capture_row fb x y (nat width))))"
  proof (rule for_range_rule)
    show "[] = concat (replicate 0 (capture_row fb x y (nat width)))" by simp
    fix k o' assume "k < 0 + nat height" "o' = concat (replicate k (capture_row fb x y (nat width)))"
    then show "returns (for_range 0 (nat width) (\<lambda>xs out.
              if int k < 800 \<and> int xs < 600 then do {
                argb \<leftarrow> read_at fb (y * 600 + x + int xs);
                Some (out @ [swap_red_blue argb])
              }
              else Some (out @ [0xff000000])) o')
          (\<lambda>out. out = concat (replicate (Suc k) (capture_row fb x y (nat width))))"
      using row [of k o'] by (simp add: concat_replicate_append)
  qed
  then show ?thesis
    using assms by (auto simp: glass_screen_capture_def glass_screen_getMainScreen_def returns_iff cong: if_cong)
qed

section \<open>Properties\<close>

text \<open>
  C22: painting a view whose window starts on the screen. The call returns, only the pixels of the
  screen change, and of these exactly the ones of the painted rectangle that are on the screen: each
  becomes the blend of its source pixel, in the opacity of the window, with what was there. Parts of
  the rectangle beyond the right and the lower edge are cut off.
\<close>

theorem paint_exact:
  assumes "views s v = Some nv" and "parent nv = Some w" and "windows s w = Some win"
    and "mainScreen s = Some (lens_screen_initialize (Some fb0))" and "length fb0 = 480000"
    and "0 \<le> alpha win" and "alpha win \<le> 1" and "x = b_x (currentBounds win)" and "y = b_y (currentBounds win)"
    and "0 \<le> x" and "0 \<le> y" and "width * height \<le> int (length src)"
  shows "\<exists>a fb. paint_alpha (alpha win) = Some a \<and> LensView_paintInt (Some v) width height (Some src) offset s =
       Some (s\<lparr>mainScreen := Some (lens_screen_initialize (Some fb))\<rparr>) \<and> length fb = 480000 \<and>
     (\<forall>c r. 0 \<le> c \<and> c < 600 \<and> 0 \<le> r \<and> r < 800 \<longrightarrow> fb ! nat (r * 600 + c) =
        (if x \<le> c \<and> c < x + width \<and> y \<le> r \<and> r < y + height
         then blend_pixel a (src ! nat ((r - y) * width + (c - x))) (fb0 ! nat (r * 600 + c))
         else fb0 ! nat (r * 600 + c)))"
proof -
  obtain a where a: "paint_alpha (alpha win) = Some a" using paint_alpha_ok [OF assms(6,7)] by blast
  obtain fb where fb: "glass_pixel_attachIntBuffer src w width height offset s =
       Some (s\<lparr>mainScreen := Some (lens_screen_initialize (Some fb))\<rparr>)" "length fb = 480000"
    and px: "\<forall>c r. 0 \<le> c \<and> c < 600 \<and> 0 \<le> r \<and> r < 800 \<longrightarrow> fb ! nat (r * 600 + c) =
        (if x \<le> c \<and> c < x + width \<and> y \<le> r \<and> r < y + height
         then blend_pixel a (src ! nat ((r - y) * width + (c - x))) (fb0 ! nat (r * 600 + c))
         else fb0 ! nat (r * 600 + c))"
    using attach_exact [OF assms(3-5) a assms(8,9) [symmetric] assms(10-12), of offset, unfolded pixel_at_def] by blast
  have "LensView_paintInt (Some v) width height (Some src) offset s =
       Some (s\<lparr>mainScreen := Some (lens_screen_initialize (Some fb))\<rparr>)"
    using assms(1,2) fb(1) by (simp add: LensView_paintInt_def lens_wm_notifyWindowUpdate_def)
  with a fb(2) px show ?thesis by blast
qed

theorem paint_exact_witness:
  "\<exists>fb. LensView_paintInt (Some 12) 2 1 (Some [0xff123456, 0xffabcdef]) 0 desk =
     Some (desk\<lparr>mainScreen := Some (lens_screen_initialize (Some fb))\<rparr>) \<and>
     fb ! 60100 = 0xff563412 \<and> fb ! 60101 = 0xffefcdab \<and> fb ! 60102 = 0xff000000"
proof -
  obtain a fb where a: "paint_alpha 1 = Some a" and fb: "LensView_paintInt (Some 12) 2 1 (Some [0xff123456, 0xffabcdef]) 0 desk =
       Some (desk\<lparr>mainScreen := Some (lens_screen_initialize (Some fb))\<rparr>)"
    and px: "\<forall>c r. 0 \<le> c \<and> c < 600 \<and> 0 \<le> r \<and> r < 800 \<longrightarrow> fb ! nat (r * 600 + c) =
        (if 100 \<le> c \<and> c < 100 + 2 \<and> 100 \<le> r \<and> r < 100 + 1
         then blend_pixel a ([0xff123456, 0xffabcdef] ! nat ((r - 100) * 2 + (c - 100))) (blank_pixels ! nat (r * 600 + c))
         else blank_pixels ! nat (r * 600 + c))"
    using paint_exact [of desk 12 "\<lparr>lensView = Some 112, parent = Some 2, view_bounds = zero_bounds\<rparr>" 2
        "(desk_window 2 100)\<lparr>previousWindow := Some 1\<rparr>" blank_pixels 100 100 2 1 "[0xff123456, 0xffabcdef]" 0]
    by (auto simp: desk_def desk_window_def)
  have "a = 255" using a paint_alpha_1 by simp
  then have "fb ! 60100 = 0xff563412 \<and> fb ! 60101 = 0xffefcdab \<and> fb ! 60102 = 0xff000000"
    using px [rule_format, of 100 100] px [rule_format, of 101 100] px [rule_format, of 102 100]
    by (simp add: blend_pixel_def swap_red_blue_def blank_pixels_def)
  with fb show ?thesis by blast
qed

text \<open>
  Painting a view whose window starts above the screen, or to its left in the first row: the first
  pixel is written before the start of the buffer.
\<close>

theorem paint_before_buffer:
  assumes "views s v = Some nv" and "parent nv = Some w" and "windows s w = Some win"
    and "mainScreen s = Some (lens_screen_initialize (Some fb0))"
    and "b_y (currentBounds win) * 600 + b_x (currentBounds win) < 0"
    and "b_x (currentBounds win) < 600" and "b_y (currentBounds win) < 800" and "0 < width" and "0 < height"
  shows "LensView_paintInt (Some v) width height (Some src) offset s = None"
proof -
  let ?x = "b_x (currentBounds win)" and ?y = "b_y (currentBounds win)"
  have "0 < nat (if ?x + width > 600 then 600 - ?x else width)" using assms(6,8) by simp
  then obtain n where n: "nat (if ?x + width > 600 then 600 - ?x else width) = Suc n" by (rule gr0_implies_Suc [THEN exE])
  have "0 < nat (if ?y + height > 800 then 800 - ?y else height)" using assms(7,9) by simp
  then obtain m where m: "nat (if ?y + height > 800 then 800 - ?y else height) = Suc m" by (rule gr0_implies_Suc [THEN exE])
  have "read_at fb (?y * 600 + ?x) = None" for fb :: "32 word list" using assms(5) by (simp add: read_at_def)
  then have "glass_pixel_attachIntBuffer src w width height offset s = None"
    using assms(3,4) unfolding glass_pixel_attachIntBuffer_def glass_screen_getMainScreen_def
    by (cases "paint_alpha (alpha win)") (simp_all add: Let_def n m split del: if_split cong: if_cong)
  then show ?thesis using assms(1,2) by (simp add: LensView_paintInt_def)
qed

theorem paint_before_buffer_witness:
  "LensView_paintInt (Some 11) 1 1 (Some [0]) 0 (desk\<lparr>windows := (windows desk)(1 \<mapsto> desk_window 1 (- 1))\<rparr>) = None"
  by (rule paint_before_buffer [of _ _ "\<lparr>lensView = Some 111, parent = Some 1, view_bounds = zero_bounds\<rparr>" 1
        "desk_window 1 (- 1)" blank_pixels]) (simp_all add: desk_def desk_window_def)

text \<open>
  C23: blending never overflows from one colour into another: each colour of the result is at most the
  greater one of source and destination, and at least the smaller one less one (the division by 256
  darkens by one), and a pixel that is not transparent becomes opaque.
\<close>

theorem blend_within:
  assumes "unat a < 256" and "\<not> (a = 0 \<or> argb AND 0xff000000 = 0)"
  shows "channel 24 (blend_pixel a argb d) = 0xff \<and> (\<forall>k\<in>{0, 8, 16}.
     unat (channel k (blend_pixel a argb d)) \<le> max (unat (channel (16 - k) argb)) (unat (channel k d)) \<and>
     min (unat (channel (16 - k) argb)) (unat (channel k d)) \<le> unat (channel k (blend_pixel a argb d)) + 1)"
proof (cases "a = 255 \<and> argb AND 0xff000000 = 0xff000000")
  case True
  then have "blend_pixel a argb d = swap_red_blue argb" by (simp add: blend_pixel_def)
  moreover have "channel 24 (swap_red_blue argb) = channel 24 argb" "channel 16 (swap_red_blue argb) = channel 0 argb"
    "channel 8 (swap_red_blue argb) = channel 8 argb" "channel 0 (swap_red_blue argb) = channel 16 argb"
    unfolding channel_def mask_bytes by (rule bit_word_eqI; auto simp: bit_simps bit_swap add.commute)+
  moreover have "channel 24 argb = 0xff" using True channel_masks(1) [of argb] by simp
  ultimately show ?thesis by (auto intro: le_SucI)
next
  case False
  define A where "A = unat a * unat (channel 24 argb) div 256"
  have "unat a * unat (channel 24 argb) \<le> 255 * 255"
    using assms(1) channel_lt [of 24 argb] by (intro mult_mono) auto
  then have A: "A \<le> 255" by (simp add: A_def)
  have le: "unat (channel k p) \<le> 255" for k p using channel_lt [of k p] by simp
  have "a \<noteq> 0" "argb AND 0xff000000 \<noteq> 0" using assms(2) by blast+
  note b = blend_channels [OF assms(1) this False, of d, folded A_def]
  show ?thesis
    using b mix_le [OF A] mix_ge [OF A le] by simp
qed

theorem blend_within_witness:
  "unat (channel 8 (blend_pixel 128 0x80ff40ff 0xff00c000)) \<le> 0xc0"
proof -
  have "channel 8 (0x80ff40ff :: 32 word) = 0x40" "channel 8 (0xff00c000 :: 32 word) = 0xc0"
    by (simp_all add: channel_def)
  with blend_within [of 128 "0x80ff40ff" "0xff00c000"] show ?thesis by simp
qed

text \<open>
  Capturing a region inside the screen copies the first row of the region, with red and blue
  swapped back, into every row of the result.
\<close>

theorem capture_repeats_first_row:
  assumes "mainScreen s = Some (lens_screen_initialize (Some fb))" and "length fb = 480000"
    and "0 \<le> x" and "0 \<le> width" and "x + width \<le> 600" and "0 \<le> y" and "0 \<le> height" and "y + height \<le> 800" and "y < 800"
  shows "LensRobot_getScreenCapture True x y width height s =
     Some (Some (concat (replicate (nat height)
        (map (\<lambda>j. swap_red_blue (fb ! nat (y * 600 + (x + int j)))) [0..<nat width]))), s)"
  using capture_exact [OF assms]
  by (simp add: LensRobot_getScreenCapture_def capture_row_def pixel_at_def)

theorem capture_repeats_first_row_witness:
  "LensRobot_getScreenCapture True 0 0 2 2 (desk\<lparr>mainScreen :=
      Some (lens_screen_initialize (Some (replicate 600 1 @ replicate 479400 2)))\<rparr>) \<bind> fst =
     Some [0x10000, 0x10000, 0x10000, 0x10000]"
  by (subst capture_repeats_first_row [of _ "replicate 600 1 @ replicate 479400 2"])
     (simp_all add: swap_red_blue_def nth_append numeral_2_eq_2)

text \<open>
  C24: a pixel painted opaque by an opaque window comes back unchanged when its colour is read.
\<close>

theorem paint_then_getPixelColor:
  assumes "views s v = Some nv" and "parent nv = Some w" and "windows s w = Some win"
    and "mainScreen s = Some (lens_screen_initialize (Some fb0))" and "length fb0 = 480000" and "alpha win = 1"
    and "x = b_x (currentBounds win)" and "y = b_y (currentBounds win)" and "0 \<le> x" and "0 \<le> y"
    and "width * height \<le> int (length src)" and "0 \<le> i" and "i < width" and "0 \<le> j" and "j < height"
    and "x + i < 600" and "y + j < 800" and "channel 24 (src ! nat (j * width + i)) = 0xff"
  shows "returns (LensView_paintInt (Some v) width height (Some src) offset s) (\<lambda>s'.
     LensRobot_getPixelColor (x + i) (y + j) s' = Some (src ! nat (j * width + i), s'))"
proof -
  have a: "paint_alpha (alpha win) = Some 255" using assms(6) paint_alpha_1 by simp
  obtain fb where p: "glass_pixel_attachIntBuffer src w width height offset s =
       Some (s\<lparr>mainScreen := Some (lens_screen_initialize (Some fb))\<rparr>)" and len: "length fb = 480000"
    and px: "\<And>c r. 0 \<le> c \<Longrightarrow> c < 600 \<Longrightarrow> 0 \<le> r \<Longrightarrow> r < 800 \<Longrightarrow> pixel_at fb c r =
        (if x \<le> c \<and> c < x + width \<and> y \<le> r \<and> r < y + height
         then blend_pixel 255 (src ! nat ((r - y) * width + (c - x))) (pixel_at fb0 c r)
         else pixel_at fb0 c r)"
    using attach_exact [OF assms(3-5) a assms(7,8) [symmetric] assms(9-11), of offset] by blast
  let ?s = "s\<lparr>mainScreen := Some (lens_screen_initialize (Some fb))\<rparr>"
  have "pixel_at fb (x + i) (y + j) = swap_red_blue (src ! nat (j * width + i))"
    using px [of "x + i" "y + j"] assms(9,10,12-17) blend_opaque [OF assms(18)] by simp
  then have "glass_screen_capture (x + i) (y + j) 1 1 ?s = Some (Some [src ! nat (j * width + i)])"
    using capture_exact [of ?s fb "x + i" 1 "y + j" 1] len assms(9,10,12-17)
    by (simp add: capture_row_def swap_swap)
  then show ?thesis
    using p assms(1,2)
    by (simp add: LensView_paintInt_def lens_wm_notifyWindowUpdate_def LensRobot_getPixelColor_def)
qed

theorem paint_then_getPixelColor_witness:
  "LensView_paintInt (Some 12) 1 1 (Some [0xff123456]) 0 desk \<bind>
     (\<lambda>s'. map_option fst (LensRobot_getPixelColor 100 100 s')) = Some 0xff123456"
proof -
  have "returns (LensView_paintInt (Some 12) 1 1 (Some [0xff123456]) 0 desk) (\<lambda>s'.
     LensRobot_getPixelColor (100 + 0) (100 + 0) s' = Some ([0xff123456] ! nat (0 * 1 + 0), s'))"
    by (rule paint_then_getPixelColor [of _ _ "\<lparr>lensView = Some 112, parent = Some 2, view_bounds = zero_bounds\<rparr>" 2
        "(desk_window 2 100)\<lparr>previousWindow := Some 1\<rparr>" blank_pixels])
       (simp_all add: desk_def desk_window_def channel_def)
  then show ?thesis by (auto simp: returns_iff)
qed

text \<open>
  Fitting a view to the screen. The new size is the size of the screen multiplied by the
  smaller of the two truncated quotients of screen and view, whatever the proportions of the view: a
  view of more than half the width or height of the screen gets exactly the size of the screen, a
  view larger than the screen gets none, and any smaller one becomes larger than the screen.
\<close>

theorem fit_is_multiple_of_screen:
  assumes "views s v = Some nv" and "0 < b_width (view_bounds nv)" and "0 < b_height (view_bounds nv)"
    and "0 < scr_width scr" and "0 < scr_height scr"
    and "k = min (scr_width scr div b_width (view_bounds nv)) (scr_height scr div b_height (view_bounds nv))"
  shows "glass_view_fitSurfaceToScreen scr v s = Some (s\<lparr>views := (views s)(v \<mapsto> nv\<lparr>view_bounds :=
     \<lparr>b_x = (scr_width scr - scr_width scr * k) sdiv 2, b_y = (scr_height scr - scr_height scr * k) sdiv 2,
      b_width = scr_width scr * k, b_height = scr_height scr * k\<rparr>\<rparr>)\<rparr>)"
proof -
  have q: "scr_width scr sdiv b_width (view_bounds nv) = scr_width scr div b_width (view_bounds nv)"
    "scr_height scr sdiv b_height (view_bounds nv) = scr_height scr div b_height (view_bounds nv)"
    using assms(2-5) by (simp_all add: signed_divide_int_def)
  have k: "0 \<le> k" using assms(2-6) by (simp add: pos_imp_zdiv_nonneg_iff)
  have "fit_length n (of_int k) = n * k" if "0 < n" for n
  proof -
    have "of_int n * (of_int k :: rat) + 1 / 2 = of_int (n * k) + 1 / 2" by simp
    moreover have "0 \<le> of_int (n * k) + (1 / 2 :: rat)" using that k by (simp add: add_nonneg_nonneg)
    moreover have "\<lfloor>of_int (n * k) + (1 / 2 :: rat)\<rfloor> = n * k" by (rule floor_unique) simp_all
    ultimately show ?thesis by (simp only: fit_length_def truncate_to_int_def not_less [symmetric] if_False)
  qed
  note fit = this [OF assms(4)] this [OF assms(5)]
  have ratio: "(if scr_width scr div b_width (view_bounds nv) < scr_height scr div b_height (view_bounds nv)
     then of_int (scr_width scr div b_width (view_bounds nv)) else of_int (scr_height scr div b_height (view_bounds nv))) =
     (of_int k :: rat)"
    using assms(6) by (simp add: min_def)
  show ?thesis
    using assms(1-3) fit unfolding glass_view_fitSurfaceToScreen_def
    by (simp add: q ratio update_view_def Let_def)
qed

theorem fit_is_multiple_of_screen_witness:
  "map_option (\<lambda>s. map_option (b_width \<circ> view_bounds) (views s 1))
     (glass_view_fitSurfaceToScreen ((lens_screen_initialize None)\<lparr>scr_width := 1200, scr_height := 700\<rparr>) 1
       (lens_init\<lparr>views := [1 \<mapsto> calloc_view\<lparr>view_bounds := \<lparr>b_x = 0, b_y = 0, b_width = 356, b_height = 321\<rparr>\<rparr>]\<rparr>)) =
     Some (Some 2400)"
  by (subst fit_is_multiple_of_screen
        [where nv = "calloc_view\<lparr>view_bounds := \<lparr>b_x = 0, b_y = 0, b_width = 356, b_height = 321\<rparr>\<rparr>" and k = 2])
     (simp_all add: lens_init_def)

end
