(* ===== verification/LensMachine.thy ===== *)
theory LensMachine
  imports ScreenPaint
begin

text \<open>
  The window system as a whole: the requests that input devices and Java make of it, what a caller
  must respect, and what holds of every state that can be reached.
\<close>


section \<open>Requests\<close>

datatype request =
    \<comment> \<open>input devices\<close>
    Key int int bool
  | Motion int int
  | Button bool int int int
  | Scroll int int int
  | Touch "int list" "int list" "int list" "int list" int
    \<comment> \<open>native methods of windows\<close>
  | CreateWindow win jobject "win option" int int
  | CloseWindow "win option"
  | AttachView "win option" "viewp option"
  | Minimize bool "win option"
  | Maximize bool bool "win option"
  | SetBounds int int int int bool bool bool "win option"
  | SetVisible bool "win option"
  | RequestFocus int "win option"
  | SetFocusable bool "win option"
  | SetLevel int "win option"
  | SetAlpha rat "win option"
  | SetEnabled bool "win option"
  | SetMinimumSize int int "win option"
  | SetMaximumSize int int "win option"
  | ToFront "win option"
  | ToBack "win option"
  | GrabFocus "win option"
  | UngrabFocus "win option"
    \<comment> \<open>native methods of views\<close>
  | CreateView viewp jobject
  | CloseView viewp
  | SetParent viewp "win option"
  | BeginPaint "viewp option"
  | EndPaint "viewp option"
  | PaintInt viewp int int "32 word list" int
  | PaintIntDirect viewp int int "32 word list option"
  | EnterFullscreen viewp
  | ExitFullscreen viewp
    \<comment> \<open>the robot, drag and drop, repainting\<close>
  | PostKey int int
  | PostScroll int
  | PostMouse int int int int
  | GetPixelColor int int
  | ScreenCapture bool int int int int
  | DnDStarted
  | DnDEnded
  | RepaintAll

text \<open>A request that returns a value to Java is performed for its effect on the state.\<close>

definition state_of :: "('a \<times> lens) option \<Rightarrow> lens option" where
  "state_of r = map_option snd r"

fun perform :: "request \<Rightarrow> lens \<Rightarrow> lens option" where
  "perform (Key e k rep) s = glass_application_notifyKeyEvent (glass_window_getFocusedWindow s) e k rep s"
| "perform (Motion x y) s = lens_wm_notifyMotionEvent x y s"
| "perform (Button pressed b x y) s = lens_wm_notifyButtonEvent pressed b x y s"
| "perform (Scroll x y n) s = lens_wm_notifyScrollEvent x y n s"
| "perform (Touch states ids xs ys p) s = lens_wm_notifyMultiTouchEvent (length states) states ids xs ys p s"
| "perform (CreateWindow w j own scr m) s = state_of (LensWindow_createWindow (Some w) (Some j) own scr m s)"
| "perform (CloseWindow w) s = state_of (LensWindow_close w s)"
| "perform (AttachView w v) s = state_of (LensWindow_attachViewToWindow w v s)"
| "perform (Minimize b w) s = state_of (LensWindow_minimize b w s)"
| "perform (Maximize b c w) s = state_of (LensWindow_maximize b c w s)"
| "perform (SetBounds x y wd ht p z c w) s = state_of (LensWindow_setBoundsImpl x y wd ht p z c w s)"
| "perform (SetVisible b w) s = state_of (LensWindow_setVisible b w s)"
| "perform (RequestFocus e w) s = state_of (LensWindow_requestFocus e w s)"
| "perform (SetFocusable b w) s = state_of (LensWindow_setFocusable b w s)"
| "perform (SetLevel l w) s = state_of (LensWindow_setLevel l w s)"
| "perform (SetAlpha a w) s = state_of (LensWindow_setAlpha a w s)"
| "perform (SetEnabled b w) s = state_of (LensWindow_setEnabled b w s)"
| "perform (SetMinimumSize x y w) s = state_of (LensWindow_setMinimumSize x y w s)"
| "perform (SetMaximumSize x y w) s = state_of (LensWindow_setMaximumSize x y w s)"
| "perform (ToFront w) s = state_of (LensWindow_toFrontImpl w s)"
| "perform (ToBack w) s = state_of (LensWindow_toBackImpl w s)"
| "perform (GrabFocus w) s = state_of (LensWindow_grabFocus w s)"
| "perform (UngrabFocus w) s = state_of (LensWindow_ungrabFocus w s)"
| "perform (CreateView v j) s = state_of (LensView_createNativeView (Some v) (Some j) s)"
| "perform (CloseView v) s = state_of (LensView_close (Some v) s)"
| "perform (SetParent v p) s = LensView_setParent (Some v) p s"
| "perform (BeginPaint v) s = LensView_begin v s"
| "perform (EndPaint v) s = Some (LensView_end v s)"
| "perform (PaintInt v wd ht src offset) s = LensView_paintInt (Some v) wd ht (Some src) offset s"
| "perform (PaintIntDirect v wd ht src) s = LensView_paintIntDirect (Some v) wd ht src s"
| "perform (EnterFullscreen v) s = state_of (LensView_enterFullscreen (Some v) False False False s)"
| "perform (ExitFullscreen v) s = LensView_exitFullscreen (Some v) False s"
| "perform (PostKey e k) s = LensRobot_postKeyEvent e k s"
| "perform (PostScroll n) s = LensRobot_postScrollEvent n s"
| "perform (PostMouse e x y b) s = LensRobot_postMouseEvent e x y b s"
| "perform (GetPixelColor x y) s = state_of (LensRobot_getPixelColor x y s)"
| "perform (ScreenCapture mem x y wd ht) s = state_of (LensRobot_getScreenCapture mem x y wd ht s)"
| "perform DnDStarted s = Some (notify_lens_wm_DnDStarted s)"
| "perform DnDEnded s = Some (notify_lens_wm_DnDEnded s)"
| "perform RepaintAll s = lens_wm_repaint_all s"

section \<open>What callers must respect\<close>

text \<open>
  A handle is null or the address of something allocated, and so is the parent that Java has given to a view that goes
  full screen or gets another parent; \<open>calloc\<close> gives an address that is not allocated; a view is closed when no window shows
  it any more; only painting happens between \<open>begin\<close> and \<open>end\<close>, and painting stays on the screen. A window may be closed at any time.
\<close>

definition window_handle :: "lens \<Rightarrow> win option \<Rightarrow> bool" where
  "window_handle s w \<longleftrightarrow> ptr_ok (dom (windows s)) w"

definition paintable :: "lens \<Rightarrow> viewp \<Rightarrow> int \<Rightarrow> int \<Rightarrow> 32 word list \<Rightarrow> bool" where
  "paintable s v wd ht src \<longleftrightarrow> wd * ht \<le> int (length src) \<and> lens_screen_getFrameBuffer s \<noteq> None \<and>
     (case views s v \<bind> parent \<bind> windows s of
        None \<Rightarrow> False
      | Some win \<Rightarrow> 0 \<le> b_x (currentBounds win) \<and> 0 \<le> b_y (currentBounds win) \<and> 0 \<le> alpha win \<and> alpha win \<le> 1)"

definition on_screen :: "lens \<Rightarrow> int \<Rightarrow> int \<Rightarrow> int \<Rightarrow> int \<Rightarrow> bool" where
  "on_screen s x y wd ht \<longleftrightarrow> lens_screen_getFrameBuffer s \<noteq> None \<and> 0 \<le> x \<and> 0 \<le> wd \<and> x + wd \<le> 600 \<and>
     0 \<le> y \<and> 0 \<le> ht \<and> y + ht \<le> 800 \<and> y < 800"

fun allowed :: "request \<Rightarrow> lens \<Rightarrow> bool" where
  "allowed (Touch states ids xs ys p) s = (\<not> renderLocked s \<and> touch_args (length states) states ids xs ys p)"
| "allowed (CreateWindow w j own scr m) s = (\<not> renderLocked s \<and> windows s w = None \<and> window_handle s own)"
| "allowed (CloseWindow w) s = (\<not> renderLocked s \<and> window_handle s w)"
| "allowed (AttachView w v) s = (\<not> renderLocked s \<and> window_handle s w \<and> ptr_ok (dom (views s)) v)"
| "allowed (Minimize b w) s = (\<not> renderLocked s \<and> window_handle s w)"
| "allowed (Maximize b c w) s = (\<not> renderLocked s \<and> window_handle s w)"
| "allowed (SetBounds x y wd ht p z c w) s = (\<not> renderLocked s \<and> window_handle s w)"
| "allowed (SetVisible b w) s = (\<not> renderLocked s \<and> window_handle s w)"
| "allowed (RequestFocus e w) s = (\<not> renderLocked s \<and> window_handle s w)"
| "allowed (SetFocusable b w) s = (\<not> renderLocked s \<and> window_handle s w)"
| "allowed (SetLevel l w) s = (\<not> renderLocked s \<and> window_handle s w)"
| "allowed (SetAlpha a w) s = (\<not> renderLocked s \<and> window_handle s w)"
| "allowed (SetEnabled b w) s = (\<not> renderLocked s \<and> window_handle s w)"
| "allowed (SetMinimumSize x y w) s = (\<not> renderLocked s \<and> window_handle s w)"
| "allowed (SetMaximumSize x y w) s = (\<not> renderLocked s \<and> window_handle s w)"
| "allowed (ToFront w) s = (\<not> renderLocked s \<and> window_handle s w)"
| "allowed (ToBack w) s = (\<not> renderLocked s \<and> window_handle s w)"
| "allowed (GrabFocus w) s = (\<not> renderLocked s \<and> window_handle s w)"
| "allowed (UngrabFocus w) s = (\<not> renderLocked s \<and> window_handle s w)"
| "allowed (CreateView v j) s = (\<not> renderLocked s \<and> views s v = None)"
| "allowed (CloseView v) s = (\<not> renderLocked s \<and> views s v \<noteq> None \<and> (\<forall>win \<in> ran (windows s). view win \<noteq> Some v))"
| "allowed (SetParent v p) s = (\<not> renderLocked s \<and> views s v \<noteq> None \<and> window_handle s (views s v \<bind> parent) \<and> window_handle s p)"
| "allowed (BeginPaint v) s = (\<not> renderLocked s)"
| "allowed (EndPaint v) s = renderLocked s"
| "allowed (PaintInt v wd ht src offset) s = paintable s v wd ht src"
| "allowed (PaintIntDirect v wd ht src) s = (views s v \<noteq> None \<and> (\<forall>a. src = Some a \<longrightarrow> paintable s v wd ht a))"
| "allowed (EnterFullscreen v) s = (\<not> renderLocked s \<and> views s v \<noteq> None \<and> window_handle s (views s v \<bind> parent))"
| "allowed (ExitFullscreen v) s = (\<not> renderLocked s \<and> views s v \<noteq> None \<and> window_handle s (views s v \<bind> parent))"
| "allowed (GetPixelColor x y) s = on_screen s x y 1 1"
| "allowed (ScreenCapture mem x y wd ht) s = on_screen s x y wd ht"
| "allowed _ s = (\<not> renderLocked s)"

section \<open>The window that holds a drag\<close>

text \<open>
  The window manager does not forget the window that holds a drag when that window is released. From then on the drag
  is one of a freed window, and what tells this window something dereferences the pointer: every motion, and the
  buttons and touches that do not end the drag first.
\<close>

definition released_drag :: "lens \<Rightarrow> bool" where
  "released_drag s \<longleftrightarrow> onDraggingAction s \<and> (case dragGrabbingWindow s of None \<Rightarrow> False | Some d \<Rightarrow> windows s d = None)"

fun tells_drag :: "request \<Rightarrow> lens \<Rightarrow> bool" where
  "tells_drag (Motion x y) s = True"
| "tells_drag (Button pressed b x y) s = keeps_drag pressed b s"
| "tells_drag (Touch states ids xs ys p) s = touch_keeps_drag states xs ys p s"
| "tells_drag (PostMouse e x y b) s = (e = MouseEvent_MOVE \<or>
     e \<in> {MouseEvent_DOWN, MouseEvent_UP} \<and> keeps_drag (e = MouseEvent_DOWN) (glass_button b) s)"
| "tells_drag _ s = False"

definition closes_drag :: "request \<Rightarrow> lens \<Rightarrow> bool" where
  "closes_drag q s \<longleftrightarrow> dragGrabbingWindow s \<noteq> None \<and> q = CloseWindow (dragGrabbingWindow s)"

definition dereferences_released :: "request \<Rightarrow> lens \<Rightarrow> bool" where
  "dereferences_released q s \<longleftrightarrow> released_drag s \<and> tells_drag q s"

lemma released_alive: "dom (windows s) = D \<Longrightarrow> released_drag s \<longleftrightarrow> \<not> drag_alive D s"
  by (auto simp: released_drag_def drag_alive_def ptr_ok_def split: option.split)

section \<open>Every native method keeps the invariant\<close>

lemma wm_ok_throw [simp]:
  "wm_ok lv D V xs l r (glass_throw_exception_by_name n m s) = wm_ok lv D V xs l r s"
  by (simp add: glass_throw_exception_by_name_def)

lemma window_native_ok:
  assumes "wm_ok lv D V xs False False s" "ptr_ok D w"
    and "\<And>x. x \<in> D \<Longrightarrow> returns (f x s) (\<lambda>(b, s'). \<exists>ys. wm_ok lv D V ys False False s')"
  shows "returns (state_of (with_window b f w s)) (\<lambda>s'. \<exists>ys. wm_ok lv D V ys False False s')"
proof (cases w)
  case None
  with assms(1) show ?thesis by (auto simp: with_window_def state_of_def)
next
  case (Some x)
  with assms(2) have "returns (f x s) (\<lambda>(b, s'). \<exists>ys. wm_ok lv D V ys False False s')" by (intro assms(3)) simp
  with Some show ?thesis by (auto simp: with_window_def state_of_def returns_iff)
qed

lemma same_order:
  "returns m (\<lambda>(b, s'). wm_ok lv D V xs l r s') \<Longrightarrow> returns m (\<lambda>(b, s'). \<exists>ys. wm_ok lv D V ys l r s')"
  by (erule returns_conseq) auto

lemma no_result_ok:
  "returns (f s) (wm_ok lv D V xs l r) \<Longrightarrow> returns (no_result f s) (\<lambda>(b, s'). \<exists>ys. wm_ok lv D V ys l r s')"
  by (auto simp: no_result_def returns_iff)

lemma setView_ok:
  assumes s: "wm_ok lv D V xs l r s" and "w \<in> D" "ptr_ok V v"
  shows "returns (update_window w (\<lambda>x. x\<lparr>view := v\<rparr>) s) (wm_ok lv D V xs l r)"
  by (rule update_window_ok [OF s assms(2)]) (use assms(3) in auto)

lemma setEnabled_ok:
  "wm_ok lv D V xs l r s \<Longrightarrow> w \<in> D \<Longrightarrow>
     returns (update_window w (\<lambda>x. x\<lparr>isEnabled := b\<rparr>) s) (wm_ok lv D V xs l r)"
  by (erule (1) update_window_ok) auto

lemma setEnabled_native_ok:
  assumes s: "wm_ok lv D V xs False False s" "ptr_ok D w"
  shows "returns (state_of (LensWindow_setEnabled b w s)) (\<lambda>s'. \<exists>ys. wm_ok lv D V ys False False s')"
  unfolding LensWindow_setEnabled_def
  by (rule window_native_ok [OF s])
     (auto intro!: setFocusable_ok [OF s(1), THEN returns_bindI] ok_rules [THEN returns_bindI]
       setEnabled_ok [THEN returns_bindI] exI)

lemma window_natives_ok:
  assumes s: "wm_ok lv D V xs False False s" and w: "ptr_ok D w"
  defines "P \<equiv> \<lambda>s'. \<exists>ys. wm_ok lv D V ys False False s'"
  shows "returns (state_of (LensWindow_minimize b w s)) P"
    "returns (state_of (LensWindow_maximize b c w s)) P"
    "returns (state_of (LensWindow_setBoundsImpl x y wd ht p z c w s)) P"
    "returns (state_of (LensWindow_setVisible b w s)) P"
    "returns (state_of (LensWindow_requestFocus e w s)) P"
    "returns (state_of (LensWindow_setFocusable b w s)) P"
    "returns (state_of (LensWindow_setLevel l w s)) P"
    "returns (state_of (LensWindow_setAlpha a w s)) P"
    "returns (state_of (LensWindow_setMinimumSize x y w s)) P"
    "returns (state_of (LensWindow_setMaximumSize x y w s)) P"
    "returns (state_of (LensWindow_toFrontImpl w s)) P"
    "returns (state_of (LensWindow_toBackImpl w s)) P"
    "returns (state_of (LensWindow_grabFocus w s)) P"
    "returns (state_of (LensWindow_ungrabFocus w s)) P"
    "ptr_ok V v \<Longrightarrow> returns (state_of (LensWindow_attachViewToWindow w v s)) P"
proof -
  note native = window_native_ok [OF s w]
  show "returns (state_of (LensWindow_minimize b w s)) P"
    unfolding LensWindow_minimize_def P_def by (rule native, rule same_order) (rule minimize_maximize_ok [OF s])
  show "returns (state_of (LensWindow_maximize b c w s)) P"
    unfolding LensWindow_maximize_def P_def by (rule native, rule same_order) (rule minimize_maximize_ok [OF s])
  show "returns (state_of (LensWindow_setBoundsImpl x y wd ht p z c w s)) P"
    unfolding LensWindow_setBoundsImpl_def P_def by (rule native, rule no_result_ok) (rule setBounds_ok [OF s])
  show "returns (state_of (LensWindow_setVisible b w s)) P"
    unfolding LensWindow_setVisible_def P_def by (rule native, rule same_order) (rule setVisible_ok [OF s])
  show "returns (state_of (LensWindow_requestFocus e w s)) P"
    unfolding LensWindow_requestFocus_def P_def by (rule native, rule same_order) (rule requestFocus_ok [OF s], simp)
  show "returns (state_of (LensWindow_setFocusable b w s)) P"
    unfolding LensWindow_setFocusable_def P_def
    by (rule native) (auto intro!: setFocusable_ok [OF s, THEN returns_bindI])
  show "returns (state_of (LensWindow_setLevel l w s)) P"
    unfolding LensWindow_setLevel_def P_def by (rule native) (use s in auto)
  show "returns (state_of (LensWindow_setAlpha a w s)) P"
    unfolding LensWindow_setAlpha_def P_def
    by (rule native) (auto intro!: setAlpha_ok [OF s, THEN returns_bindI])
  show "returns (state_of (LensWindow_setMinimumSize x y w s)) P" "returns (state_of (LensWindow_setMaximumSize x y w s)) P"
    unfolding LensWindow_setMinimumSize_def LensWindow_setMaximumSize_def P_def
    by (rule native, rule same_order, erule setSize_ok [OF s])+
  show "returns (state_of (LensWindow_toFrontImpl w s)) P" "returns (state_of (LensWindow_toBackImpl w s)) P"
    unfolding LensWindow_toFrontImpl_def LensWindow_toBackImpl_def P_def
    by (rule native, rule no_result_ok, erule toFront_ok [OF s] toBack_ok [OF s])+
  show "returns (state_of (LensWindow_grabFocus w s)) P"
    unfolding LensWindow_grabFocus_def P_def
    by (rule native) (use grabFocus_ok [OF s] in \<open>auto simp: case_prod_beta\<close>)
  show "returns (state_of (LensWindow_ungrabFocus w s)) P"
    unfolding LensWindow_ungrabFocus_def P_def by (rule native, rule no_result_ok) (rule ungrabFocus_ok [OF s], simp)
  show "returns (state_of (LensWindow_attachViewToWindow w v s)) P" if "ptr_ok V v"
    unfolding LensWindow_attachViewToWindow_def P_def
    by (rule native) (auto intro!: setView_ok [OF s _ that, THEN returns_bindI])
qed

section \<open>Views, painting, the robot\<close>

lemma wm_ok_screen:
  "wm_ok lv D V xs l r s \<Longrightarrow> length fb = 480000 \<Longrightarrow>
     wm_ok lv D V xs l r (s\<lparr>mainScreen := Some (lens_screen_initialize (Some fb))\<rparr>)"
  by (auto simp: wm_ok_def screen_ok_def zorder_def)

lemma frame_buffer:
  assumes "wm_ok lv D V xs l r s" "lens_screen_getFrameBuffer s \<noteq> None"
  obtains fb where "mainScreen s = Some (lens_screen_initialize (Some fb))" "length fb = 480000"
  using assms by (auto simp: wm_ok_def screen_ok_def lens_screen_getFrameBuffer_def)

lemma attach_ok:
  assumes s: "wm_ok lv D V xs l r s" and p: "paintable s v wd ht src" and v: "views s v = Some nv" "parent nv = Some w"
  shows "returns (glass_pixel_attachIntBuffer src w wd ht offset s) (wm_ok lv D V xs l r)"
proof -
  obtain fb where fb: "mainScreen s = Some (lens_screen_initialize (Some fb))" "length fb = 480000"
    using frame_buffer [OF s] p by (auto simp: paintable_def)
  obtain win where win: "windows s w = Some win" and on: "0 \<le> b_x (currentBounds win)" "0 \<le> b_y (currentBounds win)"
      "0 \<le> alpha win" "alpha win \<le> 1"
    using p v by (auto simp: paintable_def split: option.splits)
  obtain a where a: "paint_alpha (alpha win) = Some a" using paint_alpha_ok [OF on(3,4)] by blast
  have "wd * ht \<le> int (length src)" using p by (simp add: paintable_def)
  with attach_exact [OF win fb a refl refl on(1,2), of wd ht src offset] show ?thesis
    by (auto intro: wm_ok_screen [OF s])
qed

lemma paintInt_ok:
  assumes s: "wm_ok lv D V xs l r s" and p: "paintable s v wd ht src"
  shows "returns (LensView_paintInt (Some v) wd ht (Some src) offset s) (wm_ok lv D V xs l r)"
proof -
  obtain nv w where v: "views s v = Some nv" "parent nv = Some w"
    using p by (auto simp: paintable_def bind_eq_Some_conv split: option.splits)
  with attach_ok [OF s p v, of offset] show ?thesis
    by (auto simp: LensView_paintInt_def lens_wm_notifyWindowUpdate_def returns_iff)
qed

lemma paintIntDirect_ok:
  assumes s: "wm_ok lv D V xs l r s" and "views s v \<noteq> None" and p: "\<And>a. src = Some a \<Longrightarrow> paintable s v wd ht a"
  shows "returns (LensView_paintIntDirect (Some v) wd ht src s) (wm_ok lv D V xs l r)"
proof (cases src)
  case None
  then show ?thesis using s assms(2) by (auto simp: LensView_paintIntDirect_def)
next
  case (Some a)
  then obtain nv w where v: "views s v = Some nv" "parent nv = Some w"
    using p by (auto simp: paintable_def bind_eq_Some_conv split: option.splits)
  with Some attach_ok [OF s p [OF Some] v, of 0] show ?thesis
    by (auto simp: LensView_paintIntDirect_def lens_wm_notifyWindowUpdate_def returns_iff)
qed

lemma createView_ok:
  assumes "wm_ok lv D V xs l r s" "v \<notin> V"
  shows "returns (state_of (LensView_createNativeView (Some v) (Some j) s)) (wm_ok lv D (insert v V) xs l r)"
proof -
  have "ptr_ok (insert v V) p" if "ptr_ok V p" for p using that by (auto simp: ptr_ok_def)
  with assms show ?thesis
    by (auto simp: LensView_createNativeView_def glass_view_PlatformViewData_create_def state_of_def calloc_view_def
        wm_ok_def zorder_def screen_ok_def)
qed

lemma closeView_ok:
  assumes s: "wm_ok lv D V xs l r s" and v: "v \<in> V" "\<And>win. win \<in> ran (windows s) \<Longrightarrow> view win \<noteq> Some v"
  shows "returns (state_of (LensView_close (Some v) s)) (wm_ok lv D (V - {v}) xs l r)"
proof -
  have "ptr_ok (V - {v}) p" if "ptr_ok V p" "p \<noteq> Some v" for p using that by (auto simp: ptr_ok_def)
  moreover have "view win \<noteq> Some v" if "windows s w = Some win" for w win using v(2) that by (auto simp: ran_def)
  moreover have "views s v \<noteq> None" using s v(1) by (auto simp: wm_ok_def)
  ultimately show ?thesis
    using s by (auto simp: LensView_close_def null_view_def glass_view_releaseNativeView_def state_of_def
        glass_view_PlatformViewRelease_def wm_ok_def zorder_def screen_ok_def)
qed

lemma capture_ok:
  assumes s: "wm_ok lv D V xs l r s" and "on_screen s x y wd ht"
  shows "\<exists>px. glass_screen_capture x y wd ht s = Some (Some px) \<and> length px = nat ht * nat wd"
proof -
  obtain fb where "mainScreen s = Some (lens_screen_initialize (Some fb))" "length fb = 480000"
    using frame_buffer [OF s] assms(2) by (auto simp: on_screen_def)
  with capture_exact [of s fb x wd y ht] assms(2) show ?thesis
    by (simp add: on_screen_def capture_row_def length_concat sum_list_replicate comp_def)
qed

lemma robot_ok:
  assumes s: "wm_ok lv D V xs False r s"
  shows "returns (LensRobot_postKeyEvent e k s) (wm_ok lv D V xs False r)"
    "returns (LensRobot_postScrollEvent n s) (wm_ok lv D V xs False r)"
proof -
  have or_throw: "returns (or_throw msg q) (wm_ok lv D V xs False r)"
    if "returns q (\<lambda>(b, s'). wm_ok lv D V xs False r s')" for msg q
    using that by (auto simp: or_throw_def returns_iff)
  show "returns (LensRobot_postKeyEvent e k s) (wm_ok lv D V xs False r)"
    unfolding LensRobot_postKeyEvent_def glass_robot_postKeyEvent_def Let_def
    using s by (intro or_throw) (auto intro!: notifyKeyEvent_ok [THEN returns_bindI])
  show "returns (LensRobot_postScrollEvent n s) (wm_ok lv D V xs False r)"
    unfolding LensRobot_postScrollEvent_def glass_robot_postScrollEvent_def
    using s by (intro or_throw) (auto intro!: scroll_ok [THEN returns_bindI] simp: lens_wm_getPointerPosition_def)
qed

text \<open>A request that is stuck exactly in case it dereferences a freed window.\<close>

definition stuck_or :: "bool \<Rightarrow> lens option \<Rightarrow> (lens \<Rightarrow> bool) \<Rightarrow> bool" where
  "stuck_or b m P \<longleftrightarrow> (if b then m = None else returns m P)"

lemma robot_mouse_cases:
  assumes s: "wm_ok lv D V xs False r s"
  shows "stuck_or (\<not> drag_alive D s \<and> tells_drag (PostMouse e x y b) s) (LensRobot_postMouseEvent e x y b s) (wm_ok lv D V xs False r)"
proof -
  let ?s = "lens_wm_setPointerPosition x y s"
  have s1: "wm_ok lv D V xs False r ?s" "drag_alive D ?s = drag_alive D s"
    using s by (simp_all add: lens_wm_setPointerPosition_def fbCursorSetPosition_def drag_alive_def)
  consider (button) "e \<in> {MouseEvent_DOWN, MouseEvent_UP}" | (move) "e = MouseEvent_MOVE"
    | (other) "e \<notin> {MouseEvent_DOWN, MouseEvent_UP, MouseEvent_MOVE}" by blast
  then show ?thesis
  proof cases
    case button
    obtain px py where p: "lens_wm_getPointerPosition s = (px, py)" by (cases "lens_wm_getPointerPosition s") auto
    have "e \<noteq> MouseEvent_MOVE" using button by auto
    with buttonEvent_cases [OF s, of "e = MouseEvent_DOWN" "glass_button b" px py] button p show ?thesis
      by (auto simp: stuck_or_def LensRobot_postMouseEvent_def glass_robot_postMouseEvent_def or_throw_def returns_iff split: if_splits)
  next
    case move
    with motionEvent_cases [OF s1(1), of x y] s1(2) show ?thesis
      by (auto simp: stuck_or_def LensRobot_postMouseEvent_def glass_robot_postMouseEvent_def or_throw_def returns_iff split: if_splits)
  next
    case other
    with s show ?thesis
      by (auto simp: stuck_or_def LensRobot_postMouseEvent_def glass_robot_postMouseEvent_def or_throw_def)
  qed
qed

section \<open>Every request keeps the invariant\<close>

text \<open>With \<open>b\<close>, the window that holds a drag is null or allocated as well.\<close>

definition good :: "bool \<Rightarrow> lens \<Rightarrow> bool" where
  "good b s \<longleftrightarrow> (\<exists>live D V xs r. wm_ok (b, live) D V xs False r s)"

lemma goodI: "wm_ok lv D V xs False r s \<Longrightarrow> good (fst lv) s"
  unfolding good_def by (metis prod.collapse)

lemma wm_ok_mono: "wm_ok lv D V xs l r s \<Longrightarrow> (fst lv' \<longrightarrow> fst lv) \<Longrightarrow> (snd lv' \<longrightarrow> snd lv) \<Longrightarrow> wm_ok lv' D V xs l r s"
  by (auto simp: wm_ok_def)

lemma good_mono: "good b s \<Longrightarrow> (c \<longrightarrow> b) \<Longrightarrow> good c s"
  unfolding good_def by (metis wm_ok_mono fst_conv snd_conv)

lemma returns_good:
  "returns m (wm_ok lv D V xs False r) \<Longrightarrow> returns m (good (fst lv))"
  "returns m (\<lambda>s'. \<exists>ys. wm_ok lv D V ys False r s') \<Longrightarrow> returns m (good (fst lv))"
  by (auto simp: returns_iff intro: goodI)

lemma closeWindow_ok:
  assumes s: "wm_ok lv D V xs False False s" and "ptr_ok D w"
  shows "returns (state_of (LensWindow_close w s)) (good (fst lv \<and> \<not> closes_drag (CloseWindow w) s))"
proof (cases w)
  case None
  then have "\<not> closes_drag (CloseWindow w) s" by (auto simp: closes_drag_def)
  with None goodI [OF s] show ?thesis
    by (auto simp: LensWindow_close_def with_window_def state_of_def good_def)
next
  case (Some x)
  have w: "x \<in> D" using assms(2) Some by simp
  obtain win where win: "windows s x = Some win" using wm_ok_window [OF s w] by (auto elim: returnsE)
  have "returns (glass_window_NativeWindow_release x s) (\<lambda>(b, s'). good (fst lv \<and> \<not> closes_drag (CloseWindow w) s) s')"
  proof (cases "view win")
    case None
    have "alive_after x s lv = (fst lv \<and> \<not> closes_drag (CloseWindow w) s, snd (alive_after x s lv))"
      using Some by (auto simp: alive_after_def closes_drag_def)
    with release_ok [OF s w win None] show ?thesis
      by (auto simp: returns_iff good_def) (metis)
  next
    case (Some v)
    obtain s1 where r1: "release_to_view x s = Some s1" and s1: "wm_ok lv D V (remove1 x xs) False False s1" "unlisted s x s1"
      using release_to_view_ok [OF s w] by (auto elim: returnsE)
    obtain y where y: "windows s1 x = Some y" using wm_ok_window [OF s1(1) w] by (auto elim: returnsE)
    have "view y \<noteq> None" using s1(2) y win Some by (simp add: unlisted_def)
    with r1 y good_mono [OF goodI [OF s1(1)]] show ?thesis by (auto simp: release_split)
  qed
  then show ?thesis using Some by (auto simp: LensWindow_close_def with_window_def state_of_def returns_iff)
qed

lemma createWindow_ok:
  assumes s: "wm_ok lv D V xs False r s" and "w \<notin> D" "ptr_ok D own"
  shows "returns (state_of (LensWindow_createWindow (Some w) (Some j) own scr m s)) (good (fst lv))"
  using create_ok [OF assms, of j scr m]
  by (auto simp: LensWindow_createWindow_def state_of_def returns_iff intro: goodI)

lemma window_perform_ok:
  assumes s: "wm_ok lv D V xs False False s" and w: "ptr_ok D w"
  shows "returns (perform (Minimize b w) s) (good (fst lv))" "returns (perform (Maximize b c w) s) (good (fst lv))"
    "returns (perform (SetBounds x y wd ht p z c w) s) (good (fst lv))" "returns (perform (SetVisible b w) s) (good (fst lv))"
    "returns (perform (RequestFocus e w) s) (good (fst lv))" "returns (perform (SetFocusable b w) s) (good (fst lv))"
    "returns (perform (SetLevel l w) s) (good (fst lv))" "returns (perform (SetAlpha a w) s) (good (fst lv))"
    "returns (perform (SetEnabled b w) s) (good (fst lv))" "returns (perform (SetMinimumSize x y w) s) (good (fst lv))"
    "returns (perform (SetMaximumSize x y w) s) (good (fst lv))" "returns (perform (ToFront w) s) (good (fst lv))"
    "returns (perform (ToBack w) s) (good (fst lv))" "returns (perform (GrabFocus w) s) (good (fst lv))"
    "returns (perform (UngrabFocus w) s) (good (fst lv))" "ptr_ok V v \<Longrightarrow> returns (perform (AttachView w v) s) (good (fst lv))"
    "returns (perform (CloseWindow w) s) (good (fst lv \<and> \<not> closes_drag (CloseWindow w) s))"
    "k \<notin> D \<Longrightarrow> returns (perform (CreateWindow k j w scr m) s) (good (fst lv))"
  unfolding perform.simps
  by (rule returns_good(2) [OF window_natives_ok(1) [OF s w]] returns_good(2) [OF window_natives_ok(2) [OF s w]]
      returns_good(2) [OF window_natives_ok(3) [OF s w]] returns_good(2) [OF window_natives_ok(4) [OF s w]]
      returns_good(2) [OF window_natives_ok(5) [OF s w]] returns_good(2) [OF window_natives_ok(6) [OF s w]]
      returns_good(2) [OF window_natives_ok(7) [OF s w]] returns_good(2) [OF window_natives_ok(8) [OF s w]]
      returns_good(2) [OF setEnabled_native_ok [OF s w]]
      returns_good(2) [OF window_natives_ok(9) [OF s w]] returns_good(2) [OF window_natives_ok(10) [OF s w]]
      returns_good(2) [OF window_natives_ok(11) [OF s w]] returns_good(2) [OF window_natives_ok(12) [OF s w]]
      returns_good(2) [OF window_natives_ok(13) [OF s w]] returns_good(2) [OF window_natives_ok(14) [OF s w]]
      returns_good(2) [OF window_natives_ok(15) [OF s w]]
      closeWindow_ok [OF s w] createWindow_ok [OF s _ w], assumption?)+

lemma input_perform_ok:
  assumes s: "wm_ok lv D V xs False False s"
  shows "returns (perform (Key e k b) s) (good (fst lv))" "returns (perform (Scroll x y n) s) (good (fst lv))"
    "returns (perform (PostKey e k) s) (good (fst lv))" "returns (perform (PostScroll n) s) (good (fst lv))"
    "returns (perform DnDStarted s) (good (fst lv))" "returns (perform DnDEnded s) (good (fst lv))"
    "returns (perform RepaintAll s) (good (fst lv))"
proof -
  have key: "returns (glass_application_notifyKeyEvent (glass_window_getFocusedWindow s) e k b s) (wm_ok lv D V xs False False)"
    using s by (rule notifyKeyEvent_ok) (rule focus_getters_ok [OF s])
  show "returns (perform (Key e k b) s) (good (fst lv))" "returns (perform (Scroll x y n) s) (good (fst lv))"
    "returns (perform (PostKey e k) s) (good (fst lv))" "returns (perform (PostScroll n) s) (good (fst lv))"
    "returns (perform RepaintAll s) (good (fst lv))"
    unfolding perform.simps
    by (rule returns_good(1), rule key scroll_ok [OF s] robot_ok [OF s] repaint_all_ok [OF s])+
  show "returns (perform DnDStarted s) (good (fst lv))" "returns (perform DnDEnded s) (good (fst lv))"
    using DnD_ok [OF s] by (auto intro: goodI)
qed

lemma stuck_or_returns: "stuck_or b m P \<Longrightarrow> \<not> b \<Longrightarrow> returns m P"
  by (simp add: stuck_or_def)

lemma stuck_or_conseq: "stuck_or b m P \<Longrightarrow> (\<And>x. P x \<Longrightarrow> Q x) \<Longrightarrow> stuck_or b m Q"
  by (cases b) (auto simp: stuck_or_def elim!: returns_conseq)

text \<open>The requests that may tell the window that holds the drag.\<close>

fun pointing :: "request \<Rightarrow> bool" where
  "pointing (Motion x y) = True"
| "pointing (Button pressed b x y) = True"
| "pointing (PostMouse e x y b) = True"
| "pointing (Touch states ids xs ys p) = touch_args (length states) states ids xs ys p"
| "pointing _ = False"

lemma pointer_perform_cases:
  assumes s: "wm_ok lv D V xs False False s" and q: "pointing q"
  shows "stuck_or (dereferences_released q s) (perform q s) (wm_ok lv D V xs False False)"
proof -
  have D: "dom (windows s) = D" using s by (simp add: wm_ok_def)
  note d = dereferences_released_def released_alive [OF D]
  from q consider (motion) x y where "q = Motion x y" | (button) pressed b x y where "q = Button pressed b x y"
    | (robot) e x y b where "q = PostMouse e x y b"
    | (touch) st ids us vs p where "q = Touch st ids us vs p" "touch_args (length st) st ids us vs p"
    by (cases q) auto
  then show ?thesis
  proof cases
    case motion
    then show ?thesis using motionEvent_cases [OF s, of x y] by (auto simp: stuck_or_def d elim: returns_conseq split: if_splits)
  next
    case button
    then show ?thesis using buttonEvent_cases [OF s, of pressed b x y] by (auto simp: stuck_or_def d split: if_splits)
  next
    case robot
    then show ?thesis using robot_mouse_cases [OF s, of e x y b] by (simp only: d perform.simps)
  next
    case touch
    then show ?thesis using multiTouchEvent_cases [OF s, of "length st" st ids us vs p]
      by (auto simp: stuck_or_def d split: if_splits)
  qed
qed

lemma view_perform_ok:
  assumes s: "wm_ok lv D V xs False False s" and v: "v \<in> V"
  shows "(\<And>win. win \<in> ran (windows s) \<Longrightarrow> view win \<noteq> Some v) \<Longrightarrow> returns (perform (CloseView v) s) (good (fst lv))"
    "ptr_ok D (views s v \<bind> parent) \<Longrightarrow> ptr_ok D p \<Longrightarrow> returns (perform (SetParent v p) s) (good (fst lv))"
    "ptr_ok D (views s v \<bind> parent) \<Longrightarrow> returns (perform (EnterFullscreen v) s) (good (fst lv))"
    "ptr_ok D (views s v \<bind> parent) \<Longrightarrow> returns (perform (ExitFullscreen v) s) (good (fst lv))"
proof -
  have par: "ptr_ok D (views s v \<bind> parent) \<Longrightarrow> views s v = Some nv \<Longrightarrow> ptr_ok D (parent nv)" for nv by simp
  show "returns (perform (CloseView v) s) (good (fst lv))" if "\<And>win. win \<in> ran (windows s) \<Longrightarrow> view win \<noteq> Some v"
    using closeView_ok [OF s v that] by (simp add: returns_good(1))
  show "returns (perform (SetParent v p) s) (good (fst lv))" if "ptr_ok D (views s v \<bind> parent)" "ptr_ok D p"
    using setParent_ok [OF s v par [OF that(1)] that(2)] by (simp add: LensView_setParent_def null_view_def returns_good(1))
  show "returns (perform (EnterFullscreen v) s) (good (fst lv))" if "ptr_ok D (views s v \<bind> parent)"
    using view_fullscreen_ok(1) [OF s v par [OF that]]
    by (auto simp: LensView_enterFullscreen_def null_view_def state_of_def returns_iff intro: goodI)
  show "returns (perform (ExitFullscreen v) s) (good (fst lv))" if "ptr_ok D (views s v \<bind> parent)"
    using view_fullscreen_ok(2) [OF s v par [OF that]]
    by (auto simp: LensView_exitFullscreen_def null_view_def returns_iff intro: goodI)
qed

lemma drawing_perform_ok:
  assumes s: "wm_ok lv D V xs False r s"
  shows "\<not> r \<Longrightarrow> returns (perform (BeginPaint v) s) (good (fst lv))" "r \<Longrightarrow> returns (perform (EndPaint v) s) (good (fst lv))"
    "k \<notin> V \<Longrightarrow> returns (perform (CreateView k j) s) (good (fst lv))"
    "paintable s u wd ht src \<Longrightarrow> returns (perform (PaintInt u wd ht src n) s) (good (fst lv))"
    "u \<in> V \<Longrightarrow> (\<And>a. buf = Some a \<Longrightarrow> paintable s u wd ht a) \<Longrightarrow> returns (perform (PaintIntDirect u wd ht buf) s) (good (fst lv))"
    "on_screen s x y 1 1 \<Longrightarrow> returns (perform (GetPixelColor x y) s) (good (fst lv))"
    "on_screen s x y wd ht \<Longrightarrow> returns (perform (ScreenCapture mem x y wd ht) s) (good (fst lv))"
proof -
  have n: "wm_ok lv D V xs False r (null_view v s)" using s by (simp add: null_view_def)
  show "returns (perform (BeginPaint v) s) (good (fst lv))" if "\<not> r"
    using lock_ok(2) [of lv D V xs False "null_view v s"] n that
    by (auto simp: LensView_begin_def glass_view_drawBegin_def intro: returns_good(1))
  show "returns (perform (EndPaint v) s) (good (fst lv))" if "r"
    using unlock_ok(2) [of lv D V xs False "null_view v s"] n that
    by (auto simp: LensView_end_def glass_view_drawEnd_def intro: goodI)
  show "returns (perform (CreateView k j) s) (good (fst lv))" if "k \<notin> V"
    using createView_ok [OF s that, of j] by (simp add: returns_good(1))
  show "returns (perform (PaintInt u wd ht src n) s) (good (fst lv))" if "paintable s u wd ht src"
    using paintInt_ok [OF s that, of n] by (simp add: returns_good(1))
  show "returns (perform (PaintIntDirect u wd ht buf) s) (good (fst lv))" if "u \<in> V" "\<And>a. buf = Some a \<Longrightarrow> paintable s u wd ht a"
    using paintIntDirect_ok [OF s _ that(2)] that(1) s by (auto simp: wm_ok_def intro!: returns_good(1))
  show "returns (perform (GetPixelColor x y) s) (good (fst lv))" if on: "on_screen s x y 1 1"
  proof -
    obtain px where "glass_screen_capture x y 1 1 s = Some (Some px)" "length px = 1" using capture_ok [OF s on] by auto
    then show ?thesis using s by (cases px) (auto simp: LensRobot_getPixelColor_def state_of_def intro: goodI)
  qed
  show "returns (perform (ScreenCapture mem x y wd ht) s) (good (fst lv))" if on: "on_screen s x y wd ht"
    using capture_ok [OF s on] s by (auto simp: LensRobot_getScreenCapture_def state_of_def intro: goodI)
qed

lemma perform_cases:
  assumes "good b s" "allowed q s"
  shows "stuck_or (dereferences_released q s) (perform q s) (good (b \<and> \<not> closes_drag q s))"
proof -
  obtain live D V xs r where s: "wm_ok (b, live) D V xs False r s" using assms(1) by (auto simp: good_def)
  have r: "renderLocked s = r" and D: "dom (windows s) = D" and V: "dom (views s) = V" using s by (simp_all add: wm_ok_def)
  have free: "wm_ok (b, live) D V xs False False s" if "\<not> renderLocked s" using s that by (simp add: wm_ok_def)
  have handle: "window_handle s w = ptr_ok D w" for w by (simp add: window_handle_def D)
  have mem: "windows s w = None \<longleftrightarrow> w \<notin> D" "views s v = None \<longleftrightarrow> v \<notin> V" for v w using D V by auto
  note free_rules = window_perform_ok [OF free, unfolded fst_conv] input_perform_ok [OF free, unfolded fst_conv]
    view_perform_ok [OF free, unfolded fst_conv]
  note drawing = drawing_perform_ok [OF s, unfolded fst_conv]
  have "(\<exists>w. q = CloseWindow w \<and> ptr_ok D w \<and> \<not> renderLocked s) \<or> (pointing q \<and> \<not> renderLocked s) \<or>
      (\<not> tells_drag q s \<and> (\<forall>w. q \<noteq> CloseWindow w) \<and> returns (perform q s) (good b))"
    using assms(2) by (cases q) (auto simp: handle mem V r simp del: perform.simps intro!: free_rules drawing)
  then consider (close) w where "q = CloseWindow w" "ptr_ok D w" "\<not> renderLocked s" | (told) "pointing q" "\<not> renderLocked s"
    | (quiet) "\<not> tells_drag q s" "\<forall>w. q \<noteq> CloseWindow w" "returns (perform q s) (good b)" by blast
  then show ?thesis
  proof cases
    case close
    then show ?thesis
      using window_perform_ok(17) [OF free [OF close(3)] close(2)] by (simp add: stuck_or_def dereferences_released_def)
  next
    case told
    have "\<not> closes_drag q s" using told(1) by (auto simp: closes_drag_def)
    with pointer_perform_cases [OF free [OF told(2)] told(1)] show ?thesis
      by (auto elim!: stuck_or_conseq dest: goodI)
  next
    case quiet
    then have "\<not> closes_drag q s" by (simp add: closes_drag_def)
    with quiet show ?thesis by (simp add: stuck_or_def dereferences_released_def)
  qed
qed

section \<open>Runs of a machine that says when it is stuck\<close>

fun run :: "('q \<Rightarrow> 's \<Rightarrow> 's option) \<Rightarrow> 'q list \<Rightarrow> 's \<Rightarrow> 's option" where
  "run act [] s = Some s"
| "run act (q # qs) s = do { s \<leftarrow> act q s; run act qs s }"

text \<open>Every request of a sequence is allowed in the state in which it arrives.\<close>

fun obeys :: "('q \<Rightarrow> 's \<Rightarrow> bool) \<Rightarrow> ('q \<Rightarrow> 's \<Rightarrow> 's option) \<Rightarrow> 'q list \<Rightarrow> 's \<Rightarrow> bool" where
  "obeys ok act [] s = True"
| "obeys ok act (q # qs) s = (ok q s \<and> (case act q s of None \<Rightarrow> True | Some s' \<Rightarrow> obeys ok act qs s'))"

text \<open>A sequence comes to a request for which \<open>P\<close> holds in the state in which it arrives.\<close>

fun comes_to :: "('q \<Rightarrow> 's \<Rightarrow> bool) \<Rightarrow> ('q \<Rightarrow> 's \<Rightarrow> 's option) \<Rightarrow> 'q list \<Rightarrow> 's \<Rightarrow> bool" where
  "comes_to P act [] s = False"
| "comes_to P act (q # qs) s = (P q s \<or> (case act q s of None \<Rightarrow> False | Some s' \<Rightarrow> comes_to P act qs s'))"

locale machine =
  fixes inv :: "'s \<Rightarrow> bool" and ok :: "'q \<Rightarrow> 's \<Rightarrow> bool" and act :: "'q \<Rightarrow> 's \<Rightarrow> 's option"
    and stuck :: "'q \<Rightarrow> 's \<Rightarrow> bool"
  assumes act_stuck: "inv s \<Longrightarrow> ok q s \<Longrightarrow> stuck q s \<Longrightarrow> act q s = None"
    and act_total: "inv s \<Longrightarrow> ok q s \<Longrightarrow> \<not> stuck q s \<Longrightarrow> returns (act q s) inv"
begin

lemma step_inv:
  assumes "inv s" "ok q s" "act q s = Some s'"
  shows "inv s'"
proof -
  have "\<not> stuck q s" using act_stuck [OF assms(1,2)] assms(3) by auto
  from act_total [OF assms(1,2) this] assms(3) show ?thesis by simp
qed

lemma run_stuck: "inv s \<Longrightarrow> obeys ok act qs s \<Longrightarrow> run act qs s = None \<longleftrightarrow> comes_to stuck act qs s"
proof (induction qs arbitrary: s)
  case (Cons q qs)
  show ?case
  proof (cases "stuck q s")
    case True
    then show ?thesis using act_stuck [of s q] Cons.prems by simp
  next
    case False
    then obtain s' where "act q s = Some s'" "inv s'" using act_total [of s q] Cons.prems by (auto simp: returns_iff)
    with Cons False show ?thesis by simp
  qed
qed simp

end

text \<open>A machine that is never stuck.\<close>

locale total_machine = machine inv ok act "\<lambda>q s. False"
  for inv :: "'s \<Rightarrow> bool" and ok :: "'q \<Rightarrow> 's \<Rightarrow> bool" and act :: "'q \<Rightarrow> 's \<Rightarrow> 's option"
begin

lemma run_total: "inv s \<Longrightarrow> obeys ok act qs s \<Longrightarrow> returns (run act qs s) inv"
proof (induction qs arbitrary: s)
  case (Cons q qs)
  then obtain s' where "act q s = Some s'" "inv s'" using act_total [of s q] by (auto simp: returns_iff)
  with Cons show ?case by simp
qed simp

end

interpretation wm: machine "good False" allowed perform dereferences_released
proof unfold_locales
  fix q s assume s: "good False s" "allowed q s"
  note c = perform_cases [OF s]
  show "perform q s = None" if "dereferences_released q s" using c that by (simp add: stuck_or_def)
  show "returns (perform q s) (good False)" if "\<not> dereferences_released q s" using c that by (simp add: stuck_or_def)
qed

text \<open>As long as the window that holds a drag is not closed, nothing is stuck.\<close>

lemma good_no_release: "good True s \<Longrightarrow> \<not> released_drag s"
  by (auto simp: good_def wm_ok_def released_drag_def split: option.splits)

interpretation wm_drag: total_machine "good True" "\<lambda>q s. allowed q s \<and> \<not> closes_drag q s" perform
proof unfold_locales
  fix q s assume s: "good True s" "allowed q s \<and> \<not> closes_drag q s"
  have "\<not> dereferences_released q s" using good_no_release [OF s(1)] by (simp add: dereferences_released_def)
  with perform_cases [OF s(1), of q] s(2) show "returns (perform q s) (good True)" by (simp add: stuck_or_def)
qed simp

text \<open>The requests of an input device, as far as the window manager asks for something.\<close>

fun request_ok :: "request \<Rightarrow> bool" where
  "request_ok (Touch states ids xs ys p) = touch_args (length states) states ids xs ys p"
| "request_ok (Key e k b) = True"
| "request_ok (Motion x y) = True"
| "request_ok (Button b k x y) = True"
| "request_ok (Scroll x y n) = True"
| "request_ok _ = False"

lemma input_request_ok:
  assumes s: "wm_ok lv D V xs False False s" and live: "fst lv" and q: "request_ok q"
  shows "allowed q s" "returns (perform q s) (wm_ok lv D V xs False False)"
proof -
  have free: "\<not> renderLocked s" using s by (simp add: wm_ok_def)
  then show "allowed q s" using q by (cases q) simp_all
  have key: "returns (glass_application_notifyKeyEvent (glass_window_getFocusedWindow s) e k b s) (wm_ok lv D V xs False False)" for e k b
    using s by (rule notifyKeyEvent_ok) (rule focus_getters_ok [OF s])
  have motion: "returns (lens_wm_notifyMotionEvent x y s) (wm_ok lv D V xs False False)" for x y
    by (rule returns_conseq [OF motionEvent_ok [OF s drag_aliveI [OF s live]]]) simp
  show "returns (perform q s) (wm_ok lv D V xs False False)"
    using q key motion buttonEvent_ok [OF s drag_aliveI [OF s live]] scroll_ok [OF s]
      multiTouchEvent_ok [OF s _ drag_aliveI [OF s live]] by (cases q) auto
qed

lemma input_requests_ok:
  assumes "wm_ok lv D V xs False False s" "fst lv" "list_all request_ok qs"
  shows "obeys allowed perform qs s" "returns (run perform qs s) (wm_ok lv D V xs False False)"
proof -
  have "obeys allowed perform qs s \<and> returns (run perform qs s) (wm_ok lv D V xs False False)"
    using assms
  proof (induction qs arbitrary: s)
    case (Cons q qs)
    then obtain s' where "perform q s = Some s'" "wm_ok lv D V xs False False s'"
      using input_request_ok(2) [OF Cons.prems(1,2), of q] by (auto simp: returns_iff)
    then show ?case using Cons.IH [of s'] input_request_ok(1) [OF Cons.prems(1,2), of q] Cons.prems(2,3) by simp
  qed simp
  then show "obeys allowed perform qs s" "returns (run perform qs s) (wm_ok lv D V xs False False)" by blast+
qed

section \<open>Reachable states\<close>

text \<open>
  Start: the window manager is initialised (\<open>d\<close> is the buffer that \<open>malloc\<close> returns for the screen, null
  or of 480000 pixels; \<open>t\<close> says which calls into Java leave an exception) and the application object is
  registered. Then any allowed request, any number of times.
\<close>

inductive reachable :: "lens \<Rightarrow> bool" where
  start: "lens_wm_initialize d (lens_init\<lparr>throws := t\<rparr>) = Some (True, s) \<Longrightarrow>
    (\<And>px. d = Some px \<Longrightarrow> length px = 480000) \<Longrightarrow> reachable (registerApplication (Some j) s)"
| request: "reachable s \<Longrightarrow> allowed q s \<Longrightarrow> perform q s = Some s' \<Longrightarrow> reachable s'"

lemma start_good:
  assumes "lens_wm_initialize d (lens_init\<lparr>throws := t\<rparr>) = Some (True, s)" "\<And>px. d = Some px \<Longrightarrow> length px = 480000"
  shows "good False (registerApplication (Some j) s)"
proof -
  let ?s = "lens_init\<lparr>throws := t, mainScreen := Some (lens_screen_initialize d), pApplication := Some j\<rparr>"
  have "wm_ok (False, False) {} {} [] False False ?s"
    using assms(2) by (auto simp: wm_ok_def screen_ok_def zorder_def lens_init_def)
  note clear_screen_ok [OF this]
  moreover have "registerApplication (Some j) s = the (glass_screen_clear ?s)"
    using assms(1)
    by (auto simp: lens_wm_initialize_def lens_wm_clearScreen_def glass_application_initialize_def lens_input_initialize_def
        glass_screen_clear_def clear_background_def glass_screen_getMainScreen_def registerApplication_def
        split: option.splits bind_splits)
  ultimately show ?thesis by (auto simp: returns_iff dest: goodI)
qed

lemma reachable_good: "reachable s \<Longrightarrow> good False s"
  by (induction rule: reachable.induct) (auto intro: start_good wm.step_inv)

lemma drag_good: "good False s \<Longrightarrow> ptr_ok (dom (windows s)) (dragGrabbingWindow s) \<Longrightarrow> good True s"
  by (auto simp: good_def wm_ok_def)

lemma obeys_both:
  "obeys ok act qs s \<Longrightarrow> \<not> comes_to P act qs s \<Longrightarrow> obeys (\<lambda>q s. ok q s \<and> \<not> P q s) act qs s"
  by (induction qs arbitrary: s) (auto split: option.splits)

lemma reachable_run: "reachable s \<Longrightarrow> obeys allowed perform qs s \<Longrightarrow> run perform qs s = Some s' \<Longrightarrow> reachable s'"
proof (induction qs arbitrary: s)
  case (Cons q qs)
  then obtain s1 where "perform q s = Some s1" "run perform qs s1 = Some s'" by (auto split: bind_splits)
  with Cons show ?case by (auto intro: request)
qed simp

section \<open>Properties\<close>


definition started :: lens where
  "started = lens_init\<lparr>mainScreen := Some (lens_screen_initialize None), pApplication := Some 100\<rparr>"

lemma started_reachable: "reachable started"
proof -
  have "lens_wm_initialize None (lens_init\<lparr>throws := \<lambda>_. False\<rparr>) =
      Some (True, lens_init\<lparr>mainScreen := Some (lens_screen_initialize None)\<rparr>)"
    by (simp add: lens_wm_initialize_def lens_wm_clearScreen_def glass_application_initialize_def lens_input_initialize_def
        glass_screen_clear_def clear_background_def glass_screen_getMainScreen_def lens_init_def)
  from start [OF this, of 100] show ?thesis by (simp add: started_def registerApplication_def lens_init_def)
qed


text \<open>
  C11: in every reachable state the mutex of the list is free; the list of windows is doubly linked
  without repetition, its recorded ends and size are right, and it holds allocated windows only; the
  focused window, the window that holds the grab and the window under the mouse are null or allocated, whatever windows
  were closed; a window that holds the grab has the focus; the view of a window is null or allocated, as Java closes a
  view only when no window shows it. The window that holds a drag, once null or allocated, stays so under every request but one that
  closes it.
\<close>

theorem reachable_invariant:
  assumes "reachable s"
  shows "\<not> windowListLocked s \<and> (\<exists>xs. zorder s xs \<and> set xs \<subseteq> dom (windows s)) \<and>
    (\<forall>p \<in> {focusedWindow s, grabbedWindow s, mouseWindow s}. ptr_ok (dom (windows s)) p) \<and>
    (grabbedWindow s \<noteq> None \<longrightarrow> grabbedWindow s = focusedWindow s) \<and>
    (\<forall>win \<in> ran (windows s). ptr_ok (dom (views s)) (view win)) \<and>
    (ptr_ok (dom (windows s)) (dragGrabbingWindow s) \<longrightarrow> (\<forall>q s'. allowed q s \<longrightarrow> perform q s = Some s' \<longrightarrow> \<not> closes_drag q s \<longrightarrow>
       ptr_ok (dom (windows s')) (dragGrabbingWindow s')))"
proof -
  obtain lv D V xs r where s: "wm_ok lv D V xs False r s" using reachable_good [OF assms] by (auto simp: good_def)
  have "ptr_ok D (grabbedWindow s)" using s by (cases "grabbedWindow s") (auto simp: wm_ok_def)
  moreover have "dom (windows s) = D" "dom (views s) = V" using s by (simp_all add: wm_ok_def)
  moreover have "ptr_ok (dom (windows s')) (dragGrabbingWindow s')"
    if "ptr_ok (dom (windows s)) (dragGrabbingWindow s)" "allowed q s" "perform q s = Some s'" "\<not> closes_drag q s" for q s'
    using wm_drag.step_inv [OF drag_good [OF reachable_good [OF assms] that(1)] _ that(3)] that(2,4) by (auto simp: good_def wm_ok_def)
  ultimately show ?thesis
    using s wm_ok_mem [OF s] by (auto simp: wm_ok_def ran_def)
qed

theorem reachable_invariant_witness: "\<exists>xs. zorder started xs \<and> set xs \<subseteq> dom (windows started)"
  using reachable_invariant [OF started_reachable] by simp

lemma stale_touch_request:
  assumes "wm_ok lv D V ws False False s" "fst lv" "touchWindow s = Some w" "w \<notin> set ws" "request_ok q"
  shows "returns (perform q s) (\<lambda>s'. wm_ok lv D V ws False False s' \<and> touch_state s' = touch_state s)"
proof -
  obtain s' where s': "perform q s = Some s'" "wm_ok lv D V ws False False s'"
    using input_request_ok(2) [OF assms(1,2,5)] by (auto simp: returns_iff)
  have "touch_state s' = touch_state s"
  proof (cases q)
    case (Touch st ids us vs p)
    then have "touch_args (length st) st ids us vs p" using assms(5) by simp
    from stale_touch_step [OF assms(1,3,4) this drag_aliveI [OF assms(1,2)]] show ?thesis
      using s'(1) Touch by (simp add: returns_iff)
  qed (use s'(1) assms(5) in \<open>auto dest!: touch_frames\<close>)
  with s' show ?thesis by simp
qed

text \<open>
  C39: a touch window that is no longer in the list of windows (it was released during a touch sequence) is never
  given up. Whatever the input devices send from then on, the end of the touch sequence and the starts of new ones included,
  it stays the touch window, and no window gets a touch event any more; touches are only turned into mouse events. (The
  window that holds a drag is null or allocated. A new window changes this only if it is created at the address of the released one.)
\<close>

theorem stale_touch_window_stays:
  assumes "wm_ok (True, live) D V ws False False s" and "touchWindow s = Some w" and "w \<notin> set ws" and "list_all request_ok qs"
  shows "returns (run perform qs s) (\<lambda>s'. touchWindow s' = Some w \<and> touch_log s' = touch_log s)"
proof -
  have "returns (run perform qs s) (\<lambda>s'. touch_state s' = touch_state s)"
    using assms(1,2,4)
  proof (induction qs arbitrary: s)
    case (Cons q qs)
    then have "request_ok q" by simp
    then obtain s1 where s1: "perform q s = Some s1" "wm_ok (True, live) D V ws False False s1" "touch_state s1 = touch_state s"
      using stale_touch_request [OF Cons.prems(1) _ Cons.prems(2) assms(3)] by (auto simp: returns_iff)
    then have "touchWindow s1 = Some w" using Cons.prems(2) by (simp add: touch_state_def)
    with Cons.IH [OF s1(2)] Cons.prems(3) s1(1,3) show ?case by simp
  qed simp
  then show ?thesis using assms(2) by (auto simp: touch_state_def elim: returns_conseq)
qed

theorem stale_touch_window_stays_witness:
  "returns (run perform [Touch [TouchEvent_TOUCH_PRESSED] [7] [150] [160] 0, Touch [TouchEvent_TOUCH_RELEASED] [7] [150] [160] (- 1),
       Touch [TouchEvent_TOUCH_PRESSED] [8] [150] [160] 0] (desk\<lparr>touchWindow := Some 9\<rparr>))
     (\<lambda>s'. touchWindow s' = Some 9 \<and> touch_log s' = [])"
proof -
  let ?qs = "[Touch [TouchEvent_TOUCH_PRESSED] [7] [150] [160] 0, Touch [TouchEvent_TOUCH_RELEASED] [7] [150] [160] (- 1),
       Touch [TouchEvent_TOUCH_PRESSED] [8] [150] [160] 0]"
  have ok: "wm_ok (True, True) {1, 2} {11, 12} [1, 2] False False (desk\<lparr>touchWindow := Some 9\<rparr>)" using desk_ok by simp
  have "touchWindow (desk\<lparr>touchWindow := Some 9\<rparr>) = Some 9" "9 \<notin> set [1, 2 :: nat]" "list_all request_ok ?qs"
    by (simp_all add: touch_args_def)
  from stale_touch_window_stays [OF ok this] show ?thesis
    by (simp add: touch_log_def desk_def lens_init_def)
qed

text \<open>
  A null view handle raises the Java exception, but the native methods of a view go on after
  raising it: \<open>begin\<close> takes the render mutex all the same, and closing, full screen and setting the
  parent dereference the null pointer.
\<close>

theorem null_view_handle_goes_on:
  "LensView_close None s = None \<and> LensView_enterFullscreen None a k h s = None \<and>
   LensView_exitFullscreen None a s = None \<and> LensView_setParent None p s = None \<and>
   (\<not> renderLocked s \<longrightarrow> LensView_begin None s = Some (s\<lparr>renderLocked := True,
      trace := trace s @ [Throw glass_NullPointerException ''View handle is null'']\<rparr>))"
  by (simp add: LensView_close_def LensView_enterFullscreen_def LensView_exitFullscreen_def LensView_setParent_def
      LensView_begin_def null_view_def glass_view_drawBegin_def render_lock_def glass_throw_exception_by_name_def)

theorem null_view_handle_goes_on_witness: "map_option renderLocked (LensView_begin None started) = Some True"
  using null_view_handle_goes_on [of started] by (simp add: started_def lens_init_def)

end
