(* ===== verification/PiscesTypes.thy ===== *)
theory PiscesTypes
  imports GlassPrelude
begin

text \<open>
  The data of the software renderer: \<open>native-prism-sw/PiscesRenderer.h\<close> and \<open>PiscesSurface.h\<close>.
  A pointer to a function is a value of an enumeration whose elements are named after the C
  functions, with \<open>NULL\<close> as \<open>None\<close>. An array that C reaches through a pointer is a list, and a null
  pointer to one is the empty list: reading or writing through it is undefined either way.
\<close>

section \<open>Modes\<close>

text \<open>The values of \<open>com_sun_pisces_RendererBase\<close>; any other number is "unsupported" in the code.\<close>

abbreviation (input) COMPOSITE_CLEAR :: int where "COMPOSITE_CLEAR \<equiv> 0"
abbreviation (input) COMPOSITE_SRC :: int where "COMPOSITE_SRC \<equiv> 1"
abbreviation (input) COMPOSITE_SRC_OVER :: int where "COMPOSITE_SRC_OVER \<equiv> 2"

abbreviation (input) TYPE_INT_ARGB_PRE :: int where "TYPE_INT_ARGB_PRE \<equiv> 1"

abbreviation (input) IMAGE_MODE_NORMAL :: int where "IMAGE_MODE_NORMAL \<equiv> 1"

abbreviation (input) IMAGE_FRAC_EDGE_PAD :: int where "IMAGE_FRAC_EDGE_PAD \<equiv> 1"
abbreviation (input) IMAGE_FRAC_EDGE_TRIM :: int where "IMAGE_FRAC_EDGE_TRIM \<equiv> 2"

abbreviation (input) PAINT_FLAT_COLOR :: int where "PAINT_FLAT_COLOR \<equiv> 0"
abbreviation (input) PAINT_LINEAR_GRADIENT :: int where "PAINT_LINEAR_GRADIENT \<equiv> 1"
abbreviation (input) PAINT_RADIAL_GRADIENT :: int where "PAINT_RADIAL_GRADIENT \<equiv> 2"
abbreviation (input) PAINT_TEXTURE8888 :: int where "PAINT_TEXTURE8888 \<equiv> 4"
abbreviation (input) PAINT_TEXTURE8888_MULTIPLY :: int where "PAINT_TEXTURE8888_MULTIPLY \<equiv> 5"

abbreviation (input) NO_MASK :: int where "NO_MASK \<equiv> 0"
abbreviation (input) ALPHA_MASK :: int where "ALPHA_MASK \<equiv> 1"
abbreviation (input) LCD_ALPHA_MASK :: int where "LCD_ALPHA_MASK \<equiv> 2"

abbreviation (input) MAX_ALPHA :: int where "MAX_ALPHA \<equiv> 255"
abbreviation (input) NUM_ALPHA_ROWS :: int where "NUM_ALPHA_ROWS \<equiv> 8"

section \<open>Routines\<close>

datatype blit =
    BlitSrc8888_pre | BlitPTSrc8888_pre | BlitSrcOver8888_pre | BlitPTSrcOver8888_pre
  | BlitSrcMask8888_pre | BlitPTSrcMask8888_pre | BlitSrcOverMask8888_pre | BlitPTSrcOverMask8888_pre
  | BlitSrcOverLCDMask8888_pre

datatype emit_line =
    EmitLineSource8888_pre | EmitLineSourceOver8888_pre | EmitLinePTSource8888_pre | EmitLinePTSourceOver8888_pre

datatype gen_paint = GenLinearGradientPaint | GenRadialGradientPaint | GenTexturePaint | GenTexturePaintMultiply

text \<open>The tables of routines of \<open>struct _Renderer\<close>, filled in for the type of the surface.\<close>

record Routines =
  bl_SourceOverMask :: "blit option"
  bl_PT_SourceOverMask :: "blit option"
  bl_SourceMask :: "blit option"
  bl_PT_SourceMask :: "blit option"
  bl_SourceOverLCDMask :: "blit option"
  bl_PT_SourceOverLCDMask :: "blit option"
  bl_SourceLCDMask :: "blit option"
  bl_PT_SourceLCDMask :: "blit option"
  bl_SourceOverNoMask :: "blit option"
  bl_PT_SourceOverNoMask :: "blit option"
  bl_SourceNoMask :: "blit option"
  bl_PT_SourceNoMask :: "blit option"
  el_Source :: "emit_line option"
  el_SourceOver :: "emit_line option"
  el_PT_Source :: "emit_line option"
  el_PT_SourceOver :: "emit_line option"
  bl_Clear :: "blit option"
  bl_PT_Clear :: "blit option"
  clearRect_set :: bool

text \<open>The entries chosen for the mask, then for the composite rule.\<close>

record Choice =
  bl_SourceOver :: "blit option"
  bl_PT_SourceOver :: "blit option"
  bl_Source :: "blit option"
  bl_PT_Source :: "blit option"
  bl :: "blit option"
  bl_PT :: "blit option"
  el :: "emit_line option"
  el_PT :: "emit_line option"

record Surface =
  s_width :: int
  s_height :: int
  s_offset :: int
  s_scanlineStride :: int
  s_pixelStride :: int
  s_imageType :: int

section \<open>The renderer\<close>

text \<open>
  \<open>struct _Renderer\<close>. \<open>rowAAInt\<close> holds differences of coverage from one pixel to the next, \<open>alphaMap\<close>
  turns their running sum into an alpha value. \<open>rdr_data\<close> is the array of the surface, which the
  surface and the renderer share. The parameters of gradients and textures are read only by the
  functions that generate a paint; of them only what the operations below release is kept.
\<close>

record Renderer =
  paintMode :: int
  prevPaintMode :: int
  ured :: int
  ugreen :: int
  ublue :: int
  ualpha :: int
  cred :: int
  cgreen :: int
  cblue :: int
  calpha :: int
  compositeRule :: int
  surface :: Surface
  rdr_data :: "32 word list"
  rdr_width :: int
  rdr_height :: int
  imageOffset :: int
  imageScanlineStride :: int
  imagePixelStride :: int
  imageType :: int
  table :: Routines
  choice :: Choice
  emitRows :: "blit option"
  emitLine :: "emit_line option"
  genPaint :: "gen_paint option"
  rowNum :: int
  alphaWidth :: int
  minTouched :: int
  maxTouched :: int
  currX :: int
  currY :: int
  currImageOffset :: int
  alphaMap :: "8 word list"
  rowAAInt :: "int list"
  rectX :: int
  rectY :: int
  maskType :: int
  mask_byteData :: "8 word list"
  maskOffset :: int
  mask_width :: int
  mask_height :: int
  paint :: "32 word list"
  clip_bbMinX :: int
  clip_bbMinY :: int
  clip_bbMaxX :: int
  clip_bbMaxY :: int
  el_lfrac :: int
  el_rfrac :: int
  rendererState :: "32 word"

text \<open>Memory from \<open>calloc\<close>: every field is zero and every pointer is null.\<close>

definition no_routines :: Routines where
  "no_routines =
     \<lparr>bl_SourceOverMask = None, bl_PT_SourceOverMask = None, bl_SourceMask = None, bl_PT_SourceMask =
     None, bl_SourceOverLCDMask = None, bl_PT_SourceOverLCDMask = None, bl_SourceLCDMask = None,
     bl_PT_SourceLCDMask = None, bl_SourceOverNoMask = None, bl_PT_SourceOverNoMask = None, bl_SourceNoMask =
     None, bl_PT_SourceNoMask = None, el_Source = None, el_SourceOver = None, el_PT_Source = None,
     el_PT_SourceOver = None, bl_Clear = None, bl_PT_Clear = None, clearRect_set = False\<rparr>"

definition no_choice :: Choice where
  "no_choice =
     \<lparr>bl_SourceOver = None, bl_PT_SourceOver = None, bl_Source = None, bl_PT_Source = None, bl = None,
     bl_PT = None, el = None, el_PT = None\<rparr>"

definition zeroed :: "Surface \<Rightarrow> Renderer" where
  "zeroed s =
     \<lparr>paintMode = 0, prevPaintMode = 0, ured = 0, ugreen = 0, ublue = 0, ualpha = 0, cred = 0, cgreen =
     0, cblue = 0, calpha = 0, compositeRule = 0, surface = s, rdr_data = [], rdr_width = 0, rdr_height = 0,
     imageOffset = 0, imageScanlineStride = 0, imagePixelStride = 0, imageType = 0, table = no_routines,
     choice = no_choice, emitRows = None, emitLine = None, genPaint = None, rowNum = 0, alphaWidth = 0,
     minTouched = 0, maxTouched = 0, currX = 0, currY = 0, currImageOffset = 0, alphaMap = [], rowAAInt = [],
     rectX = 0, rectY = 0, maskType = 0, mask_byteData = [], maskOffset = 0, mask_width = 0, mask_height = 0,
     paint = [], clip_bbMinX = 0, clip_bbMinY = 0, clip_bbMaxX = 0, clip_bbMaxY = 0, el_lfrac = 0, el_rfrac =
     0, rendererState = 0\<rparr>"

end
