(* ===== verification/PiscesBlend.thy ===== *)
theory PiscesBlend
  imports GlassPrelude
begin

text \<open>
  \<open>native-prism-sw/PiscesBlit.c\<close>, the operations on one pixel of the software renderer. A pixel is a 32 bit
  word with alpha in the top byte, then red, green and blue, the colours multiplied by alpha. The
  arithmetic on components is done in \<open>int\<close>: all the products of the code are far below the range of
  \<open>jint\<close>. A shift to the right of a \<open>jint\<close> is a division that rounds down.
\<close>

unbundle bit_operations_syntax

section \<open>Components of a pixel\<close>

definition div255 :: "int \<Rightarrow> int" where
  "div255 x = (x * 257 + 257) div 65536"

definition px_A :: "32 word \<Rightarrow> int" where
  "px_A x = uint (drop_bit 24 x AND 0xff)"

definition px_R :: "32 word \<Rightarrow> int" where
  "px_R x = uint (drop_bit 16 x AND 0xff)"

definition px_G :: "32 word \<Rightarrow> int" where
  "px_G x = uint (drop_bit 8 x AND 0xff)"

definition px_B :: "32 word \<Rightarrow> int" where
  "px_B x = uint (x AND 0xff)"

text \<open>\<open>(a << 24) | (r << 16) | (g << 8) | b\<close>, where a component of more than a byte spills over.\<close>

definition pack :: "int \<Rightarrow> int \<Rightarrow> int \<Rightarrow> int \<Rightarrow> 32 word" where
  "pack a r g b = push_bit 24 (word_of_int a) OR push_bit 16 (word_of_int r) OR push_bit 8 (word_of_int g)
     OR word_of_int b"

section \<open>Blending one pixel\<close>

definition blendSrcOver8888_pre :: "int \<Rightarrow> int \<Rightarrow> int \<Rightarrow> int \<Rightarrow> 32 word \<Rightarrow> 32 word" where
  "blendSrcOver8888_pre aval sred sgreen sblue ival =
     (let oneminusaval = 255 - aval
      in pack (div255 (255 * aval + oneminusaval * px_A ival)) (div255 (sred * aval + oneminusaval * px_R ival))
              (div255 (sgreen * aval + oneminusaval * px_G ival)) (div255 (sblue * aval + oneminusaval * px_B ival)))"

definition blendSrcOver8888_pre_pre :: "int \<Rightarrow> int \<Rightarrow> int \<Rightarrow> int \<Rightarrow> int \<Rightarrow> 32 word \<Rightarrow> 32 word" where
  "blendSrcOver8888_pre_pre fr aval sred sgreen sblue ival =
     (let aval2 = aval * fr div 256; oneminusaval = 255 - aval2
      in pack (aval2 + div255 (oneminusaval * px_A ival)) (sred * fr div 256 + div255 (oneminusaval * px_R ival))
              (sgreen * fr div 256 + div255 (oneminusaval * px_G ival))
              (sblue * fr div 256 + div255 (oneminusaval * px_B ival)))"

definition blendSrcOver8888_pre_pre_fullFrac :: "int \<Rightarrow> int \<Rightarrow> int \<Rightarrow> int \<Rightarrow> 32 word \<Rightarrow> 32 word" where
  "blendSrcOver8888_pre_pre_fullFrac aval sred sgreen sblue ival =
     (let oneminusaval = 255 - aval
      in pack (aval + div255 (oneminusaval * px_A ival)) (sred + div255 (oneminusaval * px_R ival))
              (sgreen + div255 (oneminusaval * px_G ival)) (sblue + div255 (oneminusaval * px_B ival)))"

text \<open>Reading the gamma tables, two arrays of 256 numbers, by a component.\<close>

definition blendLCDSrcOver8888_pre ::
    "int list \<Rightarrow> int list \<Rightarrow> int \<Rightarrow> int \<Rightarrow> int \<Rightarrow> int \<Rightarrow> int \<Rightarrow> int \<Rightarrow> 32 word \<Rightarrow> 32 word option" where
  "blendLCDSrcOver8888_pre gammaArray invGammaArray ared agreen ablue sred sgreen sblue ival = do {
     dred \<leftarrow> read_at invGammaArray (px_R ival);
     dgreen \<leftarrow> read_at invGammaArray (px_G ival);
     dblue \<leftarrow> read_at invGammaArray (px_B ival);
     ored \<leftarrow> read_at gammaArray (div255 (ared * sred + (255 - ared) * dred));
     ogreen \<leftarrow> read_at gammaArray (div255 (agreen * sgreen + (255 - agreen) * dgreen));
     oblue \<leftarrow> read_at gammaArray (div255 (ablue * sblue + (255 - ablue) * dblue));
     Some (pack 0xff ored ogreen oblue)
   }"

definition blendSrc8888_pre :: "int \<Rightarrow> int \<Rightarrow> int \<Rightarrow> int \<Rightarrow> int \<Rightarrow> 32 word \<Rightarrow> 32 word" where
  "blendSrc8888_pre aval raaval sred sgreen sblue ival =
     (let denom = 255 * aval + px_A ival * raaval
      in if denom = 0 then 0
         else pack (div255 denom) (div255 (aval * sred + raaval * px_R ival))
                (div255 (aval * sgreen + raaval * px_G ival)) (div255 (aval * sblue + raaval * px_B ival)))"

definition blendSrc8888_pre_pre :: "int \<Rightarrow> int \<Rightarrow> int \<Rightarrow> int \<Rightarrow> int \<Rightarrow> 32 word \<Rightarrow> 32 word" where
  "blendSrc8888_pre_pre aval raaval sred sgreen sblue ival =
     (let denom = 255 * aval + px_A ival * raaval
      in if denom = 0 then 0
         else pack (div255 denom) (sred + div255 (raaval * px_R ival))
                (sgreen + div255 (raaval * px_G ival)) (sblue + div255 (raaval * px_B ival)))"

section \<open>Reading components back\<close>

definition is_byte :: "int \<Rightarrow> bool" where
  "is_byte x = (0 \<le> x \<and> x \<le> 255)"

text \<open>The colours of a pixel that is multiplied by its alpha are never above it.\<close>

definition premultiplied :: "32 word \<Rightarrow> bool" where
  "premultiplied p = (px_R p \<le> px_A p \<and> px_G p \<le> px_A p \<and> px_B p \<le> px_A p)"

lemma uint_mask8: "is_byte (uint (x AND 0xff :: 32 word))"
  by (simp add: is_byte_def uint_and AND_upper1 flip: mask_eq_exp_minus_1)

lemma px_byte [simp]: "is_byte (px_A p)" "is_byte (px_R p)" "is_byte (px_G p)" "is_byte (px_B p)"
  unfolding px_A_def px_R_def px_G_def px_B_def by (rule uint_mask8)+

lemma byte_bit: "is_byte a \<Longrightarrow> bit a n \<Longrightarrow> n < 8"
  using bit_take_bit_iff [of 8 a n] by (simp add: is_byte_def take_bit_int_eq_self)

lemma byte_uint: "is_byte a \<Longrightarrow> uint (word_of_int a :: 32 word) = a"
  by (simp add: is_byte_def unsigned_of_int take_bit_int_eq_self_iff)

lemma mask8: "(0xff :: 32 word) = mask 8"
  by (simp add: mask_eq_exp_minus_1)

lemma pack_px:
  assumes "is_byte a" "is_byte r" "is_byte g" "is_byte b"
  shows "px_A (pack a r g b) = a" "px_R (pack a r g b) = r" "px_G (pack a r g b) = g" "px_B (pack a r g b) = b"
proof -
  note bits = assms [THEN byte_bit]
  have "drop_bit 24 (pack a r g b) AND 0xff = word_of_int a"
       "drop_bit 16 (pack a r g b) AND 0xff = word_of_int r"
       "drop_bit 8 (pack a r g b) AND 0xff = word_of_int g"
       "pack a r g b AND 0xff = word_of_int b"
    unfolding pack_def mask8
    by (rule bit_word_eqI, auto simp: bit_simps dest: bits)+
  then show "px_A (pack a r g b) = a" "px_R (pack a r g b) = r" "px_G (pack a r g b) = g" "px_B (pack a r g b) = b"
    by (simp_all add: px_A_def px_R_def px_G_def px_B_def byte_uint assms)
qed

lemma pixel_eqI:
  assumes "px_A p = px_A q" "px_R p = px_R q" "px_G p = px_G q" "px_B p = px_B q"
  shows "p = q"
proof (rule bit_word_eqI)
  fix n assume "n < LENGTH(32)"
  then consider "n = 24 + (n - 24)" "n - 24 < 8" | "n = 16 + (n - 16)" "n - 16 < 8" | "n = 8 + (n - 8)" "n - 8 < 8" | "n < 8"
    by fastforce
  moreover have eqs: "bit (drop_bit 24 p AND mask 8) k = bit (drop_bit 24 q AND mask 8) k"
    "bit (drop_bit 16 p AND mask 8) k = bit (drop_bit 16 q AND mask 8) k"
    "bit (drop_bit 8 p AND mask 8) k = bit (drop_bit 8 q AND mask 8) k"
    "bit (p AND mask 8) k = bit (q AND mask 8) k" for k
    using assms [unfolded px_A_def px_R_def px_G_def px_B_def mask8, THEN word_uint_eqI] by (simp_all only:)
  ultimately show "bit p n = bit q n"
  proof cases
    case 1 then show ?thesis using eqs(1) [of "n - 24"] \<open>n < LENGTH(32)\<close> by (simp add: bit_simps)
  next
    case 2 then show ?thesis using eqs(2) [of "n - 16"] \<open>n < LENGTH(32)\<close> by (simp add: bit_simps)
  next
    case 3 then show ?thesis using eqs(3) [of "n - 8"] \<open>n < LENGTH(32)\<close> by (simp add: bit_simps)
  next
    case 4 then show ?thesis using eqs(4) [of n] by (simp add: bit_simps)
  qed
qed

lemma pack_unpack: "pack (px_A p) (px_R p) (px_G p) (px_B p) = p"
  by (rule pixel_eqI) (simp_all add: pack_px)

section \<open>The division by 255\<close>

lemma div255_exact: "0 \<le> x \<Longrightarrow> x \<le> 65535 \<Longrightarrow> div255 x = x div 255"
proof -
  assume x: "0 \<le> x" "x \<le> 65535"
  define q r where "q = x div 255" and "r = x mod 255"
  have "x = 255 * q + r" "0 \<le> r" "r < 255" "0 \<le> q" "q \<le> 257"
    using x by (auto simp: q_def r_def)
  then have "(x * 257 + 257) div 65536 = q"
    by (intro int_div_pos_eq [where r = "257 * (r + 1) - q"]) simp_all
  then show ?thesis by (simp add: div255_def q_def)
qed


lemma div255_byte: "0 \<le> x \<Longrightarrow> x \<le> 255 * 255 \<Longrightarrow> is_byte (div255 x)"
  by (simp add: div255_exact is_byte_def pos_imp_zdiv_nonneg_iff)

text \<open>A mean of two bytes, weighted by a byte and its complement, is a byte.\<close>

lemma weighted:
  assumes "is_byte w" "is_byte x" "is_byte y"
  shows "0 \<le> x * w + (255 - w) * y" "x * w + (255 - w) * y \<le> 255 * 255"
proof -
  have "0 \<le> x * w" "0 \<le> (255 - w) * y" using assms by (simp_all add: is_byte_def)
  then show "0 \<le> x * w + (255 - w) * y" by simp
  have "x * w \<le> 255 * w" using assms by (simp add: is_byte_def mult_right_mono)
  moreover have "(255 - w) * y \<le> (255 - w) * 255"
    using assms by (intro mult_left_mono) (simp_all add: is_byte_def)
  ultimately show "x * w + (255 - w) * y \<le> 255 * 255" by simp
qed

lemma weighted_mono:
  assumes "is_byte w" "x \<le> x'" "y \<le> y'"
  shows "x * w + (255 - w) * y \<le> x' * w + (255 - w) * y'"
  using assms by (intro add_mono mult_right_mono mult_left_mono) (simp_all add: is_byte_def)

lemma scaled_byte:
  assumes "is_byte x" "0 \<le> fr" "fr \<le> 256"
  shows "0 \<le> x * fr div 256" "x * fr div 256 \<le> x"
proof -
  show "0 \<le> x * fr div 256" using assms by (simp add: is_byte_def pos_imp_zdiv_nonneg_iff)
  have "x * fr \<le> x * 256" using assms by (intro mult_left_mono) (simp_all add: is_byte_def)
  then have "x * fr div 256 \<le> x * 256 div 256" by (intro zdiv_mono1) simp_all
  then show "x * fr div 256 \<le> x" by simp
qed

text \<open>What is left of a byte under a complement fits above the weight.\<close>

lemma remains:
  assumes "is_byte w" "is_byte y"
  shows "0 \<le> div255 ((255 - w) * y)" "div255 ((255 - w) * y) \<le> 255 - w"
proof -
  have r: "0 \<le> (255 - w) * y" using assms by (simp add: is_byte_def)
  have r2: "(255 - w) * y \<le> (255 - w) * 255"
    using assms by (intro mult_left_mono) (simp_all add: is_byte_def)
  then have d: "div255 ((255 - w) * y) = (255 - w) * y div 255"
    using assms r2 by (intro div255_exact) (simp_all add: is_byte_def)
  show "0 \<le> div255 ((255 - w) * y)" using r d by (simp add: pos_imp_zdiv_nonneg_iff)
  have "(255 - w) * y div 255 \<le> (255 - w) * 255 div 255" using r2 by (intro zdiv_mono1) simp_all
  then show "div255 ((255 - w) * y) \<le> 255 - w" by (simp add: d)
qed

lemma remains_mono:
  assumes "is_byte w" "is_byte y'" "0 \<le> y" "y \<le> y'"
  shows "div255 ((255 - w) * y) \<le> div255 ((255 - w) * y')"
  unfolding div255_def
  by (intro zdiv_mono1 add_right_mono mult_right_mono mult_left_mono) (use assms in \<open>simp_all add: is_byte_def\<close>)

section \<open>The two blends of the source over the destination\<close>

lemma over_pre_components:
  assumes "is_byte aval" "is_byte sred" "is_byte sgreen" "is_byte sblue"
  shows "px_A (blendSrcOver8888_pre aval sred sgreen sblue p) = div255 (255 * aval + (255 - aval) * px_A p)"
    "px_R (blendSrcOver8888_pre aval sred sgreen sblue p) = div255 (sred * aval + (255 - aval) * px_R p)"
    "px_G (blendSrcOver8888_pre aval sred sgreen sblue p) = div255 (sgreen * aval + (255 - aval) * px_G p)"
    "px_B (blendSrcOver8888_pre aval sred sgreen sblue p) = div255 (sblue * aval + (255 - aval) * px_B p)"
proof -
  have b: "is_byte (div255 (x * aval + (255 - aval) * y))" if "is_byte x" "is_byte y" for x y
    using weighted [OF assms(1) that] by (rule div255_byte)
  have "is_byte 255" by (simp add: is_byte_def)
  note bs = b [OF this px_byte(1) [of p]] b [OF assms(2) px_byte(2) [of p]] b [OF assms(3) px_byte(3) [of p]]
    b [OF assms(4) px_byte(4) [of p]]
  show "px_A (blendSrcOver8888_pre aval sred sgreen sblue p) = div255 (255 * aval + (255 - aval) * px_A p)"
    "px_R (blendSrcOver8888_pre aval sred sgreen sblue p) = div255 (sred * aval + (255 - aval) * px_R p)"
    "px_G (blendSrcOver8888_pre aval sred sgreen sblue p) = div255 (sgreen * aval + (255 - aval) * px_G p)"
    "px_B (blendSrcOver8888_pre aval sred sgreen sblue p) = div255 (sblue * aval + (255 - aval) * px_B p)"
    by (simp_all only: blendSrcOver8888_pre_def Let_def pack_px [OF bs])
qed

lemma over_pre_opaque: "blendSrcOver8888_pre 255 sred sgreen sblue p = pack 0xff sred sgreen sblue"
  if "is_byte sred" "is_byte sgreen" "is_byte sblue"
  using that by (simp add: blendSrcOver8888_pre_def div255_exact is_byte_def)

lemma over_pre_clear: "blendSrcOver8888_pre 0 sred sgreen sblue p = p"
  using px_byte [of p] pack_unpack [of p]
  by (simp add: blendSrcOver8888_pre_def div255_exact is_byte_def)

lemma over_pre_pre_fields:
  assumes "premultiplied p" "is_byte aval" "0 \<le> fr" "fr \<le> 256" "0 \<le> c" "c \<le> aval" "0 \<le> d" "d \<le> px_A p"
  defines "a2 \<equiv> aval * fr div 256"
  shows "is_byte (a2 + div255 ((255 - a2) * px_A p))"
    "is_byte (c * fr div 256 + div255 ((255 - a2) * d))"
    "c * fr div 256 + div255 ((255 - a2) * d) \<le> a2 + div255 ((255 - a2) * px_A p)"
proof -
  have a2: "is_byte a2"
    using scaled_byte [OF assms(2-4)] assms(2) by (simp add: a2_def is_byte_def)
  note rA = remains [OF a2 px_byte(1) [of p]]
  show A: "is_byte (a2 + div255 ((255 - a2) * px_A p))"
    using a2 rA by (simp add: is_byte_def)
  have d: "is_byte d" using assms(7,8) px_byte(1) [of p] by (simp add: is_byte_def)
  have c: "is_byte c" using assms(2,5,6) by (simp add: is_byte_def)
  have "c * fr div 256 \<le> a2"
    unfolding a2_def using assms by (intro zdiv_mono1 mult_right_mono) simp_all
  moreover have "div255 ((255 - a2) * d) \<le> div255 ((255 - a2) * px_A p)"
    using assms by (intro remains_mono a2) simp_all
  ultimately show le: "c * fr div 256 + div255 ((255 - a2) * d) \<le> a2 + div255 ((255 - a2) * px_A p)"
    by simp
  have "0 \<le> c * fr div 256" using scaled_byte(1) [OF c assms(3,4)] .
  then show "is_byte (c * fr div 256 + div255 ((255 - a2) * d))"
    using le A remains(1) [OF a2 d] by (simp add: is_byte_def)
qed

end
