(* ===== verification/PiscesBlit.thy ===== *)
theory PiscesBlit
  imports PiscesTypes PiscesBlend
begin

text \<open>
  \<open>native-prism-sw/PiscesBlit.c\<close>, the routines that draw rows of pixels: under the coverage of an
  antialiased shape, under a mask, with a fractional coverage, and the clearing of a rectangle. Each
  takes the renderer and gives it back with its pixels changed; \<open>None\<close> is an access outside an array.
\<close>

unbundle bit_operations_syntax

section \<open>Pixels and rows\<close>

definition update_at :: "'a list \<Rightarrow> int \<Rightarrow> ('a \<Rightarrow> 'a) \<Rightarrow> 'a list option" where
  "update_at xs i f = do { x \<leftarrow> read_at xs i; write_at xs i (f x) }"

definition touched :: "Renderer \<Rightarrow> nat" where
  "touched rdr = nat (if maxTouched rdr \<ge> minTouched rdr then maxTouched rdr - minTouched rdr + 1 else 0)"

text \<open>The index of the leftmost touched pixel of the row \<open>j\<close>.\<close>

definition row_start :: "Renderer \<Rightarrow> nat \<Rightarrow> int" where
  "row_start rdr j = currImageOffset rdr + int j * imageScanlineStride rdr + minTouched rdr * imagePixelStride rdr"

section \<open>Antialiased rows\<close>

text \<open>
  The loop of the blits that take the coverage from \<open>rowAAInt\<close>: the entry is added to the running sum
  and cleared, then \<open>body i k sum\<close> is the effect on the pixel \<open>k\<close>, the \<open>i\<close>-th of its row.
\<close>

definition aa_row ::
    "Renderer \<Rightarrow> nat \<Rightarrow> (nat \<Rightarrow> int \<Rightarrow> int \<Rightarrow> 32 word list \<Rightarrow> 32 word list option) \<Rightarrow>
     32 word list \<times> int list \<Rightarrow> (32 word list \<times> int list) option" where
  "aa_row rdr j body st = do {
     (px, row, _) \<leftarrow> for_range 0 (touched rdr) (\<lambda>i (px, row, aval_relative). do {
        d \<leftarrow> read_at row (int i);
        row \<leftarrow> write_at row (int i) 0;
        px \<leftarrow> body i (row_start rdr j + int i * imagePixelStride rdr) (aval_relative + d) px;
        Some (px, row, aval_relative + d)
      }) (fst st, snd st, 0);
     Some (px, row)
   }"

definition aa_rows ::
    "Renderer \<Rightarrow> int \<Rightarrow> (nat \<Rightarrow> int \<Rightarrow> int \<Rightarrow> 32 word list \<Rightarrow> 32 word list option) \<Rightarrow> Renderer option" where
  "aa_rows rdr height body = do {
     (px, row) \<leftarrow> for_range 0 (nat height) (\<lambda>j. aa_row rdr j body) (rdr_data rdr, rowAAInt rdr);
     Some (rdr\<lparr>rdr_data := px, rowAAInt := row\<rparr>)
   }"

definition src_aa :: "Renderer \<Rightarrow> nat \<Rightarrow> int \<Rightarrow> int \<Rightarrow> 32 word list \<Rightarrow> 32 word list option" where
  "src_aa rdr i k aval_relative px = do {
     c \<leftarrow> read_at (alphaMap rdr) aval_relative;
     let acoverage = uint c
     in if acoverage = MAX_ALPHA then write_at px k (pack (calpha rdr) (cred rdr) (cgreen rdr) (cblue rdr))
        else if acoverage > 0 then update_at px k
          (blendSrc8888_pre ((acoverage + 1) * calpha rdr div 256) (255 - acoverage) (cred rdr) (cgreen rdr) (cblue rdr))
        else Some px
   }"

definition blitSrc8888_pre :: "Renderer \<Rightarrow> int \<Rightarrow> Renderer option" where
  "blitSrc8888_pre rdr height = aa_rows rdr height (src_aa rdr)"

definition pt_src_aa :: "Renderer \<Rightarrow> nat \<Rightarrow> int \<Rightarrow> int \<Rightarrow> 32 word list \<Rightarrow> 32 word list option" where
  "pt_src_aa rdr i k aval_relative px = do {
     cval \<leftarrow> read_at (paint rdr) (int i);
     c \<leftarrow> read_at (alphaMap rdr) aval_relative;
     let acoverage = uint c
     in if acoverage = MAX_ALPHA then write_at px k cval
        else if acoverage > 0 then update_at px k
          (blendSrc8888_pre_pre ((acoverage + 1) * px_A cval div 256) (255 - acoverage) (px_R cval) (px_G cval) (px_B cval))
        else Some px
   }"

definition blitPTSrc8888_pre :: "Renderer \<Rightarrow> int \<Rightarrow> Renderer option" where
  "blitPTSrc8888_pre rdr height = aa_rows rdr height (pt_src_aa rdr)"

definition over_aa :: "Renderer \<Rightarrow> nat \<Rightarrow> int \<Rightarrow> int \<Rightarrow> 32 word list \<Rightarrow> 32 word list option" where
  "over_aa rdr i k aval_relative px =
     (if aval_relative \<noteq> 0 then do {
       c \<leftarrow> read_at (alphaMap rdr) aval_relative;
       let aval = (uint c + 1) * calpha rdr div 256
       in if aval = MAX_ALPHA then write_at px k (pack 0xff (cred rdr) (cgreen rdr) (cblue rdr))
          else if aval > 0 then update_at px k (blendSrcOver8888_pre aval (cred rdr) (cgreen rdr) (cblue rdr))
          else Some px
     }
     else Some px)"

definition blitSrcOver8888_pre :: "Renderer \<Rightarrow> int \<Rightarrow> Renderer option" where
  "blitSrcOver8888_pre rdr height = aa_rows rdr height (over_aa rdr)"

definition pt_over_aa :: "Renderer \<Rightarrow> nat \<Rightarrow> int \<Rightarrow> int \<Rightarrow> 32 word list \<Rightarrow> 32 word list option" where
  "pt_over_aa rdr i k aval_relative px = do {
     cval \<leftarrow> read_at (paint rdr) (int i);
     if aval_relative \<noteq> 0 then do {
       c \<leftarrow> read_at (alphaMap rdr) aval_relative;
       let malpha = uint c; aval = (malpha + 1) * px_A cval div 256
       in if aval = MAX_ALPHA then write_at px k cval
          else if aval > 0 then update_at px k
            (blendSrcOver8888_pre_pre (malpha + 1) (px_A cval) (px_R cval) (px_G cval) (px_B cval))
          else Some px
     }
     else Some px
   }"

definition blitPTSrcOver8888_pre :: "Renderer \<Rightarrow> int \<Rightarrow> Renderer option" where
  "blitPTSrcOver8888_pre rdr height = aa_rows rdr height (pt_over_aa rdr)"

section \<open>Rows under a mask\<close>

text \<open>
  The loop of the blits that take the coverage from the bytes of a mask. \<open>stride\<close> is the number of
  bytes from one row of the mask to the next: the blits of a paint stay in the first row.
\<close>

definition mask_rows ::
    "Renderer \<Rightarrow> int \<Rightarrow> int \<Rightarrow> (nat \<Rightarrow> int \<Rightarrow> int \<Rightarrow> 32 word list \<Rightarrow> 32 word list option) \<Rightarrow> Renderer option" where
  "mask_rows rdr stride height body = do {
     px \<leftarrow> for_range 0 (nat height) (\<lambda>j. for_range 0 (touched rdr) (\<lambda>i px. do {
        a \<leftarrow> read_at (mask_byteData rdr) (maskOffset rdr + int j * stride + int i);
        body i (row_start rdr j + int i * imagePixelStride rdr) (uint a) px
      })) (rdr_data rdr);
     Some (rdr\<lparr>rdr_data := px\<rparr>)
   }"

definition src_mask :: "Renderer \<Rightarrow> nat \<Rightarrow> int \<Rightarrow> int \<Rightarrow> 32 word list \<Rightarrow> 32 word list option" where
  "src_mask rdr i k acoverage px =
     (if acoverage = MAX_ALPHA then write_at px k (pack (calpha rdr) (cred rdr) (cgreen rdr) (cblue rdr))
     else if acoverage > 0 then update_at px k
       (blendSrc8888_pre ((acoverage + 1) * calpha rdr div 256) (255 - acoverage) (cred rdr) (cgreen rdr) (cblue rdr))
     else Some px)"

definition blitSrcMask8888_pre :: "Renderer \<Rightarrow> int \<Rightarrow> Renderer option" where
  "blitSrcMask8888_pre rdr height = mask_rows rdr (alphaWidth rdr) height (src_mask rdr)"

definition pt_src_mask :: "Renderer \<Rightarrow> nat \<Rightarrow> int \<Rightarrow> int \<Rightarrow> 32 word list \<Rightarrow> 32 word list option" where
  "pt_src_mask rdr i k acoverage px = do {
     cval \<leftarrow> read_at (paint rdr) (int i);
     if acoverage = MAX_ALPHA then write_at px k cval
     else if acoverage > 0 then update_at px k
       (blendSrc8888_pre_pre ((acoverage + 1) * px_A cval div 256) (255 - acoverage) (px_R cval) (px_G cval) (px_B cval))
     else Some px
   }"

definition blitPTSrcMask8888_pre :: "Renderer \<Rightarrow> int \<Rightarrow> Renderer option" where
  "blitPTSrcMask8888_pre rdr height = mask_rows rdr 0 height (pt_src_mask rdr)"

definition over_mask :: "Renderer \<Rightarrow> nat \<Rightarrow> int \<Rightarrow> int \<Rightarrow> 32 word list \<Rightarrow> 32 word list option" where
  "over_mask rdr i k a px =
     (if a \<noteq> 0 then
       let aval = (a + 1) * calpha rdr div 256
       in if aval = MAX_ALPHA then write_at px k (pack 0xff (cred rdr) (cgreen rdr) (cblue rdr))
          else if aval > 0 then update_at px k (blendSrcOver8888_pre aval (cred rdr) (cgreen rdr) (cblue rdr))
          else Some px
     else Some px)"

definition blitSrcOverMask8888_pre :: "Renderer \<Rightarrow> int \<Rightarrow> Renderer option" where
  "blitSrcOverMask8888_pre rdr height = mask_rows rdr (alphaWidth rdr) height (over_mask rdr)"

definition pt_over_mask :: "Renderer \<Rightarrow> nat \<Rightarrow> int \<Rightarrow> int \<Rightarrow> 32 word list \<Rightarrow> 32 word list option" where
  "pt_over_mask rdr i k a px =
     (if a \<noteq> 0 then do {
       cval \<leftarrow> read_at (paint rdr) (int i);
       let aval = (a + 1) * px_A cval div 256
       in if aval = MAX_ALPHA then write_at px k cval
          else if aval > 0 then update_at px k
            (blendSrcOver8888_pre_pre (a + 1) (px_A cval) (px_R cval) (px_G cval) (px_B cval))
          else Some px
     }
     else Some px)"

definition blitPTSrcOverMask8888_pre :: "Renderer \<Rightarrow> int \<Rightarrow> Renderer option" where
  "blitPTSrcOverMask8888_pre rdr height = mask_rows rdr 0 height (pt_over_mask rdr)"

text \<open>A mask with one byte for each of red, green and blue; the components go through the gamma tables.\<close>

definition blitSrcOverLCDMask8888_pre :: "int list \<Rightarrow> int list \<Rightarrow> Renderer \<Rightarrow> int \<Rightarrow> Renderer option" where
  "blitSrcOverLCDMask8888_pre gammaArray invGammaArray rdr height = do {
     calpha \<leftarrow> read_at invGammaArray (calpha rdr);
     cred \<leftarrow> read_at invGammaArray (cred rdr);
     cgreen \<leftarrow> read_at invGammaArray (cgreen rdr);
     cblue \<leftarrow> read_at invGammaArray (cblue rdr);
     px \<leftarrow> for_range 0 (nat height) (\<lambda>j. for_range 0 (touched rdr) (\<lambda>i px.
        let m = maskOffset rdr + int j * alphaWidth rdr + 3 * int i;
            k = row_start rdr j + int i * imagePixelStride rdr;
            scale = (\<lambda>v. if calpha < MAX_ALPHA then (v + 1) * calpha div 256 else v)
        in do {
          r \<leftarrow> read_at (mask_byteData rdr) m;
          g \<leftarrow> read_at (mask_byteData rdr) (m + 1);
          b \<leftarrow> read_at (mask_byteData rdr) (m + 2);
          let ared = scale (uint r); agreen = scale (uint g); ablue = scale (uint b)
          in if ared AND agreen AND ablue = MAX_ALPHA then write_at px k (pack 0xff cred cgreen cblue)
             else do {
               ival \<leftarrow> read_at px k;
               c \<leftarrow> blendLCDSrcOver8888_pre gammaArray invGammaArray ared agreen ablue cred cgreen cblue ival;
               write_at px k c
             }
        })) (rdr_data rdr);
     Some (rdr\<lparr>rdr_data := px\<rparr>)
   }"

section \<open>Rows with a fractional coverage\<close>

text \<open>
  \<open>while (a < am) { ...; a += imagePixelStride; aidx++; }\<close>. The loop goes on for ever when the
  stride is not positive and the end is ahead: then \<open>None\<close>.
\<close>

partial_function (option) emit_while ::
    "(int \<Rightarrow> int \<Rightarrow> 32 word list \<Rightarrow> 32 word list option) \<Rightarrow> int \<Rightarrow> int \<Rightarrow> int \<Rightarrow> int \<Rightarrow> 32 word list \<Rightarrow>
     (int \<times> int \<times> 32 word list) option" where
  "emit_while body stride am a aidx px =
     (if a < am then do {
        px \<leftarrow> body aidx a px;
        emit_while body stride am (a + stride) (aidx + 1) px
      }
      else Some (a, aidx, px))"

text \<open>
  One row of \<open>w\<close> inner pixels, with a first pixel if \<open>lfrac\<close> and a last one if \<open>rfrac\<close> is not zero;
  \<open>a\<close> is the index of the pixel and \<open>aidx\<close> that of its paint.
\<close>

definition emit_row ::
    "Renderer \<Rightarrow> int \<Rightarrow> int \<Rightarrow> int \<Rightarrow> (int \<Rightarrow> int \<Rightarrow> 32 word list \<Rightarrow> 32 word list option) \<Rightarrow>
     (int \<Rightarrow> int \<Rightarrow> 32 word list \<Rightarrow> 32 word list option) \<Rightarrow> (int \<Rightarrow> int \<Rightarrow> 32 word list \<Rightarrow> 32 word list option) \<Rightarrow>
     nat \<Rightarrow> 32 word list \<Rightarrow> 32 word list option" where
  "emit_row rdr lfrac w rfrac left_edge inner right_edge j px =
     (let a = row_start rdr j; aidx = int j * alphaWidth rdr
      in do {
        (a, aidx, px) \<leftarrow> (if lfrac \<noteq> 0
           then do { px \<leftarrow> left_edge aidx a px; Some (a + imagePixelStride rdr, aidx + 1, px) }
           else Some (a, aidx, px));
        (a, aidx, px) \<leftarrow> emit_while inner (imagePixelStride rdr) (a + w) a aidx px;
        if rfrac \<noteq> 0 then right_edge aidx a px else Some px
      })"

definition emit_rows where
  "emit_rows rdr height lfrac w rfrac left_edge inner right_edge = do {
     px \<leftarrow> for_range 0 (nat height) (emit_row rdr lfrac w rfrac left_edge inner right_edge) (rdr_data rdr);
     Some (rdr\<lparr>rdr_data := px\<rparr>)
   }"

definition inner_width :: "Renderer \<Rightarrow> int \<Rightarrow> int \<Rightarrow> int" where
  "inner_width rdr lfrac rfrac = alphaWidth rdr - (if lfrac \<noteq> 0 then 1 else 0) - (if rfrac \<noteq> 0 then 1 else 0)"

definition emitLineSource8888_pre :: "Renderer \<Rightarrow> int \<Rightarrow> int \<Rightarrow> Renderer option" where
  "emitLineSource8888_pre rdr height fr =
     (let w = inner_width rdr (el_lfrac rdr) (el_rfrac rdr);
          blend = (\<lambda>raaval aidx a px. update_at px a
                     (blendSrc8888_pre (calpha rdr) raaval (cred rdr) (cgreen rdr) (cblue rdr)))
      in if fr = 0x10000 then
           let pre_red = (calpha rdr + 1) * cred rdr div 256;
               pre_green = (calpha rdr + 1) * cgreen rdr div 256;
               pre_blue = (calpha rdr + 1) * cblue rdr div 256;
               pixel = pack (calpha rdr) pre_red pre_green pre_blue;
               lfrac = el_lfrac rdr; rfrac = el_rfrac rdr
           in emit_rows rdr height lfrac w rfrac (blend (255 - lfrac div 256)) (\<lambda>aidx a px. write_at px a pixel)
                (blend (255 - rfrac div 256))
         else
           let comp_frac = 255 - fr div 256;
               lfrac = el_lfrac rdr * fr div 65536; rfrac = el_rfrac rdr * fr div 65536
           in emit_rows rdr height lfrac w rfrac (blend (255 - lfrac div 256)) (blend comp_frac)
                (blend (255 - rfrac div 256)))"

definition emitLinePTSource8888_pre :: "Renderer \<Rightarrow> int \<Rightarrow> int \<Rightarrow> Renderer option" where
  "emitLinePTSource8888_pre rdr height fr =
     (let comp_frac = 255 - fr div 256;
          lfrac = el_lfrac rdr * fr div 65536; rfrac = el_rfrac rdr * fr div 65536;
          w = inner_width rdr lfrac rfrac;
          blend = (\<lambda>raaval aidx a px. do {
             cval \<leftarrow> read_at (paint rdr) aidx;
             update_at px a (blendSrc8888_pre_pre (px_A cval) raaval (px_R cval) (px_G cval) (px_B cval))
           });
          copy = (\<lambda>aidx a px. do { cval \<leftarrow> read_at (paint rdr) aidx; write_at px a cval })
      in emit_rows rdr height lfrac w rfrac (blend (255 - lfrac div 256)) (if fr = 0x10000 then copy else blend comp_frac)
           (blend (255 - rfrac div 256)))"

definition emitLineSourceOver8888_pre :: "Renderer \<Rightarrow> int \<Rightarrow> int \<Rightarrow> Renderer option" where
  "emitLineSourceOver8888_pre rdr height fr =
     (let alpha = calpha rdr * fr div 65536; lfrac = el_lfrac rdr; rfrac = el_rfrac rdr;
          w = inner_width rdr lfrac rfrac;
          blend = (\<lambda>aval aidx a px. update_at px a (blendSrcOver8888_pre aval (cred rdr) (cgreen rdr) (cblue rdr)))
      in if alpha = MAX_ALPHA then
           let solid_pixel = pack 0xff (cred rdr) (cgreen rdr) (cblue rdr)
           in emit_rows rdr height lfrac w rfrac (blend (lfrac div 256)) (\<lambda>aidx a px. write_at px a solid_pixel)
                (blend (rfrac div 256))
         else
           let lalpha = lfrac * alpha div 65536; ralpha = rfrac * alpha div 65536
           in emit_rows rdr height lfrac w rfrac (blend lalpha) (blend alpha) (blend ralpha))"

definition emitLinePTSourceOver8888_pre :: "Renderer \<Rightarrow> int \<Rightarrow> int \<Rightarrow> Renderer option" where
  "emitLinePTSourceOver8888_pre rdr height fr =
     (let lfrac = el_lfrac rdr * fr div 65536; rfrac = el_rfrac rdr * fr div 65536;
          w = inner_width rdr lfrac rfrac;
          blend = (\<lambda>fr8 aidx a px. do {
             cval \<leftarrow> read_at (paint rdr) aidx;
             update_at px a (blendSrcOver8888_pre_pre fr8 (px_A cval) (px_R cval) (px_G cval) (px_B cval))
           });
          full = (\<lambda>aidx a px. do {
             cval \<leftarrow> read_at (paint rdr) aidx;
             let palpha = px_A cval
             in if palpha = 0 then Some px
                else if palpha = MAX_ALPHA then write_at px a cval
                else update_at px a (blendSrcOver8888_pre_pre_fullFrac palpha (px_R cval) (px_G cval) (px_B cval))
           })
      in emit_rows rdr height lfrac w rfrac (blend (lfrac div 256)) (if fr = 0x10000 then full else blend (fr div 256))
           (blend (rfrac div 256)))"

section \<open>Clearing a rectangle\<close>

text \<open>\<open>memset(p, 0, n * sizeof(jint))\<close> and a copy of \<open>n\<close> words between two areas that must not overlap.\<close>

definition clear_words :: "32 word list \<Rightarrow> int \<Rightarrow> int \<Rightarrow> 32 word list option" where
  "clear_words px p n = (if n < 0 then None else for_range 0 (nat n) (\<lambda>i px. write_at px (p + int i) 0) px)"

definition copy_words :: "32 word list \<Rightarrow> int \<Rightarrow> int \<Rightarrow> int \<Rightarrow> 32 word list option" where
  "copy_words px dst src n =
     (if n < 0 \<or> (0 < n \<and> \<bar>dst - src\<bar> < n) then None
      else for_range 0 (nat n) (\<lambda>i px. do { c \<leftarrow> read_at px (src + int i); write_at px (dst + int i) c }) px)"

definition clearRect8888_any :: "Renderer \<Rightarrow> int \<Rightarrow> int \<Rightarrow> int \<Rightarrow> int \<Rightarrow> Renderer option" where
  "clearRect8888_any rdr x y w h =
     (let cval = pack (calpha rdr) (cred rdr) (cgreen rdr) (cblue rdr);
          p = imageOffset rdr + y * imageScanlineStride rdr + x * imagePixelStride rdr
      in do {
        px \<leftarrow> (if cval = 0 then
                 if x = 0 \<and> w = rdr_width rdr then clear_words (rdr_data rdr) p (w * h)
                 else for_range 0 (nat h) (\<lambda>j px. clear_words px (p + int j * imageScanlineStride rdr) w) (rdr_data rdr)
               else do {
                 px \<leftarrow> for_range 0 (nat w) (\<lambda>i px. write_at px (p + int i) cval) (rdr_data rdr);
                 for_range 1 (nat (h - 1)) (\<lambda>j px. copy_words px (p + int j * imageScanlineStride rdr) p w) px
               });
        Some (rdr\<lparr>rdr_data := px\<rparr>)
      })"

end
