(* ===== verification/PiscesRows.thy ===== *)
theory PiscesRows
  imports PiscesBlit
begin

text \<open>
  What the routines of \<open>PiscesBlit\<close> do to the pixels of the surface. An area of rows is drawn when
  every pixel of it has the colour a function gives and no other pixel changes; \<open>pixel_routine\<close> is the
  contract of the effect on one pixel, under which the loops over rows draw their area.
\<close>

unbundle bit_operations_syntax

section \<open>Areas of pixels\<close>

definition pixel_index :: "Renderer \<Rightarrow> nat \<Rightarrow> nat \<Rightarrow> nat" where
  "pixel_index rdr j i = nat (row_start rdr j + int i * imagePixelStride rdr)"

definition drawn ::
    "Renderer \<Rightarrow> (nat \<times> nat) set \<Rightarrow> (nat \<Rightarrow> nat \<Rightarrow> 32 word \<Rightarrow> 32 word) \<Rightarrow> 32 word list \<Rightarrow> 32 word list \<Rightarrow> bool" where
  "drawn rdr D F px0 px =
     (length px = length px0 \<and>
      (\<forall>(j, i) \<in> D. px ! pixel_index rdr j i = F j i (px0 ! pixel_index rdr j i)) \<and>
      (\<forall>k. (\<forall>(j, i) \<in> D. k \<noteq> pixel_index rdr j i) \<longrightarrow> px ! k = px0 ! k))"

text \<open>\<open>h\<close> rows of \<open>w\<close> adjacent pixels that do not overlap and are inside the surface.\<close>

definition rows_fit :: "Renderer \<Rightarrow> nat \<Rightarrow> nat \<Rightarrow> bool" where
  "rows_fit rdr h w =
     (imagePixelStride rdr = 1 \<and> int w \<le> imageScanlineStride rdr \<and>
      (\<forall>j<h. 0 \<le> row_start rdr j \<and> row_start rdr j + int w \<le> int (length (rdr_data rdr))))"

lemma drawn_refl [simp]: "drawn rdr {} F px px"
  by (simp add: drawn_def)

lemma drawn_length: "drawn rdr D F px0 px \<Longrightarrow> length px = length px0"
  by (simp add: drawn_def)

lemma drawn_step:
  assumes d: "drawn rdr D F px0 px" and new: "\<And>j' i'. (j', i') \<in> D \<Longrightarrow> pixel_index rdr j' i' \<noteq> pixel_index rdr j i"
    and k: "pixel_index rdr j i < length px"
  shows "drawn rdr (insert (j, i) D) F px0 (px[pixel_index rdr j i := F j i (px ! pixel_index rdr j i)])"
proof -
  have ne: "\<forall>(j', i') \<in> D. pixel_index rdr j i \<noteq> pixel_index rdr j' i'"
    using new by fastforce
  then have "px ! pixel_index rdr j i = px0 ! pixel_index rdr j i"
    using d by (simp add: drawn_def)
  with d ne k show ?thesis unfolding drawn_def by (auto simp: nth_list_update split_beta')
qed

lemma rows_fit_in:
  assumes "rows_fit rdr h w" "j < h" "i < w"
  shows "0 \<le> row_start rdr j + int i * imagePixelStride rdr" "pixel_index rdr j i < length (rdr_data rdr)"
proof -
  have "0 \<le> row_start rdr j" "row_start rdr j + int w \<le> int (length (rdr_data rdr))" "imagePixelStride rdr = 1"
    using assms by (auto simp: rows_fit_def)
  with assms(3) show "0 \<le> row_start rdr j + int i * imagePixelStride rdr" "pixel_index rdr j i < length (rdr_data rdr)"
    by (simp_all add: pixel_index_def)
qed

lemma same_row:
  fixes s :: int
  assumes "int w \<le> s" "i < w" "i' < w" "int j * s + int i = int j' * s + int i'"
  shows "j = j'"
proof -
  have "int j = (int j * s + int i) div s" "int j' = (int j' * s + int i') div s"
    using assms(1-3) by (simp_all add: div_add1_eq)
  with assms(4) show ?thesis by simp
qed

lemma pixel_index_inj:
  assumes fit: "rows_fit rdr h w" and ranges: "j < h" "i < w" "j' < h" "i' < w"
    and eq: "pixel_index rdr j i = pixel_index rdr j' i'"
  shows "j = j' \<and> i = i'"
proof -
  have s: "imagePixelStride rdr = 1" "int w \<le> imageScanlineStride rdr" using fit by (auto simp: rows_fit_def)
  have "row_start rdr j + int i * imagePixelStride rdr = row_start rdr j' + int i' * imagePixelStride rdr"
    using eq rows_fit_in(1) [OF fit ranges(1,2)] rows_fit_in(1) [OF fit ranges(3,4)]
    unfolding pixel_index_def by linarith
  then have e: "int j * imageScanlineStride rdr + int i = int j' * imageScanlineStride rdr + int i'"
    using s by (simp add: row_start_def)
  then have "j = j'" using same_row [OF s(2) ranges(2,4)] by blast
  with e show ?thesis by simp
qed

section \<open>The loops over an area\<close>

text \<open>The pixels of the rows before \<open>j\<close> and the first \<open>i\<close> ones of the row \<open>j\<close>.\<close>

abbreviation done_before :: "nat \<Rightarrow> nat \<Rightarrow> nat \<Rightarrow> (nat \<times> nat) set" where
  "done_before w j i \<equiv> {..<j} \<times> {..<w} \<union> {j} \<times> {..<i}"

lemma done_before_Suc: "done_before w j (Suc i) = insert (j, i) (done_before w j i)"
  by (auto simp: lessThan_Suc)

lemma done_before_row: "done_before w (Suc j) 0 = done_before w j w"
  by (auto simp: lessThan_Suc)

lemma drawn_next:
  assumes fit: "rows_fit rdr h w" and ji: "j < h" "i < w"
    and d: "drawn rdr (done_before w j i) F (rdr_data rdr) px"
  shows "drawn rdr (done_before w j (Suc i)) F (rdr_data rdr)
    (px[pixel_index rdr j i := F j i (px ! pixel_index rdr j i)])"
  unfolding done_before_Suc
proof (rule drawn_step [OF d])
  show "pixel_index rdr j' i' \<noteq> pixel_index rdr j i" if "(j', i') \<in> done_before w j i" for j' i'
  proof
    assume "pixel_index rdr j' i' = pixel_index rdr j i"
    then have "j' = j \<and> i' = i" using that ji by (intro pixel_index_inj [OF fit]) auto
    with that show False by auto
  qed
  show "pixel_index rdr j i < length px"
    using rows_fit_in(2) [OF fit ji] drawn_length [OF d] by simp
qed

lemma rows_drawn:
  assumes fit: "rows_fit rdr h w"
    and step: "\<And>j i px. j < h \<Longrightarrow> i < w \<Longrightarrow> length px = length (rdr_data rdr) \<Longrightarrow>
      f j i px = Some (px[pixel_index rdr j i := F j i (px ! pixel_index rdr j i)])"
  shows "returns (for_range 0 h (\<lambda>j. for_range 0 w (f j)) (rdr_data rdr)) (drawn rdr ({..<h} \<times> {..<w}) F (rdr_data rdr))"
proof -
  have "returns (for_range 0 h (\<lambda>j. for_range 0 w (f j)) (rdr_data rdr))
          (\<lambda>px. drawn rdr (done_before w (0 + h) 0) F (rdr_data rdr) px)"
  proof (rule for_range_rule [where I = "\<lambda>j px. drawn rdr (done_before w j 0) F (rdr_data rdr) px"])
    show "drawn rdr (done_before w 0 0) F (rdr_data rdr) (rdr_data rdr)" by simp
  next
    fix j px assume j: "0 \<le> j" "j < 0 + h" and d: "drawn rdr (done_before w j 0) F (rdr_data rdr) px"
    have "returns (for_range 0 w (f j) px) (\<lambda>px. drawn rdr (done_before w j (0 + w)) F (rdr_data rdr) px)"
      using j by (intro for_range_rule [where I = "\<lambda>i px. drawn rdr (done_before w j i) F (rdr_data rdr) px"] d)
        (simp add: step drawn_length drawn_next [OF fit])
    then show "returns (for_range 0 w (f j) px) (\<lambda>px. drawn rdr (done_before w (Suc j) 0) F (rdr_data rdr) px)"
      by (simp only: done_before_row add_0)
  qed
  then show ?thesis by simp
qed


section \<open>The effect on one pixel\<close>

text \<open>
  The contract of a routine for one pixel: with a coverage \<open>v\<close> it accepts, it gives the pixel a
  \<open>colour\<close> that depends on the old one. The loops over the rows then draw their area.
\<close>

definition mask_value :: "Renderer \<Rightarrow> int \<Rightarrow> nat \<Rightarrow> nat \<Rightarrow> int" where
  "mask_value rdr stride j i = uint (mask_byteData rdr ! nat (maskOffset rdr + int j * stride + int i))"

definition mask_fits :: "Renderer \<Rightarrow> int \<Rightarrow> nat \<Rightarrow> nat \<Rightarrow> bool" where
  "mask_fits rdr stride h w =
     (\<forall>j<h. 0 \<le> maskOffset rdr + int j * stride \<and>
            maskOffset rdr + int j * stride + int w \<le> int (length (mask_byteData rdr)))"

text \<open>The coverage of the \<open>i\<close>-th pixel of an antialiased row.\<close>

definition running_sum :: "Renderer \<Rightarrow> nat \<Rightarrow> int" where
  "running_sum rdr i = sum_list (take (Suc i) (rowAAInt rdr))"

lemma mask_read:
  "mask_fits rdr stride h w \<Longrightarrow> j < h \<Longrightarrow> i < w \<Longrightarrow>
   \<exists>a. read_at (mask_byteData rdr) (maskOffset rdr + int j * stride + int i) = Some a \<and> uint a = mask_value rdr stride j i"
  by (auto simp: mask_fits_def read_at_def mask_value_def)

locale pixel_routine =
  fixes body :: "Renderer \<Rightarrow> nat \<Rightarrow> int \<Rightarrow> int \<Rightarrow> 32 word list \<Rightarrow> 32 word list option"
    and colour :: "Renderer \<Rightarrow> nat \<Rightarrow> int \<Rightarrow> 32 word \<Rightarrow> 32 word"
    and accepts :: "Renderer \<Rightarrow> nat \<Rightarrow> int \<Rightarrow> bool"
  assumes body_law: "accepts rdr i v \<Longrightarrow> 0 \<le> k \<Longrightarrow> nat k < length px \<Longrightarrow>
    body rdr i k v px = Some (px[nat k := colour rdr i v (px ! nat k)])"
begin

lemma mask_rows_drawn:
  assumes fit: "rows_fit rdr h (touched rdr)" and m: "mask_fits rdr stride h (touched rdr)"
    and a: "\<forall>j<h. \<forall>i<touched rdr. accepts rdr i (mask_value rdr stride j i)"
  shows "\<exists>px. mask_rows rdr stride (int h) (body rdr) = Some (rdr\<lparr>rdr_data := px\<rparr>) \<and>
    drawn rdr ({..<h} \<times> {..<touched rdr}) (\<lambda>j i. colour rdr i (mask_value rdr stride j i)) (rdr_data rdr) px"
proof -
  let ?f = "\<lambda>j i px. do {
     a \<leftarrow> read_at (mask_byteData rdr) (maskOffset rdr + int j * stride + int i);
     body rdr i (row_start rdr j + int i * imagePixelStride rdr) (uint a) px }"
  have "?f j i px = Some (px[pixel_index rdr j i := colour rdr i (mask_value rdr stride j i) (px ! pixel_index rdr j i)])"
    if "j < h" "i < touched rdr" "length px = length (rdr_data rdr)" for j i px
    using mask_read [OF m that(1,2)] a that rows_fit_in [OF fit that(1,2)]
    by (auto simp: body_law pixel_index_def)
  from rows_drawn [OF fit this] show ?thesis
    by (auto simp: mask_rows_def returns_iff)
qed

lemma aa_row_drawn:
  assumes fit: "rows_fit rdr 1 (touched rdr)" and r: "touched rdr \<le> length (rowAAInt rdr)"
    and a: "\<forall>i<touched rdr. accepts rdr i (running_sum rdr i)"
  shows "\<exists>px. aa_rows rdr 1 (body rdr) =
      Some (rdr\<lparr>rdr_data := px,
                rowAAInt := replicate (touched rdr) 0 @ drop (touched rdr) (rowAAInt rdr)\<rparr>) \<and>
    drawn rdr ({0} \<times> {..<touched rdr}) (\<lambda>j i. colour rdr i (running_sum rdr i)) (rdr_data rdr) px"
proof -
  let ?w = "touched rdr" and ?F = "\<lambda>j i. colour rdr i (running_sum rdr i)"
  let ?f = "\<lambda>i (px, row, aval_relative). do {
        d \<leftarrow> read_at row (int i);
        row \<leftarrow> write_at row (int i) 0;
        px \<leftarrow> body rdr i (row_start rdr 0 + int i * imagePixelStride rdr) (aval_relative + d) px;
        Some (px, row, aval_relative + d)
      }"
  let ?I = "\<lambda>i (px, row, s). drawn rdr (done_before ?w 0 i) ?F (rdr_data rdr) px \<and>
     row = replicate i 0 @ drop i (rowAAInt rdr) \<and> s = sum_list (take i (rowAAInt rdr))"
  have "returns (for_range 0 ?w ?f (rdr_data rdr, rowAAInt rdr, 0)) (?I (0 + ?w))"
  proof (rule for_range_rule)
    show "?I 0 (rdr_data rdr, rowAAInt rdr, 0)" by simp
  next
    fix i st assume i: "0 \<le> i" "i < 0 + ?w" and I: "?I i st"
    obtain px row s where st: "st = (px, row, s)" by (cases st)
    let ?row = "rowAAInt rdr"
    from I st have d: "drawn rdr (done_before ?w 0 i) ?F (rdr_data rdr) px" and row: "row = replicate i 0 @ drop i ?row"
      and s: "s = sum_list (take i ?row)" by auto
    have il: "i < length ?row" using i r by simp
    have sum: "s + ?row ! i = running_sum rdr i"
      by (simp add: s running_sum_def take_Suc_conv_app_nth il)
    have "drop i ?row = ?row ! i # drop (Suc i) ?row" using il by (rule Cons_nth_drop_Suc [symmetric])
    then have rd: "read_at row (int i) = Some (?row ! i)"
      and wr: "write_at row (int i) 0 = Some (replicate (Suc i) 0 @ drop (Suc i) ?row)"
      using il by (simp_all add: row read_at_def write_at_def nth_append list_update_append replicate_app_Cons_same)
    have "body rdr i (row_start rdr 0 + int i * imagePixelStride rdr) (running_sum rdr i) px =
        Some (px[pixel_index rdr 0 i := ?F 0 i (px ! pixel_index rdr 0 i)])"
      using a i rows_fit_in [OF fit, of 0 i] drawn_length [OF d] by (simp add: body_law pixel_index_def)
    then show "returns (?f i st) (?I (Suc i))"
      using drawn_next [OF fit _ _ d] i by (simp add: st rd wr sum) (simp add: sum [symmetric] s take_Suc_conv_app_nth il)
  qed
  moreover have "done_before ?w 0 ?w = {0} \<times> {..<?w}" by auto
  ultimately show ?thesis
    by (auto simp: aa_rows_def aa_row_def returns_iff)
qed

end

section \<open>The routines for one pixel keep the contract\<close>

definition flat_colour :: "Renderer \<Rightarrow> bool" where
  "flat_colour rdr = (is_byte (calpha rdr) \<and> is_byte (cred rdr) \<and> is_byte (cgreen rdr) \<and> is_byte (cblue rdr))"

definition over_colour :: "Renderer \<Rightarrow> nat \<Rightarrow> int \<Rightarrow> 32 word \<Rightarrow> 32 word" where
  "over_colour rdr i v = blendSrcOver8888_pre ((v + 1) * calpha rdr div 256) (cred rdr) (cgreen rdr) (cblue rdr)"

definition pt_over_colour :: "Renderer \<Rightarrow> nat \<Rightarrow> int \<Rightarrow> 32 word \<Rightarrow> 32 word" where
  "pt_over_colour rdr i v =
     (let c = paint rdr ! i in blendSrcOver8888_pre_pre (v + 1) (px_A c) (px_R c) (px_G c) (px_B c))"

definition src_colour :: "Renderer \<Rightarrow> nat \<Rightarrow> int \<Rightarrow> 32 word \<Rightarrow> 32 word" where
  "src_colour rdr i v p =
     (if v = 255 then pack (calpha rdr) (cred rdr) (cgreen rdr) (cblue rdr)
      else if v = 0 then p
      else blendSrc8888_pre ((v + 1) * calpha rdr div 256) (255 - v) (cred rdr) (cgreen rdr) (cblue rdr) p)"

definition pt_src_colour :: "Renderer \<Rightarrow> nat \<Rightarrow> int \<Rightarrow> 32 word \<Rightarrow> 32 word" where
  "pt_src_colour rdr i v p =
     (let c = paint rdr ! i
      in if v = 255 then c
         else if v = 0 then p
         else blendSrc8888_pre_pre ((v + 1) * px_A c div 256) (255 - v) (px_R c) (px_G c) (px_B c) p)"

text \<open>The coverage that \<open>alphaMap\<close> gives for a running sum; the sum 0 is never looked up by the blits over.\<close>

definition coverage :: "Renderer \<Rightarrow> int \<Rightarrow> int" where
  "coverage rdr s = uint (alphaMap rdr ! nat s)"

definition coverage0 :: "Renderer \<Rightarrow> int \<Rightarrow> int" where
  "coverage0 rdr s = (if s = 0 then 0 else coverage rdr s)"

definition in_alphaMap :: "Renderer \<Rightarrow> int \<Rightarrow> bool" where
  "in_alphaMap rdr s = (0 \<le> s \<and> nat s < length (alphaMap rdr))"

definition paint_ok :: "Renderer \<Rightarrow> nat \<Rightarrow> bool" where
  "paint_ok rdr i = (i < length (paint rdr) \<and> premultiplied (paint rdr ! i))"

lemma uint8_byte: "is_byte (uint (a :: 8 word))"
  using uint_lt2p [of a] by (simp add: is_byte_def)

lemma coverage_byte [simp]: "is_byte (coverage rdr s)" "is_byte (coverage0 rdr s)" "is_byte (mask_value rdr stride j i)"
  using uint8_byte by (simp_all add: coverage_def coverage0_def mask_value_def) (simp add: is_byte_def)

lemma scale_byte:
  assumes "is_byte v" "is_byte c"
  shows "is_byte ((v + 1) * c div 256)" "0 \<le> (v + 1) * c div 256" "(v + 1) * c div 256 \<le> v"
proof -
  have "(v + 1) * c \<le> (v + 1) * 255" using assms by (intro mult_left_mono) (simp_all add: is_byte_def)
  then have "(v + 1) * c \<le> v * 256 + 255" using assms by (simp add: is_byte_def)
  then have "(v + 1) * c div 256 \<le> (v * 256 + 255) div 256" by (rule zdiv_mono1) simp
  then show le: "(v + 1) * c div 256 \<le> v" by simp
  show ge: "0 \<le> (v + 1) * c div 256" using assms by (simp add: is_byte_def pos_imp_zdiv_nonneg_iff)
  show "is_byte ((v + 1) * c div 256)" using le ge assms by (simp add: is_byte_def)
qed

lemma update_in: "0 \<le> k \<Longrightarrow> nat k < length px \<Longrightarrow> update_at px k f = Some (px[nat k := f (px ! nat k)])"
  by (simp add: update_at_def read_at_def write_at_def)

lemma write_in: "0 \<le> k \<Longrightarrow> nat k < length px \<Longrightarrow> write_at px k c = Some (px[nat k := c])"
  by (simp add: write_at_def)

lemmas pixel_simps = update_in write_in is_byte_def

text \<open>The shortcuts of the blits over: an opaque source and an invisible one need no blending.\<close>

lemma over_shortcut:
  assumes "flat_colour rdr" "is_byte v" "0 \<le> k" "nat k < length px"
  shows "(let aval = (v + 1) * calpha rdr div 256
     in if aval = MAX_ALPHA then write_at px k (pack 0xff (cred rdr) (cgreen rdr) (cblue rdr))
        else if aval > 0 then update_at px k (blendSrcOver8888_pre aval (cred rdr) (cgreen rdr) (cblue rdr))
        else Some px) = Some (px[nat k := over_colour rdr i v (px ! nat k)])"
proof -
  have c: "is_byte (calpha rdr)" "is_byte (cred rdr)" "is_byte (cgreen rdr)" "is_byte (cblue rdr)"
    using assms(1) by (simp_all add: flat_colour_def)
  have "0 \<le> (v + 1) * calpha rdr div 256" using scale_byte(2) [OF assms(2) c(1)] .
  then consider "(v + 1) * calpha rdr div 256 = 255" | "(v + 1) * calpha rdr div 256 = 0" |
    "(v + 1) * calpha rdr div 256 \<noteq> 255" "(v + 1) * calpha rdr div 256 > 0" by linarith
  then show ?thesis
    by cases (simp_all add: over_colour_def over_pre_opaque over_pre_clear c update_in write_in assms(3,4))
qed

lemma pre_pre_opaque:
  "px_A c = 255 \<Longrightarrow> blendSrcOver8888_pre_pre 256 (px_A c) (px_R c) (px_G c) (px_B c) p = c"
  using pack_unpack [of c] by (simp add: blendSrcOver8888_pre_pre_def div255_def)

lemma pre_pre_clear:
  assumes "premultiplied c" "0 \<le> fr" "px_A c * fr div 256 = 0"
  shows "blendSrcOver8888_pre_pre fr (px_A c) (px_R c) (px_G c) (px_B c) p = p"
proof -
  have z: "x * fr div 256 = 0" if "0 \<le> x" "x \<le> px_A c" for x
  proof -
    have "x * fr div 256 \<le> px_A c * fr div 256" using that assms(2) by (intro zdiv_mono1 mult_right_mono) simp_all
    moreover have "0 \<le> x * fr div 256" using that assms(2) by (simp add: pos_imp_zdiv_nonneg_iff)
    ultimately show ?thesis using assms(3) by simp
  qed
  have "x * fr div 256 = 0" if "x \<in> {px_A c, px_R c, px_G c, px_B c}" for x
    using that assms(1) px_byte [of c] by (intro z) (auto simp: premultiplied_def is_byte_def)
  then show ?thesis
    using px_byte [of p] pack_unpack [of p] by (simp add: blendSrcOver8888_pre_pre_def div255_exact is_byte_def)
qed

lemma pt_over_shortcut:
  assumes "paint_ok rdr i" "is_byte v" "0 \<le> k" "nat k < length px"
  defines "c \<equiv> paint rdr ! i"
  shows "(let aval = (v + 1) * px_A c div 256
     in if aval = MAX_ALPHA then write_at px k c
        else if aval > 0 then update_at px k
          (blendSrcOver8888_pre_pre (v + 1) (px_A c) (px_R c) (px_G c) (px_B c))
        else Some px) = Some (px[nat k := pt_over_colour rdr i v (px ! nat k)])"
proof -
  have pre: "premultiplied c" using assms(1) by (simp add: paint_ok_def c_def)
  have "0 \<le> (v + 1) * px_A c div 256" using scale_byte(2) [OF assms(2) px_byte(1)] .
  then consider "(v + 1) * px_A c div 256 = 255" | "(v + 1) * px_A c div 256 = 0" |
    "(v + 1) * px_A c div 256 \<noteq> 255" "(v + 1) * px_A c div 256 > 0" by linarith
  then show ?thesis
  proof cases
    case 1
    then have "v = 255" using scale_byte(3) [OF assms(2) px_byte(1) [of c]] assms(2) by (simp add: is_byte_def)
    moreover from this 1 have "px_A c = 255" by simp
    ultimately show ?thesis
      using pre_pre_opaque [of c] by (simp add: pt_over_colour_def Let_def write_in assms(3,4) flip: c_def)
  next
    case 2
    have "0 \<le> v + 1" "px_A c * (v + 1) div 256 = 0" using assms(2) 2 by (simp_all add: is_byte_def mult.commute)
    from pre_pre_clear [OF pre this] 2 show ?thesis
      by (simp add: pt_over_colour_def Let_def flip: c_def)
  next
    case 3
    then show ?thesis by (simp add: pt_over_colour_def Let_def update_in assms(3,4) flip: c_def)
  qed
qed

lemma over_mask_law:
  assumes "flat_colour rdr \<and> is_byte v" "0 \<le> k" "nat k < length px"
  shows "over_mask rdr i k v px = Some (px[nat k := over_colour rdr i v (px ! nat k)])"
proof (cases "v = 0")
  case True
  have "calpha rdr div 256 = 0" using assms(1) by (simp add: flat_colour_def is_byte_def)
  then show ?thesis using True by (simp add: over_mask_def over_colour_def over_pre_clear)
next
  case False
  then show ?thesis unfolding over_mask_def using over_shortcut assms by (simp only: if_True not_False_eq_True)
qed

lemma over_aa_law:
  assumes "flat_colour rdr \<and> (s = 0 \<or> in_alphaMap rdr s)" "0 \<le> k" "nat k < length px"
  shows "over_aa rdr i k s px = Some (px[nat k := over_colour rdr i (coverage0 rdr s) (px ! nat k)])"
proof (cases "s = 0")
  case True
  have "calpha rdr div 256 = 0" using assms(1) by (simp add: flat_colour_def is_byte_def)
  then show ?thesis using True by (simp add: over_aa_def over_colour_def coverage0_def over_pre_clear)
next
  case False
  then have "read_at (alphaMap rdr) s = Some (alphaMap rdr ! nat s)"
    using assms(1) by (simp add: in_alphaMap_def read_at_def)
  then show ?thesis
    unfolding over_aa_def using False over_shortcut [OF _ uint8_byte assms(2,3)] assms(1)
    by (simp add: coverage0_def coverage_def)
qed

lemma pt_over_mask_law:
  assumes "paint_ok rdr i \<and> is_byte v" "0 \<le> k" "nat k < length px"
  shows "pt_over_mask rdr i k v px = Some (px[nat k := pt_over_colour rdr i v (px ! nat k)])"
proof -
  have rd: "read_at (paint rdr) (int i) = Some (paint rdr ! i)" using assms(1) by (simp add: paint_ok_def read_at_def)
  note eq = pt_over_shortcut [OF _ _ assms(2,3), of rdr i v]
  show ?thesis
  proof (cases "v = 0")
    case True
    have "px_A (paint rdr ! i) div 256 = 0" using px_byte(1) [of "paint rdr ! i"] by (simp add: is_byte_def)
    then show ?thesis using eq assms(1) True by (simp add: pt_over_mask_def)
  next
    case False
    then show ?thesis unfolding pt_over_mask_def using eq assms(1) by (simp add: rd)
  qed
qed

lemma pt_over_aa_law:
  assumes "paint_ok rdr i \<and> (s = 0 \<or> in_alphaMap rdr s)" "0 \<le> k" "nat k < length px"
  shows "pt_over_aa rdr i k s px = Some (px[nat k := pt_over_colour rdr i (coverage0 rdr s) (px ! nat k)])"
proof -
  have rd: "read_at (paint rdr) (int i) = Some (paint rdr ! i)" using assms(1) by (simp add: paint_ok_def read_at_def)
  note eq = pt_over_shortcut [OF _ _ assms(2,3), of rdr i]
  show ?thesis
  proof (cases "s = 0")
    case True
    have "px_A (paint rdr ! i) div 256 = 0" using px_byte(1) [of "paint rdr ! i"] by (simp add: is_byte_def)
    then show ?thesis using eq [of 0] assms(1) True by (simp add: pt_over_aa_def coverage0_def rd is_byte_def)
  next
    case False
    then have "read_at (alphaMap rdr) s = Some (alphaMap rdr ! nat s)"
      using assms(1) by (simp add: in_alphaMap_def read_at_def)
    then show ?thesis
      unfolding pt_over_aa_def using False eq [OF _ uint8_byte] assms(1)
      by (simp add: coverage0_def coverage_def rd)
  qed
qed

lemma src_mask_law:
  assumes "is_byte v" "0 \<le> k" "nat k < length px"
  shows "src_mask rdr i k v px = Some (px[nat k := src_colour rdr i v (px ! nat k)])"
  using assms by (auto simp: src_mask_def src_colour_def pixel_simps)

lemma src_aa_law:
  assumes "in_alphaMap rdr s" "0 \<le> k" "nat k < length px"
  shows "src_aa rdr i k s px = Some (px[nat k := src_colour rdr i (coverage rdr s) (px ! nat k)])"
  using assms src_mask_law [OF coverage_byte(1) assms(2,3)]
  by (simp add: src_aa_def src_mask_def in_alphaMap_def coverage_def read_at_def Let_def)

lemma pt_src_mask_law:
  assumes "i < length (paint rdr) \<and> is_byte v" "0 \<le> k" "nat k < length px"
  shows "pt_src_mask rdr i k v px = Some (px[nat k := pt_src_colour rdr i v (px ! nat k)])"
  using assms by (auto simp: pt_src_mask_def pt_src_colour_def pixel_simps read_at_def Let_def)

lemma pt_src_aa_law:
  assumes "i < length (paint rdr) \<and> in_alphaMap rdr s" "0 \<le> k" "nat k < length px"
  shows "pt_src_aa rdr i k s px = Some (px[nat k := pt_src_colour rdr i (coverage rdr s) (px ! nat k)])"
  using assms pt_src_mask_law [OF _ assms(2,3), of i rdr "coverage rdr s"]
  by (simp add: pt_src_aa_def pt_src_mask_def in_alphaMap_def coverage_def read_at_def uint8_byte Let_def)

interpretation over_masked: pixel_routine over_mask over_colour "\<lambda>rdr i v. flat_colour rdr \<and> is_byte v"
  by unfold_locales (rule over_mask_law)

interpretation over_antialiased: pixel_routine over_aa "\<lambda>rdr i s. over_colour rdr i (coverage0 rdr s)"
    "\<lambda>rdr i s. flat_colour rdr \<and> (s = 0 \<or> in_alphaMap rdr s)"
  by unfold_locales (rule over_aa_law)

interpretation pt_over_masked: pixel_routine pt_over_mask pt_over_colour "\<lambda>rdr i v. paint_ok rdr i \<and> is_byte v"
  by unfold_locales (rule pt_over_mask_law)

interpretation pt_over_antialiased: pixel_routine pt_over_aa "\<lambda>rdr i s. pt_over_colour rdr i (coverage0 rdr s)"
    "\<lambda>rdr i s. paint_ok rdr i \<and> (s = 0 \<or> in_alphaMap rdr s)"
  by unfold_locales (rule pt_over_aa_law)

interpretation src_masked: pixel_routine src_mask src_colour "\<lambda>rdr i v. is_byte v"
  by unfold_locales (rule src_mask_law)

interpretation src_antialiased: pixel_routine src_aa "\<lambda>rdr i s. src_colour rdr i (coverage rdr s)"
    "\<lambda>rdr i s. in_alphaMap rdr s"
  by unfold_locales (rule src_aa_law)

interpretation pt_src_masked: pixel_routine pt_src_mask pt_src_colour "\<lambda>rdr i v. i < length (paint rdr) \<and> is_byte v"
  by unfold_locales (rule pt_src_mask_law)

interpretation pt_src_antialiased: pixel_routine pt_src_aa "\<lambda>rdr i s. pt_src_colour rdr i (coverage rdr s)"
    "\<lambda>rdr i s. i < length (paint rdr) \<and> in_alphaMap rdr s"
  by unfold_locales (rule pt_src_aa_law)
section \<open>What the blits draw\<close>

lemma weighted2:
  assumes "is_byte x" "is_byte y" "0 \<le> a" "0 \<le> b" "a + b \<le> 255"
  shows "0 \<le> a * x + b * y" "a * x + b * y \<le> 255 * 255"
proof -
  show "0 \<le> a * x + b * y" using assms by (simp add: is_byte_def)
  have "a * x \<le> a * 255" "b * y \<le> b * 255" using assms by (simp_all add: is_byte_def mult_left_mono)
  then show "a * x + b * y \<le> 255 * 255" using assms(5) by linarith
qed

lemma div255_mono: "x \<le> y \<Longrightarrow> div255 x \<le> div255 y"
  unfolding div255_def by (intro zdiv_mono1) simp_all

lemma over_pre_premultiplied:
  assumes "is_byte aval" "is_byte sred" "is_byte sgreen" "is_byte sblue" "premultiplied p"
  shows "premultiplied (blendSrcOver8888_pre aval sred sgreen sblue p)"
  using assms
  by (simp add: premultiplied_def over_pre_components)
     (intro conjI div255_mono weighted_mono; simp add: is_byte_def)

lemma over_colour_premultiplied:
  "flat_colour rdr \<Longrightarrow> is_byte v \<Longrightarrow> premultiplied p \<Longrightarrow> premultiplied (over_colour rdr i v p)"
  unfolding over_colour_def flat_colour_def by (intro over_pre_premultiplied scale_byte) simp_all

lemma pre_pre_premultiplied:
  assumes "premultiplied c" "premultiplied p" "0 \<le> fr" "fr \<le> 256"
  shows "premultiplied (blendSrcOver8888_pre_pre fr (px_A c) (px_R c) (px_G c) (px_B c) p)"
proof -
  note fields = over_pre_pre_fields [OF assms(2) px_byte(1) [of c] assms(3,4)]
  have c: "0 \<le> px_R c" "px_R c \<le> px_A c" "0 \<le> px_G c" "px_G c \<le> px_A c" "0 \<le> px_B c" "px_B c \<le> px_A c"
    using assms(1) px_byte [of c] by (simp_all add: premultiplied_def is_byte_def)
  have p: "0 \<le> px_R p" "px_R p \<le> px_A p" "0 \<le> px_G p" "px_G p \<le> px_A p" "0 \<le> px_B p" "px_B p \<le> px_A p"
    using assms(2) px_byte [of p] by (simp_all add: premultiplied_def is_byte_def)
  note R = fields [OF c(1,2) p(1,2)] and G = fields [OF c(3,4) p(3,4)] and B = fields [OF c(5,6) p(5,6)]
  show ?thesis
    unfolding premultiplied_def blendSrcOver8888_pre_pre_def Let_def pack_px [OF R(1,2) G(2) B(2)]
    using R(3) G(3) B(3) by blast
qed

lemma pt_over_colour_premultiplied:
  "paint_ok rdr i \<Longrightarrow> is_byte v \<Longrightarrow> premultiplied p \<Longrightarrow> premultiplied (pt_over_colour rdr i v p)"
  by (simp add: pt_over_colour_def paint_ok_def Let_def pre_pre_premultiplied is_byte_def)

lemma src_blend_premultiplied:
  assumes "is_byte sred" "is_byte sgreen" "is_byte sblue" "premultiplied p" "0 \<le> a" "0 \<le> b" "a + b \<le> 255"
  shows "premultiplied (blendSrc8888_pre a b sred sgreen sblue p)"
proof -
  have b: "is_byte (div255 (a * x + b * y))" if "is_byte x" "is_byte y" for x y
    using weighted2 [OF that assms(5-7)] by (rule div255_byte)
  have m: "div255 (a * x + b * y) \<le> div255 (255 * a + px_A p * b)" if "is_byte x" "y \<le> px_A p" for x y
    using that assms(5,6) mult_left_mono [of x 255 a] mult_left_mono [of y "px_A p" b]
    by (intro div255_mono) (simp add: is_byte_def mult.commute)
  have top: "is_byte (div255 (255 * a + px_A p * b))"
    using b [of 255 "px_A p"] px_byte(1) [of p] by (simp add: is_byte_def mult.commute)
  show ?thesis
  proof (cases "255 * a + px_A p * b = 0")
    case True
    then show ?thesis by (simp add: blendSrc8888_pre_def premultiplied_def px_A_def px_R_def px_G_def px_B_def)
  next
    case False
    then show ?thesis
      using m assms(1-4) unfolding premultiplied_def blendSrc8888_pre_def Let_def
      by (simp only: if_False pack_px [OF top b [OF assms(1) px_byte(2)] b [OF assms(2) px_byte(3)] b [OF assms(3) px_byte(4)]])
  qed
qed

lemma src_colour_premultiplied:
  assumes "flat_colour rdr" "is_byte v" "premultiplied p"
  shows "premultiplied (src_colour rdr i v p) \<longleftrightarrow>
    v \<noteq> 255 \<or> (cred rdr \<le> calpha rdr \<and> cgreen rdr \<le> calpha rdr \<and> cblue rdr \<le> calpha rdr)"
proof -
  have c: "is_byte (calpha rdr)" "is_byte (cred rdr)" "is_byte (cgreen rdr)" "is_byte (cblue rdr)"
    using assms(1) by (simp_all add: flat_colour_def)
  show ?thesis
  proof (cases "v = 255")
    case True
    then show ?thesis by (simp add: src_colour_def premultiplied_def pack_px [OF c])
  next
    case False
    then show ?thesis
      using assms(2,3) scale_byte(2,3) [OF assms(2) c(1)]
      by (auto simp: src_colour_def is_byte_def intro!: src_blend_premultiplied c)
  qed
qed

lemma drawn_pixel:
  assumes "drawn rdr D F px0 px" "(j, i) \<in> D"
  shows "px ! pixel_index rdr j i = F j i (px0 ! pixel_index rdr j i)"
  using assms by (auto simp: drawn_def)

lemma pack_blue: "px_B (pack a r g b) = b mod 256"
proof -
  have "pack a r g b AND mask 8 = take_bit 8 (word_of_int b)"
    unfolding pack_def by (rule bit_word_eqI) (auto simp: bit_simps)
  then have "px_B (pack a r g b) = uint (take_bit 8 (word_of_int b :: 32 word))"
    by (simp only: px_B_def mask8)
  also have "\<dots> = take_bit 8 b"
    by (simp only: unsigned_take_bit_eq unsigned_of_int take_bit_take_bit) simp
  finally show ?thesis by (simp add: take_bit_eq_mod)
qed

lemma white_paint:
  assumes "0 < v" "v < 255" "paint rdr ! i = 0xffffffff"
  shows "px_B (pt_src_colour rdr i v 0xffffffff) = 254 - v"
proof -
  have w: "px_A 0xffffffff = 255" "px_R 0xffffffff = 255" "px_G 0xffffffff = 255" "px_B 0xffffffff = 255"
    by (simp_all add: px_A_def px_R_def px_G_def px_B_def)
  have "div255 ((255 - v) * 255) = 255 - v" using assms by (simp add: div255_exact)
  moreover have "255 * ((v + 1) * 255 div 256) + 255 * (255 - v) \<noteq> 0" using assms by simp
  moreover have "(510 - v) mod 256 = 254 - v"
    using assms(1,2) by (intro int_mod_pos_eq [where q = 1]) simp_all
  ultimately show ?thesis
    using assms
    by (simp add: pt_src_colour_def blendSrc8888_pre_pre_def w pack_blue)
qed

text \<open>
  C29: blending a colour over a premultiplied pixel gives, in each component, the weighted mean of
  the two rounded down, so the multiplication and shift of the code is the exact division by 255, and
  the result is premultiplied again: no component spills into its neighbour.
\<close>

theorem over_pixel_exact:
  assumes "is_byte aval" "is_byte sred" "is_byte sgreen" "is_byte sblue" "premultiplied p"
  shows "px_A (blendSrcOver8888_pre aval sred sgreen sblue p) = (255 * aval + (255 - aval) * px_A p) div 255 \<and>
    px_R (blendSrcOver8888_pre aval sred sgreen sblue p) = (sred * aval + (255 - aval) * px_R p) div 255 \<and>
    px_G (blendSrcOver8888_pre aval sred sgreen sblue p) = (sgreen * aval + (255 - aval) * px_G p) div 255 \<and>
    px_B (blendSrcOver8888_pre aval sred sgreen sblue p) = (sblue * aval + (255 - aval) * px_B p) div 255 \<and>
    premultiplied (blendSrcOver8888_pre aval sred sgreen sblue p)"
proof -
  have d: "div255 (x * aval + (255 - aval) * y) = (x * aval + (255 - aval) * y) div 255"
    if "is_byte x" "is_byte y" for x y
    using weighted [OF assms(1) that] by (intro div255_exact) simp_all
  have "is_byte 255" by (simp add: is_byte_def)
  then show ?thesis
    using over_pre_premultiplied [OF assms] over_pre_components [OF assms(1-4), of p] assms(2-4) by (simp only: d px_byte)
qed

theorem over_pixel_exact_witness:
  "px_R (blendSrcOver8888_pre 128 255 0 0 0xff0000ff) = 128 \<and> premultiplied (blendSrcOver8888_pre 128 255 0 0 0xff0000ff)"
  using over_pixel_exact [of 128 255 0 0 "0xff0000ff"]
  by (simp add: is_byte_def premultiplied_def px_A_def px_R_def px_G_def px_B_def)

text \<open>
  C30: filling through a mask. \<open>blitSrcOverMask8888_pre\<close> blends the flat colour, scaled by the byte of
  the mask, over each pixel of the rows, as if it had no shortcut for an opaque or an invisible
  pixel, and changes no other pixel; premultiplied pixels stay premultiplied.
\<close>

theorem mask_fill_over:
  assumes "rows_fit rdr h (touched rdr)" "mask_fits rdr (alphaWidth rdr) h (touched rdr)" "flat_colour rdr"
  shows "\<exists>px. blitSrcOverMask8888_pre rdr (int h) = Some (rdr\<lparr>rdr_data := px\<rparr>) \<and>
    drawn rdr ({..<h} \<times> {..<touched rdr})
      (\<lambda>j i. blendSrcOver8888_pre ((mask_value rdr (alphaWidth rdr) j i + 1) * calpha rdr div 256)
               (cred rdr) (cgreen rdr) (cblue rdr)) (rdr_data rdr) px \<and>
    (\<forall>j<h. \<forall>i<touched rdr. premultiplied (rdr_data rdr ! pixel_index rdr j i) \<longrightarrow> premultiplied (px ! pixel_index rdr j i))"
proof -
  obtain px where px: "blitSrcOverMask8888_pre rdr (int h) = Some (rdr\<lparr>rdr_data := px\<rparr>)"
    and d: "drawn rdr ({..<h} \<times> {..<touched rdr}) (\<lambda>j i. over_colour rdr i (mask_value rdr (alphaWidth rdr) j i)) (rdr_data rdr) px"
    using over_masked.mask_rows_drawn [OF assms(1,2)] assms(3) by (auto simp: blitSrcOverMask8888_pre_def)
  with drawn_pixel [OF d] assms(3) show ?thesis
    by (intro exI [of _ px]) (auto simp: over_colour_premultiplied d [unfolded over_colour_def])
qed

text \<open>
  Painting an antialiased row. \<open>blitPTSrcOver8888_pre\<close> draws each pixel with the paint under the
  alpha that \<open>alphaMap\<close> gives for the sum of the differences so far, changes no other pixel, clears the
  differences it used, and leaves premultiplied pixels premultiplied.
\<close>

theorem antialiased_paint_over:
  assumes "rows_fit rdr 1 (touched rdr)" "touched rdr \<le> length (rowAAInt rdr)"
    "\<forall>i<touched rdr. paint_ok rdr i \<and> (running_sum rdr i = 0 \<or> in_alphaMap rdr (running_sum rdr i))"
  shows "\<exists>px. blitPTSrcOver8888_pre rdr 1 =
      Some (rdr\<lparr>rdr_data := px, rowAAInt := replicate (touched rdr) 0 @ drop (touched rdr) (rowAAInt rdr)\<rparr>) \<and>
    drawn rdr ({0} \<times> {..<touched rdr})
      (\<lambda>j i. let c = paint rdr ! i
              in blendSrcOver8888_pre_pre (coverage0 rdr (running_sum rdr i) + 1) (px_A c) (px_R c) (px_G c) (px_B c))
      (rdr_data rdr) px \<and>
    (\<forall>i<touched rdr. premultiplied (rdr_data rdr ! pixel_index rdr 0 i) \<longrightarrow> premultiplied (px ! pixel_index rdr 0 i))"
proof -
  obtain px where px: "blitPTSrcOver8888_pre rdr 1 = Some (rdr\<lparr>rdr_data := px,
      rowAAInt := replicate (touched rdr) 0 @ drop (touched rdr) (rowAAInt rdr)\<rparr>)"
    and d: "drawn rdr ({0} \<times> {..<touched rdr}) (\<lambda>j i. pt_over_colour rdr i (coverage0 rdr (running_sum rdr i))) (rdr_data rdr) px"
    using pt_over_antialiased.aa_row_drawn [OF assms(1-3)] by (auto simp: blitPTSrcOver8888_pre_def)
  with drawn_pixel [OF d] assms(3) show ?thesis
    by (intro exI [of _ px]) (auto simp: pt_over_colour_premultiplied d [unfolded pt_over_colour_def])
qed

text \<open>
  Filling through a mask with the source rule. Where the mask is partial the new pixel is
  premultiplied, but where it is full \<open>blitSrcMask8888_pre\<close> stores the colour as it is: the pixel is
  premultiplied only if no component of the colour is above its alpha.
\<close>

theorem mask_fill_source:
  assumes "rows_fit rdr h (touched rdr)" "mask_fits rdr (alphaWidth rdr) h (touched rdr)" "flat_colour rdr"
    "\<forall>j<h. \<forall>i<touched rdr. premultiplied (rdr_data rdr ! pixel_index rdr j i)"
  shows "\<exists>px. blitSrcMask8888_pre rdr (int h) = Some (rdr\<lparr>rdr_data := px\<rparr>) \<and>
    (\<forall>j<h. \<forall>i<touched rdr. premultiplied (px ! pixel_index rdr j i) \<longleftrightarrow>
       mask_value rdr (alphaWidth rdr) j i \<noteq> 255 \<or>
       (cred rdr \<le> calpha rdr \<and> cgreen rdr \<le> calpha rdr \<and> cblue rdr \<le> calpha rdr))"
proof -
  obtain px where px: "blitSrcMask8888_pre rdr (int h) = Some (rdr\<lparr>rdr_data := px\<rparr>)"
    and d: "drawn rdr ({..<h} \<times> {..<touched rdr}) (\<lambda>j i. src_colour rdr i (mask_value rdr (alphaWidth rdr) j i)) (rdr_data rdr) px"
    using src_masked.mask_rows_drawn [OF assms(1,2)] by (auto simp: blitSrcMask8888_pre_def)
  with drawn_pixel [OF d] assms(3,4) show ?thesis
    by (intro exI [of _ px]) (auto simp: src_colour_premultiplied)
qed

text \<open>
  Painting through a mask with the source rule. \<open>blendSrc8888_pre_pre\<close> does not scale the paint by
  the coverage, so the components overflow: a white paint over white pixels leaves a pixel whose blue
  is 254 less the coverage, not 255, wherever the mask is partial.
\<close>

theorem mask_paint_source_overflows:
  assumes "rows_fit rdr h (touched rdr)" "mask_fits rdr 0 h (touched rdr)" "touched rdr \<le> length (paint rdr)"
    "\<forall>j<h. \<forall>i<touched rdr. rdr_data rdr ! pixel_index rdr j i = 0xffffffff" "\<forall>i<touched rdr. paint rdr ! i = 0xffffffff"
  shows "\<exists>px. blitPTSrcMask8888_pre rdr (int h) = Some (rdr\<lparr>rdr_data := px\<rparr>) \<and>
    (\<forall>j<h. \<forall>i<touched rdr. 0 < mask_value rdr 0 j i \<and> mask_value rdr 0 j i < 255 \<longrightarrow>
       px_B (px ! pixel_index rdr j i) = 254 - mask_value rdr 0 j i)"
proof -
  obtain px where px: "blitPTSrcMask8888_pre rdr (int h) = Some (rdr\<lparr>rdr_data := px\<rparr>)"
    and d: "drawn rdr ({..<h} \<times> {..<touched rdr}) (\<lambda>j i. pt_src_colour rdr i (mask_value rdr 0 j i)) (rdr_data rdr) px"
    using pt_src_masked.mask_rows_drawn [OF assms(1,2)] assms(3) by (auto simp: blitPTSrcMask8888_pre_def)
  with drawn_pixel [OF d] assms(4,5) show ?thesis
    by (intro exI [of _ px]) (auto simp: white_paint)
qed

section \<open>A small surface\<close>

text \<open>Three by two white pixels, of which the last two of each row are touched.\<close>

definition white_rdr :: Renderer where
  "white_rdr = (zeroed \<lparr>s_width = 3, s_height = 2, s_offset = 0, s_scanlineStride = 3, s_pixelStride = 1, s_imageType = 1\<rparr>)
     \<lparr>rdr_data := replicate 6 0xffffffff, rdr_width := 3, rdr_height := 2, imageScanlineStride := 3, imagePixelStride := 1,
      minTouched := 1, maxTouched := 2, alphaWidth := 2, calpha := 128, cred := 255,
      mask_byteData := [0, 128, 255, 64], paint := [0xffffffff, 0xffffffff],
      rowAAInt := [1, 1], alphaMap := [0, 128, 255]\<rparr>"

lemma less_2 [simp]: "(\<forall>j<2. P j) \<longleftrightarrow> P 0 \<and> P (Suc 0)" for P :: "nat \<Rightarrow> bool"
  by (auto simp: less_2_cases_iff)

lemma white_rdr_ok [simp]:
  "touched white_rdr = 2" "rows_fit white_rdr 2 2" "rows_fit white_rdr (Suc 0) 2" "mask_fits white_rdr 2 2 2" "mask_fits white_rdr 0 2 2"
  "alphaWidth white_rdr = 2" "calpha white_rdr = 128" "flat_colour white_rdr" "paint white_rdr = [0xffffffff, 0xffffffff]"
  "rowAAInt white_rdr = [1, 1]" "alphaMap white_rdr = [0, 128, 255]"
  by (simp_all add: white_rdr_def zeroed_def touched_def rows_fit_def mask_fits_def row_start_def flat_colour_def is_byte_def)

lemma white_rdr_index [simp]:
  "pixel_index white_rdr 0 0 = 1" "pixel_index white_rdr 0 (Suc 0) = 2"
  "pixel_index white_rdr (Suc 0) 0 = 4" "pixel_index white_rdr (Suc 0) (Suc 0) = 5"
  by (simp_all add: white_rdr_def zeroed_def pixel_index_def row_start_def)

lemma white_rdr_pixels [simp]:
  "rdr_data white_rdr ! Suc 0 = 0xffffffff" "rdr_data white_rdr ! 2 = 0xffffffff"
  "rdr_data white_rdr ! 4 = 0xffffffff" "rdr_data white_rdr ! 5 = 0xffffffff"
  by (simp_all add: white_rdr_def zeroed_def eval_nat_numeral)

lemma white_rdr_mask [simp]:
  "mask_value white_rdr 2 0 0 = 0" "mask_value white_rdr 2 0 (Suc 0) = 128"
  "mask_value white_rdr 2 (Suc 0) 0 = 255" "mask_value white_rdr 2 (Suc 0) (Suc 0) = 64"
  "mask_value white_rdr 0 0 0 = 0" "mask_value white_rdr 0 0 (Suc 0) = 128"
  "mask_value white_rdr 0 (Suc 0) 0 = 0" "mask_value white_rdr 0 (Suc 0) (Suc 0) = 128"
  by (simp_all add: white_rdr_def zeroed_def mask_value_def nat_add_distrib)

lemma white_premultiplied [simp]: "premultiplied 0xffffffff"
  by (simp add: premultiplied_def px_A_def px_R_def px_G_def px_B_def)

theorem mask_fill_over_witness:
  "\<exists>px. blitSrcOverMask8888_pre white_rdr 2 = Some (white_rdr\<lparr>rdr_data := px\<rparr>) \<and> premultiplied (px ! 5)"
  using mask_fill_over [of white_rdr 2] by auto

theorem antialiased_paint_over_witness:
  "\<exists>px. blitPTSrcOver8888_pre white_rdr 1 = Some (white_rdr\<lparr>rdr_data := px, rowAAInt := [0, 0]\<rparr>) \<and> premultiplied (px ! 2)"
proof -
  have "running_sum white_rdr 0 = 1" "running_sum white_rdr (Suc 0) = 2" by (simp_all add: running_sum_def)
  moreover have "replicate 2 (0 :: int) @ drop 2 [1, 1] = [0, 0]" by (simp add: numeral_2_eq_2)
  ultimately show ?thesis
    using antialiased_paint_over [of white_rdr] by (auto simp: paint_ok_def in_alphaMap_def)
qed

theorem mask_fill_source_witness:
  "\<exists>px. blitSrcMask8888_pre white_rdr 2 = Some (white_rdr\<lparr>rdr_data := px\<rparr>) \<and> premultiplied (px ! 5) \<and> \<not> premultiplied (px ! 4)"
proof -
  have "cred white_rdr = 255" by (simp add: white_rdr_def zeroed_def)
  then show ?thesis using mask_fill_source [of white_rdr 2] by auto
qed

theorem mask_paint_source_overflows_witness:
  "\<exists>px. blitPTSrcMask8888_pre white_rdr 2 = Some (white_rdr\<lparr>rdr_data := px\<rparr>) \<and> px_B (px ! 5) = 126"
  using mask_paint_source_overflows [of white_rdr 2] by auto

section \<open>Clearing\<close>

text \<open>The words that the first \<open>h\<close> rows of \<open>w\<close> words cover, rows starting \<open>s\<close> words apart from \<open>p\<close> on.\<close>

definition in_rows :: "int \<Rightarrow> int \<Rightarrow> int \<Rightarrow> nat \<Rightarrow> nat \<Rightarrow> bool" where
  "in_rows p s w h k = (\<exists>j<h. p + int j * s \<le> int k \<and> int k < p + int j * s + w)"

definition filled :: "32 word \<Rightarrow> (nat \<Rightarrow> bool) \<Rightarrow> 32 word list \<Rightarrow> 32 word list \<Rightarrow> bool" where
  "filled c P px0 px = (length px = length px0 \<and> (\<forall>k<length px0. px ! k = (if P k then c else px0 ! k)))"

lemma in_rows_0 [simp]: "in_rows p s w 0 = (\<lambda>_. False)"
  by (simp add: in_rows_def fun_eq_iff)

lemma in_rows_Suc: "in_rows p s w (Suc h) k \<longleftrightarrow> in_rows p s w h k \<or> (p + int h * s \<le> int k \<and> int k < p + int h * s + w)"
  by (auto simp: in_rows_def less_Suc_eq)

lemma filled_refl [simp]: "filled c (\<lambda>_. False) px px"
  by (simp add: filled_def)

lemma filled_more:
  assumes "filled c P px0 px" "filled c Q px px'"
  shows "filled c (\<lambda>k. P k \<or> Q k) px0 px'"
  using assms by (auto simp: filled_def)

lemma words_filled:
  assumes px: "0 \<le> p" "p + int n \<le> int (length px0)"
    and f: "\<And>i px. i < n \<Longrightarrow> length px = length px0 \<Longrightarrow> filled c (\<lambda>k. p \<le> int k \<and> int k < p + int i) px0 px \<Longrightarrow>
      f i px = write_at px (p + int i) c"
  shows "returns (for_range 0 n f px0) (filled c (\<lambda>k. p \<le> int k \<and> int k < p + int n) px0)"
proof -
  have "returns (for_range 0 n f px0) (filled c (\<lambda>k. p \<le> int k \<and> int k < p + int (0 + n)) px0)"
  proof (rule for_range_rule)
    show "filled c (\<lambda>k. p \<le> int k \<and> int k < p + int 0) px0 px0" by (auto simp: filled_def)
    show "returns (f i px) (filled c (\<lambda>k. p \<le> int k \<and> int k < p + int (Suc i)) px0)"
      if "0 \<le> i" "i < 0 + n" "filled c (\<lambda>k. p \<le> int k \<and> int k < p + int i) px0 px" for i px
    proof -
      obtain q where q: "p = int q" using px(1) by (metis nonneg_int_cases)
      have e: "nat (int q + int i) = q + i" by simp
      from that have l: "length px = length px0" by (simp add: filled_def)
      moreover from that px q have "q + i < length px0" by simp
      ultimately show ?thesis
        using that by (auto simp: f write_at_def filled_def nth_list_update q e)
    qed
  qed
  then show ?thesis by simp
qed

lemma clear_words_filled:
  assumes "0 \<le> p" "0 \<le> n" "p + n \<le> int (length px)"
  shows "returns (clear_words px p n) (filled 0 (\<lambda>k. p \<le> int k \<and> int k < p + n) px)"
  using words_filled [where p = p and n = "nat n" and c = 0 and f = "\<lambda>i px. write_at px (p + int i) 0"] assms by (simp add: clear_words_def)

lemma copy_words_filled:
  assumes "0 \<le> src" "0 \<le> n" "src + n \<le> dst" "dst + n \<le> int (length px)"
    and c: "\<forall>k<length px. src \<le> int k \<and> int k < src + n \<longrightarrow> px ! k = c"
  shows "returns (copy_words px dst src n) (filled c (\<lambda>k. dst \<le> int k \<and> int k < dst + n) px)"
proof -
  have "read_at px' (src + int i) = Some c"
    if "i < nat n" "length px' = length px" "filled c (\<lambda>k. dst \<le> int k \<and> int k < dst + int i) px px'" for i px'
    using that assms by (auto simp: read_at_def filled_def)
  then show ?thesis
    using words_filled [where p = dst and n = "nat n" and c = c and
      f = "\<lambda>i px. do { c \<leftarrow> read_at px (src + int i); write_at px (dst + int i) c }"] assms
    by (simp add: copy_words_def)
qed

lemma rows_filled:
  assumes r: "filled c (in_rows p s w m) px0 px1"
    and f: "\<And>j px. m \<le> j \<Longrightarrow> j < m + h \<Longrightarrow> filled c (in_rows p s w j) px0 px \<Longrightarrow>
      returns (f j px) (filled c (\<lambda>k. p + int j * s \<le> int k \<and> int k < p + int j * s + w) px)"
  shows "returns (for_range m h f px1) (filled c (in_rows p s w (m + h)) px0)"
proof (rule for_range_rule [where I = "\<lambda>j. filled c (in_rows p s w j) px0"])
  show "returns (f j px) (filled c (in_rows p s w (Suc j)) px0)"
    if "m \<le> j" "j < m + h" "filled c (in_rows p s w j) px0 px" for j px
    using f [OF that] filled_more [OF that(3)] unfolding in_rows_Suc [abs_def]
    by (rule returns_conseq)
qed (rule r)

lemma whole_rows:
  assumes "0 \<le> w"
  shows "p \<le> int k \<and> int k < p + w * int h \<longleftrightarrow> in_rows p w w h k"
proof (cases "w = 0")
  case True
  then show ?thesis by (auto simp: in_rows_def)
next
  case False
  with assms have w: "0 < w" by simp
  show ?thesis
  proof
    assume k: "p \<le> int k \<and> int k < p + w * int h"
    define d where "d = (int k - p) div w"
    have "0 \<le> d" using k w by (simp add: d_def pos_imp_zdiv_nonneg_iff)
    have "int k - p < int h * w" using k by (simp add: mult.commute)
    moreover have d: "d * w \<le> int k - p" "int k - p < d * w + w"
      using w div_mult_mod_eq [of "int k - p" w] pos_mod_bound [OF w, of "int k - p"] pos_mod_sign [OF w, of "int k - p"]
      unfolding d_def by linarith+
    ultimately have "d * w < int h * w" by linarith
    then have "d < int h" using w by simp
    then show "in_rows p w w h k"
      using \<open>0 \<le> d\<close> d by (auto simp: in_rows_def intro!: exI [of _ "nat d"])
  next
    assume "in_rows p w w h k"
    then obtain j where j: "j < h" "p + int j * w \<le> int k" "int k < p + int j * w + w" by (auto simp: in_rows_def)
    have "0 \<le> int j * w" using w by simp
    moreover have "int j * w + w \<le> w * int h"
      using mult_left_mono [of "int (Suc j)" "int h" w] j(1) w by (simp add: algebra_simps)
    ultimately show "p \<le> int k \<and> int k < p + w * int h" using j by linarith
  qed
qed

text \<open>The first word of the rectangle.\<close>

definition rect_start :: "Renderer \<Rightarrow> int \<Rightarrow> int \<Rightarrow> int" where
  "rect_start rdr x y = imageOffset rdr + y * imageScanlineStride rdr + x * imagePixelStride rdr"

lemma clear_rows:
  assumes "0 \<le> p" "0 \<le> w" "w \<le> s" "0 < h" "p + int (h - 1) * s + w \<le> int (length px0)"
  shows "returns (for_range 0 h (\<lambda>j px. clear_words px (p + int j * s) w) px0) (filled 0 (in_rows p s w h) px0)"
proof -
  have "returns (for_range 0 h (\<lambda>j px. clear_words px (p + int j * s) w) px0) (filled 0 (in_rows p s w (0 + h)) px0)"
  proof (rule rows_filled)
    fix j px assume j: "0 \<le> j" "j < 0 + h" and "filled 0 (in_rows p s w j) px0 px"
    then have l: "length px = length px0" by (simp add: filled_def)
    have "0 \<le> int j * s" using assms by simp
    moreover have "int j * s \<le> int (h - 1) * s" using assms j by (intro mult_right_mono) simp_all
    ultimately show "returns (clear_words px (p + int j * s) w) (filled 0 (\<lambda>k. p + int j * s \<le> int k \<and> int k < p + int j * s + w) px)"
      using assms l by (intro clear_words_filled) simp_all
  qed simp
  then show ?thesis by simp
qed

lemma fill_rows:
  assumes "0 \<le> p" "0 \<le> w" "w \<le> s" "0 < h" "p + int (h - 1) * s + w \<le> int (length px0)"
    and r: "filled c (in_rows p s w 1) px0 px1"
  shows "returns (for_range 1 (h - 1) (\<lambda>j px. copy_words px (p + int j * s) p w) px1) (filled c (in_rows p s w h) px0)"
proof -
  have "returns (for_range 1 (h - 1) (\<lambda>j px. copy_words px (p + int j * s) p w) px1)
      (filled c (in_rows p s w (1 + (h - 1))) px0)"
  proof (rule rows_filled [OF r])
    fix j px assume j: "1 \<le> j" "j < 1 + (h - 1)" and f: "filled c (in_rows p s w j) px0 px"
    then have l: "length px = length px0" by (simp add: filled_def)
    have first: "in_rows p s w j k" if "p \<le> int k" "int k < p + w" for k
      unfolding in_rows_def using that j(1) by (intro exI [of _ 0]) simp
    have "1 * s \<le> int j * s" using assms j by (intro mult_right_mono) simp_all
    moreover have "int j * s \<le> int (h - 1) * s" using assms j by (intro mult_right_mono) simp_all
    moreover have "\<forall>k<length px. p \<le> int k \<and> int k < p + w \<longrightarrow> px ! k = c"
      using f l first by (auto simp: filled_def)
    ultimately show "returns (copy_words px (p + int j * s) p w) (filled c (\<lambda>k. p + int j * s \<le> int k \<and> int k < p + int j * s + w) px)"
      using assms l by (intro copy_words_filled) simp_all
  qed
  then show ?thesis using assms(4) by simp
qed

text \<open>
  Clearing a rectangle inside the surface. \<open>clearRect8888_any\<close> stores the colour in exactly the
  words of the rectangle, whichever way it goes: all rows at once, row by row, or by copying the first
  row. All rows at once is right because the surface has no gap between its rows.
\<close>

theorem clear_rect_exact:
  assumes "0 \<le> rect_start rdr x y" "0 \<le> w" "w \<le> imageScanlineStride rdr" "0 < h"
    "rect_start rdr x y + int (h - 1) * imageScanlineStride rdr + w \<le> int (length (rdr_data rdr))"
    "imageScanlineStride rdr = rdr_width rdr"
  shows "\<exists>px. clearRect8888_any rdr x y w (int h) = Some (rdr\<lparr>rdr_data := px\<rparr>) \<and>
    filled (pack (calpha rdr) (cred rdr) (cgreen rdr) (cblue rdr))
      (in_rows (rect_start rdr x y) (imageScanlineStride rdr) w h) (rdr_data rdr) px"
proof -
  let ?c = "pack (calpha rdr) (cred rdr) (cgreen rdr) (cblue rdr)" and ?p = "rect_start rdr x y" and ?s = "imageScanlineStride rdr"
  note rows = assms(1-5)
  have one: "int (h - 1) * ?s = int h * ?s - ?s" using assms(4) by (simp add: of_nat_diff algebra_simps)
  consider (full) "?c = 0" "x = 0 \<and> w = rdr_width rdr" | (part) "?c = 0" "\<not> (x = 0 \<and> w = rdr_width rdr)" | (copy) "?c \<noteq> 0" by blast
  then have "returns (clearRect8888_any rdr x y w (int h))
     (\<lambda>r. \<exists>px. r = rdr\<lparr>rdr_data := px\<rparr> \<and> filled ?c (in_rows ?p ?s w h) (rdr_data rdr) px)"
  proof cases
    case full
    then have "w = ?s" using assms(6) by simp
    then have "returns (clear_words (rdr_data rdr) ?p (w * int h)) (filled ?c (in_rows ?p ?s w h) (rdr_data rdr))"
      using clear_words_filled [of ?p "w * int h" "rdr_data rdr"] rows one full(1)
        whole_rows [OF rows(2), of ?p _ h] by (simp add: mult.commute)
    then show ?thesis
      using full by (auto simp: clearRect8888_any_def Let_def returns_iff rect_start_def)
  next
    case part
    have "returns (for_range 0 h (\<lambda>j px. clear_words px (?p + int j * ?s) w) (rdr_data rdr)) (filled ?c (in_rows ?p ?s w h) (rdr_data rdr))"
      using clear_rows [OF rows] part(1) by simp
    then show ?thesis
      using part by (auto simp: clearRect8888_any_def Let_def returns_iff rect_start_def)
  next
    case copy
    have "0 \<le> int (h - 1) * ?s" using rows by simp
    then have "?p + w \<le> int (length (rdr_data rdr))" using rows by linarith
    then have "returns (for_range 0 (nat w) (\<lambda>i px. write_at px (?p + int i) ?c) (rdr_data rdr)) (filled ?c (in_rows ?p ?s w 1) (rdr_data rdr))"
      using words_filled [where p = ?p and n = "nat w" and c = ?c and f = "\<lambda>i px. write_at px (?p + int i) ?c" and ?px0.0 = "rdr_data rdr"] rows
      by (simp add: in_rows_Suc [of _ _ _ 0, simplified, abs_def])
    then obtain px1 where px1: "for_range 0 (nat w) (\<lambda>i px. write_at px (?p + int i) ?c) (rdr_data rdr) = Some px1"
        "filled ?c (in_rows ?p ?s w 1) (rdr_data rdr) px1"
      by (rule returnsE)
    from fill_rows [OF rows px1(2)] obtain px2 where
      "for_range 1 (h - 1) (\<lambda>j px. copy_words px (?p + int j * ?s) ?p w) px1 = Some px2"
      "filled ?c (in_rows ?p ?s w h) (rdr_data rdr) px2"
      by (rule returnsE)
    moreover have "nat (int h - 1) = h - 1" by simp
    ultimately show ?thesis
      using copy px1(1) by (auto simp: clearRect8888_any_def Let_def rect_start_def)
  qed
  then show ?thesis by (auto simp: returns_iff)
qed

theorem clear_rect_exact_witness:
  "\<exists>px. clearRect8888_any white_rdr 1 0 2 2 = Some (white_rdr\<lparr>rdr_data := px\<rparr>) \<and> px ! 0 = 0xffffffff \<and> px ! 4 = 0x80ff0000"
proof -
  have r: "rect_start white_rdr 1 0 = 1" "imageScanlineStride white_rdr = 3" "rdr_width white_rdr = 3"
    "rdr_data white_rdr = replicate 6 0xffffffff" "cred white_rdr = 255" "cgreen white_rdr = 0" "cblue white_rdr = 0"
    by (simp_all add: rect_start_def white_rdr_def zeroed_def)
  have "in_rows 1 3 2 2 4" "\<not> in_rows 1 3 2 2 0" by (simp_all add: in_rows_Suc numeral_2_eq_2)
  moreover have "pack 128 255 0 0 = 0x80ff0000" by (simp add: pack_def)
  ultimately show ?thesis using clear_rect_exact [of white_rdr 1 0 2 2] by (auto simp: r filled_def)
qed

end
