(* ===== verification/PiscesRenderer.thy ===== *)
theory PiscesRenderer
  imports PiscesBlit
begin

text \<open>
  \<open>native-prism-sw/PiscesRenderer.inl\<close>: the state of the renderer. Setting a colour, a paint, a
  composite rule, a mask or a surface only marks what depends on it as invalid; \<open>VALIDATE_BLITTING\<close>
  brings it up to date before anything is drawn. The invariant says that what is not marked is up to
  date, so after the validation the routines are the right ones for the modes that were set last.
\<close>

unbundle bit_operations_syntax

section \<open>The marks\<close>

abbreviation (input) INVALID_COLOR_ALPHA_MAP :: "32 word" where "INVALID_COLOR_ALPHA_MAP \<equiv> 1"
abbreviation (input) INVALID_PAINT_ALPHA_MAP :: "32 word" where "INVALID_PAINT_ALPHA_MAP \<equiv> 2"
abbreviation (input) INVALID_INTERNAL_COLOR :: "32 word" where "INVALID_INTERNAL_COLOR \<equiv> 8"
abbreviation (input) INVALID_RENDERER_SURFACE :: "32 word" where "INVALID_RENDERER_SURFACE \<equiv> 16"
abbreviation (input) INVALID_COMPOSITE_DEPENDED_ROUTINES :: "32 word" where "INVALID_COMPOSITE_DEPENDED_ROUTINES \<equiv> 32"
abbreviation (input) INVALID_PAINT_DEPENDED_ROUTINES :: "32 word" where "INVALID_PAINT_DEPENDED_ROUTINES \<equiv> 64"
abbreviation (input) INVALID_MASK_DEPENDED_ROUTINES :: "32 word" where "INVALID_MASK_DEPENDED_ROUTINES \<equiv> 128"
abbreviation (input) INVALID_BLITTING_MASK :: "32 word" where "INVALID_BLITTING_MASK \<equiv> 8 OR 16 OR 32 OR 64 OR 128"
abbreviation (input) INVALID_ALL :: "32 word" where "INVALID_ALL \<equiv> 1 OR 2 OR INVALID_BLITTING_MASK"

definition mark :: "32 word \<Rightarrow> Renderer \<Rightarrow> Renderer" where
  "mark f rdr = rdr\<lparr>rendererState := rendererState rdr OR f\<rparr>"

definition unmark :: "32 word \<Rightarrow> Renderer \<Rightarrow> Renderer" where
  "unmark f rdr = rdr\<lparr>rendererState := rendererState rdr AND NOT f\<rparr>"

definition marked :: "Renderer \<Rightarrow> 32 word \<Rightarrow> bool" where
  "marked rdr f = (rendererState rdr AND f \<noteq> 0)"

section \<open>Bringing the routines up to date\<close>

definition updatePaintDependedRoutines :: "Renderer \<Rightarrow> Renderer" where
  "updatePaintDependedRoutines rdr =
     (let painted = (\<lambda>g. rdr\<lparr>genPaint := Some g, emitRows := bl_PT (choice rdr), emitLine := el_PT (choice rdr)\<rparr>);
          rdr = (if paintMode rdr = PAINT_LINEAR_GRADIENT then painted GenLinearGradientPaint
                 else if paintMode rdr = PAINT_RADIAL_GRADIENT then painted GenRadialGradientPaint
                 else if paintMode rdr = PAINT_TEXTURE8888 then painted GenTexturePaint
                 else if paintMode rdr = PAINT_TEXTURE8888_MULTIPLY then painted GenTexturePaintMultiply
                 else if paintMode rdr = PAINT_FLAT_COLOR then
                   rdr\<lparr>genPaint := None, emitRows := bl (choice rdr), emitLine := el (choice rdr)\<rparr>
                 else rdr)
      in unmark INVALID_PAINT_DEPENDED_ROUTINES rdr)"

text \<open>The routines for the composite rule, from those for the mask.\<close>

definition choose_rule :: "Renderer \<Rightarrow> Renderer" where
  "choose_rule rdr = (let c = choice rdr; t = table rdr in rdr\<lparr>choice :=
     (if compositeRule rdr = COMPOSITE_SRC_OVER then
        c\<lparr>bl := bl_SourceOver c, bl_PT := bl_PT_SourceOver c, el := el_SourceOver t, el_PT := el_PT_SourceOver t\<rparr>
      else if compositeRule rdr = COMPOSITE_SRC then
        c\<lparr>bl := bl_Source c, bl_PT := bl_PT_Source c, el := el_Source t, el_PT := el_PT_Source t\<rparr>
      else if compositeRule rdr = COMPOSITE_CLEAR then
        c\<lparr>bl := bl_Clear t, bl_PT := bl_PT_Clear t, el := el_Source t, el_PT := el_Source t\<rparr>
      else c)\<rparr>)"

definition updateCompositeDependedRoutines :: "Renderer \<Rightarrow> Renderer" where
  "updateCompositeDependedRoutines rdr =
     unmark INVALID_COMPOSITE_DEPENDED_ROUTINES (updatePaintDependedRoutines (choose_rule rdr))"

text \<open>The routines for the mask, from the table.\<close>

definition choose_mask :: "Renderer \<Rightarrow> Renderer" where
  "choose_mask rdr = (let c = choice rdr; t = table rdr in rdr\<lparr>choice :=
     (if maskType rdr = NO_MASK then
        c\<lparr>bl_SourceOver := bl_SourceOverNoMask t, bl_PT_SourceOver := bl_PT_SourceOverNoMask t,
          bl_Source := bl_SourceNoMask t, bl_PT_Source := bl_PT_SourceNoMask t\<rparr>
      else if maskType rdr = ALPHA_MASK then
        c\<lparr>bl_SourceOver := bl_SourceOverMask t, bl_PT_SourceOver := bl_PT_SourceOverMask t,
          bl_Source := bl_SourceMask t, bl_PT_Source := bl_PT_SourceMask t\<rparr>
      else if maskType rdr = LCD_ALPHA_MASK then
        c\<lparr>bl_SourceOver := bl_SourceOverLCDMask t, bl_PT_SourceOver := bl_PT_SourceOverLCDMask t,
          bl_Source := bl_SourceLCDMask t, bl_PT_Source := bl_PT_SourceLCDMask t\<rparr>
      else c)\<rparr>)"

definition updateMaskDependedRoutines :: "Renderer \<Rightarrow> Renderer" where
  "updateMaskDependedRoutines rdr =
     unmark INVALID_MASK_DEPENDED_ROUTINES (updateCompositeDependedRoutines (choose_mask rdr))"

definition table_8888 :: Routines where
  "table_8888 =
          \<lparr>bl_SourceOverMask = Some BlitSrcOverMask8888_pre, bl_PT_SourceOverMask = Some BlitPTSrcOverMask8888_pre,
           bl_SourceMask = Some BlitSrcMask8888_pre, bl_PT_SourceMask = Some BlitPTSrcMask8888_pre,
           bl_SourceOverLCDMask = Some BlitSrcOverLCDMask8888_pre, bl_PT_SourceOverLCDMask = None,
           bl_SourceLCDMask = None, bl_PT_SourceLCDMask = None,
           bl_SourceOverNoMask = Some BlitSrcOver8888_pre, bl_PT_SourceOverNoMask = Some BlitPTSrcOver8888_pre,
           bl_SourceNoMask = Some BlitSrc8888_pre, bl_PT_SourceNoMask = Some BlitPTSrc8888_pre,
           el_Source = Some EmitLineSource8888_pre, el_SourceOver = Some EmitLineSourceOver8888_pre,
           el_PT_Source = Some EmitLinePTSource8888_pre, el_PT_SourceOver = Some EmitLinePTSourceOver8888_pre,
           bl_Clear = Some BlitSrc8888_pre, bl_PT_Clear = Some BlitSrc8888_pre, clearRect_set = True\<rparr>"

definition updateSurfaceDependedRoutines :: "Renderer \<Rightarrow> Renderer" where
  "updateSurfaceDependedRoutines rdr =
     updateMaskDependedRoutines
       (if imageType rdr = TYPE_INT_ARGB_PRE then rdr\<lparr>table := table_8888\<rparr> else rdr)"

text \<open>\<open>_data\<close> is the array of the surface throughout: see \<open>rdr_data\<close>.\<close>

definition updateRendererSurface :: "Renderer \<Rightarrow> Renderer" where
  "updateRendererSurface rdr =
     (let s = surface rdr;
          rdr = rdr\<lparr>rdr_width := s_width s, rdr_height := s_height s, imageOffset := s_offset s,
                    imageScanlineStride := s_scanlineStride s, imagePixelStride := s_pixelStride s\<rparr>;
          rdr = (if imageType rdr \<noteq> s_imageType s then
                   let rdr = (if compositeRule rdr \<noteq> COMPOSITE_SRC_OVER \<and> s_imageType s = TYPE_INT_ARGB_PRE
                              then mark (INVALID_COLOR_ALPHA_MAP OR INVALID_PAINT_ALPHA_MAP) rdr else rdr)
                   in updateSurfaceDependedRoutines (rdr\<lparr>imageType := s_imageType s\<rparr>)
                 else rdr)
      in unmark INVALID_RENDERER_SURFACE rdr)"

definition updateInternalColor :: "Renderer \<Rightarrow> Renderer" where
  "updateInternalColor rdr =
     unmark INVALID_INTERNAL_COLOR
       (if compositeRule rdr = COMPOSITE_CLEAR then rdr\<lparr>cred := 0, cgreen := 0, cblue := 0, calpha := 0\<rparr>
        else rdr\<lparr>cred := ured rdr, cgreen := ugreen rdr, cblue := ublue rdr, calpha := ualpha rdr\<rparr>)"

text \<open>The state that decides what to bring up to date is the one at the start.\<close>

definition VALIDATE_BLITTING :: "Renderer \<Rightarrow> Renderer" where
  "VALIDATE_BLITTING rdr0 =
     (if marked rdr0 INVALID_BLITTING_MASK then
        let rdr = (if marked rdr0 INVALID_RENDERER_SURFACE then updateRendererSurface rdr0 else rdr0);
            rdr = (if marked rdr0 INVALID_INTERNAL_COLOR then updateInternalColor rdr else rdr)
        in if marked rdr0 INVALID_MASK_DEPENDED_ROUTINES then updateMaskDependedRoutines rdr
           else if marked rdr0 INVALID_COMPOSITE_DEPENDED_ROUTINES then updateCompositeDependedRoutines rdr
           else if marked rdr0 INVALID_PAINT_DEPENDED_ROUTINES then updatePaintDependedRoutines rdr
           else rdr
      else rdr0)"

definition INVALIDATE_RENDERER_SURFACE :: "Renderer \<Rightarrow> Renderer" where
  "INVALIDATE_RENDERER_SURFACE rdr = mark INVALID_RENDERER_SURFACE rdr"

section \<open>Setting the modes\<close>

definition setPaintMode :: "Renderer \<Rightarrow> int \<Rightarrow> Renderer" where
  "setPaintMode rdr newPaintMode =
     (if paintMode rdr \<noteq> newPaintMode then
        (mark INVALID_PAINT_DEPENDED_ROUTINES rdr)\<lparr>prevPaintMode := paintMode rdr, paintMode := newPaintMode\<rparr>
      else rdr)"

definition renderer_setClip :: "Renderer \<Rightarrow> int \<Rightarrow> int \<Rightarrow> int \<Rightarrow> int \<Rightarrow> Renderer" where
  "renderer_setClip rdr minX minY width height =
     rdr\<lparr>clip_bbMinX := minX, clip_bbMinY := minY, clip_bbMaxX := minX + width - 1, clip_bbMaxY := minY + height - 1\<rparr>"

definition renderer_setColor :: "Renderer \<Rightarrow> int \<Rightarrow> int \<Rightarrow> int \<Rightarrow> int \<Rightarrow> Renderer" where
  "renderer_setColor rdr red green blue alpha =
     setPaintMode
       (if ured rdr \<noteq> red \<or> ugreen rdr \<noteq> green \<or> ublue rdr \<noteq> blue \<or> ualpha rdr \<noteq> alpha then
          let rdr = mark INVALID_INTERNAL_COLOR rdr;
              rdr = (if ualpha rdr \<noteq> alpha then mark (INVALID_COLOR_ALPHA_MAP OR INVALID_PAINT_ALPHA_MAP) rdr else rdr)
          in rdr\<lparr>ured := red, ugreen := green, ublue := blue, ualpha := alpha\<rparr>
        else rdr)
       PAINT_FLAT_COLOR"

definition renderer_setCompositeRule :: "Renderer \<Rightarrow> int \<Rightarrow> Renderer" where
  "renderer_setCompositeRule rdr rule =
     (if compositeRule rdr \<noteq> rule then
        let rdr = mark (INVALID_INTERNAL_COLOR OR INVALID_COMPOSITE_DEPENDED_ROUTINES) rdr;
            rdr = (if rule = COMPOSITE_SRC_OVER \<or> ((rule = COMPOSITE_CLEAR \<or> rule = COMPOSITE_SRC) \<and> imageType rdr = TYPE_INT_ARGB_PRE)
                   then mark (INVALID_COLOR_ALPHA_MAP OR INVALID_PAINT_ALPHA_MAP) rdr else rdr)
        in rdr\<lparr>compositeRule := rule\<rparr>
      else rdr)"

definition renderer_setMask :: "Renderer \<Rightarrow> int \<Rightarrow> 8 word list \<Rightarrow> int \<Rightarrow> int \<Rightarrow> Renderer" where
  "renderer_setMask rdr type bytes width height =
     mark (INVALID_BLITTING_MASK OR INVALID_MASK_DEPENDED_ROUTINES)
       (rdr\<lparr>maskType := type, mask_byteData := bytes, mask_width := width, mask_height := height\<rparr>)"

definition renderer_removeMask :: "Renderer \<Rightarrow> Renderer" where
  "renderer_removeMask rdr =
     mark (INVALID_BLITTING_MASK OR INVALID_MASK_DEPENDED_ROUTINES) (rdr\<lparr>maskType := NO_MASK, mask_byteData := []\<rparr>)"

definition createCommon :: "Surface \<Rightarrow> Renderer" where
  "createCommon s = (zeroed s)
     \<lparr>imageType := -1, compositeRule := COMPOSITE_SRC_OVER, maskType := NO_MASK, paintMode := PAINT_FLAT_COLOR,
      clip_bbMinX := 0, clip_bbMinY := 0, clip_bbMaxX := s_width s - 1, clip_bbMaxY := s_height s - 1,
      rendererState := INVALID_ALL\<rparr>"

definition renderer_create :: "Surface \<Rightarrow> Renderer" where
  "renderer_create s = createCommon s"

definition renderer_clearRect :: "Renderer \<Rightarrow> int \<Rightarrow> int \<Rightarrow> int \<Rightarrow> int \<Rightarrow> Renderer option" where
  "renderer_clearRect rdr x y w h =
     (let maxX = x + w - 1; maxY = y + h - 1;
          rdr = VALIDATE_BLITTING rdr;
          x = max (max x 0) (clip_bbMinX rdr);
          y = max (max y 0) (clip_bbMinY rdr);
          maxX = min (min maxX (rdr_width rdr - 1)) (clip_bbMaxX rdr);
          maxY = min (min maxY (rdr_height rdr - 1)) (clip_bbMaxY rdr)
      in if x \<le> maxX \<and> y \<le> maxY then
           if clearRect_set (table rdr) then clearRect8888_any rdr x y (maxX - x + 1) (maxY - y + 1) else None
         else Some rdr)"

end
