(* ===== verification/PiscesDraw.thy ===== *)
theory PiscesDraw
  imports PiscesRenderer
begin

text \<open>
  \<open>native-prism-sw/JPiscesRenderer.c\<close> and \<open>surface_acquire\<close> of \<open>JJavaSurface.c\<close>: the drawing operations
  that Java calls. Each locks the array of the surface, brings the renderer up to date, sets up the
  rows and runs the routine that was chosen. The functions that generate a paint are the argument
  \<open>gen\<close>, which gives the new contents of \<open>_paint\<close>; the gamma tables are the argument \<open>gamma\<close>.
\<close>

type_synonym generator = "gen_paint \<Rightarrow> Renderer \<Rightarrow> int \<Rightarrow> 32 word list option"
type_synonym gamma_tables = "int list \<times> int list"

section \<open>Calls through the chosen routines\<close>

definition run_rows :: "gamma_tables \<Rightarrow> Renderer \<Rightarrow> int \<Rightarrow> Renderer option" where
  "run_rows gamma rdr height = (case emitRows rdr of
     None \<Rightarrow> None
   | Some BlitSrc8888_pre \<Rightarrow> blitSrc8888_pre rdr height
   | Some BlitPTSrc8888_pre \<Rightarrow> blitPTSrc8888_pre rdr height
   | Some BlitSrcOver8888_pre \<Rightarrow> blitSrcOver8888_pre rdr height
   | Some BlitPTSrcOver8888_pre \<Rightarrow> blitPTSrcOver8888_pre rdr height
   | Some BlitSrcMask8888_pre \<Rightarrow> blitSrcMask8888_pre rdr height
   | Some BlitPTSrcMask8888_pre \<Rightarrow> blitPTSrcMask8888_pre rdr height
   | Some BlitSrcOverMask8888_pre \<Rightarrow> blitSrcOverMask8888_pre rdr height
   | Some BlitPTSrcOverMask8888_pre \<Rightarrow> blitPTSrcOverMask8888_pre rdr height
   | Some BlitSrcOverLCDMask8888_pre \<Rightarrow> blitSrcOverLCDMask8888_pre (fst gamma) (snd gamma) rdr height)"

definition run_line :: "Renderer \<Rightarrow> int \<Rightarrow> int \<Rightarrow> Renderer option" where
  "run_line rdr height fr = (case emitLine rdr of
     None \<Rightarrow> None
   | Some EmitLineSource8888_pre \<Rightarrow> emitLineSource8888_pre rdr height fr
   | Some EmitLineSourceOver8888_pre \<Rightarrow> emitLineSourceOver8888_pre rdr height fr
   | Some EmitLinePTSource8888_pre \<Rightarrow> emitLinePTSource8888_pre rdr height fr
   | Some EmitLinePTSourceOver8888_pre \<Rightarrow> emitLinePTSourceOver8888_pre rdr height fr)"

definition generate :: "generator \<Rightarrow> Renderer \<Rightarrow> int \<Rightarrow> Renderer option" where
  "generate gen rdr height = (case genPaint rdr of
     None \<Rightarrow> Some rdr
   | Some g \<Rightarrow> do { p \<leftarrow> gen g rdr height; Some (rdr\<lparr>paint := p\<rparr>) })"

section \<open>The array of the surface\<close>

text \<open>
  \<open>GetPrimitiveArrayCritical\<close> may fail: then \<open>locked\<close> is false. The rest of the operation, \<open>body\<close>, also
  tells whether it set the flag for an error of memory, which becomes an exception at the end. When the array is too short an
  exception is pending and the data are null, but the caller goes on. The length of the array is
  divided by the width, which must not be 0.
\<close>

datatype acquired = Pixels "32 word list" | OutOfRange | OutOfMemory

datatype java_exception = IllegalArgumentException | OutOfMemoryError

definition surface_acquire :: "Surface \<Rightarrow> 32 word list \<Rightarrow> bool \<Rightarrow> acquired option" where
  "surface_acquire s array locked =
     (if s_width s < 0 \<or> s_height s < 0 then Some OutOfRange
      else if s_width s = 0 then None
      else if int (length array) div s_width s < s_height s then Some OutOfRange
      else if locked then Some (Pixels array)
      else Some OutOfMemory)"

definition with_surface ::
    "Renderer \<Rightarrow> 32 word list \<Rightarrow> bool \<Rightarrow> (Renderer \<Rightarrow> (Renderer \<times> bool) option) \<Rightarrow>
     (Renderer \<times> java_exception option) option" where
  "with_surface rdr array locked body = do {
     a \<leftarrow> surface_acquire (surface rdr) array locked;
     case a of
       Pixels px \<Rightarrow> do {
         (rdr, memErrorFlag) \<leftarrow> body (rdr\<lparr>rdr_data := px\<rparr>);
         Some (rdr, if memErrorFlag then Some OutOfMemoryError else None)
       }
     | OutOfRange \<Rightarrow> do { (rdr, _) \<leftarrow> body (rdr\<lparr>rdr_data := []\<rparr>); Some (rdr, Some IllegalArgumentException) }
     | OutOfMemory \<Rightarrow> Some (rdr, Some OutOfMemoryError)
   }"

section \<open>Filling a rectangle\<close>

text \<open>
  The coordinates are fixed point numbers with 16 bits after the point. The bounds are the first and
  last pixel in each direction and the coverage of the first and last ones that are partly covered,
  after the modes of the edges and the clip.
\<close>

record Bounds =
  x_from :: int
  x_to :: int
  y_from :: int
  y_to :: int
  lfrac :: int
  rfrac :: int
  tfrac :: int
  bfrac :: int

definition rect_bounds :: "int \<Rightarrow> int \<Rightarrow> int \<Rightarrow> int \<Rightarrow> Bounds" where
  "rect_bounds x y w h =
     (let lf = (65536 - x mod 65536) mod 65536; rf = (x + w) mod 65536;
          tf = (65536 - y mod 65536) mod 65536; bf = (y + h) mod 65536
      in \<lparr>x_from = x div 65536, x_to = (if rf \<noteq> 0 then (x + w) div 65536 else (x + w) div 65536 - 1),
          y_from = y div 65536, y_to = (if bf \<noteq> 0 then (y + h) div 65536 else (y + h) div 65536 - 1),
          lfrac = lf, rfrac = rf, tfrac = tf, bfrac = bf\<rparr>)"

definition edge_bounds :: "int \<Rightarrow> int \<Rightarrow> int \<Rightarrow> int \<Rightarrow> Bounds \<Rightarrow> Bounds" where
  "edge_bounds lEdge rEdge tEdge bEdge b =
     (let b = (if lEdge = IMAGE_FRAC_EDGE_PAD then b\<lparr>lfrac := 0\<rparr>
               else if lEdge = IMAGE_FRAC_EDGE_TRIM then
                 b\<lparr>x_from := if lfrac b \<noteq> 0 then x_from b + 1 else x_from b, lfrac := 0\<rparr>
               else b);
          b = (if rEdge = IMAGE_FRAC_EDGE_PAD then b\<lparr>rfrac := 0\<rparr>
               else if rEdge = IMAGE_FRAC_EDGE_TRIM then
                 b\<lparr>x_to := if rfrac b \<noteq> 0 then x_to b - 1 else x_to b, rfrac := 0\<rparr>
               else b);
          b = (if tEdge = IMAGE_FRAC_EDGE_PAD then b\<lparr>tfrac := 0\<rparr>
               else if tEdge = IMAGE_FRAC_EDGE_TRIM then
                 b\<lparr>y_from := if tfrac b \<noteq> 0 then y_from b + 1 else y_from b, tfrac := 0\<rparr>
               else b)
      in if bEdge = IMAGE_FRAC_EDGE_PAD then b\<lparr>bfrac := 0\<rparr>
         else if bEdge = IMAGE_FRAC_EDGE_TRIM then
           b\<lparr>y_to := if bfrac b \<noteq> 0 then y_to b - 1 else y_to b, bfrac := 0\<rparr>
         else b)"

definition clip_bounds :: "Renderer \<Rightarrow> Bounds \<Rightarrow> Bounds" where
  "clip_bounds rdr b =
     (let b = (if x_from b < clip_bbMinX rdr then b\<lparr>x_from := clip_bbMinX rdr, lfrac := 0\<rparr> else b);
          b = (if y_from b < clip_bbMinY rdr then b\<lparr>y_from := clip_bbMinY rdr, tfrac := 0\<rparr> else b);
          b = (if x_to b > clip_bbMaxX rdr then b\<lparr>x_to := clip_bbMaxX rdr, rfrac := 0\<rparr> else b)
      in if y_to b > clip_bbMaxY rdr then b\<lparr>y_to := clip_bbMaxY rdr, bfrac := 0\<rparr> else b)"

text \<open>A single row or column that is partly covered has one fraction only.\<close>

definition single_bounds :: "Bounds \<Rightarrow> Bounds" where
  "single_bounds b =
     (let b = (if y_from b = y_to b \<and> (tfrac b \<noteq> 0 \<or> bfrac b \<noteq> 0)
               then b\<lparr>tfrac := (bfrac b - 65536 + tfrac b) mod 65536, bfrac := 0\<rparr> else b)
      in if x_from b = x_to b \<and> (lfrac b \<noteq> 0 \<or> rfrac b \<noteq> 0)
         then b\<lparr>lfrac := (rfrac b - 65536 + lfrac b) mod 65536, rfrac := 0\<rparr> else b)"

text \<open>Going on to the row \<open>n\<close> rows below.\<close>

definition advance :: "int \<Rightarrow> int \<Rightarrow> Renderer \<Rightarrow> Renderer" where
  "advance x n rdr = rdr\<lparr>currX := x, currY := currY rdr + n,
     currImageOffset := (currY rdr + n) * s_width (surface rdr), rowNum := rowNum rdr + n\<rparr>"

definition paint_line :: "generator \<Rightarrow> int \<Rightarrow> int \<Rightarrow> Renderer \<Rightarrow> Renderer option" where
  "paint_line gen n fr rdr = do { rdr \<leftarrow> generate gen rdr n; run_line rdr n fr }"

function full_lines :: "generator \<Rightarrow> int \<Rightarrow> int \<Rightarrow> Renderer \<Rightarrow> Renderer option" where
  "full_lines gen x rows rdr =
     (if rows > 0 then do {
        rdr \<leftarrow> paint_line gen (min rows NUM_ALPHA_ROWS) 0x10000 rdr;
        full_lines gen x (rows - min rows NUM_ALPHA_ROWS) (advance x (min rows NUM_ALPHA_ROWS) rdr)
      }
      else Some rdr)"
  by pat_completeness auto
termination
  by (relation "measure (\<lambda>(gen, x, rows, rdr). nat rows)") auto

declare full_lines.simps [simp del]

definition fill_lines :: "generator \<Rightarrow> Bounds \<Rightarrow> Renderer \<Rightarrow> Renderer option" where
  "fill_lines gen b rdr =
     (let rows = y_to b - y_from b + 1;
          rdr = VALIDATE_BLITTING (INVALIDATE_RENDERER_SURFACE rdr);
          width = s_width (surface rdr);
          rdr = rdr\<lparr>minTouched := x_from b, maxTouched := x_to b, currX := x_from b, currY := y_from b,
                    alphaWidth := x_to b - x_from b + 1, currImageOffset := y_from b * width,
                    imageScanlineStride := width, imagePixelStride := 1, rowNum := 0\<rparr>;
          b = single_bounds b;
          rdr = rdr\<lparr>el_lfrac := lfrac b, el_rfrac := rfrac b\<rparr>;
          rows = (if bfrac b \<noteq> 0 then rows - 1 else rows)
      in do {
        (rdr, rows) \<leftarrow> (if tfrac b \<noteq> 0 then do {
            rdr \<leftarrow> paint_line gen 1 (tfrac b) rdr;
            Some (advance (x_from b) 1 rdr, rows - 1)
          }
          else Some (rdr, rows));
        rdr \<leftarrow> full_lines gen (x_from b) rows rdr;
        if bfrac b \<noteq> 0 then paint_line gen 1 (bfrac b) rdr else Some rdr
      })"

definition fillRect ::
    "generator \<Rightarrow> 32 word list \<Rightarrow> bool \<Rightarrow> Renderer \<Rightarrow> int \<Rightarrow> int \<Rightarrow> int \<Rightarrow> int \<Rightarrow> int \<Rightarrow> int \<Rightarrow> int \<Rightarrow> int \<Rightarrow>
     (Renderer \<times> java_exception option) option" where
  "fillRect gen array locked rdr x y w h lEdge rEdge tEdge bEdge =
     (let b = rect_bounds x y w h;
          rdr = rdr\<lparr>rectX := x_from b, rectY := y_from b\<rparr>;
          b = clip_bounds rdr (edge_bounds lEdge rEdge tEdge bEdge b)
      in if x_from b \<le> x_to b \<and> y_from b \<le> y_to b then with_surface rdr array locked (\<lambda>rdr. do { rdr \<leftarrow> fill_lines gen b rdr; Some (rdr, False) })
         else Some (rdr, None))"

definition fillRectImpl where
  "fillRectImpl gen array locked rdr x y w h = fillRect gen array locked rdr x y w h 0 0 0 0"

section \<open>Antialiased rows\<close>

text \<open>
  \<open>alphas\<close> and \<open>deltas\<close> are the arrays of Java, \<open>None\<close> when they cannot be locked: then nothing is
  drawn. The routine clears the differences it reads; Java gets the array back.
\<close>

definition alpha_row_body where
  "alpha_row_body gen gamma alphas deltas y x0 x1 row rdr0 =
     (let rdr = VALIDATE_BLITTING (INVALIDATE_RENDERER_SURFACE rdr0)
       in case (alphas, deltas) of
         (Some alphas, Some deltas) \<Rightarrow>
           let xfrom = max x0 (clip_bbMinX rdr);
               xto = min x1 (clip_bbMaxX rdr);
               width = s_width (surface rdr)
           in if xto \<ge> xfrom \<and> y \<ge> clip_bbMinY rdr \<and> y \<le> clip_bbMaxY rdr then do {
                rdr \<leftarrow> generate gen (rdr\<lparr>minTouched := xfrom, maxTouched := xto, currX := xfrom, currY := y,
                  rowNum := row, alphaMap := alphas, rowAAInt := deltas, alphaWidth := xto - xfrom + 1,
                  currImageOffset := y * width, imageScanlineStride := width, imagePixelStride := 1\<rparr>) 1;
                rdr \<leftarrow> run_rows gamma rdr 1;
                Some (rdr\<lparr>rowAAInt := []\<rparr>, False)
              }
              else Some (rdr, False)
       | _ \<Rightarrow> Some (rdr, True))"

definition emitAndClearAlphaRowImpl where
  "emitAndClearAlphaRowImpl gen gamma array locked alphas deltas rdr y xfrom xto row =
     with_surface rdr array locked (alpha_row_body gen gamma alphas deltas y xfrom xto row)"

section \<open>Masks\<close>

text \<open>
  \<open>bytes\<close> is the array of the mask, \<open>None\<close> when it cannot be locked. Each row of it is drawn on its own. After the
  first row \<open>_currX\<close> is \<open>x\<close>, not \<open>minX\<close>.
\<close>

definition mask_row :: "generator \<Rightarrow> gamma_tables \<Rightarrow> int \<Rightarrow> int \<Rightarrow> Renderer \<Rightarrow> Renderer option" where
  "mask_row gen gamma x maskWidth rdr = do {
     rdr \<leftarrow> generate gen (rdr\<lparr>currImageOffset := currY rdr * s_width (surface rdr)\<rparr>) 1;
     rdr \<leftarrow> run_rows gamma rdr 1;
     Some (rdr\<lparr>maskOffset := maskOffset rdr + maskWidth, rowNum := rowNum rdr + 1, currX := x, currY := currY rdr + 1\<rparr>)
   }"

definition mask_body where
  "mask_body gen gamma bytes minX minY maxX maxY type x mw mh off rdr0 = (case bytes of None \<Rightarrow> Some (rdr0, True) | Some bytes \<Rightarrow>
          let width = maxX - minX + 1;
              height = maxY - minY + 1;
              rdr = renderer_setMask rdr0 type bytes mw mh;
              rdr = VALIDATE_BLITTING (INVALIDATE_RENDERER_SURFACE rdr);
              rdr = rdr\<lparr>minTouched := minX, maxTouched := maxX, currX := minX, currY := minY, alphaWidth := width,
                        imageScanlineStride := s_width (surface rdr), imagePixelStride := 1, rowNum := 0,
                        maskOffset := off\<rparr>
          in do {
            rdr \<leftarrow> for_range 0 (nat height) (\<lambda>j. mask_row gen gamma x mw) rdr;
            Some (renderer_removeMask rdr, False)
          })"

definition fillAlphaMask where
  "fillAlphaMask gen gamma array locked bytes rdr minX minY maxX maxY type x maskWidth maskHeight offset =
     (if maxX \<ge> minX \<and> maxY \<ge> minY then
        with_surface rdr array locked (mask_body gen gamma bytes minX minY maxX maxY type x maskWidth maskHeight offset)
      else Some (rdr, None))"

definition fillAlphaMaskImpl where
  "fillAlphaMaskImpl gen gamma array locked bytes rdr x y maskWidth maskHeight offset =
     (let minX = max x (clip_bbMinX rdr); minY = max y (clip_bbMinY rdr);
          maxX = min (x + maskWidth - 1) (clip_bbMaxX rdr); maxY = min (y + maskHeight - 1) (clip_bbMaxY rdr)
      in fillAlphaMask gen gamma array locked bytes rdr minX minY maxX maxY ALPHA_MASK x maskWidth maskHeight
           (offset + (minY - y) * maskWidth + minX - x))"

text \<open>A mask of three bytes for each pixel: its width is in bytes.\<close>

definition fillLCDAlphaMaskImpl where
  "fillLCDAlphaMaskImpl gen gamma array locked bytes rdr x y maskWidth maskHeight offset =
     (let minX = max x (clip_bbMinX rdr); minY = max y (clip_bbMinY rdr);
          maxX = min (x + maskWidth div 3 - 1) (clip_bbMaxX rdr); maxY = min (y + maskHeight - 1) (clip_bbMaxY rdr)
      in fillAlphaMask gen gamma array locked bytes rdr minX minY maxX maxY LCD_ALPHA_MASK x maskWidth maskHeight
           (offset + (minY - y) * maskWidth + (minX - x) * 3))"

section \<open>Clearing\<close>

definition clearRectImpl where
  "clearRectImpl array locked rdr x y w h =
     with_surface rdr array locked (\<lambda>rdr.
       let rdr = INVALIDATE_RENDERER_SURFACE rdr
       in do {
         rdr \<leftarrow> renderer_clearRect (rdr\<lparr>imagePixelStride := 1, imageScanlineStride := s_width (surface rdr)\<rparr>) x y w h;
         Some (rdr, False)
       })"

end
