(* ===== verification/PiscesState.thy ===== *)
theory PiscesState
  imports PiscesDraw
begin

text \<open>
  The invariant of the renderer: what is not marked as invalid is up to date. Every call that Java can
  make keeps it, so the validation at the start of a drawing operation always ends with the routines
  and the colour that the modes call for.
\<close>

unbundle bit_operations_syntax

section \<open>The marks, bit by bit\<close>

definition dirty :: "Renderer \<Rightarrow> nat \<Rightarrow> bool" where
  "dirty rdr n = bit (rendererState rdr) n"

lemma marked_dirty [simp]:
  "marked rdr 8 = dirty rdr 3" "marked rdr 16 = dirty rdr 4" "marked rdr 32 = dirty rdr 5"
  "marked rdr 64 = dirty rdr 6" "marked rdr 128 = dirty rdr 7"
  using and_exp_eq_0_iff_not_bit [of "rendererState rdr" 3] and_exp_eq_0_iff_not_bit [of "rendererState rdr" 4]
    and_exp_eq_0_iff_not_bit [of "rendererState rdr" 5] and_exp_eq_0_iff_not_bit [of "rendererState rdr" 6]
    and_exp_eq_0_iff_not_bit [of "rendererState rdr" 7]
  by (simp_all add: marked_def dirty_def)

lemma marked_or [simp]: "marked rdr (f OR g) \<longleftrightarrow> marked rdr f \<or> marked rdr g"
  by (simp add: marked_def bit.conj_disj_distrib or_eq_0_iff)

lemma marked_blitting [simp]:
  "marked rdr 248 \<longleftrightarrow> dirty rdr 3 \<or> dirty rdr 4 \<or> dirty rdr 5 \<or> dirty rdr 6 \<or> dirty rdr 7"
proof -
  have "(248 :: 32 word) = 8 OR (16 OR (32 OR (64 OR 128)))" by simp
  then show ?thesis by (simp only: marked_or marked_dirty)
qed

lemma dirty_mark [simp]: "dirty (mark f rdr) n \<longleftrightarrow> dirty rdr n \<or> bit f n"
  by (simp add: dirty_def mark_def bit_or_iff)

lemma dirty_unmark [simp]: "n < 32 \<Longrightarrow> dirty (unmark f rdr) n \<longleftrightarrow> dirty rdr n \<and> \<not> bit f n"
  by (simp add: dirty_def unmark_def bit_and_iff bit_not_iff)

lemma dirty_update [simp]:
  "dirty (rdr\<lparr>choice := c\<rparr>) n = dirty rdr n" "dirty (rdr\<lparr>genPaint := g\<rparr>) n = dirty rdr n"
  "dirty (rdr\<lparr>emitRows := b\<rparr>) n = dirty rdr n" "dirty (rdr\<lparr>emitLine := l\<rparr>) n = dirty rdr n"
  by (simp_all add: dirty_def)

section \<open>What the routines should be\<close>

text \<open>The routine for rows and for lines that the modes call for, on a surface of premultiplied pixels.\<close>

definition rows_routine :: "int \<Rightarrow> int \<Rightarrow> bool \<Rightarrow> blit option" where
  "rows_routine rule mask_kind painted =
     (if rule = COMPOSITE_SRC_OVER then
        if mask_kind = NO_MASK then Some (if painted then BlitPTSrcOver8888_pre else BlitSrcOver8888_pre)
        else if mask_kind = ALPHA_MASK then Some (if painted then BlitPTSrcOverMask8888_pre else BlitSrcOverMask8888_pre)
        else if painted then None else Some BlitSrcOverLCDMask8888_pre
      else if rule = COMPOSITE_SRC then
        if mask_kind = NO_MASK then Some (if painted then BlitPTSrc8888_pre else BlitSrc8888_pre)
        else if mask_kind = ALPHA_MASK then Some (if painted then BlitPTSrcMask8888_pre else BlitSrcMask8888_pre)
        else None
      else Some BlitSrc8888_pre)"

definition line_routine :: "int \<Rightarrow> bool \<Rightarrow> emit_line option" where
  "line_routine rule painted =
     (if rule = COMPOSITE_SRC_OVER then Some (if painted then EmitLinePTSourceOver8888_pre else EmitLineSourceOver8888_pre)
      else if rule = COMPOSITE_SRC then Some (if painted then EmitLinePTSource8888_pre else EmitLineSource8888_pre)
      else Some EmitLineSource8888_pre)"

definition paint_routine :: "int \<Rightarrow> gen_paint option" where
  "paint_routine mode =
     (if mode = PAINT_LINEAR_GRADIENT then Some GenLinearGradientPaint
      else if mode = PAINT_RADIAL_GRADIENT then Some GenRadialGradientPaint
      else if mode = PAINT_TEXTURE8888 then Some GenTexturePaint
      else if mode = PAINT_TEXTURE8888_MULTIPLY then Some GenTexturePaintMultiply
      else None)"

definition modes_ok :: "Renderer \<Rightarrow> bool" where
  "modes_ok rdr = (compositeRule rdr \<in> {0, 1, 2} \<and> maskType rdr \<in> {0, 1, 2} \<and> paintMode rdr \<in> {0, 1, 2, 4, 5})"

definition painted :: "Renderer \<Rightarrow> bool" where
  "painted rdr = (paintMode rdr \<noteq> PAINT_FLAT_COLOR)"

definition table_ok :: "Renderer \<Rightarrow> bool" where
  "table_ok rdr = (imageType rdr = TYPE_INT_ARGB_PRE \<and> table rdr = table_8888)"

definition mask_choice_ok :: "Renderer \<Rightarrow> bool" where
  "mask_choice_ok rdr = (let c = choice rdr; k = maskType rdr in
     bl_SourceOver c = rows_routine 2 k False \<and> bl_PT_SourceOver c = rows_routine 2 k True \<and>
     bl_Source c = rows_routine 1 k False \<and> bl_PT_Source c = rows_routine 1 k True)"

definition rule_choice_ok :: "Renderer \<Rightarrow> bool" where
  "rule_choice_ok rdr = (let c = choice rdr; r = compositeRule rdr; k = maskType rdr in
     bl c = rows_routine r k False \<and> bl_PT c = rows_routine r k True \<and>
     el c = line_routine r False \<and> el_PT c = line_routine r True)"

definition paint_choice_ok :: "Renderer \<Rightarrow> bool" where
  "paint_choice_ok rdr =
     (emitRows rdr = rows_routine (compositeRule rdr) (maskType rdr) (painted rdr) \<and>
      emitLine rdr = line_routine (compositeRule rdr) (painted rdr) \<and> genPaint rdr = paint_routine (paintMode rdr))"

definition colour_ok :: "Renderer \<Rightarrow> bool" where
  "colour_ok rdr = ((cred rdr, cgreen rdr, cblue rdr, calpha rdr) =
     (if compositeRule rdr = COMPOSITE_CLEAR then (0, 0, 0, 0) else (ured rdr, ugreen rdr, ublue rdr, ualpha rdr)))"

text \<open>What is not marked as invalid is up to date; a mark on the mask is one on all the routines.\<close>

definition renderer_ok :: "Renderer \<Rightarrow> bool" where
  "renderer_ok rdr =
     (modes_ok rdr \<and> s_imageType (surface rdr) = TYPE_INT_ARGB_PRE \<and>
      (table_ok rdr \<or> (imageType rdr \<noteq> TYPE_INT_ARGB_PRE \<and> dirty rdr 4 \<and> dirty rdr 7)) \<and>
      (dirty rdr 7 \<or> mask_choice_ok rdr) \<and>
      (dirty rdr 7 \<or> dirty rdr 5 \<or> rule_choice_ok rdr) \<and>
      (dirty rdr 7 \<or> dirty rdr 5 \<or> dirty rdr 6 \<or> paint_choice_ok rdr) \<and>
      (dirty rdr 3 \<or> colour_ok rdr))"

lemmas choice_defs = mask_choice_ok_def rule_choice_ok_def paint_choice_ok_def table_ok_def colour_ok_def modes_ok_def painted_def Let_def


text \<open>Marks do not matter to what is up to date.\<close>

lemma unmark_keeps [simp]:
  "modes_ok (unmark f rdr) = modes_ok rdr" "table_ok (unmark f rdr) = table_ok rdr"
  "mask_choice_ok (unmark f rdr) = mask_choice_ok rdr" "rule_choice_ok (unmark f rdr) = rule_choice_ok rdr"
  "paint_choice_ok (unmark f rdr) = paint_choice_ok rdr" "colour_ok (unmark f rdr) = colour_ok rdr"
  "surface (unmark f rdr) = surface rdr" "imageType (unmark f rdr) = imageType rdr"
  "compositeRule (unmark f rdr) = compositeRule rdr" "maskType (unmark f rdr) = maskType rdr"
  "paintMode (unmark f rdr) = paintMode rdr"
  by (simp_all add: unmark_def choice_defs)

lemma mark_keeps [simp]:
  "modes_ok (mark f rdr) = modes_ok rdr" "table_ok (mark f rdr) = table_ok rdr"
  "mask_choice_ok (mark f rdr) = mask_choice_ok rdr" "rule_choice_ok (mark f rdr) = rule_choice_ok rdr"
  "paint_choice_ok (mark f rdr) = paint_choice_ok rdr" "colour_ok (mark f rdr) = colour_ok rdr"
  "surface (mark f rdr) = surface rdr" "imageType (mark f rdr) = imageType rdr"
  "compositeRule (mark f rdr) = compositeRule rdr" "maskType (mark f rdr) = maskType rdr"
  "paintMode (mark f rdr) = paintMode rdr"
  by (simp_all add: mark_def choice_defs)

lemma updatePaint_keeps [simp]:
  "modes_ok (updatePaintDependedRoutines rdr) = modes_ok rdr" "table_ok (updatePaintDependedRoutines rdr) = table_ok rdr"
  "mask_choice_ok (updatePaintDependedRoutines rdr) = mask_choice_ok rdr"
  "rule_choice_ok (updatePaintDependedRoutines rdr) = rule_choice_ok rdr"
  "colour_ok (updatePaintDependedRoutines rdr) = colour_ok rdr"
  "surface (updatePaintDependedRoutines rdr) = surface rdr"
  "compositeRule (updatePaintDependedRoutines rdr) = compositeRule rdr" "maskType (updatePaintDependedRoutines rdr) = maskType rdr"
  "paintMode (updatePaintDependedRoutines rdr) = paintMode rdr"
  by (simp_all add: updatePaintDependedRoutines_def Let_def) (simp_all add: choice_defs)

lemma updatePaint_dirty [simp]:
  "n < 32 \<Longrightarrow> dirty (updatePaintDependedRoutines rdr) n \<longleftrightarrow> dirty rdr n \<and> \<not> bit (64 :: 32 word) n"
  by (simp add: updatePaintDependedRoutines_def Let_def)

lemma updatePaint_ok:
  assumes "modes_ok rdr" "rule_choice_ok rdr"
  shows "paint_choice_ok (updatePaintDependedRoutines rdr)"
  using assms by (auto simp: updatePaintDependedRoutines_def unmark_def choice_defs paint_routine_def)

lemma updateComposite_eq:
  "updateCompositeDependedRoutines rdr = unmark 32 (updatePaintDependedRoutines (choose_rule rdr))"
  by (simp add: updateCompositeDependedRoutines_def)

lemma choose_rule_keeps [simp]:
  "modes_ok (choose_rule rdr) = modes_ok rdr" "table_ok (choose_rule rdr) = table_ok rdr"
  "mask_choice_ok (choose_rule rdr) = mask_choice_ok rdr"
  "colour_ok (choose_rule rdr) = colour_ok rdr" "surface (choose_rule rdr) = surface rdr"
  "compositeRule (choose_rule rdr) = compositeRule rdr" "maskType (choose_rule rdr) = maskType rdr"
  "paintMode (choose_rule rdr) = paintMode rdr"
  "dirty (choose_rule rdr) n = dirty rdr n"
  by (simp_all add: choose_rule_def Let_def) (simp_all add: choice_defs)

lemma choose_rule_ok:
  assumes "modes_ok rdr" "table_ok rdr" "mask_choice_ok rdr"
  shows "rule_choice_ok (choose_rule rdr)"
proof -
  have "compositeRule rdr = 0 \<or> compositeRule rdr = 1 \<or> compositeRule rdr = 2" using assms(1) by (simp add: modes_ok_def disj_ac)
  then show ?thesis
    using assms(2,3) unfolding choose_rule_def rule_choice_ok_def mask_choice_ok_def table_ok_def table_8888_def line_routine_def
    by (elim disjE) (simp_all add: Let_def, simp_all add: rows_routine_def)
qed

lemma updateComposite_ok:
  assumes "modes_ok rdr" "table_ok rdr" "mask_choice_ok rdr"
  shows "rule_choice_ok (updateCompositeDependedRoutines rdr)" "paint_choice_ok (updateCompositeDependedRoutines rdr)"
  using choose_rule_ok [OF assms] assms(1) by (simp_all add: updateComposite_eq updatePaint_ok)

lemma updateMask_eq:
  "updateMaskDependedRoutines rdr = unmark 128 (updateCompositeDependedRoutines (choose_mask rdr))"
  by (simp add: updateMaskDependedRoutines_def)

lemma choose_mask_keeps [simp]:
  "modes_ok (choose_mask rdr) = modes_ok rdr" "table_ok (choose_mask rdr) = table_ok rdr"
  "colour_ok (choose_mask rdr) = colour_ok rdr" "surface (choose_mask rdr) = surface rdr"
  "dirty (choose_mask rdr) n = dirty rdr n"
  by (simp_all add: choose_mask_def Let_def) (simp_all add: choice_defs)

lemma choose_mask_ok:
  assumes "modes_ok rdr" "table_ok rdr"
  shows "mask_choice_ok (choose_mask rdr)"
proof -
  have "maskType rdr = 0 \<or> maskType rdr = 1 \<or> maskType rdr = 2" using assms(1) by (simp add: modes_ok_def disj_ac)
  then show ?thesis
    using assms(2) unfolding choose_mask_def mask_choice_ok_def table_ok_def table_8888_def
    by (elim disjE) (simp_all add: Let_def rows_routine_def)
qed

lemma updateComposite_keeps [simp]:
  "modes_ok (updateCompositeDependedRoutines rdr) = modes_ok rdr" "table_ok (updateCompositeDependedRoutines rdr) = table_ok rdr"
  "mask_choice_ok (updateCompositeDependedRoutines rdr) = mask_choice_ok rdr"
  "colour_ok (updateCompositeDependedRoutines rdr) = colour_ok rdr"
  "surface (updateCompositeDependedRoutines rdr) = surface rdr"
  "n < 32 \<Longrightarrow> dirty (updateCompositeDependedRoutines rdr) n \<longleftrightarrow> dirty rdr n \<and> \<not> bit (64 :: 32 word) n \<and> \<not> bit (32 :: 32 word) n"
  by (auto simp: updateComposite_eq)

lemma updateMask_ok:
  assumes "modes_ok rdr" "table_ok rdr"
  shows "mask_choice_ok (updateMaskDependedRoutines rdr)" "rule_choice_ok (updateMaskDependedRoutines rdr)"
    "paint_choice_ok (updateMaskDependedRoutines rdr)"
  using choose_mask_ok [OF assms] assms by (simp_all add: updateMask_eq updateComposite_ok)

lemma updateMask_keeps [simp]:
  "modes_ok (updateMaskDependedRoutines rdr) = modes_ok rdr" "table_ok (updateMaskDependedRoutines rdr) = table_ok rdr"
  "colour_ok (updateMaskDependedRoutines rdr) = colour_ok rdr"
  "surface (updateMaskDependedRoutines rdr) = surface rdr"
  "n < 32 \<Longrightarrow> dirty (updateMaskDependedRoutines rdr) n \<longleftrightarrow>
     dirty rdr n \<and> \<not> bit (64 :: 32 word) n \<and> \<not> bit (32 :: 32 word) n \<and> \<not> bit (128 :: 32 word) n"
  by (auto simp: updateMask_eq)

section \<open>The validation\<close>

lemma updateMask_flags [simp]:
  "imageType (updateMaskDependedRoutines rdr) = imageType rdr"
  "compositeRule (updateMaskDependedRoutines rdr) = compositeRule rdr" "maskType (updateMaskDependedRoutines rdr) = maskType rdr"
  "paintMode (updateMaskDependedRoutines rdr) = paintMode rdr"
  by (simp_all add: updateMaskDependedRoutines_def updateCompositeDependedRoutines_def updatePaintDependedRoutines_def choose_rule_def choose_mask_def unmark_def Let_def)

lemma updateComposite_flags [simp]:
  "imageType (updateCompositeDependedRoutines rdr) = imageType rdr"
  "compositeRule (updateCompositeDependedRoutines rdr) = compositeRule rdr" "maskType (updateCompositeDependedRoutines rdr) = maskType rdr"
  "paintMode (updateCompositeDependedRoutines rdr) = paintMode rdr"
  by (simp_all add: updateCompositeDependedRoutines_def updatePaintDependedRoutines_def choose_rule_def choose_mask_def unmark_def Let_def)

lemma updateColor_keeps [simp]:
  "modes_ok (updateInternalColor rdr) = modes_ok rdr" "table_ok (updateInternalColor rdr) = table_ok rdr"
  "mask_choice_ok (updateInternalColor rdr) = mask_choice_ok rdr" "rule_choice_ok (updateInternalColor rdr) = rule_choice_ok rdr"
  "paint_choice_ok (updateInternalColor rdr) = paint_choice_ok rdr" "surface (updateInternalColor rdr) = surface rdr"
  "colour_ok (updateInternalColor rdr)" "compositeRule (updateInternalColor rdr) = compositeRule rdr"
  "maskType (updateInternalColor rdr) = maskType rdr" "paintMode (updateInternalColor rdr) = paintMode rdr"
  "n < 32 \<Longrightarrow> dirty (updateInternalColor rdr) n \<longleftrightarrow> dirty rdr n \<and> \<not> bit (8 :: 32 word) n"
  by (simp_all add: updateInternalColor_def) (simp_all add: choice_defs dirty_def)

text \<open>Bringing the surface up to date, when it is marked.\<close>

lemma updateSurface_ok:
  assumes "renderer_ok rdr"
  defines "r \<equiv> updateRendererSurface rdr"
  shows "modes_ok r" "table_ok r" "surface r = surface rdr" "dirty rdr 7 \<or> mask_choice_ok r"
    "dirty rdr 7 \<or> dirty rdr 5 \<or> rule_choice_ok r" "dirty rdr 7 \<or> dirty rdr 5 \<or> dirty rdr 6 \<or> paint_choice_ok r"
    "colour_ok r = colour_ok rdr" "\<not> dirty r 4" "dirty r 3 = dirty rdr 3"
    "dirty r 5 \<longrightarrow> dirty rdr 5" "dirty r 6 \<longrightarrow> dirty rdr 6" "dirty r 7 \<longrightarrow> dirty rdr 7"
    "compositeRule r = compositeRule rdr" "maskType r = maskType rdr" "paintMode r = paintMode rdr"
proof -
  define sized where "sized = rdr\<lparr>rdr_width := s_width (surface rdr), rdr_height := s_height (surface rdr),
    imageOffset := s_offset (surface rdr), imageScanlineStride := s_scanlineStride (surface rdr), imagePixelStride := s_pixelStride (surface rdr)\<rparr>"
  have sized: "modes_ok sized = modes_ok rdr" "table_ok sized = table_ok rdr" "mask_choice_ok sized = mask_choice_ok rdr"
    "rule_choice_ok sized = rule_choice_ok rdr" "paint_choice_ok sized = paint_choice_ok rdr" "colour_ok sized = colour_ok rdr"
    "surface sized = surface rdr" "imageType sized = imageType rdr" "compositeRule sized = compositeRule rdr"
    "maskType sized = maskType rdr" "paintMode sized = paintMode rdr" "dirty sized n = dirty rdr n" for n
    by (simp_all add: sized_def choice_defs dirty_def)
  have t: "s_imageType (surface rdr) = 1" using assms by (simp add: renderer_ok_def)
  have "modes_ok r \<and> table_ok r \<and> surface r = surface rdr \<and> (dirty rdr 7 \<or> mask_choice_ok r) \<and>
    (dirty rdr 7 \<or> dirty rdr 5 \<or> rule_choice_ok r) \<and> (dirty rdr 7 \<or> dirty rdr 5 \<or> dirty rdr 6 \<or> paint_choice_ok r) \<and>
    colour_ok r = colour_ok rdr \<and> \<not> dirty r 4 \<and> dirty r 3 = dirty rdr 3 \<and>
    (dirty r 5 \<longrightarrow> dirty rdr 5) \<and> (dirty r 6 \<longrightarrow> dirty rdr 6) \<and> (dirty r 7 \<longrightarrow> dirty rdr 7) \<and>
    compositeRule r = compositeRule rdr \<and> maskType r = maskType rdr \<and> paintMode r = paintMode rdr"
  proof (cases "imageType rdr = 1")
    case True
    then have "r = unmark 16 sized" by (simp add: r_def updateRendererSurface_def Let_def sized_def t)
    then show ?thesis using assms(1) True by (auto simp: sized renderer_ok_def)
  next
    case False
    define m where "m = (if compositeRule sized \<noteq> 2 then mark (1 OR 2) sized else sized)"
    define tabled where "tabled = m\<lparr>imageType := 1, table := table_8888\<rparr>"
    have m: "modes_ok m = modes_ok rdr" "colour_ok m = colour_ok rdr" "surface m = surface rdr"
      "compositeRule m = compositeRule rdr" "maskType m = maskType rdr" "paintMode m = paintMode rdr"
      "\<forall>n\<in>{3,4,5,6,7}. dirty m n = dirty rdr n"
      by (simp_all add: m_def sized)
    have keep: "modes_ok tabled = modes_ok m" "colour_ok tabled = colour_ok m" "table_ok tabled" "surface tabled = surface m"
      "compositeRule tabled = compositeRule m" "maskType tabled = maskType m" "paintMode tabled = paintMode m"
      "dirty tabled n = dirty m n" for n
      unfolding tabled_def by (simp_all add: choice_defs dirty_def)
    have tabled: "modes_ok tabled" "table_ok tabled" "colour_ok tabled = colour_ok rdr" "surface tabled = surface rdr"
      "compositeRule tabled = compositeRule rdr" "maskType tabled = maskType rdr" "paintMode tabled = paintMode rdr"
      "\<forall>n\<in>{3,4,5,6,7}. dirty tabled n = dirty rdr n"
      using m assms(1) by (simp_all add: keep renderer_ok_def)
    have "r = unmark 16 (updateMaskDependedRoutines tabled)"
      using False by (simp add: r_def updateRendererSurface_def updateSurfaceDependedRoutines_def Let_def t m_def tabled_def flip: sized_def)
    then show ?thesis using updateMask_ok [OF tabled(1,2)] tabled by auto
  qed
  then show "modes_ok r" "table_ok r" "surface r = surface rdr" "dirty rdr 7 \<or> mask_choice_ok r"
    "dirty rdr 7 \<or> dirty rdr 5 \<or> rule_choice_ok r" "dirty rdr 7 \<or> dirty rdr 5 \<or> dirty rdr 6 \<or> paint_choice_ok r"
    "colour_ok r = colour_ok rdr" "\<not> dirty r 4" "dirty r 3 = dirty rdr 3"
    "dirty r 5 \<longrightarrow> dirty rdr 5" "dirty r 6 \<longrightarrow> dirty rdr 6" "dirty r 7 \<longrightarrow> dirty rdr 7"
    "compositeRule r = compositeRule rdr" "maskType r = maskType rdr" "paintMode r = paintMode rdr"
    by blast+
qed

text \<open>Everything that drawing uses is up to date.\<close>

definition validated :: "Renderer \<Rightarrow> bool" where
  "validated rdr = (modes_ok rdr \<and> table_ok rdr \<and> s_imageType (surface rdr) = TYPE_INT_ARGB_PRE \<and> mask_choice_ok rdr \<and>
     rule_choice_ok rdr \<and> paint_choice_ok rdr \<and> colour_ok rdr \<and> (\<forall>n\<in>{3,4,5,6,7}. \<not> dirty rdr n))"

definition same_modes :: "Renderer \<Rightarrow> Renderer \<Rightarrow> bool" where
  "same_modes r r' = (compositeRule r' = compositeRule r \<and> maskType r' = maskType r \<and> paintMode r' = paintMode r \<and> surface r' = surface r)"

lemma validated_ok: "validated rdr \<Longrightarrow> renderer_ok rdr"
  by (auto simp: validated_def renderer_ok_def)

lemma validate_ok:
  assumes "renderer_ok rdr"
  shows "validated (VALIDATE_BLITTING rdr) \<and> same_modes rdr (VALIDATE_BLITTING rdr)"
proof -
  define A where "A = (if dirty rdr 4 then updateRendererSurface rdr else rdr)"
  define B where "B = (if dirty rdr 3 then updateInternalColor A else A)"
  have A: "modes_ok A" "table_ok A" "surface A = surface rdr" "dirty rdr 7 \<or> mask_choice_ok A"
    "dirty rdr 7 \<or> dirty rdr 5 \<or> rule_choice_ok A" "dirty rdr 7 \<or> dirty rdr 5 \<or> dirty rdr 6 \<or> paint_choice_ok A"
    "colour_ok A = colour_ok rdr" "\<not> dirty A 4" "dirty A 3 = dirty rdr 3"
    "dirty A 5 \<longrightarrow> dirty rdr 5" "dirty A 6 \<longrightarrow> dirty rdr 6" "dirty A 7 \<longrightarrow> dirty rdr 7"
    "compositeRule A = compositeRule rdr" "maskType A = maskType rdr" "paintMode A = paintMode rdr"
    using updateSurface_ok [OF assms] assms unfolding A_def by (auto simp: renderer_ok_def)
  have B: "modes_ok B" "table_ok B" "surface B = surface rdr" "dirty rdr 7 \<or> mask_choice_ok B"
    "dirty rdr 7 \<or> dirty rdr 5 \<or> rule_choice_ok B" "dirty rdr 7 \<or> dirty rdr 5 \<or> dirty rdr 6 \<or> paint_choice_ok B"
    "colour_ok B" "\<not> dirty B 4" "\<not> dirty B 3" "dirty B 5 \<longrightarrow> dirty rdr 5" "dirty B 6 \<longrightarrow> dirty rdr 6" "dirty B 7 \<longrightarrow> dirty rdr 7"
    "compositeRule B = compositeRule rdr" "maskType B = maskType rdr" "paintMode B = paintMode rdr"
    using A assms unfolding B_def by (auto simp: renderer_ok_def)
  have t: "s_imageType (surface rdr) = 1" using assms by (simp add: renderer_ok_def)
  have V: "VALIDATE_BLITTING rdr = (if dirty rdr 7 then updateMaskDependedRoutines B
      else if dirty rdr 5 then updateCompositeDependedRoutines B
      else if dirty rdr 6 then updatePaintDependedRoutines B else B)"
    by (simp add: VALIDATE_BLITTING_def Let_def B_def A_def)
  consider "dirty rdr 7" | "\<not> dirty rdr 7" "dirty rdr 5" | "\<not> dirty rdr 7" "\<not> dirty rdr 5" "dirty rdr 6" |
    "\<not> dirty rdr 7" "\<not> dirty rdr 5" "\<not> dirty rdr 6" by blast
  then show ?thesis
  proof cases
    case 1
    then show ?thesis using B updateMask_ok [OF B(1,2)] t by (simp add: V validated_def same_modes_def)
  next
    case 2
    then show ?thesis using B updateComposite_ok [OF B(1,2)] t by (simp add: V validated_def same_modes_def)
  next
    case 3
    then show ?thesis using B updatePaint_ok [OF B(1)] t by (simp add: V validated_def same_modes_def)
  next
    case 4
    then show ?thesis using B t by (simp add: V validated_def same_modes_def)
  qed
qed

section \<open>Drawing does not touch the modes\<close>

text \<open>What the invariant reads, and the surface.\<close>

definition same_state :: "Renderer \<Rightarrow> Renderer \<Rightarrow> bool" where
  "same_state r r' =
     ((compositeRule r', maskType r', paintMode r', surface r', imageType r', table r', choice r') =
      (compositeRule r, maskType r, paintMode r, surface r, imageType r, table r, choice r) \<and>
      (emitRows r', emitLine r', genPaint r', rendererState r') = (emitRows r, emitLine r, genPaint r, rendererState r) \<and>
      (cred r', cgreen r', cblue r', calpha r') = (cred r, cgreen r, cblue r, calpha r) \<and>
      (ured r', ugreen r', ublue r', ualpha r') = (ured r, ugreen r, ublue r, ualpha r))"

lemma same_state_refl [simp]: "same_state r r"
  by (simp add: same_state_def)

lemma same_state_trans [trans]: "same_state r r' \<Longrightarrow> same_state r' r'' \<Longrightarrow> same_state r r''"
  by (simp add: same_state_def)

lemma same_state_ok: "same_state r r' \<Longrightarrow> renderer_ok r' = renderer_ok r"
  by (simp add: same_state_def renderer_ok_def choice_defs dirty_def)

lemma same_state_modes: "same_state r r' \<Longrightarrow> same_modes r r'"
  by (simp add: same_state_def same_modes_def)

text \<open>Updates of the other fields do not matter.\<close>

lemma same_state_updates [simp]:
  "same_state r (r'\<lparr>rdr_data := px\<rparr>) = same_state r r'" "same_state r (r'\<lparr>rowAAInt := row\<rparr>) = same_state r r'"
  "same_state r (r'\<lparr>paint := p\<rparr>) = same_state r r'" "same_state r (r'\<lparr>currX := i\<rparr>) = same_state r r'"
  "same_state r (r'\<lparr>currY := i\<rparr>) = same_state r r'" "same_state r (r'\<lparr>currImageOffset := i\<rparr>) = same_state r r'"
  "same_state r (r'\<lparr>rowNum := i\<rparr>) = same_state r r'" "same_state r (r'\<lparr>maskOffset := i\<rparr>) = same_state r r'"
  "same_state r (r'\<lparr>minTouched := i\<rparr>) = same_state r r'" "same_state r (r'\<lparr>maxTouched := i\<rparr>) = same_state r r'"
  "same_state r (r'\<lparr>alphaWidth := i\<rparr>) = same_state r r'" "same_state r (r'\<lparr>imageScanlineStride := i\<rparr>) = same_state r r'"
  "same_state r (r'\<lparr>imagePixelStride := i\<rparr>) = same_state r r'" "same_state r (r'\<lparr>el_lfrac := i\<rparr>) = same_state r r'"
  "same_state r (r'\<lparr>el_rfrac := i\<rparr>) = same_state r r'" "same_state r (r'\<lparr>alphaMap := a\<rparr>) = same_state r r'"
  "same_state r (r'\<lparr>rectX := i\<rparr>) = same_state r r'" "same_state r (r'\<lparr>rectY := i\<rparr>) = same_state r r'"
  "same_state (r\<lparr>rdr_data := px\<rparr>) r' = same_state r r'" "same_state (r\<lparr>rowAAInt := row\<rparr>) r' = same_state r r'"
  "same_state (r\<lparr>paint := p\<rparr>) r' = same_state r r'" "same_state (r\<lparr>currX := i\<rparr>) r' = same_state r r'"
  "same_state (r\<lparr>currY := i\<rparr>) r' = same_state r r'" "same_state (r\<lparr>currImageOffset := i\<rparr>) r' = same_state r r'"
  "same_state (r\<lparr>rowNum := i\<rparr>) r' = same_state r r'" "same_state (r\<lparr>maskOffset := i\<rparr>) r' = same_state r r'"
  "same_state (r\<lparr>minTouched := i\<rparr>) r' = same_state r r'" "same_state (r\<lparr>maxTouched := i\<rparr>) r' = same_state r r'"
  "same_state (r\<lparr>alphaWidth := i\<rparr>) r' = same_state r r'" "same_state (r\<lparr>imageScanlineStride := i\<rparr>) r' = same_state r r'"
  "same_state (r\<lparr>imagePixelStride := i\<rparr>) r' = same_state r r'" "same_state (r\<lparr>el_lfrac := i\<rparr>) r' = same_state r r'"
  "same_state (r\<lparr>el_rfrac := i\<rparr>) r' = same_state r r'" "same_state (r\<lparr>alphaMap := a\<rparr>) r' = same_state r r'"
  "same_state (r\<lparr>rectX := i\<rparr>) r' = same_state r r'" "same_state (r\<lparr>rectY := i\<rparr>) r' = same_state r r'"
  by (simp_all add: same_state_def)

lemma aa_rows_same: "aa_rows r n body = Some r' \<Longrightarrow> same_state r r'"
  by (auto simp: aa_rows_def bind_eq_Some_conv same_state_def)

lemma mask_rows_same: "mask_rows r s n body = Some r' \<Longrightarrow> same_state r r'"
  by (auto simp: mask_rows_def bind_eq_Some_conv same_state_def)

lemma emit_rows_same: "emit_rows r n l w rf a b c = Some r' \<Longrightarrow> same_state r r'"
  by (auto simp: emit_rows_def bind_eq_Some_conv same_state_def)

lemma lcd_same: "blitSrcOverLCDMask8888_pre g ig r n = Some r' \<Longrightarrow> same_state r r'"
  by (auto simp: blitSrcOverLCDMask8888_pre_def bind_eq_Some_conv same_state_def)

lemma clear_same: "clearRect8888_any r x y w h = Some r' \<Longrightarrow> same_state r r'"
  by (auto simp: clearRect8888_any_def Let_def bind_eq_Some_conv same_state_def)

lemma run_rows_same: "run_rows gamma r n = Some r' \<Longrightarrow> same_state r r'"
  by (auto simp: run_rows_def blitSrc8888_pre_def blitPTSrc8888_pre_def blitSrcOver8888_pre_def blitPTSrcOver8888_pre_def
      blitSrcMask8888_pre_def blitPTSrcMask8888_pre_def blitSrcOverMask8888_pre_def blitPTSrcOverMask8888_pre_def
      split: option.splits blit.splits dest: aa_rows_same mask_rows_same lcd_same)

lemma run_line_same: "run_line r n fr = Some r' \<Longrightarrow> same_state r r'"
  by (auto simp: run_line_def emitLineSource8888_pre_def emitLineSourceOver8888_pre_def emitLinePTSource8888_pre_def
      emitLinePTSourceOver8888_pre_def Let_def split: option.splits emit_line.splits if_splits dest: emit_rows_same)

lemma generate_same: "generate gen r n = Some r' \<Longrightarrow> same_state r r'"
  by (auto simp: generate_def bind_eq_Some_conv split: option.splits)

lemma paint_line_same: "paint_line gen n fr r = Some r' \<Longrightarrow> same_state r r'"
  by (auto simp: paint_line_def bind_eq_Some_conv dest: generate_same run_line_same intro: same_state_trans)

lemma advance_same [simp]:
  "same_state r (advance x n r') = same_state r r'" "same_state (advance x n r) r' = same_state r r'"
  by (simp_all add: advance_def)

lemma full_lines_same: "full_lines gen x rows r = Some r' \<Longrightarrow> same_state r r'"
proof (induction gen x rows r rule: full_lines.induct)
  case (1 gen x rows r)
  show ?case
  proof (cases "rows > 0")
    case True
    with 1(2) obtain r1 where r1: "paint_line gen (min rows 8) 0x10000 r = Some r1"
      and rest: "full_lines gen x (rows - min rows 8) (advance x (min rows 8) r1) = Some r'"
      by (auto simp: full_lines.simps [of gen x rows r] bind_eq_Some_conv)
    then show ?thesis
      using 1(1) [OF True r1 rest] paint_line_same [OF r1] by (auto intro: same_state_trans)
  next
    case False
    with 1(2) show ?thesis by (simp add: full_lines.simps [of gen x rows r])
  qed
qed

lemma same_ok: "same_state r r' \<Longrightarrow> renderer_ok r \<Longrightarrow> renderer_ok r'"
  by (simp add: same_state_ok)

text \<open>A body of an operation leaves a good renderer with the modes it was given.\<close>

definition keeps :: "(Renderer \<Rightarrow> (Renderer \<times> bool) option) \<Rightarrow> bool" where
  "keeps body = (\<forall>r r' e. renderer_ok r \<longrightarrow> body r = Some (r', e) \<longrightarrow> renderer_ok r')"

lemma with_surface_ok:
  assumes "keeps body" "renderer_ok r" "with_surface r array locked body = Some (r', e)"
  shows "renderer_ok r'"
proof -
  have d: "renderer_ok (r\<lparr>rdr_data := px\<rparr>)" for px
    using assms(2) same_ok [of r "r\<lparr>rdr_data := px\<rparr>"] by simp
  have k: "renderer_ok r1" if "body (r\<lparr>rdr_data := px\<rparr>) = Some (r1, e1)" for px r1 e1
    using assms(1) d that unfolding keeps_def by blast
  from assms(3) obtain a where "surface_acquire (surface r) array locked = Some a"
    by (auto simp: with_surface_def bind_eq_Some_conv)
  with assms(2,3) show ?thesis
    by (cases a) (auto simp: with_surface_def bind_eq_Some_conv dest: k)
qed

lemma invalidate_ok: "renderer_ok r \<Longrightarrow> renderer_ok (INVALIDATE_RENDERER_SURFACE r)"
  by (auto simp: INVALIDATE_RENDERER_SURFACE_def renderer_ok_def)

lemma validated_surface: "renderer_ok r \<Longrightarrow> renderer_ok (VALIDATE_BLITTING (INVALIDATE_RENDERER_SURFACE r))"
  using validate_ok [OF invalidate_ok] validated_ok by blast

lemma fill_lines_same:
  assumes "fill_lines gen b r = Some r'"
  shows "same_state (VALIDATE_BLITTING (INVALIDATE_RENDERER_SURFACE r)) r'"
proof -
  define v where "v = VALIDATE_BLITTING (INVALIDATE_RENDERER_SURFACE r)"
  have "same_state v r'"
    using assms unfolding fill_lines_def Let_def v_def [symmetric]
    by (auto simp: bind_eq_Some_conv split: if_splits dest!: full_lines_same paint_line_same)
       (blast intro: same_state_trans)+
  then show ?thesis by (simp add: v_def)
qed

lemma drawn_ok: "same_state (VALIDATE_BLITTING (INVALIDATE_RENDERER_SURFACE r)) r' \<Longrightarrow> renderer_ok r \<Longrightarrow> renderer_ok r'"
  using validated_surface same_ok by blast

lemma alpha_row_same:
  assumes "alpha_row_body gen gamma alphas deltas y x0 x1 row r = Some (r', e)"
  shows "same_state (VALIDATE_BLITTING (INVALIDATE_RENDERER_SURFACE r)) r'"
proof -
  define v where "v = VALIDATE_BLITTING (INVALIDATE_RENDERER_SURFACE r)"
  have "same_state v r'"
    using assms unfolding alpha_row_body_def Let_def v_def [symmetric]
    by (auto simp: bind_eq_Some_conv split: option.splits if_splits dest!: generate_same run_rows_same)
       (blast intro: same_state_trans)+
  then show ?thesis by (simp add: v_def)
qed

lemma alpha_row_keeps:
  assumes "emitAndClearAlphaRowImpl gen gamma array locked alphas deltas r y x0 x1 row = Some (r', e)" "renderer_ok r"
  shows "renderer_ok r'"
proof (rule with_surface_ok)
  show "keeps (alpha_row_body gen gamma alphas deltas y x0 x1 row)"
    unfolding keeps_def by (blast dest: alpha_row_same drawn_ok)
  show "with_surface r array locked (alpha_row_body gen gamma alphas deltas y x0 x1 row) = Some (r', e)"
    using assms(1) by (simp add: emitAndClearAlphaRowImpl_def)
qed (rule assms(2))

lemma setMask_ok:
  assumes "renderer_ok r" "type \<in> {0, 1, 2}"
  shows "renderer_ok (renderer_setMask r type bytes w h)"
proof -
  let ?r = "r\<lparr>maskType := type, mask_byteData := bytes, mask_width := w, mask_height := h\<rparr>"
  have k: "table_ok ?r = table_ok r" "colour_ok ?r = colour_ok r" "dirty ?r n = dirty r n" for n
    by (simp_all add: table_ok_def colour_ok_def dirty_def)
  have "modes_ok ?r" using assms by (simp add: renderer_ok_def modes_ok_def)
  then show ?thesis using assms(1) by (auto simp: renderer_setMask_def renderer_ok_def k)
qed

lemma removeMask_ok:
  assumes "renderer_ok r"
  shows "renderer_ok (renderer_removeMask r)"
proof -
  let ?r = "r\<lparr>maskType := 0, mask_byteData := []\<rparr>"
  have k: "table_ok ?r = table_ok r" "colour_ok ?r = colour_ok r" "dirty ?r n = dirty r n" for n
    by (simp_all add: table_ok_def colour_ok_def dirty_def)
  have "modes_ok ?r" using assms by (simp add: renderer_ok_def modes_ok_def)
  then show ?thesis using assms by (auto simp: renderer_removeMask_def renderer_ok_def k)
qed

lemma mask_row_same: "mask_row gen gamma x mw r = Some r' \<Longrightarrow> same_state r r'"
  unfolding mask_row_def
  by (auto simp: bind_eq_Some_conv dest!: generate_same run_rows_same) (blast intro: same_state_trans)

lemma for_range_same:
  "(\<And>k r r'. f k r = Some r' \<Longrightarrow> same_state r r') \<Longrightarrow> for_range i n f r = Some r' \<Longrightarrow> same_state r r'"
  by (induction n arbitrary: i r) (auto simp: bind_eq_Some_conv, blast intro: same_state_trans)

lemma mask_body_ok:
  assumes "mask_body gen gamma bytes minX minY maxX maxY type x mw mh off r = Some (r', e)" "renderer_ok r" "type \<in> {0, 1, 2}"
  shows "renderer_ok r'"
proof (cases bytes)
  case None
  then show ?thesis using assms by (simp add: mask_body_def)
next
  case (Some bs)
  define v where "v = VALIDATE_BLITTING (INVALIDATE_RENDERER_SURFACE (renderer_setMask r type bs mw mh))"
  have v: "renderer_ok v" unfolding v_def using assms by (intro validated_surface setMask_ok)
  have "\<exists>r1. same_state v r1 \<and> r' = renderer_removeMask r1"
    using assms(1) unfolding mask_body_def Some option.case Let_def v_def [symmetric]
    by (auto simp: bind_eq_Some_conv dest!: for_range_same [rotated] intro: mask_row_same)
  then show ?thesis using v by (auto intro: removeMask_ok same_ok)
qed

lemma mask_keeps:
  assumes "fillAlphaMask gen gamma array locked bytes r minX minY maxX maxY type x mw mh off = Some (r', e)" "renderer_ok r"
    "type \<in> {0, 1, 2}"
  shows "renderer_ok r'"
proof (cases "maxX \<ge> minX \<and> maxY \<ge> minY")
  case True
  then have "with_surface r array locked (mask_body gen gamma bytes minX minY maxX maxY type x mw mh off) = Some (r', e)"
    using assms(1) by (simp add: fillAlphaMask_def)
  then show ?thesis
    using with_surface_ok [OF _ assms(2)] mask_body_ok [OF _ _ assms(3)] unfolding keeps_def by blast
next
  case False
  with assms show ?thesis by (auto simp: fillAlphaMask_def)
qed

lemma renderer_clear_same: "renderer_clearRect r x y w h = Some r' \<Longrightarrow> same_state (VALIDATE_BLITTING r) r'"
  by (auto simp: renderer_clearRect_def Let_def split: if_splits dest: clear_same)

section \<open>Everything that Java can call\<close>

text \<open>
  A call of the native methods of \<open>PiscesRenderer\<close> that succeeds, for the modes that are supported.
  Setting a gradient or a texture is \<open>paint_mode\<close>. The two steps \<open>set_mask\<close> and \<open>remove_mask\<close> are parts of
  \<open>fillAlphaMask\<close>: between them a drawing operation runs with a mask.
\<close>

inductive renderer_step :: "generator \<Rightarrow> gamma_tables \<Rightarrow> Renderer \<Rightarrow> Renderer \<Rightarrow> bool" for gen gamma where
  set_clip: "renderer_step gen gamma r (renderer_setClip r x y w h)"
| set_colour: "renderer_step gen gamma r (renderer_setColor r red green blue alpha)"
| composite_rule: "rule \<in> {0, 1, 2} \<Longrightarrow> renderer_step gen gamma r (renderer_setCompositeRule r rule)"
| paint_mode: "mode \<in> {1, 2, 4, 5} \<Longrightarrow> renderer_step gen gamma r (setPaintMode r mode)"
| clear_rect: "clearRectImpl array locked r x y w h = Some (r', e) \<Longrightarrow> renderer_step gen gamma r r'"
| fill_rect: "fillRect gen array locked r x y w h lE rE tE bE = Some (r', e) \<Longrightarrow> renderer_step gen gamma r r'"
| alpha_row: "emitAndClearAlphaRowImpl gen gamma array locked alphas deltas r y x0 x1 row = Some (r', e) \<Longrightarrow>
    renderer_step gen gamma r r'"
| alpha_mask: "fillAlphaMaskImpl gen gamma array locked bytes r x y mw mh off = Some (r', e) \<Longrightarrow> renderer_step gen gamma r r'"
| set_mask: "type \<in> {ALPHA_MASK, LCD_ALPHA_MASK} \<Longrightarrow> renderer_step gen gamma r (renderer_setMask r type bytes w h)"
| remove_mask: "renderer_step gen gamma r (renderer_removeMask r)"
| lcd_mask: "fillLCDAlphaMaskImpl gen gamma array locked bytes r x y mw mh off = Some (r', e) \<Longrightarrow> renderer_step gen gamma r r'"

inductive renderer_reachable :: "generator \<Rightarrow> gamma_tables \<Rightarrow> Surface \<Rightarrow> Renderer \<Rightarrow> bool" for gen gamma s where
  created: "renderer_reachable gen gamma s (renderer_create s)"
| stepped: "renderer_reachable gen gamma s r \<Longrightarrow> renderer_step gen gamma r r' \<Longrightarrow> renderer_reachable gen gamma s r'"

lemma setPaintMode_ok:
  assumes "renderer_ok r" "mode \<in> {0, 1, 2, 4, 5}"
  shows "renderer_ok (setPaintMode r mode)"
proof -
  define p where "p = paintMode r"
  let ?m = "\<lambda>r. r\<lparr>prevPaintMode := p, paintMode := mode\<rparr>"
  have k: "table_ok (?m r) = table_ok r" "mask_choice_ok (?m r) = mask_choice_ok r" "rule_choice_ok (?m r) = rule_choice_ok r"
    "colour_ok (?m r) = colour_ok r" "dirty (?m r) n = dirty r n" "modes_ok r \<Longrightarrow> modes_ok (?m r)" for r n
    using assms(2) by (simp_all add: choice_defs dirty_def)
  have "renderer_ok (?m (mark 64 r))" using assms(1) by (auto simp: renderer_ok_def k)
  then show ?thesis using assms(1) by (simp add: setPaintMode_def p_def)
qed

lemma setColor_ok: "renderer_ok r \<Longrightarrow> renderer_ok (renderer_setColor r red green blue alpha)"
proof -
  assume r: "renderer_ok r"
  let ?m = "\<lambda>r. r\<lparr>ured := red, ugreen := green, ublue := blue, ualpha := alpha\<rparr>"
  have k: "modes_ok (?m r) = modes_ok r" "table_ok (?m r) = table_ok r" "mask_choice_ok (?m r) = mask_choice_ok r"
    "rule_choice_ok (?m r) = rule_choice_ok r" "paint_choice_ok (?m r) = paint_choice_ok r" "dirty (?m r) n = dirty r n" for r n
    by (simp_all add: choice_defs dirty_def)
  have "renderer_ok (?m (mark 8 r))" "renderer_ok (?m (mark (1 OR 2) (mark 8 r)))"
    using r by (auto simp: renderer_ok_def k)
  then show ?thesis
    unfolding renderer_setColor_def using r by (intro setPaintMode_ok) (auto simp: Let_def)
qed

lemma setCompositeRule_ok:
  assumes "renderer_ok r" "rule \<in> {0, 1, 2}"
  shows "renderer_ok (renderer_setCompositeRule r rule)"
proof -
  let ?m = "\<lambda>r. r\<lparr>compositeRule := rule\<rparr>"
  have k: "table_ok (?m r) = table_ok r" "mask_choice_ok (?m r) = mask_choice_ok r" "dirty (?m r) n = dirty r n"
    "modes_ok r \<Longrightarrow> modes_ok (?m r)" for r n
    using assms(2) by (simp_all add: choice_defs dirty_def)
  have "renderer_ok (?m (mark (8 OR 32) r))" "renderer_ok (?m (mark (1 OR 2) (mark (8 OR 32) r)))"
    using assms(1) by (auto simp: renderer_ok_def k)
  then show ?thesis using assms(1) by (auto simp: renderer_setCompositeRule_def Let_def)
qed

lemma setClip_same [simp]: "same_state r (renderer_setClip r x y w h)"
  by (simp add: renderer_setClip_def same_state_def)

lemma clear_keeps:
  assumes "clearRectImpl array locked r x y w h = Some (r', e)" "renderer_ok r"
  shows "renderer_ok r'"
proof (rule with_surface_ok [OF _ assms(2) assms(1) [unfolded clearRectImpl_def]])
  show "keeps (\<lambda>rdr.
       let rdr = INVALIDATE_RENDERER_SURFACE rdr
       in do {
         rdr \<leftarrow> renderer_clearRect (rdr\<lparr>imagePixelStride := 1, imageScanlineStride := s_width (surface rdr)\<rparr>) x y w h;
         Some (rdr, False)
       })"
    unfolding keeps_def Let_def
  proof (intro allI impI)
    fix r r' e
    let ?i = "INVALIDATE_RENDERER_SURFACE r"
    let ?j = "?i\<lparr>imagePixelStride := 1, imageScanlineStride := s_width (surface ?i)\<rparr>"
    assume r: "renderer_ok r" and c: "do { rdr \<leftarrow> renderer_clearRect ?j x y w h; Some (rdr, False) } = Some (r', e)"
    from invalidate_ok [OF r] have "renderer_ok ?j" using same_ok [of ?i ?j] by simp
    from validate_ok [OF this] have "renderer_ok (VALIDATE_BLITTING ?j)" using validated_ok by blast
    with c show "renderer_ok r'" by (auto simp: bind_eq_Some_conv dest!: renderer_clear_same intro: same_ok)
  qed
qed

lemma fill_keeps:
  assumes "fillRect gen array locked r x y w h lE rE tE bE = Some (r', e)" "renderer_ok r"
  shows "renderer_ok r'"
proof -
  have k: "keeps (\<lambda>rdr. do { rdr \<leftarrow> fill_lines gen b rdr; Some (rdr, False) })" for b
    by (auto simp: keeps_def bind_eq_Some_conv dest!: fill_lines_same intro: drawn_ok)
  have "renderer_ok (r\<lparr>rectX := i, rectY := j\<rparr>)" for i j
    using assms(2) same_ok [of r "r\<lparr>rectX := i, rectY := j\<rparr>"] by simp
  then show ?thesis
    using assms(1) unfolding fillRect_def Let_def by (auto split: if_splits intro: with_surface_ok [OF k])
qed

lemma renderer_create_ok: "s_imageType s = 1 \<Longrightarrow> renderer_ok (renderer_create s)"
  by (simp add: renderer_create_def createCommon_def zeroed_def renderer_ok_def modes_ok_def dirty_def)

lemma step_ok: "renderer_step gen gamma r r' \<Longrightarrow> renderer_ok r \<Longrightarrow> renderer_ok r'"
proof (induction rule: renderer_step.induct)
  case set_clip
  then show ?case using same_ok [OF setClip_same] by blast
next
  case set_colour
  then show ?case by (intro setColor_ok)
next
  case composite_rule
  then show ?case by (intro setCompositeRule_ok)
next
  case paint_mode
  then show ?case by (intro setPaintMode_ok) auto
next
  case clear_rect
  then show ?case by (rule clear_keeps)
next
  case fill_rect
  then show ?case by (rule fill_keeps)
next
  case alpha_row
  then show ?case by (rule alpha_row_keeps)
next
  case alpha_mask
  then show ?case unfolding fillAlphaMaskImpl_def Let_def by (rule mask_keeps) simp
next
  case set_mask
  then show ?case by (intro setMask_ok) auto
next
  case remove_mask
  then show ?case by (rule removeMask_ok)
next
  case lcd_mask
  then show ?case unfolding fillLCDAlphaMaskImpl_def Let_def by (rule mask_keeps) simp
qed

lemma reachable_ok:
  assumes "renderer_reachable gen gamma s r" "s_imageType s = 1"
  shows "renderer_ok r"
  using assms by (induction rule: renderer_reachable.induct) (auto intro: renderer_create_ok step_ok)

text \<open>
  C36: the routines are the right ones. However Java has used the renderer before, with a mask or without, once a drawing
  operation has brought it up to date, the routines for rows, lines and the paint are those of the
  table for the composite rule, the mask and the paint set last (a mask is set within a call that fills one, and removed at
  its end), the colour is the one set last (black
  and transparent for \<open>COMPOSITE_CLEAR\<close>), and nothing is left marked, as the code asserts.
\<close>

theorem validated_routines:
  assumes "renderer_reachable gen gamma s r" "s_imageType s = TYPE_INT_ARGB_PRE"
  shows "let v = VALIDATE_BLITTING (INVALIDATE_RENDERER_SURFACE r) in
    emitRows v = rows_routine (compositeRule r) (maskType r) (paintMode r \<noteq> PAINT_FLAT_COLOR) \<and>
    emitLine v = line_routine (compositeRule r) (paintMode r \<noteq> PAINT_FLAT_COLOR) \<and>
    genPaint v = paint_routine (paintMode r) \<and>
    (cred v, cgreen v, cblue v, calpha v) =
      (if compositeRule r = COMPOSITE_CLEAR then (0, 0, 0, 0) else (ured v, ugreen v, ublue v, ualpha v)) \<and>
    \<not> marked v INVALID_BLITTING_MASK"
proof -
  let ?i = "INVALIDATE_RENDERER_SURFACE r"
  have "renderer_ok ?i" using reachable_ok [OF assms] by (rule invalidate_ok)
  from validate_ok [OF this] have "validated (VALIDATE_BLITTING ?i)" "same_modes ?i (VALIDATE_BLITTING ?i)" by auto
  moreover have "compositeRule ?i = compositeRule r" "maskType ?i = maskType r" "paintMode ?i = paintMode r"
    by (simp_all add: INVALIDATE_RENDERER_SURFACE_def)
  ultimately show ?thesis
    by (simp add: Let_def validated_def same_modes_def paint_choice_ok_def colour_ok_def painted_def)
qed

lemma setCompositeRule_fields:
  "compositeRule (renderer_setCompositeRule r rule) = rule" "maskType (renderer_setCompositeRule r rule) = maskType r"
  "paintMode (renderer_setCompositeRule r rule) = paintMode r"
  by (simp_all add: renderer_setCompositeRule_def Let_def)

lemma create_fields: "maskType (renderer_create s) = 0" "paintMode (renderer_create s) = 0"
  by (simp_all add: renderer_create_def createCommon_def)

lemma setMask_fields:
  "compositeRule (renderer_setMask r type bytes w h) = compositeRule r" "maskType (renderer_setMask r type bytes w h) = type"
  "paintMode (renderer_setMask r type bytes w h) = paintMode r"
  by (simp_all add: renderer_setMask_def)

theorem validated_routines_witness:
  "let v = VALIDATE_BLITTING (INVALIDATE_RENDERER_SURFACE (renderer_setMask
     (renderer_setCompositeRule (renderer_create \<lparr>s_width = 2, s_height = 2, s_offset = 0, s_scanlineStride = 2,
        s_pixelStride = 1, s_imageType = 1\<rparr>) COMPOSITE_SRC) ALPHA_MASK [0, 255] 2 1))
   in emitRows v = Some BlitSrcMask8888_pre \<and> emitLine v = Some EmitLineSource8888_pre"
proof -
  let ?s = "\<lparr>s_width = 2, s_height = 2, s_offset = 0, s_scanlineStride = 2, s_pixelStride = 1, s_imageType = 1\<rparr>"
  let ?r = "renderer_setMask (renderer_setCompositeRule (renderer_create ?s) COMPOSITE_SRC) ALPHA_MASK [0, 255] 2 1"
  have "renderer_reachable (\<lambda>_ _ _. None) ([], []) ?s ?r"
    by (rule renderer_reachable.stepped [OF renderer_reachable.stepped [OF renderer_reachable.created renderer_step.composite_rule]
          renderer_step.set_mask]) simp_all
  moreover have "compositeRule ?r = COMPOSITE_SRC" "maskType ?r = ALPHA_MASK" "paintMode ?r = PAINT_FLAT_COLOR"
    by (simp_all add: setCompositeRule_fields create_fields setMask_fields)
  moreover have "rows_routine COMPOSITE_SRC ALPHA_MASK (PAINT_FLAT_COLOR \<noteq> (0 :: int)) = Some BlitSrcMask8888_pre"
    "line_routine COMPOSITE_SRC (PAINT_FLAT_COLOR \<noteq> (0 :: int)) = Some EmitLineSource8888_pre"
    by (simp_all add: rows_routine_def line_routine_def)
  moreover have "s_imageType ?s = TYPE_INT_ARGB_PRE" by simp
  ultimately show ?thesis
    using validated_routines [of "\<lambda>_ _ _. None" "([], [])" ?s ?r] by (simp add: Let_def)
qed

end
