(* ===== verification/PiscesFill.thy ===== *)
theory PiscesFill
  imports PiscesRows PiscesState
begin

text \<open>
  Filling a rectangle: a line stays inside its rows, the rows of a fill stay inside its bounds, and the
  bounds are inside the clip and the rectangle.
\<close>

section \<open>A line stays inside its rows\<close>

text \<open>The pixels outside the first \<open>h\<close> rows of \<open>w\<close> pixels are as before.\<close>

definition same_but :: "int \<Rightarrow> int \<Rightarrow> int \<Rightarrow> nat \<Rightarrow> 32 word list \<Rightarrow> 32 word list \<Rightarrow> bool" where
  "same_but p s w h px px' = (length px' = length px \<and> (\<forall>k. \<not> in_rows p s w h k \<longrightarrow> px' ! k = px ! k))"

lemma same_but_refl [simp]: "same_but p s w h px px"
  by (simp add: same_but_def)

lemma same_but_length: "same_but p s w h px px' \<Longrightarrow> length px' = length px"
  by (simp add: same_but_def)

lemma in_rows_append: "in_rows p s w (a + b) k \<longleftrightarrow> in_rows p s w a k \<or> in_rows (p + int a * s) s w b k"
proof (induction b)
  case (Suc b)
  have "p + int (a + b) * s = p + int a * s + int b * s" by (simp add: algebra_simps)
  with Suc show ?case by (simp only: add_Suc_right in_rows_Suc disj_assoc)
qed simp

lemma same_but_append:
  "same_but p s w a px px' \<Longrightarrow> same_but (p + int a * s) s w b px' px'' \<Longrightarrow> same_but p s w (a + b) px px''"
  by (simp add: same_but_def in_rows_append)

lemma same_but_one: "same_but p s w (Suc 0) px px' \<longleftrightarrow>
    length px' = length px \<and> (\<forall>k. \<not> (p \<le> int k \<and> int k < p + w) \<longrightarrow> px' ! k = px ! k)"
  by (simp add: same_but_def in_rows_def)

text \<open>The effect on one pixel of a line: it changes no other pixel.\<close>

definition one_pixel :: "(int \<Rightarrow> int \<Rightarrow> 32 word list \<Rightarrow> 32 word list option) \<Rightarrow> bool" where
  "one_pixel body = (\<forall>aidx a px. 0 \<le> a \<longrightarrow> a < int (length px) \<longrightarrow> (\<exists>c. body aidx a px = Some (px[nat a := c])))"

lemma one_pixelD:
  "one_pixel body \<Longrightarrow> 0 \<le> a \<Longrightarrow> a < int (length px) \<Longrightarrow> \<exists>c. body aidx a px = Some (px[nat a := c])"
  by (simp add: one_pixel_def)

lemma one_pixel_write [simp]: "one_pixel (\<lambda>aidx a px. write_at px a c)"
  by (auto simp: one_pixel_def write_at_def)

lemma one_pixel_update [simp]: "one_pixel (\<lambda>aidx a px. update_at px a f)"
  by (auto simp: one_pixel_def update_at_def read_at_def write_at_def)

lemma same_but_update:
  assumes "0 \<le> a" "p \<le> a" "a < p + w"
  shows "same_but p s w (Suc 0) px (px[nat a := c])"
proof -
  have "nat a \<noteq> k" if "\<not> (p \<le> int k \<and> int k < p + w)" for k
    using assms that by (metis int_nat_eq)
  then show ?thesis by (simp add: same_but_one)
qed

lemma same_but_trans: "same_but p s w h px px' \<Longrightarrow> same_but p s w h px' px'' \<Longrightarrow> same_but p s w h px px''"
  by (simp add: same_but_def)

lemma emit_while_in:
  assumes "one_pixel body" "0 \<le> p" "p \<le> a" "am \<le> p + w" "p + w \<le> int (length px)"
  shows "returns (emit_while body 1 am a aidx px) (\<lambda>(a', aidx', px'). a' = max a am \<and> same_but p s w (Suc 0) px px')"
  using assms(3,5)
proof (induction "nat (am - a)" arbitrary: a aidx px)
  case 0
  then show ?case by (subst emit_while.simps) simp
next
  case (Suc n)
  then have less: "a < am" by simp
  have "0 \<le> a" "a < int (length px)" using assms Suc.prems less by simp_all
  then obtain c where c: "body aidx a px = Some (px[nat a := c])"
    using one_pixelD [OF assms(1)] by blast
  have "returns (emit_while body 1 am (a + 1) (aidx + 1) (px[nat a := c]))
      (\<lambda>(a', aidx', px'). a' = max (a + 1) am \<and> same_but p s w (Suc 0) (px[nat a := c]) px')"
    using Suc.hyps(2) Suc.prems less by (intro Suc.hyps(1)) auto
  moreover have "same_but p s w (Suc 0) px (px[nat a := c])"
    using assms Suc.prems less by (intro same_but_update) simp_all
  ultimately have "returns (emit_while body 1 am (a + 1) (aidx + 1) (px[nat a := c]))
      (\<lambda>(a', aidx', px'). a' = max a am \<and> same_but p s w (Suc 0) px px')"
    using less by (elim returns_conseq) (auto intro: same_but_trans)
  then show ?case
    using less by (subst emit_while.simps) (simp add: c)
qed

lemma emit_row_in:
  assumes b: "one_pixel left_edge" "one_pixel inner" "one_pixel right_edge" and s: "imagePixelStride rdr = 1"
    and p: "0 \<le> row_start rdr j" "row_start rdr j + alphaWidth rdr \<le> int (length px)"
    and w: "0 \<le> w" "(if l \<noteq> 0 then 1 else 0) + w + (if r \<noteq> 0 then 1 else 0) \<le> alphaWidth rdr"
  shows "returns (emit_row rdr l w r left_edge inner right_edge j px) (same_but (row_start rdr j) t (alphaWidth rdr) (Suc 0) px)"
proof -
  let ?p = "row_start rdr j" and ?W = "alphaWidth rdr" and ?l = "if l \<noteq> 0 then 1 else 0 :: int"
  have "\<exists>px1. (if l \<noteq> 0 then do { px \<leftarrow> left_edge (int j * ?W) ?p px; Some (?p + 1, int j * ?W + 1, px) }
           else Some (?p, int j * ?W, px)) = Some (?p + ?l, int j * ?W + ?l, px1) \<and> same_but ?p t ?W (Suc 0) px px1"
  proof (cases "l \<noteq> 0")
    case True
    then have "?p < int (length px)" using p w by (simp split: if_splits)
    then obtain c where "left_edge (int j * ?W) ?p px = Some (px[nat ?p := c])"
      using one_pixelD [OF b(1) p(1)] by blast
    moreover have "same_but ?p t ?W (Suc 0) px (px[nat ?p := c])"
      using True p w by (intro same_but_update) (simp_all split: if_splits)
    ultimately show ?thesis using True by simp
  qed simp
  then obtain px1 where px1: "(if l \<noteq> 0 then do { px \<leftarrow> left_edge (int j * ?W) ?p px; Some (?p + 1, int j * ?W + 1, px) }
           else Some (?p, int j * ?W, px)) = Some (?p + ?l, int j * ?W + ?l, px1)" "same_but ?p t ?W (Suc 0) px px1" by blast
  have "returns (emit_while inner 1 (?p + ?l + w) (?p + ?l) (int j * ?W + ?l) px1)
      (\<lambda>(a', aidx', px'). a' = max (?p + ?l) (?p + ?l + w) \<and> same_but ?p t ?W (Suc 0) px1 px')"
    using p w same_but_length [OF px1(2)] by (intro emit_while_in [OF b(2)]) (auto split: if_splits)
  then obtain aidx2 px2 where px2: "emit_while inner 1 (?p + ?l + w) (?p + ?l) (int j * ?W + ?l) px1 = Some (?p + ?l + w, aidx2, px2)"
      "same_but ?p t ?W (Suc 0) px1 px2"
    using w(1) by (auto simp: returns_iff max_def)
  have px12: "same_but ?p t ?W (Suc 0) px px2" using px1(2) px2(2) by (rule same_but_trans)
  have "returns (if r \<noteq> 0 then right_edge aidx2 (?p + ?l + w) px2 else Some px2) (same_but ?p t ?W (Suc 0) px)"
  proof (cases "r \<noteq> 0")
    case True
    then have "0 \<le> ?p + ?l + w" "?p + ?l + w < int (length px2)"
      using p w same_but_length [OF px12] by (simp_all split: if_splits)
    then obtain c where "right_edge aidx2 (?p + ?l + w) px2 = Some (px2[nat (?p + ?l + w) := c])"
      using one_pixelD [OF b(3)] by blast
    moreover have "same_but ?p t ?W (Suc 0) px2 (px2[nat (?p + ?l + w) := c])"
      using True p w by (intro same_but_update) (simp_all split: if_splits)
    ultimately show ?thesis using True same_but_trans [OF px12] by simp
  qed (simp add: px12)
  then show ?thesis by (simp only: emit_row_def Let_def s px1(1) px2(1) Option.bind.simps prod.case)
qed

lemma emit_rows_in:
  assumes b: "one_pixel left_edge" "one_pixel inner" "one_pixel right_edge" and s: "imagePixelStride rdr = 1"
    and p: "\<forall>j<n. 0 \<le> row_start rdr j \<and> row_start rdr j + alphaWidth rdr \<le> int (length (rdr_data rdr))"
    and w: "0 \<le> w" "(if l \<noteq> 0 then 1 else 0) + w + (if r \<noteq> 0 then 1 else 0) \<le> alphaWidth rdr"
  shows "\<exists>px. emit_rows rdr (int n) l w r left_edge inner right_edge = Some (rdr\<lparr>rdr_data := px\<rparr>) \<and>
    same_but (row_start rdr 0) (imageScanlineStride rdr) (alphaWidth rdr) n (rdr_data rdr) px"
proof -
  let ?P = "row_start rdr 0" and ?S = "imageScanlineStride rdr" and ?W = "alphaWidth rdr"
  have st: "row_start rdr j = ?P + int j * ?S" for j by (simp add: row_start_def algebra_simps)
  have "returns (for_range 0 n (emit_row rdr l w r left_edge inner right_edge) (rdr_data rdr))
     (\<lambda>px. same_but ?P ?S ?W (0 + n) (rdr_data rdr) px)"
  proof (rule for_range_rule)
    show "same_but ?P ?S ?W 0 (rdr_data rdr) (rdr_data rdr)" by simp
    show "returns (emit_row rdr l w r left_edge inner right_edge j px) (same_but ?P ?S ?W (Suc j) (rdr_data rdr))"
      if "0 \<le> j" "j < 0 + n" "same_but ?P ?S ?W j (rdr_data rdr) px" for j px
    proof -
      have pj: "0 \<le> row_start rdr j" "row_start rdr j + ?W \<le> int (length px)"
        using that(2) p same_but_length [OF that(3)] by simp_all
      from emit_row_in [OF b s pj w, of ?S]
      have "returns (emit_row rdr l w r left_edge inner right_edge j px) (same_but ?P ?S ?W (j + Suc 0) (rdr_data rdr))"
        by (rule returns_conseq) (simp only: st [of j], rule same_but_append [OF that(3)])
      then show ?thesis by simp
    qed
  qed
  then show ?thesis by (auto simp: emit_rows_def returns_iff)
qed

section \<open>Filling a rectangle with a flat colour\<close>

lemma flat_line_in:
  assumes e: "emitLine rdr \<in> {Some EmitLineSource8888_pre, Some EmitLineSourceOver8888_pre}" and s: "imagePixelStride rdr = 1"
    and p: "\<forall>j<n. 0 \<le> row_start rdr j \<and> row_start rdr j + alphaWidth rdr \<le> int (length (rdr_data rdr))"
    and w: "(if el_lfrac rdr \<noteq> 0 then 1 else 0) + (if el_rfrac rdr \<noteq> 0 then 1 else 0) \<le> alphaWidth rdr"
  shows "\<exists>px. run_line rdr (int n) fr = Some (rdr\<lparr>rdr_data := px\<rparr>) \<and>
    same_but (row_start rdr 0) (imageScanlineStride rdr) (alphaWidth rdr) n (rdr_data rdr) px"
proof -
  have f: "el_lfrac rdr * fr div 65536 \<noteq> 0 \<Longrightarrow> el_lfrac rdr \<noteq> 0" "el_rfrac rdr * fr div 65536 \<noteq> 0 \<Longrightarrow> el_rfrac rdr \<noteq> 0"
    by auto
  show ?thesis
    using e
  proof (elim insertE emptyE)
    assume "emitLine rdr = Some EmitLineSource8888_pre"
    then have eq: "run_line rdr (int n) fr = emitLineSource8888_pre rdr (int n) fr" by (simp add: run_line_def)
    show ?thesis
      unfolding eq emitLineSource8888_pre_def Let_def
      using w f by (cases "fr = 65536") (simp_all only: if_True if_False simp_thms, (rule emit_rows_in; (simp add: inner_width_def s p split: if_splits)?)+)
  next
    assume "emitLine rdr = Some EmitLineSourceOver8888_pre"
    then have eq: "run_line rdr (int n) fr = emitLineSourceOver8888_pre rdr (int n) fr" by (simp add: run_line_def)
    show ?thesis
      unfolding eq emitLineSourceOver8888_pre_def Let_def
      using w by (cases "calpha rdr * fr div 65536 = 255") (simp_all only: if_True if_False simp_thms, (rule emit_rows_in; (simp add: inner_width_def s p split: if_splits)?)+)
  qed
qed

text \<open>The renderer after \<open>n\<close> rows of a fill.\<close>

definition filling :: "int \<Rightarrow> int \<Rightarrow> int \<Rightarrow> int \<Rightarrow> 32 word list \<Rightarrow> nat \<Rightarrow> Renderer \<Rightarrow> bool" where
  "filling W x0 aw y0 px0 n r =
     (emitLine r \<in> {Some EmitLineSource8888_pre, Some EmitLineSourceOver8888_pre} \<and> genPaint r = None \<and>
      imagePixelStride r = 1 \<and> imageScanlineStride r = W \<and> s_width (surface r) = W \<and> alphaWidth r = aw \<and> minTouched r = x0 \<and>
      currY r = y0 + int n \<and> currImageOffset r = (y0 + int n) * W \<and>
      (if el_lfrac r \<noteq> 0 then 1 else 0) + (if el_rfrac r \<noteq> 0 then 1 else 0) \<le> aw \<and>
      same_but (y0 * W + x0) W aw n px0 (rdr_data r))"

lemma filling_line:
  assumes r: "filling W x0 aw y0 px0 n r" and b: "0 \<le> x0" "x0 + aw \<le> W" "0 \<le> y0" "0 \<le> aw"
    and l: "(y0 + int (n + m)) * W \<le> int (length px0)"
  shows "\<exists>px. paint_line gen (int m) fr r = Some (r\<lparr>rdr_data := px\<rparr>) \<and>
    filling W x0 aw y0 px0 (n + m) (advance x (int m) (r\<lparr>rdr_data := px\<rparr>))"
proof -
  have W: "0 \<le> W" using b by simp
  have len: "length (rdr_data r) = length px0" using r same_but_length by (auto simp: filling_def)
  have st: "row_start r j = (y0 + int n + int j) * W + x0" for j
    using r by (simp add: row_start_def filling_def algebra_simps)
  have p: "\<forall>j<m. 0 \<le> row_start r j \<and> row_start r j + alphaWidth r \<le> int (length (rdr_data r))"
  proof (intro allI impI)
    fix j assume j: "j < m"
    have "(y0 + int n + int j + 1) * W \<le> (y0 + int (n + m)) * W" using j W by (intro mult_right_mono) simp_all
    then have "(y0 + int n + int j) * W + W \<le> int (length px0)" using l by (simp add: algebra_simps)
    moreover have "0 \<le> (y0 + int n + int j) * W" using b W by simp
    moreover have "alphaWidth r = aw" using r by (simp add: filling_def)
    ultimately show "0 \<le> row_start r j \<and> row_start r j + alphaWidth r \<le> int (length (rdr_data r))"
      unfolding st len using b by linarith
  qed
  obtain px where px: "run_line r (int m) fr = Some (r\<lparr>rdr_data := px\<rparr>)"
      "same_but (row_start r 0) (imageScanlineStride r) (alphaWidth r) m (rdr_data r) px"
    using flat_line_in [OF _ _ p] r by (auto simp: filling_def)
  then have "same_but (y0 * W + x0 + int n * W) W aw m (rdr_data r) px"
    using r by (simp add: st filling_def algebra_simps)
  then have "same_but (y0 * W + x0) W aw (n + m) px0 px"
    using r same_but_append by (auto simp: filling_def)
  then have "filling W x0 aw y0 px0 (n + m) (advance x (int m) (r\<lparr>rdr_data := px\<rparr>))"
    using r by (simp add: filling_def advance_def algebra_simps)
  moreover have "paint_line gen (int m) fr r = Some (r\<lparr>rdr_data := px\<rparr>)"
    using r px(1) by (simp add: paint_line_def generate_def filling_def)
  ultimately show ?thesis by blast
qed

lemma filling_full:
  assumes "filling W x0 aw y0 px0 n r" "0 \<le> x0" "x0 + aw \<le> W" "0 \<le> y0" "0 \<le> aw" "0 \<le> rows"
    "(y0 + int n + rows) * W \<le> int (length px0)"
  shows "\<exists>r'. full_lines gen x rows r = Some r' \<and> filling W x0 aw y0 px0 (n + nat rows) r'"
  using assms
proof (induction gen x rows r arbitrary: n rule: full_lines.induct)
  case (1 gen x rows r)
  note b = "1.prems"(2-5)
  show ?case
  proof (cases "rows > 0")
    case True
    define m where "m = nat (min rows 8)"
    have m: "min rows 8 = int m" using True by (simp add: m_def)
    have mr: "int m \<le> rows" using m by linarith
    have W: "0 \<le> W" using b by simp
    have "(y0 + int (n + m)) * W \<le> (y0 + int n + rows) * W" using mr W by (intro mult_right_mono) simp_all
    then have "(y0 + int (n + m)) * W \<le> int (length px0)" using "1.prems"(7) by linarith
    from filling_line [OF "1.prems"(1) b this, of gen 65536 x] obtain px where
      px: "paint_line gen (int m) 65536 r = Some (r\<lparr>rdr_data := px\<rparr>)"
        "filling W x0 aw y0 px0 (n + m) (advance x (int m) (r\<lparr>rdr_data := px\<rparr>))" by blast
    have "\<exists>r'. full_lines gen x (rows - min rows 8) (advance x (min rows 8) (r\<lparr>rdr_data := px\<rparr>)) = Some r' \<and>
        filling W x0 aw y0 px0 (n + m + nat (rows - min rows 8)) r'"
    proof (rule "1.IH" [OF True px(1) [folded m] px(2) [folded m] b])
      show "0 \<le> rows - min rows 8" by simp
      show "(y0 + int (n + m) + (rows - min rows 8)) * W \<le> int (length px0)"
        using "1.prems"(7) by (simp add: m algebra_simps)
    qed
    moreover have e: "n + m + nat (rows - min rows 8) = n + nat rows" using m mr by simp
    ultimately have "\<exists>r'. full_lines gen x (rows - min rows 8) (advance x (min rows 8) (r\<lparr>rdr_data := px\<rparr>)) = Some r' \<and>
        filling W x0 aw y0 px0 (n + nat rows) r'" by (simp only: e)
    then show ?thesis
      using True px(1) [folded m] by (simp add: full_lines.simps [of gen x rows r])
  next
    case False
    then have "rows = 0" using "1.prems"(6) by simp
    then show ?thesis using "1.prems"(1) by (simp add: full_lines.simps [of gen x 0 r])
  qed
qed

lemma updates_data [simp]:
  "rdr_data (unmark f r) = rdr_data r" "rdr_data (mark f r) = rdr_data r"
  "rdr_data (choose_rule r) = rdr_data r" "rdr_data (choose_mask r) = rdr_data r"
  "rdr_data (updatePaintDependedRoutines r) = rdr_data r" "rdr_data (updateCompositeDependedRoutines r) = rdr_data r"
  "rdr_data (updateMaskDependedRoutines r) = rdr_data r" "rdr_data (updateInternalColor r) = rdr_data r"
proof -
  show k: "rdr_data (unmark f r) = rdr_data r" "rdr_data (mark f r) = rdr_data r"
    "rdr_data (choose_rule r) = rdr_data r" "rdr_data (choose_mask r) = rdr_data r" for f r
    by (simp_all add: unmark_def mark_def choose_rule_def choose_mask_def Let_def)
  show p: "rdr_data (updatePaintDependedRoutines r) = rdr_data r" for r
    by (simp add: updatePaintDependedRoutines_def Let_def k)
  show c: "rdr_data (updateCompositeDependedRoutines r) = rdr_data r" for r
    by (simp add: updateCompositeDependedRoutines_def k p)
  show "rdr_data (updateMaskDependedRoutines r) = rdr_data r"
    by (simp add: updateMaskDependedRoutines_def k c)
  show "rdr_data (updateInternalColor r) = rdr_data r"
    by (simp add: updateInternalColor_def k)
qed

lemma updateSurface_data [simp]:
  "rdr_data (updateRendererSurface r) = rdr_data r" "surface (updateRendererSurface r) = surface r"
  by (simp_all add: updateRendererSurface_def updateSurfaceDependedRoutines_def Let_def)

lemma validate_data [simp]:
  "rdr_data (VALIDATE_BLITTING r) = rdr_data r" "surface (VALIDATE_BLITTING r) = surface r"
  by (simp_all add: VALIDATE_BLITTING_def Let_def)

lemma invalidate_data [simp]:
  "rdr_data (INVALIDATE_RENDERER_SURFACE r) = rdr_data r" "surface (INVALIDATE_RENDERER_SURFACE r) = surface r"
  by (simp_all add: INVALIDATE_RENDERER_SURFACE_def mark_def)

lemma single_bounds_from [simp]:
  "x_from (single_bounds b) = x_from b" "y_from (single_bounds b) = y_from b" "x_to (single_bounds b) = x_to b" "y_to (single_bounds b) = y_to b"
  by (simp_all add: single_bounds_def Let_def)

lemma single_bounds_cases:
  "y_from b = y_to b \<Longrightarrow> bfrac (single_bounds b) = 0 \<or> tfrac (single_bounds b) = 0"
  "x_from b = x_to b \<Longrightarrow> rfrac (single_bounds b) = 0"
  "y_from b = y_to b \<Longrightarrow> bfrac (single_bounds b) = 0"
  by (auto simp: single_bounds_def Let_def)

lemma same_but_more:
  assumes "same_but p s w a px px'" "a \<le> b"
  shows "same_but p s w b px px'"
  using assms in_rows_append [of p s w a "b - a"] by (simp add: same_but_def)

lemma fill_lines_in:
  assumes ok: "renderer_ok r" "paintMode r = PAINT_FLAT_COLOR" and ne: "x_from b \<le> x_to b" "y_from b \<le> y_to b"
    and b: "0 \<le> x_from b" "x_to b < s_width (surface r)" "0 \<le> y_from b"
    and l: "(y_to b + 1) * s_width (surface r) \<le> int (length (rdr_data r))"
  shows "\<exists>r'. fill_lines gen b r = Some r' \<and>
    same_but (y_from b * s_width (surface r) + x_from b) (s_width (surface r)) (x_to b - x_from b + 1)
      (nat (y_to b - y_from b + 1)) (rdr_data r) (rdr_data r')"
proof -
  let ?W = "s_width (surface r)" and ?aw = "x_to b - x_from b + 1" and ?s = "single_bounds b"
  define v where "v = VALIDATE_BLITTING (INVALIDATE_RENDERER_SURFACE r)"
  have "validated v" "same_modes (INVALIDATE_RENDERER_SURFACE r) v"
    using validate_ok [OF invalidate_ok [OF ok(1)]] unfolding v_def by auto
  moreover have "paintMode (INVALIDATE_RENDERER_SURFACE r) = 0" using ok(2) by (simp add: INVALIDATE_RENDERER_SURFACE_def)
  ultimately have v: "emitLine v \<in> {Some EmitLineSource8888_pre, Some EmitLineSourceOver8888_pre}" "genPaint v = None"
    by (auto simp: validated_def same_modes_def paint_choice_ok_def painted_def line_routine_def paint_routine_def)
  define u where "u = v\<lparr>minTouched := x_from b, maxTouched := x_to b, currX := x_from b, currY := y_from b, alphaWidth := ?aw,
    currImageOffset := y_from b * ?W, imageScanlineStride := ?W, imagePixelStride := 1, rowNum := 0,
    el_lfrac := lfrac ?s, el_rfrac := rfrac ?s\<rparr>"
  have "(if lfrac ?s \<noteq> 0 then 1 else 0) + (if rfrac ?s \<noteq> 0 then 1 else 0) \<le> ?aw"
    using ne single_bounds_cases(2) [of b] by (cases "x_from b = x_to b") auto
  then have f0: "filling ?W (x_from b) ?aw (y_from b) (rdr_data r) 0 u"
    using v by (simp add: filling_def u_def) (simp add: v_def)
  note g = b(1) _ b(3) _
  have x: "x_from b + ?aw \<le> ?W" "0 \<le> ?aw" using b ne by simp_all
  have W: "0 \<le> ?W" using b ne by simp
  have fits: "(y_from b + n) * ?W \<le> int (length (rdr_data r))" if "n \<le> y_to b - y_from b + 1" for n
  proof -
    have "(y_from b + n) * ?W \<le> (y_to b + 1) * ?W" using that W by (intro mult_right_mono) simp_all
    then show ?thesis using l by linarith
  qed
  have top: "\<exists>r1. (if tfrac ?s \<noteq> 0 then do { rdr \<leftarrow> paint_line gen 1 (tfrac ?s) u; Some (advance (x_from b) 1 rdr, rows - 1) } else Some (u, rows)) =
      Some (r1, rows - (if tfrac ?s \<noteq> 0 then 1 else 0)) \<and>
      filling ?W (x_from b) ?aw (y_from b) (rdr_data r) (if tfrac ?s \<noteq> 0 then 1 else 0) r1" for rows :: int
    using filling_line [OF f0 b(1) x(1) b(3) x(2), of 1 gen "tfrac ?s" "x_from b"] fits [of 1] f0 ne by auto
  define t where "t = (if tfrac ?s \<noteq> 0 then 1 else 0 :: nat)"
  define d where "d = (if bfrac ?s \<noteq> 0 then 1 else 0 :: int)"
  define rows where "rows = y_to b - y_from b + 1 - d - int t"
  have rows: "0 \<le> rows"
    using ne single_bounds_cases(3) [of b] by (cases "y_from b = y_to b") (auto simp: rows_def d_def t_def)
  obtain r1 where r1: "(if tfrac ?s \<noteq> 0 then do { rdr \<leftarrow> paint_line gen 1 (tfrac ?s) u; Some (advance (x_from b) 1 rdr, (y_to b - y_from b + 1 - d) - 1) }
        else Some (u, y_to b - y_from b + 1 - d)) = Some (r1, rows)"
      "filling ?W (x_from b) ?aw (y_from b) (rdr_data r) t r1"
    using top [of "y_to b - y_from b + 1 - d"] by (auto simp: rows_def t_def split: if_splits)
  have "(y_from b + int t + rows) * ?W \<le> int (length (rdr_data r))"
    using fits [of "int t + rows"] by (simp add: rows_def d_def algebra_simps)
  from filling_full [OF r1(2) b(1) x(1) b(3) x(2) rows this, of gen "x_from b"] obtain r2 where
    r2: "full_lines gen (x_from b) rows r1 = Some r2" "filling ?W (x_from b) ?aw (y_from b) (rdr_data r) (t + nat rows) r2" by blast
  have n: "t + nat rows + nat d = nat (y_to b - y_from b + 1)" using rows by (auto simp: rows_def d_def)
  have "\<exists>r'. (if bfrac ?s \<noteq> 0 then paint_line gen 1 (bfrac ?s) r2 else Some r2) = Some r' \<and>
      same_but (y_from b * ?W + x_from b) ?W ?aw (nat (y_to b - y_from b + 1)) (rdr_data r) (rdr_data r')"
  proof (cases "bfrac ?s \<noteq> 0")
    case True
    then have n1: "t + nat rows + 1 = nat (y_to b - y_from b + 1)" using n by (simp add: d_def)
    have "(y_from b + int (t + nat rows + 1)) * ?W \<le> int (length (rdr_data r))" unfolding n1 using ne by (intro fits) simp
    from filling_line [OF r2(2) b(1) x(1) b(3) x(2) this, of gen "bfrac ?s" 0] True show ?thesis
      unfolding n1 by (auto simp: filling_def advance_def)
  next
    case False
    then show ?thesis using r2(2) n by (simp add: filling_def d_def)
  qed
  then obtain r3 where r3: "(if bfrac ?s \<noteq> 0 then paint_line gen 1 (bfrac ?s) r2 else Some r2) = Some r3"
      "same_but (y_from b * ?W + x_from b) ?W ?aw (nat (y_to b - y_from b + 1)) (rdr_data r) (rdr_data r3)" by blast
  have "fill_lines gen b r = Some r3"
  proof -
    have sv: "surface v = surface r" by (simp add: v_def)
    have "(if bfrac ?s \<noteq> 0 then y_to b - y_from b + 1 - 1 else y_to b - y_from b + 1) = y_to b - y_from b + 1 - d"
      by (simp add: d_def)
    with r1(1) r2(1) r3(1) show ?thesis
      by (simp only: fill_lines_def Let_def v_def [symmetric] sv single_bounds_from u_def [symmetric] Option.bind.simps prod.case) 
  qed
  with r3(2) show ?thesis by blast
qed

text \<open>The pixel in the column \<open>X\<close> and row \<open>Y\<close> of a surface of width \<open>W\<close> that a word of its array is.\<close>

lemma in_rows_pixel:
  assumes "in_rows (y0 * W + x0) W w h k" "0 \<le> x0" "x0 + w \<le> W"
  shows "x0 \<le> int k mod W \<and> int k mod W < x0 + w \<and> y0 \<le> int k div W \<and> int k div W < y0 + int h"
proof -
  obtain j where j: "j < h" "y0 * W + x0 + int j * W \<le> int k" "int k < y0 * W + x0 + int j * W + w"
    using assms(1) by (auto simp: in_rows_def)
  define c where "c = int k - (y0 + int j) * W"
  have c: "x0 \<le> c" "c < x0 + w" "int k = W * (y0 + int j) + c" using j by (simp_all add: c_def algebra_simps)
  then have "0 \<le> c" "c < W" using assms(2,3) by simp_all
  with c(3) have "int k div W = y0 + int j" "int k mod W = c"
    by (simp_all add: int_div_pos_eq int_mod_pos_eq)
  then show ?thesis using c j(1) by simp
qed

text \<open>The modes of the edges and the clip only make the bounds smaller.\<close>

lemma edge_bounds_in:
  "x_from b \<le> x_from (edge_bounds l r t m b)" "x_to (edge_bounds l r t m b) \<le> x_to b"
  "y_from b \<le> y_from (edge_bounds l r t m b)" "y_to (edge_bounds l r t m b) \<le> y_to b"
  by (simp_all add: edge_bounds_def Let_def)

lemma clip_bounds_in:
  "x_from (clip_bounds r b) = max (x_from b) (clip_bbMinX r)" "x_to (clip_bounds r b) = min (x_to b) (clip_bbMaxX r)"
  "y_from (clip_bounds r b) = max (y_from b) (clip_bbMinY r)" "y_to (clip_bounds r b) = min (y_to b) (clip_bbMaxY r)"
  by (simp_all add: clip_bounds_def Let_def)

lemma last_pixel: "X \<le> (if z mod 65536 \<noteq> 0 then z div 65536 else z div 65536 - 1) \<longleftrightarrow> X * 65536 < z" for X z :: int
proof -
  have z: "z div 65536 * 65536 + z mod 65536 = z" "0 \<le> z mod 65536" "z mod 65536 < 65536" by simp_all
  show ?thesis
  proof (cases "z mod 65536 = 0")
    case True
    then show ?thesis using z(1) by (simp, linarith)
  next
    case False
    then show ?thesis using z by (simp, linarith)
  qed
qed

lemma first_pixel: "z div 65536 \<le> X \<longleftrightarrow> z < (X + 1) * 65536" for X z :: int
proof -
  define q m where "q = z div 65536" and "m = z mod 65536"
  have z: "z = q * 65536 + m" "0 \<le> m" "m < 65536" by (simp_all add: q_def m_def)
  have "q \<le> X \<longleftrightarrow> z < (X + 1) * 65536"
  proof
    show "z < (X + 1) * 65536" if "q \<le> X" using that z by simp
    show "q \<le> X" if "z < (X + 1) * 65536" using that z by simp
  qed
  then show ?thesis by (simp add: q_def)
qed

lemma rect_bounds_in:
  "X \<le> x_to (rect_bounds x y w h) \<longleftrightarrow> X * 65536 < x + w" "Y \<le> y_to (rect_bounds x y w h) \<longleftrightarrow> Y * 65536 < y + h"
  "x_from (rect_bounds x y w h) \<le> X \<longleftrightarrow> x < (X + 1) * 65536" "y_from (rect_bounds x y w h) \<le> Y \<longleftrightarrow> y < (Y + 1) * 65536"
  unfolding rect_bounds_def Let_def Bounds.simps last_pixel first_pixel by (rule refl)+

lemma fill_rect_in:
  assumes "renderer_ok r" "paintMode r = PAINT_FLAT_COLOR"
    "rdr_data r = array" "W = s_width (surface r)" "0 < W" "0 \<le> s_height (surface r)"
    "s_height (surface r) \<le> int (length array) div W"
    "0 \<le> clip_bbMinX r" "clip_bbMaxX r < W" "0 \<le> clip_bbMinY r" "clip_bbMaxY r < s_height (surface r)"
  shows "\<exists>r'. fillRect gen array True r x y w h lEdge rEdge tEdge bEdge = Some (r', None) \<and>
    length (rdr_data r') = length array \<and>
    (\<forall>k. rdr_data r' ! k \<noteq> array ! k \<longrightarrow>
       (let X = int k mod W; Y = int k div W
        in clip_bbMinX r \<le> X \<and> X \<le> clip_bbMaxX r \<and> clip_bbMinY r \<le> Y \<and> Y \<le> clip_bbMaxY r \<and>
           x < (X + 1) * 65536 \<and> X * 65536 < x + w \<and> y < (Y + 1) * 65536 \<and> Y * 65536 < y + h))"
proof -
  let ?b0 = "rect_bounds x y w h" and ?H = "s_height (surface r)"
  let ?r = "r\<lparr>rectX := x_from ?b0, rectY := y_from ?b0\<rparr>"
  define b where "b = clip_bounds ?r (edge_bounds lEdge rEdge tEdge bEdge ?b0)"
  have ok: "renderer_ok ?r" using assms(1) same_ok [of r ?r] by simp
  have bx: "clip_bbMinX r \<le> x_from b" "x_to b \<le> clip_bbMaxX r" "clip_bbMinY r \<le> y_from b" "y_to b \<le> clip_bbMaxY r"
    "x_from ?b0 \<le> x_from b" "x_to b \<le> x_to ?b0" "y_from ?b0 \<le> y_from b" "y_to b \<le> y_to ?b0"
    unfolding b_def clip_bounds_in using edge_bounds_in [where b = ?b0 and l = lEdge and r = rEdge and t = tEdge and m = bEdge] by simp_all
  show ?thesis
  proof (cases "x_from b \<le> x_to b \<and> y_from b \<le> y_to b")
    case False
    then show ?thesis using assms(3) by (auto simp: fillRect_def Let_def b_def)
  next
    case True
    have "(y_to b + 1) * W \<le> int (length array) div W * W"
      using bx assms(5-11) by (intro mult_right_mono) simp_all
    also have "\<dots> \<le> int (length array)" using assms(5) by (simp add: minus_mod_eq_div_mult [symmetric])
    finally have len: "(y_to b + 1) * W \<le> int (length array)" .
    have "\<exists>r'. fill_lines gen b ?r = Some r' \<and>
      same_but (y_from b * W + x_from b) W (x_to b - x_from b + 1) (nat (y_to b - y_from b + 1)) array (rdr_data r')"
      using fill_lines_in [OF ok, where b = b and gen = gen] True bx len assms by simp
    then obtain r' where r': "fill_lines gen b ?r = Some r'"
      "same_but (y_from b * W + x_from b) W (x_to b - x_from b + 1) (nat (y_to b - y_from b + 1)) array (rdr_data r')" by blast
    have "fillRect gen array True r x y w h lEdge rEdge tEdge bEdge = Some (r', None)"
    proof -
      have "?r\<lparr>rdr_data := array\<rparr> = ?r" using assms(3) by simp
      moreover have "surface_acquire (surface ?r) array True = Some (Pixels array)"
        using assms(4-7) by (simp add: surface_acquire_def)
      ultimately show ?thesis using True r'(1) by (simp add: fillRect_def Let_def with_surface_def flip: b_def)
    qed
    moreover have "clip_bbMinX r \<le> X \<and> X \<le> clip_bbMaxX r \<and> clip_bbMinY r \<le> Y \<and> Y \<le> clip_bbMaxY r \<and>
           x < (X + 1) * 65536 \<and> X * 65536 < x + w \<and> y < (Y + 1) * 65536 \<and> Y * 65536 < y + h"
      if k: "rdr_data r' ! k \<noteq> array ! k" and XY: "X = int k mod W" "Y = int k div W" for k X Y
    proof -
      have "in_rows (y_from b * W + x_from b) W (x_to b - x_from b + 1) (nat (y_to b - y_from b + 1)) k"
        using k r'(2) by (auto simp: same_but_def)
      from in_rows_pixel [OF this] have "x_from b \<le> X" "X \<le> x_to b" "y_from b \<le> Y" "Y \<le> y_to b"
        using bx assms(8,9) True unfolding XY by auto
      with bx show ?thesis
        using rect_bounds_in(1) [of X x y w h] rect_bounds_in(2) [of Y x y w h]
          rect_bounds_in(3) [of x y w h X] rect_bounds_in(4) [of x y w h Y] by linarith
    qed
    ultimately show ?thesis using same_but_length [OF r'(2)] by (auto simp: Let_def)
  qed
qed

text \<open>
  C37: filling a rectangle with a flat colour, with any modes of its edges and on any surface whose array
  is long enough, returns without touching memory outside the array, and it changes only pixels that
  the rectangle meets and that are inside the clip, provided that the clip is inside the surface, which
  is what \<open>setClip\<close> of \<open>PiscesRenderer.java\<close> ensures. The coordinates of the rectangle are fixed point
  numbers, 65536 for a pixel.
\<close>

theorem fill_rect_inside:
  assumes "renderer_reachable gen gamma s r" "s_imageType s = TYPE_INT_ARGB_PRE" "paintMode r = PAINT_FLAT_COLOR"
    "W = s_width (surface r)" "0 < W" "0 \<le> s_height (surface r)" "s_height (surface r) \<le> int (length array) div W"
    "0 \<le> clip_bbMinX r" "clip_bbMaxX r < W" "0 \<le> clip_bbMinY r" "clip_bbMaxY r < s_height (surface r)"
  shows "\<exists>r'. fillRect gen array True (r\<lparr>rdr_data := array\<rparr>) x y w h lEdge rEdge tEdge bEdge = Some (r', None) \<and>
    length (rdr_data r') = length array \<and>
    (\<forall>k. rdr_data r' ! k \<noteq> array ! k \<longrightarrow>
       (let X = int k mod W; Y = int k div W
        in clip_bbMinX r \<le> X \<and> X \<le> clip_bbMaxX r \<and> clip_bbMinY r \<le> Y \<and> Y \<le> clip_bbMaxY r \<and>
           x < (X + 1) * 65536 \<and> X * 65536 < x + w \<and> y < (Y + 1) * 65536 \<and> Y * 65536 < y + h))"
proof -
  let ?r = "r\<lparr>rdr_data := array\<rparr>"
  have "renderer_ok ?r" using reachable_ok [OF assms(1,2)] same_ok [of r ?r] by simp
  from fill_rect_in [OF this, of array W gen x y w h lEdge rEdge tEdge bEdge] assms(3-) show ?thesis by simp
qed

theorem fill_rect_inside_witness:
  "let s = \<lparr>s_width = 2, s_height = 1, s_offset = 0, s_scanlineStride = 2, s_pixelStride = 1, s_imageType = 1\<rparr>
   in \<exists>r'. fillRect (\<lambda>_ _ _. None) [7, 7] True ((renderer_create s)\<lparr>rdr_data := [7, 7]\<rparr>) 65536 0 65536 65536 0 0 0 0 = Some (r', None) \<and>
     rdr_data r' ! 0 = 7"
proof -
  let ?s = "\<lparr>s_width = 2, s_height = 1, s_offset = 0, s_scanlineStride = 2, s_pixelStride = 1, s_imageType = 1\<rparr>"
  have "renderer_reachable (\<lambda>_ _ _. None) ([], []) ?s (renderer_create ?s)" by (rule renderer_reachable.created)
  moreover have "surface (renderer_create ?s) = ?s" "clip_bbMinX (renderer_create ?s) = 0" "clip_bbMaxX (renderer_create ?s) = 1"
    "clip_bbMinY (renderer_create ?s) = 0" "clip_bbMaxY (renderer_create ?s) = 0" "paintMode (renderer_create ?s) = 0"
    by (simp_all add: renderer_create_def createCommon_def zeroed_def)
  ultimately obtain r' where
    "fillRect (\<lambda>_ _ _. None) [7, 7] True ((renderer_create ?s)\<lparr>rdr_data := [7, 7]\<rparr>) 65536 0 65536 65536 0 0 0 0 = Some (r', None)"
    and c: "\<forall>k. rdr_data r' ! k \<noteq> [7, 7] ! k \<longrightarrow> 65536 < (int k mod 2 + 1) * 65536"
    using fill_rect_inside [of "\<lambda>_ _ _. None" "([], [])" ?s "renderer_create ?s" 2 "[7, 7]" 65536 0 65536 65536 0 0 0 0]
    by (simp add: Let_def) blast
  moreover have "rdr_data r' ! 0 = 7" using c [rule_format, of 0] by auto
  ultimately show ?thesis by (auto simp: Let_def)
qed

section \<open>Where drawing goes wrong\<close>

text \<open>
  With \<open>COMPOSITE_CLEAR\<close> the routine for rows is \<open>blitSrc8888_pre\<close> also under a mask, but it takes the
  coverage from \<open>_rowAAInt\<close>, which is null then.
\<close>

lemma clear_under_mask_stuck:
  assumes "emitRows rdr = rows_routine COMPOSITE_CLEAR ALPHA_MASK False" "rowAAInt rdr = []" "0 < touched rdr"
  shows "run_rows gamma rdr 1 = None"
proof -
  obtain n where "touched rdr = Suc n" using assms(3) by (cases "touched rdr") auto
  then show ?thesis
    using assms(1,2) by (simp add: run_rows_def rows_routine_def blitSrc8888_pre_def aa_rows_def aa_row_def read_at_def)
qed

text \<open>
  \<open>emitLineSource8888_pre\<close> blends a fractional edge with the full alpha of the colour and the complement
  of the fraction, which together are more than one: half an edge of white over white is not white.
\<close>

lemma source_edge_overflows:
  "px_A (blendSrc8888_pre 255 (255 - 0x8000 div 256) 255 255 255 0xffffffff) = 125"
proof -
  have "px_A 0xffffffff = 255" "px_R 0xffffffff = 255" "px_G 0xffffffff = 255" "px_B 0xffffffff = 255"
    by (simp_all add: px_A_def px_R_def px_G_def px_B_def)
  then have "blendSrc8888_pre 255 (255 - 0x8000 div 256) 255 255 255 0xffffffff = pack 381 381 381 381"
    by (simp add: blendSrc8888_pre_def div255_def)
  also have "px_A \<dots> = 125" by (simp add: pack_def px_A_def)
  finally show ?thesis .
qed

end
