(* ===== verification/FlvBytes.thy ===== *)
theory FlvBytes
  imports GlassPrelude
begin

text \<open>
  Bytes in memory for the reader of FLV files: reading a run of bytes through a pointer, undefined
  outside the buffer, big-endian numbers, and C strings.
\<close>

unbundle bit_operations_syntax

type_synonym bytes = "8 word list"

section \<open>Reading\<close>

definition bytes_at :: "bytes \<Rightarrow> nat \<Rightarrow> nat \<Rightarrow> bytes option" where
  "bytes_at mem p n = (if p + n \<le> length mem then Some (take n (drop p mem)) else None)"

definition be_nat :: "bytes \<Rightarrow> nat" where
  "be_nat bs = foldl (\<lambda>n b. 256 * n + unat b) 0 bs"

text \<open>The bytes of a number, for the encodings that the properties speak of.\<close>

primrec be_bytes :: "nat \<Rightarrow> nat \<Rightarrow> bytes" where
  "be_bytes 0 x = []"
| "be_bytes (Suc n) x = be_bytes n (x div 256) @ [word_of_nat (x mod 256)]"

section \<open>Strings\<close>

text \<open>The characters before the first NUL are what \<open>strcmp\<close> compares.\<close>

definition c_string :: "bytes \<Rightarrow> bytes" where
  "c_string s = takeWhile (\<lambda>b. b \<noteq> 0) s"

definition ascii :: "string \<Rightarrow> bytes" where
  "ascii s = map of_char s"

text \<open>\<open>strcmp\<close> of a pointer with a literal, undefined for a null pointer.\<close>

definition strcmp_eq :: "bytes option \<Rightarrow> string \<Rightarrow> bool option" where
  "strcmp_eq s literal = map_option (\<lambda>s. c_string s = ascii literal) s"

section \<open>Lemmas\<close>

lemma bytes_at_Some: "p + n \<le> length mem \<Longrightarrow> bytes_at mem p n = Some (take n (drop p mem))"
  by (simp add: bytes_at_def)

lemma bytes_at_middle [simp]: "bytes_at (xs @ ys @ zs) (length xs) (length ys) = Some ys"
  by (simp add: bytes_at_def)

lemma length_be_bytes [simp]: "length (be_bytes n x) = n"
  by (induction n arbitrary: x) auto

lemma be_nat_snoc [simp]: "be_nat (bs @ [b]) = 256 * be_nat bs + unat b"
  by (simp add: be_nat_def)

lemma be_nat_Nil [simp]: "be_nat [] = 0"
  by (simp add: be_nat_def)

lemma be_nat_bound: "be_nat bs < 256 ^ length bs"
proof (induction bs rule: rev_induct)
  case (snoc b bs)
  have "unat b < 256" using unsigned_less [of b] by simp
  with snoc show ?case by simp
qed simp

lemma be_nat_bytes: "x < 256 ^ n \<Longrightarrow> be_nat (be_bytes n x) = x"
proof (induction n arbitrary: x)
  case (Suc n)
  have "x div 256 < 256 ^ n" using Suc.prems by (simp add: less_mult_imp_div_less mult.commute)
  then have "be_nat (be_bytes n (x div 256)) = x div 256" by (rule Suc.IH)
  moreover have "unat (word_of_nat (x mod 256) :: 8 word) = x mod 256" by (simp add: unat_of_nat)
  ultimately show ?case by simp
qed simp

lemma c_string_same: "0 \<notin> set s \<Longrightarrow> c_string s = s"
  by (simp add: c_string_def takeWhile_eq_all_conv) (metis)

end
