(* ===== verification/DoubleFloat.thy ===== *)
theory DoubleFloat
  imports SingleFloat
begin

text \<open>
  Values of type \<open>double\<close> in their 64 bits: the number they stand for, \<open>None\<close> for infinities and NaN,
  the rounding of a product to 53 significant bits, and conversions to integer types. C leaves the
  conversion of a number outside the range of the type undefined: \<open>wild\<close> gives what the processor does
  then, and every theorem holds for all of its values.
\<close>

unbundle bit_operations_syntax

definition double_value :: "64 word \<Rightarrow> rat option" where
  "double_value d =
     (let e = uint (drop_bit 52 d AND 0x7ff); f = uint (d AND 0xfffffffffffff); s = (if bit d 63 then - 1 else 1)
      in if e = 0x7ff then None
         else if e = 0 then Some (s * of_int f * two_to (- 1074))
         else Some (s * of_int (0x10000000000000 + f) * two_to (e - 1075)))"

definition float64 :: "rat \<Rightarrow> rat" where
  "float64 x =
     (if x = 0 then 0
      else let u = two_to (leading_bit \<bar>x\<bar> - 52)
           in (if x < 0 then - 1 else 1) * of_int (round_half_even (\<bar>x\<bar> / u)) * u)"

definition convert :: "(64 word \<Rightarrow> int) \<Rightarrow> int \<Rightarrow> int \<Rightarrow> 64 word \<Rightarrow> rat option \<Rightarrow> int" where
  "convert wild lo hi d v = (case v of
     None \<Rightarrow> wild d
   | Some x \<Rightarrow> if lo \<le> truncate_to_int x \<and> truncate_to_int x \<le> hi then truncate_to_int x else wild d)"

definition double_to_gint :: "(64 word \<Rightarrow> int) \<Rightarrow> 64 word \<Rightarrow> int" where
  "double_to_gint wild d = convert wild (- (2 ^ 31)) (2 ^ 31 - 1) d (double_value d)"

definition double_to_guint64 :: "(64 word \<Rightarrow> int) \<Rightarrow> 64 word \<Rightarrow> 64 word" where
  "double_to_guint64 wild d = word_of_int (convert wild 0 (2 ^ 64 - 1) d (double_value d))"

text \<open>
  \<open>(GstClockTime)(d * GST_SECOND)\<close>. A product beyond the range of \<open>double\<close> does not fit in 64 bits
  either, and one below the smallest is truncated to 0, so its exponent need not be bounded.
\<close>

definition seconds_to_time :: "(64 word \<Rightarrow> int) \<Rightarrow> 64 word \<Rightarrow> 64 word" where
  "seconds_to_time wild d =
     word_of_int (convert wild 0 (2 ^ 64 - 1) d (map_option (\<lambda>x. float64 (x * 1000000000)) (double_value d)))"

lemma double_examples:
  "double_value 0x4024000000000000 = Some 10" "double_value 0xbfe0000000000000 = Some (- (1 / 2))"
  by (simp_all add: double_value_def two_to_def)

end
