(* ===== verification/FlvMetadata.thy ===== *)
theory FlvMetadata
  imports FlvBytes DoubleFloat "HOL-Library.AList"
begin

text \<open>
  \<open>gstreamer/plugins/vp6/flvmetadata.c\<close>: the reader of the script data of an FLV file. A reader holds
  the memory that its two pointers point into; a read outside it is undefined, \<open>None\<close>. The loops of the
  source have no bound of their own, so they are \<open>partial_function\<close>s and \<open>None\<close> is also "does not
  return". A function that returns \<open>gboolean\<close> and a value through a pointer gives \<open>None\<close> for \<open>FALSE\<close>
  inside. Callbacks are functions, with the state they change as their last argument and result.
\<close>

abbreviation (input) FLV_SCRIPT_DATA_TYPE_DOUBLE :: "8 word" where "FLV_SCRIPT_DATA_TYPE_DOUBLE \<equiv> 0"
abbreviation (input) FLV_SCRIPT_DATA_TYPE_BOOL :: "8 word" where "FLV_SCRIPT_DATA_TYPE_BOOL \<equiv> 1"
abbreviation (input) FLV_SCRIPT_DATA_TYPE_STRING :: "8 word" where "FLV_SCRIPT_DATA_TYPE_STRING \<equiv> 2"
abbreviation (input) FLV_SCRIPT_DATA_TYPE_OBJECT :: "8 word" where "FLV_SCRIPT_DATA_TYPE_OBJECT \<equiv> 3"
abbreviation (input) FLV_SCRIPT_DATA_TYPE_MOVIE_CLIP :: "8 word" where "FLV_SCRIPT_DATA_TYPE_MOVIE_CLIP \<equiv> 4"
abbreviation (input) FLV_SCRIPT_DATA_TYPE_NULL :: "8 word" where "FLV_SCRIPT_DATA_TYPE_NULL \<equiv> 5"
abbreviation (input) FLV_SCRIPT_DATA_TYPE_UNDEFINED :: "8 word" where "FLV_SCRIPT_DATA_TYPE_UNDEFINED \<equiv> 6"
abbreviation (input) FLV_SCRIPT_DATA_TYPE_REFERENCE :: "8 word" where "FLV_SCRIPT_DATA_TYPE_REFERENCE \<equiv> 7"
abbreviation (input) FLV_SCRIPT_DATA_TYPE_ECMA :: "8 word" where "FLV_SCRIPT_DATA_TYPE_ECMA \<equiv> 8"
abbreviation (input) FLV_SCRIPT_DATA_TYPE_TERMINATOR :: "8 word" where "FLV_SCRIPT_DATA_TYPE_TERMINATOR \<equiv> 9"
abbreviation (input) FLV_SCRIPT_DATA_TYPE_STRICT :: "8 word" where "FLV_SCRIPT_DATA_TYPE_STRICT \<equiv> 10"
abbreviation (input) FLV_SCRIPT_DATA_TYPE_DATE :: "8 word" where "FLV_SCRIPT_DATA_TYPE_DATE \<equiv> 11"
abbreviation (input) FLV_SCRIPT_DATA_TYPE_LONG_STRING :: "8 word" where "FLV_SCRIPT_DATA_TYPE_LONG_STRING \<equiv> 12"

section \<open>Data\<close>

record FlvScriptDataReader =
  memory :: bytes
  position :: nat
  reader_end :: nat

record FlvKeyframe =
  time :: "64 word"
  fileposition :: "64 word"

text \<open>
  A tag list of GStreamer is an association list: \<open>GST_TAG_MERGE_REPLACE\<close> replaces the value of a tag.
  \<open>registered\<close> is not a field of the structure but the registry of GStreamer, to which reading adds
  the tags it meets.
\<close>

datatype tag_value = Tag_time "64 word" | Tag_string bytes

record FlvMetadata =
  duration :: "64 word"
  file_size :: int
  can_seek_to_end :: int
  video_codec_id :: int
  video_data_rate :: "64 word"
  md_width :: int
  md_height :: int
  par_x :: int
  par_y :: int
  framerate :: "64 word"
  audio_codec_id :: int
  audio_data_rate :: int
  audio_sample_size :: int
  is_stereo :: int
  tag_list :: "(bytes \<times> tag_value) list option"
  keyframes :: "FlvKeyframe list option"
  registered :: "bytes list"

abbreviation (input) GST_CLOCK_TIME_NONE :: "64 word" where "GST_CLOCK_TIME_NONE \<equiv> - 1"

definition flv_metadata_new :: "bytes list \<Rightarrow> FlvMetadata" where
  "flv_metadata_new tags =
     \<lparr>duration = GST_CLOCK_TIME_NONE, file_size = 0, can_seek_to_end = 0, video_codec_id = 0, video_data_rate = 0,
      md_width = 0, md_height = 0, par_x = 0, par_y = 0, framerate = 0, audio_codec_id = 0, audio_data_rate = 0,
      audio_sample_size = 0, is_stereo = 0, tag_list = None, keyframes = None, registered = tags\<rparr>"

type_synonym 'p handler =
  "FlvScriptDataReader \<Rightarrow> bytes option \<Rightarrow> 8 word \<Rightarrow> 'p \<Rightarrow> (bool \<times> FlvScriptDataReader \<times> 'p) option"

section \<open>Reading values\<close>

definition advance :: "nat \<Rightarrow> FlvScriptDataReader \<Rightarrow> FlvScriptDataReader" where
  "advance n rd = rd\<lparr>position := position rd + n\<rparr>"

definition flv_script_data_read_ui8 :: "FlvScriptDataReader \<Rightarrow> (8 word option \<times> FlvScriptDataReader) option" where
  "flv_script_data_read_ui8 rd =
     (if position rd + 1 > reader_end rd then Some (None, rd)
      else do { b \<leftarrow> read_at (memory rd) (int (position rd)); Some (Some b, advance 1 rd) })"

definition flv_script_data_read_ui32 :: "FlvScriptDataReader \<Rightarrow> (nat option \<times> FlvScriptDataReader) option" where
  "flv_script_data_read_ui32 rd =
     (if position rd + 4 > reader_end rd then Some (None, rd)
      else do { bs \<leftarrow> bytes_at (memory rd) (position rd) 4; Some (Some (be_nat bs), advance 4 rd) })"

definition FLV_READ_DOUBLE_BE :: "bytes \<Rightarrow> 64 word" where
  "FLV_READ_DOUBLE_BE bs = word_of_nat (be_nat bs)"

definition flv_script_data_read_double :: "FlvScriptDataReader \<Rightarrow> (64 word option \<times> FlvScriptDataReader) option" where
  "flv_script_data_read_double rd =
     (if position rd + 8 > reader_end rd then Some (None, rd)
      else do { bs \<leftarrow> bytes_at (memory rd) (position rd) 8; Some (Some (FLV_READ_DOUBLE_BE bs), advance 8 rd) })"

text \<open>The allocation succeeds: \<open>g_malloc\<close> ends the program otherwise.\<close>

definition flv_script_data_read_string ::
    "FlvScriptDataReader \<Rightarrow> bool \<Rightarrow> (bytes option \<times> FlvScriptDataReader) option" where
  "flv_script_data_read_string rd longString =
     (let n = (if longString then 4 else 2)
      in if position rd + n > reader_end rd then Some (None, rd)
         else do {
           bs \<leftarrow> bytes_at (memory rd) (position rd) n;
           let len = be_nat bs; rd = advance n rd
           in if position rd + len > reader_end rd then Some (None, rd)
              else if len \<ge> 2 ^ 64 - 1 - 1 then Some (None, rd)
              else do {
                s \<leftarrow> bytes_at (memory rd) (position rd) len;
                Some (Some s, advance len rd)
              }
         })"

section \<open>Objects and arrays\<close>

text \<open>The name and the type of the next entry: the bytes 0, 0, 9 end an object.\<close>

definition next_entry ::
    "FlvScriptDataReader \<Rightarrow> ((bytes option \<times> 8 word) option \<times> FlvScriptDataReader) option" where
  "next_entry rd =
     (if position rd + 3 > reader_end rd then Some (None, rd)
      else do {
        bs \<leftarrow> bytes_at (memory rd) (position rd) 3;
        if bs = [0, 0, 9] then Some (Some (None, FLV_SCRIPT_DATA_TYPE_TERMINATOR), advance 3 rd)
        else do {
          (name, rd) \<leftarrow> flv_script_data_read_string rd False;
          case name of
            None \<Rightarrow> Some (None, rd)
          | Some name \<Rightarrow> do {
              (value_type, rd) \<leftarrow> flv_script_data_read_ui8 rd;
              Some (map_option (Pair (Some name)) value_type, rd)
            }
        }
      })"

partial_function (option) flv_script_data_read_object ::
    "'p handler \<Rightarrow> FlvScriptDataReader \<Rightarrow> 'p \<Rightarrow> (bool \<times> FlvScriptDataReader \<times> 'p) option" where
  "flv_script_data_read_object callback rd p =
     (if position rd < reader_end rd then do {
        (entry, rd) \<leftarrow> next_entry rd;
        case entry of
          None \<Rightarrow> Some (False, rd, p)
        | Some (var_name, value_type) \<Rightarrow> do {
            (result, rd, p) \<leftarrow> callback rd var_name value_type p;
            if value_type = FLV_SCRIPT_DATA_TYPE_TERMINATOR then Some (True, rd, p)
            else if \<not> result then Some (False, rd, p)
            else flv_script_data_read_object callback rd p
          }
      }
      else Some (True, rd, p))"

text \<open>The size in front of an array is read and ignored; the loop is the one of objects, word for word.\<close>

definition flv_script_data_read_ecma ::
    "'p handler \<Rightarrow> FlvScriptDataReader \<Rightarrow> 'p \<Rightarrow> (bool \<times> FlvScriptDataReader \<times> 'p) option" where
  "flv_script_data_read_ecma callback rd p = do {
     (count, rd) \<leftarrow> flv_script_data_read_ui32 rd;
     case count of
       None \<Rightarrow> Some (False, rd, p)
     | Some _ \<Rightarrow> flv_script_data_read_object callback rd p
   }"

primrec strict_loop ::
    "'p handler \<Rightarrow> nat \<Rightarrow> FlvScriptDataReader \<Rightarrow> 'p \<Rightarrow> (bool \<times> FlvScriptDataReader \<times> 'p) option" where
  "strict_loop callback 0 rd p = Some (True, rd, p)"
| "strict_loop callback (Suc n) rd p = do {
     (value_type, rd) \<leftarrow> flv_script_data_read_ui8 rd;
     case value_type of
       None \<Rightarrow> Some (False, rd, p)
     | Some value_type \<Rightarrow> do {
         (result, rd, p) \<leftarrow> callback rd None value_type p;
         if \<not> result then Some (False, rd, p) else strict_loop callback n rd p
       }
   }"

definition flv_script_data_read_strict_array ::
    "'p handler \<Rightarrow> FlvScriptDataReader \<Rightarrow> 'p \<Rightarrow> (bool \<times> FlvScriptDataReader \<times> 'p) option" where
  "flv_script_data_read_strict_array callback rd p = do {
     (count, rd) \<leftarrow> flv_script_data_read_ui32 rd;
     case count of
       None \<Rightarrow> Some (False, rd, p)
     | Some n \<Rightarrow> strict_loop callback n rd p
   }"

section \<open>Callbacks that recurse\<close>

text \<open>
  A callback may be defined by recursion through the functions above, because a callback that returns
  more often makes them return more often, with the same results.
\<close>

lemma option_ord_iff: "option_ord a b \<longleftrightarrow> (\<forall>y. a = Some y \<longrightarrow> b = Some y)"
  by (cases a) (auto simp: flat_ord_def)

lemma mono_option_iff:
  "monotone (fun_ord option_ord) option_ord F \<longleftrightarrow>
     (\<forall>f g y. fun_ord option_ord f g \<longrightarrow> F f = Some y \<longrightarrow> F g = Some y)"
  by (auto simp: monotone_def option_ord_iff)

definition handler_le :: "'p handler \<Rightarrow> 'p handler \<Rightarrow> bool" where
  "handler_le c d \<longleftrightarrow> (\<forall>rd name t p y. c rd name t p = Some y \<longrightarrow> d rd name t p = Some y)"

lemma handler_leD: "handler_le c d \<Longrightarrow> c rd name t p = Some y \<Longrightarrow> d rd name t p = Some y"
  unfolding handler_le_def by blast

lemma object_le: "handler_le c d \<Longrightarrow> flv_script_data_read_object c rd p = Some y \<Longrightarrow> flv_script_data_read_object d rd p = Some y"
proof -
  assume "flv_script_data_read_object c rd p = Some y"
  then have "handler_le c d \<longrightarrow> flv_script_data_read_object d rd p = Some y"
  proof (rule flv_script_data_read_object.raw_induct [where P = "\<lambda>c rd p y. handler_le c d \<longrightarrow> flv_script_data_read_object d rd p = Some y", rotated])
    fix read :: "'a handler \<Rightarrow> FlvScriptDataReader \<Rightarrow> 'a \<Rightarrow> (bool \<times> FlvScriptDataReader \<times> 'a) option" and c rd p y
    assume IH: "\<And>c rd p y. read c rd p = Some y \<Longrightarrow> handler_le c d \<longrightarrow> flv_script_data_read_object d rd p = Some y"
      and run: "(if position rd < reader_end rd then do {
        (entry, rd) \<leftarrow> next_entry rd;
        case entry of
          None \<Rightarrow> Some (False, rd, p)
        | Some (var_name, value_type) \<Rightarrow> do {
            (result, rd, p) \<leftarrow> c rd var_name value_type p;
            if value_type = FLV_SCRIPT_DATA_TYPE_TERMINATOR then Some (True, rd, p)
            else if \<not> result then Some (False, rd, p)
            else read c rd p
          }
      }
      else Some (True, rd, p)) = Some y"
    show "handler_le c d \<longrightarrow> flv_script_data_read_object d rd p = Some y"
    proof
      assume le: "handler_le c d"
      show "flv_script_data_read_object d rd p = Some y"
      proof (cases "position rd < reader_end rd")
        case True
        with run obtain entry rd1 where e: "next_entry rd = Some (entry, rd1)" by (auto split: bind_splits)
        show ?thesis
        proof (cases entry)
          case None
          with True e run show ?thesis by (subst flv_script_data_read_object.simps) simp
        next
          case (Some nt)
          obtain name t where nt: "nt = (name, t)" by force
          with True e Some run obtain ok rd2 p2 where h: "c rd1 name t p = Some (ok, rd2, p2)" by (auto split: bind_splits)
          have rest: "read c rd2 p2 = Some y \<Longrightarrow> flv_script_data_read_object d rd2 p2 = Some y"
            using IH le by blast
          with True e Some run nt h handler_leD [OF le h] show ?thesis
            by (subst flv_script_data_read_object.simps) (simp split: if_splits)
        qed
      next
        case False
        with run show ?thesis by (subst flv_script_data_read_object.simps) simp
      qed
    qed
  qed
  moreover assume "handler_le c d"
  ultimately show ?thesis by simp
qed

lemma ecma_le:
  "handler_le c d \<Longrightarrow> flv_script_data_read_ecma c rd p = Some y \<Longrightarrow> flv_script_data_read_ecma d rd p = Some y"
  by (auto simp: flv_script_data_read_ecma_def intro: object_le split: option.splits bind_splits)

lemma strict_loop_le:
  "handler_le c d \<Longrightarrow> strict_loop c n rd p = Some y \<Longrightarrow> strict_loop d n rd p = Some y"
proof (induction n arbitrary: rd p)
  case (Suc n)
  from Suc.prems(2) obtain v rd1 where v: "flv_script_data_read_ui8 rd = Some (v, rd1)" by (auto split: bind_splits)
  show ?case
  proof (cases v)
    case None
    with v Suc.prems(2) show ?thesis by simp
  next
    case (Some t)
    with v Suc.prems(2) obtain ok rd2 p2 where h: "c rd1 None t p = Some (ok, rd2, p2)" by (auto split: bind_splits)
    with v Some Suc.prems(2) handler_leD [OF Suc.prems(1) h] Suc.IH [OF Suc.prems(1), of rd2 p2] show ?thesis
      by (simp split: if_splits)
  qed
qed simp

lemma strict_le:
  "handler_le c d \<Longrightarrow> flv_script_data_read_strict_array c rd p = Some y \<Longrightarrow> flv_script_data_read_strict_array d rd p = Some y"
  by (auto simp: flv_script_data_read_strict_array_def intro: strict_loop_le split: option.splits bind_splits)

lemma mono_through_handler:
  assumes "\<And>c d y. handler_le c d \<Longrightarrow> F c = Some y \<Longrightarrow> F d = Some y"
    and "\<And>rd name t p. mono_option (\<lambda>f. h f rd name t p)"
  shows "mono_option (\<lambda>f. F (h f))"
  unfolding mono_option_iff
proof (intro allI impI)
  fix f g y
  assume le: "fun_ord option_ord f g" and run: "F (h f) = Some y"
  have "handler_le (h f) (h g)"
    unfolding handler_le_def
  proof (intro allI impI)
    fix rd name t p y
    assume "h f rd name t p = Some y"
    then show "h g rd name t p = Some y" using assms(2) [of rd name t p, unfolded mono_option_iff, rule_format, OF le] by blast
  qed
  then show "F (h g) = Some y" using run by (rule assms(1))
qed

lemma object_mono [partial_function_mono]:
  "(\<And>rd name t p. mono_option (\<lambda>f. h f rd name t p)) \<Longrightarrow> mono_option (\<lambda>f. flv_script_data_read_object (h f) rd p)"
  by (rule mono_through_handler [where F = "\<lambda>c. flv_script_data_read_object c rd p"]) (rule object_le)

lemma ecma_mono [partial_function_mono]:
  "(\<And>rd name t p. mono_option (\<lambda>f. h f rd name t p)) \<Longrightarrow> mono_option (\<lambda>f. flv_script_data_read_ecma (h f) rd p)"
  by (rule mono_through_handler [where F = "\<lambda>c. flv_script_data_read_ecma c rd p"]) (rule ecma_le)

lemma strict_mono [partial_function_mono]:
  "(\<And>rd name t p. mono_option (\<lambda>f. h f rd name t p)) \<Longrightarrow> mono_option (\<lambda>f. flv_script_data_read_strict_array (h f) rd p)"
  by (rule mono_through_handler [where F = "\<lambda>c. flv_script_data_read_strict_array c rd p"]) (rule strict_le)

lemma curry_mono [partial_function_mono]: "mono_option (\<lambda>f. curry (curry (curry f)) a b c d)"
  by (simp add: mono_option_iff fun_ord_def option_ord_iff)

section \<open>Handlers\<close>

partial_function (option) flv_metadata_skip_handler :: "'p handler" where
  "flv_metadata_skip_handler rd value_name value_type p =
     (if value_type = FLV_SCRIPT_DATA_TYPE_DOUBLE then do {
        (v, rd) \<leftarrow> flv_script_data_read_double rd;
        Some (v \<noteq> None, rd, p)
      }
      else if value_type = FLV_SCRIPT_DATA_TYPE_BOOL then do {
        (v, rd) \<leftarrow> flv_script_data_read_ui8 rd;
        Some (v \<noteq> None, rd, p)
      }
      else if value_type = FLV_SCRIPT_DATA_TYPE_STRING then do {
        (v, rd) \<leftarrow> flv_script_data_read_string rd False;
        Some (v \<noteq> None, rd, p)
      }
      else if value_type = FLV_SCRIPT_DATA_TYPE_OBJECT then
        flv_script_data_read_object flv_metadata_skip_handler rd p
      else if value_type = FLV_SCRIPT_DATA_TYPE_ECMA then
        flv_script_data_read_ecma flv_metadata_skip_handler rd p
      else if value_type = FLV_SCRIPT_DATA_TYPE_TERMINATOR then Some (True, rd, p)
      else if value_type = FLV_SCRIPT_DATA_TYPE_STRICT then
        flv_script_data_read_strict_array flv_metadata_skip_handler rd p
      else Some (False, rd, p))"

text \<open>
  The lists of key frames: \<open>whichField\<close> is 1 for times and 2 for positions. \<open>readSize\<close> counts down with
  every element and, being unsigned, wraps after 0.
\<close>

primrec keyframe_loop ::
    "(64 word \<Rightarrow> int) \<Rightarrow> nat \<Rightarrow> nat \<Rightarrow> 32 word \<Rightarrow> FlvScriptDataReader \<Rightarrow> FlvKeyframe list \<Rightarrow>
     (bool \<times> FlvScriptDataReader \<times> FlvKeyframe list) option" where
  "keyframe_loop wild whichField 0 readSize rd ks = Some (True, rd, ks)"
| "keyframe_loop wild whichField (Suc n) readSize rd ks = do {
     (value_type, rd) \<leftarrow> flv_script_data_read_ui8 rd;
     if value_type \<noteq> Some FLV_SCRIPT_DATA_TYPE_DOUBLE then Some (False, rd, ks)
     else do {
       (double_value, rd) \<leftarrow> flv_script_data_read_double rd;
       case double_value of
         None \<Rightarrow> Some (False, rd, ks)
       | Some d \<Rightarrow>
           let ks = (if readSize > 0 \<and> whichField > 0 then ks @
                 [if whichField = 1 then \<lparr>time = seconds_to_time wild d, fileposition = 0\<rparr>
                  else \<lparr>time = 0, fileposition = double_to_guint64 wild d\<rparr>]
               else ks)
           in keyframe_loop wild whichField n (readSize - 1) rd ks
     }
   }"

definition flv_script_read_keyframe_array ::
    "(64 word \<Rightarrow> int) \<Rightarrow> FlvScriptDataReader \<Rightarrow> bytes option \<Rightarrow> FlvKeyframe list \<Rightarrow>
     (bool \<times> FlvScriptDataReader \<times> FlvKeyframe list) option" where
  "flv_script_read_keyframe_array wild rd value_name ks = do {
     (count, rd) \<leftarrow> flv_script_data_read_ui32 rd;
     case count of
       None \<Rightarrow> Some (False, rd, ks)
     | Some n \<Rightarrow> do {
         times \<leftarrow> strcmp_eq value_name ''times'';
         filepositions \<leftarrow> strcmp_eq value_name ''filepositions'';
         let whichField = (if times then 1 else if filepositions then 2 else 0);
             readSize = (if 0 < length ks \<and> length ks < n then length ks else n);
             ks = (if 0 < length ks \<and> length ks > n then take n ks else ks)
         in keyframe_loop wild whichField n (word_of_nat readSize) rd ks
       }
   }"

definition flv_metadata_keyframe_handler :: "(64 word \<Rightarrow> int) \<Rightarrow> FlvMetadata handler" where
  "flv_metadata_keyframe_handler wild rd value_name value_type metadata =
     (if value_type = FLV_SCRIPT_DATA_TYPE_TERMINATOR then Some (True, rd, metadata)
      else if value_type = FLV_SCRIPT_DATA_TYPE_STRICT then do {
        (result, rd, ks) \<leftarrow> flv_script_read_keyframe_array wild rd value_name
          (case keyframes metadata of None \<Rightarrow> [] | Some ks \<Rightarrow> ks);
        Some (result, rd, metadata\<lparr>keyframes := (if result then Some ks else None)\<rparr>)
      }
      else Some (False, rd, metadata))"

definition gst_tag_list_add :: "bytes \<Rightarrow> tag_value \<Rightarrow> FlvMetadata \<Rightarrow> FlvMetadata" where
  "gst_tag_list_add tag v metadata = metadata\<lparr>tag_list := map_option (AList.update tag v) (tag_list metadata)\<rparr>"

definition set_double :: "(64 word \<Rightarrow> int) \<Rightarrow> bytes option \<Rightarrow> 64 word \<Rightarrow> FlvMetadata \<Rightarrow> FlvMetadata option" where
  "set_double wild value_name d metadata = do {
     name \<leftarrow> map_option c_string value_name;
     let i = double_to_gint wild d
     in Some (if name = ascii ''duration'' then
                gst_tag_list_add (ascii ''duration'') (Tag_time (seconds_to_time wild d)) (metadata\<lparr>duration := seconds_to_time wild d\<rparr>)
              else if name = ascii ''filesize'' then metadata\<lparr>file_size := i\<rparr>
              else if name = ascii ''videocodecid'' then metadata\<lparr>video_codec_id := i\<rparr>
              else if name = ascii ''videodatarate'' then metadata\<lparr>video_data_rate := d\<rparr>
              else if name = ascii ''width'' then metadata\<lparr>md_width := i\<rparr>
              else if name = ascii ''height'' then metadata\<lparr>md_height := i\<rparr>
              else if name = ascii ''AspectRatioX'' then metadata\<lparr>par_x := i\<rparr>
              else if name = ascii ''AspectRatioY'' then metadata\<lparr>par_y := i\<rparr>
              else if name = ascii ''framerate'' then metadata\<lparr>framerate := d\<rparr>
              else if name = ascii ''audiocodecid'' then metadata\<lparr>audio_codec_id := i\<rparr>
              else if name = ascii ''audiosamplesize'' then metadata\<lparr>audio_sample_size := i\<rparr>
              else metadata)
   }"

definition set_bool :: "bytes option \<Rightarrow> 8 word \<Rightarrow> FlvMetadata \<Rightarrow> FlvMetadata option" where
  "set_bool value_name b metadata = do {
     name \<leftarrow> map_option c_string value_name;
     Some (if name = ascii ''canSeekToEnd'' then metadata\<lparr>can_seek_to_end := uint b\<rparr>
           else if name = ascii ''stereo'' then metadata\<lparr>is_stereo := uint b\<rparr>
           else metadata)
   }"

text \<open>A tag that GStreamer does not know is registered first.\<close>

definition set_string :: "bytes option \<Rightarrow> bytes \<Rightarrow> FlvMetadata \<Rightarrow> FlvMetadata option" where
  "set_string value_name s metadata = do {
     name \<leftarrow> map_option c_string value_name;
     let metadata = (if name \<in> set (registered metadata) then metadata
                     else metadata\<lparr>registered := name # registered metadata\<rparr>)
     in Some (gst_tag_list_add name (Tag_string (c_string s)) metadata)
   }"

definition flv_metadata_value_handler :: "(64 word \<Rightarrow> int) \<Rightarrow> FlvMetadata handler" where
  "flv_metadata_value_handler wild rd value_name value_type metadata =
     (if value_type = FLV_SCRIPT_DATA_TYPE_DOUBLE then do {
        (v, rd) \<leftarrow> flv_script_data_read_double rd;
        case v of None \<Rightarrow> Some (False, rd, metadata)
        | Some d \<Rightarrow> do { metadata \<leftarrow> set_double wild value_name d metadata; Some (True, rd, metadata) }
      }
      else if value_type = FLV_SCRIPT_DATA_TYPE_BOOL then do {
        (v, rd) \<leftarrow> flv_script_data_read_ui8 rd;
        case v of None \<Rightarrow> Some (False, rd, metadata)
        | Some b \<Rightarrow> do { metadata \<leftarrow> set_bool value_name b metadata; Some (True, rd, metadata) }
      }
      else if value_type = FLV_SCRIPT_DATA_TYPE_STRING \<or> value_type = FLV_SCRIPT_DATA_TYPE_LONG_STRING then do {
        (v, rd) \<leftarrow> flv_script_data_read_string rd (value_type = FLV_SCRIPT_DATA_TYPE_LONG_STRING);
        case v of None \<Rightarrow> Some (False, rd, metadata)
        | Some s \<Rightarrow> do { metadata \<leftarrow> set_string value_name s metadata; Some (True, rd, metadata) }
      }
      else if value_type = FLV_SCRIPT_DATA_TYPE_OBJECT then do {
        is_keyframes \<leftarrow> strcmp_eq value_name ''keyframes'';
        if is_keyframes \<and> keyframes metadata = None
        then flv_script_data_read_object (flv_metadata_keyframe_handler wild) rd metadata
        else flv_script_data_read_object flv_metadata_skip_handler rd metadata
      }
      else if value_type = FLV_SCRIPT_DATA_TYPE_MOVIE_CLIP then Some (False, rd, metadata)
      else if value_type = FLV_SCRIPT_DATA_TYPE_NULL \<or> value_type = FLV_SCRIPT_DATA_TYPE_UNDEFINED then Some (True, rd, metadata)
      else if value_type = FLV_SCRIPT_DATA_TYPE_REFERENCE then Some (True, advance 2 rd, metadata)
      else if value_type = FLV_SCRIPT_DATA_TYPE_ECMA then
        flv_script_data_read_ecma flv_metadata_skip_handler rd metadata
      else if value_type = FLV_SCRIPT_DATA_TYPE_TERMINATOR then Some (True, rd, metadata)
      else if value_type = FLV_SCRIPT_DATA_TYPE_STRICT then
        flv_script_data_read_strict_array flv_metadata_skip_handler rd metadata
      else if value_type = FLV_SCRIPT_DATA_TYPE_DATE then Some (True, advance 10 rd, metadata)
      else Some (False, rd, metadata))"

section \<open>The script data of a tag\<close>

text \<open>Only a block named \<open>onMetaData\<close> is read; any other is accepted as it is.\<close>

definition flv_script_data_read ::
    "(64 word \<Rightarrow> int) \<Rightarrow> FlvScriptDataReader \<Rightarrow> FlvMetadata \<Rightarrow> (bool \<times> FlvScriptDataReader \<times> FlvMetadata) option" where
  "flv_script_data_read wild rd metadata = do {
     (value_type, rd) \<leftarrow> flv_script_data_read_ui8 rd;
     if value_type \<noteq> Some FLV_SCRIPT_DATA_TYPE_STRING then Some (True, rd, metadata)
     else do {
       (str, rd) \<leftarrow> flv_script_data_read_string rd False;
       case str of
         None \<Rightarrow> Some (False, rd, metadata)
       | Some str \<Rightarrow>
           if c_string str \<noteq> ascii ''onMetaData'' then Some (True, rd, metadata)
           else do {
             (value_type, rd) \<leftarrow> flv_script_data_read_ui8 rd;
             if value_type \<noteq> Some FLV_SCRIPT_DATA_TYPE_ECMA then Some (False, rd, metadata)
             else do {
               (result, rd, metadata) \<leftarrow> flv_script_data_read_ecma (flv_metadata_value_handler wild) rd
                 (if tag_list metadata = None then metadata\<lparr>tag_list := Some []\<rparr> else metadata);
               Some (result, rd, if result then metadata else metadata\<lparr>tag_list := None\<rparr>)
             }
           }
     }
   }"

end
