(* ===== verification/FlvReader.thy ===== *)
theory FlvReader
  imports FlvMetadata
begin

text \<open>
  The reader of script data is safe: whatever the bytes of a block are, it returns, it does not read
  outside the memory of the block, and it moves at most ten bytes past the end. The locale
  \<open>callback\<close> is the contract between the loops over objects and arrays and the functions they
  call back; it is interpreted for the three handlers of the source.
\<close>

section \<open>Positions\<close>

definition in_memory :: "FlvScriptDataReader \<Rightarrow> bool" where
  "in_memory rd \<longleftrightarrow> reader_end rd \<le> length (memory rd)"

definition left :: "FlvScriptDataReader \<Rightarrow> nat" where
  "left rd = reader_end rd - position rd"

definition moved :: "FlvScriptDataReader \<Rightarrow> FlvScriptDataReader \<Rightarrow> bool" where
  "moved rd rd' \<longleftrightarrow> memory rd' = memory rd \<and> reader_end rd' = reader_end rd \<and> position rd \<le> position rd' \<and>
     position rd' \<le> max (position rd) (reader_end rd + 10)"

lemma moved_refl [simp]: "moved rd rd"
  by (simp add: moved_def)

lemma moved_trans [trans]: "moved a b \<Longrightarrow> moved b c \<Longrightarrow> moved a c"
  by (auto simp: moved_def)

lemma moved_in_memory: "moved a b \<Longrightarrow> in_memory a \<Longrightarrow> in_memory b"
  by (simp add: moved_def in_memory_def)

lemma moved_left: "moved a b \<Longrightarrow> left b \<le> left a"
  by (auto simp: moved_def left_def)

lemma advance_fields [simp]:
  "memory (advance n rd) = memory rd" "reader_end (advance n rd) = reader_end rd" "position (advance n rd) = position rd + n"
  by (simp_all add: advance_def)

lemma moved_advance: "position rd + n \<le> max (position rd) (reader_end rd + 10) \<Longrightarrow> moved rd (advance n rd)"
  by (simp add: moved_def)

lemma from_moved:
  "returns m (\<lambda>(ok, rd', p). moved b rd' \<and> Q p) \<Longrightarrow> moved a b \<Longrightarrow> returns m (\<lambda>(ok, rd', p). moved a rd' \<and> Q p)"
  by (erule returns_conseq) (auto intro: moved_trans)

lemmas from_moved' = from_moved [where Q = "\<lambda>_. True", simplified]

text \<open>What the readers of single values promise: they return, and use \<open>n\<close> bytes or none.\<close>

definition uses :: "nat \<Rightarrow> FlvScriptDataReader \<Rightarrow> 'a option \<times> FlvScriptDataReader \<Rightarrow> bool" where
  "uses n rd = (\<lambda>(v, rd'). moved rd rd' \<and> (v \<noteq> None \<longrightarrow> position rd + n \<le> position rd' \<and> position rd + n \<le> reader_end rd \<and> position rd' \<le> reader_end rd))"

lemma ui8_total: "in_memory rd \<Longrightarrow> returns (flv_script_data_read_ui8 rd) (uses 1 rd)"
  by (auto simp: flv_script_data_read_ui8_def uses_def in_memory_def read_at_def moved_def)

lemma ui32_total: "in_memory rd \<Longrightarrow> returns (flv_script_data_read_ui32 rd) (uses 4 rd)"
  by (auto simp: flv_script_data_read_ui32_def uses_def in_memory_def bytes_at_def moved_def)

lemma double_total: "in_memory rd \<Longrightarrow> returns (flv_script_data_read_double rd) (uses 8 rd)"
  by (auto simp: flv_script_data_read_double_def uses_def in_memory_def bytes_at_def moved_def)

lemma string_total: "in_memory rd \<Longrightarrow> returns (flv_script_data_read_string rd long) (uses 2 rd)"
  by (auto simp: flv_script_data_read_string_def uses_def in_memory_def bytes_at_def moved_def Let_def)

lemma next_entry_total: "in_memory rd \<Longrightarrow> returns (next_entry rd)
   (\<lambda>(e, rd'). uses 3 rd (e, rd') \<and> (\<forall>t. e = Some (None, t) \<longrightarrow> t = 9))"
  unfolding next_entry_def
  apply (auto simp: uses_def in_memory_def bytes_at_def moved_def)
  apply (rule returns_bindI [OF string_total])
  apply (simp add: in_memory_def)
  apply (auto simp: uses_def moved_def split: option.split)
  apply (rule returns_bindI [OF ui8_total])
  apply (auto simp: uses_def moved_def in_memory_def)
  done

section \<open>The contract of a callback\<close>

locale callback =
  fixes callback :: "'p handler" and N :: nat and pre :: "bytes option \<Rightarrow> 8 word \<Rightarrow> bool" and inv :: "'p \<Rightarrow> bool"
  assumes callback_total: "in_memory rd \<Longrightarrow> position rd \<le> reader_end rd \<Longrightarrow> left rd < N \<Longrightarrow> pre name t \<Longrightarrow> inv p \<Longrightarrow>
    returns (callback rd name t p) (\<lambda>(ok, rd', p'). moved rd rd' \<and> inv p')"
begin


lemma object_total:
  assumes "in_memory rd" "left rd \<le> N" "inv p" "\<And>name t. (name = None \<longrightarrow> t = 9) \<Longrightarrow> pre name t"
  shows "returns (flv_script_data_read_object callback rd p) (\<lambda>(ok, rd', p'). moved rd rd' \<and> inv p')"
  using assms(1-3)
proof (induction "left rd" arbitrary: rd p rule: less_induct)
  case less
  show ?case
  proof (cases "position rd < reader_end rd")
    case True
    obtain e rd1 where e: "next_entry rd = Some (e, rd1)" "uses 3 rd (e, rd1)" "\<forall>t. e = Some (None, t) \<longrightarrow> t = 9"
      using next_entry_total [OF less.prems(1)] by (auto elim!: returnsE)
    then have m1: "moved rd rd1" "in_memory rd1" using less.prems(1) by (auto simp: uses_def intro: moved_in_memory)
    show ?thesis
    proof (cases e)
      case None
      with True e m1 less.prems show ?thesis by (subst flv_script_data_read_object.simps) simp
    next
      case (Some nt)
      obtain name t where nt: "nt = (name, t)" by force
      have l1: "left rd1 < left rd" using e Some True by (auto simp: uses_def left_def moved_def)
      obtain ok rd2 p2 where c: "callback rd1 name t p = Some (ok, rd2, p2)" "moved rd1 rd2" "inv p2"
        using callback_total [OF m1(2) _, of name t p] e(2) m1(1) l1 less.prems e(3) Some nt assms(4) by (auto simp: uses_def moved_def elim!: returnsE)
      have rest: "returns (flv_script_data_read_object callback rd2 p2) (\<lambda>(ok, rd', p'). moved rd2 rd' \<and> inv p')"
        using less.hyps [of rd2 p2] l1 moved_left [OF c(2)] moved_in_memory [OF c(2) m1(2)] less.prems c(3) by simp
      show ?thesis
        using True e Some nt c m1 rest by (subst flv_script_data_read_object.simps)
          (auto intro: moved_trans returns_conseq elim!: returns_conseq)
    qed
  next
    case False
    then show ?thesis using less.prems by (subst flv_script_data_read_object.simps) simp
  qed
qed


lemma ecma_total:
  assumes "in_memory rd" "left rd \<le> N" "inv p" "\<And>name t. (name = None \<longrightarrow> t = 9) \<Longrightarrow> pre name t"
  shows "returns (flv_script_data_read_ecma callback rd p) (\<lambda>(ok, rd', p'). moved rd rd' \<and> inv p')"
proof -
  obtain v rd1 where v: "flv_script_data_read_ui32 rd = Some (v, rd1)" "moved rd rd1"
    using ui32_total [OF assms(1)] by (auto simp: uses_def elim!: returnsE)
  have "returns (flv_script_data_read_object callback rd1 p) (\<lambda>(ok, rd', p'). moved rd1 rd' \<and> inv p')"
    using object_total [OF moved_in_memory [OF v(2) assms(1)] _ assms(3)] moved_left [OF v(2)] assms(2,4) by simp
  with v assms(3) show ?thesis
    by (auto simp: flv_script_data_read_ecma_def intro: from_moved [OF _ v(2)] split: option.split)
qed

lemma strict_loop_total:
  assumes "in_memory rd" "left rd \<le> N" "inv p" "\<And>t. pre None t"
  shows "returns (strict_loop callback n rd p) (\<lambda>(ok, rd', p'). moved rd rd' \<and> inv p')"
  using assms(1-3)
proof (induction n arbitrary: rd p)
  case (Suc n)
  obtain v rd1 where v: "flv_script_data_read_ui8 rd = Some (v, rd1)" "uses 1 rd (v, rd1)"
    using ui8_total [OF Suc.prems(1)] by (auto elim!: returnsE)
  then have m1: "moved rd rd1" "in_memory rd1" using Suc.prems(1) by (auto simp: uses_def intro: moved_in_memory)
  show ?case
  proof (cases v)
    case None
    with v m1 Suc.prems show ?thesis by simp
  next
    case (Some t)
    have "position rd1 \<le> reader_end rd1" using v(2) Some by (simp add: uses_def moved_def)
    moreover have l1: "left rd1 < left rd" using v Some by (auto simp: uses_def left_def moved_def)
    ultimately obtain ok rd2 p2 where c: "callback rd1 None t p = Some (ok, rd2, p2)" "moved rd1 rd2" "inv p2"
      using callback_total [OF m1(2) _, of None t p] Suc.prems assms(4) by (auto elim!: returnsE)
    have "returns (strict_loop callback n rd2 p2) (\<lambda>(ok, rd', p'). moved rd2 rd' \<and> inv p')"
      using Suc.IH [OF moved_in_memory [OF c(2) m1(2)] _ c(3)] l1 moved_left [OF c(2)] Suc.prems by simp
    with v Some c m1 show ?thesis by (auto intro: moved_trans elim!: returns_conseq)
  qed
qed simp

lemma strict_total:
  assumes "in_memory rd" "left rd \<le> N" "inv p" "\<And>t. pre None t"
  shows "returns (flv_script_data_read_strict_array callback rd p) (\<lambda>(ok, rd', p'). moved rd rd' \<and> inv p')"
proof -
  obtain v rd1 where v: "flv_script_data_read_ui32 rd = Some (v, rd1)" "moved rd rd1"
    using ui32_total [OF assms(1)] by (auto simp: uses_def elim!: returnsE)
  have "returns (strict_loop callback n rd1 p) (\<lambda>(ok, rd', p'). moved rd1 rd' \<and> inv p')" for n
    using strict_loop_total [OF moved_in_memory [OF v(2) assms(1)] _ assms(3,4)] moved_left [OF v(2)] assms(2) by simp
  with v assms(3) show ?thesis
    by (auto simp: flv_script_data_read_strict_array_def intro: from_moved [OF _ v(2)] split: option.split)
qed

end

section \<open>The handlers\<close>

lemma uses_moved: "uses n rd (v, rd') \<Longrightarrow> moved rd rd'"
  by (simp add: uses_def)

lemma value_read:
  assumes "returns m (uses n rd)" "\<And>v rd'. moved rd rd' \<Longrightarrow> returns (f v rd') Q"
  shows "returns (do { (v, rd) \<leftarrow> m; f v rd }) Q"
  using assms by (auto intro!: returns_bindI dest: uses_moved)

lemma skip_total:
  "in_memory rd \<Longrightarrow> returns (flv_metadata_skip_handler rd name t p) (\<lambda>(ok, rd', p'). moved rd rd' \<and> p' = p)"
proof (induction "left rd" arbitrary: rd name t p rule: less_induct)
  case less
  have "callback flv_metadata_skip_handler (left rd) (\<lambda>_ _. True) (\<lambda>p'. p' = p)"
    using less.hyps by unfold_locales blast
  note nested = callback.object_total [OF this less.prems] callback.ecma_total [OF this less.prems]
    callback.strict_total [OF this less.prems]
  show ?case
    using nested ui8_total [OF less.prems] double_total [OF less.prems] string_total [OF less.prems, of False]
    by (subst flv_metadata_skip_handler.simps) (simp add: value_read)
qed

interpretation skip: callback flv_metadata_skip_handler N "\<lambda>_ _. True" "\<lambda>p'. p' = p" for N p
  by unfold_locales (use skip_total in auto)

lemma keyframe_loop_total:
  "in_memory rd \<Longrightarrow> returns (keyframe_loop wild w n r rd ks) (\<lambda>(ok, rd', ks'). moved rd rd')"
proof (induction n arbitrary: r rd ks)
  case (Suc n)
  have IH: "moved rd rd' \<Longrightarrow> returns (keyframe_loop wild w n r' rd' ks') (\<lambda>(ok, rd'', ks'). moved rd rd'')" for rd' r' ks'
    by (rule from_moved' [OF Suc.IH]) (auto intro: moved_in_memory Suc.prems)
  obtain v rd1 where v: "flv_script_data_read_ui8 rd = Some (v, rd1)" "moved rd rd1"
    using ui8_total [OF Suc.prems(1)] by (auto simp: uses_def elim!: returnsE)
  obtain d rd2 where d: "flv_script_data_read_double rd1 = Some (d, rd2)" "moved rd1 rd2"
    using double_total [OF moved_in_memory [OF v(2) Suc.prems]] by (auto simp: uses_def elim!: returnsE)
  then have m: "moved rd rd2" using v by (blast intro: moved_trans)
  show ?case using v d m IH [OF m] by (auto simp: Let_def split: option.split)
qed simp

lemma keyframe_array_total:
  assumes "in_memory rd" "name \<noteq> None"
  shows "returns (flv_script_read_keyframe_array wild rd name ks) (\<lambda>(ok, rd', ks'). moved rd rd')"
proof -
  obtain v rd1 where v: "flv_script_data_read_ui32 rd = Some (v, rd1)" "moved rd rd1"
    using ui32_total [OF assms(1)] by (auto simp: uses_def elim!: returnsE)
  have "returns (keyframe_loop wild w n r rd1 ks) (\<lambda>(ok, rd', ks'). moved rd rd')" for w n r ks
    by (rule from_moved' [OF keyframe_loop_total]) (use v(2) assms(1) in \<open>auto intro: moved_in_memory\<close>)
  with v assms(2) show ?thesis
    by (auto simp: flv_script_read_keyframe_array_def strcmp_eq_def Let_def split: option.split)
qed

text \<open>A tag list is not lost while a block is read, and every tag in it is one that GStreamer knows.\<close>

definition tags_ok :: "FlvMetadata \<Rightarrow> bool" where
  "tags_ok md \<longleftrightarrow> (\<forall>tags. tag_list md = Some tags \<longrightarrow>
     (\<forall>(tag, v) \<in> set tags. tag = ascii ''duration'' \<or> tag \<in> set (registered md)))"

definition reading :: "FlvMetadata \<Rightarrow> bool" where
  "reading md \<longleftrightarrow> tag_list md \<noteq> None \<and> tags_ok md"

lemma keyframe_handler_total:
  assumes "in_memory rd" "name = None \<longrightarrow> t = 9" "reading md"
  shows "returns (flv_metadata_keyframe_handler wild rd name t md) (\<lambda>(ok, rd', md'). moved rd rd' \<and> reading md')"
  unfolding flv_metadata_keyframe_handler_def
  using keyframe_array_total [OF assms(1), of name wild] assms
  by (auto intro!: returns_bindI elim!: returns_conseq simp: reading_def tags_ok_def)

interpretation kf: callback "flv_metadata_keyframe_handler wild" N "\<lambda>name t. name = None \<longrightarrow> t = 9" reading for wild N
  by unfold_locales (use keyframe_handler_total in blast)


lemma set_update_subset: "x \<in> set (AList.update k v xs) \<Longrightarrow> x = (k, v) \<or> x \<in> set xs"
  by (induction xs) (auto split: if_splits)

lemma tags_update:
  "tags_ok md \<Longrightarrow> tag = ascii ''duration'' \<or> tag \<in> set (registered md) \<Longrightarrow> tags_ok (gst_tag_list_add tag v md)"
  by (auto simp: tags_ok_def gst_tag_list_add_def dest!: set_update_subset)

lemma set_double_total:
  "name \<noteq> None \<Longrightarrow> reading md \<Longrightarrow> returns (set_double wild name d md) reading"
  by (auto simp: set_double_def Let_def reading_def gst_tag_list_add_def tags_ok_def dest!: set_update_subset)


lemma set_bool_total: "name \<noteq> None \<Longrightarrow> reading md \<Longrightarrow> returns (set_bool name b md) reading"
  by (auto simp: set_bool_def reading_def tags_ok_def)

lemma set_string_total: "name \<noteq> None \<Longrightarrow> reading md \<Longrightarrow> returns (set_string name v md) reading"
  by (auto simp: set_string_def Let_def reading_def gst_tag_list_add_def tags_ok_def dest!: set_update_subset)

lemmas set_total = set_double_total set_bool_total set_string_total

text \<open>A value is read and stored under the name.\<close>

lemma value_stored:
  assumes "returns m (uses n rd)" "\<And>v. returns (f v) reading" "reading md"
  shows "returns (do { (v, rd) \<leftarrow> m; case v of None \<Rightarrow> Some (False, rd, md)
                      | Some v \<Rightarrow> do { md \<leftarrow> f v; Some (True, rd, md) } }) (\<lambda>(ok, rd', md'). moved rd rd' \<and> reading md')"
proof (rule value_read [OF assms(1)])
  fix v rd' assume "moved rd rd'"
  then show "returns (case v of None \<Rightarrow> Some (False, rd', md) | Some v \<Rightarrow> do { md \<leftarrow> f v; Some (True, rd', md) })
      (\<lambda>(ok, rd', md'). moved rd rd' \<and> reading md')"
    using assms(2,3) by (cases v) (auto intro!: returns_bindI [where P = reading])
qed

lemma skipped_reading: "returns m (\<lambda>(ok, rd', p'). moved rd rd' \<and> p' = md) \<Longrightarrow> reading md \<Longrightarrow>
   returns m (\<lambda>(ok, rd', md'). moved rd rd' \<and> reading md')"
  by (erule returns_conseq) auto

lemma returns_if: "(c \<Longrightarrow> returns a Q) \<Longrightarrow> (\<not> c \<Longrightarrow> returns b Q) \<Longrightarrow> returns (if c then a else b) Q"
  by simp

lemma bind_simps: "Option.bind (Some x) f = f x"
  by simp

lemma value_handler_total:
  assumes "in_memory rd" "position rd \<le> reader_end rd" "name = None \<longrightarrow> t = 9" "reading md"
  shows "returns (flv_metadata_value_handler wild rd name t md) (\<lambda>(ok, rd', md'). moved rd rd' \<and> reading md')"
proof (cases "t = 9")
  case True
  with assms(4) show ?thesis by (simp add: flv_metadata_value_handler_def)
next
  case False
  with assms(3) have n: "name \<noteq> None" by blast
  note sk = skip.object_total [OF assms(1) le_refl refl, THEN skipped_reading, OF _ assms(4)]
    skip.ecma_total [OF assms(1) le_refl refl, THEN skipped_reading, OF _ assms(4)]
    skip.strict_total [OF assms(1) le_refl refl, THEN skipped_reading, OF _ assms(4)]
  have kf: "returns (flv_script_data_read_object (flv_metadata_keyframe_handler wild) rd md)
      (\<lambda>(ok, rd', md'). moved rd rd' \<and> reading md')"
    by (rule kf.object_total [OF assms(1) le_refl assms(4)]) simp
  have st: "strcmp_eq name lit \<noteq> None" for lit using n by (simp add: strcmp_eq_def)
  have adv: "n \<le> 10 \<Longrightarrow> moved rd (advance n rd)" for n using assms(2) by (intro moved_advance) simp
  note vs = value_stored [OF ui8_total [OF assms(1)] set_bool_total [OF n assms(4)] assms(4)]
    value_stored [OF double_total [OF assms(1)] set_double_total [OF n assms(4)] assms(4)]
    value_stored [OF string_total [OF assms(1)] set_string_total [OF n assms(4)] assms(4)]
  obtain b where b: "strcmp_eq name ''keyframes'' = Some b" using st by blast
  show ?thesis
    unfolding flv_metadata_value_handler_def b bind_simps
    by (intro returns_if vs sk kf) (use assms(4) adv in auto)
qed

interpretation md: callback "flv_metadata_value_handler wild" N "\<lambda>name t. name = None \<longrightarrow> t = 9" reading for wild N
  by unfold_locales (use value_handler_total in blast)

lemma script_data_total:
  assumes "in_memory rd" "tags_ok md"
  shows "returns (flv_script_data_read wild rd md) (\<lambda>(ok, rd', md'). moved rd rd' \<and> tags_ok md')"
proof -
  have top: "returns (flv_script_data_read_ecma (flv_metadata_value_handler wild) rd' md')
     (\<lambda>(ok, rd', md'). moved rd rd' \<and> reading md')" if "moved rd rd'" "reading md'" for rd' md'
    by (rule from_moved [OF md.ecma_total [OF moved_in_memory [OF that(1) assms(1)] le_refl that(2)] that(1)]) simp
  have start: "reading (if tag_list md = None then md\<lparr>tag_list := Some []\<rparr> else md)"
    using assms(2) by (auto simp: reading_def tags_ok_def)
  obtain v rd1 where v: "flv_script_data_read_ui8 rd = Some (v, rd1)" "moved rd rd1"
    using ui8_total [OF assms(1)] by (auto simp: uses_def elim!: returnsE)
  obtain str rd2 where str: "flv_script_data_read_string rd1 False = Some (str, rd2)" "moved rd rd2"
    using string_total [OF moved_in_memory [OF v(2) assms(1)], of False] v(2)
    by (auto simp: uses_def intro: moved_trans elim!: returnsE)
  obtain t rd3 where t: "flv_script_data_read_ui8 rd2 = Some (t, rd3)" "moved rd rd3"
    using ui8_total [OF moved_in_memory [OF str(2) assms(1)]] str(2)
    by (auto simp: uses_def intro: moved_trans elim!: returnsE)
  have "returns (do { (result, rd, metadata) \<leftarrow> flv_script_data_read_ecma (flv_metadata_value_handler wild) rd3
                 (if tag_list md = None then md\<lparr>tag_list := Some []\<rparr> else md);
               Some (result, rd, if result then metadata else metadata\<lparr>tag_list := None\<rparr>) })
     (\<lambda>(ok, rd', md'). moved rd rd' \<and> tags_ok md')"
    by (rule returns_bindI [OF top [OF t(2) start]]) (auto simp: reading_def tags_ok_def)
  then show ?thesis
    using v str t assms(2) by (auto simp: flv_script_data_read_def split: option.split)
qed

end
