(* ===== verification/FlvScript.thy ===== *)
theory FlvScript
  imports FlvReader
begin

text \<open>
  Script data as AMF encodes it, and what the reader makes of it: a value that is skipped is skipped
  exactly, a block of metadata is stored entry by entry, and the two lists of a table of key frames are
  never put together.
\<close>

section \<open>Bytes ahead of a reader\<close>

definition ahead :: "FlvScriptDataReader \<Rightarrow> bytes \<Rightarrow> bool" where
  "ahead rd bs \<longleftrightarrow> in_memory rd \<and> position rd + length bs \<le> reader_end rd \<and>
     take (length bs) (drop (position rd) (memory rd)) = bs"

lemma ahead_append: "ahead rd (xs @ ys) \<longleftrightarrow> ahead rd xs \<and> ahead (advance (length xs) rd) ys"
proof
  assume a: "ahead rd (xs @ ys)"
  then have len: "length xs + length ys \<le> length (memory rd) - position rd" by (auto simp: ahead_def in_memory_def)
  from a have "take (length xs + length ys) (drop (position rd) (memory rd)) = xs @ ys" by (simp add: ahead_def)
  then have "take (length xs) (drop (position rd) (memory rd)) = xs"
    "take (length ys) (drop (length xs) (drop (position rd) (memory rd))) = ys"
    using len by (simp_all add: take_add append_eq_append_conv_if)
  with a show "ahead rd xs \<and> ahead (advance (length xs) rd) ys"
    by (simp add: ahead_def in_memory_def add.commute)
next
  assume a: "ahead rd xs \<and> ahead (advance (length xs) rd) ys"
  then show "ahead rd (xs @ ys)"
    by (simp add: ahead_def in_memory_def take_add [of "length xs" "length ys"] add.commute [of "length xs" "position rd"])
qed

lemma ahead_Cons: "ahead rd (x # ys) \<longleftrightarrow> ahead rd [x] \<and> ahead (advance 1 rd) ys"
  using ahead_append [of rd "[x]" ys] by simp

lemma advance_0 [simp]: "advance 0 rd = rd"
  by (simp add: advance_def)

lemma advance_advance [simp]: "advance n (advance m rd) = advance (m + n) rd"
  by (simp add: advance_def add.assoc)

lemma ahead_in_memory: "ahead rd bs \<Longrightarrow> in_memory rd"
  by (simp add: ahead_def)

lemma bytes_ahead: "ahead rd bs \<Longrightarrow> n = length bs \<Longrightarrow> bytes_at (memory rd) (position rd) n = Some bs"
  by (simp add: ahead_def bytes_at_def in_memory_def)

lemma end_ahead: "ahead rd bs \<Longrightarrow> position rd + length bs \<le> reader_end rd"
  by (simp add: ahead_def)

lemma ui8_ahead [simp]: "ahead rd [b] \<Longrightarrow> flv_script_data_read_ui8 rd = Some (Some b, advance 1 rd)"
  by (auto simp: flv_script_data_read_ui8_def ahead_def in_memory_def read_at_def take_Suc_conv_app_nth Cons_nth_drop_Suc
    take_Suc hd_drop_conv_nth)

lemma ui32_ahead: "ahead rd bs \<Longrightarrow> length bs = 4 \<Longrightarrow> flv_script_data_read_ui32 rd = Some (Some (be_nat bs), advance 4 rd)"
  using bytes_ahead [of rd bs 4] end_ahead [of rd bs] by (simp add: flv_script_data_read_ui32_def)

lemma double_ahead:
  "ahead rd bs \<Longrightarrow> length bs = 8 \<Longrightarrow> flv_script_data_read_double rd = Some (Some (FLV_READ_DOUBLE_BE bs), advance 8 rd)"
  using bytes_ahead [of rd bs 8] end_ahead [of rd bs] by (simp add: flv_script_data_read_double_def)

definition string_bytes :: "bytes \<Rightarrow> bytes" where
  "string_bytes s = be_bytes 2 (length s) @ s"

definition long_string_bytes :: "bytes \<Rightarrow> bytes" where
  "long_string_bytes s = be_bytes 4 (length s) @ s"

lemma string_ahead:
  assumes "ahead rd (string_bytes s)" "length s < 65536"
  shows "flv_script_data_read_string rd False = Some (Some s, advance (2 + length s) rd)"
proof -
  have a: "ahead rd (be_bytes 2 (length s))" "ahead (advance 2 rd) s"
    using assms(1) by (simp_all add: string_bytes_def ahead_append)
  have n: "be_nat (be_bytes 2 (length s)) = length s" using assms(2) by (intro be_nat_bytes) simp
  show ?thesis
    using bytes_ahead [OF a(1), of 2] bytes_ahead [OF a(2), of "length s"] end_ahead [OF a(2)] end_ahead [OF a(1)] assms(2)
    by (simp add: flv_script_data_read_string_def n Let_def del: be_bytes.simps)
qed

lemma long_string_ahead:
  assumes "ahead rd (long_string_bytes s)" "length s < 2 ^ 32"
  shows "flv_script_data_read_string rd True = Some (Some s, advance (4 + length s) rd)"
proof -
  have a: "ahead rd (be_bytes 4 (length s))" "ahead (advance 4 rd) s"
    using assms(1) by (simp_all add: long_string_bytes_def ahead_append)
  have n: "be_nat (be_bytes 4 (length s)) = length s" using assms(2) by (intro be_nat_bytes) simp
  show ?thesis
    using bytes_ahead [OF a(1), of 4] bytes_ahead [OF a(2), of "length s"] end_ahead [OF a(2)] end_ahead [OF a(1)] assms(2)
    by (simp add: flv_script_data_read_string_def n Let_def del: be_bytes.simps)
qed

section \<open>Encoding\<close>

datatype amf =
    Amf_double "64 word"
  | Amf_bool "8 word"
  | Amf_string bytes
  | Amf_object "(bytes \<times> amf) list"
  | Amf_ecma "(bytes \<times> amf) list"
  | Amf_strict "amf list"

fun amf_type :: "amf \<Rightarrow> 8 word" where
  "amf_type (Amf_double d) = FLV_SCRIPT_DATA_TYPE_DOUBLE"
| "amf_type (Amf_bool b) = FLV_SCRIPT_DATA_TYPE_BOOL"
| "amf_type (Amf_string s) = FLV_SCRIPT_DATA_TYPE_STRING"
| "amf_type (Amf_object es) = FLV_SCRIPT_DATA_TYPE_OBJECT"
| "amf_type (Amf_ecma es) = FLV_SCRIPT_DATA_TYPE_ECMA"
| "amf_type (Amf_strict vs) = FLV_SCRIPT_DATA_TYPE_STRICT"

fun amf_bytes :: "amf \<Rightarrow> bytes" and entries_bytes :: "(bytes \<times> amf) list \<Rightarrow> bytes" and items_bytes :: "amf list \<Rightarrow> bytes" where
  "amf_bytes (Amf_double d) = be_bytes 8 (unat d)"
| "amf_bytes (Amf_bool b) = [b]"
| "amf_bytes (Amf_string s) = string_bytes s"
| "amf_bytes (Amf_object es) = entries_bytes es"
| "amf_bytes (Amf_ecma es) = be_bytes 4 (length es) @ entries_bytes es"
| "amf_bytes (Amf_strict vs) = be_bytes 4 (length vs) @ items_bytes vs"
| "entries_bytes [] = [0, 0, 9]"
| "entries_bytes ((name, v) # es) = string_bytes name @ amf_type v # amf_bytes v @ entries_bytes es"
| "items_bytes [] = []"
| "items_bytes (v # vs) = amf_type v # amf_bytes v @ items_bytes vs"

text \<open>What fits in the format.\<close>

fun amf_fits :: "amf \<Rightarrow> bool" and entries_fit :: "(bytes \<times> amf) list \<Rightarrow> bool" and items_fit :: "amf list \<Rightarrow> bool" where
  "amf_fits (Amf_double d) = True"
| "amf_fits (Amf_bool b) = True"
| "amf_fits (Amf_string s) = (length s < 65536)"
| "amf_fits (Amf_object es) = entries_fit es"
| "amf_fits (Amf_ecma es) = entries_fit es"
| "amf_fits (Amf_strict vs) = (length vs < 2 ^ 32 \<and> items_fit vs)"
| "entries_fit [] = True"
| "entries_fit ((name, v) # es) = (length name < 65536 \<and> amf_fits v \<and> entries_fit es)"
| "items_fit [] = True"
| "items_fit (v # vs) = (amf_fits v \<and> items_fit vs)"

lemma type_not_9 [simp]: "amf_type v \<noteq> 9"
  by (cases v) auto

lemma double_bytes: "FLV_READ_DOUBLE_BE (be_bytes 8 (unat d)) = d"
proof -
  have "be_nat (be_bytes 8 (unat d)) = unat d" using unsigned_less [of d] by (intro be_nat_bytes) simp
  then show ?thesis by (simp add: FLV_READ_DOUBLE_BE_def)
qed

lemma entry_ahead:
  assumes "ahead rd (string_bytes name @ [t])" "length name < 65536" "t \<noteq> 9"
  shows "next_entry rd = Some (Some (Some name, t), advance (3 + length name) rd)"
proof -
  have a: "ahead rd (string_bytes name)" "ahead (advance (2 + length name) rd) [t]"
    using assms(1) by (simp_all add: ahead_append string_bytes_def)
  have e: "position rd + 3 \<le> reader_end rd" using end_ahead [OF assms(1)] by (simp add: string_bytes_def)
  have m: "bytes_at (memory rd) (position rd) 3 = Some (take 3 (drop (position rd) (memory rd)))"
    using e ahead_in_memory [OF assms(1)] by (simp add: bytes_at_def in_memory_def)
  have "take 3 (drop (position rd) (memory rd)) = take 3 (string_bytes name @ [t])"
    using assms(1) by (auto simp: ahead_def string_bytes_def min_def dest: arg_cong [where f = "take 3"])
  moreover have "take 3 (string_bytes name @ [t]) \<noteq> [0, 0, 9]"
  proof (cases name)
    case Nil
    then show ?thesis using assms(3) by (simp add: string_bytes_def numeral_2_eq_2)
  next
    case (Cons c cs)
    have "be_nat (be_bytes 2 (length name)) \<noteq> be_nat [0, 0]"
      using assms(2) Cons by (subst be_nat_bytes) (simp_all add: be_nat_def)
    then have "be_bytes 2 (length name) \<noteq> [0, 0]" by metis
    moreover have "take 2 (take 3 (string_bytes name @ [t])) = be_bytes 2 (length name)" by (simp add: string_bytes_def min_def)
    ultimately show ?thesis by (metis take_Suc_Cons take_0 numeral_2_eq_2)
  qed
  ultimately show ?thesis
    using e m string_ahead [OF a(1) assms(2)] ui8_ahead [OF a(2)]
    by (simp add: next_entry_def add.assoc [symmetric])
qed

section \<open>Reading entries\<close>

definition raw_entries :: "(bytes \<times> 8 word \<times> bytes) list \<Rightarrow> bytes" where
  "raw_entries es = concat (map (\<lambda>(name, t, body). string_bytes name @ t # body) es) @ [0, 0, 9]"

lemma raw_entries_simps [simp]:
  "raw_entries [] = [0, 0, 9]"
  "raw_entries ((name, t, body) # es) = (string_bytes name @ [t]) @ body @ raw_entries es"
  by (simp_all add: raw_entries_def)

lemma terminator_ahead:
  "ahead rd [0, 0, 9] \<Longrightarrow> next_entry rd = Some (Some (None, 9), advance 3 rd)"
  using bytes_ahead [of rd "[0, 0, 9]" 3] end_ahead [of rd "[0, 0, 9]"] by (simp add: next_entry_def)

lemma length_string_bytes [simp]: "length (string_bytes s) = 2 + length s"
  by (simp add: string_bytes_def)

lemma object_step:
  assumes "ahead rd (raw_entries ((name, t, body) # es))" "length name < 65536" "t \<noteq> 9"
    and "ahead (advance (3 + length name) rd) body \<Longrightarrow>
      f (advance (3 + length name) rd) (Some name) t p = Some (True, advance (3 + length name + length body) rd, p')"
  shows "flv_script_data_read_object f rd p = flv_script_data_read_object f (advance (3 + length name + length body) rd) p'"
    and "ahead (advance (3 + length name + length body) rd) (raw_entries es)"
proof -
  have a: "ahead rd (string_bytes name @ [t])" "ahead (advance (3 + length name) rd) body"
    "ahead (advance (3 + length name + length body) rd) (raw_entries es)"
    using assms(1) unfolding raw_entries_simps ahead_append [of _ "string_bytes name @ [t]"] ahead_append [of _ body]
    by (simp_all add: eval_nat_numeral)
  then show "ahead (advance (3 + length name + length body) rd) (raw_entries es)" by simp
  have "position rd < reader_end rd" using end_ahead [OF a(1)] by simp
  then show "flv_script_data_read_object f rd p = flv_script_data_read_object f (advance (3 + length name + length body) rd) p'"
    using entry_ahead [OF a(1) assms(2,3)] assms(3) assms(4) [OF a(2)]
    by (subst flv_script_data_read_object.simps) simp
qed

lemma object_end:
  "ahead rd (raw_entries []) \<Longrightarrow> f (advance 3 rd) None 9 p = Some (True, advance 3 rd, p) \<Longrightarrow>
     flv_script_data_read_object f rd p = Some (True, advance 3 rd, p)"
  using terminator_ahead [of rd] end_ahead [of rd "raw_entries []"]
  by (subst flv_script_data_read_object.simps) simp

lemma object_entries:
  assumes "ahead rd (raw_entries (map (\<lambda>x. (name x, type x, body x)) xs))" "\<And>rd p. f rd None 9 p = Some (True, rd, p)"
    and "\<And>x rd p. x \<in> set xs \<Longrightarrow> ahead rd (body x) \<Longrightarrow> length (name x) < 65536 \<and> type x \<noteq> 9 \<and>
      f rd (Some (name x)) (type x) p = Some (True, advance (length (body x)) rd, g x p)"
  shows "flv_script_data_read_object f rd p =
    Some (True, advance (length (raw_entries (map (\<lambda>x. (name x, type x, body x)) xs))) rd, fold g xs p)"
  using assms(1,3)
proof (induction xs arbitrary: rd p)
  case Nil
  then show ?case using object_end [of rd f p] assms(2) by simp
next
  case (Cons x xs)
  let ?rd = "advance (3 + length (name x) + length (body x)) rd"
  have body: "ahead (advance (3 + length (name x)) rd) (body x)"
    using Cons.prems(1) unfolding list.map raw_entries_simps ahead_append [of _ "string_bytes (name x) @ [type x]"]
    by (simp add: ahead_append eval_nat_numeral)
  have h: "length (name x) < 65536" "type x \<noteq> 9"
    "f (advance (3 + length (name x)) rd) (Some (name x)) (type x) p = Some (True, ?rd, g x p)"
    using Cons.prems(2) [of x, OF _ body, of p] by auto
  note step = object_step [OF Cons.prems(1) [unfolded list.map] h(1,2), of f p "g x p"]
  have "flv_script_data_read_object f rd p = flv_script_data_read_object f ?rd (g x p)"
    "ahead ?rd (raw_entries (map (\<lambda>x. (name x, type x, body x)) xs))"
    using step h(3) by simp_all
  then show ?case
    using Cons.IH [OF _ Cons.prems(2) [OF list.set_intros(2)], of ?rd "g x p"] by (simp add: add.assoc)
qed

lemma entries_raw: "entries_bytes es = raw_entries (map (\<lambda>(name, v). (name, amf_type v, amf_bytes v)) es)"
  by (induction es) auto

lemma fold_same [simp]: "fold (\<lambda>x p. p) xs p = p"
  by (induction xs) auto

lemma be_ahead: "ahead rd (be_bytes 4 n @ bs) \<Longrightarrow> n < 2 ^ 32 \<Longrightarrow>
   flv_script_data_read_ui32 rd = Some (Some n, advance 4 rd) \<and> ahead (advance 4 rd) bs"
  using ui32_ahead [of rd "be_bytes 4 n"] be_nat_bytes [of n 4] by (simp add: ahead_append)

lemma be_ahead': "ahead rd (be_bytes 4 n @ bs) \<Longrightarrow>
   \<exists>m. flv_script_data_read_ui32 rd = Some (Some m, advance 4 rd) \<and> ahead (advance 4 rd) bs"
  using ui32_ahead [of rd "be_bytes 4 n"] by (simp add: ahead_append)

lemma skip_amf:
  "ahead rd (amf_bytes v) \<Longrightarrow> amf_fits v \<Longrightarrow>
     flv_metadata_skip_handler rd name (amf_type v) p = Some (True, advance (length (amf_bytes v)) rd, p)"
  "ahead rd (entries_bytes es) \<Longrightarrow> entries_fit es \<Longrightarrow>
     flv_script_data_read_object flv_metadata_skip_handler rd p = Some (True, advance (length (entries_bytes es)) rd, p)"
  "ahead rd (items_bytes vs) \<Longrightarrow> items_fit vs \<Longrightarrow>
     strict_loop flv_metadata_skip_handler (length vs) rd p = Some (True, advance (length (items_bytes vs)) rd, p)"
proof (induction v and es and vs arbitrary: rd name p and rd p and rd p rule: amf_bytes_entries_bytes_items_bytes.induct)
  case (1 d)
  then show ?case by (subst flv_metadata_skip_handler.simps) (simp add: double_ahead del: be_bytes.simps)
next
  case (2 b)
  then show ?case by (subst flv_metadata_skip_handler.simps) simp
next
  case (3 s)
  then show ?case by (subst flv_metadata_skip_handler.simps) (simp add: string_ahead)
next
  case (4 es)
  then show ?case by (subst flv_metadata_skip_handler.simps) simp
next
  case (5 es)
  then obtain m where "flv_script_data_read_ui32 rd = Some (Some m, advance 4 rd)" "ahead (advance 4 rd) (entries_bytes es)"
    using be_ahead' by fastforce
  with 5 show ?case
    by (subst flv_metadata_skip_handler.simps) (simp add: flv_script_data_read_ecma_def del: be_bytes.simps)
next
  case (6 vs)
  then have "flv_script_data_read_ui32 rd = Some (Some (length vs), advance 4 rd)" "ahead (advance 4 rd) (items_bytes vs)"
    using be_ahead [of rd "length vs"] by simp_all
  with 6 show ?case
    by (subst flv_metadata_skip_handler.simps) (simp add: flv_script_data_read_strict_array_def del: be_bytes.simps)
next
  case 7
  have "position rd < reader_end rd" using end_ahead [OF 7(1)] by simp
  with terminator_ahead [of rd] 7(1) show ?case
    by (subst flv_script_data_read_object.simps, subst flv_metadata_skip_handler.simps) simp
next
  case (8 name v es)
  have a: "ahead rd (string_bytes name @ [amf_type v])" "ahead (advance (3 + length name) rd) (amf_bytes v)"
    "ahead (advance (3 + length name + length (amf_bytes v)) rd) (entries_bytes es)"
    using 8(3) unfolding entries_bytes.simps by (simp_all add: ahead_append ahead_Cons [of _ _ "_ @ _"] eval_nat_numeral)
  have "position rd < reader_end rd" using end_ahead [OF a(1)] by simp
  with 8 a show ?case
    using entry_ahead [OF a(1)]
    by (subst flv_script_data_read_object.simps) (simp add: add.assoc)
next
  case 9
  then show ?case by simp
next
  case (10 v vs)
  have a: "ahead rd [amf_type v]" "ahead (advance 1 rd) (amf_bytes v)"
    "ahead (advance (1 + length (amf_bytes v)) rd) (items_bytes vs)"
    using 10(3) unfolding items_bytes.simps by (simp_all add: ahead_append ahead_Cons [of _ _ "_ @ _"])
  with 10 show ?case by simp
qed

section \<open>Metadata\<close>

datatype meta_value = Plain amf | Long_string bytes | Null | Undefined | Reference bytes | Date bytes

fun meta_type :: "meta_value \<Rightarrow> 8 word" where
  "meta_type (Plain v) = amf_type v"
| "meta_type (Long_string s) = FLV_SCRIPT_DATA_TYPE_LONG_STRING"
| "meta_type Null = FLV_SCRIPT_DATA_TYPE_NULL"
| "meta_type Undefined = FLV_SCRIPT_DATA_TYPE_UNDEFINED"
| "meta_type (Reference bs) = FLV_SCRIPT_DATA_TYPE_REFERENCE"
| "meta_type (Date bs) = FLV_SCRIPT_DATA_TYPE_DATE"

fun meta_bytes :: "meta_value \<Rightarrow> bytes" where
  "meta_bytes (Plain v) = amf_bytes v"
| "meta_bytes (Long_string s) = long_string_bytes s"
| "meta_bytes Null = []"
| "meta_bytes Undefined = []"
| "meta_bytes (Reference bs) = bs"
| "meta_bytes (Date bs) = bs"

definition keyframe_table :: "bytes \<Rightarrow> meta_value \<Rightarrow> bool" where
  "keyframe_table name v \<longleftrightarrow> c_string name = ascii ''keyframes'' \<and> (\<exists>es. v = Plain (Amf_object es))"

fun meta_fits :: "bytes \<times> meta_value \<Rightarrow> bool" where
  "meta_fits (name, v) \<longleftrightarrow> length name < 65536 \<and> (case v of
     Plain v \<Rightarrow> amf_fits v | Long_string s \<Rightarrow> length s < 2 ^ 32 | Reference bs \<Rightarrow> length bs = 2
   | Date bs \<Rightarrow> length bs = 10 | _ \<Rightarrow> True)"

definition metadata_block :: "(bytes \<times> meta_value) list \<Rightarrow> bytes" where
  "metadata_block es = (2 # string_bytes (ascii ''onMetaData'')) @ (8 # be_bytes 4 (length es)) @
     raw_entries (map (\<lambda>(name, v). (name, meta_type v, meta_bytes v)) es)"

text \<open>What one entry does to the metadata.\<close>

definition stored :: "FlvMetadata option \<Rightarrow> FlvMetadata \<Rightarrow> FlvMetadata" where
  "stored m md = (case m of None \<Rightarrow> md | Some md' \<Rightarrow> md')"

fun store :: "(64 word \<Rightarrow> int) \<Rightarrow> bytes \<times> meta_value \<Rightarrow> FlvMetadata \<Rightarrow> FlvMetadata" where
  "store wild (name, Plain (Amf_double d)) md = stored (set_double wild (Some name) d md) md"
| "store wild (name, Plain (Amf_bool b)) md = stored (set_bool (Some name) b md) md"
| "store wild (name, Plain (Amf_string s)) md = stored (set_string (Some name) s md) md"
| "store wild (name, Long_string s) md = stored (set_string (Some name) s md) md"
| "store wild (name, v) md = md"

lemma ascii_no_nul [simp]:
  "c_string (ascii ''onMetaData'') = ascii ''onMetaData''" "c_string (ascii ''times'') = ascii ''times''"
  "c_string (ascii ''filepositions'') = ascii ''filepositions''" "c_string (ascii ''keyframes'') = ascii ''keyframes''"
  by (simp_all add: ascii_def c_string_def of_char_def)

lemma ascii_lengths [simp]:
  "length (ascii s) = length s"
  by (simp add: ascii_def)

lemma set_some: "\<exists>md'. set_double wild (Some name) d md = Some md'" "\<exists>md'. set_bool (Some name) b md = Some md'"
  "\<exists>md'. set_string (Some name) s md = Some md'"
  by (simp_all add: set_double_def set_bool_def set_string_def Let_def)

lemma value_handler_store:
  assumes "meta_fits (name, v)" "\<not> keyframe_table name v" "ahead rd (meta_bytes v)"
  shows "flv_metadata_value_handler wild rd (Some name) (meta_type v) md =
     Some (True, advance (length (meta_bytes v)) rd, store wild (name, v) md)"
proof (cases v)
  case (Plain u)
  show ?thesis
  proof (cases u)
    case (Amf_double d)
    obtain md' where "set_double wild (Some name) d md = Some md'" using set_some by blast
    then show ?thesis using assms Plain Amf_double
      by (simp add: flv_metadata_value_handler_def double_ahead double_bytes stored_def del: be_bytes.simps)
  next
    case (Amf_bool b)
    obtain md' where "set_bool (Some name) b md = Some md'" using set_some by blast
    then show ?thesis using assms Plain Amf_bool
      by (simp add: flv_metadata_value_handler_def stored_def)
  next
    case (Amf_string s)
    obtain md' where "set_string (Some name) s md = Some md'" using set_some by blast
    then show ?thesis using assms Plain Amf_string
      by (simp add: flv_metadata_value_handler_def string_ahead stored_def)
  next
    case (Amf_object es)
    then show ?thesis using assms Plain skip_amf(2) [of rd es md]
      by (simp add: flv_metadata_value_handler_def keyframe_table_def strcmp_eq_def)
  next
    case (Amf_ecma es)
    obtain m where "flv_script_data_read_ui32 rd = Some (Some m, advance 4 rd)" "ahead (advance 4 rd) (entries_bytes es)"
      using be_ahead' [of rd "length es"] assms Plain Amf_ecma by fastforce
    then show ?thesis using assms Plain Amf_ecma skip_amf(2) [of "advance 4 rd" es md]
      by (simp add: flv_metadata_value_handler_def flv_script_data_read_ecma_def del: be_bytes.simps)
  next
    case (Amf_strict vs)
    have "flv_script_data_read_ui32 rd = Some (Some (length vs), advance 4 rd)" "ahead (advance 4 rd) (items_bytes vs)"
      using be_ahead [of rd "length vs" "items_bytes vs"] assms Plain Amf_strict by simp_all
    then show ?thesis using assms Plain Amf_strict skip_amf(3) [of "advance 4 rd" vs md]
      by (simp add: flv_metadata_value_handler_def flv_script_data_read_strict_array_def del: be_bytes.simps)
  qed
next
  case (Long_string s)
  obtain md' where "set_string (Some name) s md = Some md'" using set_some by blast
  then show ?thesis using assms Long_string
    by (simp add: flv_metadata_value_handler_def long_string_ahead stored_def long_string_bytes_def del: be_bytes.simps)
qed (use assms in \<open>simp_all add: flv_metadata_value_handler_def\<close>)

lemma block_start:
  assumes "ahead rd (metadata_block es)" "length es < 2 ^ 32"
  shows "flv_script_data_read wild rd md = do {
     (result, rd, metadata) \<leftarrow> flv_script_data_read_object (flv_metadata_value_handler wild) (advance 18 rd)
       (if tag_list md = None then md\<lparr>tag_list := Some []\<rparr> else md);
     Some (result, rd, if result then metadata else metadata\<lparr>tag_list := None\<rparr>)
   } \<and> ahead (advance 18 rd) (raw_entries (map (\<lambda>(name, v). (name, meta_type v, meta_bytes v)) es))"
proof -
  let ?n = "ascii ''onMetaData''" and ?r = "raw_entries (map (\<lambda>(name, v). (name, meta_type v, meta_bytes v)) es)"
  have a: "ahead rd [2]" "ahead (advance 1 rd) (string_bytes ?n)" "ahead (advance 13 rd) [8]"
    "ahead (advance 14 rd) (be_bytes 4 (length es) @ ?r)"
    using assms(1) unfolding metadata_block_def
    by (simp_all add: ahead_append ahead_Cons [of _ _ "_ @ _"] ahead_Cons [of _ _ "string_bytes _"] ahead_Cons [of _ _ "be_bytes _ _"])
  show ?thesis
    using ui8_ahead [OF a(1)] string_ahead [OF a(2)] ui8_ahead [OF a(3)] be_ahead [OF a(4) assms(2)]
    by (simp add: flv_script_data_read_def flv_script_data_read_ecma_def)
qed


lemma type_of_meta [simp]: "meta_type v \<noteq> 9"
  by (cases v) auto

lemma length_raw: "length (metadata_block es) = 18 + length (raw_entries (map (\<lambda>(name, v). (name, meta_type v, meta_bytes v)) es))"
  by (simp add: metadata_block_def)

lemma metadata_stored:
  assumes "ahead rd (metadata_block es)" "length es < 2 ^ 32"
    and "list_all meta_fits es" "list_all (\<lambda>(name, v). \<not> keyframe_table name v) es"
  shows "flv_script_data_read wild rd md = Some (True, advance (length (metadata_block es)) rd,
     fold (store wild) es (if tag_list md = None then md\<lparr>tag_list := Some []\<rparr> else md))"
proof -
  let ?raw = "map (\<lambda>(name, v). (name, meta_type v, meta_bytes v)) es"
    and ?md = "if tag_list md = None then md\<lparr>tag_list := Some []\<rparr> else md"
  have raw: "?raw = map (\<lambda>x. (fst x, meta_type (snd x), meta_bytes (snd x))) es" by (simp add: case_prod_beta)
  have "flv_script_data_read_object (flv_metadata_value_handler wild) (advance 18 rd) ?md =
     Some (True, advance (length (raw_entries ?raw)) (advance 18 rd), fold (store wild) es ?md)"
    unfolding raw
  proof (rule object_entries)
    fix x rd p
    assume x: "x \<in> set es" "ahead rd (meta_bytes (snd x))"
    then have "meta_fits x" "case x of (name, v) \<Rightarrow> \<not> keyframe_table name v" using assms(3,4) by (auto simp: list_all_iff)
    with x(2) show "length (fst x) < 65536 \<and> meta_type (snd x) \<noteq> 9 \<and>
        flv_metadata_value_handler wild rd (Some (fst x)) (meta_type (snd x)) p =
        Some (True, advance (length (meta_bytes (snd x))) rd, store wild x p)"
      using value_handler_store [of "fst x" "snd x" rd wild p] by (cases x) simp
  qed (use block_start [OF assms(1,2)] raw in \<open>simp_all add: flv_metadata_value_handler_def\<close>)
  then show ?thesis using block_start [OF assms(1,2), of wild md] by (simp add: length_raw)
qed

section \<open>The table of key frames\<close>

definition times_entries :: "64 word list \<Rightarrow> 64 word list \<Rightarrow> (bytes \<times> amf) list" where
  "times_entries ts ps = [(ascii ''times'', Amf_strict (map Amf_double ts)), (ascii ''filepositions'', Amf_strict (map Amf_double ps))]"

lemma keyframe_loop_doubles:
  assumes "ahead rd (items_bytes (map Amf_double ds))" "length ds \<le> unat r" "0 < w"
  shows "keyframe_loop wild w (length ds) r rd ks = Some (True, advance (length (items_bytes (map Amf_double ds))) rd,
     ks @ map (\<lambda>d. if w = 1 then \<lparr>time = seconds_to_time wild d, fileposition = 0\<rparr>
                    else \<lparr>time = 0, fileposition = double_to_guint64 wild d\<rparr>) ds)"
  using assms(1,2)
proof (induction ds arbitrary: r rd ks)
  case (Cons d ds)
  have a: "ahead rd [0]" "ahead (advance 1 rd) (be_bytes 8 (unat d))" "ahead (advance 9 rd) (items_bytes (map Amf_double ds))"
    using Cons.prems(1) unfolding list.map items_bytes.simps amf_type.simps amf_bytes.simps
    by (simp_all add: ahead_append ahead_Cons [of _ _ "_ @ _"] del: be_bytes.simps)
  have r: "0 < r" using Cons.prems(2) by (auto simp: word_gt_0)
  then have r': "length ds \<le> unat (r - 1)" using Cons.prems(2) by (simp add: unat_minus_one word_gt_0)
  show ?case
    using ui8_ahead [OF a(1)] double_ahead [OF a(2)] Cons.IH [OF a(3) r'] r assms(3)
    by (simp add: Let_def double_bytes del: be_bytes.simps)
qed simp


lemma items_length: "length (items_bytes (map Amf_double ds)) = 9 * length ds"
  by (induction ds) simp_all

definition key_times :: "(64 word \<Rightarrow> int) \<Rightarrow> 64 word list \<Rightarrow> FlvKeyframe list" where
  "key_times wild ts = map (\<lambda>t. \<lparr>time = seconds_to_time wild t, fileposition = 0\<rparr>) ts"

definition key_positions :: "(64 word \<Rightarrow> int) \<Rightarrow> 64 word list \<Rightarrow> FlvKeyframe list" where
  "key_positions wild ps = map (\<lambda>p. \<lparr>time = 0, fileposition = double_to_guint64 wild p\<rparr>) ps"

lemma keyframe_list_added:
  assumes "ahead rd (amf_bytes (Amf_strict (map Amf_double ds)))" "length ds < 2 ^ 32"
    and "ks = [] \<or> length ks = length ds"
  shows "flv_script_read_keyframe_array wild rd (Some (ascii ''times'')) ks =
      Some (True, advance (4 + 9 * length ds) rd, ks @ key_times wild ds)"
    and "flv_script_read_keyframe_array wild rd (Some (ascii ''filepositions'')) ks =
      Some (True, advance (4 + 9 * length ds) rd, ks @ key_positions wild ds)"
proof -
  have n: "flv_script_data_read_ui32 rd = Some (Some (length ds), advance 4 rd)"
    and a: "ahead (advance 4 rd) (items_bytes (map Amf_double ds))"
    using be_ahead [of rd "length ds"] assms(1,2) by simp_all
  have r: "length ds \<le> unat (word_of_nat (length ds) :: 32 word)"
    using assms(2) by (simp add: unat_of_nat)
  have diff: "ascii ''times'' \<noteq> ascii ''filepositions''" by (simp add: ascii_def)
  show "flv_script_read_keyframe_array wild rd (Some (ascii ''times'')) ks =
      Some (True, advance (4 + 9 * length ds) rd, ks @ key_times wild ds)"
    using assms(3) n keyframe_loop_doubles [OF a r, of 1 wild ks]
    by (auto simp: flv_script_read_keyframe_array_def strcmp_eq_def items_length key_times_def Let_def)
  show "flv_script_read_keyframe_array wild rd (Some (ascii ''filepositions'')) ks =
      Some (True, advance (4 + 9 * length ds) rd, ks @ key_positions wild ds)"
    using assms(3) n keyframe_loop_doubles [OF a r, of 2 wild ks] diff
    by (auto simp: flv_script_read_keyframe_array_def strcmp_eq_def items_length key_positions_def Let_def)
qed

lemma strict_length: "length (amf_bytes (Amf_strict (map Amf_double ds))) = 4 + 9 * length ds"
  by (simp add: items_length)

lemma keyframe_object:
  assumes "ahead rd (entries_bytes (times_entries ts ps))" "length ts = length ps" "length ps < 2 ^ 32"
    and "keyframes md = None"
  shows "flv_script_data_read_object (flv_metadata_keyframe_handler wild) rd md =
    Some (True, advance (length (entries_bytes (times_entries ts ps))) rd,
      md\<lparr>keyframes := Some (key_times wild ts @ key_positions wild ps)\<rparr>)"
proof -
  let ?h = "flv_metadata_keyframe_handler wild" and ?v = "\<lambda>ds. Amf_strict (map Amf_double ds)"
  let ?md1 = "md\<lparr>keyframes := Some (key_times wild ts)\<rparr>" and ?md2 = "md\<lparr>keyframes := Some (key_times wild ts @ key_positions wild ps)\<rparr>"
  have n: "length (ascii ''times'') = 5" "length (ascii ''filepositions'') = 13" by simp_all
  have raw: "entries_bytes (times_entries ts ps) = raw_entries [(ascii ''times'', 10, amf_bytes (?v ts)), (ascii ''filepositions'', 10, amf_bytes (?v ps))]"
    by (simp add: entries_raw times_entries_def)
  note a = assms(1) [unfolded raw]
  let ?r1 = "advance (3 + length (ascii ''times'') + length (amf_bytes (?v ts))) rd"
  have s1: "flv_script_data_read_object ?h rd md = flv_script_data_read_object ?h ?r1 ?md1"
    "ahead ?r1 (raw_entries [(ascii ''filepositions'', 10, amf_bytes (?v ps))])"
  proof -
    have "?h (advance (3 + length (ascii ''times'')) rd) (Some (ascii ''times'')) 10 md = Some (True, ?r1, ?md1)"
      if "ahead (advance (3 + length (ascii ''times'')) rd) (amf_bytes (?v ts))"
      using keyframe_list_added(1) [OF that, of "[]" wild] assms
      by (simp add: flv_metadata_keyframe_handler_def strict_length del: amf_bytes.simps)
    from object_step [where f = ?h and p = md and p' = ?md1, OF a _ _ this] show "flv_script_data_read_object ?h rd md = flv_script_data_read_object ?h ?r1 ?md1"
      "ahead ?r1 (raw_entries [(ascii ''filepositions'', 10, amf_bytes (?v ps))])" by simp_all
  qed
  let ?r2 = "advance (3 + length (ascii ''filepositions'') + length (amf_bytes (?v ps))) ?r1"
  have s2: "flv_script_data_read_object ?h ?r1 ?md1 = flv_script_data_read_object ?h ?r2 ?md2" "ahead ?r2 (raw_entries [])"
  proof -
    have "?h (advance (3 + length (ascii ''filepositions'')) ?r1) (Some (ascii ''filepositions'')) 10 ?md1 = Some (True, ?r2, ?md2)"
      if "ahead (advance (3 + length (ascii ''filepositions'')) ?r1) (amf_bytes (?v ps))"
      using keyframe_list_added(2) [OF that, of "key_times wild ts" wild] assms
      by (simp add: flv_metadata_keyframe_handler_def strict_length key_times_def del: amf_bytes.simps)
    from object_step [where f = ?h and p = ?md1 and p' = ?md2, OF s1(2) _ _ this] show "flv_script_data_read_object ?h ?r1 ?md1 = flv_script_data_read_object ?h ?r2 ?md2"
      "ahead ?r2 (raw_entries [])" by simp_all
  qed
  have "flv_script_data_read_object ?h ?r2 ?md2 = Some (True, advance 3 ?r2, ?md2)"
    by (rule object_end [OF s2(2)]) (simp add: flv_metadata_keyframe_handler_def)
  with s1(1) s2(1) show ?thesis by (simp add: raw strict_length del: amf_bytes.simps)
qed

text \<open>The state of the metadata when a block begins to be read.\<close>

definition opened :: "FlvMetadata \<Rightarrow> FlvMetadata" where
  "opened md = (if tag_list md = None then md\<lparr>tag_list := Some []\<rparr> else md)"

lemma keyframe_block:
  assumes "ahead rd (metadata_block [(ascii ''keyframes'', Plain (Amf_object (times_entries ts ps)))])"
    and "length ts = length ps" "length ps < 2 ^ 32" "keyframes md = None"
  shows "flv_script_data_read wild rd md =
    Some (True, advance (length (metadata_block [(ascii ''keyframes'', Plain (Amf_object (times_entries ts ps)))])) rd,
      (opened md)\<lparr>keyframes := Some (key_times wild ts @ key_positions wild ps)\<rparr>)"
proof -
  let ?o = "Amf_object (times_entries ts ps)" and ?h = "flv_metadata_value_handler wild"
  let ?md1 = "opened md" and ?md2 = "(opened md)\<lparr>keyframes := Some (key_times wild ts @ key_positions wild ps)\<rparr>"
  have n: "length (ascii ''keyframes'') = 9" by simp
  note start = block_start [OF assms(1), of wild md, folded opened_def]
  have a: "ahead (advance 18 rd) (raw_entries [(ascii ''keyframes'', 3, amf_bytes ?o)])" using start by simp
  let ?r = "advance (3 + length (ascii ''keyframes'') + length (amf_bytes ?o)) (advance 18 rd)"
  have "?h (advance (3 + length (ascii ''keyframes'')) (advance 18 rd)) (Some (ascii ''keyframes'')) 3 ?md1 = Some (True, ?r, ?md2)"
    if "ahead (advance (3 + length (ascii ''keyframes'')) (advance 18 rd)) (amf_bytes ?o)"
    using keyframe_object [OF that [unfolded amf_bytes.simps] assms(2,3), of ?md1 wild] assms(4)
    by (simp add: flv_metadata_value_handler_def strcmp_eq_def opened_def)
  note step = object_step [where f = ?h and p = ?md1 and p' = ?md2, OF a _ _ this]
  have "flv_script_data_read_object ?h ?r ?md2 = Some (True, advance 3 ?r, ?md2)"
    by (rule object_end) (use step in \<open>simp_all add: flv_metadata_value_handler_def\<close>)
  with step start show ?thesis by (simp add: length_raw)
qed

end
