(* ===== verification/FlvParser.thy ===== *)
theory FlvParser
  imports FlvMetadata
begin

text \<open>
  \<open>gstreamer/plugins/vp6/flvparser.c\<close>: the parser of the blocks of an FLV file, one function per
  kind of block. Each checks the state of the parser, then the length of the buffer, then the contents;
  only a block that is accepted changes the parser. \<open>gsize\<close> has 64 bits, and its arithmetic wraps.
\<close>

datatype FlvParserResult =
    FLV_PARSER_OK | FLV_PARSER_BUFFER_UNDERRUN | FLV_PARSER_BAD_STREAM | FLV_PARSER_UNSUPPORTED_STREAM
  | FLV_PARSER_INVALID_STATE

datatype FlvParserState =
    FLV_PARSER_EXPECT_HEADER | FLV_PARSER_EXPECT_SKIP_BLOCK | FLV_PARSER_EXPECT_TAG_PREFIX
  | FLV_PARSER_EXPECT_VIDEO_TAG_BODY | FLV_PARSER_EXPECT_AUDIO_TAG_BODY
  | FLV_PARSER_EXPECT_SCRIPT_DATA_TAG_BODY | FLV_PARSER_EOF

record FlvParser =
  parser_state :: FlvParserState
  file_position :: "64 word"
  parsed_block_size :: "64 word"
  next_block_size :: "64 word"

record FlvHeader =
  file_version :: int
  has_audio_tags :: bool
  has_video_tags :: bool

record FlvTagPrefix =
  tag_type :: "8 word"
  body_size :: "64 word"
  timestamp :: "32 word"

record FlvAudioTag =
  sound_format :: "8 word"
  sampling_rate :: "8 word"
  is_16bit :: bool
  audio_stereo :: bool
  audio_packet_offset :: "64 word"
  audio_packet_size :: "64 word"

record FlvVideoTag =
  codec_id :: "8 word"
  frame_type :: "8 word"
  video_packet_offset :: "64 word"
  video_packet_size :: "64 word"

abbreviation (input) FLV_HEADER_SIZE :: "64 word" where "FLV_HEADER_SIZE \<equiv> 9"
abbreviation (input) FLV_TAG_PREFIX_SIZE :: "64 word" where "FLV_TAG_PREFIX_SIZE \<equiv> 11"
abbreviation (input) FLV_TAG_SUFFIX_SIZE :: "64 word" where "FLV_TAG_SUFFIX_SIZE \<equiv> 4"
abbreviation (input) FLV_AUDIO_PREFIX_LENGTH :: "64 word" where "FLV_AUDIO_PREFIX_LENGTH \<equiv> 1"
abbreviation (input) FLV_VIDEO_PREFIX_LENGTH :: "64 word" where "FLV_VIDEO_PREFIX_LENGTH \<equiv> 1"
abbreviation (input) FLV_HEADER_FLAG_HAS_VIDEO_TAGS :: "8 word" where "FLV_HEADER_FLAG_HAS_VIDEO_TAGS \<equiv> 0x01"
abbreviation (input) FLV_HEADER_FLAG_HAS_AUDIO_TAGS :: "8 word" where "FLV_HEADER_FLAG_HAS_AUDIO_TAGS \<equiv> 0x04"
abbreviation (input) FLV_HEADER_FLAG_RESERVED :: "8 word" where "FLV_HEADER_FLAG_RESERVED \<equiv> 0xFA"
abbreviation (input) FLV_TAG_TYPE_AUDIO :: "8 word" where "FLV_TAG_TYPE_AUDIO \<equiv> 8"
abbreviation (input) FLV_TAG_TYPE_VIDEO :: "8 word" where "FLV_TAG_TYPE_VIDEO \<equiv> 9"
abbreviation (input) FLV_TAG_TYPE_SCRIPT_DATA :: "8 word" where "FLV_TAG_TYPE_SCRIPT_DATA \<equiv> 18"

text \<open>The bytes of data of the codec in front of a packet, for each format of sound and each codec.\<close>

definition flv_audio_format_data_size :: "64 word list" where
  "flv_audio_format_data_size = [0, 0, 0, 0, 0, 0, 0, 0, 0, 0, 1, 0, 0, 0, 0, 0]"

definition flv_video_codec_data_size :: "64 word list" where
  "flv_video_codec_data_size = [0, 0, 0, 0, 1, 1, 0, 6, 0, 0, 0, 0, 0, 0, 0, 0]"

definition flv_parser_init :: "FlvParser \<Rightarrow> FlvParser" where
  "flv_parser_init parser = parser\<lparr>parser_state := FLV_PARSER_EXPECT_HEADER, parsed_block_size := 0, file_position := 0,
     next_block_size := FLV_HEADER_SIZE\<rparr>"

definition flv_parser_reset :: "FlvParser \<Rightarrow> FlvParser" where
  "flv_parser_reset parser = parser\<lparr>parser_state := FLV_PARSER_EXPECT_HEADER, parsed_block_size := 0, file_position := 0,
     next_block_size := FLV_HEADER_SIZE\<rparr>"

text \<open>The end of every successful step: the block is counted and the next one is expected.\<close>

definition accept_block :: "64 word \<Rightarrow> 64 word \<Rightarrow> FlvParserState \<Rightarrow> FlvParser \<Rightarrow> FlvParser" where
  "accept_block parsed next st parser =
     parser\<lparr>parsed_block_size := parsed, file_position := file_position parser + parsed, next_block_size := next,
            parser_state := st\<rparr>"

definition flv_parser_read_header ::
    "FlvParser \<Rightarrow> bytes \<Rightarrow> 64 word \<Rightarrow> FlvHeader \<Rightarrow> (FlvParserResult \<times> FlvParser \<times> FlvHeader) option" where
  "flv_parser_read_header parser buffer buffer_size header =
     (if parser_state parser \<noteq> FLV_PARSER_EXPECT_HEADER then Some (FLV_PARSER_INVALID_STATE, parser, header)
      else if buffer_size < FLV_HEADER_SIZE then Some (FLV_PARSER_BUFFER_UNDERRUN, parser, header)
      else do {
        signature \<leftarrow> bytes_at buffer 0 3;
        if signature \<noteq> ascii ''FLV'' then Some (FLV_PARSER_BAD_STREAM, parser, header)
        else do {
          b3 \<leftarrow> read_at buffer 3;
          let header = header\<lparr>file_version := uint b3\<rparr>
          in if file_version header \<noteq> 1 then Some (FLV_PARSER_UNSUPPORTED_STREAM, parser, header)
             else do {
               b4 \<leftarrow> read_at buffer 4;
               if b4 AND FLV_HEADER_FLAG_RESERVED \<noteq> 0 then Some (FLV_PARSER_BAD_STREAM, parser, header)
               else do {
                 header \<leftarrow> Some (header\<lparr>has_audio_tags := b4 AND FLV_HEADER_FLAG_HAS_AUDIO_TAGS \<noteq> 0,
                                    has_video_tags := b4 AND FLV_HEADER_FLAG_HAS_VIDEO_TAGS \<noteq> 0\<rparr>);
                 offset \<leftarrow> bytes_at buffer 5 4;
                 let data_offset = (word_of_nat (be_nat offset) :: 64 word)
                 in if data_offset < FLV_HEADER_SIZE then Some (FLV_PARSER_BAD_STREAM, parser, header)
                    else Some (FLV_PARSER_OK,
                      accept_block FLV_HEADER_SIZE
                        (if data_offset = FLV_HEADER_SIZE then FLV_TAG_SUFFIX_SIZE
                         else data_offset - FLV_HEADER_SIZE + FLV_TAG_SUFFIX_SIZE)
                        FLV_PARSER_EXPECT_SKIP_BLOCK parser, header)
               }
             }
        }
      })"

definition flv_parser_skip :: "FlvParser \<Rightarrow> bytes \<Rightarrow> 64 word \<Rightarrow> FlvParserResult \<times> FlvParser" where
  "flv_parser_skip parser buffer buffer_size =
     (if parser_state parser \<noteq> FLV_PARSER_EXPECT_SKIP_BLOCK then (FLV_PARSER_INVALID_STATE, parser)
      else if buffer_size < next_block_size parser then (FLV_PARSER_BUFFER_UNDERRUN, parser)
      else (FLV_PARSER_OK, accept_block (next_block_size parser) FLV_TAG_PREFIX_SIZE FLV_PARSER_EXPECT_TAG_PREFIX parser))"

text \<open>\<open>FLV_READ_TS32\<close>: three bytes and above them the fourth.\<close>

definition FLV_READ_TS32 :: "bytes \<Rightarrow> 32 word" where
  "FLV_READ_TS32 bs = word_of_nat (be_nat (take 3 bs)) OR push_bit 24 (word_of_nat (be_nat (drop 3 bs)))"

text \<open>
  The state is only left as it was when the type of the tag is not known: the sizes have already changed.
\<close>

definition flv_parser_read_tag_prefix ::
    "FlvParser \<Rightarrow> bytes \<Rightarrow> 64 word \<Rightarrow> FlvTagPrefix \<Rightarrow> (FlvParserResult \<times> FlvParser \<times> FlvTagPrefix) option" where
  "flv_parser_read_tag_prefix parser buffer buffer_size tag =
     (if parser_state parser \<noteq> FLV_PARSER_EXPECT_TAG_PREFIX then Some (FLV_PARSER_INVALID_STATE, parser, tag)
      else if buffer_size < FLV_TAG_PREFIX_SIZE then Some (FLV_PARSER_BUFFER_UNDERRUN, parser, tag)
      else do {
        t \<leftarrow> read_at buffer 0;
        len \<leftarrow> bytes_at buffer 1 3;
        ts \<leftarrow> bytes_at buffer 4 4;
        stream_id \<leftarrow> bytes_at buffer 8 3;
        let tag = tag\<lparr>tag_type := t, body_size := word_of_nat (be_nat len), timestamp := FLV_READ_TS32 ts\<rparr>
        in if be_nat stream_id \<noteq> 0 then Some (FLV_PARSER_UNSUPPORTED_STREAM, parser, tag)
           else let accepted = (\<lambda>st. accept_block FLV_TAG_PREFIX_SIZE (body_size tag + FLV_TAG_SUFFIX_SIZE) st parser)
                in if t = FLV_TAG_TYPE_AUDIO then Some (FLV_PARSER_OK, accepted FLV_PARSER_EXPECT_AUDIO_TAG_BODY, tag)
                   else if t = FLV_TAG_TYPE_VIDEO then Some (FLV_PARSER_OK, accepted FLV_PARSER_EXPECT_VIDEO_TAG_BODY, tag)
                   else if t = FLV_TAG_TYPE_SCRIPT_DATA
                   then Some (FLV_PARSER_OK, accepted FLV_PARSER_EXPECT_SCRIPT_DATA_TAG_BODY, tag)
                   else Some (FLV_PARSER_UNSUPPORTED_STREAM, accepted (parser_state parser), tag)
      })"

text \<open>The checks of a packet; for an unsigned size, \<open><= 0\<close> is \<open>= 0\<close>.\<close>

definition packet_outside :: "64 word \<Rightarrow> 64 word \<Rightarrow> 64 word \<Rightarrow> bool" where
  "packet_outside buffer_size offset len \<longleftrightarrow>
     offset > buffer_size \<or> len = 0 \<or> buffer_size - offset < len"

definition accept_tag :: "FlvParser \<Rightarrow> FlvParser" where
  "accept_tag parser = accept_block (next_block_size parser) FLV_TAG_PREFIX_SIZE FLV_PARSER_EXPECT_TAG_PREFIX parser"

definition flv_parser_read_audio_tag ::
    "FlvParser \<Rightarrow> bytes \<Rightarrow> 64 word \<Rightarrow> FlvAudioTag \<Rightarrow> (FlvParserResult \<times> FlvParser \<times> FlvAudioTag) option" where
  "flv_parser_read_audio_tag parser buffer buffer_size audio_tag =
     (if parser_state parser \<noteq> FLV_PARSER_EXPECT_AUDIO_TAG_BODY then Some (FLV_PARSER_INVALID_STATE, parser, audio_tag)
      else if buffer_size < next_block_size parser then Some (FLV_PARSER_BUFFER_UNDERRUN, parser, audio_tag)
      else do {
        b \<leftarrow> read_at buffer 0;
        let fmt = drop_bit 4 (b AND 0xF0)
        in do {
          extra \<leftarrow> read_at flv_audio_format_data_size (uint fmt);
          let offset = FLV_AUDIO_PREFIX_LENGTH + extra;
              audio_tag = audio_tag\<lparr>sound_format := fmt, sampling_rate := drop_bit 2 (b AND 0x0C),
                is_16bit := b AND 0x02 \<noteq> 0, audio_stereo := b AND 0x01 \<noteq> 0, audio_packet_offset := offset,
                audio_packet_size := next_block_size parser - FLV_TAG_SUFFIX_SIZE - offset\<rparr>
          in if packet_outside buffer_size (audio_packet_offset audio_tag) (audio_packet_size audio_tag)
             then Some (FLV_PARSER_BUFFER_UNDERRUN, parser, audio_tag)
             else Some (FLV_PARSER_OK, accept_tag parser, audio_tag)
        }
      })"

definition flv_parser_read_video_tag ::
    "FlvParser \<Rightarrow> bytes \<Rightarrow> 64 word \<Rightarrow> FlvVideoTag \<Rightarrow> (FlvParserResult \<times> FlvParser \<times> FlvVideoTag) option" where
  "flv_parser_read_video_tag parser buffer buffer_size video_tag =
     (if parser_state parser \<noteq> FLV_PARSER_EXPECT_VIDEO_TAG_BODY then Some (FLV_PARSER_INVALID_STATE, parser, video_tag)
      else if buffer_size < next_block_size parser then Some (FLV_PARSER_BUFFER_UNDERRUN, parser, video_tag)
      else do {
        b \<leftarrow> read_at buffer 0;
        let codec = b AND 0x0F
        in do {
          extra \<leftarrow> read_at flv_video_codec_data_size (uint codec);
          let offset = FLV_VIDEO_PREFIX_LENGTH + extra;
              video_tag = video_tag\<lparr>frame_type := drop_bit 4 (b AND 0xF0), codec_id := codec,
                video_packet_offset := offset,
                video_packet_size := next_block_size parser - FLV_TAG_SUFFIX_SIZE - offset\<rparr>
          in if packet_outside buffer_size (video_packet_offset video_tag) (video_packet_size video_tag)
             then Some (FLV_PARSER_BUFFER_UNDERRUN, parser, video_tag)
             else Some (FLV_PARSER_OK, accept_tag parser, video_tag)
        }
      })"

text \<open>The reader gets the block without the suffix; positions are offsets in the buffer.\<close>

definition flv_parser_read_script_data_tag ::
    "FlvParser \<Rightarrow> bytes \<Rightarrow> 64 word \<Rightarrow> FlvScriptDataReader \<Rightarrow> FlvParserResult \<times> FlvParser \<times> FlvScriptDataReader" where
  "flv_parser_read_script_data_tag parser buffer buffer_size script_data_reader =
     (if parser_state parser \<noteq> FLV_PARSER_EXPECT_SCRIPT_DATA_TAG_BODY
      then (FLV_PARSER_INVALID_STATE, parser, script_data_reader)
      else if buffer_size < next_block_size parser then (FLV_PARSER_BUFFER_UNDERRUN, parser, script_data_reader)
      else (FLV_PARSER_OK, accept_tag parser,
        \<lparr>memory = buffer, position = 0, reader_end = unat (next_block_size parser - FLV_TAG_SUFFIX_SIZE)\<rparr>))"

definition flv_parser_seek :: "FlvParser \<Rightarrow> 64 word \<Rightarrow> FlvParserResult \<times> FlvParser" where
  "flv_parser_seek parser new_position =
     (FLV_PARSER_OK, parser\<lparr>parser_state := FLV_PARSER_EXPECT_TAG_PREFIX, file_position := new_position,
        parsed_block_size := 0, next_block_size := FLV_TAG_PREFIX_SIZE\<rparr>)"

end
