(* ===== verification/FlvDemux.thy ===== *)
theory FlvDemux
  imports FlvParser
begin

text \<open>
  \<open>gstreamer/plugins/vp6/flvdemux.c\<close>: the element that splits an FLV stream. What GStreamer does is not
  part of the program: the calls whose effect matters are a trace, \<open>calls\<close>, and the argument \<open>reply\<close>
  answers each of them from the trace so far, so that every theorem holds for every behaviour of the
  elements downstream. A function of GStreamer that returns a \<open>gboolean\<close> or a pointer has succeeded if
  the answer is \<open>GST_FLOW_OK\<close>.
\<close>

section \<open>State\<close>

datatype GstFlowReturn =
  GST_FLOW_OK | GST_FLOW_ERROR | GST_FLOW_FLUSHING | GST_FLOW_NOT_LINKED | GST_FLOW_EOS | GST_FLOW_OTHER int

datatype src_pad = Audio_pad | Video_pad

record GstSegment =
  seg_start :: "64 word"
  seg_position :: "64 word"
  seg_flags :: "32 word"

record GstBuffer =
  buf_data :: bytes
  buf_timestamp :: "64 word"
  buf_duration :: "64 word"
  buf_offset :: "64 word"
  buf_offset_end :: "64 word"
  buf_discont :: bool
  buf_delta_unit :: bool

type_synonym tags = "(bytes \<times> tag_value) list"

datatype caps =
    Audio_unsupported
  | Audio_mpeg nat nat
  | Video_caps string "int option" "int option" "int option" "(int \<times> int) option"

datatype gst_call =
    Set_active src_pad
  | Push_caps src_pad caps
  | Add_pad src_pad
  | No_more_pads
  | Send_tags tags
  | Allocate "64 word"
  | Map_buffer src_pad
  | Push_segment src_pad GstSegment
  | Push_buffer src_pad GstBuffer
  | Push_event src_pad string
  | Post_warning string
  | Post_error string
  | Pull_range "64 word" "32 word"
  | Map_block
  | Start_task
  | Stop_task
  | Pause_task
  | Push_upstream string
  | Seek_bytes "64 word"
  | Segment_start "64 word"

text \<open>The adapter, where bytes wait for a whole block, is only used by \<open>flv_demux_chain\<close>, and is kept beside the record.\<close>

record FlvDemux =
  parser :: FlvParser
  is_pulling :: bool
  need_parser_flush :: bool
  has_video :: bool
  has_audio :: bool
  metadata :: FlvMetadata
  queued_tags :: "tags option"
  last_file_position :: "64 word"
  current_timestamp :: "64 word"
  index :: "FlvKeyframe list"
  copied_metadata_keyframes :: bool
  segment :: GstSegment
  is_flushing :: bool
  is_eos_received :: bool
  audio_src_pad :: bool
  video_src_pad :: bool
  audio_format :: "8 word"
  audio_linked :: bool
  audio_offset :: "32 word"
  audio_discont :: bool
  audio_prev_timestamp :: "64 word"
  audio_frame_duration :: "64 word"
  video_codec :: "8 word"
  video_linked :: bool
  video_offset :: "32 word"
  video_discont :: bool
  video_prev_timestamp :: "64 word"
  video_frame_duration :: "64 word"
  calls :: "gst_call list"

type_synonym replies = "gst_call list \<Rightarrow> GstFlowReturn"

abbreviation (input) FLVDEMUX_AUDIO_FORMAT_MP3 :: "8 word" where "FLVDEMUX_AUDIO_FORMAT_MP3 \<equiv> 2"
abbreviation (input) FLVDEMUX_VIDEO_FORMAT_VP6 :: "8 word" where "FLVDEMUX_VIDEO_FORMAT_VP6 \<equiv> 4"
abbreviation (input) FLVDEMUX_VIDEO_FORMAT_VP6_ALPHA :: "8 word" where "FLVDEMUX_VIDEO_FORMAT_VP6_ALPHA \<equiv> 5"
abbreviation (input) FLV_VIDEO_FRAME_KEY :: "8 word" where "FLV_VIDEO_FRAME_KEY \<equiv> 1"
abbreviation (input) GST_MSECOND :: "64 word" where "GST_MSECOND \<equiv> 1000000"

text \<open>A call whose answer is not looked at, and one whose answer is.\<close>

definition tell :: "gst_call \<Rightarrow> FlvDemux \<Rightarrow> FlvDemux" where
  "tell c flt = flt\<lparr>calls := calls flt @ [c]\<rparr>"

definition ask :: "replies \<Rightarrow> gst_call \<Rightarrow> FlvDemux \<Rightarrow> GstFlowReturn \<times> FlvDemux" where
  "ask reply c flt = (reply (calls flt @ [c]), tell c flt)"

definition flv_demux_init :: "GstSegment \<Rightarrow> bytes list \<Rightarrow> FlvDemux" where
  "flv_demux_init seg known_tags =
     \<lparr>parser = flv_parser_init \<lparr>parser_state = FLV_PARSER_EXPECT_HEADER, file_position = 0, parsed_block_size = 0, next_block_size = 0\<rparr>,
      is_pulling = False, need_parser_flush = False, has_video = False, has_audio = False,
      metadata = flv_metadata_new known_tags, queued_tags = None, last_file_position = 0,
      current_timestamp = GST_CLOCK_TIME_NONE, index = [], copied_metadata_keyframes = False, segment = seg,
      is_flushing = False, is_eos_received = False, audio_src_pad = False, video_src_pad = False,
      audio_format = 0, audio_linked = False, audio_offset = 0, audio_discont = True,
      audio_prev_timestamp = GST_CLOCK_TIME_NONE, audio_frame_duration = GST_CLOCK_TIME_NONE,
      video_codec = 0, video_linked = False, video_offset = 0, video_discont = True,
      video_prev_timestamp = GST_CLOCK_TIME_NONE, video_frame_duration = GST_CLOCK_TIME_NONE, calls = []\<rparr>"

section \<open>The index of key frames\<close>

definition compare_keyframes :: "FlvKeyframe \<Rightarrow> FlvKeyframe \<Rightarrow> int" where
  "compare_keyframes first second = (if time first < time second then - 1 else if time first = time second then 0 else 1)"

text \<open>\<open>g_list_insert_sorted\<close> of GLib, with \<open>compare_keyframes\<close>.\<close>

fun insert_sorted :: "FlvKeyframe \<Rightarrow> FlvKeyframe list \<Rightarrow> FlvKeyframe list" where
  "insert_sorted k [] = [k]"
| "insert_sorted k (x # xs) = (if compare_keyframes k x > 0 then x # insert_sorted k xs else k # x # xs)"

definition flv_demux_index_add_entry :: "FlvDemux \<Rightarrow> 64 word \<Rightarrow> 64 word \<Rightarrow> FlvDemux" where
  "flv_demux_index_add_entry flt index_time index_pos =
     (let frame = \<lparr>time = index_time, fileposition = index_pos\<rparr>
      in if find (\<lambda>x. compare_keyframes x frame = 0) (index flt) = None
         then flt\<lparr>index := insert_sorted frame (index flt)\<rparr> else flt)"

text \<open>The entry found; \<open>prev\<close> is the entry before, a null pointer for the first.\<close>

fun lookup_loop :: "64 word \<Rightarrow> FlvKeyframe option \<Rightarrow> FlvKeyframe list \<Rightarrow> FlvKeyframe option option" where
  "lookup_loop t prev [] = Some None"
| "lookup_loop t prev (entry # rest) =
     (if time entry = t then Some (Some entry)
      else if time entry > t then map_option Some prev
      else lookup_loop t (Some entry) rest)"

definition flv_demux_index_lookup :: "FlvDemux \<Rightarrow> 64 word \<Rightarrow> FlvKeyframe option option" where
  "flv_demux_index_lookup flt t = (case index flt of
     [] \<Rightarrow> Some None
   | first # _ \<Rightarrow>
       if time first > t then Some None
       else if time (last (index flt)) < t then Some None
       else lookup_loop t None (index flt))"

section \<open>Events\<close>

definition flv_demux_push_src_event :: "string \<Rightarrow> FlvDemux \<Rightarrow> FlvDemux" where
  "flv_demux_push_src_event event flt =
     (let flt = (if audio_src_pad flt then tell (Push_event Audio_pad event) flt else flt)
      in if video_src_pad flt then tell (Push_event Video_pad event) flt else flt)"

datatype sink_event = Flush_start | Flush_stop | Eos | Range_ready | Segment_event "GstSegment option" | Other_event string

text \<open>\<open>Segment_event\<close> carries the segment if its format is time.\<close>

fun flv_demux_sink_event :: "sink_event \<Rightarrow> FlvDemux \<Rightarrow> FlvDemux" where
  "flv_demux_sink_event Flush_start flt = flt\<lparr>is_flushing := True\<rparr>"
| "flv_demux_sink_event Flush_stop flt = flt\<lparr>is_flushing := False, need_parser_flush := True\<rparr>"
| "flv_demux_sink_event Eos flt =
     flv_demux_push_src_event ''eos'' (tell No_more_pads (flt\<lparr>is_eos_received := True\<rparr>))"
| "flv_demux_sink_event Range_ready flt = tell Start_task flt"
| "flv_demux_sink_event (Segment_event seg) flt =
     (case seg of None \<Rightarrow> flt | Some g \<Rightarrow> flt\<lparr>segment := g\<rparr>)
       \<lparr>audio_discont := True, video_discont := True, is_eos_received := False\<rparr>"
| "flv_demux_sink_event (Other_event e) flt = flv_demux_push_src_event e flt"

text \<open>The part of \<open>flv_demux_change_state\<close> for the change from ready to paused.\<close>

definition ready_to_paused :: "FlvDemux \<Rightarrow> FlvDemux" where
  "ready_to_paused flt = flt\<lparr>last_file_position := 0, current_timestamp := 0, need_parser_flush := True\<rparr>"

section \<open>Audio\<close>

definition queue_tag :: "string \<Rightarrow> string \<Rightarrow> FlvDemux \<Rightarrow> FlvDemux" where
  "queue_tag tag codec_name flt =
     flt\<lparr>queued_tags := Some (AList.update (ascii tag) (Tag_string (ascii codec_name))
       (case queued_tags flt of None \<Rightarrow> [] | Some ts \<Rightarrow> ts))\<rparr>"

definition push_tags :: "FlvDemux \<Rightarrow> FlvDemux" where
  "push_tags flt =
     (tell (Send_tags (case queued_tags flt of None \<Rightarrow> [] | Some ts \<Rightarrow> ts)) flt)\<lparr>queued_tags := None\<rparr>"

definition audio_rate :: "8 word \<Rightarrow> nat" where
  "audio_rate rate = (if rate = 0 then 5500 else if rate = 1 then 11025
     else if rate = 2 then 22050 else if rate = 3 then 44100 else 0)"

definition flv_demux_negotiate_audio_caps ::
    "replies \<Rightarrow> FlvDemux \<Rightarrow> 8 word \<Rightarrow> 8 word \<Rightarrow> bool \<Rightarrow> bool \<times> FlvDemux" where
  "flv_demux_negotiate_audio_caps reply flt fmt rate stereo =
     (let (caps, codec_name) =
        (if fmt \<noteq> FLVDEMUX_AUDIO_FORMAT_MP3 then (Audio_unsupported, ''Unsupported'')
         else (Audio_mpeg (audio_rate rate) (if stereo then 2 else 1), ''MPEG 1 Audio''));
        (r, flt) = ask reply (Push_caps Audio_pad caps) flt
      in if r \<noteq> GST_FLOW_OK then (False, flt)
         else let flt = queue_tag ''audio-codec'' codec_name (flt\<lparr>audio_format := fmt\<rparr>)
              in (True, if \<not> has_video flt \<or> video_linked flt then push_tags flt else flt))"

text \<open>The pad of a stream is created with its first tag; \<open>False\<close> is an error.\<close>

definition create_audio_pad :: "replies \<Rightarrow> FlvAudioTag \<Rightarrow> FlvDemux \<Rightarrow> bool \<times> FlvDemux" where
  "create_audio_pad reply audio_tag flt =
     (let (r, flt) = ask reply (Set_active Audio_pad) (flt\<lparr>audio_src_pad := True\<rparr>)
      in if r \<noteq> GST_FLOW_OK then (False, flt)
         else let (ok, flt) = flv_demux_negotiate_audio_caps reply flt (sound_format audio_tag)
                                   (sampling_rate audio_tag) (audio_stereo audio_tag)
              in if \<not> ok then (False, flt\<lparr>audio_src_pad := False\<rparr>)
                 else let (r, flt) = ask reply (Add_pad Audio_pad) flt
                      in if r \<noteq> GST_FLOW_OK then (False, flt)
                         else (True, if video_src_pad flt \<or> \<not> has_video flt then tell No_more_pads flt else flt))"

text \<open>The duration of a frame is the longest gap between two frames so far.\<close>

definition longest_gap :: "64 word \<Rightarrow> 64 word \<Rightarrow> bool \<Rightarrow> 64 word \<Rightarrow> 64 word" where
  "longest_gap current prev discont d =
     (if prev \<noteq> GST_CLOCK_TIME_NONE \<and> \<not> discont then
        let gap = current - prev in if d = GST_CLOCK_TIME_NONE \<or> d < gap then gap else d
      else d)"

definition blank_audio_tag :: FlvAudioTag where
  "blank_audio_tag = \<lparr>sound_format = 0, sampling_rate = 0, is_16bit = False, audio_stereo = False,
     audio_packet_offset = 0, audio_packet_size = 0\<rparr>"

definition send_audio :: "replies \<Rightarrow> FlvAudioTag \<Rightarrow> bytes \<Rightarrow> FlvDemux \<Rightarrow> (GstFlowReturn \<times> FlvDemux) option" where
  "send_audio reply audio_tag data flt =
     (let (r, flt) = ask reply (Allocate (audio_packet_size audio_tag)) flt
      in if r \<noteq> GST_FLOW_OK then Some (GST_FLOW_ERROR, flt)
         else let flt = flt\<lparr>audio_frame_duration := longest_gap (current_timestamp flt)
                    (audio_prev_timestamp flt) (audio_discont flt) (audio_frame_duration flt),
                    audio_prev_timestamp := current_timestamp flt\<rparr>;
                  (r, flt) = ask reply (Map_buffer Audio_pad) flt
              in if r \<noteq> GST_FLOW_OK then Some (GST_FLOW_ERROR, flt)
                 else do {
                   packet \<leftarrow> bytes_at data (unat (audio_packet_offset audio_tag)) (unat (audio_packet_size audio_tag));
                   let out = \<lparr>buf_data = packet, buf_timestamp = current_timestamp flt,
                         buf_duration = audio_frame_duration flt, buf_offset = ucast (audio_offset flt),
                         buf_offset_end = ucast (audio_offset flt + 1), buf_discont = audio_discont flt,
                         buf_delta_unit = False\<rparr>;
                       flt = flt\<lparr>audio_offset := audio_offset flt + 1,
                         segment := (segment flt)\<lparr>seg_position := current_timestamp flt\<rparr>\<rparr>;
                       flt = (if audio_discont flt
                         then (tell (Push_segment Audio_pad (segment flt)) flt)\<lparr>audio_discont := False\<rparr> else flt);
                       flt = (if \<not> has_video flt
                         then flv_demux_index_add_entry flt (current_timestamp flt) (last_file_position flt) else flt);
                       (r, flt) = ask reply (Push_buffer Audio_pad out) flt
                   in Some (r, if r = GST_FLOW_OK then flt\<lparr>audio_linked := True\<rparr>
                               else if r = GST_FLOW_NOT_LINKED then flt\<lparr>audio_linked := False\<rparr> else flt)
                 })"

definition flv_demux_parse_audio_tag ::
    "replies \<Rightarrow> FlvDemux \<Rightarrow> bytes \<Rightarrow> 64 word \<Rightarrow> (GstFlowReturn \<times> FlvDemux) option" where
  "flv_demux_parse_audio_tag reply flt data len = do {
     (parse_result, p, audio_tag) \<leftarrow> flv_parser_read_audio_tag (parser flt) data len blank_audio_tag;
     flt \<leftarrow> Some (flt\<lparr>parser := p\<rparr>);
     if parse_result \<noteq> FLV_PARSER_OK then Some (GST_FLOW_ERROR, flt)
     else
       let flt = flt\<lparr>has_audio := True\<rparr>;
           (ok, flt) = (if audio_src_pad flt then (True, flt) else create_audio_pad reply audio_tag flt)
       in if \<not> ok then Some (GST_FLOW_ERROR, flt)
          else if sound_format audio_tag \<noteq> FLVDEMUX_AUDIO_FORMAT_MP3 then
            let flt = (if audio_prev_timestamp flt = GST_CLOCK_TIME_NONE
                          then tell (Post_warning ''No audio decoder for this encoding'') flt else flt)
            in Some (GST_FLOW_OK, flt\<lparr>audio_prev_timestamp := current_timestamp flt\<rparr>)
          else
            let flt = (if audio_format flt \<noteq> sound_format audio_tag
                          then snd (flv_demux_negotiate_audio_caps reply flt (sound_format audio_tag)
                                      (sampling_rate audio_tag) (audio_stereo audio_tag)) else flt)
            in send_audio reply audio_tag data flt
   }"

section \<open>Video\<close>

definition flv_video_mime_type :: "8 word \<Rightarrow> string" where
  "flv_video_mime_type codec = (if codec = 4 then ''video/x-vp6-flash'' else if codec = 5 then ''video/x-vp6-alpha''
     else ''video/unsupported'')"

definition flv_video_codec_name :: "8 word \<Rightarrow> string" where
  "flv_video_codec_name codec = (if codec = 4 then ''On2 VP6 Video'' else if codec = 5 then ''On2 VP6-Alpha Video''
     else ''Unsupported'')"

text \<open>\<open>(gint)(framerate * 100)\<close>; a frame rate is set if it is not zero.\<close>

definition hundredths :: "(64 word \<Rightarrow> int) \<Rightarrow> 64 word \<Rightarrow> int" where
  "hundredths wild d = convert wild (- (2 ^ 31)) (2 ^ 31 - 1) d (map_option (\<lambda>x. float64 (x * 100)) (double_value d))"

definition video_caps :: "(64 word \<Rightarrow> int) \<Rightarrow> FlvMetadata \<Rightarrow> 8 word \<Rightarrow> caps" where
  "video_caps wild md codec = Video_caps (flv_video_mime_type codec)
     (if md_width md \<noteq> 0 then Some (md_width md) else None)
     (if md_height md \<noteq> 0 then Some (md_height md) else None)
     (if double_value (framerate md) \<noteq> Some 0 then Some (hundredths wild (framerate md)) else None)
     (if par_x md \<noteq> 0 \<and> par_y md \<noteq> 0 then Some (par_x md, par_y md) else None)"

definition flv_demux_negotiate_video_caps ::
    "(64 word \<Rightarrow> int) \<Rightarrow> replies \<Rightarrow> FlvDemux \<Rightarrow> 8 word \<Rightarrow> bool \<times> FlvDemux" where
  "flv_demux_negotiate_video_caps wild reply flt codec =
     (let (r, flt) = ask reply (Push_caps Video_pad (video_caps wild (metadata flt) codec)) flt
      in if r \<noteq> GST_FLOW_OK then (False, flt)
         else let flt = queue_tag ''video-codec'' (flv_video_codec_name codec) (flt\<lparr>video_codec := codec\<rparr>)
              in (True, if \<not> has_audio flt \<or> audio_linked flt then push_tags flt else flt))"

definition create_video_pad ::
    "(64 word \<Rightarrow> int) \<Rightarrow> replies \<Rightarrow> FlvVideoTag \<Rightarrow> FlvDemux \<Rightarrow> bool \<times> FlvDemux" where
  "create_video_pad wild reply video_tag flt =
     (let (r, flt) = ask reply (Set_active Video_pad) (flt\<lparr>video_src_pad := True\<rparr>)
      in if r \<noteq> GST_FLOW_OK then (False, flt)
         else let (ok, flt) = flv_demux_negotiate_video_caps wild reply flt (codec_id video_tag)
              in if \<not> ok then (False, flt\<lparr>video_src_pad := False\<rparr>)
                 else let (r, flt) = ask reply (Add_pad Video_pad) flt
                      in if r \<noteq> GST_FLOW_OK then (False, flt)
                         else (True, if audio_src_pad flt \<or> \<not> has_audio flt then tell No_more_pads flt else flt))"

definition blank_video_tag :: FlvVideoTag where
  "blank_video_tag = \<lparr>codec_id = 0, frame_type = 0, video_packet_offset = 0, video_packet_size = 0\<rparr>"

definition send_video :: "replies \<Rightarrow> FlvVideoTag \<Rightarrow> bytes \<Rightarrow> FlvDemux \<Rightarrow> (GstFlowReturn \<times> FlvDemux) option" where
  "send_video reply video_tag data flt =
     (let is_keyframe = (frame_type video_tag = FLV_VIDEO_FRAME_KEY);
          (r, flt) = ask reply (Allocate (video_packet_size video_tag)) flt
      in if r \<noteq> GST_FLOW_OK then Some (GST_FLOW_ERROR, flt)
         else let flt = flt\<lparr>video_frame_duration := longest_gap (current_timestamp flt)
                    (video_prev_timestamp flt) (video_discont flt) (video_frame_duration flt),
                    video_prev_timestamp := current_timestamp flt\<rparr>;
                  (r, flt) = ask reply (Map_buffer Video_pad) flt
              in if r \<noteq> GST_FLOW_OK then Some (GST_FLOW_ERROR, flt)
                 else do {
                   packet \<leftarrow> bytes_at data (unat (video_packet_offset video_tag)) (unat (video_packet_size video_tag));
                   let out = \<lparr>buf_data = packet, buf_timestamp = current_timestamp flt,
                         buf_duration = video_frame_duration flt, buf_offset = ucast (video_offset flt),
                         buf_offset_end = ucast (video_offset flt + 1), buf_discont = video_discont flt,
                         buf_delta_unit = \<not> is_keyframe\<rparr>;
                       flt = flt\<lparr>video_offset := video_offset flt + 1,
                         segment := (segment flt)\<lparr>seg_position := current_timestamp flt\<rparr>\<rparr>;
                       flt = (if video_discont flt
                         then (tell (Push_segment Video_pad (segment flt)) flt)\<lparr>video_discont := False\<rparr> else flt);
                       flt = (if is_keyframe
                         then flv_demux_index_add_entry flt (current_timestamp flt) (last_file_position flt) else flt);
                       (r, flt) = ask reply (Push_buffer Video_pad out) flt
                   in Some (r, if r = GST_FLOW_OK then flt\<lparr>video_linked := True\<rparr>
                               else if r = GST_FLOW_NOT_LINKED then flt\<lparr>video_linked := False\<rparr> else flt)
                 })"

definition flv_demux_parse_video_tag ::
    "(64 word \<Rightarrow> int) \<Rightarrow> replies \<Rightarrow> FlvDemux \<Rightarrow> bytes \<Rightarrow> 64 word \<Rightarrow> (GstFlowReturn \<times> FlvDemux) option" where
  "flv_demux_parse_video_tag wild reply flt data len = do {
     (parse_result, p, video_tag) \<leftarrow> flv_parser_read_video_tag (parser flt) data len blank_video_tag;
     flt \<leftarrow> Some (flt\<lparr>parser := p\<rparr>);
     if parse_result \<noteq> FLV_PARSER_OK then Some (GST_FLOW_ERROR, flt)
     else
       let need_push_tags = (\<not> video_src_pad flt);
           flt = flt\<lparr>has_video := True\<rparr>;
           (ok, flt) = (if video_src_pad flt then (True, flt) else create_video_pad wild reply video_tag flt)
       in if \<not> ok then Some (GST_FLOW_ERROR, flt)
          else if codec_id video_tag \<noteq> FLVDEMUX_VIDEO_FORMAT_VP6 \<and> codec_id video_tag \<noteq> FLVDEMUX_VIDEO_FORMAT_VP6_ALPHA then
            let flt = (if video_prev_timestamp flt = GST_CLOCK_TIME_NONE
                       then tell (Post_warning ''No video decoder for this encoding'') flt else flt)
            in Some (GST_FLOW_OK, flt\<lparr>video_prev_timestamp := current_timestamp flt\<rparr>)
          else
            let flt = (if video_codec flt \<noteq> codec_id video_tag
                       then snd (flv_demux_negotiate_video_caps wild reply flt (codec_id video_tag)) else flt);
                flt = (if queued_tags flt \<noteq> None \<and> need_push_tags then push_tags flt else flt)
            in send_video reply video_tag data flt
   }"

section \<open>Blocks\<close>

definition blank_header :: FlvHeader where
  "blank_header = \<lparr>file_version = 0, has_audio_tags = False, has_video_tags = False\<rparr>"

definition blank_prefix :: FlvTagPrefix where
  "blank_prefix = \<lparr>tag_type = 0, body_size = 0, timestamp = 0\<rparr>"

definition blank_reader :: FlvScriptDataReader where
  "blank_reader = \<lparr>memory = [], position = 0, reader_end = 0\<rparr>"

text \<open>The tags of the metadata are merged into the tags that wait; those of the metadata win.\<close>

definition queue_metadata_tags :: "FlvDemux \<Rightarrow> FlvDemux" where
  "queue_metadata_tags flt = (case tag_list (metadata flt) of
     None \<Rightarrow> flt
   | Some ts \<Rightarrow> flt\<lparr>queued_tags := Some (case queued_tags flt of None \<Rightarrow> ts | Some qs \<Rightarrow> AList.merge qs ts)\<rparr>)"

definition copy_keyframes :: "FlvDemux \<Rightarrow> FlvDemux" where
  "copy_keyframes flt = (case keyframes (metadata flt) of
     None \<Rightarrow> flt
   | Some ks \<Rightarrow>
       if copied_metadata_keyframes flt then flt
       else (fold (\<lambda>k flt. flv_demux_index_add_entry flt (time k) (fileposition k)) ks flt)
         \<lparr>copied_metadata_keyframes := True\<rparr>)"

definition parse_script_data ::
    "(64 word \<Rightarrow> int) \<Rightarrow> FlvDemux \<Rightarrow> bytes \<Rightarrow> 64 word \<Rightarrow> (GstFlowReturn \<times> FlvDemux) option" where
  "parse_script_data wild flt data len =
     (let (parse_result, p, reader) = flv_parser_read_script_data_tag (parser flt) data len blank_reader;
          flt = flt\<lparr>parser := p\<rparr>
      in if parse_result \<noteq> FLV_PARSER_OK then Some (GST_FLOW_ERROR, flt)
         else do {
           (ok, _, md) \<leftarrow> flv_script_data_read wild reader (metadata flt);
           flt \<leftarrow> Some (flt\<lparr>metadata := md\<rparr>);
           Some (GST_FLOW_OK, copy_keyframes (if ok then queue_metadata_tags flt else flt))
         })"

definition parse_block ::
    "(64 word \<Rightarrow> int) \<Rightarrow> replies \<Rightarrow> FlvDemux \<Rightarrow> bytes \<Rightarrow> 64 word \<Rightarrow> (GstFlowReturn \<times> FlvDemux) option" where
  "parse_block wild reply flt data len = (case parser_state (parser flt) of
     FLV_PARSER_EXPECT_HEADER \<Rightarrow> do {
       (parse_result, p, header) \<leftarrow> flv_parser_read_header (parser flt) data len blank_header;
       Some (if parse_result = FLV_PARSER_OK
             then (GST_FLOW_OK, flt\<lparr>parser := p, has_audio := has_audio_tags header, has_video := has_video_tags header\<rparr>)
             else (GST_FLOW_ERROR, flt\<lparr>parser := p\<rparr>))
     }
   | FLV_PARSER_EXPECT_SKIP_BLOCK \<Rightarrow>
       (let (parse_result, p) = flv_parser_skip (parser flt) data len
        in Some (if parse_result = FLV_PARSER_OK then GST_FLOW_OK else GST_FLOW_ERROR, flt\<lparr>parser := p\<rparr>))
   | FLV_PARSER_EXPECT_TAG_PREFIX \<Rightarrow> do {
       (parse_result, p, tag) \<leftarrow> flv_parser_read_tag_prefix (parser flt) data len blank_prefix;
       Some (if parse_result = FLV_PARSER_OK
             then (GST_FLOW_OK, flt\<lparr>parser := p, current_timestamp := scast (timestamp tag) * GST_MSECOND,
                                    last_file_position := file_position (parser flt)\<rparr>)
             else (GST_FLOW_ERROR, flt\<lparr>parser := p\<rparr>))
     }
   | FLV_PARSER_EXPECT_VIDEO_TAG_BODY \<Rightarrow> flv_demux_parse_video_tag wild reply flt data len
   | FLV_PARSER_EXPECT_AUDIO_TAG_BODY \<Rightarrow> flv_demux_parse_audio_tag reply flt data len
   | FLV_PARSER_EXPECT_SCRIPT_DATA_TAG_BODY \<Rightarrow> parse_script_data wild flt data len
   | FLV_PARSER_EOF \<Rightarrow> Some (GST_FLOW_ERROR, flt))"

definition flv_demux_parse_next_block ::
    "(64 word \<Rightarrow> int) \<Rightarrow> replies \<Rightarrow> FlvDemux \<Rightarrow> bytes \<Rightarrow> 64 word \<Rightarrow> (GstFlowReturn \<times> FlvDemux) option" where
  "flv_demux_parse_next_block wild reply flt data len = do {
     (result, flt) \<leftarrow> parse_block wild reply flt data len;
     Some (result, if result = GST_FLOW_ERROR then tell (Post_error ''Failed to demux FLV stream'') flt else flt)
   }"

section \<open>Buffers\<close>

text \<open>
  The loop of \<open>flv_demux_chain\<close>. \<open>gst_adapter_map\<close> gets the size of the block in 32 bits and gives a null
  pointer for a size of 0: then nothing is flushed and the loop goes round again.
\<close>

partial_function (option) drain ::
    "(64 word \<Rightarrow> int) \<Rightarrow> replies \<Rightarrow> FlvDemux \<Rightarrow> bytes \<Rightarrow> (GstFlowReturn \<times> FlvDemux \<times> bytes) option" where
  "drain wild reply flt adapter =
     (if length adapter \<ge> unat (next_block_size (parser flt)) then
        let block_size = next_block_size (parser flt);
            mapped = (ucast block_size :: 32 word)
        in if mapped = 0 then drain wild reply flt adapter
           else do {
             (result, flt) \<leftarrow> flv_demux_parse_next_block wild reply flt (take (unat mapped) adapter) block_size;
             if result \<noteq> GST_FLOW_OK then Some (result, flt, drop (unat mapped) adapter)
             else drain wild reply flt (drop (unat mapped) adapter)
           }
      else Some (GST_FLOW_OK, flt, adapter))"

definition flv_demux_chain ::
    "(64 word \<Rightarrow> int) \<Rightarrow> replies \<Rightarrow> FlvDemux \<Rightarrow> bytes \<Rightarrow> bytes \<Rightarrow> 64 word \<Rightarrow> (GstFlowReturn \<times> FlvDemux \<times> bytes) option" where
  "flv_demux_chain wild reply flt adapter buf buffer_offset =
     (if is_flushing flt \<or> is_eos_received flt then Some (GST_FLOW_FLUSHING, flt, adapter)
      else if need_parser_flush flt then
        drain wild reply (flt\<lparr>need_parser_flush := False,
          parser := (if buffer_offset \<noteq> 0 then snd (flv_parser_seek (parser flt) buffer_offset)
                     else flv_parser_reset (parser flt))\<rparr>) buf
      else drain wild reply flt (adapter @ buf))"

end
