(* ===== verification/FlvBlocks.thy ===== *)
theory FlvBlocks
  imports FlvScript FlvDemux
begin

text \<open>
  The invariant of the demuxer: the size of the next block is positive and fits in 32 bits, the index of
  key frames is strictly sorted, and the tags are known. Every block of every stream is parsed without
  leaving the memory of the block, so \<open>flv_demux_chain\<close> always returns.
\<close>

definition parser_ok :: "FlvParser \<Rightarrow> bool" where
  "parser_ok p \<longleftrightarrow> 4 \<le> next_block_size p \<and> next_block_size p < 2 ^ 32"

definition sorted_index :: "FlvKeyframe list \<Rightarrow> bool" where
  "sorted_index ks \<longleftrightarrow> sorted_wrt (<) (map time ks)"

definition demux_ok :: "FlvDemux \<Rightarrow> bool" where
  "demux_ok flt \<longleftrightarrow> parser_ok (parser flt) \<and> sorted_index (index flt) \<and> tags_ok (metadata flt)"

section \<open>The index\<close>

lemma insert_sorted_set [simp]: "set (insert_sorted k xs) = insert k (set xs)"
  by (induction xs) auto

lemma compare_simps [simp]:
  "compare_keyframes a b = 0 \<longleftrightarrow> time a = time b" "0 < compare_keyframes a b \<longleftrightarrow> time b < time a"
  by (auto simp: compare_keyframes_def)

lemma insert_sorted_sorted: "sorted_index xs \<Longrightarrow> time k \<notin> time ` set xs \<Longrightarrow> sorted_index (insert_sorted k xs)"
  by (induction xs) (auto simp: sorted_index_def)

lemma add_entry_index:
  "index (flv_demux_index_add_entry flt t p) =
     (if t \<in> time ` set (index flt) then index flt else insert_sorted \<lparr>time = t, fileposition = p\<rparr> (index flt))"
  by (auto simp: flv_demux_index_add_entry_def find_None_iff Let_def)

lemma add_entry_sorted: "sorted_index (index flt) \<Longrightarrow> sorted_index (index (flv_demux_index_add_entry flt t p))"
  by (simp add: add_entry_index insert_sorted_sorted)

lemma add_entry_frame:
  "flv_demux_index_add_entry flt t p = flt\<lparr>index := index (flv_demux_index_add_entry flt t p)\<rparr>"
  by (simp add: flv_demux_index_add_entry_def Let_def)

lemma lookup_loop_greatest:
  assumes "sorted_index xs" "\<And>k. prev = Some k \<Longrightarrow> time k < t" "prev = None \<Longrightarrow> xs \<noteq> [] \<and> time (hd xs) \<le> t"
    "xs = [] \<Longrightarrow> False" "t \<le> time (last xs)"
  shows "\<exists>k. lookup_loop t prev xs = Some (Some k) \<and> time k \<le> t \<and> (Some k = prev \<or> k \<in> set xs) \<and>
    (\<forall>x \<in> set xs. time x \<le> t \<longrightarrow> time x \<le> time k)"
  using assms
proof (induction xs arbitrary: prev)
  case (Cons x xs)
  consider "time x = t" | "time x > t" | "time x < t" by fastforce
  then show ?case
  proof cases
    case 1
    then show ?thesis using Cons.prems(1) by (auto simp: sorted_index_def)
  next
    case 2
    then obtain k where k: "prev = Some k" using Cons.prems(3) by (cases prev) auto
    have "\<forall>y \<in> set (x # xs). t < time y" using Cons.prems(1) 2 by (auto simp: sorted_index_def)
    with 2 k Cons.prems(2) show ?thesis by (auto simp: order.strict_implies_order)
  next
    case 3
    then have xs: "xs \<noteq> []" using Cons.prems(5) by auto
    obtain k where k: "lookup_loop t (Some x) xs = Some (Some k)" "time k \<le> t" "Some k = Some x \<or> k \<in> set xs"
      "\<forall>y \<in> set xs. time y \<le> t \<longrightarrow> time y \<le> time k"
      using Cons.IH [of "Some x"] Cons.prems 3 xs by (auto simp: sorted_index_def)
    have "time x \<le> time k" using k(3) Cons.prems(1) by (auto simp: sorted_index_def)
    with 3 k show ?thesis by auto
  qed
qed simp

lemma sorted_index_last: "sorted_index xs \<Longrightarrow> y \<in> set xs \<Longrightarrow> time y \<le> time (last xs)"
proof (induction xs)
  case (Cons x xs)
  show ?case
  proof (cases "xs = []")
    case False
    then have "time x \<le> time (last xs)" using Cons.prems(1) by (simp add: sorted_index_def order.strict_implies_order)
    with Cons False show ?thesis by (auto simp: sorted_index_def)
  qed (use Cons in simp)
qed simp

lemma lookup_exact:
  assumes "sorted_index (index flt)"
  shows "returns (flv_demux_index_lookup flt t) (\<lambda>r. case r of
      None \<Rightarrow> (\<forall>k \<in> set (index flt). t < time k) \<or> (\<forall>k \<in> set (index flt). time k < t)
    | Some k \<Rightarrow> k \<in> set (index flt) \<and> time k \<le> t \<and> (\<forall>x \<in> set (index flt). time x \<le> t \<longrightarrow> time x \<le> time k) \<and>
        (\<exists>x \<in> set (index flt). t \<le> time x))"
proof (cases "index flt")
  case Nil
  then show ?thesis by (simp add: flv_demux_index_lookup_def)
next
  case (Cons x xs)
  have last: "last (x # xs) \<in> set (x # xs)" by (rule last_in_set) simp
  note le_last = sorted_index_last [OF assms, unfolded Cons]
  show ?thesis
  proof (cases "t < time x \<or> time (last (x # xs)) < t")
    case True
    then show ?thesis
    proof
      assume "t < time x"
      then have "\<forall>k \<in> set (x # xs). t < time k" using assms Cons by (auto simp: sorted_index_def)
      with \<open>t < time x\<close> show ?thesis by (simp add: flv_demux_index_lookup_def Cons)
    next
      assume l: "time (last (x # xs)) < t"
      then have "\<forall>k \<in> set (x # xs). time k < t" using le_last by fastforce
      with l show ?thesis by (auto simp: flv_demux_index_lookup_def Cons)
    qed
  next
    case False
    then obtain k where "lookup_loop t None (x # xs) = Some (Some k)" "time k \<le> t" "k \<in> set (x # xs)"
      "\<forall>y \<in> set (x # xs). time y \<le> t \<longrightarrow> time y \<le> time k"
      using lookup_loop_greatest [of "x # xs" None t] assms Cons by (auto simp: not_less)
    with False last show ?thesis
      by (simp add: flv_demux_index_lookup_def Cons del: last.simps) (metis linorder_not_le list.set_intros last_in_set list.distinct(1) set_ConsD)
  qed
qed


section \<open>What each step leaves alone\<close>

definition flags :: "FlvDemux \<Rightarrow> bool \<times> bool \<times> bool" where
  "flags flt = (is_flushing flt, is_eos_received flt, need_parser_flush flt)"

definition keeps :: "FlvDemux \<Rightarrow> FlvDemux \<Rightarrow> bool" where
  "keeps a b \<longleftrightarrow> parser b = parser a \<and> metadata b = metadata a \<and> flags b = flags a \<and> (sorted_index (index a) \<longrightarrow> sorted_index (index b))"

lemma keeps_refl [simp]: "keeps a a"
  by (simp add: keeps_def)

lemma keeps_trans [trans]: "keeps a b \<Longrightarrow> keeps b c \<Longrightarrow> keeps a c"
  by (simp add: keeps_def)

lemma keeps_tell [simp]: "keeps a (tell c b) = keeps a b"
  by (simp add: keeps_def flags_def tell_def)

lemma keeps_ask: "keeps a b \<Longrightarrow> keeps a (snd (ask r c b))"
  by (simp add: ask_def)

lemma keeps_queue: "keeps a (queue_tag t n b) = keeps a b" "keeps a (push_tags b) = keeps a b"
  by (simp_all add: queue_tag_def push_tags_def keeps_def flags_def tell_def)

lemma keeps_updates [simp]:
  "keeps a (b\<lparr>audio_src_pad := x1\<rparr>) = keeps a b" "keeps a (b\<lparr>video_src_pad := x1\<rparr>) = keeps a b"
  "keeps a (b\<lparr>audio_format := x2\<rparr>) = keeps a b" "keeps a (b\<lparr>video_codec := x2\<rparr>) = keeps a b"
  "keeps a (b\<lparr>has_audio := x1\<rparr>) = keeps a b" "keeps a (b\<lparr>has_video := x1\<rparr>) = keeps a b"
  "keeps a (b\<lparr>audio_linked := x1\<rparr>) = keeps a b" "keeps a (b\<lparr>video_linked := x1\<rparr>) = keeps a b"
  "keeps a (b\<lparr>audio_offset := x3\<rparr>) = keeps a b" "keeps a (b\<lparr>video_offset := x3\<rparr>) = keeps a b"
  "keeps a (b\<lparr>audio_discont := x1\<rparr>) = keeps a b" "keeps a (b\<lparr>video_discont := x1\<rparr>) = keeps a b"
  "keeps a (b\<lparr>audio_prev_timestamp := x4\<rparr>) = keeps a b" "keeps a (b\<lparr>video_prev_timestamp := x4\<rparr>) = keeps a b"
  "keeps a (b\<lparr>audio_frame_duration := x4\<rparr>) = keeps a b" "keeps a (b\<lparr>video_frame_duration := x4\<rparr>) = keeps a b"
  "keeps a (b\<lparr>segment := x5\<rparr>) = keeps a b" "keeps a (b\<lparr>queued_tags := x6\<rparr>) = keeps a b"
  "keeps a (b\<lparr>copied_metadata_keyframes := x1\<rparr>) = keeps a b"
  by (simp_all add: keeps_def flags_def)

lemma keeps_add_entry: "keeps a b \<Longrightarrow> keeps a (flv_demux_index_add_entry b t p)"
  using add_entry_sorted [of b t p] by (subst add_entry_frame) (simp add: keeps_def flags_def)

lemma keeps_negotiate:
  "keeps a b \<Longrightarrow> keeps a (snd (flv_demux_negotiate_audio_caps reply b f rt st))"
  "keeps a b \<Longrightarrow> keeps a (snd (flv_demux_negotiate_video_caps wild reply b codec))"
  by (simp_all add: flv_demux_negotiate_audio_caps_def flv_demux_negotiate_video_caps_def ask_def keeps_queue Let_def)

lemma keeps_create:
  "keeps a b \<Longrightarrow> keeps a (snd (create_audio_pad reply tag b))"
  "keeps a b \<Longrightarrow> keeps a (snd (create_video_pad wild reply vtag b))"
proof -
  assume k: "keeps a b"
  obtain ok1 b1 where 1: "flv_demux_negotiate_audio_caps reply (tell (Set_active Audio_pad) (b\<lparr>audio_src_pad := True\<rparr>))
      (sound_format tag) (sampling_rate tag) (audio_stereo tag) = (ok1, b1)" by force
  with k keeps_negotiate(1) [of a "tell (Set_active Audio_pad) (b\<lparr>audio_src_pad := True\<rparr>)"] have "keeps a b1"
    by (metis keeps_tell keeps_updates(1) snd_conv)
  with 1 k show "keeps a (snd (create_audio_pad reply tag b))" by (simp add: create_audio_pad_def ask_def Let_def)
  obtain ok2 b2 where 2: "flv_demux_negotiate_video_caps wild reply (tell (Set_active Video_pad) (b\<lparr>video_src_pad := True\<rparr>))
      (codec_id vtag) = (ok2, b2)" by force
  with k keeps_negotiate(2) [of a "tell (Set_active Video_pad) (b\<lparr>video_src_pad := True\<rparr>)"] have "keeps a b2"
    by (metis keeps_tell keeps_updates(2) snd_conv)
  with 2 k show "keeps a (snd (create_video_pad wild reply vtag b))" by (simp add: create_video_pad_def ask_def Let_def)
qed

section \<open>Every block is parsed\<close>

lemma send_audio_ok:
  assumes "unat (audio_packet_offset tag) + unat (audio_packet_size tag) \<le> length data" "keeps a b"
  shows "returns (send_audio reply tag data b) (\<lambda>(r, c). keeps a c)"
  using assms by (auto simp: send_audio_def ask_def Let_def bytes_at_def intro: keeps_add_entry)

lemma send_video_ok:
  assumes "unat (video_packet_offset tag) + unat (video_packet_size tag) \<le> length data" "keeps a b"
  shows "returns (send_video reply tag data b) (\<lambda>(r, c). keeps a c)"
  using assms by (auto simp: send_video_def ask_def Let_def bytes_at_def intro: keeps_add_entry)

text \<open>The checks of the parser put a packet inside the buffer, also where the arithmetic wraps.\<close>

lemma packet_inside: "\<not> packet_outside n off len \<Longrightarrow> unat off + unat len \<le> unat n \<and> 0 < unat len"
  by (auto simp: packet_outside_def not_less word_le_nat_alt unat_sub_if' unat_gt_0)

lemma accept_tag_ok [simp]: "parser_ok (accept_tag p)" "parser_ok (accept_block n 11 st p)"
  by (simp_all add: parser_ok_def accept_tag_def accept_block_def)

lemma high_nibble: "unat (drop_bit 4 (b AND 0xF0) :: 8 word) < 16"
proof -
  have "unat x < 256" for x :: "8 word" using unsigned_less [of x] by simp
  from this [of "b AND 0xF0"] show ?thesis by (simp add: unsigned_drop_bit_eq drop_bit_eq_div unat_div)
qed

lemma low_nibble: "unat (b AND 0x0F :: 8 word) < 16"
proof -
  have "b AND 0x0F = take_bit 4 b" by (simp add: take_bit_eq_mask mask_eq_exp_minus_1)
  then show ?thesis by (simp add: unsigned_take_bit_eq take_bit_nat_less_exp [of 4, simplified])
qed

lemma audio_tag_total:
  assumes "parser_ok p" "length data = unat len"
  shows "returns (flv_parser_read_audio_tag p data len tag) (\<lambda>(r, p', tag'). parser_ok p' \<and>
     (r = FLV_PARSER_OK \<longrightarrow> unat (audio_packet_offset tag') + unat (audio_packet_size tag') \<le> length data))"
proof (cases "parser_state p \<noteq> FLV_PARSER_EXPECT_AUDIO_TAG_BODY \<or> len < next_block_size p")
  case True
  then show ?thesis using assms(1) by (auto simp: flv_parser_read_audio_tag_def)
next
  case False
  then have "0 < length data" using assms by (simp add: parser_ok_def word_le_nat_alt word_less_nat_alt)
  then obtain b where b: "read_at data 0 = Some b" by (simp add: read_at_def)
  have "unat (drop_bit 4 (b AND 0xF0)) < 16" by (rule high_nibble)
  then obtain e where e: "read_at flv_audio_format_data_size (uint (drop_bit 4 (b AND 0xF0))) = Some e"
    by (simp add: read_at_def flv_audio_format_data_size_def)
  show ?thesis using False assms b e packet_inside
    by (auto simp: flv_parser_read_audio_tag_def Let_def)
qed


lemma video_tag_total:
  assumes "parser_ok p" "length data = unat len"
  shows "returns (flv_parser_read_video_tag p data len tag) (\<lambda>(r, p', tag'). parser_ok p' \<and>
     (r = FLV_PARSER_OK \<longrightarrow> unat (video_packet_offset tag') + unat (video_packet_size tag') \<le> length data))"
proof (cases "parser_state p \<noteq> FLV_PARSER_EXPECT_VIDEO_TAG_BODY \<or> len < next_block_size p")
  case True
  then show ?thesis using assms(1) by (auto simp: flv_parser_read_video_tag_def)
next
  case False
  then have "0 < length data" using assms by (simp add: parser_ok_def word_le_nat_alt word_less_nat_alt)
  then obtain b where b: "read_at data 0 = Some b" by (simp add: read_at_def)
  have "unat (b AND 0x0F) < 16" by (rule low_nibble)
  then obtain e where e: "read_at flv_video_codec_data_size (uint (b AND 0x0F)) = Some e"
    by (simp add: read_at_def flv_video_codec_data_size_def)
  show ?thesis using False assms b e packet_inside
    by (auto simp: flv_parser_read_video_tag_def Let_def)
qed

lemma header_total:
  assumes "parser_ok p" "length data = unat len"
  shows "returns (flv_parser_read_header p data len h) (\<lambda>(r, p', h'). parser_ok p')"
proof (cases "len < 9")
  case True
  then show ?thesis using assms(1) by (auto simp: flv_parser_read_header_def)
next
  case False
  then have l: "9 \<le> length data" using assms(2) by (simp add: word_less_nat_alt)
  have n: "parser_ok (accept_block 9 (if w = 9 then 4 else w - 9 + 4) st p)" if "\<not> w < 9" "w < 2 ^ 32" for w :: "64 word" and st
    using that by (auto simp: parser_ok_def accept_block_def word_le_nat_alt word_less_nat_alt unat_plus_if' unat_sub_if')
  have "be_nat (take 4 (drop 5 data)) < 2 ^ 32" using be_nat_bound [of "take 4 (drop 5 data)"] l by simp
  then have "(word_of_nat (be_nat (take 4 (drop 5 data))) :: 64 word) < 2 ^ 32" by (simp add: word_less_nat_alt unat_of_nat)
  then show ?thesis using assms(1) l n
    by (auto simp: flv_parser_read_header_def Let_def bytes_at_def read_at_def)
qed

lemma prefix_total:
  assumes "parser_ok p" "length data = unat len"
  shows "returns (flv_parser_read_tag_prefix p data len t) (\<lambda>(r, p', t'). parser_ok p')"
proof (cases "len < 11")
  case True
  then show ?thesis using assms(1) by (auto simp: flv_parser_read_tag_prefix_def)
next
  case False
  then have l: "11 \<le> length data" using assms(2) by (simp add: word_less_nat_alt)
  have "be_nat (take 3 (drop 1 data)) < 2 ^ 24" using be_nat_bound [of "take 3 (drop 1 data)"] l by simp
  then have "(word_of_nat (be_nat (take 3 (drop 1 data))) :: 64 word) < 2 ^ 24" by (simp add: word_less_nat_alt unat_of_nat)
  then have "parser_ok (accept_block 11 (word_of_nat (be_nat (take 3 (drop (Suc 0) data))) + 4) st p)" for st
    by (auto simp: parser_ok_def accept_block_def word_le_nat_alt word_less_nat_alt unat_plus_if')
  then show ?thesis using assms(1) l
    by (auto simp: flv_parser_read_tag_prefix_def Let_def bytes_at_def read_at_def)
qed

lemma keeps_ok: "keeps a b \<Longrightarrow> demux_ok a \<Longrightarrow> demux_ok b"
  by (simp add: keeps_def demux_ok_def)

definition after :: "FlvDemux \<Rightarrow> FlvDemux \<Rightarrow> bool" where
  "after a b \<longleftrightarrow> demux_ok b \<and> flags b = flags a"

lemma after_parser: "after (flt\<lparr>parser := p\<rparr>) b = after flt b"
  by (simp add: after_def flags_def)

lemma keeps_after: "keeps (flt\<lparr>parser := p\<rparr>) b \<Longrightarrow> demux_ok (flt\<lparr>parser := p\<rparr>) \<Longrightarrow> after flt b"
  by (auto simp: after_def intro: keeps_ok) (simp add: keeps_def flags_def)

lemma audio_block_total:
  assumes "demux_ok flt" "length data = unat len"
  shows "returns (flv_demux_parse_audio_tag reply flt data len) (\<lambda>(r, flt'). after flt flt')"
proof -
  obtain r p tag where t: "flv_parser_read_audio_tag (parser flt) data len blank_audio_tag = Some (r, p, tag)" "parser_ok p"
    and in_buffer: "r = FLV_PARSER_OK \<longrightarrow> unat (audio_packet_offset tag) + unat (audio_packet_size tag) \<le> length data"
    using audio_tag_total [of "parser flt" data len blank_audio_tag] assms by (auto simp: demux_ok_def elim!: returnsE)
  let ?a = "flt\<lparr>parser := p\<rparr>" and ?b = "flt\<lparr>parser := p, has_audio := True\<rparr>"
  have ok: "demux_ok ?a" "keeps ?a ?b" using assms(1) t(2) by (simp_all add: demux_ok_def)
  obtain made c where c: "(if audio_src_pad ?b then (True, ?b) else create_audio_pad reply tag ?b) = (made, c)" by force
  have kc: "keeps ?a c" using c keeps_create(1) [OF ok(2), of reply tag] ok(2) by (auto split: if_splits)
  have sent: "returns (send_audio reply tag data d) (\<lambda>(r, flt'). after flt flt')" if "r = FLV_PARSER_OK" "keeps ?a d" for d
    using send_audio_ok [of tag data ?a d reply] that in_buffer ok(1) by (auto intro: keeps_after elim!: returns_conseq)
  note neg = keeps_negotiate(1) [OF kc]
  have w: "keeps ?a (tell m c)" for m using kc by simp
  show ?thesis
    using t(1) c kc ok(1) sent [OF _ kc] sent [OF _ neg] keeps_after [OF kc ok(1)] keeps_after [OF w ok(1)]
    by (auto simp: flv_demux_parse_audio_tag_def Let_def split: prod.split simp: after_def demux_ok_def flags_def)
qed


lemma video_block_total:
  assumes "demux_ok flt" "length data = unat len"
  shows "returns (flv_demux_parse_video_tag wild reply flt data len) (\<lambda>(r, flt'). after flt flt')"
proof -
  obtain r p tag where t: "flv_parser_read_video_tag (parser flt) data len blank_video_tag = Some (r, p, tag)" "parser_ok p"
    and in_buffer: "r = FLV_PARSER_OK \<longrightarrow> unat (video_packet_offset tag) + unat (video_packet_size tag) \<le> length data"
    using video_tag_total [of "parser flt" data len blank_video_tag] assms by (auto simp: demux_ok_def elim!: returnsE)
  let ?a = "flt\<lparr>parser := p\<rparr>" and ?b = "flt\<lparr>parser := p, has_video := True\<rparr>"
  have ok: "demux_ok ?a" "keeps ?a ?b" using assms(1) t(2) by (simp_all add: demux_ok_def)
  obtain made c where c: "(if video_src_pad ?b then (True, ?b) else create_video_pad wild reply tag ?b) = (made, c)" by force
  have kc: "keeps ?a c" using c keeps_create(2) [OF ok(2), of wild reply tag] ok(2) by (auto split: if_splits)
  have sent: "returns (send_video reply tag data d) (\<lambda>(r, flt'). after flt flt')" if "r = FLV_PARSER_OK" "keeps ?a d" for d
    using send_video_ok [of tag data ?a d reply] that in_buffer ok(1) by (auto intro: keeps_after elim!: returns_conseq)
  note neg = keeps_negotiate(2) [OF kc]
  have pushed: "keeps ?a (push_tags d) = keeps ?a d" for d by (simp add: keeps_queue)
  have w: "keeps ?a (tell m c)" for m using kc by simp
  show ?thesis
    using t(1) c kc ok(1) sent [OF _ kc] sent [OF _ neg] sent [OF _ iffD2 [OF pushed kc]] sent [OF _ iffD2 [OF pushed neg]]
      keeps_after [OF kc ok(1)] keeps_after [OF w ok(1)]
    by (auto simp: flv_demux_parse_video_tag_def Let_def split: prod.split simp: after_def demux_ok_def flags_def)
qed

lemma copy_keyframes_ok: "demux_ok flt \<Longrightarrow> demux_ok (copy_keyframes flt) \<and> flags (copy_keyframes flt) = flags flt"
proof -
  assume ok: "demux_ok flt"
  have added: "keeps flt b \<Longrightarrow> keeps flt (fold (\<lambda>k flt. flv_demux_index_add_entry flt (time k) (fileposition k)) ks b)" for ks b
    by (induction ks arbitrary: b) (auto intro: keeps_add_entry)
  then have "keeps flt (copy_keyframes flt)" using added [OF keeps_refl] by (auto simp: copy_keyframes_def split: option.split)
  with keeps_ok [OF this ok] show ?thesis by (simp add: keeps_def)
qed

lemma script_block_total:
  assumes "demux_ok flt" "length data = unat len"
  shows "returns (parse_script_data wild flt data len) (\<lambda>(r, flt'). after flt flt')"
proof (cases "parser_state (parser flt) \<noteq> FLV_PARSER_EXPECT_SCRIPT_DATA_TAG_BODY \<or> len < next_block_size (parser flt)")
  case True
  then show ?thesis using assms(1) by (auto simp: parse_script_data_def flv_parser_read_script_data_tag_def after_def)
next
  case False
  let ?rd = "\<lparr>memory = data, position = 0, reader_end = unat (next_block_size (parser flt) - 4)\<rparr>"
  have "next_block_size (parser flt) - 4 \<le> len"
    using False assms(1) by (auto simp: demux_ok_def parser_ok_def word_le_nat_alt word_less_nat_alt unat_sub_if')
  then have "in_memory ?rd" using assms(2) by (simp add: in_memory_def word_le_nat_alt)
  then obtain ok rd md where r: "flv_script_data_read wild ?rd (metadata flt) = Some (ok, rd, md)" "tags_ok md"
    using script_data_total [of ?rd "metadata flt" wild] assms(1) by (auto simp: demux_ok_def elim!: returnsE)
  let ?c = "flt\<lparr>parser := accept_tag (parser flt), metadata := md\<rparr>"
  have c: "demux_ok ?c" "demux_ok (queue_metadata_tags ?c)"
    using assms(1) r(2) by (auto simp: demux_ok_def queue_metadata_tags_def split: option.split)
  have "flags (queue_metadata_tags ?c) = flags flt" "flags ?c = flags flt"
    by (auto simp: queue_metadata_tags_def flags_def split: option.split)
  with copy_keyframes_ok [OF c(1)] copy_keyframes_ok [OF c(2)]
  have "after flt (copy_keyframes ?c)" "after flt (copy_keyframes (queue_metadata_tags ?c))" by (simp_all add: after_def)
  then show ?thesis
    using False r(1)
    by (simp add: parse_script_data_def flv_parser_read_script_data_tag_def Let_def)
qed

lemma block_total:
  assumes "demux_ok flt" "length data = unat len"
  shows "returns (flv_demux_parse_next_block wild reply flt data len) (\<lambda>(r, flt'). after flt flt')"
proof -
  have p: "parser_ok (parser flt)" using assms(1) by (simp add: demux_ok_def)
  note totals = audio_block_total [OF assms, of reply] video_block_total [OF assms, of wild reply] script_block_total [OF assms, of wild]
  have "returns (parse_block wild reply flt data len) (\<lambda>(r, flt'). after flt flt')"
  proof (cases "parser_state (parser flt)")
    case FLV_PARSER_EXPECT_HEADER
    then show ?thesis using assms(1)
      by (auto simp: parse_block_def after_def flags_def demux_ok_def intro!: returns_bindI [OF header_total [OF p assms(2)]])
  next
    case FLV_PARSER_EXPECT_SKIP_BLOCK
    then show ?thesis using assms(1) by (auto simp: parse_block_def flv_parser_skip_def after_def flags_def demux_ok_def split: prod.split)
  next
    case FLV_PARSER_EXPECT_TAG_PREFIX
    then show ?thesis using assms(1)
      by (auto simp: parse_block_def after_def flags_def demux_ok_def intro!: returns_bindI [OF prefix_total [OF p assms(2)]])
  qed (use totals assms(1) in \<open>simp_all add: parse_block_def after_def\<close>)
  then show ?thesis
    unfolding flv_demux_parse_next_block_def by (rule returns_bindI) (auto simp: tell_def after_def flags_def demux_ok_def)
qed


section \<open>The loop over the blocks of a buffer\<close>

lemma mapped_size:
  assumes "parser_ok p"
  shows "unat (ucast (next_block_size p) :: 32 word) = unat (next_block_size p)" "4 \<le> unat (next_block_size p)"
proof -
  have n: "unat (next_block_size p) < 2 ^ 32" "4 \<le> unat (next_block_size p)"
    using assms by (simp_all add: parser_ok_def word_le_nat_alt word_less_nat_alt)
  then show "4 \<le> unat (next_block_size p)" by simp
  show "unat (ucast (next_block_size p) :: 32 word) = unat (next_block_size p)"
    using n by (simp add: unsigned_ucast_eq take_bit_nat_eq_self)
qed

lemma drain_step:
  assumes "demux_ok flt"
  shows "drain wild reply flt adapter =
    (let n = unat (next_block_size (parser flt))
     in if length adapter < n then Some (GST_FLOW_OK, flt, adapter)
        else do {
          (r, flt) \<leftarrow> flv_demux_parse_next_block wild reply flt (take n adapter) (next_block_size (parser flt));
          if r \<noteq> GST_FLOW_OK then Some (r, flt, drop n adapter) else drain wild reply flt (drop n adapter)
        })"
proof -
  have p: "parser_ok (parser flt)" using assms by (simp add: demux_ok_def)
  note m = mapped_size [OF p]
  have "(ucast (next_block_size (parser flt)) :: 32 word) \<noteq> 0"
    using m by (metis not_numeral_le_zero unat_0)
  then show ?thesis using m(1) by (subst drain.simps) (simp add: Let_def not_less cong: if_cong)
qed

lemma after_ok: "after a b \<Longrightarrow> demux_ok b"
  by (simp add: after_def)

lemma drain_total:
  "demux_ok flt \<Longrightarrow> returns (drain wild reply flt adapter) (\<lambda>(r, flt', rest). after flt flt')"
proof (induction "length adapter" arbitrary: flt adapter rule: less_induct)
  case less
  let ?n = "unat (next_block_size (parser flt))"
  have n: "4 \<le> ?n" using mapped_size(2) [of "parser flt"] less.prems by (simp add: demux_ok_def)
  show ?case
  proof (cases "length adapter < ?n")
    case True
    then show ?thesis using less.prems by (simp add: drain_step after_def)
  next
    case False
    then obtain r g where g: "flv_demux_parse_next_block wild reply flt (take ?n adapter) (next_block_size (parser flt)) = Some (r, g)"
      "after flt g"
      using block_total [OF less.prems, of "take ?n adapter" "next_block_size (parser flt)" wild reply] by (auto elim!: returnsE)
    then show ?thesis using less.hyps [of "drop ?n adapter" g] less.prems False n by (auto simp: drain_step Let_def after_def elim!: returns_conseq)
  qed
qed

text \<open>Bytes that arrive later do not change what is done with those that are there.\<close>

lemma drain_append:
  assumes "demux_ok flt" "drain wild reply flt xs = Some (GST_FLOW_OK, flt', rest)"
  shows "drain wild reply flt (xs @ ys) = drain wild reply flt' (rest @ ys)"
  using assms
proof (induction "length xs" arbitrary: flt xs rule: less_induct)
  case less
  let ?n = "unat (next_block_size (parser flt))"
  have n: "4 \<le> ?n" using mapped_size(2) [of "parser flt"] less.prems by (simp add: demux_ok_def)
  show ?case
  proof (cases "length xs < ?n")
    case True
    then show ?thesis using less.prems by (simp add: drain_step)
  next
    case False
    then obtain r g where g: "flv_demux_parse_next_block wild reply flt (take ?n xs) (next_block_size (parser flt)) = Some (r, g)"
      "after flt g"
      using block_total [OF less.prems(1), of "take ?n xs" "next_block_size (parser flt)" wild reply] by (auto elim!: returnsE)
    have run: "drain wild reply g (drop ?n xs) = Some (GST_FLOW_OK, flt', rest)" "r = GST_FLOW_OK"
      using less.prems(2) g False by (auto simp: drain_step [OF less.prems(1)] Let_def split: if_splits)
    have "drain wild reply flt (xs @ ys) = drain wild reply g (drop ?n xs @ ys)"
      using g run(2) False by (simp add: drain_step [OF less.prems(1)] Let_def)
    also have "\<dots> = drain wild reply flt' (rest @ ys)"
      using less.hyps [OF _ after_ok [OF g(2)] run(1)] False n by simp
    finally show ?thesis .
  qed
qed

lemma parser_restart_ok: "demux_ok flt \<Longrightarrow> demux_ok (flt\<lparr>need_parser_flush := False,
   parser := (if off \<noteq> 0 then snd (flv_parser_seek (parser flt) off) else flv_parser_reset (parser flt))\<rparr>)"
  by (simp add: demux_ok_def parser_ok_def flv_parser_seek_def flv_parser_reset_def)

lemma drain_ok: "demux_ok flt \<Longrightarrow> returns (drain wild reply flt adapter) (\<lambda>(r, flt', rest). demux_ok flt')"
  by (rule returns_conseq [OF drain_total]) (auto simp: after_def)

lemma chain_total:
  "demux_ok flt \<Longrightarrow> returns (flv_demux_chain wild reply flt adapter buf off) (\<lambda>(r, flt', rest). demux_ok flt')"
  using drain_ok [OF parser_restart_ok, of flt wild reply off buf] drain_ok [of flt wild reply "adapter @ buf"]
  by (simp add: flv_demux_chain_def)

end
