(* ===== verification/FlvSeek.thy ===== *)
theory FlvSeek
  imports FlvBlocks
begin

text \<open>
  \<open>flvdemux.c\<close>: pulling the file block by block, searching it for key frames, and seeks. What an
  upstream element gives for a range of bytes is the argument \<open>source\<close>, a function of the calls so far.
  \<open>gst_segment_do_seek\<close> of GStreamer, applied to the arguments of a seek, is part of the event.
\<close>

unbundle bit_operations_syntax

type_synonym source = "gst_call list \<Rightarrow> GstFlowReturn \<times> bytes"

abbreviation (input) GST_SEEK_FLAG_FLUSH :: "32 word" where "GST_SEEK_FLAG_FLUSH \<equiv> 1"
abbreviation (input) GST_SEEK_FLAG_KEY_UNIT :: "32 word" where "GST_SEEK_FLAG_KEY_UNIT \<equiv> 4"
abbreviation (input) GST_SEEK_FLAG_SEGMENT :: "32 word" where "GST_SEEK_FLAG_SEGMENT \<equiv> 8"
abbreviation (input) GST_SECOND :: "64 word" where "GST_SECOND \<equiv> 1000000000"

section \<open>Pulling\<close>

definition pull_range :: "source \<Rightarrow> 64 word \<Rightarrow> 64 word \<Rightarrow> FlvDemux \<Rightarrow> GstFlowReturn \<times> bytes \<times> FlvDemux" where
  "pull_range source offset len flt =
     (let flt = tell (Pull_range offset (ucast len)) flt; (r, data) = source (calls flt) in (r, data, flt))"

definition flv_demux_loop :: "(64 word \<Rightarrow> int) \<Rightarrow> replies \<Rightarrow> source \<Rightarrow> FlvDemux \<Rightarrow> FlvDemux option" where
  "flv_demux_loop wild reply source flt =
     (let (result, data, flt) = pull_range source (file_position (parser flt)) (next_block_size (parser flt)) flt
      in do {
        (result, flt) \<leftarrow>
          (if result \<noteq> GST_FLOW_OK then Some (result, flt)
           else let (r, flt) = ask reply Map_block flt
                in if r \<noteq> GST_FLOW_OK then Some (GST_FLOW_EOS, flt)
                   else flv_demux_parse_next_block wild reply flt data (word_of_nat (length data)));
        if result = GST_FLOW_OK then Some flt
        else let flt = tell Pause_task flt
             in Some (if result = GST_FLOW_EOS then flv_demux_push_src_event ''eos'' flt
                      else if result = GST_FLOW_ERROR then tell (Post_error ''Failed to demux FLV stream'') flt
                      else flt)
      })"

section \<open>Searching for key frames\<close>

text \<open>
  One more byte than the prefix is pulled, the first of the body; a file that ends after the prefix of a
  video tag gives no such byte, and reading it is undefined.
\<close>

definition index_tag :: "bytes \<Rightarrow> FlvParser \<Rightarrow> FlvTagPrefix \<Rightarrow> 64 word \<Rightarrow> FlvDemux \<Rightarrow> FlvDemux option" where
  "index_tag data temp_parser tag_prefix pos flt =
     (let t = scast (timestamp tag_prefix) * GST_MSECOND
      in if tag_type tag_prefix = FLV_TAG_TYPE_VIDEO then do {
           frame_info \<leftarrow> read_at data (uint (parsed_block_size temp_parser));
           Some (if drop_bit 4 (frame_info AND 0xF0) = 1 then flv_demux_index_add_entry flt t pos else flt)
         }
         else Some (if tag_type tag_prefix = FLV_TAG_TYPE_AUDIO \<and> \<not> has_video flt
                    then flv_demux_index_add_entry flt t pos else flt))"

partial_function (option) indexing_loop ::
    "replies \<Rightarrow> source \<Rightarrow> 64 word \<Rightarrow> FlvDemux \<Rightarrow> FlvParser \<Rightarrow> 64 word \<Rightarrow> (bool \<times> FlvDemux) option" where
  "indexing_loop reply source indexTo flt temp_parser t =
     (if t < indexTo then
        let pos = file_position temp_parser;
            (flow_ret, data, flt) = pull_range source pos (next_block_size temp_parser + 1) flt
        in if flow_ret \<noteq> GST_FLOW_OK then Some (False, flt)
           else let (r, flt) = ask reply Map_block flt
                in if r \<noteq> GST_FLOW_OK then Some (False, flt)
                   else do {
                     (parser_ret, temp_parser, tag_prefix) \<leftarrow>
                       flv_parser_read_tag_prefix temp_parser data (word_of_nat (length data)) blank_prefix;
                     if parser_ret \<noteq> FLV_PARSER_OK then Some (False, flt)
                     else do {
                       flt \<leftarrow> index_tag data temp_parser tag_prefix pos flt;
                       indexing_loop reply source indexTo flt
                         (snd (flv_parser_seek temp_parser (file_position temp_parser + next_block_size temp_parser)))
                         (scast (timestamp tag_prefix) * GST_MSECOND)
                     }
                   }
      else Some (True, flt))"

text \<open>If the look-up fails, \<open>time\<close> is read without having been set.\<close>

definition flv_demux_do_indexing_pull ::
    "replies \<Rightarrow> source \<Rightarrow> FlvDemux \<Rightarrow> 64 word \<Rightarrow> 64 word \<Rightarrow> (bool \<times> FlvDemux) option" where
  "flv_demux_do_indexing_pull reply source flt indexFrom indexTo = do {
     let temp_parser = flv_parser_init \<lparr>parser_state = FLV_PARSER_EXPECT_HEADER, file_position = 0, parsed_block_size = 0, next_block_size = 0\<rparr>
     in do {
       found \<leftarrow> flv_demux_index_lookup flt indexFrom;
       case found of
         None \<Rightarrow> None
       | Some k \<Rightarrow> indexing_loop reply source indexTo flt (snd (flv_parser_seek temp_parser (fileposition k))) (time k)
     }
   }"

section \<open>Seeks\<close>

record seek_event =
  in_time :: bool
  forwards :: bool
  seek_flags :: "32 word"
  do_seek :: "GstSegment \<Rightarrow> GstSegment"

text \<open>The key frame for a time, or the start of the file.\<close>

definition seek_target :: "FlvDemux \<Rightarrow> 64 word \<Rightarrow> (64 word \<times> 64 word) option" where
  "seek_target flt t = do {
     found \<leftarrow> flv_demux_index_lookup flt t;
     Some (case found of None \<Rightarrow> (0, 0) | Some k \<Rightarrow> (time k, fileposition k))
   }"

definition to_key_unit :: "seek_event \<Rightarrow> 64 word \<Rightarrow> GstSegment \<Rightarrow> GstSegment" where
  "to_key_unit event t seg =
     (if seek_flags event AND GST_SEEK_FLAG_KEY_UNIT \<noteq> 0
      then seg\<lparr>seg_start := (if t < seg_start seg then t else seg_start seg), seg_position := t\<rparr> else seg)"

definition take_segment :: "GstSegment \<Rightarrow> FlvDemux \<Rightarrow> FlvDemux" where
  "take_segment seg flt =
     (let flt = flt\<lparr>segment := seg\<rparr>;
          flt = (if seg_flags seg AND GST_SEEK_FLAG_SEGMENT \<noteq> 0 then tell (Segment_start (seg_position seg)) flt else flt)
      in flt\<lparr>audio_discont := True, video_discont := True\<rparr>)"

definition seek_file :: "replies \<Rightarrow> source \<Rightarrow> 64 word \<Rightarrow> FlvDemux \<Rightarrow> (64 word \<times> FlvDemux) option" where
  "seek_file reply source start flt = do {
     (t, pos) \<leftarrow> seek_target flt start;
     (t, pos, flt) \<leftarrow>
       (if start - t > 5 * GST_SECOND then do {
          (_, flt) \<leftarrow> flv_demux_do_indexing_pull reply source flt t start;
          found \<leftarrow> flv_demux_index_lookup flt start;
          Some (case found of None \<Rightarrow> (t, pos, flt) | Some k \<Rightarrow> (time k, fileposition k, flt))
        } else Some (t, pos, flt));
     Some (t, flt\<lparr>parser := (if pos \<noteq> 0 then snd (flv_parser_seek (parser flt) pos) else flv_parser_reset (parser flt))\<rparr>)
   }"

definition flv_demux_seek_pull :: "replies \<Rightarrow> source \<Rightarrow> seek_event \<Rightarrow> FlvDemux \<Rightarrow> (bool \<times> FlvDemux) option" where
  "flv_demux_seek_pull reply source event flt =
     (if \<not> in_time event \<or> \<not> forwards event then Some (False, flt)
      else let flush = (seek_flags event AND GST_SEEK_FLAG_FLUSH \<noteq> 0);
               flt = (if flush then tell (Push_upstream ''flush-stop'')
                   (flv_demux_push_src_event ''flush-start'' (tell (Push_upstream ''flush-start'') flt)) else flt);
               seeksegment = do_seek event (segment flt)
           in do {
             (seeksegment, flt) \<leftarrow>
               (if flush \<or> seg_position seeksegment \<noteq> seg_position (segment flt) then do {
                  (t, flt) \<leftarrow> seek_file reply source (seg_start seeksegment) flt;
                  Some (to_key_unit event t seeksegment, flt)
                } else Some (seeksegment, flt));
             let flt = (if flush then flv_demux_push_src_event ''flush-stop'' flt else flt)
             in Some (True, tell Start_task (take_segment seeksegment flt))
           })"

definition flv_demux_seek_push :: "replies \<Rightarrow> seek_event \<Rightarrow> FlvDemux \<Rightarrow> (bool \<times> FlvDemux) option" where
  "flv_demux_seek_push reply event flt =
     (if \<not> in_time event \<or> \<not> forwards event then Some (False, flt)
      else let seeksegment = do_seek event (segment flt)
           in do {
             (res, seeksegment, flt) \<leftarrow>
               (if seek_flags event AND GST_SEEK_FLAG_FLUSH \<noteq> 0 \<or> seg_position seeksegment \<noteq> seg_position (segment flt) then do {
                  (t, pos) \<leftarrow> seek_target flt (seg_start seeksegment);
                  let (r, flt) = ask reply (Seek_bytes pos) flt
                  in Some (r = GST_FLOW_OK, to_key_unit event t seeksegment, flt)
                } else Some (True, seeksegment, flt));
             Some (res, if res then take_segment seeksegment flt else flt)
           })"

datatype src_event = Seek seek_event | Other_src_event string

fun flv_demux_src_event :: "replies \<Rightarrow> source \<Rightarrow> src_event \<Rightarrow> FlvDemux \<Rightarrow> (bool \<times> FlvDemux) option" where
  "flv_demux_src_event reply source (Seek event) flt =
     (if is_pulling flt then flv_demux_seek_pull reply source event flt else flv_demux_seek_push reply event flt)"
| "flv_demux_src_event reply source (Other_src_event e) flt =
     (let (r, flt) = ask reply (Push_upstream e) flt in Some (r = GST_FLOW_OK, flt))"

datatype GstPadMode = GST_PAD_MODE_NONE | GST_PAD_MODE_PUSH | GST_PAD_MODE_PULL

definition flv_demux_activatemode :: "replies \<Rightarrow> GstPadMode \<Rightarrow> bool \<Rightarrow> FlvDemux \<Rightarrow> bool \<times> FlvDemux" where
  "flv_demux_activatemode reply mode active flt = (case mode of
     GST_PAD_MODE_PUSH \<Rightarrow> (True, flt\<lparr>is_pulling := False\<rparr>)
   | GST_PAD_MODE_PULL \<Rightarrow>
       (let (r, flt) = ask reply (if active then Start_task else Stop_task) (flt\<lparr>is_pulling := True\<rparr>)
        in (r = GST_FLOW_OK, flt))
   | GST_PAD_MODE_NONE \<Rightarrow> (False, flt))"

text \<open>The mode depends on the answer of the element upstream: whether it can be pulled at any position.\<close>

definition flv_demux_sink_activate :: "replies \<Rightarrow> bool \<Rightarrow> FlvDemux \<Rightarrow> bool \<times> FlvDemux" where
  "flv_demux_sink_activate reply can_pull flt =
     flv_demux_activatemode reply (if can_pull then GST_PAD_MODE_PULL else GST_PAD_MODE_PUSH) True flt"

end
