(* ===== verification/FlvTags.thy ===== *)
theory FlvTags
  imports FlvSeek
begin

text \<open>
  Files made of tags: their layout in bytes, what the search for key frames finds in them, where a seek goes, and
  the invariant of the demuxer for pulling and seeking.
\<close>

unbundle bit_operations_syntax

section \<open>Tags as they lie in a file\<close>

definition prefix_bytes :: "8 word \<Rightarrow> nat \<Rightarrow> nat \<Rightarrow> bytes" where
  "prefix_bytes t len ts = [t] @ be_bytes 3 len @ be_bytes 3 ts @ [0, 0, 0, 0]"

record flv_tag =
  kind :: "8 word"
  milliseconds :: nat
  content :: bytes
  trailer :: bytes

definition tag_bytes :: "flv_tag \<Rightarrow> bytes" where
  "tag_bytes x = prefix_bytes (kind x) (length (content x)) (milliseconds x) @ content x @ trailer x"

definition tag_fits :: "flv_tag \<Rightarrow> bool" where
  "tag_fits x \<longleftrightarrow> kind x \<in> {8, 9, 18} \<and> milliseconds x < 2 ^ 24 \<and> content x \<noteq> [] \<and> length (content x) < 2 ^ 24 \<and> length (trailer x) = 4"

definition tag_time :: "flv_tag \<Rightarrow> 64 word" where
  "tag_time x = word_of_nat (milliseconds x * 1000000)"

text \<open>The tags at which decoding can start: key frames of video, and any sound of a file without video.\<close>

definition starts_decoding :: "bool \<Rightarrow> flv_tag \<Rightarrow> bool" where
  "starts_decoding video x \<longleftrightarrow> (if kind x = 9 then drop_bit 4 (hd (content x) AND 0xF0) = 1 else kind x = 8 \<and> \<not> video)"

primrec entries_of :: "bool \<Rightarrow> nat \<Rightarrow> flv_tag list \<Rightarrow> FlvKeyframe list" where
  "entries_of video p [] = []"
| "entries_of video p (x # xs) =
     (if starts_decoding video x then [\<lparr>time = tag_time x, fileposition = word_of_nat p\<rparr>] else []) @
     entries_of video (p + length (tag_bytes x)) xs"

text \<open>The tags that a search visits: it goes on while the last tag was too early.\<close>

primrec visited :: "64 word \<Rightarrow> 64 word \<Rightarrow> flv_tag list \<Rightarrow> flv_tag list" where
  "visited to t [] = []"
| "visited to t (x # xs) = (if t < to then x # visited to (tag_time x) xs else [])"

primrec last_time :: "64 word \<Rightarrow> flv_tag list \<Rightarrow> 64 word" where
  "last_time t [] = t"
| "last_time t (x # xs) = last_time (tag_time x) xs"

definition add_entries :: "FlvKeyframe list \<Rightarrow> FlvDemux \<Rightarrow> FlvDemux" where
  "add_entries ks flt = fold (\<lambda>k flt. flv_demux_index_add_entry flt (time k) (fileposition k)) ks flt"

text \<open>An element upstream that reads a file: less than asked for at its end, and nothing behind it.\<close>

definition file_source :: "bytes \<Rightarrow> source" where
  "file_source file cs = (case last cs of
     Pull_range off n \<Rightarrow> if unat off < length file then (GST_FLOW_OK, take (unat n) (drop (unat off) file)) else (GST_FLOW_EOS, [])
   | _ \<Rightarrow> (GST_FLOW_ERROR, []))"

lemma unat_small: "n < 2 ^ 64 \<Longrightarrow> unat (word_of_nat n :: 64 word) = n"
  by (simp add: unat_of_nat)

lemma bytes_at_append: "p + n \<le> length xs \<Longrightarrow> bytes_at (xs @ ys) p n = bytes_at xs p n"
  by (simp add: bytes_at_def)

lemma prefix_length [simp]: "length (prefix_bytes t len ts) = 11"
  by (simp add: prefix_bytes_def)

lemma prefix_read:
  assumes "len < 2 ^ 24" "ts < 2 ^ 24"
  shows "bytes_at (prefix_bytes t len ts @ ys) (Suc 0) 3 = Some (be_bytes 3 len)" 
    "bytes_at (prefix_bytes t len ts @ ys) 4 4 = Some (be_bytes 3 ts @ [0])"
    "bytes_at (prefix_bytes t len ts @ ys) 8 3 = Some [0, 0, 0]" "read_at (prefix_bytes t len ts @ ys) 0 = Some t"
    "be_nat (be_bytes 3 len) = len" "FLV_READ_TS32 (be_bytes 3 ts @ [0]) = word_of_nat ts"
  using assms be_nat_bytes [of len 3] be_nat_bytes [of ts 3]
  by (simp_all add: prefix_bytes_def bytes_at_def read_at_def FLV_READ_TS32_def be_nat_def [of "[0]"] del: be_bytes.simps)

lemma signed_milliseconds:
  assumes "ts < 2 ^ 31" shows "scast (word_of_nat ts :: 32 word) = (word_of_nat ts :: 64 word)"
proof -
  have "sint (word_of_nat ts :: 32 word) = int ts"
    using assms by (simp add: signed_of_nat signed_take_bit_int_eq_self)
  then show ?thesis by (metis of_int_sint of_int_of_nat_eq)
qed

definition next_body :: "8 word \<Rightarrow> FlvParserState" where
  "next_body t = (if t = 8 then FLV_PARSER_EXPECT_AUDIO_TAG_BODY else if t = 9 then FLV_PARSER_EXPECT_VIDEO_TAG_BODY
     else FLV_PARSER_EXPECT_SCRIPT_DATA_TAG_BODY)"

lemma read_prefix:
  assumes "parser_state p = FLV_PARSER_EXPECT_TAG_PREFIX" "len < 2 ^ 24" "ts < 2 ^ 24" "t \<in> {8, 9, 18}" "11 \<le> n"
  shows "flv_parser_read_tag_prefix p (prefix_bytes t len ts @ ys) n tag =
    Some (FLV_PARSER_OK, accept_block 11 (word_of_nat len + 4) (next_body t) p,
      \<lparr>tag_type = t, body_size = word_of_nat len, timestamp = word_of_nat ts\<rparr>)"
  using assms prefix_read [OF assms(2,3)]
  by (auto simp: be_nat_def [of "[0, 0, 0]"] flv_parser_read_tag_prefix_def next_body_def Let_def not_less)

section \<open>Searching a file\<close>

lemma add_entries_calls: "add_entries ks (flt\<lparr>calls := cs\<rparr>) = (add_entries ks flt)\<lparr>calls := cs\<rparr>"
proof (induction ks arbitrary: flt)
  case (Cons k ks)
  have "flv_demux_index_add_entry (flt\<lparr>calls := cs\<rparr>) t p = (flv_demux_index_add_entry flt t p)\<lparr>calls := cs\<rparr>" for t p
    by (simp add: flv_demux_index_add_entry_def Let_def)
  with Cons show ?case by (simp add: add_entries_def)
qed (simp add: add_entries_def)

lemma index_tag_entry:
  assumes "tag_fits x" "parsed_block_size p = 11" "data = prefix_bytes (kind x) (length (content x)) (milliseconds x) @ [hd (content x)]"
    "tag = \<lparr>tag_type = kind x, body_size = b, timestamp = word_of_nat (milliseconds x)\<rparr>"
  shows "index_tag data p tag (word_of_nat pos) flt = Some (add_entries (entries_of (has_video flt) pos [x]) flt)"
proof -
  have t: "scast (timestamp tag) * 1000000 = tag_time x"
    using assms(1,4) signed_milliseconds [of "milliseconds x"] by (simp add: tag_fits_def tag_time_def)
  have b: "read_at data (uint (parsed_block_size p)) = Some (hd (content x))"
    using assms(2,3) by (simp add: read_at_def nth_append)
  show ?thesis
    using t b assms(4) by (simp add: index_tag_def starts_decoding_def add_entries_def Let_def)
qed

definition parser_at :: "nat \<Rightarrow> FlvParser" where
  "parser_at p = \<lparr>parser_state = FLV_PARSER_EXPECT_TAG_PREFIX, file_position = word_of_nat p, parsed_block_size = 0, next_block_size = 11\<rparr>"

definition accepts :: "replies \<Rightarrow> bool" where
  "accepts reply \<longleftrightarrow> (\<forall>cs. reply cs = GST_FLOW_OK)"

lemma pull_in_file:
  assumes "length file < 2 ^ 63" "p < length file"
  shows "pull_range (file_source file) (word_of_nat p) 12 flt =
    (GST_FLOW_OK, take 12 (drop p file), tell (Pull_range (word_of_nat p) 12) flt)"
  using assms unat_small [of p] by (simp add: pull_range_def file_source_def tell_def)

lemma pull_behind_file:
  assumes "length file < 2 ^ 63"
  shows "pull_range (file_source file) (word_of_nat (length file)) 12 flt =
    (GST_FLOW_EOS, [], tell (Pull_range (word_of_nat (length file)) 12) flt)"
  using assms unat_small [of "length file"] by (simp add: pull_range_def file_source_def tell_def)

lemma indexing_step:
  assumes "tag_fits x" "file = pre @ tag_bytes x @ rest" "length file < 2 ^ 63" "accepts reply" "t < to"
  shows "\<exists>cs. indexing_loop reply (file_source file) to flt (parser_at (length pre)) t =
    indexing_loop reply (file_source file) to ((add_entries (entries_of (has_video flt) (length pre) [x]) flt)\<lparr>calls := cs\<rparr>)
      (parser_at (length pre + length (tag_bytes x))) (tag_time x)"
proof -
  let ?p = "length pre" and ?len = "length (content x)" and ?ts = "milliseconds x"
  let ?data = "prefix_bytes (kind x) ?len ?ts @ [hd (content x)]"
  note x = assms(1) [unfolded tag_fits_def]
  have "12 = Suc (length (prefix_bytes (kind x) ?len ?ts))" by simp
  then have data: "take 12 (drop ?p file) = ?data"
    using x by (cases "content x") (simp_all only: assms(2) tag_bytes_def take_append drop_append, simp_all)
  have p: "?p < length file" using assms(2) by (simp add: tag_bytes_def)
  define f where "f = tell Map_block (tell (Pull_range (word_of_nat ?p) 12) flt)"
  have f: "f = flt\<lparr>calls := calls f\<rparr>" by (simp add: f_def tell_def)
  have read: "flv_parser_read_tag_prefix (parser_at ?p) ?data (word_of_nat (length ?data)) blank_prefix =
    Some (FLV_PARSER_OK, accept_block 11 (word_of_nat ?len + 4) (next_body (kind x)) (parser_at ?p),
      \<lparr>tag_type = kind x, body_size = word_of_nat ?len, timestamp = word_of_nat ?ts\<rparr>)"
    using x by (intro read_prefix) (simp_all add: parser_at_def)
  have entry: "index_tag ?data (accept_block 11 (word_of_nat ?len + 4) (next_body (kind x)) (parser_at ?p))
      \<lparr>tag_type = kind x, body_size = word_of_nat ?len, timestamp = word_of_nat ?ts\<rparr> (word_of_nat ?p) f =
    Some ((add_entries (entries_of (has_video flt) ?p [x]) flt)\<lparr>calls := calls f\<rparr>)"
    using index_tag_entry [OF assms(1) _ refl refl, of "accept_block 11 (word_of_nat ?len + 4) (next_body (kind x)) (parser_at ?p)" _ ?p f]
    by (subst (asm) f) (simp add: accept_block_def add_entries_calls f_def tell_def)
  have seek: "snd (flv_parser_seek (accept_block 11 (word_of_nat ?len + 4) (next_body (kind x)) (parser_at ?p))
      (file_position (accept_block 11 (word_of_nat ?len + 4) (next_body (kind x)) (parser_at ?p)) +
       next_block_size (accept_block 11 (word_of_nat ?len + 4) (next_body (kind x)) (parser_at ?p)))) =
    parser_at (?p + length (tag_bytes x))"
    using x by (simp add: flv_parser_seek_def accept_block_def parser_at_def tag_bytes_def)
  have t: "scast (word_of_nat ?ts :: 32 word) * 1000000 = tag_time x"
    using x signed_milliseconds [of ?ts] by (simp add: tag_time_def)
  have "file_position (parser_at ?p) = word_of_nat ?p" "next_block_size (parser_at ?p) + 1 = 12" by (simp_all add: parser_at_def)
  then show ?thesis
    using assms(4,5) pull_in_file [OF assms(3) p, of flt] data read entry seek t
    by (subst indexing_loop.simps) (auto simp: accepts_def ask_def f_def Let_def)
qed

lemma add_entries_append: "add_entries (xs @ ys) flt = add_entries ys (add_entries xs flt)"
  by (simp add: add_entries_def)

lemma add_entries_frame: "\<exists>ks. add_entries xs flt = flt\<lparr>index := ks\<rparr>"
proof (induction xs arbitrary: flt)
  case (Cons x xs)
  obtain ks where "flv_demux_index_add_entry flt (time x) (fileposition x) = flt\<lparr>index := ks\<rparr>" using add_entry_frame by blast
  with Cons.IH [of "flt\<lparr>index := ks\<rparr>"] show ?case by (auto simp: add_entries_def)
next
  case Nil
  show ?case by (rule exI [of _ "index flt"]) (simp add: add_entries_def)
qed

lemma add_entries_fields [simp]:
  "has_video (add_entries xs flt) = has_video flt" "parser (add_entries xs flt) = parser flt" "segment (add_entries xs flt) = segment flt"
  "audio_src_pad (add_entries xs flt) = audio_src_pad flt" "video_src_pad (add_entries xs flt) = video_src_pad flt"
  using add_entries_frame [of xs flt] by auto

lemma indexing_loop_exact:
  assumes "list_all tag_fits tags" "file = pre @ concat (map tag_bytes tags)" "length file < 2 ^ 63" "accepts reply"
  shows "\<exists>cs. indexing_loop reply (file_source file) to flt (parser_at (length pre)) t =
    Some (to \<le> last_time t (visited to t tags),
      (add_entries (entries_of (has_video flt) (length pre) (visited to t tags)) flt)\<lparr>calls := cs\<rparr>)"
  using assms(1,2)
proof (induction tags arbitrary: pre flt t)
  case Nil
  show ?case
  proof (cases "t < to")
    case True
    have "file_position (parser_at (length pre)) = word_of_nat (length file)" "next_block_size (parser_at (length pre)) + 1 = 12"
      using Nil by (simp_all add: parser_at_def)
    then have "pull_range (file_source file) (file_position (parser_at (length pre))) (next_block_size (parser_at (length pre)) + 1) flt =
        (GST_FLOW_EOS, [], tell (Pull_range (word_of_nat (length file)) 12) flt)"
      using pull_behind_file [OF assms(3), of flt] by simp
    then have "indexing_loop reply (file_source file) to flt (parser_at (length pre)) t =
        Some (False, tell (Pull_range (word_of_nat (length file)) 12) flt)"
      using True by (subst indexing_loop.simps) (simp only: Let_def if_True prod.case, simp)
    with True show ?thesis
      by (intro exI [of _ "calls flt @ [Pull_range (word_of_nat (length file)) 12]"]) (simp add: add_entries_def tell_def)
  next
    case False
    then have "indexing_loop reply (file_source file) to flt (parser_at (length pre)) t = Some (True, flt)"
      by (subst indexing_loop.simps) simp
    with False show ?thesis by (intro exI [of _ "calls flt"]) (simp add: add_entries_def)
  qed
next
  case (Cons x tags)
  show ?case
  proof (cases "t < to")
    case True
    let ?one = "add_entries (entries_of (has_video flt) (length pre) [x]) flt"
    have fits: "tag_fits x" "list_all tag_fits tags" and whole: "file = pre @ tag_bytes x @ concat (map tag_bytes tags)"
      using Cons.prems by simp_all
    obtain cs where step: "indexing_loop reply (file_source file) to flt (parser_at (length pre)) t =
        indexing_loop reply (file_source file) to (?one\<lparr>calls := cs\<rparr>) (parser_at (length (pre @ tag_bytes x))) (tag_time x)"
      using indexing_step [OF fits(1) whole assms(3,4) True, of flt] by auto
    obtain cs' where rest: "indexing_loop reply (file_source file) to (?one\<lparr>calls := cs\<rparr>) (parser_at (length (pre @ tag_bytes x))) (tag_time x) =
        Some (to \<le> last_time (tag_time x) (visited to (tag_time x) tags),
          (add_entries (entries_of (has_video (?one\<lparr>calls := cs\<rparr>)) (length (pre @ tag_bytes x)) (visited to (tag_time x) tags))
            (?one\<lparr>calls := cs\<rparr>))\<lparr>calls := cs'\<rparr>)"
      using Cons.IH [OF fits(2), of "pre @ tag_bytes x" "?one\<lparr>calls := cs\<rparr>" "tag_time x"] whole by auto
    have "add_entries (entries_of (has_video flt) (length pre) (visited to t (x # tags))) flt =
        add_entries (entries_of (has_video flt) (length (pre @ tag_bytes x)) (visited to (tag_time x) tags)) ?one"
      using True by (simp add: add_entries_append [symmetric])
    moreover have "last_time t (visited to t (x # tags)) = last_time (tag_time x) (visited to (tag_time x) tags)" using True by simp
    ultimately show ?thesis
      by (intro exI [of _ cs']) (simp only: step rest add_entries_calls, simp)
  next
    case False
    then have "indexing_loop reply (file_source file) to flt (parser_at (length pre)) t = Some (True, flt)"
      by (subst indexing_loop.simps) simp
    with False show ?thesis by (intro exI [of _ "calls flt"]) (simp add: add_entries_def)
  qed
qed

lemma add_entries_times:
  "set (index (add_entries ks flt)) \<subseteq> set (index flt) \<union> set ks \<and>
   time ` set (index (add_entries ks flt)) = time ` set (index flt) \<union> time ` set ks"
proof (induction ks arbitrary: flt)
  case (Cons k ks)
  have "set (index (flv_demux_index_add_entry flt (time k) (fileposition k))) \<subseteq> insert k (set (index flt))"
    "time ` set (index (flv_demux_index_add_entry flt (time k) (fileposition k))) = insert (time k) (time ` set (index flt))"
    by (auto simp: add_entry_index)
  with Cons.IH [of "flv_demux_index_add_entry flt (time k) (fileposition k)"] show ?case
    by (auto simp: add_entries_def)
qed (simp add: add_entries_def)

lemma add_entries_sorted: "sorted_index (index flt) \<Longrightarrow> sorted_index (index (add_entries ks flt))"
  by (induction ks arbitrary: flt) (simp_all add: add_entries_def add_entry_sorted)

lemma lookup_behind: "\<forall>k \<in> set (index flt). time k < t \<Longrightarrow> flv_demux_index_lookup flt t = Some None"
  by (auto simp: flv_demux_index_lookup_def split: list.split)

lemma lookup_first: "index flt = k # ks \<Longrightarrow> sorted_index (index flt) \<Longrightarrow> flv_demux_index_lookup flt (time k) = Some (Some k)"
  using sorted_index_last [of "index flt" k] by (auto simp: flv_demux_index_lookup_def not_less)

lemma entries_early:
  "\<forall>x \<in> set xs. starts_decoding v x \<longrightarrow> tag_time x < t \<Longrightarrow> k \<in> set (entries_of v p xs) \<Longrightarrow> time k < t"
  by (induction xs arbitrary: p) (auto split: if_splits)

lemma tell_fields [simp]:
  "index (tell c flt) = index flt" "segment (tell c flt) = segment flt" "parser (tell c flt) = parser flt" "has_video (tell c flt) = has_video flt"
  by (simp_all add: tell_def)

lemma push_src_event_fields [simp]:
  "index (flv_demux_push_src_event e flt) = index flt" "segment (flv_demux_push_src_event e flt) = segment flt"
  "parser (flv_demux_push_src_event e flt) = parser flt" "has_video (flv_demux_push_src_event e flt) = has_video flt"
  by (simp_all add: flv_demux_push_src_event_def Let_def)

lemma take_segment_fields [simp]:
  "index (take_segment seg flt) = index flt" "segment (take_segment seg flt) = seg" "parser (take_segment seg flt) = parser flt"
  "audio_discont (take_segment seg flt)" "video_discont (take_segment seg flt)"
  by (simp_all add: take_segment_def Let_def)

section \<open>The invariant\<close>

lemma keeps_tell_left: "keeps (tell c a) b = keeps a b"
  by (simp add: keeps_def flags_def tell_def)

lemma pull_keeps: "pull_range source off len flt = (r, data, g) \<Longrightarrow> keeps flt g"
  by (auto simp: pull_range_def Let_def split: prod.splits)

lemma index_tag_keeps: "index_tag data p tag pos flt = Some g \<Longrightarrow> keeps flt g"
  by (auto simp: index_tag_def Let_def keeps_add_entry split: if_splits bind_splits)

lemma indexing_keeps: "indexing_loop reply source to flt tp t = Some y \<Longrightarrow> keeps flt (snd y)"
proof (rule indexing_loop.raw_induct [where P = "\<lambda>reply source to flt tp t y. keeps flt (snd y)"], goal_cases)
  case (1 loop reply source to flt tp t y)
  show ?case
  proof (cases "t < to")
    case False
    with 1(3) show ?thesis by auto
  next
    case True
    obtain r data f where pull: "pull_range source (file_position tp) (next_block_size tp + 1) flt = (r, data, f)" by (cases rule: prod_cases3)
    note f = pull_keeps [OF pull]
    note run = 1(3) [unfolded if_P [OF True] pull Let_def prod.case]
    show ?thesis
    proof (cases "r = GST_FLOW_OK \<and> reply (calls f @ [Map_block]) = GST_FLOW_OK")
      case False
      then have "snd y = f \<or> snd y = tell Map_block f" using run by (auto simp: ask_def split: if_splits)
      then show ?thesis using f by auto
    next
      case True
      then obtain res q tag where read: "flv_parser_read_tag_prefix tp data (word_of_nat (length data)) blank_prefix = Some (res, q, tag)"
        using run by (auto simp: ask_def split: bind_splits)
      show ?thesis
      proof (cases "res = FLV_PARSER_OK")
        case False
        then have "snd y = tell Map_block f" using run True read by (auto simp: ask_def)
        then show ?thesis using f by simp
      next
        case ok: True
        obtain h where h: "index_tag data q tag (file_position tp) (tell Map_block f) = Some h"
          "loop reply source to h (snd (flv_parser_seek q (file_position q + next_block_size q))) (scast (timestamp tag) * 1000000) = Some y"
          using run True read ok by (auto simp: ask_def split: bind_splits)
        from index_tag_keeps [OF h(1)] f have "keeps flt h" using keeps_trans by (simp add: keeps_tell_left)
        with 1(2) [OF h(2)] show ?thesis using keeps_trans by blast
      qed
    qed
  qed
qed assumption

lemma indexing_pull_keeps: "flv_demux_do_indexing_pull reply source flt from to = Some (b, g) \<Longrightarrow> keeps flt g"
  by (auto simp: flv_demux_do_indexing_pull_def Let_def split: bind_splits option.splits dest!: indexing_keeps)

lemma indexing_pull_ok: "flv_demux_do_indexing_pull reply source flt from to = Some (b, g) \<Longrightarrow> demux_ok flt \<Longrightarrow> demux_ok g"
  using indexing_pull_keeps keeps_ok by blast

lemma push_src_event_keeps: "keeps a b \<Longrightarrow> keeps a (flv_demux_push_src_event e b)"
  by (simp add: flv_demux_push_src_event_def Let_def)

lemma take_segment_keeps: "keeps a b \<Longrightarrow> keeps a (take_segment seg b)"
  by (simp add: take_segment_def Let_def)

lemma restart_ok: "demux_ok flt \<Longrightarrow> demux_ok (flt\<lparr>parser := if p \<noteq> 0 then snd (flv_parser_seek q p) else flv_parser_reset q\<rparr>)"
  by (simp add: demux_ok_def parser_ok_def flv_parser_seek_def flv_parser_reset_def)

lemma seek_file_ok: "seek_file reply source start flt = Some (t, g) \<Longrightarrow> demux_ok flt \<Longrightarrow> demux_ok g"
  by (auto simp: seek_file_def split: bind_splits if_splits option.splits intro!: restart_ok
      dest!: indexing_pull_ok)

lemma seek_pull_ok: "flv_demux_seek_pull reply source event flt = Some (b, g) \<Longrightarrow> demux_ok flt \<Longrightarrow> demux_ok g"
proof -
  assume run: "flv_demux_seek_pull reply source event flt = Some (b, g)" and ok: "demux_ok flt"
  define f where "f = (if seek_flags event AND 1 \<noteq> 0 then tell (Push_upstream ''flush-stop'')
    (flv_demux_push_src_event ''flush-start'' (tell (Push_upstream ''flush-start'') flt)) else flt)"
  have "keeps flt f" by (simp add: f_def push_src_event_keeps)
  then have f: "demux_ok f" using ok keeps_ok by blast
  have last: "demux_ok h \<Longrightarrow> demux_ok (tell Start_task (take_segment seg (if c then flv_demux_push_src_event e h else h)))" for h seg c e
    by (rule keeps_ok [of h]) (simp_all add: take_segment_keeps push_src_event_keeps)
  show "demux_ok g"
    using run ok f
    by (auto simp: flv_demux_seek_pull_def f_def [symmetric] Let_def split: if_splits bind_splits
        dest!: seek_file_ok intro: last [of _ _ True, simplified] last [of _ _ False, simplified])
qed

lemma seek_push_ok: "flv_demux_seek_push reply event flt = Some (b, g) \<Longrightarrow> demux_ok flt \<Longrightarrow> demux_ok g"
proof -
  assume run: "flv_demux_seek_push reply event flt = Some (b, g)" and ok: "demux_ok flt"
  have "keeps flt g"
    using run by (auto simp: flv_demux_seek_push_def ask_def Let_def take_segment_keeps split: if_splits bind_splits)
  then show "demux_ok g" using ok keeps_ok by blast
qed

lemma src_event_ok: "flv_demux_src_event reply source e flt = Some (b, g) \<Longrightarrow> demux_ok flt \<Longrightarrow> demux_ok g"
proof (cases e)
  case (Seek event)
  then show "flv_demux_src_event reply source e flt = Some (b, g) \<Longrightarrow> demux_ok flt \<Longrightarrow> demux_ok g"
    using seek_pull_ok seek_push_ok by (simp split: if_splits)
next
  case (Other_src_event x)
  then show "flv_demux_src_event reply source e flt = Some (b, g) \<Longrightarrow> demux_ok flt \<Longrightarrow> demux_ok g"
    using keeps_ok [of flt "tell (Push_upstream x) flt"] by (auto simp: ask_def)
qed

lemma activatemode_ok: "demux_ok flt \<Longrightarrow> demux_ok (snd (flv_demux_activatemode reply mode active flt))"
  by (cases mode) (auto simp: flv_demux_activatemode_def ask_def tell_def demux_ok_def)

lemma loop_total:
  assumes "demux_ok flt" "\<forall>cs. length (snd (source cs)) < 2 ^ 64"
  shows "returns (flv_demux_loop wild reply source flt) demux_ok"
proof -
  obtain r data f where pull: "pull_range source (file_position (parser flt)) (next_block_size (parser flt)) flt = (r, data, f)"
    by (cases rule: prod_cases3)
  have f: "demux_ok f" using keeps_ok [OF pull_keeps [OF pull] assms(1)] .
  have "length data < 2 ^ 64" using assms(2) pull by (auto simp: pull_range_def Let_def split: prod.splits) (metis snd_conv)
  then have n: "length data = unat (word_of_nat (length data) :: 64 word)" by (simp add: unat_small)
  have tell: "demux_ok (tell c g) = demux_ok g" for c g by (simp add: demux_ok_def tell_def)
  have push: "demux_ok g \<Longrightarrow> demux_ok (flv_demux_push_src_event e g)" for e g
    by (rule keeps_ok [of g]) (simp_all add: push_src_event_keeps)
  have "demux_ok (tell Map_block f)" using f by (simp add: tell)
  from block_total [OF this n, of wild reply] show ?thesis
    using f pull by (auto simp: flv_demux_loop_def ask_def tell push after_def Let_def elim!: returnsE)
qed

section \<open>Properties\<close>

text \<open>
  C26: searching a file for key frames finds exactly those on the way. For a file that is a run of well-formed
  tags, starting at a key frame of the index, the search returns (so it ends), has visited the tags up to the first one
  that is not before the time asked for, has added exactly the key frames among them with the positions of their tags,
  and reports whether it got that far before the end of the file.
\<close>

theorem indexing_exact:
  assumes "list_all tag_fits tags" "file = pre @ concat (map tag_bytes tags)" "length file < 2 ^ 63" "accepts reply"
    and "flv_demux_index_lookup flt from = Some (Some \<lparr>time = t, fileposition = word_of_nat (length pre)\<rparr>)"
  shows "\<exists>cs. flv_demux_do_indexing_pull reply (file_source file) flt from to =
    Some (to \<le> last_time t (visited to t tags),
      (add_entries (entries_of (has_video flt) (length pre) (visited to t tags)) flt)\<lparr>calls := cs\<rparr>)"
  using indexing_loop_exact [OF assms(1-4), of to flt t] assms(5)
  by (simp add: flv_demux_do_indexing_pull_def flv_parser_seek_def flv_parser_init_def parser_at_def Let_def)

definition some_segment :: GstSegment where
  "some_segment = \<lparr>seg_start = 0, seg_position = 0, seg_flags = 0\<rparr>"

definition three_tags :: "flv_tag list" where
  "three_tags = [\<lparr>kind = 9, milliseconds = 0, content = [0x14, 0, 1], trailer = [0, 0, 0, 14]\<rparr>,
     \<lparr>kind = 9, milliseconds = 4000, content = [0x14, 0, 2], trailer = [0, 0, 0, 14]\<rparr>,
     \<lparr>kind = 9, milliseconds = 8000, content = [0x24, 0, 3], trailer = [0, 0, 0, 14]\<rparr>]"

definition indexed :: FlvDemux where
  "indexed = (flv_demux_init some_segment [])\<lparr>index := [\<lparr>time = 0, fileposition = 13\<rparr>], has_video := True\<rparr>"

definition file_start :: bytes where
  "file_start = [0x46, 0x4c, 0x56, 1, 1, 0, 0, 0, 9, 0, 0, 0, 0]"

definition three_tags_file :: bytes where
  "three_tags_file = file_start @ concat (map tag_bytes three_tags)"

lemma three_tags_facts:
  "list_all tag_fits three_tags" "length three_tags_file < 2 ^ 63" "visited 6000000000 0 three_tags = three_tags"
  "\<forall>x \<in> set three_tags. starts_decoding True x \<longrightarrow> tag_time x < 6000000000" "last_time 0 three_tags = 8000000000"
  "entries_of True 13 three_tags = [\<lparr>time = 0, fileposition = 13\<rparr>, \<lparr>time = 4000000000, fileposition = 31\<rparr>]"
  by (simp_all add: three_tags_def tag_fits_def tag_time_def three_tags_file_def tag_bytes_def file_start_def starts_decoding_def)

lemma file_start_length [simp]: "length file_start = 13"
  by (simp add: file_start_def)

lemma indexed_fields [simp]:
  "index indexed = [\<lparr>time = 0, fileposition = 13\<rparr>]" "has_video indexed" "segment indexed = some_segment"
  by (simp_all add: indexed_def flv_demux_init_def)

lemma accepts_all: "accepts (\<lambda>_. GST_FLOW_OK)"
  by (simp add: accepts_def)

theorem indexing_exact_witness:
  "\<exists>g. flv_demux_do_indexing_pull (\<lambda>_. GST_FLOW_OK) (file_source three_tags_file) indexed 0 6000000000 = Some (True, g) \<and>
     index g = [\<lparr>time = 0, fileposition = 13\<rparr>, \<lparr>time = 4000000000, fileposition = 31\<rparr>]"
proof -
  have "flv_demux_index_lookup indexed 0 = Some (Some \<lparr>time = 0, fileposition = word_of_nat (length file_start)\<rparr>)"
    by (simp add: flv_demux_index_lookup_def)
  from indexing_exact [OF three_tags_facts(1) three_tags_file_def three_tags_facts(2) accepts_all this, of 6000000000]
  obtain cs where r: "flv_demux_do_indexing_pull (\<lambda>_. GST_FLOW_OK) (file_source three_tags_file) indexed 0 6000000000 = Some (True,
      (add_entries [\<lparr>time = 0, fileposition = 13\<rparr>, \<lparr>time = 4000000000, fileposition = 31\<rparr>] indexed)\<lparr>calls := cs\<rparr>)"
    by (auto simp: three_tags_facts)
  have "index (add_entries [\<lparr>time = 0, fileposition = 13\<rparr>, \<lparr>time = 4000000000, fileposition = 31\<rparr>] indexed) =
      [\<lparr>time = 0, fileposition = 13\<rparr>, \<lparr>time = 4000000000, fileposition = 31\<rparr>]"
    by (simp add: add_entries_def add_entry_index compare_keyframes_def)
  with r show ?thesis by simp
qed

text \<open>
  C38: a seek behind the indexed part of a file that is pulled goes back to the start of the file. Take a file that is a run of
  well-formed tags behind its header, a sorted index that starts with time 0 at a tag of the file (so the time found for 0 is that of a tag), and a seek
  that flushes or changes the position, to a time after all of the index. The look-up fails, as the last key frame of the index
  is too early. Up to 5 seconds nothing is searched. Beyond them the file is searched, which does not help: the search stops at the
  first tag at or after the time, and unless that tag is itself a key frame, the last key frame found is still too early,
  so the second look-up fails as well. The new key frames are then in the index, but either way the parser is reset to the
  start of the file, and a seek to a key frame sets the segment to time 0.
\<close>

theorem seek_past_index_restarts:
  assumes "list_all tag_fits tags" "file = pre @ concat (map tag_bytes tags)" "length file < 2 ^ 63" "accepts reply"
    and "sorted_wrt (<) (map time (index flt))" "index flt = \<lparr>time = 0, fileposition = word_of_nat (length pre)\<rparr> # ks"
    and "in_time event" "forwards event" "seek_flags event AND 1 \<noteq> 0 \<or> seg_position (do_seek event (segment flt)) \<noteq> seg_position (segment flt)"
    and "start = seg_start (do_seek event (segment flt))" "\<forall>k \<in> set (index flt). time k < start"
    and "5 * 1000000000 < start \<Longrightarrow> \<forall>x \<in> set (visited start 0 tags). starts_decoding (has_video flt) x \<longrightarrow> tag_time x < start"
  shows "\<exists>g. flv_demux_seek_pull reply (file_source file) event flt = Some (True, g) \<and>
    parser g = flv_parser_reset (parser flt) \<and>
    time ` set (index g) = time ` set (index flt) \<union>
      (if 5 * 1000000000 < start then time ` set (entries_of (has_video flt) (length pre) (visited start 0 tags)) else {}) \<and>
    (seek_flags event AND 4 \<noteq> 0 \<longrightarrow> seg_position (segment g) = 0 \<and> seg_start (segment g) = 0)"
proof -
  let ?ks = "entries_of (has_video flt) (length pre) (visited start 0 tags)"
  define f where "f = (if seek_flags event AND 1 \<noteq> 0
    then tell (Push_upstream ''flush-stop'') (flv_demux_push_src_event ''flush-start'' (tell (Push_upstream ''flush-start'') flt)) else flt)"
  have f [simp]: "index f = index flt" "has_video f = has_video flt" "segment f = segment flt" "parser f = parser flt" by (simp_all add: f_def)
  have sorted: "sorted_index (index f)" using assms(5) by (simp add: sorted_index_def)
  have first: "flv_demux_index_lookup f start = Some None" by (rule lookup_behind) (use assms(11) in simp)
  have "\<exists>h. seek_file reply (file_source file) start f = Some (0, h) \<and> parser h = flv_parser_reset (parser flt) \<and>
    time ` set (index h) = time ` set (index flt) \<union> (if 5 * 1000000000 < start then time ` set ?ks else {})"
  proof (cases "5 * 1000000000 < start")
    case False
    then show ?thesis using first by (simp add: seek_file_def seek_target_def)
  next
    case True
    have zero: "flv_demux_index_lookup f 0 = Some (Some \<lparr>time = 0, fileposition = word_of_nat (length pre)\<rparr>)"
      using lookup_first [of f "\<lparr>time = 0, fileposition = word_of_nat (length pre)\<rparr>" ks] assms(6) sorted by simp
    obtain b cs where search: "flv_demux_do_indexing_pull reply (file_source file) f 0 start = Some (b, (add_entries ?ks f)\<lparr>calls := cs\<rparr>)"
      using indexing_loop_exact [OF assms(1-4), of start f 0] zero
      by (auto simp: flv_demux_do_indexing_pull_def flv_parser_seek_def flv_parser_init_def parser_at_def Let_def)
    have "\<forall>k \<in> set (index (add_entries ?ks f)). time k < start"
      using add_entries_times [of ?ks f] assms(11) entries_early [OF assms(12) [OF True]] by fastforce
    then have again: "flv_demux_index_lookup ((add_entries ?ks f)\<lparr>calls := cs\<rparr>) start = Some None" by (intro lookup_behind) simp
    show ?thesis using first search again True add_entries_times [of ?ks f] by (simp add: seek_file_def seek_target_def)
  qed
  then obtain h where h: "seek_file reply (file_source file) start f = Some (0, h)" "parser h = flv_parser_reset (parser flt)"
    "time ` set (index h) = time ` set (index flt) \<union> (if 5 * 1000000000 < start then time ` set ?ks else {})" by blast
  have run: "flv_demux_seek_pull reply (file_source file) event flt = Some (True, tell Start_task (take_segment
      (to_key_unit event 0 (do_seek event (segment flt)))
      (if seek_flags event AND 1 \<noteq> 0 then flv_demux_push_src_event ''flush-stop'' h else h)))"
    using assms(7-10) h(1) unfolding f_def by (auto simp: flv_demux_seek_pull_def Let_def)
  show ?thesis unfolding run using h(2,3) by (auto simp: to_key_unit_def word_gt_0)
qed

definition seek_to_six :: seek_event where
  "seek_to_six = \<lparr>in_time = True, forwards = True, seek_flags = 5, do_seek = (\<lambda>s. s\<lparr>seg_start := 6000000000, seg_position := 6000000000\<rparr>)\<rparr>"

theorem seek_past_index_restarts_witness:
  "\<exists>g. flv_demux_seek_pull (\<lambda>_. GST_FLOW_OK) (file_source three_tags_file) seek_to_six indexed = Some (True, g) \<and>
     4000000000 \<in> time ` set (index g) \<and> file_position (parser g) = 0 \<and> seg_position (segment g) = 0"
proof -
  have seek: "in_time seek_to_six" "forwards seek_to_six" "seek_flags seek_to_six = 5"
    "6000000000 = seg_start (do_seek seek_to_six (segment indexed))" by (simp_all add: seek_to_six_def)
  from seek_past_index_restarts [OF three_tags_facts(1) three_tags_file_def three_tags_facts(2) accepts_all, of indexed "[]" seek_to_six 6000000000]
  obtain g where g: "flv_demux_seek_pull (\<lambda>_. GST_FLOW_OK) (file_source three_tags_file) seek_to_six indexed = Some (True, g)"
    "parser g = flv_parser_reset (parser indexed)" "seg_position (segment g) = 0"
    "time ` set (index g) = time ` set (index indexed) \<union> time ` set (entries_of True 13 three_tags)"
    using seek three_tags_facts(3,4) by auto
  then show ?thesis by (auto simp: three_tags_facts(6) flv_parser_reset_def)
qed

end
