(* ===== verification/FlvStream.thy ===== *)
theory FlvStream
  imports FlvTags
begin

text \<open>
  What the FLV demuxer promises for a whole stream: reading never gets stuck, cutting a stream into
  buffers differently changes nothing, the metadata and the frames that a file holds are what the pipeline gets,
  and the index is searched correctly.
\<close>

section \<open>Reachable demuxers\<close>

text \<open>
  The life of a demuxer: it is made, and then GStreamer calls it back with buffers, events, seeks,
  requests to pull and changes of state, in any order, answering its calls in any way.
\<close>

inductive demux_reachable :: "FlvDemux \<Rightarrow> bytes \<Rightarrow> bool" where
  made: "demux_reachable (flv_demux_init seg known_tags) []"
| chain: "demux_reachable flt adapter \<Longrightarrow> flv_demux_chain wild reply flt adapter buf off = Some (r, flt', rest) \<Longrightarrow>
    demux_reachable flt' rest"
| event: "demux_reachable flt adapter \<Longrightarrow> demux_reachable (flv_demux_sink_event e flt) adapter"
| pull: "demux_reachable flt adapter \<Longrightarrow> \<forall>cs. length (snd (source cs)) < 2 ^ 64 \<Longrightarrow>
    flv_demux_loop wild reply source flt = Some flt' \<Longrightarrow> demux_reachable flt' adapter"
| src_event: "demux_reachable flt adapter \<Longrightarrow> flv_demux_src_event reply source se flt = Some (ok, flt') \<Longrightarrow> demux_reachable flt' adapter"
| activate: "demux_reachable flt adapter \<Longrightarrow> demux_reachable (snd (flv_demux_activatemode reply mode active flt)) adapter"
| paused: "demux_reachable flt adapter \<Longrightarrow> demux_reachable (ready_to_paused flt) adapter"

lemma event_ok: "demux_ok flt \<Longrightarrow> demux_ok (flv_demux_sink_event e flt)"
  by (cases e) (auto simp: demux_ok_def flv_demux_push_src_event_def tell_def Let_def split: option.split)

lemma demux_reachable_ok: "demux_reachable flt adapter \<Longrightarrow> demux_ok flt"
proof (induction rule: demux_reachable.induct)
  case (made seg known_tags)
  show ?case by (simp add: flv_demux_init_def demux_ok_def flv_parser_init_def parser_ok_def sorted_index_def flv_metadata_new_def tags_ok_def)
next
  case (chain flt adapter wild reply buf off r flt' rest)
  then show ?case using returnsD [OF chain_total] by fastforce
next
  case (event flt adapter e)
  then show ?case by (simp add: event_ok)
next
  case (pull flt adapter source wild reply flt')
  then show ?case using returnsD [OF loop_total] by fastforce
next
  case (src_event flt adapter reply source se ok flt')
  then show ?case using src_event_ok by blast
next
  case (activate flt adapter reply mode active)
  then show ?case by (simp add: activatemode_ok)
next
  case (paused flt adapter)
  then show ?case by (simp add: ready_to_paused_def demux_ok_def)
qed

text \<open>
  C8: reading the metadata of a file ends and stays in the buffer, whatever the bytes are. Nested objects
  and arrays are read by recursion over data of the file, and a length or a count is taken from the file unchecked;
  still every byte read lies in the buffer (a read outside is no result at all), the buffer is not written, and the
  position moves forward by at most 10 bytes past the end.
\<close>

theorem script_data_never_stuck:
  assumes "reader_end rd \<le> length (memory rd)" "tags_ok md"
  shows "returns (flv_script_data_read wild rd md) (\<lambda>(ok, rd', md').
    memory rd' = memory rd \<and> reader_end rd' = reader_end rd \<and> position rd \<le> position rd' \<and>
    position rd' \<le> max (position rd) (reader_end rd + 10) \<and> tags_ok md')"
  using script_data_total [of rd md wild] assms
  by (auto simp: in_memory_def moved_def elim!: returns_conseq)

theorem script_data_never_stuck_witness:
  "returns (flv_script_data_read (\<lambda>_. 0) \<lparr>memory = [2, 0, 200, 7], position = 0, reader_end = 3\<rparr> (flv_metadata_new []))
     (\<lambda>(ok, rd', md'). position rd' \<le> 13)"
  by (rule returns_conseq [OF script_data_never_stuck]) (auto simp: flv_metadata_new_def tags_ok_def)

text \<open>
  C9: what the writer of a file puts into the metadata is what the demuxer gets. For every list of named values
  (numbers, booleans, strings, nested objects and arrays, but not the key frame table) in their encoding, followed by
  anything, the reader succeeds, stops exactly behind them, and has stored the values in the order of the file.
\<close>

theorem metadata_roundtrip:
  assumes "rd = \<lparr>memory = front @ metadata_block es @ behind, position = length front,
       reader_end = length front + length (metadata_block es)\<rparr>"
    and "length es < 2 ^ 32" "list_all meta_fits es" "list_all (\<lambda>(name, v). \<not> keyframe_table name v) es"
  shows "flv_script_data_read wild rd md =
    Some (True, rd\<lparr>position := reader_end rd\<rparr>, fold (store wild) es (opened md))"
proof -
  have "ahead rd (metadata_block es)" by (simp add: assms(1) ahead_def in_memory_def)
  from metadata_stored [OF this assms(2-4), of wild md] show ?thesis
    by (simp add: opened_def advance_def assms(1))
qed

definition two_entries :: "(bytes \<times> meta_value) list" where
  "two_entries = [(ascii ''width'', Plain (Amf_double 0x4084000000000000)), (ascii ''stereo'', Plain (Amf_bool 1))]"

lemma two_entries_fit: "length two_entries < 2 ^ 32" "list_all meta_fits two_entries"
  "list_all (\<lambda>(name, v). \<not> keyframe_table name v) two_entries"
  by (simp_all add: two_entries_def keyframe_table_def)

theorem metadata_roundtrip_witness:
  "returns (flv_script_data_read (\<lambda>_. 0) \<lparr>memory = [7] @ metadata_block two_entries @ [0, 0], position = length [7 :: 8 word],
       reader_end = length [7 :: 8 word] + length (metadata_block two_entries)\<rparr> (flv_metadata_new []))
     (\<lambda>(ok, rd', md'). ok \<and> md_width md' = 640 \<and> is_stereo md' = 1)"
  unfolding metadata_roundtrip [OF refl two_entries_fit]
  by (simp add: two_entries_def opened_def stored_def set_double_def set_bool_def flv_metadata_new_def ascii_def c_string_def
      of_char_def Let_def double_to_gint_def convert_def double_value_def two_to_def truncate_to_int_def)

text \<open>
  C6: the demuxer handles every buffer, pushed or pulled. From every state that buffers, events, seeks and changes of state
  lead to, with any bytes in the buffer and any answers of the pipeline, the call returns, without reading outside the buffer; the
  index stays strictly sorted by time, and the next block has at least 4 and less than \<open>2 ^ 32\<close> bytes, so that the
  size in 32 bits given to the adapter is the same number and the loop always goes forward.
\<close>

theorem chain_never_stuck:
  assumes "demux_reachable flt adapter" "\<forall>cs. length (snd (source cs)) < 2 ^ 64"
  shows "returns (flv_demux_chain wild reply flt adapter buf off) (\<lambda>(r, flt', rest).
      sorted_wrt (<) (map time (index flt')) \<and> 4 \<le> next_block_size (parser flt') \<and> next_block_size (parser flt') < 2 ^ 32) \<and>
    returns (flv_demux_loop wild reply source flt) (\<lambda>flt'.
      sorted_wrt (<) (map time (index flt')) \<and> 4 \<le> next_block_size (parser flt') \<and> next_block_size (parser flt') < 2 ^ 32)"
proof
  note ok = demux_reachable_ok [OF assms(1)]
  show "returns (flv_demux_chain wild reply flt adapter buf off) (\<lambda>(r, flt', rest).
      sorted_wrt (<) (map time (index flt')) \<and> 4 \<le> next_block_size (parser flt') \<and> next_block_size (parser flt') < 2 ^ 32)"
    by (rule returns_conseq [OF chain_total [OF ok]]) (auto simp: demux_ok_def parser_ok_def sorted_index_def)
  show "returns (flv_demux_loop wild reply source flt) (\<lambda>flt'.
      sorted_wrt (<) (map time (index flt')) \<and> 4 \<le> next_block_size (parser flt') \<and> next_block_size (parser flt') < 2 ^ 32)"
    by (rule returns_conseq [OF loop_total [OF ok assms(2)]]) (auto simp: demux_ok_def parser_ok_def sorted_index_def)
qed

theorem chain_never_stuck_witness:
  "returns (flv_demux_chain (\<lambda>_. 0) (\<lambda>_. GST_FLOW_OK) (flv_demux_init some_segment []) [] (ascii ''FLV'') 0)
     (\<lambda>(r, flt', rest). sorted_wrt (<) (map time (index flt')))"
proof -
  have "\<forall>cs :: gst_call list. length (snd ((\<lambda>_. (GST_FLOW_EOS, [])) cs :: GstFlowReturn \<times> bytes)) < 2 ^ 64" by simp
  from chain_never_stuck [OF made this] show ?thesis by (blast intro: returns_conseq)
qed

text \<open>Buffers that follow each other, until one is not accepted.\<close>

primrec feed :: "(64 word \<Rightarrow> int) \<Rightarrow> replies \<Rightarrow> FlvDemux \<Rightarrow> bytes \<Rightarrow> bytes list \<Rightarrow> (GstFlowReturn \<times> FlvDemux \<times> bytes) option" where
  "feed wild reply flt adapter [] = Some (GST_FLOW_OK, flt, adapter)"
| "feed wild reply flt adapter (b # bs) = do {
     (r, flt, adapter) \<leftarrow> flv_demux_chain wild reply flt adapter b 0;
     if r \<noteq> GST_FLOW_OK then Some (r, flt, adapter) else feed wild reply flt adapter bs
   }"

lemma feed_drain:
  assumes "demux_ok flt" "flags flt = (False, False, False)" "feed wild reply flt adapter bufs = Some (GST_FLOW_OK, flt', rest)" "bufs \<noteq> []"
  shows "drain wild reply flt (adapter @ concat bufs) = Some (GST_FLOW_OK, flt', rest)"
  using assms
proof (induction bufs arbitrary: flt adapter)
  case (Cons b bs)
  have chain: "flv_demux_chain wild reply flt adapter b 0 = drain wild reply flt (adapter @ b)"
    using Cons.prems(2) by (simp add: flv_demux_chain_def flags_def)
  obtain r g a where g: "drain wild reply flt (adapter @ b) = Some (r, g, a)" "after flt g"
    using drain_total [OF Cons.prems(1), of wild reply "adapter @ b"] by (auto elim!: returnsE)
  with Cons.prems(3) chain have r: "r = GST_FLOW_OK" "feed wild reply g a bs = Some (GST_FLOW_OK, flt', rest)"
    by (auto split: if_splits)
  show ?case
  proof (cases "bs = []")
    case True
    then show ?thesis using g r by simp
  next
    case False
    have "drain wild reply flt ((adapter @ b) @ concat bs) = drain wild reply g (a @ concat bs)"
      using drain_append [OF Cons.prems(1), of wild reply "adapter @ b" g a] g(1) r(1) by simp
    also have "\<dots> = Some (GST_FLOW_OK, flt', rest)"
      using Cons.IH [OF after_ok [OF g(2)] _ r(2) False] g(2) Cons.prems(2) by (simp add: after_def)
    finally show ?thesis by simp
  qed
qed simp

text \<open>
  C5: it does not matter how a stream is cut into buffers. If the buffers \<open>bufs\<close> are accepted one after another,
  then one buffer with all their bytes is accepted too and leads to the same state: the same index, the same position,
  the same calls to the pipeline in the same order, and the same bytes waiting in the adapter.
\<close>

theorem chunks_do_not_matter:
  assumes "demux_reachable flt adapter" "\<not> is_flushing flt" "\<not> is_eos_received flt" "\<not> need_parser_flush flt"
    and "feed wild reply flt adapter bufs = Some (GST_FLOW_OK, flt', rest)" "bufs \<noteq> []"
  shows "flv_demux_chain wild reply flt adapter (concat bufs) 0 = Some (GST_FLOW_OK, flt', rest)"
  using feed_drain [OF demux_reachable_ok [OF assms(1)] _ assms(5,6)] assms(2-4)
  by (simp add: flags_def flv_demux_chain_def)

definition header_bytes :: bytes where
  "header_bytes = [0x46, 0x4c, 0x56, 1, 5, 0, 0, 0, 9]"

definition two_buffers :: "bytes list" where
  "two_buffers = [[0x46, 0x4c, 0x56, 1], [5, 0, 0, 0, 9]]"

lemma fresh_ok: "demux_ok (flv_demux_init seg tags)"
  using demux_reachable_ok [OF made] .

lemma fresh_fields [simp]:
  "is_flushing (flv_demux_init seg tags) = False" "is_eos_received (flv_demux_init seg tags) = False"
  "need_parser_flush (flv_demux_init seg tags) = False"
  "parser (flv_demux_init seg tags) = \<lparr>parser_state = FLV_PARSER_EXPECT_HEADER, file_position = 0, parsed_block_size = 0, next_block_size = 9\<rparr>"
  by (simp_all add: flv_demux_init_def flv_parser_init_def)

lemma header_accepted:
  "\<exists>g. flv_demux_parse_next_block wild reply (flv_demux_init seg tags) [0x46, 0x4c, 0x56, 1, 5, 0, 0, 0, 9] 9 = Some (GST_FLOW_OK, g) \<and>
     next_block_size (parser g) = 4"
  by (simp add: flv_demux_parse_next_block_def parse_block_def flv_parser_read_header_def bytes_at_def read_at_def
      ascii_def of_char_def be_nat_def accept_block_def)

lemma two_buffers_fed:
  "\<exists>g. feed wild reply (flv_demux_init seg tags) [] two_buffers = Some (GST_FLOW_OK, g, [])"
proof -
  let ?f = "flv_demux_init seg tags"
  obtain g where g: "flv_demux_parse_next_block wild reply ?f [0x46, 0x4c, 0x56, 1, 5, 0, 0, 0, 9] 9 = Some (GST_FLOW_OK, g)"
    "next_block_size (parser g) = 4" using header_accepted by blast
  have "demux_ok g" using block_total [OF fresh_ok, of "[0x46, 0x4c, 0x56, 1, 5, 0, 0, 0, 9]" 9 wild reply seg tags] g(1)
    by (simp add: after_def)
  then have "drain wild reply g [] = Some (GST_FLOW_OK, g, [])" using g(2) by (simp add: drain_step)
  then show ?thesis using g
    by (simp add: two_buffers_def flv_demux_chain_def drain_step fresh_ok Let_def)
qed

theorem chunks_do_not_matter_witness:
  "\<exists>g. flv_demux_chain (\<lambda>_. 0) (\<lambda>_. GST_FLOW_OK) (flv_demux_init some_segment []) [] [0x46, 0x4c, 0x56, 1, 5, 0, 0, 0, 9] 0 =
     Some (GST_FLOW_OK, g, [])"
proof -
  obtain g where "feed (\<lambda>_. 0) (\<lambda>_. GST_FLOW_OK) (flv_demux_init some_segment []) [] two_buffers = Some (GST_FLOW_OK, g, [])"
    using two_buffers_fed by blast
  from chunks_do_not_matter [OF made _ _ _ this] show ?thesis by (simp add: two_buffers_def)
qed

text \<open>
  C25: a search of the index gives the last key frame that is not after the time asked for. It gives nothing
  when the time is before the first key frame or after the last one, and only then.
\<close>

theorem lookup_greatest:
  assumes "sorted_wrt (<) (map time (index flt))"
  shows "returns (flv_demux_index_lookup flt t) (\<lambda>r. case r of
      None \<Rightarrow> (\<forall>k \<in> set (index flt). t < time k) \<or> (\<forall>k \<in> set (index flt). time k < t)
    | Some k \<Rightarrow> k \<in> set (index flt) \<and> time k \<le> t \<and> (\<forall>x \<in> set (index flt). time x \<le> t \<longrightarrow> time x \<le> time k) \<and>
        (\<exists>x \<in> set (index flt). t \<le> time x))"
  by (rule lookup_exact) (use assms in \<open>simp add: sorted_index_def\<close>)

definition three_frames :: FlvDemux where
  "three_frames = (flv_demux_init some_segment [])\<lparr>index :=
     [\<lparr>time = 0, fileposition = 13\<rparr>, \<lparr>time = 40, fileposition = 99\<rparr>, \<lparr>time = 80, fileposition = 200\<rparr>]\<rparr>"

theorem lookup_greatest_witness:
  "returns (flv_demux_index_lookup three_frames 50) (\<lambda>r. \<exists>k. r = Some k \<and> fileposition k = 99)"
  by (rule returns_conseq [OF lookup_greatest]) (auto simp: three_frames_def split: option.splits)

section \<open>Key frames of the metadata\<close>

definition keyframes_block :: "64 word list \<Rightarrow> 64 word list \<Rightarrow> bytes" where
  "keyframes_block ts ps = metadata_block [(ascii ''keyframes'', Plain (Amf_object (times_entries ts ps)))]"

text \<open>
  The table of key frames of a file is of no use for seeking. The reader appends the times (with position 0)
  and then the positions (with time 0) instead of pairing them, so that after the metadata block every entry of the index
  either has the time 0 or the file position 0: a seek to a key frame goes to the start of the file.
\<close>

theorem keyframe_positions_lost:
  assumes "parser_state (parser flt) = FLV_PARSER_EXPECT_SCRIPT_DATA_TAG_BODY"
    and "data = keyframes_block ts ps @ suffix" "length suffix = 4"
    and "next_block_size (parser flt) = len" "length data = unat len"
    and "length ts = length ps" "length ps < 2 ^ 32"
    and "keyframes (metadata flt) = None" "index flt = []" "\<not> copied_metadata_keyframes flt"
  shows "returns (flv_demux_parse_next_block wild reply flt data len) (\<lambda>(r, flt').
     r = GST_FLOW_OK \<and>
     time ` set (index flt') = (if ts = [] then {} else insert 0 (seconds_to_time wild ` set ts)) \<and>
     (\<forall>k \<in> set (index flt'). time k = 0 \<or> fileposition k = 0))"
proof -
  let ?rd = "\<lparr>memory = data, position = 0, reader_end = unat (len - 4)\<rparr>"
    and ?ks = "key_times wild ts @ key_positions wild ps"
  have n: "unat len = length (keyframes_block ts ps) + 4" using assms(2,3,5) by simp
  then have "unat (len - 4) = length (keyframes_block ts ps)" by (simp add: unat_sub_if' word_le_nat_alt)
  then have "ahead ?rd (keyframes_block ts ps)" using assms(2) by (simp add: ahead_def in_memory_def)
  from keyframe_block [OF this [unfolded keyframes_block_def] assms(6,7,8), of wild]
  obtain rd' where r: "flv_script_data_read wild ?rd (metadata flt) =
      Some (True, rd', (opened (metadata flt))\<lparr>keyframes := Some ?ks\<rparr>)" by blast
  define f where "f = queue_metadata_tags (flt\<lparr>parser := accept_tag (parser flt), metadata := (opened (metadata flt))\<lparr>keyframes := Some ?ks\<rparr>\<rparr>)"
  have f: "index f = []" "keyframes (metadata f) = Some ?ks" "\<not> copied_metadata_keyframes f"
    using assms(9,10) by (simp_all add: f_def queue_metadata_tags_def split: option.split)
  have "flv_demux_parse_next_block wild reply flt data len = Some (GST_FLOW_OK, copy_keyframes f)"
    using r assms(1,4) by (simp add: flv_demux_parse_next_block_def parse_block_def parse_script_data_def
      flv_parser_read_script_data_tag_def Let_def f_def)
  moreover have zero: "ps \<noteq> [] \<Longrightarrow> (\<lambda>x. 0 :: 64 word) ` set ps = {0}" by (simp add: image_constant_conv)
  moreover from zero have "time ` set ?ks = (if ts = [] then {} else insert 0 (seconds_to_time wild ` set ts))"
    using assms(6) zero by (cases "ps = []") (auto simp: key_times_def key_positions_def image_Un image_image)
  moreover have "\<forall>k \<in> set ?ks. time k = 0 \<or> fileposition k = 0" by (auto simp: key_times_def key_positions_def)
  ultimately show ?thesis
    using add_entries_times [of ?ks f] f by (auto simp: copy_keyframes_def add_entries_def)
qed

definition key_demux :: "64 word \<Rightarrow> FlvDemux" where
  "key_demux len = (flv_demux_init some_segment [])\<lparr>parser :=
     \<lparr>parser_state = FLV_PARSER_EXPECT_SCRIPT_DATA_TAG_BODY, file_position = 24, parsed_block_size = 11, next_block_size = len\<rparr>\<rparr>"

lemma keyframes_block_length: "length (keyframes_block ts ps) = 68 + 9 * (length ts + length ps)"
  by (simp add: keyframes_block_def length_raw times_entries_def items_length)

theorem keyframe_positions_lost_witness:
  "returns (flv_demux_parse_next_block (\<lambda>_. 0) (\<lambda>_. GST_FLOW_OK) (key_demux 108)
       (keyframes_block [0, 0x3ff0000000000000] [0x4059000000000000, 0x4069000000000000] @ [0, 0, 0, 0]) 108)
     (\<lambda>(r, flt'). \<forall>k \<in> set (index flt'). time k = 0 \<or> fileposition k = 0)"
  by (rule returns_conseq [OF keyframe_positions_lost [OF _ refl]])
    (auto simp: key_demux_def keyframes_block_length flv_demux_init_def flv_metadata_new_def)

section \<open>A frame of video\<close>

definition video_body :: "8 word \<Rightarrow> 8 word \<Rightarrow> bytes \<Rightarrow> bytes" where
  "video_body frame extra payload = [(push_bit 4 frame OR 4), extra] @ payload"

lemma prefix_block:
  assumes "parser_state (parser flt) = FLV_PARSER_EXPECT_TAG_PREFIX" "len < 2 ^ 24" "ts < 2 ^ 24"
  shows "flv_demux_parse_next_block wild reply flt (prefix_bytes 9 len ts) 11 = Some (GST_FLOW_OK,
    flt\<lparr>parser := accept_block 11 (word_of_nat len + 4) FLV_PARSER_EXPECT_VIDEO_TAG_BODY (parser flt),
        current_timestamp := word_of_nat (ts * 1000000), last_file_position := file_position (parser flt)\<rparr>)"
  using read_prefix [OF assms, of 9 11 "[]" blank_prefix] assms(1,3) signed_milliseconds [of ts]
  by (simp add: flv_demux_parse_next_block_def parse_block_def next_body_def)

lemma video_byte:
  assumes "unat (frame :: 8 word) < 16"
  shows "(push_bit 4 frame OR 4) AND 0x0F = 4" "drop_bit 4 ((push_bit 4 frame OR 4) AND 0xF0) = frame"
    "drop_bit 4 (push_bit 4 frame OR 4) AND 15 = frame"
proof -
  have "unat frame = 0 \<or> unat frame = 1 \<or> unat frame = 2 \<or> unat frame = 3 \<or> unat frame = 4 \<or> unat frame = 5 \<or> unat frame = 6 \<or>
    unat frame = 7 \<or> unat frame = 8 \<or> unat frame = 9 \<or> unat frame = 10 \<or> unat frame = 11 \<or> unat frame = 12 \<or> unat frame = 13 \<or>
    unat frame = 14 \<or> unat frame = 15" using assms by presburger
  then have "frame \<in> {0, 1, 2, 3, 4, 5, 6, 7, 8, 9, 10, 11, 12, 13, 14, 15}"
    by (elim disjE) (simp add: word_unat_eq_iff)+
  then show "(push_bit 4 frame OR 4) AND 0x0F = 4" "drop_bit 4 ((push_bit 4 frame OR 4) AND 0xF0) = frame"
    "drop_bit 4 (push_bit 4 frame OR 4) AND 15 = frame"
    by auto
qed

lemma add_entry_fields:
  "parser (flv_demux_index_add_entry flt t p) = parser flt" "calls (flv_demux_index_add_entry flt t p) = calls flt"
  "is_flushing (flv_demux_index_add_entry flt t p) = is_flushing flt"
  "is_eos_received (flv_demux_index_add_entry flt t p) = is_eos_received flt"
  "need_parser_flush (flv_demux_index_add_entry flt t p) = need_parser_flush flt"
  by (simp_all add: flv_demux_index_add_entry_def Let_def)

text \<open>What a frame does to the state when every request of the demuxer is granted.\<close>

definition video_sent :: "FlvDemux \<Rightarrow> bool \<Rightarrow> bytes \<Rightarrow> FlvDemux \<Rightarrow> bool" where
  "video_sent flt key payload g \<longleftrightarrow> parser g = parser flt \<and> flags g = flags flt \<and>
    calls g = calls flt @ [Allocate (word_of_nat (length payload)), Map_buffer Video_pad] @
      (if video_discont flt then [Push_segment Video_pad ((segment flt)\<lparr>seg_position := current_timestamp flt\<rparr>)] else []) @
      [Push_buffer Video_pad \<lparr>buf_data = payload, buf_timestamp = current_timestamp flt,
         buf_duration = longest_gap (current_timestamp flt) (video_prev_timestamp flt) (video_discont flt) (video_frame_duration flt),
         buf_offset = ucast (video_offset flt), buf_offset_end = ucast (video_offset flt + 1),
         buf_discont = video_discont flt, buf_delta_unit = \<not> key\<rparr>] \<and>
    index g = (if key then index (flv_demux_index_add_entry flt (current_timestamp flt) (last_file_position flt)) else index flt)"

lemma send_video_sent:
  assumes "\<And>cs. reply cs = GST_FLOW_OK" "bytes_at data (unat (video_packet_offset tag)) (length payload) = Some payload"
    "video_packet_size tag = word_of_nat (length payload)" "length payload < 2 ^ 64"
  shows "\<exists>g. send_video reply tag data flt = Some (GST_FLOW_OK, g) \<and> video_sent flt (frame_type tag = FLV_VIDEO_FRAME_KEY) payload g"
proof -
  have n: "unat (video_packet_size tag) = length payload" using assms(3,4) unat_small by simp
  show ?thesis
    using assms(1-3) n
    by (cases "video_discont flt"; cases "frame_type tag = FLV_VIDEO_FRAME_KEY")
      (simp_all add: send_video_def video_sent_def ask_def tell_def add_entry_fields add_entry_index flags_def Let_def)
qed

lemma body_block:
  assumes "parser_state (parser flt) = FLV_PARSER_EXPECT_VIDEO_TAG_BODY"
    and "unat frame < 16" "payload \<noteq> []" "length payload < 2 ^ 24 - 2" "length suffix = 4"
    and "next_block_size (parser flt) = word_of_nat (length payload + 6)"
    and "video_src_pad flt" "video_codec flt = 4" "\<And>cs. reply cs = GST_FLOW_OK"
  shows "\<exists>g. flv_demux_parse_next_block wild reply flt (video_body frame extra payload @ suffix) (word_of_nat (length payload + 6)) =
      Some (GST_FLOW_OK, g) \<and> video_sent (flt\<lparr>parser := accept_tag (parser flt)\<rparr>) (frame = 1) payload g"
proof -
  let ?data = "video_body frame extra payload @ suffix" and ?len = "word_of_nat (length payload + 6) :: 64 word"
  have n: "unat ?len = length payload + 6" using assms(4) by (intro unat_small) simp
  have sub: "?len - 4 - 2 = word_of_nat (length payload)" by simp
  have small: "unat (word_of_nat (length payload) :: 64 word) = length payload" using assms(4) by (intro unat_small) simp
  have b: "read_at ?data 0 = Some (push_bit 4 frame OR 4)" by (simp add: read_at_def video_body_def)
  have inside: "\<not> packet_outside ?len 2 (word_of_nat (length payload))"
    using n small unat_small [of "length payload + 4"] assms(3,4)
    by (auto simp: packet_outside_def word_less_nat_alt word_le_nat_alt unat_eq_0 [symmetric] add.commute)
  have extra: "read_at flv_video_codec_data_size 4 = Some 1" by (simp add: read_at_def flv_video_codec_data_size_def)
  have tag: "flv_parser_read_video_tag (parser flt) ?data ?len blank_video_tag = Some (FLV_PARSER_OK, accept_tag (parser flt),
      \<lparr>codec_id = 4, frame_type = frame, video_packet_offset = 2, video_packet_size = word_of_nat (length payload)\<rparr>)"
    using assms(1,6) b inside sub video_byte [OF assms(2)] extra
    by (simp add: flv_parser_read_video_tag_def blank_video_tag_def Let_def)
  have packet: "bytes_at ?data 2 (length payload) = Some payload" by (simp add: bytes_at_def video_body_def)
  let ?tag = "\<lparr>codec_id = 4, frame_type = frame, video_packet_offset = 2, video_packet_size = word_of_nat (length payload)\<rparr> :: FlvVideoTag"
    and ?flt = "flt\<lparr>parser := accept_tag (parser flt), has_video := True\<rparr>"
  obtain g where g: "send_video reply ?tag ?data ?flt = Some (GST_FLOW_OK, g)" "video_sent ?flt (frame = 1) payload g"
    using send_video_sent [of reply ?data ?tag payload ?flt] assms(4,9) packet by auto
  have "video_sent ?flt (frame = 1) payload g = video_sent (flt\<lparr>parser := accept_tag (parser flt)\<rparr>) (frame = 1) payload g"
    by (simp add: video_sent_def add_entry_index flags_def)
  then show ?thesis
    using assms(1,7,8) tag g
    by (simp add: flv_demux_parse_next_block_def parse_block_def flv_demux_parse_video_tag_def Let_def)
qed

definition tag_read :: "nat \<Rightarrow> nat \<Rightarrow> FlvDemux \<Rightarrow> FlvDemux" where
  "tag_read len ts flt = flt\<lparr>parser := accept_block 11 (word_of_nat len + 4) FLV_PARSER_EXPECT_VIDEO_TAG_BODY (parser flt),
     current_timestamp := word_of_nat (ts * 1000000), last_file_position := file_position (parser flt)\<rparr>"

definition body_read :: "nat \<Rightarrow> nat \<Rightarrow> FlvDemux \<Rightarrow> FlvDemux" where
  "body_read len ts flt = (tag_read len ts flt)\<lparr>parser := accept_tag (parser (tag_read len ts flt))\<rparr>"

definition video_tag_bytes :: "8 word \<Rightarrow> nat \<Rightarrow> 8 word \<Rightarrow> bytes \<Rightarrow> bytes \<Rightarrow> bytes" where
  "video_tag_bytes frame ts extra payload suffix = tag_bytes \<lparr>kind = 9, milliseconds = ts, content = video_body frame extra payload, trailer = suffix\<rparr>"

text \<open>
  C10: a frame of video in the stream is the frame the decoder gets. Between two tags, with the video pad set up
  for VP6 and a pipeline that accepts everything, the bytes of a video tag with time \<open>ts\<close> (in milliseconds) and any
  payload make the demuxer allocate and push exactly one buffer with exactly the payload, this time and the next frame
  number (and before it the segment, when the stream was interrupted), and for a key frame add the position of the tag
  to the index; all bytes are used up, and the next block is the prefix of the next tag.
\<close>

theorem video_frame_delivered:
  assumes "demux_ok flt" "\<not> is_flushing flt" "\<not> is_eos_received flt" "\<not> need_parser_flush flt"
    and "parser_state (parser flt) = FLV_PARSER_EXPECT_TAG_PREFIX" "next_block_size (parser flt) = 11"
    and "unat frame < 16" "payload \<noteq> []" "length payload < 2 ^ 24 - 2" "ts < 2 ^ 24" "length suffix = 4"
    and "video_src_pad flt" "video_codec flt = 4" "\<And>cs. reply cs = GST_FLOW_OK"
  shows "\<exists>g. flv_demux_chain wild reply flt [] (video_tag_bytes frame ts extra payload suffix) 0 = Some (GST_FLOW_OK, g, []) \<and>
    video_sent (body_read (length payload + 2) ts flt) (frame = 1) payload g"
proof -
  let ?n = "length payload + 2" and ?body = "video_body frame extra payload @ suffix"
  let ?prefix = "prefix_bytes 9 ?n ts"
  have bytes: "video_tag_bytes frame ts extra payload suffix = ?prefix @ ?body"
    by (simp add: video_tag_bytes_def tag_bytes_def video_body_def)
  define f where "f = tag_read ?n ts flt"
  have n: "length ?prefix = 11" "length ?body = ?n + 4" using assms(11) by (simp_all add: video_body_def)
  have prefix: "flv_demux_parse_next_block wild reply flt ?prefix 11 = Some (GST_FLOW_OK, f)"
    using prefix_block [OF assms(5), of ?n ts wild reply] assms(9,10) by (simp add: f_def tag_read_def)
  have f: "parser_state (parser f) = FLV_PARSER_EXPECT_VIDEO_TAG_BODY" "next_block_size (parser f) = word_of_nat (length payload + 6)"
    "video_src_pad f" "video_codec f = 4"
    using assms(12,13) by (simp_all add: f_def tag_read_def accept_block_def)
  obtain g where g: "flv_demux_parse_next_block wild reply f ?body (word_of_nat (length payload + 6)) = Some (GST_FLOW_OK, g)"
    "video_sent (f\<lparr>parser := accept_tag (parser f)\<rparr>) (frame = 1) payload g"
    using body_block [where reply = reply, OF f(1) assms(7,8,9,11) f(2-4) assms(14), of wild extra] by blast
  have size: "unat (word_of_nat (length payload + 6) :: 64 word) = length payload + 6" using assms(9) by (intro unat_small) simp
  have okf: "demux_ok f" using block_total [OF assms(1), of ?prefix 11 wild reply] prefix n by (simp add: after_def)
  have okg: "demux_ok g"
    using block_total [OF okf, of ?body "word_of_nat (length payload + 6)" wild reply] g(1) n size by (simp add: after_def)
  have "next_block_size (parser g) = 11" using g(2) by (simp add: video_sent_def accept_tag_def accept_block_def)
  then have rest: "drain wild reply g [] = Some (GST_FLOW_OK, g, [])" by (simp add: drain_step [OF okg])
  have "drain wild reply f ?body = Some (GST_FLOW_OK, g, [])"
    using g(1) rest n size f(2) by (simp add: drain_step [OF okf] Let_def)
  then have "drain wild reply flt (?prefix @ ?body) = Some (GST_FLOW_OK, g, [])"
    using prefix n assms(6) by (simp add: drain_step [OF assms(1)] Let_def)
  then show ?thesis
    using g(2) assms(2-4) by (simp add: flv_demux_chain_def bytes body_read_def f_def)
qed

definition playing :: FlvDemux where
  "playing = (flv_demux_init some_segment [])\<lparr>parser :=
     \<lparr>parser_state = FLV_PARSER_EXPECT_TAG_PREFIX, file_position = 13, parsed_block_size = 4, next_block_size = 11\<rparr>,
     video_src_pad := True, video_codec := 4\<rparr>"

lemma playing_ok: "demux_ok playing"
  using fresh_ok [of some_segment "[]"] by (simp add: playing_def demux_ok_def parser_ok_def)

theorem video_frame_delivered_witness:
  "\<exists>g. flv_demux_chain (\<lambda>_. 0) (\<lambda>_. GST_FLOW_OK) playing [] (video_tag_bytes 1 40 0 [1, 2, 3] [0, 0, 0, 16]) 0 =
     Some (GST_FLOW_OK, g, []) \<and> index g = [\<lparr>time = 40000000, fileposition = 13\<rparr>] \<and> file_position (parser g) = 33"
proof -
  obtain g where "flv_demux_chain (\<lambda>_. 0) (\<lambda>_. GST_FLOW_OK) playing [] (video_tag_bytes 1 40 0 [1, 2, 3] [0, 0, 0, 16]) 0 =
     Some (GST_FLOW_OK, g, [])" "video_sent (body_read (length [1, 2, 3 :: 8 word] + 2) 40 playing) True [1, 2, 3] g"
    using video_frame_delivered [OF playing_ok, of 1 "[1, 2, 3]" 40 "[0, 0, 0, 16]" "\<lambda>_. GST_FLOW_OK" "\<lambda>_. 0" 0]
    by (auto simp: playing_def)
  then show ?thesis
    by (simp add: video_sent_def body_read_def tag_read_def playing_def accept_tag_def accept_block_def add_entry_index
        flv_demux_init_def)
qed

end
