(* ===== verification/ColorConverter.thy ===== *)
theory ColorConverter
  imports GlassPrelude
begin

text \<open>
  \<open>jfxmedia/Utils/ColorConverter.c\<close>: a frame of video, in planes of brightness and colour, becomes pixels of
  four bytes. The functions for 4:2:0 are those that the compiler takes where there is no SSE2. A plane is a buffer
  and the pointer of the caller an offset into it; a null pointer is \<open>None\<close>. The destination is not
  one of the planes. Products of strides are assumed not to overflow.
\<close>

unbundle bit_operations_syntax

section \<open>Tables\<close>

text \<open>The table of the source has 1664 entries: 576 times 0, each byte twice, 576 times 255.\<close>

definition color_tClip :: "8 word list" where
  "color_tClip = replicate (288 * 2) 0 @ concat (map (\<lambda>k. [word_of_nat k, word_of_nat k]) [0..<256]) @ replicate 576 255"

definition color_tYY :: "int list" where
  "color_tYY = [
     0, 2, 5, 7, 9, 12, 14, 16, 19, 21, 23, 26, 28, 30, 33, 35,
     37, 40, 42, 44, 47, 49, 51, 54, 56, 58, 61, 63, 65, 68, 70, 72,
     75, 77, 79, 82, 84, 86, 88, 91, 93, 95, 98, 100, 102, 105, 107, 109,
     112, 114, 116, 119, 121, 123, 126, 128, 130, 133, 135, 137, 140, 142, 144, 147,
     149, 151, 154, 156, 158, 161, 163, 165, 168, 170, 172, 175, 177, 179, 182, 184,
     186, 189, 191, 193, 196, 198, 200, 203, 205, 207, 210, 212, 214, 217, 219, 221,
     224, 226, 228, 231, 233, 235, 238, 240, 242, 245, 247, 249, 252, 254, 256, 258,
     261, 263, 265, 268, 270, 272, 275, 277, 279, 282, 284, 286, 289, 291, 293, 296,
     298, 300, 303, 305, 307, 310, 312, 314, 317, 319, 321, 324, 326, 328, 331, 333,
     335, 338, 340, 342, 345, 347, 349, 352, 354, 356, 359, 361, 363, 366, 368, 370,
     373, 375, 377, 380, 382, 384, 387, 389, 391, 394, 396, 398, 401, 403, 405, 408,
     410, 412, 415, 417, 419, 422, 424, 426, 428, 431, 433, 435, 438, 440, 442, 445,
     447, 449, 452, 454, 456, 459, 461, 463, 466, 468, 470, 473, 475, 477, 480, 482,
     484, 487, 489, 491, 494, 496, 498, 501, 503, 505, 508, 510, 512, 515, 517, 519,
     522, 524, 526, 529, 531, 533, 536, 538, 540, 543, 545, 547, 550, 552, 554, 557,
     559, 561, 564, 566, 568, 571, 573, 575, 578, 580, 582, 585, 587, 589, 592, 594]"

definition color_tRV :: "int list" where
  "color_tRV = [
     0, 3, 6, 10, 13, 16, 19, 22, 26, 29, 32, 35, 38, 42, 45, 48,
     51, 54, 57, 61, 64, 67, 70, 73, 77, 80, 83, 86, 89, 93, 96, 99,
     102, 105, 109, 112, 115, 118, 121, 125, 128, 131, 134, 137, 141, 144, 147, 150,
     153, 156, 160, 163, 166, 169, 172, 176, 179, 182, 185, 188, 192, 195, 198, 201,
     204, 208, 211, 214, 217, 220, 224, 227, 230, 233, 236, 239, 243, 246, 249, 252,
     255, 259, 262, 265, 268, 271, 275, 278, 281, 284, 287, 291, 294, 297, 300, 303,
     307, 310, 313, 316, 319, 323, 326, 329, 332, 335, 338, 342, 345, 348, 351, 354,
     358, 361, 364, 367, 370, 374, 377, 380, 383, 386, 390, 393, 396, 399, 402, 406,
     409, 412, 415, 418, 422, 425, 428, 431, 434, 437, 441, 444, 447, 450, 453, 457,
     460, 463, 466, 469, 473, 476, 479, 482, 485, 489, 492, 495, 498, 501, 505, 508,
     511, 514, 517, 520, 524, 527, 530, 533, 536, 540, 543, 546, 549, 552, 556, 559,
     562, 565, 568, 572, 575, 578, 581, 584, 588, 591, 594, 597, 600, 604, 607, 610,
     613, 616, 619, 623, 626, 629, 632, 635, 639, 642, 645, 648, 651, 655, 658, 661,
     664, 667, 671, 674, 677, 680, 683, 687, 690, 693, 696, 699, 703, 706, 709, 712,
     715, 718, 722, 725, 728, 731, 734, 738, 741, 744, 747, 750, 754, 757, 760, 763,
     766, 770, 773, 776, 779, 782, 786, 789, 792, 795, 798, 801, 805, 808, 811, 814]"

definition color_tGU :: "int list" where
  "color_tGU = [
     271, 270, 270, 269, 268, 267, 267, 266, 265, 264, 263, 263, 262, 261, 260, 260,
     259, 258, 257, 256, 256, 255, 254, 253, 252, 252, 251, 250, 249, 249, 248, 247,
     246, 245, 245, 244, 243, 242, 241, 241, 240, 239, 238, 238, 237, 236, 235, 234,
     234, 233, 232, 231, 231, 230, 229, 228, 227, 227, 226, 225, 224, 223, 223, 222,
     221, 220, 220, 219, 218, 217, 216, 216, 215, 214, 213, 212, 212, 211, 210, 209,
     209, 208, 207, 206, 205, 205, 204, 203, 202, 201, 201, 200, 199, 198, 198, 197,
     196, 195, 194, 194, 193, 192, 191, 191, 190, 189, 188, 187, 187, 186, 185, 184,
     183, 183, 182, 181, 180, 180, 179, 178, 177, 176, 176, 175, 174, 173, 172, 172,
     171, 170, 169, 169, 168, 167, 166, 165, 165, 164, 163, 162, 162, 161, 160, 159,
     158, 158, 157, 156, 155, 154, 154, 153, 152, 151, 151, 150, 149, 148, 147, 147,
     146, 145, 144, 143, 143, 142, 141, 140, 140, 139, 138, 137, 136, 136, 135, 134,
     133, 133, 132, 131, 130, 129, 129, 128, 127, 126, 125, 125, 124, 123, 122, 122,
     121, 120, 119, 118, 118, 117, 116, 115, 114, 114, 113, 112, 111, 111, 110, 109,
     108, 107, 107, 106, 105, 104, 103, 103, 102, 101, 100, 100, 99, 98, 97, 96,
     96, 95, 94, 93, 93, 92, 91, 90, 89, 89, 88, 87, 86, 85, 85, 84,
     83, 82, 82, 81, 80, 79, 78, 78, 77, 76, 75, 74, 74, 73, 72, 71]"

definition color_tGV :: "int list" where
  "color_tGV = [
     0, 2, 3, 5, 7, 8, 10, 11, 13, 15, 16, 18, 20, 21, 23, 24,
     26, 28, 29, 31, 33, 34, 36, 37, 39, 41, 42, 44, 46, 47, 49, 50,
     52, 54, 55, 57, 59, 60, 62, 63, 65, 67, 68, 70, 72, 73, 75, 76,
     78, 80, 81, 83, 85, 86, 88, 89, 91, 93, 94, 96, 98, 99, 101, 102,
     104, 106, 107, 109, 111, 112, 114, 115, 117, 119, 120, 122, 124, 125, 127, 128,
     130, 132, 133, 135, 137, 138, 140, 141, 143, 145, 146, 148, 150, 151, 153, 155,
     156, 158, 159, 161, 163, 164, 166, 168, 169, 171, 172, 174, 176, 177, 179, 181,
     182, 184, 185, 187, 189, 190, 192, 194, 195, 197, 198, 200, 202, 203, 205, 207,
     208, 210, 211, 213, 215, 216, 218, 220, 221, 223, 224, 226, 228, 229, 231, 233,
     234, 236, 237, 239, 241, 242, 244, 246, 247, 249, 250, 252, 254, 255, 257, 259,
     260, 262, 263, 265, 267, 268, 270, 272, 273, 275, 276, 278, 280, 281, 283, 285,
     286, 288, 289, 291, 293, 294, 296, 298, 299, 301, 303, 304, 306, 307, 309, 311,
     312, 314, 316, 317, 319, 320, 322, 324, 325, 327, 329, 330, 332, 333, 335, 337,
     338, 340, 342, 343, 345, 346, 348, 350, 351, 353, 355, 356, 358, 359, 361, 363,
     364, 366, 368, 369, 371, 372, 374, 376, 377, 379, 381, 382, 384, 385, 387, 389,
     390, 392, 394, 395, 397, 398, 400, 402, 403, 405, 407, 408, 410, 411, 413, 415]"

definition color_tBU :: "int list" where
  "color_tBU = [
     0, 4, 8, 12, 16, 20, 24, 28, 32, 36, 40, 44, 48, 52, 57, 61,
     65, 69, 73, 77, 81, 85, 89, 93, 97, 101, 105, 109, 113, 117, 121, 125,
     129, 133, 137, 141, 145, 149, 153, 157, 161, 166, 170, 174, 178, 182, 186, 190,
     194, 198, 202, 206, 210, 214, 218, 222, 226, 230, 234, 238, 242, 246, 250, 254,
     258, 262, 266, 270, 275, 279, 283, 287, 291, 295, 299, 303, 307, 311, 315, 319,
     323, 327, 331, 335, 339, 343, 347, 351, 355, 359, 363, 367, 371, 375, 379, 383,
     388, 392, 396, 400, 404, 408, 412, 416, 420, 424, 428, 432, 436, 440, 444, 448,
     452, 456, 460, 464, 468, 472, 476, 480, 484, 488, 492, 497, 501, 505, 509, 513,
     517, 521, 525, 529, 533, 537, 541, 545, 549, 553, 557, 561, 565, 569, 573, 577,
     581, 585, 589, 593, 597, 601, 606, 610, 614, 618, 622, 626, 630, 634, 638, 642,
     646, 650, 654, 658, 662, 666, 670, 674, 678, 682, 686, 690, 694, 698, 702, 706,
     710, 715, 719, 723, 727, 731, 735, 739, 743, 747, 751, 755, 759, 763, 767, 771,
     775, 779, 783, 787, 791, 795, 799, 803, 807, 811, 815, 819, 824, 828, 832, 836,
     840, 844, 848, 852, 856, 860, 864, 868, 872, 876, 880, 884, 888, 892, 896, 900,
     904, 908, 912, 916, 920, 924, 928, 933, 937, 941, 945, 949, 953, 957, 961, 965,
     969, 973, 977, 981, 985, 989, 993, 997, 1001, 1005, 1009, 1013, 1017, 1021, 1025, 1029]"

section \<open>Clamping\<close>

text \<open>\<open>TCLAMP_U8\<close> looks half of the value up, \<open>SCLAMP_U8\<close> computes it without a branch.\<close>

definition TCLAMP_U8 :: "int \<Rightarrow> 8 word option" where
  "TCLAMP_U8 val = read_at color_tClip (288 * 2 + val)"

definition SCLAMP_U8 :: "int \<Rightarrow> 8 word" where
  "SCLAMP_U8 s =
     (let v = (word_of_int s :: 32 word);
          mask = signed_drop_bit 31 (v - 0x1fe)
      in ucast ((drop_bit 1 v OR NOT mask) AND NOT (signed_drop_bit 31 v)))"

section \<open>Pixels\<close>

text \<open>What a colour adds to red, green and blue: \<open>sfr\<close>, \<open>sfg\<close>, \<open>sfb\<close>.\<close>

definition chroma :: "8 word \<Rightarrow> 8 word \<Rightarrow> (int \<times> int \<times> int) option" where
  "chroma sf1 sf2 = do {
     rv \<leftarrow> read_at color_tRV (uint sf2);
     gu \<leftarrow> read_at color_tGU (uint sf1);
     gv \<leftarrow> read_at color_tGV (uint sf2);
     bu \<leftarrow> read_at color_tBU (uint sf1);
     Some (rv - 446, gu - gv, bu - 554)
   }"

definition luma :: "8 word list \<Rightarrow> int \<Rightarrow> int option" where
  "luma y p = do { b \<leftarrow> read_at y p; read_at color_tYY (uint b) }"

definition store_byte :: "int \<Rightarrow> 8 word option \<Rightarrow> 8 word list \<Rightarrow> 8 word list option" where
  "store_byte p b d = do { b \<leftarrow> b; write_at d p b }"

text \<open>The blocks of two by two pixels of 4:2:0; the pointers are those of the loop body.\<close>

definition block_420 ::
    "8 word list \<Rightarrow> 8 word list \<Rightarrow> 8 word list \<Rightarrow> int \<Rightarrow> int \<Rightarrow> int \<Rightarrow> int \<Rightarrow> int \<Rightarrow> int \<Rightarrow> 8 word list \<Rightarrow> 8 word list option" where
  "block_420 y u v say1 say2 sau sav da1 da2 d = do {
     sf1 \<leftarrow> read_at u sau;
     sf2 \<leftarrow> read_at v sav;
     (sfr, sfg, sfb) \<leftarrow> chroma sf1 sf2;
     sf01 \<leftarrow> luma y say1;
     sf03 \<leftarrow> luma y (say1 + 1);
     sf02 \<leftarrow> luma y say2;
     sf04 \<leftarrow> luma y (say2 + 1);
     d \<leftarrow> store_byte (da1 + 2) (TCLAMP_U8 (sf01 + sfr)) d;
     d \<leftarrow> store_byte (da1 + 1) (TCLAMP_U8 (sf01 + sfg)) d;
     d \<leftarrow> store_byte da1 (Some (SCLAMP_U8 (sf01 + sfb))) d;
     d \<leftarrow> store_byte (da1 + 6) (TCLAMP_U8 (sf03 + sfr)) d;
     d \<leftarrow> store_byte (da1 + 5) (TCLAMP_U8 (sf03 + sfg)) d;
     d \<leftarrow> store_byte (da1 + 4) (Some (SCLAMP_U8 (sf03 + sfb))) d;
     d \<leftarrow> store_byte (da2 + 2) (TCLAMP_U8 (sf02 + sfr)) d;
     d \<leftarrow> store_byte (da2 + 1) (TCLAMP_U8 (sf02 + sfg)) d;
     d \<leftarrow> store_byte da2 (Some (SCLAMP_U8 (sf02 + sfb))) d;
     d \<leftarrow> store_byte (da2 + 6) (TCLAMP_U8 (sf04 + sfr)) d;
     d \<leftarrow> store_byte (da2 + 5) (Some (SCLAMP_U8 (sf04 + sfg))) d;
     store_byte (da2 + 4) (TCLAMP_U8 (sf04 + sfb)) d
   }"

text \<open>The bytes of a pixel that hold its alpha, from a plane or all opaque.\<close>

definition alpha_420 :: "8 word list \<Rightarrow> int \<Rightarrow> int \<Rightarrow> int \<Rightarrow> int \<Rightarrow> 8 word list \<Rightarrow> 8 word list option" where
  "alpha_420 a a_col1 a_col2 da1 da2 d = do {
     d \<leftarrow> store_byte (da1 + 3) (read_at a a_col1) d;
     d \<leftarrow> store_byte (da1 + 7) (read_at a (a_col1 + 1)) d;
     d \<leftarrow> store_byte (da2 + 3) (read_at a a_col2) d;
     store_byte (da2 + 7) (read_at a (a_col2 + 1)) d
   }"

definition opaque_420 :: "int \<Rightarrow> int \<Rightarrow> 8 word list \<Rightarrow> 8 word list option" where
  "opaque_420 da1 da2 d = do {
     d \<leftarrow> store_byte (da2 + 7) (Some 0xff) d;
     d \<leftarrow> store_byte (da2 + 3) (Some 0xff) d;
     d \<leftarrow> store_byte (da1 + 7) (Some 0xff) d;
     store_byte (da1 + 3) (Some 0xff) d
   }"

section \<open>Frames\<close>

text \<open>
  The loops over columns and rows. \<open>alpha\<close> writes the alpha of a block; its first two arguments are
  the pointers into the plane of alpha, which the function without alpha does not have.
\<close>

type_synonym alpha_writer = "int \<Rightarrow> int \<Rightarrow> int \<Rightarrow> int \<Rightarrow> 8 word list \<Rightarrow> 8 word list option"

primrec columns_420 :: "alpha_writer \<Rightarrow> 8 word list \<Rightarrow> 8 word list \<Rightarrow> 8 word list \<Rightarrow> nat \<Rightarrow>
    int \<Rightarrow> int \<Rightarrow> int \<Rightarrow> int \<Rightarrow> int \<Rightarrow> int \<Rightarrow> int \<Rightarrow> int \<Rightarrow> 8 word list \<Rightarrow> 8 word list option" where
  "columns_420 alpha y u v 0 say1 say2 sau sav da1 da2 a_col1 a_col2 d = Some d"
| "columns_420 alpha y u v (Suc n) say1 say2 sau sav da1 da2 a_col1 a_col2 d = do {
     d \<leftarrow> block_420 y u v say1 say2 sau sav da1 da2 d;
     d \<leftarrow> alpha a_col1 a_col2 da1 da2 d;
     columns_420 alpha y u v n (say1 + 2) (say2 + 2) (sau + 1) (sav + 1) (da1 + 8) (da2 + 8) (a_col1 + 2) (a_col2 + 2) d
   }"

record strides =
  y_stride :: int
  v_stride :: int
  u_stride :: int
  a_stride :: int
  bgra_stride :: int

primrec rows_420 :: "alpha_writer \<Rightarrow> 8 word list \<Rightarrow> 8 word list \<Rightarrow> 8 word list \<Rightarrow> strides \<Rightarrow> nat \<Rightarrow> nat \<Rightarrow>
    int \<Rightarrow> int \<Rightarrow> int \<Rightarrow> int \<Rightarrow> int \<Rightarrow> int \<Rightarrow> int \<Rightarrow> int \<Rightarrow> 8 word list \<Rightarrow> 8 word list option" where
  "rows_420 alpha y u v st w 0 sly1 sly2 slu slv dl1 dl2 a_row1 a_row2 d = Some d"
| "rows_420 alpha y u v st w (Suc n) sly1 sly2 slu slv dl1 dl2 a_row1 a_row2 d = do {
     d \<leftarrow> columns_420 alpha y u v w sly1 sly2 slu slv dl1 dl2 a_row1 a_row2 d;
     rows_420 alpha y u v st w n (sly1 + 2 * y_stride st) (sly2 + 2 * y_stride st) (slu + u_stride st) (slv + v_stride st)
       (dl1 + 2 * bgra_stride st) (dl2 + 2 * bgra_stride st) (a_row1 + 2 * a_stride st) (a_row2 + 2 * a_stride st) d
   }"

text \<open>The result 1 is an error: a null pointer, no pixels, or an odd size.\<close>

definition ColorConvert_YCbCr420p_to_BGRA32 :: "8 word list option \<Rightarrow> int \<Rightarrow> int \<Rightarrow> 8 word list option \<Rightarrow> 8 word list option \<Rightarrow>
    8 word list option \<Rightarrow> 8 word list option \<Rightarrow> strides \<Rightarrow> (int \<times> 8 word list option) option" where
  "ColorConvert_YCbCr420p_to_BGRA32 bgra width height y v u a st = (case (bgra, y, u, v) of
     (Some d, Some y, Some u, Some v) \<Rightarrow>
       if width \<le> 0 \<or> height \<le> 0 then Some (1, bgra)
       else if (width OR height) AND 1 \<noteq> 0 then Some (1, bgra)
       else do {
         a \<leftarrow> a;
         d \<leftarrow> rows_420 (alpha_420 a) y u v st (nat (drop_bit 1 width)) (nat (drop_bit 1 height))
           0 (y_stride st) 0 0 0 (bgra_stride st) 0 (a_stride st) d;
         Some (0, Some d)
       }
   | _ \<Rightarrow> Some (1, bgra))"

definition ColorConvert_YCbCr420p_to_BGRA32_no_alpha :: "8 word list option \<Rightarrow> int \<Rightarrow> int \<Rightarrow> 8 word list option \<Rightarrow>
    8 word list option \<Rightarrow> 8 word list option \<Rightarrow> strides \<Rightarrow> (int \<times> 8 word list option) option" where
  "ColorConvert_YCbCr420p_to_BGRA32_no_alpha bgra width height y v u st = (case (bgra, y, u, v) of
     (Some d, Some y, Some u, Some v) \<Rightarrow>
       if width \<le> 0 \<or> height \<le> 0 then Some (1, bgra)
       else if (width OR height) AND 1 \<noteq> 0 then Some (1, bgra)
       else do {
         d \<leftarrow> rows_420 (\<lambda>_ _. opaque_420) y u v st (nat (drop_bit 1 width)) (nat (drop_bit 1 height))
           0 (y_stride st) 0 0 0 (bgra_stride st) 0 (a_stride st) d;
         Some (0, Some d)
       }
   | _ \<Rightarrow> Some (1, bgra))"

text \<open>4:2:2, two pixels at a time: the samples of a plane are four (brightness: two) bytes apart.\<close>

definition block_422 ::
    "8 word list \<Rightarrow> 8 word list \<Rightarrow> 8 word list \<Rightarrow> int \<Rightarrow> int \<Rightarrow> int \<Rightarrow> int \<Rightarrow> 8 word list \<Rightarrow> 8 word list option" where
  "block_422 y u v say1 sau sav da1 d = do {
     sf1 \<leftarrow> read_at u sau;
     sf2 \<leftarrow> read_at v sav;
     sf01 \<leftarrow> luma y say1;
     sf03 \<leftarrow> luma y (say1 + 2);
     (sfr, sfg, sfb) \<leftarrow> chroma sf1 sf2;
     d \<leftarrow> store_byte (da1 + 2) (TCLAMP_U8 (sf01 + sfr)) d;
     d \<leftarrow> store_byte (da1 + 1) (TCLAMP_U8 (sf01 + sfg)) d;
     d \<leftarrow> store_byte da1 (Some (SCLAMP_U8 (sf01 + sfb))) d;
     d \<leftarrow> store_byte (da1 + 6) (TCLAMP_U8 (sf03 + sfr)) d;
     d \<leftarrow> store_byte (da1 + 5) (TCLAMP_U8 (sf03 + sfg)) d;
     d \<leftarrow> store_byte (da1 + 4) (Some (SCLAMP_U8 (sf03 + sfb))) d;
     d \<leftarrow> store_byte (da1 + 7) (Some 0xff) d;
     store_byte (da1 + 3) (Some 0xff) d
   }"

primrec columns_422 :: "8 word list \<Rightarrow> 8 word list \<Rightarrow> 8 word list \<Rightarrow> nat \<Rightarrow> int \<Rightarrow> int \<Rightarrow> int \<Rightarrow> int \<Rightarrow> 8 word list \<Rightarrow> 8 word list option" where
  "columns_422 y u v 0 say1 sau sav da1 d = Some d"
| "columns_422 y u v (Suc n) say1 sau sav da1 d = do {
     d \<leftarrow> block_422 y u v say1 sau sav da1 d;
     columns_422 y u v n (say1 + 4) (sau + 4) (sav + 4) (da1 + 8) d
   }"

primrec rows_422 :: "8 word list \<Rightarrow> 8 word list \<Rightarrow> 8 word list \<Rightarrow> int \<Rightarrow> int \<Rightarrow> int \<Rightarrow> nat \<Rightarrow> nat \<Rightarrow>
    int \<Rightarrow> int \<Rightarrow> int \<Rightarrow> int \<Rightarrow> 8 word list \<Rightarrow> 8 word list option" where
  "rows_422 y u v y_step uv_step bgra_step w 0 sly1 slu slv dl1 d = Some d"
| "rows_422 y u v y_step uv_step bgra_step w (Suc n) sly1 slu slv dl1 d = do {
     d \<leftarrow> columns_422 y u v w sly1 slu slv dl1 d;
     rows_422 y u v y_step uv_step bgra_step w n (sly1 + y_step) (slu + uv_step) (slv + uv_step) (dl1 + bgra_step) d
   }"

definition ColorConvert_YCbCr422p_to_BGRA32_no_alpha :: "8 word list option \<Rightarrow> int \<Rightarrow> int \<Rightarrow> int \<Rightarrow> 8 word list option \<Rightarrow>
    8 word list option \<Rightarrow> 8 word list option \<Rightarrow> int \<Rightarrow> int \<Rightarrow> (int \<times> 8 word list option) option" where
  "ColorConvert_YCbCr422p_to_BGRA32_no_alpha bgra bgra_step width height y v u y_step uv_step = (case (bgra, y, u, v) of
     (Some d, Some y, Some u, Some v) \<Rightarrow>
       if width \<le> 0 \<or> height \<le> 0 then Some (1, bgra)
       else if width AND 1 \<noteq> 0 then Some (1, bgra)
       else do {
         d \<leftarrow> rows_422 y u v y_step uv_step bgra_step (nat (drop_bit 1 width)) (nat height) 0 0 0 0 d;
         Some (0, Some d)
       }
   | _ \<Rightarrow> Some (1, bgra))"

text \<open>The conversions to ARGB do nothing here.\<close>

definition ColorConvert_YCbCr420p_to_ARGB32 :: int where "ColorConvert_YCbCr420p_to_ARGB32 = 1"
definition ColorConvert_YCbCr420p_to_ARGB32_no_alpha :: int where "ColorConvert_YCbCr420p_to_ARGB32_no_alpha = 1"
definition ColorConvert_YCbCr422p_to_ARGB32_no_alpha :: int where "ColorConvert_YCbCr422p_to_ARGB32_no_alpha = 1"

end
