(* ===== verification/ColorExact.thy ===== *)
theory ColorExact
  imports ColorConverter
begin

text \<open>
  What the colour conversions compute: the tables and the clamping, the colour of a pixel, and the picture that the loops over
  a frame write. A loop is described by the set of places it has written, which hold their final value.
\<close>

unbundle bit_operations_syntax

section \<open>The tables\<close>

lemma table_lengths: "length color_tYY = 256" "length color_tRV = 256" "length color_tGU = 256" "length color_tGV = 256" "length color_tBU = 256"
  by (simp_all add: color_tYY_def color_tRV_def color_tGU_def color_tGV_def color_tBU_def)

lemma table_YY: "color_tYY = map (\<lambda>i. (int i * 232880000 + 49999999) div 100000000) [0..<256]" by code_simp
lemma table_RV: "color_tRV = map (\<lambda>i. (int i * 319320000 + 49999999) div 100000000) [0..<256]" by code_simp
lemma table_GU: "color_tGU = map (\<lambda>i. (27127040000 - int i * 78400000 + 49999999) div 100000000) [0..<256]" by code_simp
lemma table_GV: "color_tGV = map (\<lambda>i. (int i * 162640000 + 49999999) div 100000000) [0..<256]" by code_simp
lemma table_BU: "color_tBU = map (\<lambda>i. (int i * 403680000 + 49999999) div 100000000) [0..<256]" by code_simp

lemma byte_index: "unat (b :: 8 word) < 256"
proof -
  have "(unsigned b :: nat) < 2 ^ LENGTH(8)" by (rule unsigned_less)
  then show ?thesis by simp
qed

lemma read_byte: "length t = 256 \<Longrightarrow> read_at t (uint (b :: 8 word)) = Some (t ! unat b)"
  using byte_index [of b] by (simp add: read_at_def)

lemma at_table: "t = map f [0..<256] \<Longrightarrow> t ! unat (b :: 8 word) = f (unat b)"
  using byte_index [of b] by simp

section \<open>Clamping\<close>

definition clamp8 :: "int \<Rightarrow> 8 word" where
  "clamp8 v = word_of_int (max 0 (min 255 (v div 2)))"

lemma length_pairs [simp]: "length (concat (map (\<lambda>k. [f k, f k]) [0..<n])) = 2 * n"
  by (induction n) auto

lemma nth_pairs: "i < 2 * n \<Longrightarrow> concat (map (\<lambda>k. [f k, f k]) [0..<n]) ! i = f (i div 2)"
proof (induction n)
  case (Suc n)
  show ?case
  proof (cases "i < 2 * n")
    case True
    then show ?thesis using Suc by (simp add: nth_append)
  next
    case False
    then have "i = 2 * n \<or> i = Suc (2 * n)" using Suc.prems by auto
    then show ?thesis by (auto simp: nth_append)
  qed
qed simp

lemma TCLAMP_exact: "- 576 \<le> v \<Longrightarrow> v < 1088 \<Longrightarrow> TCLAMP_U8 v = Some (clamp8 v)"
proof -
  assume v: "- 576 \<le> v" "v < 1088"
  have pairs: "length (concat (map (\<lambda>k. [word_of_nat k, word_of_nat k :: 8 word]) [0..<256])) = 512" using length_pairs [of "word_of_nat" 256] by simp
  have all: "length color_tClip = 1664" using pairs by (simp add: color_tClip_def del: map_append)
  define i where "i = nat (576 + v)"
  have i: "i < 1664" "v = int i - 576" using v by (auto simp: i_def)
  have "color_tClip ! i = clamp8 v"
  proof (cases "i < 576")
    case True
    then have "v div 2 \<le> 0" using i by auto
    then show ?thesis using True by (simp add: color_tClip_def nth_append clamp8_def)
  next
    case False
    show ?thesis
    proof (cases "i < 1088")
      case True
      have "color_tClip ! i = word_of_nat ((i - 576) div 2)"
        using False True nth_pairs [of "i - 576" 256 "\<lambda>k. word_of_nat k :: 8 word"] pairs
        by (simp add: color_tClip_def nth_append)
      moreover have "v div 2 = int ((i - 576) div 2)" using i False by (simp add: zdiv_int of_nat_diff)
      moreover have "(i - 576) div 2 \<le> 255" using True by auto
      ultimately show ?thesis by (simp add: clamp8_def)
    next
      case f: False
      then have "255 \<le> v div 2" using i by auto
      moreover have "\<not> i - 576 < 512" using f by simp
      ultimately show ?thesis using False i pairs by (simp add: color_tClip_def nth_append clamp8_def)
    qed
  qed
  moreover have "nat (288 * 2 + v) = i" using v by (simp add: i_def)
  ultimately show ?thesis using i(1) v all by (simp add: TCLAMP_U8_def read_at_def)
qed

lemma sign_word: "signed_drop_bit 31 (x :: 32 word) = (if sint x < 0 then - 1 else 0)"
proof -
  have "bit (signed_drop_bit 31 x) n \<longleftrightarrow> bit x 31" if "n < 32" for n
    using that by (cases n) (auto simp: bit_signed_drop_bit_iff)
  moreover have "bit x 31 \<longleftrightarrow> sint x < 0" using bit_last_iff [of x] by simp
  ultimately show ?thesis by (intro bit_word_eqI) (auto simp: bit_minus_1_iff)
qed

lemma SCLAMP_exact:
  assumes "- 576 \<le> v" "v < 1088" shows "SCLAMP_U8 v = clamp8 v"
proof -
  define w where "w = (word_of_int v :: 32 word)"
  have sint: "sint (word_of_int x :: 32 word) = x" if "- 2000 < x" "x < 2000" for x
    using that by (simp add: signed_of_int signed_take_bit_int_eq_self)
  have w: "sint w = v" "sint (w - 510) = v - 510"
    using sint [of v] sint [of "v - 510"] assms by (simp_all add: w_def)
  consider "v < 0" | "0 \<le> v" "v < 510" | "510 \<le> v" by linarith
  then show ?thesis
  proof cases
    case 1
    then have "v div 2 \<le> 0" by simp
    then show ?thesis using 1 w by (simp add: SCLAMP_U8_def sign_word clamp8_def Let_def w_def [symmetric])
  next
    case 2
    have "uint w = v" using 2 w(1) assms by (simp add: w_def uint_word_of_int_eq take_bit_int_eq_self)
    then have "uint (w div 2) = v div 2" by (simp add: uint_div)
    then have "(ucast (w div 2) :: 8 word) = word_of_int (v div 2)" by (simp add: ucast_eq)
    moreover have "v div 2 < 255" "0 \<le> v div 2" using 2 by auto
    moreover have "drop_bit (Suc 0) w = w div 2" by (simp add: drop_bit_Suc)
    ultimately show ?thesis using 2 w by (simp add: SCLAMP_U8_def sign_word clamp8_def Let_def w_def [symmetric])
  next
    case 3
    then have "255 \<le> v div 2" by auto
    moreover have "(ucast (- 1 :: 32 word) :: 8 word) = 255" by code_simp
    ultimately show ?thesis using 3 w by (simp add: SCLAMP_U8_def sign_word clamp8_def Let_def w_def [symmetric])
  qed
qed

section \<open>Colours\<close>

definition red :: "8 word \<Rightarrow> 8 word \<Rightarrow> int" where
  "red y v = color_tYY ! unat y + color_tRV ! unat v - 446"

definition green :: "8 word \<Rightarrow> 8 word \<Rightarrow> 8 word \<Rightarrow> int" where
  "green y u v = color_tYY ! unat y + color_tGU ! unat u - color_tGV ! unat v"

definition blue :: "8 word \<Rightarrow> 8 word \<Rightarrow> int" where
  "blue y u = color_tYY ! unat y + color_tBU ! unat u - 554"

lemma tables_bounded:
  "list_all (\<lambda>x. 0 \<le> x \<and> x \<le> 594) color_tYY" "list_all (\<lambda>x. 0 \<le> x \<and> x \<le> 814) color_tRV"
  "list_all (\<lambda>x. 71 \<le> x \<and> x \<le> 271) color_tGU" "list_all (\<lambda>x. 0 \<le> x \<and> x \<le> 415) color_tGV"
  "list_all (\<lambda>x. 0 \<le> x \<and> x \<le> 1029) color_tBU"
  by code_simp+

lemma table_bounds:
  fixes b :: "8 word"
  shows "0 \<le> color_tYY ! unat b" "color_tYY ! unat b \<le> 594" "0 \<le> color_tRV ! unat b" "color_tRV ! unat b \<le> 814"
    "71 \<le> color_tGU ! unat b" "color_tGU ! unat b \<le> 271" "0 \<le> color_tGV ! unat b" "color_tGV ! unat b \<le> 415"
    "0 \<le> color_tBU ! unat b" "color_tBU ! unat b \<le> 1029"
  using tables_bounded byte_index [of b] table_lengths by (auto simp: list_all_length)

lemma colour_range:
  "- 576 \<le> red y v" "red y v < 1088" "- 576 \<le> green y u v" "green y u v < 1088" "- 576 \<le> blue y u" "blue y u < 1088"
  unfolding red_def green_def blue_def
  using table_bounds [of y] table_bounds [of u] table_bounds [of v] by linarith+

lemma clamps [simp]:
  "TCLAMP_U8 (red y v) = Some (clamp8 (red y v))" "TCLAMP_U8 (green y u v) = Some (clamp8 (green y u v))"
  "TCLAMP_U8 (blue y u) = Some (clamp8 (blue y u))" "SCLAMP_U8 (green y u v) = clamp8 (green y u v)"
  "SCLAMP_U8 (blue y u) = clamp8 (blue y u)"
  by (simp_all add: TCLAMP_exact SCLAMP_exact colour_range)

section \<open>Writing\<close>

text \<open>The places \<open>W\<close> of the destination hold what \<open>F\<close> says, the others what they held.\<close>

definition written :: "(nat \<Rightarrow> 8 word) \<Rightarrow> 8 word list \<Rightarrow> nat set \<Rightarrow> 8 word list \<Rightarrow> bool" where
  "written F d0 W d \<longleftrightarrow> length d = length d0 \<and> (\<forall>k < length d0. d ! k = (if k \<in> W then F k else d0 ! k))"

lemma written_store:
  "written F d0 W d \<Longrightarrow> p = int n \<Longrightarrow> n < length d0 \<Longrightarrow> b = Some (F n) \<Longrightarrow>
   \<exists>d'. store_byte p b d = Some d' \<and> written F d0 (insert n W) d'"
  by (auto simp: store_byte_def write_at_def written_def nth_list_update)

lemma chroma_luma:
  "chroma su sv = Some (color_tRV ! unat sv - 446, color_tGU ! unat su - color_tGV ! unat sv, color_tBU ! unat su - 554)"
  "s < length y \<Longrightarrow> luma y (int s) = Some (color_tYY ! unat (y ! s))"
  by (simp_all add: chroma_def luma_def read_byte table_lengths read_at_def [of y])

lemma sums:
  "color_tYY ! unat y + (color_tRV ! unat v - 446) = red y v" 
  "color_tYY ! unat y + (color_tGU ! unat u - color_tGV ! unat v) = green y u v"
  "color_tYY ! unat y + (color_tBU ! unat u - 554) = blue y u"
  by (simp_all add: red_def green_def blue_def)

text \<open>What is written for a pixel at \<open>p\<close>, but for its alpha.\<close>

definition pixel :: "(nat \<Rightarrow> 8 word) \<Rightarrow> nat \<Rightarrow> 8 word \<Rightarrow> 8 word \<Rightarrow> 8 word \<Rightarrow> bool" where
  "pixel F p y u v \<longleftrightarrow> F p = clamp8 (blue y u) \<and> F (p + 1) = clamp8 (green y u v) \<and> F (p + 2) = clamp8 (red y v)"

primrec stores :: "(int \<times> 8 word option) list \<Rightarrow> 8 word list \<Rightarrow> 8 word list option" where
  "stores [] d = Some d"
| "stores (w # ws) d = do { d \<leftarrow> store_byte (fst w) (snd w) d; stores ws d }"

lemma stores_written:
  assumes "written F d0 W d" "\<forall>n \<in> set ns. n < length d0"
  shows "returns (stores (map (\<lambda>n. (int n, Some (F n))) ns) d) (written F d0 (W \<union> set ns))"
  using assms
proof (induction ns arbitrary: d W)
  case (Cons n ns)
  obtain d' where d': "store_byte (int n) (Some (F n)) d = Some d'" "written F d0 (insert n W) d'"
    using written_store [OF Cons.prems(1) refl _ refl, of n] Cons.prems(2) by auto
  have "returns (stores (map (\<lambda>n. (int n, Some (F n))) ns) d') (written F d0 (insert n W \<union> set ns))"
    using Cons.IH [OF d'(2)] Cons.prems(2) by simp
  then show ?case using d'(1) by simp
qed simp

definition block_places :: "nat \<Rightarrow> nat set" where
  "block_places p = {p, p + 1, p + 2, p + 4, p + 5, p + 6}"

lemma block_written:
  assumes "written F d0 W d" "p1 + 8 \<le> length d0" "p2 + 8 \<le> length d0" "su < length u" "sv < length v" "s1 + 1 < length y" "s2 + 1 < length y"
    and "pixel F p1 (y ! s1) (u ! su) (v ! sv)" "pixel F (p1 + 4) (y ! (s1 + 1)) (u ! su) (v ! sv)"
    and "pixel F p2 (y ! s2) (u ! su) (v ! sv)" "pixel F (p2 + 4) (y ! (s2 + 1)) (u ! su) (v ! sv)"
  shows "returns (block_420 y u v (int s1) (int s2) (int su) (int sv) (int p1) (int p2) d)
    (written F d0 (W \<union> block_places p1 \<union> block_places p2))"
proof -
  have r: "read_at u (int su) = Some (u ! su)" "read_at v (int sv) = Some (v ! sv)" using assms(4,5) by (simp_all add: read_at_def)
  have l: "luma y (int s1) = Some (color_tYY ! unat (y ! s1))" "luma y (int s1 + 1) = Some (color_tYY ! unat (y ! (s1 + 1)))"
    "luma y (int s2) = Some (color_tYY ! unat (y ! s2))" "luma y (int s2 + 1) = Some (color_tYY ! unat (y ! (s2 + 1)))"
    using chroma_luma(2) [of s1 y] chroma_luma(2) [of "s1 + 1" y] chroma_luma(2) [of s2 y] chroma_luma(2) [of "s2 + 1" y] assms(6,7)
    by (simp_all add: algebra_simps)
  have four: "p + 4 + 1 = p + 5" "p + 4 + 2 = p + 6" for p :: nat by simp_all
  note px = assms(8-11) [unfolded pixel_def four]
  have comm: "2 + int p = int p + 2" "1 + int p = int p + 1" for p by simp_all
  let ?ns = "[p1 + 2, p1 + 1, p1, p1 + 6, p1 + 5, p1 + 4, p2 + 2, p2 + 1, p2, p2 + 6, p2 + 5, p2 + 4]"
  have "block_420 y u v (int s1) (int s2) (int su) (int sv) (int p1) (int p2) d = stores (map (\<lambda>n. (int n, Some (F n))) ?ns) d"
    using px by (simp add: block_420_def r l chroma_luma(1) sums comm)
  moreover have "set ?ns = block_places p1 \<union> block_places p2" by (auto simp: block_places_def)
  moreover have "\<forall>n \<in> set ?ns. n < length d0" using assms(2,3) by simp
  ultimately show ?thesis using stores_written [OF assms(1), of ?ns] by (simp only: Un_assoc)
qed

lemma columns_written:
  assumes "written F d0 W d"
    and "\<And>m W d. i \<le> m \<Longrightarrow> m < i + n \<Longrightarrow> written F d0 W d \<Longrightarrow>
      returns (do { d \<leftarrow> block_420 y u v (int (s1 + 2 * m)) (int (s2 + 2 * m)) (int (su + m)) (int (sv + m)) (int (p1 + 8 * m)) (int (p2 + 8 * m)) d;
           alpha (int (c1 + 2 * m)) (int (c2 + 2 * m)) (int (p1 + 8 * m)) (int (p2 + 8 * m)) d })
        (written F d0 (W \<union> {p1 + 8 * m..<p1 + 8 * m + 8} \<union> {p2 + 8 * m..<p2 + 8 * m + 8}))"
  shows "returns (columns_420 alpha y u v n (int (s1 + 2 * i)) (int (s2 + 2 * i)) (int (su + i)) (int (sv + i))
      (int (p1 + 8 * i)) (int (p2 + 8 * i)) (int (c1 + 2 * i)) (int (c2 + 2 * i)) d)
    (written F d0 (W \<union> {p1 + 8 * i..<p1 + 8 * (i + n)} \<union> {p2 + 8 * i..<p2 + 8 * (i + n)}))"
  using assms
proof (induction n arbitrary: i W d)
  case (Suc n)
  let ?V = "W \<union> {p1 + 8 * i..<p1 + 8 * i + 8} \<union> {p2 + 8 * i..<p2 + 8 * i + 8}"
  let ?step = "do { d \<leftarrow> block_420 y u v (int (s1 + 2 * i)) (int (s2 + 2 * i)) (int (su + i)) (int (sv + i)) (int (p1 + 8 * i)) (int (p2 + 8 * i)) d;
      alpha (int (c1 + 2 * i)) (int (c2 + 2 * i)) (int (p1 + 8 * i)) (int (p2 + 8 * i)) d }"
  have step: "returns ?step (written F d0 ?V)" using Suc.prems by auto
  have rest: "returns (columns_420 alpha y u v n (int (s1 + 2 * Suc i)) (int (s2 + 2 * Suc i)) (int (su + Suc i)) (int (sv + Suc i))
      (int (p1 + 8 * Suc i)) (int (p2 + 8 * Suc i)) (int (c1 + 2 * Suc i)) (int (c2 + 2 * Suc i)) d')
    (written F d0 (?V \<union> {p1 + 8 * Suc i..<p1 + 8 * (Suc i + n)} \<union> {p2 + 8 * Suc i..<p2 + 8 * (Suc i + n)}))"
    if "written F d0 ?V d'" for d'
    using that Suc.prems(2) by (intro Suc.IH) auto
  have split: "?V \<union> {p1 + 8 * Suc i..<p1 + 8 * (Suc i + n)} \<union> {p2 + 8 * Suc i..<p2 + 8 * (Suc i + n)} =
    W \<union> {p1 + 8 * i..<p1 + 8 * (i + Suc n)} \<union> {p2 + 8 * i..<p2 + 8 * (i + Suc n)}" by auto
  have "columns_420 alpha y u v (Suc n) (int (s1 + 2 * i)) (int (s2 + 2 * i)) (int (su + i)) (int (sv + i))
      (int (p1 + 8 * i)) (int (p2 + 8 * i)) (int (c1 + 2 * i)) (int (c2 + 2 * i)) d = do { d \<leftarrow> ?step;
    columns_420 alpha y u v n (int (s1 + 2 * Suc i)) (int (s2 + 2 * Suc i)) (int (su + Suc i)) (int (sv + Suc i))
      (int (p1 + 8 * Suc i)) (int (p2 + 8 * Suc i)) (int (c1 + 2 * Suc i)) (int (c2 + 2 * Suc i)) d }"
    by (simp add: algebra_simps)
  then show ?case using returns_bindI [OF step rest] by (simp only: split)
qed simp

lemma rows_written:
  assumes "written F d0 W d" "st = \<lparr>y_stride = int ys, v_stride = int vs, u_stride = int us, a_stride = int as, bgra_stride = int bs\<rparr>"
    and "\<And>m W d. j \<le> m \<Longrightarrow> m < j + n \<Longrightarrow> written F d0 W d \<Longrightarrow>
      returns (columns_420 alpha y u v w (int (2 * m * ys)) (int (2 * m * ys + ys)) (int (m * us)) (int (m * vs))
          (int (2 * m * bs)) (int (2 * m * bs + bs)) (int (2 * m * as)) (int (2 * m * as + as)) d)
        (written F d0 (W \<union> A m))"
  shows "returns (rows_420 alpha y u v st w n (int (2 * j * ys)) (int (2 * j * ys + ys)) (int (j * us)) (int (j * vs))
      (int (2 * j * bs)) (int (2 * j * bs + bs)) (int (2 * j * as)) (int (2 * j * as + as)) d)
    (written F d0 (W \<union> (\<Union>m \<in> {j..<j + n}. A m)))"
  using assms(1,3)
proof (induction n arbitrary: j W d)
  case (Suc n)
  have step: "returns (columns_420 alpha y u v w (int (2 * j * ys)) (int (2 * j * ys + ys)) (int (j * us)) (int (j * vs))
          (int (2 * j * bs)) (int (2 * j * bs + bs)) (int (2 * j * as)) (int (2 * j * as + as)) d)
        (written F d0 (W \<union> A j))" using Suc.prems by auto
  have rest: "returns (rows_420 alpha y u v st w n (int (2 * Suc j * ys)) (int (2 * Suc j * ys + ys)) (int (Suc j * us)) (int (Suc j * vs))
      (int (2 * Suc j * bs)) (int (2 * Suc j * bs + bs)) (int (2 * Suc j * as)) (int (2 * Suc j * as + as)) d')
    (written F d0 (W \<union> A j \<union> (\<Union>m \<in> {Suc j..<Suc j + n}. A m)))" if "written F d0 (W \<union> A j) d'" for d'
    using that Suc.prems(2) by (intro Suc.IH) auto
  have "{j..<j + Suc n} = insert j {Suc j..<Suc j + n}" by auto
  then have split: "W \<union> A j \<union> (\<Union>m \<in> {Suc j..<Suc j + n}. A m) = W \<union> (\<Union>m \<in> {j..<j + Suc n}. A m)" by auto
  show ?case using returns_bindI [OF step rest] unfolding split by (simp add: assms(2) algebra_simps)
qed simp

section \<open>Frames\<close>

definition colour_byte :: "8 word \<Rightarrow> 8 word \<Rightarrow> 8 word \<Rightarrow> 8 word \<Rightarrow> nat \<Rightarrow> 8 word" where
  "colour_byte y u v a c = (if c = 0 then clamp8 (blue y u) else if c = 1 then clamp8 (green y u v)
     else if c = 2 then clamp8 (red y v) else a)"

text \<open>The planes with the distances of their rows; a sample of colour serves two by two pixels.\<close>

record planes =
  plane_y :: "8 word list"
  plane_u :: "8 word list"
  plane_v :: "8 word list"
  step_y :: nat
  step_u :: nat
  step_v :: nat
  step_d :: nat

text \<open>Byte \<open>k\<close> of the picture, from the row, the column and the component that \<open>k\<close> stands for.\<close>

definition bgra_420 :: "planes \<Rightarrow> (nat \<Rightarrow> nat \<Rightarrow> 8 word) \<Rightarrow> nat \<Rightarrow> 8 word" where
  "bgra_420 s a k =
     (let r = k div step_d s; x = k mod step_d s div 4
      in colour_byte (plane_y s ! (r * step_y s + x)) (plane_u s ! (r div 2 * step_u s + x div 2))
           (plane_v s ! (r div 2 * step_v s + x div 2)) (a r x) (k mod step_d s mod 4))"

definition planes_fit :: "planes \<Rightarrow> nat \<Rightarrow> nat \<Rightarrow> 8 word list \<Rightarrow> bool" where
  "planes_fit s w h d \<longleftrightarrow> 8 * w \<le> step_d s \<and> (2 * h - 1) * step_d s + 8 * w \<le> length d \<and>
     (2 * h - 1) * step_y s + 2 * w \<le> length (plane_y s) \<and> (h - 1) * step_u s + w \<le> length (plane_u s) \<and>
     (h - 1) * step_v s + w \<le> length (plane_v s)"

lemma bgra_at:
  assumes "c < 4" "4 * x + 4 \<le> step_d s"
  shows "bgra_420 s a (r * step_d s + 4 * x + c) = colour_byte (plane_y s ! (r * step_y s + x)) (plane_u s ! (r div 2 * step_u s + x div 2))
           (plane_v s ! (r div 2 * step_v s + x div 2)) (a r x) c"
proof -
  have "(r * step_d s + 4 * x + c) div step_d s = r" "(r * step_d s + 4 * x + c) mod step_d s = 4 * x + c"
    using assms by (simp_all add: add.assoc div_mult_self3)
  moreover have "(4 * x + c) div 4 = x" "(4 * x + c) mod 4 = c" using assms by simp_all
  ultimately show ?thesis by (simp only: bgra_420_def Let_def)
qed

lemma bgra_pixel:
  assumes "4 * x + 4 \<le> step_d s" "p = r * step_d s + 4 * x"
  shows "pixel (bgra_420 s a) p (plane_y s ! (r * step_y s + x)) (plane_u s ! (r div 2 * step_u s + x div 2)) (plane_v s ! (r div 2 * step_v s + x div 2))"
    "bgra_420 s a (p + 3) = a r x"
  using bgra_at [OF _ assms(1), of 0 a r] bgra_at [OF _ assms(1), of 1 a r] bgra_at [OF _ assms(1), of 2 a r] bgra_at [OF _ assms(1), of 3 a r] assms(2)
  by (simp_all add: pixel_def colour_byte_def)

lemma eight: "{p..<p + 8} = {p, p + 1, p + 2, p + 3, p + 4, p + 5, p + 6, p + 7 :: nat}"
  by auto

lemma below: "j < h \<Longrightarrow> (h - 1) * a + w \<le> n \<Longrightarrow> m < w \<Longrightarrow> j * a + m < (n :: nat)"
proof -
  assume "j < h" "(h - 1) * a + w \<le> n" "m < w"
  moreover from this have "j * a \<le> (h - 1) * a" by (intro mult_le_mono1) simp
  ultimately show ?thesis by linarith
qed

lemma rows_below:
  assumes "j < h" "(2 * h - 1) * a + w \<le> n" "m < w" shows "2 * j * a + m < (n :: nat)" "2 * j * a + a + m < n"
proof -
  have "2 * j * a \<le> (2 * h - 1) * a" "(2 * j + 1) * a \<le> (2 * h - 1) * a" using assms(1) by (intro mult_le_mono1; simp)+
  then show "2 * j * a + m < n" "2 * j * a + a + m < n" using assms(2,3) by (simp_all add: algebra_simps)
qed

text \<open>\<open>alpha\<close> writes the four bytes of alpha of a block as \<open>a\<close> says.\<close>

definition writes_alpha :: "alpha_writer \<Rightarrow> planes \<Rightarrow> nat \<Rightarrow> (nat \<Rightarrow> nat \<Rightarrow> 8 word) \<Rightarrow> nat \<Rightarrow> nat \<Rightarrow> 8 word list \<Rightarrow> bool" where
  "writes_alpha alpha s as a w h d0 \<longleftrightarrow> (\<forall>j m W d. j < h \<longrightarrow> m < w \<longrightarrow> written (bgra_420 s a) d0 W d \<longrightarrow>
     returns (alpha (int (2 * j * as + 2 * m)) (int (2 * j * as + as + 2 * m))
         (int (2 * j * step_d s + 8 * m)) (int (2 * j * step_d s + step_d s + 8 * m)) d)
       (written (bgra_420 s a) d0 (W \<union>
         {2 * j * step_d s + 8 * m + 3, 2 * j * step_d s + 8 * m + 7, 2 * j * step_d s + step_d s + 8 * m + 3, 2 * j * step_d s + step_d s + 8 * m + 7})))"

lemma cell_pixels:
  assumes "8 * w \<le> step_d s" "m < w" "p1 = 2 * j * step_d s + 8 * m" "p2 = 2 * j * step_d s + step_d s + 8 * m"
  shows "pixel (bgra_420 s a) p1 (plane_y s ! (2 * j * step_y s + 2 * m)) (plane_u s ! (j * step_u s + m)) (plane_v s ! (j * step_v s + m))"
    "pixel (bgra_420 s a) (p1 + 4) (plane_y s ! (2 * j * step_y s + 2 * m + 1)) (plane_u s ! (j * step_u s + m)) (plane_v s ! (j * step_v s + m))"
    "pixel (bgra_420 s a) p2 (plane_y s ! (2 * j * step_y s + step_y s + 2 * m)) (plane_u s ! (j * step_u s + m)) (plane_v s ! (j * step_v s + m))"
    "pixel (bgra_420 s a) (p2 + 4) (plane_y s ! (2 * j * step_y s + step_y s + 2 * m + 1)) (plane_u s ! (j * step_u s + m)) (plane_v s ! (j * step_v s + m))"
    "bgra_420 s a (p1 + 3) = a (2 * j) (2 * m)" "bgra_420 s a (p1 + 7) = a (2 * j) (2 * m + 1)"
    "bgra_420 s a (p2 + 3) = a (2 * j + 1) (2 * m)" "bgra_420 s a (p2 + 7) = a (2 * j + 1) (2 * m + 1)"
proof -
  have fit: "4 * (2 * m) + 4 \<le> step_d s" "4 * (2 * m + 1) + 4 \<le> step_d s" using assms(1,2) by presburger+
  have p: "p1 = (2 * j) * step_d s + 4 * (2 * m)" "p1 + 4 = (2 * j) * step_d s + 4 * (2 * m + 1)"
    "p2 = (2 * j + 1) * step_d s + 4 * (2 * m)" "p2 + 4 = (2 * j + 1) * step_d s + 4 * (2 * m + 1)"
    using assms(3,4) by (simp_all add: algebra_simps)
  have d: "2 * j div 2 = j" "(2 * j + 1) div 2 = j" "2 * m div 2 = m" "(2 * m + 1) div 2 = m" by simp_all
  have y: "(2 * j + 1) * step_y s + 2 * m = 2 * j * step_y s + step_y s + 2 * m"
    "(2 * j + 1) * step_y s + (2 * m + 1) = 2 * j * step_y s + step_y s + 2 * m + 1"
    "2 * j * step_y s + (2 * m + 1) = 2 * j * step_y s + 2 * m + 1" by (simp_all add: algebra_simps)
  have q: "p1 + 7 = p1 + 4 + 3" "p2 + 7 = p2 + 4 + 3" by simp_all
  note px = bgra_pixel [OF fit(1) p(1), of a] bgra_pixel [OF fit(2) p(2), of a] bgra_pixel [OF fit(1) p(3), of a] bgra_pixel [OF fit(2) p(4), of a]
  show "pixel (bgra_420 s a) p1 (plane_y s ! (2 * j * step_y s + 2 * m)) (plane_u s ! (j * step_u s + m)) (plane_v s ! (j * step_v s + m))"
    "pixel (bgra_420 s a) (p1 + 4) (plane_y s ! (2 * j * step_y s + 2 * m + 1)) (plane_u s ! (j * step_u s + m)) (plane_v s ! (j * step_v s + m))"
    "pixel (bgra_420 s a) p2 (plane_y s ! (2 * j * step_y s + step_y s + 2 * m)) (plane_u s ! (j * step_u s + m)) (plane_v s ! (j * step_v s + m))"
    "pixel (bgra_420 s a) (p2 + 4) (plane_y s ! (2 * j * step_y s + step_y s + 2 * m + 1)) (plane_u s ! (j * step_u s + m)) (plane_v s ! (j * step_v s + m))"
    "bgra_420 s a (p1 + 3) = a (2 * j) (2 * m)" "bgra_420 s a (p1 + 7) = a (2 * j) (2 * m + 1)"
    "bgra_420 s a (p2 + 3) = a (2 * j + 1) (2 * m)" "bgra_420 s a (p2 + 7) = a (2 * j + 1) (2 * m + 1)"
    using px unfolding d y q by (simp_all only:)
qed

lemma cell_written:
  assumes "planes_fit s w h d0" "writes_alpha alpha s as a w h d0" "j < h" "m < w" "written (bgra_420 s a) d0 W d"
  shows "returns (do { d \<leftarrow> block_420 (plane_y s) (plane_u s) (plane_v s) (int (2 * j * step_y s + 2 * m)) (int (2 * j * step_y s + step_y s + 2 * m))
        (int (j * step_u s + m)) (int (j * step_v s + m)) (int (2 * j * step_d s + 8 * m)) (int (2 * j * step_d s + step_d s + 8 * m)) d;
      alpha (int (2 * j * as + 2 * m)) (int (2 * j * as + as + 2 * m)) (int (2 * j * step_d s + 8 * m)) (int (2 * j * step_d s + step_d s + 8 * m)) d })
    (written (bgra_420 s a) d0 (W \<union> {2 * j * step_d s + 8 * m..<2 * j * step_d s + 8 * m + 8} \<union>
      {2 * j * step_d s + step_d s + 8 * m..<2 * j * step_d s + step_d s + 8 * m + 8}))"
proof -
  define p1 p2 where p: "p1 = 2 * j * step_d s + 8 * m" "p2 = 2 * j * step_d s + step_d s + 8 * m"
  note fit = assms(1) [unfolded planes_fit_def]
  have su: "j * step_u s + m < length (plane_u s)" "j * step_v s + m < length (plane_v s)"
    using fit below [OF assms(3) _ assms(4)] by blast+
  have sy: "2 * j * step_y s + 2 * m + 1 < length (plane_y s)" "2 * j * step_y s + step_y s + 2 * m + 1 < length (plane_y s)"
    using fit rows_below [OF assms(3), of "step_y s" "2 * w" "length (plane_y s)" "2 * m + 1"] assms(4) by (simp_all add: add.assoc)
  have sd: "p1 + 8 \<le> length d0" "p2 + 8 \<le> length d0"
    using fit rows_below [OF assms(3), of "step_d s" "8 * w" "length d0" "8 * m + 7"] assms(4) by (simp_all add: p add.assoc)
  have px: "8 * w \<le> step_d s" using fit by simp
  note px = cell_pixels [OF px assms(4) p, of a]
  have block: "returns (block_420 (plane_y s) (plane_u s) (plane_v s) (int (2 * j * step_y s + 2 * m)) (int (2 * j * step_y s + step_y s + 2 * m))
        (int (j * step_u s + m)) (int (j * step_v s + m)) (int p1) (int p2) d)
      (written (bgra_420 s a) d0 (W \<union> block_places p1 \<union> block_places p2))"
    by (rule block_written [OF assms(5) sd su sy px(1-4)])
  have places: "W \<union> block_places p1 \<union> block_places p2 \<union> {p1 + 3, p1 + 7, p2 + 3, p2 + 7} = W \<union> {p1..<p1 + 8} \<union> {p2..<p2 + 8}"
    unfolding eight block_places_def by blast
  have "returns (alpha (int (2 * j * as + 2 * m)) (int (2 * j * as + as + 2 * m)) (int p1) (int p2) d')
      (written (bgra_420 s a) d0 (W \<union> {p1..<p1 + 8} \<union> {p2..<p2 + 8}))"
    if "written (bgra_420 s a) d0 (W \<union> block_places p1 \<union> block_places p2) d'" for d'
    using assms(2) [unfolded writes_alpha_def, rule_format, OF assms(3,4) that] unfolding places [symmetric] by (simp only: p)
  then show ?thesis unfolding p [symmetric] by (rule returns_bindI [OF block])
qed

lemma in_row: "8 * w \<le> b \<Longrightarrow> k \<in> {r * b..<r * b + 8 * w} \<longleftrightarrow> k div b = r \<and> k mod b < 8 * (w :: nat)"
proof
  assume w: "8 * w \<le> b" and "k \<in> {r * b..<r * b + 8 * w}"
  then obtain c where "k = r * b + c" "c < 8 * w" by (metis add_less_cancel_left atLeastLessThan_iff le_Suc_ex)
  with w show "k div b = r \<and> k mod b < 8 * w" by simp
next
  assume "k div b = r \<and> k mod b < 8 * w"
  then have "k = r * b + k mod b" "k mod b < 8 * w" by auto
  then show "k \<in> {r * b..<r * b + 8 * w}" by simp
qed

lemma in_rows:
  assumes "8 * w \<le> b"
  shows "k \<in> (\<Union>j \<in> {0..<h}. {2 * j * b..<2 * j * b + 8 * w} \<union> {2 * j * b + b..<2 * j * b + b + 8 * w}) \<longleftrightarrow>
    k div b < 2 * h \<and> k mod b < 8 * (w :: nat)"
proof -
  have "2 * j * b + b = (2 * j + 1) * b" for j by simp
  then have "k \<in> {2 * j * b..<2 * j * b + 8 * w} \<union> {2 * j * b + b..<2 * j * b + b + 8 * w} \<longleftrightarrow>
      (k div b = 2 * j \<or> k div b = 2 * j + 1) \<and> k mod b < 8 * w" for j
    using in_row [OF assms, of k "2 * j"] in_row [OF assms, of k "2 * j + 1"] by (simp only: Un_iff) blast
  then have "k \<in> (\<Union>j \<in> {0..<h}. {2 * j * b..<2 * j * b + 8 * w} \<union> {2 * j * b + b..<2 * j * b + b + 8 * w}) \<longleftrightarrow>
      (\<exists>j < h. k div b = 2 * j \<or> k div b = 2 * j + 1) \<and> k mod b < 8 * w" by (simp only: UN_iff) auto
  moreover have "(\<exists>j < h. n = 2 * j \<or> n = 2 * j + 1) \<longleftrightarrow> n < 2 * h" for n by presburger
  ultimately show ?thesis by simp
qed

lemma rows_exact:
  assumes "planes_fit s w h d" "writes_alpha alpha s as a w h d"
    and "st = \<lparr>y_stride = int (step_y s), v_stride = int (step_v s), u_stride = int (step_u s), a_stride = int as, bgra_stride = int (step_d s)\<rparr>"
  shows "returns (rows_420 alpha (plane_y s) (plane_u s) (plane_v s) st w h 0 (int (step_y s)) 0 0 0 (int (step_d s)) 0 (int as) d)
    (\<lambda>d'. length d' = length d \<and> (\<forall>k < length d. d' ! k =
      (if k div step_d s < 2 * h \<and> k mod step_d s < 8 * w then bgra_420 s a k else d ! k)))"
proof -
  let ?A = "\<lambda>j. {2 * j * step_d s..<2 * j * step_d s + 8 * w} \<union> {2 * j * step_d s + step_d s..<2 * j * step_d s + step_d s + 8 * w}"
  have start: "written (bgra_420 s a) d {} d" by (simp add: written_def)
  have row: "returns (columns_420 alpha (plane_y s) (plane_u s) (plane_v s) w (int (2 * j * step_y s)) (int (2 * j * step_y s + step_y s))
        (int (j * step_u s)) (int (j * step_v s)) (int (2 * j * step_d s)) (int (2 * j * step_d s + step_d s)) (int (2 * j * as)) (int (2 * j * as + as)) e)
      (written (bgra_420 s a) d (W \<union> ?A j))" if "j < h" "written (bgra_420 s a) d W e" for j W e
  proof -
    note cell = cell_written [OF assms(1,2) that(1)]
    from columns_written [where i = 0 and n = w and ?s1.0 = "2 * j * step_y s" and ?s2.0 = "2 * j * step_y s + step_y s"
        and su = "j * step_u s" and sv = "j * step_v s" and ?p1.0 = "2 * j * step_d s" and ?p2.0 = "2 * j * step_d s + step_d s"
        and ?c1.0 = "2 * j * as" and ?c2.0 = "2 * j * as + as" and alpha = alpha and y = "plane_y s" and u = "plane_u s" and v = "plane_v s",
        OF that(2)]
    show ?thesis using cell by (simp only: mult_0_right add_0_right add_0 Un_assoc)
  qed
  have all: "returns (rows_420 alpha (plane_y s) (plane_u s) (plane_v s) st w h 0 (int (step_y s)) 0 0 0 (int (step_d s)) 0 (int as) d)
      (written (bgra_420 s a) d (\<Union>j \<in> {0..<h}. ?A j))"
    using rows_written [OF start assms(3), of 0 h] row by simp
  have "k \<in> (\<Union>j \<in> {0..<h}. ?A j) \<longleftrightarrow> k div step_d s < 2 * h \<and> k mod step_d s < 8 * w" for k
    by (rule in_rows) (use assms(1) in \<open>simp add: planes_fit_def\<close>)
  then show ?thesis by (intro returns_conseq [OF all]) (simp add: written_def)
qed
lemma opaque_writes: "writes_alpha (\<lambda>_ _. opaque_420) s as (\<lambda>_ _. 255) w h d" if fit: "planes_fit s w h d"
  unfolding writes_alpha_def
proof (intro allI impI)
  fix j m W e assume jm: "j < h" "m < w" and W: "written (bgra_420 s (\<lambda>_ _. 255)) d W e"
  define p1 p2 where p: "p1 = 2 * j * step_d s + 8 * m" "p2 = 2 * j * step_d s + step_d s + 8 * m"
  note fits = fit [unfolded planes_fit_def]
  then have "8 * w \<le> step_d s" by simp
  note px = cell_pixels(5-8) [OF this jm(2) p, of "\<lambda>_ _. 255"]
  have sd: "p1 + 8 \<le> length d" "p2 + 8 \<le> length d"
    using fits rows_below [OF jm(1), of "step_d s" "8 * w" "length d" "8 * m + 7"] jm(2) by (simp_all add: p add.assoc)
  let ?F = "bgra_420 s (\<lambda>_ _. 255)"
  have "opaque_420 (int p1) (int p2) e = stores (map (\<lambda>n. (int n, Some (?F n))) [p2 + 7, p2 + 3, p1 + 7, p1 + 3]) e"
    using px by (simp add: opaque_420_def)
  moreover have "set [p2 + 7, p2 + 3, p1 + 7, p1 + 3] = {p1 + 3, p1 + 7, p2 + 3, p2 + 7}" by auto
  moreover have "\<forall>n \<in> set [p2 + 7, p2 + 3, p1 + 7, p1 + 3]. n < length d" using sd by simp
  ultimately show "returns (opaque_420 (int (2 * j * step_d s + 8 * m)) (int (2 * j * step_d s + step_d s + 8 * m)) e)
      (written ?F d (W \<union> {2 * j * step_d s + 8 * m + 3, 2 * j * step_d s + 8 * m + 7,
        2 * j * step_d s + step_d s + 8 * m + 3, 2 * j * step_d s + step_d s + 8 * m + 7}))"
    using stores_written [OF W, of "[p2 + 7, p2 + 3, p1 + 7, p1 + 3]"] by (simp only: p)
qed

lemma alpha_writes:
  assumes fit: "planes_fit s w h d" and a: "(2 * h - 1) * as + 2 * w \<le> length a"
  shows "writes_alpha (alpha_420 a) s as (\<lambda>r x. a ! (r * as + x)) w h d"
  unfolding writes_alpha_def
proof (intro allI impI)
  let ?al = "\<lambda>r x. a ! (r * as + x)"
  fix j m W e assume jm: "j < h" "m < w" and W: "written (bgra_420 s ?al) d W e"
  define p1 p2 where p: "p1 = 2 * j * step_d s + 8 * m" "p2 = 2 * j * step_d s + step_d s + 8 * m"
  define c1 c2 where c: "c1 = 2 * j * as + 2 * m" "c2 = 2 * j * as + as + 2 * m"
  note fits = fit [unfolded planes_fit_def]
  then have "8 * w \<le> step_d s" by simp
  note px = cell_pixels(5-8) [OF this jm(2) p, of ?al]
  have sd: "p1 + 8 \<le> length d" "p2 + 8 \<le> length d"
    using fits rows_below [OF jm(1), of "step_d s" "8 * w" "length d" "8 * m + 7"] jm(2) by (simp_all add: p add.assoc)
  have sa: "c1 + 1 < length a" "c2 + 1 < length a"
    using a rows_below [OF jm(1), of as "2 * w" "length a" "2 * m + 1"] jm(2) by (simp_all add: c add.assoc)
  have al: "2 * j * as + 2 * m = c1" "2 * j * as + (2 * m + 1) = c1 + 1" "(2 * j + 1) * as + 2 * m = c2" "(2 * j + 1) * as + (2 * m + 1) = c2 + 1"
    by (simp_all add: c algebra_simps)
  let ?F = "bgra_420 s ?al"
  have r: "read_at a (int c1) = Some (a ! c1)" "read_at a (int c1 + 1) = Some (a ! (c1 + 1))"
    "read_at a (int c2) = Some (a ! c2)" "read_at a (int c2 + 1) = Some (a ! (c2 + 1))"
    using sa by (simp_all add: read_at_def nat_add_distrib)
  have "alpha_420 a (int c1) (int c2) (int p1) (int p2) e = stores (map (\<lambda>n. (int n, Some (?F n))) [p1 + 3, p1 + 7, p2 + 3, p2 + 7]) e"
    using px [unfolded al] by (simp add: alpha_420_def r)
  moreover have "set [p1 + 3, p1 + 7, p2 + 3, p2 + 7] = {p1 + 3, p1 + 7, p2 + 3, p2 + 7}" by auto
  moreover have "\<forall>n \<in> set [p1 + 3, p1 + 7, p2 + 3, p2 + 7]. n < length d" using sd by simp
  ultimately show "returns (alpha_420 a (int (2 * j * as + 2 * m)) (int (2 * j * as + as + 2 * m))
        (int (2 * j * step_d s + 8 * m)) (int (2 * j * step_d s + step_d s + 8 * m)) e)
      (written ?F d (W \<union> {2 * j * step_d s + 8 * m + 3, 2 * j * step_d s + 8 * m + 7,
        2 * j * step_d s + step_d s + 8 * m + 3, 2 * j * step_d s + step_d s + 8 * m + 7}))"
    using stores_written [OF W, of "[p1 + 3, p1 + 7, p2 + 3, p2 + 7]"] by (simp only: p c)
qed

definition strides_of :: "planes \<Rightarrow> nat \<Rightarrow> strides" where
  "strides_of s as = \<lparr>y_stride = int (step_y s), v_stride = int (step_v s), u_stride = int (step_u s), a_stride = int as, bgra_stride = int (step_d s)\<rparr>"

definition picture :: "planes \<Rightarrow> (nat \<Rightarrow> nat \<Rightarrow> 8 word) \<Rightarrow> nat \<Rightarrow> nat \<Rightarrow> 8 word list \<Rightarrow> 8 word list \<Rightarrow> bool" where
  "picture s a w h d d' \<longleftrightarrow> length d' = length d \<and>
     (\<forall>k < length d. d' ! k = (if k div step_d s < 2 * h \<and> k mod step_d s < 8 * w then bgra_420 s a k else d ! k))"

text \<open>
  C27: a frame of 4:2:0 video becomes exactly its picture. With planes and a destination that are large enough and an
  even size, both conversions succeed without an access outside the buffers; each pixel of the picture has blue, green and red from the
  brightness of its place and the colour of its block of two by two, and its alpha from the plane of alpha or opaque;
  every other byte of the destination (behind the end of a row, or behind the last row) keeps its value.
\<close>

theorem conversion_exact:
  assumes "planes_fit s w h d" "0 < w" "0 < h" "(2 * h - 1) * as + 2 * w \<le> length a"
  shows "returns (ColorConvert_YCbCr420p_to_BGRA32 (Some d) (int (2 * w)) (int (2 * h)) (Some (plane_y s)) (Some (plane_v s)) (Some (plane_u s))
      (Some a) (strides_of s as)) (\<lambda>(r, out). r = 0 \<and> (\<exists>d'. out = Some d' \<and> picture s (\<lambda>r x. a ! (r * as + x)) w h d d')) \<and>
    returns (ColorConvert_YCbCr420p_to_BGRA32_no_alpha (Some d) (int (2 * w)) (int (2 * h)) (Some (plane_y s)) (Some (plane_v s)) (Some (plane_u s))
      (strides_of s as)) (\<lambda>(r, out). r = 0 \<and> (\<exists>d'. out = Some d' \<and> picture s (\<lambda>_ _. 255) w h d d'))"
proof -
  have size: "nat (drop_bit 1 (int (2 * n))) = n" for n by (simp add: drop_bit_Suc)
  have even: "(int (2 * w) OR int (2 * h)) AND 1 = 0" by (simp add: and_one_eq even_or_iff)
  have st: "y_stride (strides_of s as) = int (step_y s)" "bgra_stride (strides_of s as) = int (step_d s)" "a_stride (strides_of s as) = int as"
    by (simp_all add: strides_of_def)
  obtain d1 where d1: "rows_420 (alpha_420 a) (plane_y s) (plane_u s) (plane_v s) (strides_of s as) w h 0 (int (step_y s)) 0 0 0 (int (step_d s)) 0 (int as) d = Some d1"
    "picture s (\<lambda>r x. a ! (r * as + x)) w h d d1"
    using rows_exact [OF assms(1) alpha_writes [OF assms(1,4)] strides_of_def] by (auto simp: picture_def elim!: returnsE)
  obtain d2 where d2: "rows_420 (\<lambda>_ _. opaque_420) (plane_y s) (plane_u s) (plane_v s) (strides_of s as) w h 0 (int (step_y s)) 0 0 0 (int (step_d s)) 0 (int as) d = Some d2"
    "picture s (\<lambda>_ _. 255) w h d d2"
    using rows_exact [OF assms(1) opaque_writes [OF assms(1)] strides_of_def [of s as]] by (auto simp: picture_def elim!: returnsE)
  show ?thesis
    using d1 d2 assms(2,3) even size
    by (simp add: ColorConvert_YCbCr420p_to_BGRA32_def ColorConvert_YCbCr420p_to_BGRA32_no_alpha_def st del: of_nat_mult)
qed

definition small_planes :: planes where
  "small_planes = \<lparr>plane_y = [16, 16, 16, 16], plane_u = [128], plane_v = [128], step_y = 2, step_u = 1, step_v = 1, step_d = 8\<rparr>"

theorem conversion_exact_witness:
  "returns (ColorConvert_YCbCr420p_to_BGRA32 (Some (replicate 16 7)) 2 2 (Some [16, 16, 16, 16]) (Some [128]) (Some [128])
      (Some [9, 9, 9, 9]) (strides_of small_planes 2)) (\<lambda>(r, out). r = 0 \<and> (\<exists>d'. out = Some d' \<and> d' ! 3 = 9))"
proof -
  have fit: "planes_fit small_planes 1 1 (replicate 16 7)" "(2 * 1 - 1) * 2 + 2 * 1 \<le> length [9, 9, 9, 9 :: 8 word]"
    by (simp_all add: planes_fit_def small_planes_def)
  have "d' ! 3 = 9" if "picture small_planes (\<lambda>r x. [9, 9, 9, 9] ! (r * 2 + x)) 1 1 (replicate 16 7) d'" for d'
  proof -
    have "d' ! 3 = bgra_420 small_planes (\<lambda>r x. [9, 9, 9, 9] ! (r * 2 + x)) 3"
      using that by (simp add: picture_def small_planes_def)
    also have "\<dots> = 9" by (simp add: bgra_420_def colour_byte_def small_planes_def)
    finally show ?thesis .
  qed
  with conjunct1 [OF conversion_exact [OF fit(1) zero_less_one zero_less_one fit(2)]] show ?thesis
    by (auto simp: small_planes_def elim!: returns_conseq)
qed

lemma near_table:
  assumes "t = (a + 49999999) div (100000000 :: int)"
  shows "a - 50000001 \<le> 100000000 * t" "100000000 * t \<le> a + 49999999"
  using assms by auto

lemma uint_clamp8: "uint (clamp8 v) = max 0 (min 255 (v div 2))"
  by (simp add: clamp8_def uint_word_of_int_eq take_bit_int_eq_self)

lemma near_clamp:
  assumes "2 * e - k \<le> 10000 * v" "10000 * v \<le> 2 * e + k" "0 \<le> k"
  shows "\<bar>10000 * uint (clamp8 v) - max 0 (min 2550000 e)\<bar> \<le> 5000 + k div 2 + 1"
  using assms by (auto simp: uint_clamp8 max_def min_def abs_if)

lemma colours_near:
  "\<bar>10000 * uint (clamp8 (red y v)) - max 0 (min 2550000 (11644 * uint y + 15966 * uint v - 2230000))\<bar> \<le> 11000"
  "\<bar>10000 * uint (clamp8 (green y u v)) - max 0 (min 2550000 (11644 * uint y - 3920 * uint u - 8132 * uint v + 1356352))\<bar> \<le> 13000"
  "\<bar>10000 * uint (clamp8 (blue y u)) - max 0 (min 2550000 (11644 * uint y + 20184 * uint u - 2770000))\<bar> \<le> 11000"
proof -
  have n: "int (unat b) = uint b" for b :: "8 word" by simp
  note yy = near_table [OF at_table [OF table_YY, of y], unfolded n]
    and rv = near_table [OF at_table [OF table_RV, of v], unfolded n]
    and gv = near_table [OF at_table [OF table_GV, of v], unfolded n]
    and bu = near_table [OF at_table [OF table_BU, of u], unfolded n]
    and gu = near_table [OF at_table [OF table_GU, of u], unfolded n]
  show "\<bar>10000 * uint (clamp8 (red y v)) - max 0 (min 2550000 (11644 * uint y + 15966 * uint v - 2230000))\<bar> \<le> 11000"
    using near_clamp [of "11644 * uint y + 15966 * uint v - 2230000" 10001 "red y v"] yy rv by (simp add: red_def)
  show "\<bar>10000 * uint (clamp8 (green y u v)) - max 0 (min 2550000 (11644 * uint y - 3920 * uint u - 8132 * uint v + 1356352))\<bar> \<le> 13000"
    using near_clamp [of "11644 * uint y - 3920 * uint u - 8132 * uint v + 1356352" 15001 "green y u v"] yy gu gv by (simp add: green_def)
  show "\<bar>10000 * uint (clamp8 (blue y u)) - max 0 (min 2550000 (11644 * uint y + 20184 * uint u - 2770000))\<bar> \<le> 11000"
    using near_clamp [of "11644 * uint y + 20184 * uint u - 2770000" 10001 "blue y u"] yy bu by (simp add: blue_def)
qed

text \<open>
  C28: the arithmetic of a pixel is safe and accurate. For all samples of brightness and colour the sums stay inside the table
  of \<open>TCLAMP_U8\<close>, where it agrees with the computed \<open>SCLAMP_U8\<close>, and red, green and blue differ from
  the conversion \<open>1.1644 Y + 1.5966 V - 223\<close> and its counterparts, clamped to 0..255, by at most 1.1, 1.3 and 1.1.
\<close>

theorem colours_accurate:
  "\<exists>r g b R G B. chroma u v = Some (r, g, b) \<and>
     TCLAMP_U8 (color_tYY ! unat (y :: 8 word) + r) = Some R \<and> TCLAMP_U8 (color_tYY ! unat y + g) = Some G \<and> TCLAMP_U8 (color_tYY ! unat y + b) = Some B \<and>
     SCLAMP_U8 (color_tYY ! unat y + g) = G \<and> SCLAMP_U8 (color_tYY ! unat y + b) = B \<and>
     \<bar>10000 * uint R - max 0 (min 2550000 (11644 * uint y + 15966 * uint v - 2230000))\<bar> \<le> 11000 \<and>
     \<bar>10000 * uint G - max 0 (min 2550000 (11644 * uint y - 3920 * uint u - 8132 * uint v + 1356352))\<bar> \<le> 13000 \<and>
     \<bar>10000 * uint B - max 0 (min 2550000 (11644 * uint y + 20184 * uint u - 2770000))\<bar> \<le> 11000"
  by (simp add: chroma_luma(1) sums colours_near)

section \<open>4:2:2\<close>

text \<open>A sample of brightness every two bytes, one of each colour every four.\<close>

definition bgra_422 :: "planes \<Rightarrow> nat \<Rightarrow> 8 word" where
  "bgra_422 s k =
     (let r = k div step_d s; x = k mod step_d s div 4; c = r * step_u s + 4 * (x div 2)
      in colour_byte (plane_y s ! (r * step_y s + 2 * x)) (plane_u s ! c) (plane_v s ! c) 255 (k mod step_d s mod 4))"

definition planes_422 :: "planes \<Rightarrow> nat \<Rightarrow> nat \<Rightarrow> 8 word list \<Rightarrow> bool" where
  "planes_422 s w h d \<longleftrightarrow> 8 * w \<le> step_d s \<and> (h - 1) * step_d s + 8 * w \<le> length d \<and> (h - 1) * step_y s + 4 * w \<le> length (plane_y s) + 1 \<and>
     (h - 1) * step_u s + 4 * w \<le> length (plane_u s) + 3 \<and> (h - 1) * step_u s + 4 * w \<le> length (plane_v s) + 3"

lemma bgra_422_at:
  assumes "c < 4" "4 * x + 4 \<le> step_d s"
  shows "bgra_422 s (r * step_d s + 4 * x + c) = colour_byte (plane_y s ! (r * step_y s + 2 * x)) (plane_u s ! (r * step_u s + 4 * (x div 2)))
           (plane_v s ! (r * step_u s + 4 * (x div 2))) 255 c"
proof -
  have "(r * step_d s + 4 * x + c) div step_d s = r" "(r * step_d s + 4 * x + c) mod step_d s = 4 * x + c"
    using assms by (simp_all add: add.assoc div_mult_self3)
  moreover have "(4 * x + c) div 4 = x" "(4 * x + c) mod 4 = c" using assms by simp_all
  ultimately show ?thesis by (simp only: bgra_422_def Let_def)
qed

lemma pair_written:
  assumes "planes_422 s w h d0" "j < h" "m < w" "written (bgra_422 s) d0 W d"
  shows "returns (block_422 (plane_y s) (plane_u s) (plane_v s) (int (j * step_y s + 4 * m)) (int (j * step_u s + 4 * m)) (int (j * step_u s + 4 * m))
      (int (j * step_d s + 8 * m)) d) (written (bgra_422 s) d0 (W \<union> {j * step_d s + 8 * m..<j * step_d s + 8 * m + 8}))"
proof -
  define p1 where p: "p1 = j * step_d s + 8 * m"
  define s1 where s1: "s1 = j * step_y s + 4 * m"
  define su where su: "su = j * step_u s + 4 * m"
  let ?F = "bgra_422 s"
  note fit = assms(1) [unfolded planes_422_def]
  have dist: "j * a \<le> (h - 1) * a" for a using assms(2) by (intro mult_le_mono1) simp
  have "p1 + 8 \<le> length d0" "s1 + 2 < length (plane_y s)" "su < length (plane_u s)" "su < length (plane_v s)"
    using dist [of "step_d s"] dist [of "step_y s"] dist [of "step_u s"] fit assms(3) unfolding p s1 su by linarith+
  note inside = this
  have r: "read_at (plane_u s) (int su) = Some (plane_u s ! su)" "read_at (plane_v s) (int su) = Some (plane_v s ! su)"
    using inside by (simp_all add: read_at_def)
  have l: "luma (plane_y s) (int s1) = Some (color_tYY ! unat (plane_y s ! s1))"
    "luma (plane_y s) (int s1 + 2) = Some (color_tYY ! unat (plane_y s ! (s1 + 2)))"
    using chroma_luma(2) [of s1 "plane_y s"] chroma_luma(2) [of "s1 + 2" "plane_y s"] inside by (simp_all add: add.commute)
  have w4: "4 * (2 * m) + 4 \<le> step_d s" "4 * (2 * m + 1) + 4 \<le> step_d s" using fit assms(3) by presburger+
  have pos: "p1 = j * step_d s + 4 * (2 * m)" "p1 + 4 = j * step_d s + 4 * (2 * m + 1)"
    "s1 = j * step_y s + 2 * (2 * m)" "s1 + 2 = j * step_y s + 2 * (2 * m + 1)"
    "su = j * step_u s + 4 * (2 * m div 2)" "su = j * step_u s + 4 * ((2 * m + 1) div 2)" by (simp_all add: p s1 su)
  have a1: "?F (p1 + c) = colour_byte (plane_y s ! s1) (plane_u s ! su) (plane_v s ! su) 255 c" if "c < 4" for c
    using bgra_422_at [OF that w4(1), of j] by (simp only: pos(1,3,5))
  have a2: "?F (p1 + 4 + c) = colour_byte (plane_y s ! (s1 + 2)) (plane_u s ! su) (plane_v s ! su) 255 c" if "c < 4" for c
    using bgra_422_at [OF that w4(2), of j] by (simp only: pos(2,4,6))
  have px: "?F p1 = clamp8 (blue (plane_y s ! s1) (plane_u s ! su))" "?F (p1 + 1) = clamp8 (green (plane_y s ! s1) (plane_u s ! su) (plane_v s ! su))"
    "?F (p1 + 2) = clamp8 (red (plane_y s ! s1) (plane_v s ! su))" "?F (p1 + 3) = 255"
    "?F (p1 + 4) = clamp8 (blue (plane_y s ! (s1 + 2)) (plane_u s ! su))"
    "?F (p1 + 5) = clamp8 (green (plane_y s ! (s1 + 2)) (plane_u s ! su) (plane_v s ! su))"
    "?F (p1 + 6) = clamp8 (red (plane_y s ! (s1 + 2)) (plane_v s ! su))" "?F (p1 + 7) = 255"
    using a1 [of 0] a1 [of 1] a1 [of 2] a1 [of 3] a2 [of 0] a2 [of 1] a2 [of 2] a2 [of 3] by (simp_all add: colour_byte_def add.commute [of 5 p1] add.commute [of 6 p1] add.commute [of 7 p1])
  have comm: "2 + int q = int q + 2" "1 + int q = int q + 1" for q by simp_all
  let ?ns = "[p1 + 2, p1 + 1, p1, p1 + 6, p1 + 5, p1 + 4, p1 + 7, p1 + 3]"
  have "block_422 (plane_y s) (plane_u s) (plane_v s) (int s1) (int su) (int su) (int p1) d = stores (map (\<lambda>n. (int n, Some (?F n))) ?ns) d"
    using px by (simp add: block_422_def r l chroma_luma(1) sums comm)
  moreover have "W \<union> set ?ns = W \<union> {p1..<p1 + 8}" unfolding eight by auto
  moreover have "\<forall>n \<in> set ?ns. n < length d0" using inside(1) by simp
  ultimately show ?thesis using stores_written [OF assms(4), of ?ns] by (simp only: p s1 su)
qed

lemma columns_422_written:
  assumes "planes_422 s w h d0" "j < h" "i + n \<le> w" "written (bgra_422 s) d0 W d"
  shows "returns (columns_422 (plane_y s) (plane_u s) (plane_v s) n (int (j * step_y s + 4 * i)) (int (j * step_u s + 4 * i)) (int (j * step_u s + 4 * i))
      (int (j * step_d s + 8 * i)) d) (written (bgra_422 s) d0 (W \<union> {j * step_d s + 8 * i..<j * step_d s + 8 * (i + n)}))"
  using assms(3,4)
proof (induction n arbitrary: i W d)
  case (Suc n)
  have i: "i < w" using Suc.prems(1) by simp
  let ?V = "W \<union> {j * step_d s + 8 * i..<j * step_d s + 8 * i + 8}"
  have rest: "returns (columns_422 (plane_y s) (plane_u s) (plane_v s) n (int (j * step_y s + 4 * Suc i)) (int (j * step_u s + 4 * Suc i)) (int (j * step_u s + 4 * Suc i))
      (int (j * step_d s + 8 * Suc i)) d') (written (bgra_422 s) d0 (?V \<union> {j * step_d s + 8 * Suc i..<j * step_d s + 8 * (Suc i + n)}))"
    if "written (bgra_422 s) d0 ?V d'" for d'
    by (rule Suc.IH [OF _ that]) (use Suc.prems(1) in simp)
  have split: "?V \<union> {j * step_d s + 8 * Suc i..<j * step_d s + 8 * (Suc i + n)} = W \<union> {j * step_d s + 8 * i..<j * step_d s + 8 * (i + Suc n)}" by auto
  show ?case
    using returns_bindI [OF pair_written [OF assms(1,2) i Suc.prems(2)] rest] unfolding split by (simp add: algebra_simps)
qed simp

lemma rows_422_written:
  assumes "planes_422 s w h d0" "j + n \<le> h" "written (bgra_422 s) d0 W d"
  shows "returns (rows_422 (plane_y s) (plane_u s) (plane_v s) (int (step_y s)) (int (step_u s)) (int (step_d s)) w n
      (int (j * step_y s)) (int (j * step_u s)) (int (j * step_u s)) (int (j * step_d s)) d)
    (written (bgra_422 s) d0 (W \<union> (\<Union>r \<in> {j..<j + n}. {r * step_d s..<r * step_d s + 8 * w})))"
  using assms(2,3)
proof (induction n arbitrary: j W d)
  case (Suc n)
  have row: "returns (columns_422 (plane_y s) (plane_u s) (plane_v s) w (int (j * step_y s)) (int (j * step_u s)) (int (j * step_u s)) (int (j * step_d s)) d)
      (written (bgra_422 s) d0 (W \<union> {j * step_d s..<j * step_d s + 8 * w}))"
    using columns_422_written [OF assms(1) _ _ Suc.prems(2), of j 0 w] Suc.prems(1) by simp
  have rest: "returns (rows_422 (plane_y s) (plane_u s) (plane_v s) (int (step_y s)) (int (step_u s)) (int (step_d s)) w n
      (int (Suc j * step_y s)) (int (Suc j * step_u s)) (int (Suc j * step_u s)) (int (Suc j * step_d s)) d')
    (written (bgra_422 s) d0 (W \<union> {j * step_d s..<j * step_d s + 8 * w} \<union> (\<Union>r \<in> {Suc j..<Suc j + n}. {r * step_d s..<r * step_d s + 8 * w})))"
    if "written (bgra_422 s) d0 (W \<union> {j * step_d s..<j * step_d s + 8 * w}) d'" for d'
    by (rule Suc.IH [OF _ that]) (use Suc.prems(1) in simp)
  have "{j..<j + Suc n} = insert j {Suc j..<Suc j + n}" by auto
  then have split: "W \<union> {j * step_d s..<j * step_d s + 8 * w} \<union> (\<Union>r \<in> {Suc j..<Suc j + n}. {r * step_d s..<r * step_d s + 8 * w}) =
      W \<union> (\<Union>r \<in> {j..<j + Suc n}. {r * step_d s..<r * step_d s + 8 * w})" by auto
  show ?case using returns_bindI [OF row rest] unfolding split by (simp add: algebra_simps)
qed simp

text \<open>
  A packed frame of 4:2:2 video becomes exactly its picture: the samples of brightness are two bytes apart, those of
  colour four, in the same rows; every pixel is opaque, nothing else is written and nothing outside the buffers is read.
\<close>

theorem packed_conversion_exact:
  assumes "planes_422 s w h d" "0 < w" "0 < h"
  shows "returns (ColorConvert_YCbCr422p_to_BGRA32_no_alpha (Some d) (int (step_d s)) (int (2 * w)) (int h) (Some (plane_y s)) (Some (plane_v s))
      (Some (plane_u s)) (int (step_y s)) (int (step_u s))) (\<lambda>(r, out). r = 0 \<and> (\<exists>d'. out = Some d' \<and> length d' = length d \<and>
    (\<forall>k < length d. d' ! k = (if k div step_d s < h \<and> k mod step_d s < 8 * w then bgra_422 s k else d ! k))))"
proof -
  have start: "written (bgra_422 s) d {} d" by (simp add: written_def)
  have b: "8 * w \<le> step_d s" using assms(1) by (simp add: planes_422_def)
  have area: "k \<in> (\<Union>r \<in> {0..<h}. {r * step_d s..<r * step_d s + 8 * w}) \<longleftrightarrow> k div step_d s < h \<and> k mod step_d s < 8 * w" for k
    using in_row [OF b] by (simp only: UN_iff) auto
  obtain d' where d': "rows_422 (plane_y s) (plane_u s) (plane_v s) (int (step_y s)) (int (step_u s)) (int (step_d s)) w h 0 0 0 0 d = Some d'"
    "written (bgra_422 s) d (\<Union>r \<in> {0..<h}. {r * step_d s..<r * step_d s + 8 * w}) d'"
    using rows_422_written [OF assms(1) _ start, of 0 h] by (auto elim!: returnsE)
  have size: "nat (drop_bit 1 (int (2 * w))) = w" "int (2 * w) AND 1 = 0" by (simp_all add: drop_bit_Suc and_one_eq)
  show ?thesis
    using d' assms(2,3) size area by (simp add: ColorConvert_YCbCr422p_to_BGRA32_no_alpha_def written_def del: of_nat_mult UN_iff)
qed

definition packed_planes :: planes where
  "packed_planes = \<lparr>plane_y = [16, 0, 16], plane_u = [128], plane_v = [128], step_y = 4, step_u = 4, step_v = 4, step_d = 8\<rparr>"

theorem packed_conversion_exact_witness:
  "returns (ColorConvert_YCbCr422p_to_BGRA32_no_alpha (Some (replicate 9 7)) 8 2 1 (Some [16, 0, 16]) (Some [128]) (Some [128]) 4 4)
     (\<lambda>(r, out). r = 0 \<and> (\<exists>d'. out = Some d' \<and> d' ! 3 = 255 \<and> d' ! 8 = 7))"
proof -
  have fit: "planes_422 packed_planes 1 1 (replicate 9 7)" by (simp add: planes_422_def packed_planes_def)
  have "d' ! 3 = 255 \<and> d' ! 8 = 7" if "length d' = length (replicate 9 (7 :: 8 word))" "\<forall>k < length (replicate 9 (7 :: 8 word)). d' ! k =
      (if k div step_d packed_planes < 1 \<and> k mod step_d packed_planes < 8 * 1 then bgra_422 packed_planes k else replicate 9 7 ! k)" for d'
  proof -
    have "d' ! 3 = bgra_422 packed_planes 3" "d' ! 8 = replicate 9 7 ! 8" using that(2) by (simp_all add: packed_planes_def)
    then show ?thesis by (simp add: bgra_422_def colour_byte_def packed_planes_def)
  qed
  with packed_conversion_exact [OF fit zero_less_one zero_less_one] show ?thesis
    by (auto simp: packed_planes_def elim!: returns_conseq)
qed

end
