(* ===== verification/UdevInput.thy ===== *)
theory UdevInput
  imports LensMachine SingleFloat
begin

text \<open>
  \<open>udevInput.c\<close>: the events of the Linux input layer become requests to the window manager. The events
  of a device that points are queued until its report is complete. The report is then processed as a
  whole (\<open>handleSync\<close>): the fingers on a touch screen get identifiers, states and a primary finger, a
  mouse moves the pointer. Codes of events are those of \<open>linux/input.h\<close> (see \<open>LinuxInput.java\<close>).
\<close>

section \<open>Codes of the Linux input layer\<close>

abbreviation (input) EV_SYN :: int where "EV_SYN \<equiv> 0"
abbreviation (input) EV_KEY :: int where "EV_KEY \<equiv> 1"
abbreviation (input) EV_REL :: int where "EV_REL \<equiv> 2"
abbreviation (input) EV_ABS :: int where "EV_ABS \<equiv> 3"
abbreviation (input) SYN_REPORT :: int where "SYN_REPORT \<equiv> 0"
abbreviation (input) SYN_MT_REPORT :: int where "SYN_MT_REPORT \<equiv> 2"
abbreviation (input) BTN_LEFT :: int where "BTN_LEFT \<equiv> 0x110"
abbreviation (input) BTN_RIGHT :: int where "BTN_RIGHT \<equiv> 0x111"
abbreviation (input) BTN_MIDDLE :: int where "BTN_MIDDLE \<equiv> 0x112"
abbreviation (input) BTN_TOUCH :: int where "BTN_TOUCH \<equiv> 0x14a"
abbreviation (input) REL_X :: int where "REL_X \<equiv> 0"
abbreviation (input) REL_Y :: int where "REL_Y \<equiv> 1"
abbreviation (input) REL_WHEEL :: int where "REL_WHEEL \<equiv> 8"
abbreviation (input) ABS_X :: int where "ABS_X \<equiv> 0"
abbreviation (input) ABS_Y :: int where "ABS_Y \<equiv> 1"
abbreviation (input) ABS_MT_SLOT :: int where "ABS_MT_SLOT \<equiv> 0x2f"
abbreviation (input) ABS_MT_TOUCH_MAJOR :: int where "ABS_MT_TOUCH_MAJOR \<equiv> 0x30"
abbreviation (input) ABS_MT_POSITION_X :: int where "ABS_MT_POSITION_X \<equiv> 0x35"
abbreviation (input) ABS_MT_POSITION_Y :: int where "ABS_MT_POSITION_Y \<equiv> 0x36"
abbreviation (input) ABS_MT_TRACKING_ID :: int where "ABS_MT_TRACKING_ID \<equiv> 0x39"

abbreviation (input) LENSFB_KEY_PRESSED :: int where "LENSFB_KEY_PRESSED \<equiv> 1"
abbreviation (input) LENSFB_KEY_RELEASED :: int where "LENSFB_KEY_RELEASED \<equiv> 0"
abbreviation (input) LENSFB_KEY_REPEAT :: int where "LENSFB_KEY_REPEAT \<equiv> 2"

abbreviation (input) LENS_MAX_TOUCH_POINTS :: nat where "LENS_MAX_TOUCH_POINTS \<equiv> 20"

section \<open>Data\<close>

record linux_input_event =
  ev_type :: int
  ev_code :: int
  ev_value :: int

record input_absinfo =
  axis_minimum :: int
  axis_maximum :: int

datatype LensInputTouchDeviceProtocols =
    TOUCH_PROTOCOL_NONE | TOUCH_PROTOCOL_ST | TOUCH_PROTOCOL_MT_A
  | TOUCH_PROTOCOL_MT_A_WITH_TRACKING_ID | TOUCH_PROTOCOL_MT_B

text \<open>
  The queue \<open>pendingInputEvents\<close> is a list (its length is \<open>pendingInputEventCount\<close>). Of the arrays of
  fingers the first \<open>touchPointCount\<close>, and \<open>pendingTouchPointCount\<close>, entries are in use.
\<close>

record LensInputMouseState =
  rel_axes :: "int list"
  abs_axes :: "int list"
  nextTouchID :: int
  touchPrimaryPointID :: int
  touchPointCount :: nat
  touchIDs :: "int list"
  touchXs :: "int list"
  touchYs :: "int list"
  touchIsDragging :: "bool list"
  touchTrackingIDs :: "int list"
  pendingTouchPointCount :: nat
  pendingTouchIDs :: "int list"
  pendingTouchXs :: "int list"
  pendingTouchYs :: "int list"
  pendingTouchTrackingIDs :: "int list"
  pendingInputEvents :: "linux_input_event list"
  pendingInputEventCapacity :: nat
  pressedX :: int
  pressedY :: int

record LensInputDevice =
  isKeyboard :: bool
  isPointer :: bool
  isTouch :: bool
  touchProtocolType :: LensInputTouchDeviceProtocols
  absbits :: "int \<Rightarrow> bool"
  absinfo :: "input_absinfo list"
  mouse_state :: "LensInputMouseState option"

text \<open>
  The variables of the file, and the requests to the window manager (\<open>lens_wm_notify\<close> functions) in the
  order in which they are made.
\<close>

record lens_input =
  screenWidth :: int
  screenHeight :: int
  in_mousePosX :: int
  in_mousePosY :: int
  newMousePosX :: int
  newMousePosY :: int
  gTapRadius :: int
  gTouchMoveSensitivity :: int
  gUseMultiTouch :: bool
  notified :: "request list"

definition calloc_mouse_state :: LensInputMouseState where
  "calloc_mouse_state = \<lparr>rel_axes = replicate 16 0, abs_axes = replicate 64 0, nextTouchID = 0,
     touchPrimaryPointID = 0, touchPointCount = 0, touchIDs = replicate 20 0, touchXs = replicate 20 0,
     touchYs = replicate 20 0, touchIsDragging = replicate 20 False, touchTrackingIDs = replicate 20 0,
     pendingTouchPointCount = 0, pendingTouchIDs = replicate 20 0, pendingTouchXs = replicate 20 0,
     pendingTouchYs = replicate 20 0, pendingTouchTrackingIDs = replicate 20 0, pendingInputEvents = [],
     pendingInputEventCapacity = 0, pressedX = 0, pressedY = 0\<rparr>"

definition lens_input_mouseStateAllocateAndInit :: "bool \<Rightarrow> LensInputDevice \<Rightarrow> LensResult \<times> LensInputDevice" where
  "lens_input_mouseStateAllocateAndInit mem device =
     (if mouse_state device \<noteq> None then (LENS_OK, device)
      else if \<not> mem then (LENS_FAILED, device)
      else (LENS_OK, device\<lparr>mouse_state := Some (calloc_mouse_state\<lparr>touchPrimaryPointID := - 1\<rparr>)\<rparr>))"

definition lens_input_checkTouchSupportLevel :: "LensInputDevice \<Rightarrow> LensInputDevice" where
  "lens_input_checkTouchSupportLevel device =
     device\<lparr>touchProtocolType :=
       (if isTouch device then
          if absbits device ABS_MT_POSITION_X then
            if absbits device ABS_MT_TRACKING_ID then
              if absbits device ABS_MT_SLOT then TOUCH_PROTOCOL_MT_A else TOUCH_PROTOCOL_MT_A_WITH_TRACKING_ID
            else TOUCH_PROTOCOL_MT_A
          else TOUCH_PROTOCOL_ST
        else TOUCH_PROTOCOL_NONE)\<rparr>"

section \<open>Axes and buttons\<close>

definition lens_input_convertButtonToFXButtonCode :: "int \<Rightarrow> int" where
  "lens_input_convertButtonToFXButtonCode button =
     (if button = 0 then MouseEvent_BUTTON_NONE
      else if button = BTN_LEFT \<or> button = BTN_TOUCH then MouseEvent_BUTTON_LEFT
      else if button = BTN_MIDDLE then MouseEvent_BUTTON_OTHER
      else if button = BTN_RIGHT then MouseEvent_BUTTON_RIGHT
      else MouseEvent_BUTTON_NONE)"

definition roundf :: "rat \<Rightarrow> int" where
  "roundf x = (if x < 0 then - \<lfloor>- x + 1 / 2\<rfloor> else \<lfloor>x + 1 / 2\<rfloor>)"

text \<open>A position on an axis of the device, as a position on the screen. The conversion of an infinity or a NaN to \<open>int\<close> is undefined.\<close>

definition scaled :: "input_absinfo \<Rightarrow> int \<Rightarrow> int \<Rightarrow> int option" where
  "scaled info v extent =
     (if axis_maximum info = axis_minimum info then None
      else let scalar = float32 (float32 (of_int (v - axis_minimum info)) /
                                 float32 (of_int (axis_maximum info - axis_minimum info)))
           in Some (roundf (float32 (scalar * float32 (of_int extent)))))"

definition clamp_axis :: "input_absinfo \<Rightarrow> int \<Rightarrow> int" where
  "clamp_axis info v =
     (let a = (if v < axis_minimum info then axis_minimum info else v)
      in if a > axis_maximum info then axis_maximum info else a)"

definition lens_input_pointerEvents_handleAbsMotion ::
    "LensInputDevice \<Rightarrow> linux_input_event \<Rightarrow> LensInputMouseState \<times> lens_input \<Rightarrow> (LensInputMouseState \<times> lens_input) option" where
  "lens_input_pointerEvents_handleAbsMotion device e = (\<lambda>(m, g). do {
     info \<leftarrow> read_at (absinfo device) (ev_code e);
     axes \<leftarrow> write_at (abs_axes m) (ev_code e) (clamp_axis info (ev_value e));
     m \<leftarrow> Some (m\<lparr>abs_axes := axes\<rparr>);
     if ev_code e = ABS_X then do {
       x \<leftarrow> scaled info (ev_value e) (screenWidth g);
       Some (m\<lparr>pressedX := x\<rparr>, g\<lparr>newMousePosX := x\<rparr>)
     }
     else if ev_code e = ABS_Y then do {
       y \<leftarrow> scaled info (ev_value e) (screenHeight g);
       Some (m\<lparr>pressedY := y\<rparr>, g\<lparr>newMousePosY := y\<rparr>)
     }
     else if ev_code e = ABS_MT_POSITION_X then do {
       x \<leftarrow> scaled info (ev_value e) (screenWidth g);
       xs \<leftarrow> write_at (pendingTouchXs m) (int (pendingTouchPointCount m)) x;
       Some (m\<lparr>pendingTouchXs := xs\<rparr>, g)
     }
     else if ev_code e = ABS_MT_POSITION_Y then do {
       y \<leftarrow> scaled info (ev_value e) (screenHeight g);
       ys \<leftarrow> write_at (pendingTouchYs m) (int (pendingTouchPointCount m)) y;
       Some (m\<lparr>pendingTouchYs := ys\<rparr>, g)
     }
     else Some (m, g)
   })"

definition into_screen :: "int \<Rightarrow> int \<Rightarrow> int" where
  "into_screen extent v = (if v \<ge> extent then extent - 1 else if v < 0 then 0 else v)"

definition lens_input_pointerEvents_handleRelMotion ::
    "linux_input_event \<Rightarrow> LensInputMouseState \<times> lens_input \<Rightarrow> (LensInputMouseState \<times> lens_input) option" where
  "lens_input_pointerEvents_handleRelMotion e = (\<lambda>(m, g). do {
     old \<leftarrow> read_at (rel_axes m) (ev_code e);
     axes \<leftarrow> write_at (rel_axes m) (ev_code e) (old + ev_value e);
     Some (m\<lparr>rel_axes := axes\<rparr>,
       if ev_code e = REL_X then g\<lparr>newMousePosX := into_screen (screenWidth g) (in_mousePosX g + ev_value e)\<rparr>
       else if ev_code e = REL_Y then g\<lparr>newMousePosY := into_screen (screenHeight g) (in_mousePosY g + ev_value e)\<rparr>
       else g)
   })"

definition notify :: "request \<Rightarrow> lens_input \<Rightarrow> lens_input" where
  "notify q g = g\<lparr>notified := notified g @ [q]\<rparr>"

definition lens_input_pointerEvents_handleKeyEvent :: "linux_input_event \<Rightarrow> lens_input \<Rightarrow> lens_input" where
  "lens_input_pointerEvents_handleKeyEvent e g =
     notify (Button (ev_value e = 1) (lens_input_convertButtonToFXButtonCode (ev_code e))
               (in_mousePosX g) (in_mousePosY g)) g"

section \<open>The queue\<close>

text \<open>\<open>mem\<close> says whether the allocation succeeds, if there is one; an event that does not fit is dropped.\<close>

definition lens_input_pointerEvents_enqueuePendingEvent ::
    "bool \<Rightarrow> linux_input_event \<Rightarrow> LensInputMouseState \<Rightarrow> LensInputMouseState" where
  "lens_input_pointerEvents_enqueuePendingEvent mem e m =
     (let add = (\<lambda>m. m\<lparr>pendingInputEvents := pendingInputEvents m @ [e]\<rparr>)
      in if pendingInputEventCapacity m = 0 then
           if mem then add (m\<lparr>pendingInputEventCapacity := 1\<rparr>) else m
         else if length (pendingInputEvents m) = pendingInputEventCapacity m then
           if mem then add (m\<lparr>pendingInputEventCapacity := pendingInputEventCapacity m * 2\<rparr>) else m
         else add m)"

section \<open>A complete report\<close>

subsection \<open>Reading the queue\<close>

record sync_tally =
  keyEventIndex :: int
  reportMouseMove :: bool
  touchButtonValue :: int
  numOfUpdatePoints :: nat
  numOfReleasePoints :: nat

definition begin_sync :: "LensInputMouseState \<Rightarrow> LensInputMouseState" where
  "begin_sync m = m\<lparr>pendingTouchPointCount := 0, pressedX := - 1, pressedY := - 1,
     pendingTouchXs := replicate LENS_MAX_TOUCH_POINTS (- 1)\<rparr>"

definition first_tally :: sync_tally where
  "first_tally = \<lparr>keyEventIndex = - 1, reportMouseMove = False, touchButtonValue = - 1,
     numOfUpdatePoints = 0, numOfReleasePoints = 0\<rparr>"

definition store_tracking_id :: "linux_input_event \<Rightarrow> LensInputMouseState \<Rightarrow> LensInputMouseState option" where
  "store_tracking_id e m =
     (if ev_code e = ABS_MT_TRACKING_ID then do {
        ids \<leftarrow> write_at (pendingTouchTrackingIDs m) (int (pendingTouchPointCount m)) (ev_value e);
        Some (m\<lparr>pendingTouchTrackingIDs := ids\<rparr>)
      }
      else Some m)"

definition count_point :: "LensInputDevice \<Rightarrow> linux_input_event \<Rightarrow> nat \<Rightarrow> sync_tally \<Rightarrow> sync_tally" where
  "count_point device e n t =
     t\<lparr>numOfUpdatePoints := numOfUpdatePoints t +
         (if n < LENS_MAX_TOUCH_POINTS \<and> ev_code e = ABS_MT_POSITION_X then 1 else 0),
       numOfReleasePoints := numOfReleasePoints t +
         (if n < LENS_MAX_TOUCH_POINTS \<and> touchProtocolType device = TOUCH_PROTOCOL_MT_A_WITH_TRACKING_ID \<and>
             ev_code e = ABS_MT_TOUCH_MAJOR \<and> ev_value e = 0 then 1 else 0)\<rparr>"

text \<open>The queue holds no other types of events; \<open>assert(0)\<close> stands in the code for the rest.\<close>

definition sync_event ::
    "LensInputDevice \<Rightarrow> nat \<Rightarrow> linux_input_event \<Rightarrow> sync_tally \<times> LensInputMouseState \<times> lens_input \<Rightarrow>
     (sync_tally \<times> LensInputMouseState \<times> lens_input) option" where
  "sync_event device i e = (\<lambda>(t, m, g).
     if ev_type e = EV_KEY then
       Some (t\<lparr>touchButtonValue := (if ev_code e = BTN_TOUCH then ev_value e else touchButtonValue t),
               keyEventIndex := int i\<rparr>, m, g)
     else if ev_type e = EV_REL then do {
       (m, g) \<leftarrow> lens_input_pointerEvents_handleRelMotion e (m, g);
       Some (t\<lparr>reportMouseMove := True\<rparr>, m, g)
     }
     else if ev_type e = EV_ABS then do {
       (m, g) \<leftarrow> lens_input_pointerEvents_handleAbsMotion device e (m, g);
       m \<leftarrow> store_tracking_id e m;
       Some (count_point device e (pendingTouchPointCount m) t, m, g)
     }
     else if ev_type e = EV_SYN then
       Some (t, if ev_code e = SYN_MT_REPORT \<and> pendingTouchPointCount m < LENS_MAX_TOUCH_POINTS
                then m\<lparr>pendingTouchPointCount := pendingTouchPointCount m + 1\<rparr> else m, g)
     else None)"

fun sync_events ::
    "LensInputDevice \<Rightarrow> nat \<Rightarrow> linux_input_event list \<Rightarrow> sync_tally \<times> LensInputMouseState \<times> lens_input \<Rightarrow>
     (sync_tally \<times> LensInputMouseState \<times> lens_input) option" where
  "sync_events device i [] s = Some s"
| "sync_events device i (e # es) s = do { s \<leftarrow> sync_event device i e s; sync_events device (Suc i) es s }"

subsection \<open>Which fingers are on the screen\<close>

definition preprocess_ST :: "sync_tally \<Rightarrow> LensInputMouseState \<Rightarrow> LensInputMouseState" where
  "preprocess_ST t m =
     (if touchButtonValue t = 1 \<or> touchButtonValue t = - 1 \<and> pressedX m \<noteq> - 1 \<and> pressedY m \<noteq> - 1
      then m\<lparr>pendingTouchPointCount := 1, pendingTouchXs := (pendingTouchXs m)[0 := pressedX m],
             pendingTouchYs := (pendingTouchYs m)[0 := pressedY m]\<rparr>
      else m)"

text \<open>
  A device that reports tracking identifiers tells which fingers are gone: a pending point without
  coordinates releases the finger with its tracking identifier. The others are copied to the front
  of the pending points.
\<close>

definition to_be_released :: "LensInputMouseState \<Rightarrow> nat \<Rightarrow> nat \<Rightarrow> bool" where
  "to_be_released m n i = list_ex (\<lambda>j. pendingTouchXs m ! j = - 1 \<and>
     pendingTouchTrackingIDs m ! j = touchTrackingIDs m ! i) [0..<n]"

definition keep_point :: "nat \<Rightarrow> nat \<Rightarrow> LensInputMouseState \<times> nat \<Rightarrow> LensInputMouseState \<times> nat" where
  "keep_point n i = (\<lambda>(m, actualCount).
     if to_be_released m n i then (m, actualCount)
     else (m\<lparr>pendingTouchTrackingIDs := (pendingTouchTrackingIDs m)[actualCount := touchTrackingIDs m ! i],
             pendingTouchXs := (pendingTouchXs m)[actualCount := touchXs m ! i],
             pendingTouchYs := (pendingTouchYs m)[actualCount := touchYs m ! i]\<rparr>, actualCount + 1))"

definition drop_released :: "LensInputMouseState \<Rightarrow> LensInputMouseState" where
  "drop_released m =
     (let (m', actualCount) = fold (keep_point (pendingTouchPointCount m)) [0..<touchPointCount m] (m, 0)
      in m'\<lparr>pendingTouchPointCount := actualCount\<rparr>)"

text \<open>The result also says whether the report is well formed; one that is not is ignored.\<close>

definition preprocess :: "LensInputDevice \<Rightarrow> sync_tally \<Rightarrow> LensInputMouseState \<Rightarrow> bool \<times> LensInputMouseState" where
  "preprocess device t m =
     (case touchProtocolType device of
        TOUCH_PROTOCOL_ST \<Rightarrow> (True, preprocess_ST t m)
      | TOUCH_PROTOCOL_MT_A \<Rightarrow>
          if numOfUpdatePoints t < pendingTouchPointCount m
          then (True, m\<lparr>pendingTouchPointCount := numOfUpdatePoints t\<rparr>)
          else (numOfUpdatePoints t = pendingTouchPointCount m, m)
      | TOUCH_PROTOCOL_MT_A_WITH_TRACKING_ID \<Rightarrow> (True, if numOfReleasePoints t > 0 then drop_released m else m)
      | _ \<Rightarrow> (True, m))"

subsection \<open>Identifiers\<close>

text \<open>The first of the \<open>n\<close> points that is not mapped yet and nearest to \<open>(x, y)\<close>; -1 if none is nearer than \<open>INT_MAX\<close>.\<close>

definition nearer :: "bool list \<Rightarrow> int list \<Rightarrow> int list \<Rightarrow> int \<Rightarrow> int \<Rightarrow> nat \<Rightarrow> int \<times> int \<Rightarrow> int \<times> int" where
  "nearer mapped xs ys x y j = (\<lambda>(closest, mappedIndex).
     let d = (x - xs ! j) * (x - xs ! j) + (y - ys ! j) * (y - ys ! j)
     in if \<not> mapped ! j \<and> d < closest then (d, int j) else (closest, mappedIndex))"

definition nearest :: "nat \<Rightarrow> bool list \<Rightarrow> int list \<Rightarrow> int list \<Rightarrow> int \<Rightarrow> int \<Rightarrow> int" where
  "nearest n mapped xs ys x y = snd (fold (nearer mapped xs ys x y) [0..<n] (2147483647, - 1))"

definition map_existing :: "LensInputMouseState \<Rightarrow> nat \<Rightarrow> bool list \<times> int list \<Rightarrow> (bool list \<times> int list) option" where
  "map_existing m i = (\<lambda>(mapped, ids).
     let k = nearest (pendingTouchPointCount m) mapped (pendingTouchXs m) (pendingTouchYs m) (touchXs m ! i) (touchYs m ! i)
     in if k < 0 then None else Some (mapped[nat k := True], ids[nat k := touchIDs m ! i]))"

definition map_pending :: "LensInputMouseState \<Rightarrow> nat \<Rightarrow> bool list \<times> int list \<Rightarrow> (bool list \<times> int list) option" where
  "map_pending m i = (\<lambda>(mapped, ids).
     let k = nearest (touchPointCount m) mapped (touchXs m) (touchYs m) (pendingTouchXs m ! i) (pendingTouchYs m ! i)
     in if k < 0 then None else Some (mapped[nat k := True], ids[i := touchIDs m ! nat k]))"

definition new_id :: "bool list \<Rightarrow> nat \<Rightarrow> int list \<times> int \<Rightarrow> int list \<times> int" where
  "new_id mapped i = (\<lambda>(ids, next). if \<not> mapped ! i then (ids[i := next], next + 1) else (ids, next))"

definition new_ids :: "bool list \<Rightarrow> nat \<Rightarrow> LensInputMouseState \<Rightarrow> LensInputMouseState" where
  "new_ids mapped n m =
     (let (ids, next) = fold (new_id mapped) [0..<n] (pendingTouchIDs m, nextTouchID m)
      in m\<lparr>pendingTouchIDs := ids, nextTouchID := next\<rparr>)"

definition assign_ids :: "LensInputMouseState \<Rightarrow> LensInputMouseState option" where
  "assign_ids m =
     (let none = replicate LENS_MAX_TOUCH_POINTS False; n = pendingTouchPointCount m
      in if n = 0 then Some m
         else if touchPointCount m = 0 then Some (new_ids none n (m\<lparr>nextTouchID := 1\<rparr>))
         else if n \<ge> touchPointCount m then do {
           (mapped, ids) \<leftarrow> for_range 0 (touchPointCount m) (map_existing m) (none, pendingTouchIDs m);
           Some (new_ids mapped n (m\<lparr>pendingTouchIDs := ids\<rparr>))
         }
         else do {
           (mapped, ids) \<leftarrow> for_range 0 n (map_pending m) (none, pendingTouchIDs m);
           Some (m\<lparr>pendingTouchIDs := ids\<rparr>)
         })"

subsection \<open>States\<close>

text \<open>
  One entry of the arrays \<open>states\<close>, \<open>ids\<close>, \<open>xs\<close>, \<open>ys\<close>, \<open>deviceIDs\<close> of the function. They are filled from
  the front, but a finger that is released leaves \<open>deviceIDs\<close> as it is: \<open>stack\<close> is what that
  array of the stack holds before anything is written to it.
\<close>

record touch_point =
  tp_state :: int
  tp_id :: int
  tp_x :: int
  tp_y :: int
  tp_device :: int

definition report_existing ::
    "lens_input \<Rightarrow> (nat \<Rightarrow> int) \<Rightarrow> nat \<Rightarrow> LensInputMouseState \<times> touch_point list \<Rightarrow> LensInputMouseState \<times> touch_point list" where
  "report_existing g stack i = (\<lambda>(m, ps).
     let oldX = touchXs m ! i; oldY = touchYs m ! i; drag = touchIsDragging m ! i in
     case List.find (\<lambda>j. pendingTouchIDs m ! j = touchIDs m ! i) [0..<pendingTouchPointCount m] of
       None \<Rightarrow>
         (m\<lparr>touchIsDragging := (touchIsDragging m)[i := False]\<rparr>,
          ps @ [\<lparr>tp_state = TouchEvent_TOUCH_RELEASED, tp_id = touchIDs m ! i, tp_x = oldX, tp_y = oldY,
                 tp_device = stack (length ps)\<rparr>])
     | Some j \<Rightarrow>
         let newX = pendingTouchXs m ! j; newY = pendingTouchYs m ! j;
             distance = (newX - oldX) * (newX - oldX) + (newY - oldY) * (newY - oldY);
             p = \<lparr>tp_state = TouchEvent_TOUCH_MOVED, tp_id = touchIDs m ! i, tp_x = newX, tp_y = newY,
                  tp_device = pendingTouchTrackingIDs m ! j\<rparr>
         in if (if drag then distance \<ge> gTouchMoveSensitivity g * gTouchMoveSensitivity g
                else distance > gTapRadius g * gTapRadius g)
            then (if drag then m else m\<lparr>touchIsDragging := (touchIsDragging m)[j := True]\<rparr>, ps @ [p])
            else (m\<lparr>pendingTouchXs := (pendingTouchXs m)[j := oldX], pendingTouchYs := (pendingTouchYs m)[j := oldY]\<rparr>,
                  ps @ [p\<lparr>tp_state := TouchEvent_TOUCH_STILL, tp_x := oldX, tp_y := oldY\<rparr>]))"

definition report_new :: "nat \<Rightarrow> LensInputMouseState \<times> touch_point list \<Rightarrow> (LensInputMouseState \<times> touch_point list) option" where
  "report_new i = (\<lambda>(m, ps).
     if list_ex (\<lambda>j. touchIDs m ! j = pendingTouchIDs m ! i) [0..<touchPointCount m] then Some (m, ps)
     else if length ps < LENS_MAX_TOUCH_POINTS then
       Some (m\<lparr>touchIsDragging := (touchIsDragging m)[i := False]\<rparr>,
         ps @ [\<lparr>tp_state = TouchEvent_TOUCH_PRESSED, tp_id = pendingTouchIDs m ! i, tp_x = pendingTouchXs m ! i,
                tp_y = pendingTouchYs m ! i, tp_device = pendingTouchTrackingIDs m ! i\<rparr>])
     else None)"

definition release_all :: "(nat \<Rightarrow> int) \<Rightarrow> LensInputMouseState \<Rightarrow> LensInputMouseState \<times> touch_point list" where
  "release_all stack m =
     (m\<lparr>touchIsDragging := replicate (touchPointCount m) False @ drop (touchPointCount m) (touchIsDragging m)\<rparr>,
      map (\<lambda>i. \<lparr>tp_state = TouchEvent_TOUCH_RELEASED, tp_id = touchIDs m ! i, tp_x = touchXs m ! i,
                tp_y = touchYs m ! i, tp_device = stack i\<rparr>) [0..<touchPointCount m])"

text \<open>The last component is \<open>needToSavePendingPoints\<close>.\<close>

definition touch_report ::
    "LensInputDevice \<Rightarrow> lens_input \<Rightarrow> (nat \<Rightarrow> int) \<Rightarrow> LensInputMouseState \<Rightarrow>
     (LensInputMouseState \<times> touch_point list \<times> bool) option" where
  "touch_report device g stack m =
     (if pendingTouchPointCount m \<noteq> 0 then do {
        (m, ps) \<leftarrow> for_range 0 (pendingTouchPointCount m) report_new
                     (fold (report_existing g stack) [0..<touchPointCount m] (m, []));
        Some (m, ps, True)
      }
      else if isTouch device \<and> touchPointCount m \<noteq> 0 then
        (let (m, ps) = release_all stack m in Some (m, ps, False))
      else Some (m, [], True))"

subsection \<open>The primary finger\<close>

definition first_index :: "(touch_point \<Rightarrow> bool) \<Rightarrow> touch_point list \<Rightarrow> nat option" where
  "first_index P ps = List.find (\<lambda>i. P (ps ! i)) [0..<length ps]"

text \<open>Its identifier, its index in the report (-1 for none), and whether another finger took its place.\<close>

definition choose_primary :: "int \<Rightarrow> touch_point list \<Rightarrow> int \<times> int \<times> bool" where
  "choose_primary primary ps =
     (let down = (\<lambda>p. tp_state p \<noteq> TouchEvent_TOUCH_RELEASED) in
      if primary = - 1 then
        case first_index (\<lambda>p. tp_state p = TouchEvent_TOUCH_PRESSED) ps of
          None \<Rightarrow> (primary, - 1, False)
        | Some i \<Rightarrow> (tp_id (ps ! i), int i, False)
      else if primary > 0 then
        case first_index (\<lambda>p. tp_id p = primary \<and> down p) ps of
          Some i \<Rightarrow> (primary, int i, False)
        | None \<Rightarrow>
            (case first_index down ps of
               None \<Rightarrow> (primary, - 1, False)
             | Some i \<Rightarrow> (tp_id (ps ! i), int i, True))
      else (primary, - 1, False))"

text \<open>Without support for several fingers the report is reduced to the primary one, which gets the identifier 1.\<close>

definition single_mode :: "LensInputDevice \<Rightarrow> lens_input \<Rightarrow> bool" where
  "single_mode device g \<longleftrightarrow> \<not> gUseMultiTouch g \<and> isTouch device \<and> touchProtocolType device \<noteq> TOUCH_PROTOCOL_ST"

definition single_point :: "int \<Rightarrow> bool \<Rightarrow> touch_point list \<Rightarrow> int \<times> touch_point list" where
  "single_point index reassigned ps =
     (if index > - 1 then
        let p = ps ! nat index;
            st = (if reassigned \<and> tp_state p = TouchEvent_TOUCH_PRESSED then TouchEvent_TOUCH_MOVED else tp_state p)
        in (0, [(hd ps)\<lparr>tp_id := 1, tp_state := st, tp_x := tp_x p, tp_y := tp_y p\<rparr>])
      else (index, [(hd ps)\<lparr>tp_id := 1\<rparr>]))"

definition notify_touch ::
    "LensInputDevice \<Rightarrow> LensInputMouseState \<Rightarrow> lens_input \<Rightarrow> touch_point list \<Rightarrow> bool \<Rightarrow>
     (LensInputMouseState \<times> lens_input \<times> touch_point list \<times> bool) option" where
  "notify_touch device m g ps save =
     (if list_all (\<lambda>p. tp_state p = TouchEvent_TOUCH_STILL) ps then Some (m, g, ps, save)
      else let (primary, index, reassigned) = choose_primary (touchPrimaryPointID m) ps;
               m = m\<lparr>touchPrimaryPointID := (if index = - 1 then - 1 else primary)\<rparr>;
               (index', ps') = (if single_mode device g then single_point index reassigned ps else (index, ps))
           in do {
             g \<leftarrow> (if index' > - 1 then do {
                     x \<leftarrow> read_at (pendingTouchXs m) index';
                     y \<leftarrow> read_at (pendingTouchYs m) index';
                     Some (g\<lparr>in_mousePosX := x, in_mousePosY := y\<rparr>)
                   }
                   else Some g);
             Some (m, notify (Touch (map tp_state ps') (map tp_id ps') (map tp_x ps') (map tp_y ps') index') g,
                   ps', save \<and> index \<noteq> - 1)
           })"

subsection \<open>The mouse\<close>

definition mouse_events ::
    "sync_tally \<Rightarrow> LensInputMouseState \<Rightarrow> lens_input \<Rightarrow> (LensInputMouseState \<times> lens_input) option" where
  "mouse_events t m g = do {
     g \<leftarrow> Some (g\<lparr>in_mousePosX := newMousePosX g, in_mousePosY := newMousePosY g\<rparr>);
     g \<leftarrow> (if keyEventIndex t \<ge> 0 then do {
             e \<leftarrow> read_at (pendingInputEvents m) (keyEventIndex t);
             Some (lens_input_pointerEvents_handleKeyEvent e g)
           }
           else Some g);
     if reportMouseMove t then do {
       g \<leftarrow> Some (notify (Motion (in_mousePosX g) (in_mousePosY g)) g);
       wheel \<leftarrow> read_at (rel_axes m) REL_WHEEL;
       Some (m\<lparr>rel_axes := replicate 16 0\<rparr>,
             if wheel \<noteq> 0 then notify (Scroll (in_mousePosX g) (in_mousePosY g) wheel) g else g)
     }
     else Some (m, g)
   }"

subsection \<open>The points are stored for the next report\<close>

definition store :: "'a list \<Rightarrow> 'a list \<Rightarrow> 'a list" where
  "store new old = new @ drop (length new) old"

definition save_points :: "bool \<Rightarrow> touch_point list \<Rightarrow> LensInputMouseState \<Rightarrow> LensInputMouseState" where
  "save_points save ps m =
     (if save then
        let qs = filter (\<lambda>p. tp_state p \<noteq> TouchEvent_TOUCH_RELEASED) ps
        in m\<lparr>touchIDs := store (map tp_id qs) (touchIDs m), touchXs := store (map tp_x qs) (touchXs m),
             touchYs := store (map tp_y qs) (touchYs m),
             touchTrackingIDs := store (map tp_device qs) (touchTrackingIDs m), touchPointCount := length qs\<rparr>
      else m\<lparr>touchPointCount := 0\<rparr>)"

definition lens_input_pointerEvents_handleSync ::
    "(nat \<Rightarrow> int) \<Rightarrow> LensInputDevice \<Rightarrow> LensInputMouseState \<times> lens_input \<Rightarrow> (LensInputMouseState \<times> lens_input) option" where
  "lens_input_pointerEvents_handleSync stack device = (\<lambda>(m, g). do {
     (t, m, g) \<leftarrow> sync_events device 0 (pendingInputEvents m) (first_tally, begin_sync m, g);
     (ok, m) \<leftarrow> Some (preprocess device t m);
     if \<not> ok then Some (m\<lparr>pendingInputEvents := []\<rparr>, g)
     else do {
       m \<leftarrow> assign_ids m;
       (m, ps, save) \<leftarrow> touch_report device g stack m;
       (m, g, ps, save) \<leftarrow> notify_touch device m g ps save;
       (m, g) \<leftarrow> (if isTouch device then Some (m, g) else mouse_events t m g);
       Some (save_points save ps (m\<lparr>pendingInputEvents := []\<rparr>), g)
     }
   })"

section \<open>Events\<close>

definition lens_input_pointerEvents_handleEvent ::
    "bool \<Rightarrow> (nat \<Rightarrow> int) \<Rightarrow> LensInputDevice \<Rightarrow> linux_input_event \<Rightarrow> LensInputMouseState \<times> lens_input \<Rightarrow>
     (LensInputMouseState \<times> lens_input) option" where
  "lens_input_pointerEvents_handleEvent mem stack device e = (\<lambda>(m, g).
     if ev_type e = EV_SYN \<and> ev_code e = SYN_REPORT then lens_input_pointerEvents_handleSync stack device (m, g)
     else if ev_type e \<in> {EV_SYN, EV_KEY, EV_REL, EV_ABS}
     then Some (lens_input_pointerEvents_enqueuePendingEvent mem e m, g)
     else Some (m, g))"

definition lens_input_keyEvents_handleEvent :: "linux_input_event \<Rightarrow> win option \<Rightarrow> lens_input \<Rightarrow> lens_input" where
  "lens_input_keyEvents_handleEvent e focused g =
     (let key = (\<lambda>t. Key t (glass_inputEvents_getJavaKeycodeFromPlatformKeyCode (ev_code e))) in
      if ev_type e = EV_KEY \<and> focused \<noteq> None then
        if ev_value e = LENSFB_KEY_PRESSED then notify (key KeyEvent_PRESS False) g
        else if ev_value e = LENSFB_KEY_RELEASED then notify (key KeyEvent_RELEASE False) g
        else if ev_value e = LENSFB_KEY_REPEAT then notify (key KeyEvent_PRESS True) g
        else g
      else g)"

text \<open>What the event loop does with one event of a device; the requests reach the window manager at once.\<close>

definition handle_input ::
    "bool \<Rightarrow> (nat \<Rightarrow> int) \<Rightarrow> linux_input_event \<Rightarrow> LensInputDevice \<times> lens_input \<times> lens \<Rightarrow>
     (LensInputDevice \<times> lens_input \<times> lens) option" where
  "handle_input mem stack e = (\<lambda>(device, g, s). do {
     (device, g) \<leftarrow>
       (if isKeyboard device then
          Some (device, lens_input_keyEvents_handleEvent e (glass_window_getFocusedWindow s) g)
        else if isPointer device \<or> isTouch device then do {
          m \<leftarrow> mouse_state device;
          (m, g) \<leftarrow> lens_input_pointerEvents_handleEvent mem stack device e (m, g);
          Some (device\<lparr>mouse_state := Some m\<rparr>, g)
        }
        else Some (device, g));
     s \<leftarrow> run perform (notified g) s;
     Some (device, g\<lparr>notified := []\<rparr>, s)
   })"

text \<open>
  An event of one of the attached devices, as the loop gets it: the position of the device among them, the
  results of an allocation and of the stack, the event. One for a device that is not there any more is skipped.
\<close>

type_synonym arrival = "nat \<times> bool \<times> (nat \<Rightarrow> int) \<times> linux_input_event"

definition loop_step :: "arrival \<Rightarrow> LensInputDevice list \<times> lens_input \<times> lens \<Rightarrow> (LensInputDevice list \<times> lens_input \<times> lens) option" where
  "loop_step = (\<lambda>(i, mem, stack, e) (devices, g, s).
     if i < length devices then do {
       (device, g, s) \<leftarrow> handle_input mem stack e (devices ! i, g, s);
       Some (devices[i := device], g, s)
     }
     else Some (devices, g, s))"

end
