(* ===== verification/UdevPoints.thy ===== *)
theory UdevPoints
  imports UdevInput
begin

text \<open>
  What holds of the devices of \<open>UdevInput\<close>: positions on the screen, the reading of a report, and the
  identifiers of fingers.
\<close>

section \<open>Positions on the screen\<close>

text \<open>The axes of a device: what the kernel says of the four axes that give positions.\<close>

definition axis_ok :: "input_absinfo \<Rightarrow> int \<Rightarrow> bool" where
  "axis_ok info v \<longleftrightarrow> axis_minimum info < axis_maximum info \<and> axis_maximum info - axis_minimum info < 2 ^ 24 \<and>
     axis_minimum info \<le> v \<and> v \<le> axis_maximum info"

lemma scaled_within:
  assumes "axis_ok info v" "0 \<le> extent" "extent < 2 ^ 24"
  shows "\<exists>z. scaled info v extent = Some z \<and> 0 \<le> z \<and> z \<le> extent"
proof -
  define a b where "a = v - axis_minimum info" and "b = axis_maximum info - axis_minimum info"
  have ab: "0 \<le> a" "a \<le> b" "0 < b" "b < 2 ^ 24" using assms(1) by (auto simp: axis_ok_def a_def b_def)
  let ?q = "of_int a / of_int b :: rat"
  let ?f = "float32 ?q" let ?h = "float32 (?f * of_int extent)"
  have sc: "scaled info v extent = Some (roundf ?h)"
    using assms ab by (simp add: scaled_def float32_int Let_def flip: a_def b_def) (simp add: b_def axis_ok_def)
  have "0 \<le> ?q" "?q \<le> of_int 1" using ab by auto
  note f = float32_within [OF this]
  have "?f * of_int extent \<le> of_int extent" using f assms(2) by (simp add: mult_left_le_one_le)
  moreover have "0 \<le> ?f * of_int extent" using f assms(2) by simp
  ultimately have h: "0 \<le> ?h" "?h \<le> of_int extent" using float32_within assms(3) by blast+
  then have "0 \<le> \<lfloor>?h + 1 / 2\<rfloor>" by (simp add: le_floor_iff)
  moreover have "\<lfloor>?h + 1 / 2\<rfloor> < extent + 1" using h(2) by (subst floor_less_iff) simp
  ultimately show ?thesis using h by (simp add: sc roundf_def)
qed

text \<open>The largest position of an axis is one pixel outside the screen.\<close>

lemma scaled_maximum:
  assumes "axis_ok info v" "0 \<le> extent" "extent < 2 ^ 24" "v = axis_maximum info"
  shows "scaled info v extent = Some extent"
proof -
  define b where "b = axis_maximum info - axis_minimum info"
  have b: "0 < b" "b < 2 ^ 24" "axis_maximum info \<noteq> axis_minimum info" using assms by (auto simp: axis_ok_def b_def)
  moreover have "\<lfloor>of_int extent + 1 / 2 :: rat\<rfloor> = extent" by (simp add: floor_eq_iff)
  moreover have "float32 1 = 1" using float32_int [of 1] by simp
  ultimately show ?thesis using assms by (simp add: scaled_def float32_int roundf_def flip: b_def)
qed
section \<open>What holds of a device and of its events\<close>

definition coordinate :: "int \<Rightarrow> bool" where
  "coordinate v \<longleftrightarrow> - 1 \<le> v \<and> v \<le> 32000"

definition screen_size_ok :: "lens_input \<Rightarrow> bool" where
  "screen_size_ok g \<longleftrightarrow> 0 \<le> screenWidth g \<and> screenWidth g \<le> 32000 \<and> 0 \<le> screenHeight g \<and> screenHeight g \<le> 32000"

lemma scaled_coordinate:
  assumes "axis_ok info v" "0 \<le> extent" "extent \<le> 32000"
  shows "returns (scaled info v extent) coordinate"
  using scaled_within [of info v extent] assms by (auto simp: returns_iff coordinate_def)

text \<open>The kernel gives positions within the range of their axis, and only axes that exist.\<close>

definition event_ok :: "LensInputDevice \<Rightarrow> linux_input_event \<Rightarrow> bool" where
  "event_ok device e \<longleftrightarrow> length (absinfo device) = 64 \<and>
     (ev_type e = EV_REL \<longrightarrow> 0 \<le> ev_code e \<and> ev_code e < 16) \<and>
     (ev_type e = EV_ABS \<longrightarrow> 0 \<le> ev_code e \<and> ev_code e < 64 \<and>
       (ev_code e \<in> {ABS_X, ABS_Y, ABS_MT_POSITION_X, ABS_MT_POSITION_Y} \<longrightarrow>
         axis_ok (absinfo device ! nat (ev_code e)) (ev_value e)))"

definition touch_axis :: "linux_input_event \<Rightarrow> bool" where
  "touch_axis e \<longleftrightarrow> ev_type e = EV_ABS \<and> ev_code e \<in> {ABS_MT_POSITION_X, ABS_MT_POSITION_Y, ABS_MT_TRACKING_ID}"

definition separator :: "linux_input_event \<Rightarrow> bool" where
  "separator e \<longleftrightarrow> ev_type e = EV_SYN \<and> ev_code e = SYN_MT_REPORT"

text \<open>A report describes at most 20 fingers: after \<open>n\<close> of them, these events follow.\<close>

fun slots_ok :: "nat \<Rightarrow> linux_input_event list \<Rightarrow> bool" where
  "slots_ok n [] = True"
| "slots_ok n (e # es) = ((touch_axis e \<longrightarrow> n < 20) \<and> slots_ok (if separator e then Suc n else n) es)"

definition sizes_ok :: "LensInputMouseState \<Rightarrow> bool" where
  "sizes_ok m \<longleftrightarrow> length (rel_axes m) = 16 \<and> length (abs_axes m) = 64 \<and> touchPointCount m \<le> 20 \<and>
     pendingTouchPointCount m \<le> 20 \<and> length (touchIDs m) = 20 \<and> length (touchXs m) = 20 \<and> length (touchYs m) = 20 \<and>
     length (touchIsDragging m) = 20 \<and> length (touchTrackingIDs m) = 20 \<and> length (pendingTouchIDs m) = 20 \<and>
     length (pendingTouchXs m) = 20 \<and> length (pendingTouchYs m) = 20 \<and> length (pendingTouchTrackingIDs m) = 20"

definition near :: "int list \<Rightarrow> bool" where
  "near xs \<longleftrightarrow> (\<forall>x \<in> set xs. coordinate x)"

lemma near_update: "near xs \<Longrightarrow> coordinate x \<Longrightarrow> near (xs[i := x])"
  unfolding near_def using set_update_subset_insert [of xs i x] by auto

lemma near_nth: "near xs \<Longrightarrow> i < length xs \<Longrightarrow> coordinate (xs ! i)"
  by (simp add: near_def)

definition pending_ok :: "LensInputMouseState \<Rightarrow> bool" where
  "pending_ok m \<longleftrightarrow> near (pendingTouchXs m) \<and> near (pendingTouchYs m) \<and> coordinate (pressedX m) \<and> coordinate (pressedY m)"

text \<open>The fingers that are known to be down, and what reading a queue leaves as it is.\<close>

definition same_points :: "LensInputMouseState \<Rightarrow> LensInputMouseState \<Rightarrow> bool" where
  "same_points m m' \<longleftrightarrow> touchPointCount m' = touchPointCount m \<and> touchIDs m' = touchIDs m \<and> touchXs m' = touchXs m \<and>
     touchYs m' = touchYs m \<and> touchPrimaryPointID m' = touchPrimaryPointID m \<and> pendingInputEvents m' = pendingInputEvents m"

definition same_input :: "lens_input \<Rightarrow> lens_input \<Rightarrow> bool" where
  "same_input g g' \<longleftrightarrow> screenWidth g' = screenWidth g \<and> screenHeight g' = screenHeight g \<and>
     gUseMultiTouch g' = gUseMultiTouch g"

definition reading :: "LensInputMouseState \<Rightarrow> lens_input \<Rightarrow> nat \<Rightarrow> sync_tally \<times> LensInputMouseState \<times> lens_input \<Rightarrow> bool" where
  "reading m0 g0 i = (\<lambda>(t, m, g). sizes_ok m \<and> pending_ok m \<and> same_points m0 m \<and> nextTouchID m = nextTouchID m0 \<and>
     same_input g0 g \<and> notified g = notified g0 \<and> - 1 \<le> keyEventIndex t \<and> keyEventIndex t < int i)"

lemmas frame_defs = sizes_ok_def pending_ok_def same_points_def same_input_def

lemma read_at_in: "0 \<le> i \<Longrightarrow> i < int (length xs) \<Longrightarrow> read_at xs i = Some (xs ! nat i)"
  by (simp add: read_at_def nat_less_iff)

lemma write_at_in: "0 \<le> i \<Longrightarrow> i < int (length xs) \<Longrightarrow> write_at xs i x = Some (xs[nat i := x])"
  by (simp add: write_at_def nat_less_iff)

lemma absMotion_reading:
  assumes "reading m0 g0 i (t, m, g)" "screen_size_ok g0" "event_ok device e" "ev_type e = EV_ABS"
    and "touch_axis e \<Longrightarrow> pendingTouchPointCount m < 20"
  shows "returns (lens_input_pointerEvents_handleAbsMotion device e (m, g))
    (\<lambda>(m', g'). reading m0 g0 i (t, m', g') \<and> pendingTouchPointCount m' = pendingTouchPointCount m)"
proof -
  have c: "0 \<le> ev_code e" "ev_code e < 64" "length (absinfo device) = 64" using assms(3,4) by (auto simp: event_ok_def)
  have g: "0 \<le> screenWidth g" "screenWidth g \<le> 32000" "0 \<le> screenHeight g" "screenHeight g \<le> 32000"
    using assms(1,2) by (auto simp: reading_def same_input_def screen_size_ok_def)
  let ?info = "absinfo device ! nat (ev_code e)"
  have sx: "returns (scaled ?info (ev_value e) (screenWidth g)) coordinate"
    if "ev_code e \<in> {ABS_X, ABS_Y, ABS_MT_POSITION_X, ABS_MT_POSITION_Y}"
    using assms(3,4) that g by (intro scaled_coordinate) (auto simp: event_ok_def)
  have sy: "returns (scaled ?info (ev_value e) (screenHeight g)) coordinate"
    if "ev_code e \<in> {ABS_X, ABS_Y, ABS_MT_POSITION_X, ABS_MT_POSITION_Y}"
    using assms(3,4) that g by (intro scaled_coordinate) (auto simp: event_ok_def)
  have m: "length (abs_axes m) = 64" "length (pendingTouchXs m) = 20" "length (pendingTouchYs m) = 20"
    using assms(1) by (auto simp: reading_def sizes_ok_def)
  show ?thesis
    using sx sy c m assms(1,5) assms(4)
    unfolding lens_input_pointerEvents_handleAbsMotion_def
    by (auto simp: read_at_in write_at_in touch_axis_def reading_def frame_defs near_update returns_iff)
qed

lemma relMotion_reading:
  assumes "reading m0 g0 i (t, m, g)" "event_ok device e" "ev_type e = EV_REL"
  shows "returns (lens_input_pointerEvents_handleRelMotion e (m, g))
    (\<lambda>(m', g'). reading m0 g0 i (t, m', g') \<and> pendingTouchPointCount m' = pendingTouchPointCount m)"
  using assms
  by (auto simp: lens_input_pointerEvents_handleRelMotion_def read_at_in write_at_in reading_def frame_defs event_ok_def)

lemma sync_event_reading:
  assumes "reading m0 g0 i (t, m, g)" "screen_size_ok g0" "event_ok device e" "ev_type e \<in> {EV_SYN, EV_KEY, EV_REL, EV_ABS}"
    and "touch_axis e \<Longrightarrow> pendingTouchPointCount m < 20"
  shows "returns (sync_event device i e (t, m, g)) (\<lambda>(t', m', g'). reading m0 g0 (Suc i) (t', m', g') \<and>
    pendingTouchPointCount m' = min 20 (pendingTouchPointCount m + (if separator e then 1 else 0)))"
proof -
  have n: "pendingTouchPointCount m \<le> 20" using assms(1) by (auto simp: reading_def sizes_ok_def)
  consider "ev_type e = EV_SYN" | "ev_type e = EV_KEY" | "ev_type e = EV_REL" | "ev_type e = EV_ABS" using assms(4) by blast
  then show ?thesis
  proof cases
    case 1
    then show ?thesis using assms(1) n by (auto simp: sync_event_def separator_def reading_def frame_defs)
  next
    case 2
    then show ?thesis using assms(1) n by (auto simp: sync_event_def separator_def reading_def frame_defs)
  next
    case 3
    from relMotion_reading [OF assms(1,3) 3] n 3 show ?thesis
      by (auto simp: sync_event_def separator_def reading_def returns_iff)
  next
    case 4
    from absMotion_reading [OF assms(1-3) 4 assms(5)] obtain m' g' where
      r: "lens_input_pointerEvents_handleAbsMotion device e (m, g) = Some (m', g')" "reading m0 g0 i (t, m', g')"
        "pendingTouchPointCount m' = pendingTouchPointCount m" by (auto simp: returns_iff)
    have "ev_code e = ABS_MT_TRACKING_ID \<Longrightarrow> pendingTouchPointCount m < 20" using assms(5) 4 by (simp add: touch_axis_def)
    then have "returns (store_tracking_id e m') (\<lambda>m''. reading m0 g0 i (t, m'', g') \<and>
        pendingTouchPointCount m'' = pendingTouchPointCount m')"
      using r(2,3) by (auto simp: store_tracking_id_def write_at_in reading_def frame_defs)
    then show ?thesis using 4 r n by (auto simp: sync_event_def separator_def returns_iff count_point_def reading_def)
  qed
qed

lemma slots_ok_mono: "slots_ok n es \<Longrightarrow> k \<le> n \<Longrightarrow> slots_ok k es"
proof (induction es arbitrary: n k)
  case (Cons e es)
  from Cons.IH [of "if separator e then Suc n else n" "if separator e then Suc k else k"] Cons.prems
  show ?case by (auto split: if_splits)
qed simp

lemma sync_events_reading:
  assumes "reading m0 g0 i (t, m, g)" "screen_size_ok g0" "\<forall>e \<in> set es. event_ok device e \<and> ev_type e \<in> {EV_SYN, EV_KEY, EV_REL, EV_ABS}"
    and "slots_ok n es" "pendingTouchPointCount m \<le> n"
  shows "returns (sync_events device i es (t, m, g)) (reading m0 g0 (i + length es))"
  using assms
proof (induction es arbitrary: i t m g n)
  case (Cons e es)
  then have "returns (sync_event device i e (t, m, g)) (\<lambda>(t', m', g'). reading m0 g0 (Suc i) (t', m', g') \<and>
      pendingTouchPointCount m' = min 20 (pendingTouchPointCount m + (if separator e then 1 else 0)))"
    by (intro sync_event_reading) auto
  then obtain t' m' g' where r: "sync_event device i e (t, m, g) = Some (t', m', g')" "reading m0 g0 (Suc i) (t', m', g')"
      "pendingTouchPointCount m' = min 20 (pendingTouchPointCount m + (if separator e then 1 else 0))"
    by (auto simp: returns_iff)
  have "returns (sync_events device (Suc i) es (t', m', g')) (reading m0 g0 (Suc i + length es))"
    using Cons.prems r by (intro Cons.IH [of _ _ _ _ "if separator e then Suc n else n"]) auto
  with r(1) show ?case by simp
qed simp
section \<open>Identifiers\<close>

definition dist2 :: "int list \<Rightarrow> int list \<Rightarrow> int \<Rightarrow> int \<Rightarrow> nat \<Rightarrow> int" where
  "dist2 xs ys x y j = (x - xs ! j) * (x - xs ! j) + (y - ys ! j) * (y - ys ! j)"

lemma square_coordinate: "coordinate a \<Longrightarrow> coordinate b \<Longrightarrow> (a - b) * (a - b) \<le> 32001 * 32001"
proof -
  assume "coordinate a" "coordinate b"
  then have "\<bar>a - b\<bar> \<le> 32001" by (auto simp: coordinate_def)
  then have "\<bar>a - b\<bar> * \<bar>a - b\<bar> \<le> 32001 * 32001" by (intro mult_mono) auto
  then show ?thesis by simp
qed

lemma dist2_small:
  "coordinate x \<Longrightarrow> coordinate y \<Longrightarrow> coordinate (xs ! j) \<Longrightarrow> coordinate (ys ! j) \<Longrightarrow> dist2 xs ys x y j < 2147483647"
  using square_coordinate [of x "xs ! j"] square_coordinate [of y "ys ! j"] by (simp add: dist2_def)

lemma nearest_spec:
  assumes "coordinate x" "coordinate y" "\<And>j. j < n \<Longrightarrow> coordinate (xs ! j) \<and> coordinate (ys ! j)"
    and "\<exists>j < n. \<not> mapped ! j"
  shows "\<exists>k < n. nearest n mapped xs ys x y = int k \<and> \<not> mapped ! k \<and>
    (\<forall>j < n. \<not> mapped ! j \<longrightarrow> dist2 xs ys x y k \<le> dist2 xs ys x y j)"
proof -
  let ?F = "\<lambda>i. fold (nearer mapped xs ys x y) [0..<i] (2147483647, - 1)"
  have F: "(snd (?F i) = - 1 \<and> fst (?F i) = 2147483647 \<and> (\<forall>j < i. mapped ! j)) \<or>
      (\<exists>k < i. snd (?F i) = int k \<and> fst (?F i) = dist2 xs ys x y k \<and> \<not> mapped ! k \<and>
         (\<forall>j < i. \<not> mapped ! j \<longrightarrow> dist2 xs ys x y k \<le> dist2 xs ys x y j))" if "i \<le> n" for i
    using that
  proof (induction i)
    case (Suc i)
    have d: "dist2 xs ys x y i < 2147483647" using assms(1-3) Suc.prems by (intro dist2_small) auto
    from Suc have IH: "(snd (?F i) = - 1 \<and> fst (?F i) = 2147483647 \<and> (\<forall>j < i. mapped ! j)) \<or>
      (\<exists>k < i. snd (?F i) = int k \<and> fst (?F i) = dist2 xs ys x y k \<and> \<not> mapped ! k \<and>
         (\<forall>j < i. \<not> mapped ! j \<longrightarrow> dist2 xs ys x y k \<le> dist2 xs ys x y j))" by simp
    have step: "?F (Suc i) = (if \<not> mapped ! i \<and> dist2 xs ys x y i < fst (?F i) then (dist2 xs ys x y i, int i) else ?F i)"
      by (simp add: nearer_def dist2_def split_beta)
    from IH show ?case
    proof (elim disjE exE conjE)
      assume "snd (?F i) = - 1" "fst (?F i) = 2147483647" "\<forall>j < i. mapped ! j"
      with d show ?thesis unfolding step by (auto simp: less_Suc_eq)
    next
      fix k assume "k < i" "snd (?F i) = int k" "fst (?F i) = dist2 xs ys x y k" "\<not> mapped ! k"
        "\<forall>j < i. \<not> mapped ! j \<longrightarrow> dist2 xs ys x y k \<le> dist2 xs ys x y j"
      then show ?thesis unfolding step by (auto simp: less_Suc_eq intro: order_trans less_imp_le)
    qed
  qed simp
  from F [of n] assms(4) show ?thesis by (auto simp: nearest_def)
qed

text \<open>The existing points get pending points of their own.\<close>

definition marked :: "bool list \<Rightarrow> nat set" where
  "marked mapped = {j. j < length mapped \<and> mapped ! j}"

lemma marked_update: "k < length mapped \<Longrightarrow> marked (mapped[k := True]) = insert k (marked mapped)"
  by (auto simp: marked_def nth_list_update)

lemma marked_none [simp]: "marked (replicate n False) = {}"
  by (auto simp: marked_def)

lemma unmarked_exists:
  assumes "marked mapped \<subseteq> {..<n}" "card (marked mapped) < n" "n \<le> length mapped"
  shows "\<exists>j < n. \<not> mapped ! j"
proof (rule ccontr)
  assume "\<not> ?thesis"
  then have "{..<n} \<subseteq> marked mapped" using assms(3) by (auto simp: marked_def)
  then have "n \<le> card (marked mapped)" using assms(1) by (metis card_lessThan card_mono finite_lessThan finite_subset)
  with assms(2) show False by simp
qed

lemma bij_betw_add:
  assumes "bij_betw f M A" "k \<notin> M" "b \<notin> A" "\<And>j. j \<in> M \<Longrightarrow> f' j = f j" "f' k = b"
  shows "bij_betw f' (insert k M) (insert b A)"
proof -
  have "bij_betw f' M A" using assms(1,4) by (simp cong: bij_betw_cong)
  then show ?thesis using assms(2,3,5) by (auto simp: bij_betw_def)
qed

definition matched :: "nat \<Rightarrow> int set \<Rightarrow> bool list \<times> int list \<Rightarrow> bool" where
  "matched n A = (\<lambda>(mapped, ids). length mapped = 20 \<and> length ids = 20 \<and> marked mapped \<subseteq> {..<n} \<and>
     bij_betw ((!) ids) (marked mapped) A)"

lemma matched_card: "matched n A (mapped, ids) \<Longrightarrow> card (marked mapped) = card A"
  by (auto simp: matched_def intro: bij_betw_same_card)

lemma alive_upto: "i < touchPointCount m \<Longrightarrow> sizes_ok m \<Longrightarrow>
    set (take (Suc i) (touchIDs m)) = insert (touchIDs m ! i) (set (take i (touchIDs m)))"
  by (simp add: take_Suc_conv_app_nth sizes_ok_def)

definition alive :: "LensInputMouseState \<Rightarrow> int set" where
  "alive m = set (take (touchPointCount m) (touchIDs m))"

text \<open>What is known of the fingers that are down.\<close>

definition points_ok :: "LensInputMouseState \<Rightarrow> bool" where
  "points_ok m \<longleftrightarrow> distinct (take (touchPointCount m) (touchIDs m)) \<and> (\<forall>k \<in> alive m. 1 \<le> k \<and> k < nextTouchID m) \<and>
     (\<forall>i < touchPointCount m. coordinate (touchXs m ! i) \<and> coordinate (touchYs m ! i))"

lemma pending_nth: "pending_ok m \<Longrightarrow> sizes_ok m \<Longrightarrow> j < pendingTouchPointCount m \<Longrightarrow>
    coordinate (pendingTouchXs m ! j) \<and> coordinate (pendingTouchYs m ! j)"
  by (auto simp: pending_ok_def sizes_ok_def intro: near_nth)

lemma id_not_before:
  assumes "distinct (take c ids)" "i < c" "c \<le> length ids"
  shows "ids ! i \<notin> set (take i ids)"
proof
  assume "ids ! i \<in> set (take i ids)"
  then obtain j where j: "j < i" "ids ! j = ids ! i" using assms(2,3) by (auto simp: in_set_conv_nth)
  then have "take c ids ! j = take c ids ! i" "i < length (take c ids)" using assms(2,3) by simp_all
  with nth_eq_iff_index_eq [OF assms(1), of j i] j(1) show False by simp
qed

lemma map_existing_step:
  assumes "sizes_ok m" "pending_ok m" "points_ok m" "touchPointCount m \<le> pendingTouchPointCount m"
    and "i < touchPointCount m" "matched (pendingTouchPointCount m) (set (take i (touchIDs m))) s"
  shows "returns (map_existing m i s) (matched (pendingTouchPointCount m) (set (take (Suc i) (touchIDs m))))"
proof -
  obtain mapped ids where s: "s = (mapped, ids)" by force
  let ?n = "pendingTouchPointCount m"
  have len: "length mapped = 20" "length ids = 20" "marked mapped \<subseteq> {..<?n}" using assms(6) by (auto simp: s matched_def)
  have "card (set (take i (touchIDs m))) \<le> i" by (metis card_length length_take min.cobounded2 order_trans)
  then have "card (marked mapped) < ?n" using matched_card [of ?n _ mapped ids] assms(4-6) by (auto simp: s)
  from unmarked_exists [OF len(3) this] have "\<exists>j < ?n. \<not> mapped ! j" using assms(1) len by (simp add: sizes_ok_def)
  then obtain k where k: "nearest ?n mapped (pendingTouchXs m) (pendingTouchYs m) (touchXs m ! i) (touchYs m ! i) = int k"
      "k < ?n" "\<not> mapped ! k"
    using nearest_spec [of "touchXs m ! i" "touchYs m ! i" ?n "pendingTouchXs m" "pendingTouchYs m" mapped]
      pending_nth [OF assms(2,1)] assms(3,5) by (auto simp: points_ok_def)
  have k20: "k < 20" "k \<notin> marked mapped" using k(2,3) assms(1) by (auto simp: sizes_ok_def marked_def)
  have new: "touchIDs m ! i \<notin> set (take i (touchIDs m))"
    using assms(1,3,5) by (intro id_not_before) (auto simp: points_ok_def sizes_ok_def)
  have "bij_betw ((!) (ids[k := touchIDs m ! i])) (insert k (marked mapped)) (insert (touchIDs m ! i) (set (take i (touchIDs m))))"
    using assms(6) new k20 len by (intro bij_betw_add [of "(!) ids"]) (auto simp: s matched_def nth_list_update)
  then show ?thesis
    using k k20 len alive_upto [OF assms(5,1)] by (simp add: map_existing_def s matched_def marked_update)
qed

lemma map_pending_step:
  assumes "sizes_ok m" "pending_ok m" "points_ok m" "pendingTouchPointCount m < touchPointCount m"
    and "i < pendingTouchPointCount m"
    and "length mapped = 20" "length ids = 20" "marked mapped \<subseteq> {..<touchPointCount m}" "card (marked mapped) = i"
      "distinct (take i ids)" "set (take i ids) = (\<lambda>j. touchIDs m ! j) ` marked mapped"
  shows "returns (map_pending m i (mapped, ids)) (\<lambda>(mapped', ids'). length mapped' = 20 \<and> length ids' = 20 \<and>
    marked mapped' \<subseteq> {..<touchPointCount m} \<and> card (marked mapped') = Suc i \<and>
    distinct (take (Suc i) ids') \<and> set (take (Suc i) ids') = (\<lambda>j. touchIDs m ! j) ` marked mapped')"
proof -
  let ?n = "touchPointCount m"
  have "\<exists>j < ?n. \<not> mapped ! j" using assms by (intro unmarked_exists) (auto simp: sizes_ok_def)
  moreover have "coordinate (pendingTouchXs m ! i) \<and> coordinate (pendingTouchYs m ! i)"
    using pending_nth [OF assms(2,1,5)] .
  ultimately obtain k where k: "nearest ?n mapped (touchXs m) (touchYs m) (pendingTouchXs m ! i) (pendingTouchYs m ! i) = int k"
      "k < ?n" "\<not> mapped ! k"
    using nearest_spec [of "pendingTouchXs m ! i" "pendingTouchYs m ! i" ?n "touchXs m" "touchYs m" mapped] assms(3)
    by (auto simp: points_ok_def)
  have k20: "k < 20" "k \<notin> marked mapped" "i < 20" "?n \<le> length (touchIDs m)"
    using k(2,3) assms(1,5) by (auto simp: sizes_ok_def marked_def)
  have "touchIDs m ! k \<notin> (\<lambda>j. touchIDs m ! j) ` marked mapped"
  proof
    assume "touchIDs m ! k \<in> (\<lambda>j. touchIDs m ! j) ` marked mapped"
    then obtain j where j: "j \<in> marked mapped" "touchIDs m ! j = touchIDs m ! k" by force
    with assms(8) have "j < ?n" by auto
    with nth_eq_iff_index_eq [of "take ?n (touchIDs m)" j k] k(2) j k20 assms(3) have "j = k"
      by (simp add: points_ok_def)
    with j k20 show False by simp
  qed
  moreover have "finite (marked mapped)" by (simp add: marked_def)
  ultimately show ?thesis
    using k k20 assms(6-11) by (simp add: map_pending_def marked_update take_Suc_conv_app_nth)
qed

lemma new_ids_fold:
  assumes "length ids0 = 20" "n \<le> 20" "fold (new_id mapped) [0..<n] (ids0, nxt0) = (ids, nxt)"
  shows "length ids = 20 \<and> nxt0 \<le> nxt \<and> (\<forall>j. n \<le> j \<or> mapped ! j \<longrightarrow> ids ! j = ids0 ! j) \<and>
    (\<forall>j < n. \<not> mapped ! j \<longrightarrow> nxt0 \<le> ids ! j \<and> ids ! j < nxt) \<and>
    inj_on ((!) ids) {j. j < n \<and> \<not> mapped ! j}"
  using assms(2,3)
proof (induction n arbitrary: ids nxt)
  case (Suc n)
  obtain ids1 nxt1 where f: "fold (new_id mapped) [0..<n] (ids0, nxt0) = (ids1, nxt1)" by force
  with Suc have IH: "length ids1 = 20" "nxt0 \<le> nxt1" "\<And>j. n \<le> j \<or> mapped ! j \<Longrightarrow> ids1 ! j = ids0 ! j"
    "\<And>j. j < n \<Longrightarrow> \<not> mapped ! j \<Longrightarrow> nxt0 \<le> ids1 ! j \<and> ids1 ! j < nxt1"
    "inj_on ((!) ids1) {j. j < n \<and> \<not> mapped ! j}" by auto
  have last: "new_id mapped n (ids1, nxt1) = (ids, nxt)" using Suc.prems(2) f by simp
  show ?case
  proof (cases "mapped ! n")
    case True
    then have r: "ids = ids1" "nxt = nxt1" using last by (simp_all add: new_id_def)
    have set: "{j. j < Suc n \<and> \<not> mapped ! j} = {j. j < n \<and> \<not> mapped ! j}" using True by (auto simp: less_Suc_eq)
    have "nxt0 \<le> ids ! j \<and> ids ! j < nxt" if "j < Suc n" "\<not> mapped ! j" for j
      using that True IH(4) [of j] by (cases "j = n") (simp_all add: r)
    then show ?thesis unfolding set using IH(1-3,5) by (simp add: r)
  next
    case False
    then have r: "ids = ids1[n := nxt1]" "nxt = nxt1 + 1" using last by (simp_all add: new_id_def)
    have set: "{j. j < Suc n \<and> \<not> mapped ! j} = insert n {j. j < n \<and> \<not> mapped ! j}" using False by (auto simp: less_Suc_eq)
    have "inj_on ((!) ids) {j. j < n \<and> \<not> mapped ! j}" using IH(5) by (auto simp: inj_on_def r)
    moreover have "ids ! n \<notin> (!) ids ` {j. j < n \<and> \<not> mapped ! j}"
      using IH(1,4) Suc.prems(1) by (fastforce simp: r)
    ultimately have "inj_on ((!) ids) {j. j < Suc n \<and> \<not> mapped ! j}" unfolding set by (subst inj_on_insert) auto
    moreover have "ids ! j = ids0 ! j" if "Suc n \<le> j \<or> mapped ! j" for j
      using that False IH(3) [of j] by (cases "j = n") (auto simp: r)
    moreover have "nxt0 \<le> ids ! j \<and> ids ! j < nxt" if "j < Suc n" "\<not> mapped ! j" for j
    proof (cases "j = n")
      case True
      then show ?thesis using IH(1,2) Suc.prems(1) by (simp add: r)
    next
      case False
      then have "nxt0 \<le> ids1 ! j \<and> ids1 ! j < nxt1" using that IH(4) [of j] by simp
      then show ?thesis using False by (simp add: r)
    qed
    ultimately show ?thesis using IH(1,2) by (simp add: r)
  qed
qed (use assms(1) in auto)

text \<open>The points of a report after \<open>assign_ids\<close>: fingers that were down keep their identifiers, others get new ones.\<close>

definition pending_ids :: "LensInputMouseState \<Rightarrow> int list" where
  "pending_ids m = take (pendingTouchPointCount m) (pendingTouchIDs m)"

definition identified :: "LensInputMouseState \<Rightarrow> LensInputMouseState \<Rightarrow> bool" where
  "identified m m' \<longleftrightarrow> (\<exists>ids nxt. m' = m\<lparr>pendingTouchIDs := ids, nextTouchID := nxt\<rparr> \<and> length ids = 20 \<and>
     distinct (pending_ids m') \<and>
     (\<forall>k \<in> set (pending_ids m') \<union> alive m. 1 \<le> k \<and> k < nxt) \<and>
     (if touchPointCount m \<le> pendingTouchPointCount m then alive m \<subseteq> set (pending_ids m')
      else set (pending_ids m') \<subseteq> alive m) \<and>
     (alive m \<noteq> {} \<longrightarrow> nextTouchID m \<le> nxt \<and> (\<forall>k \<in> set (pending_ids m') - alive m. nextTouchID m \<le> k)))"

lemma identifiedI:
  assumes "m' = m\<lparr>pendingTouchIDs := ids, nextTouchID := nxt\<rparr>" "length ids = 20" "distinct (pending_ids m')"
    and "\<And>k. k \<in> set (pending_ids m') \<Longrightarrow> 1 \<le> k \<and> k < nxt" "\<And>k. k \<in> alive m \<Longrightarrow> 1 \<le> k \<and> k < nxt"
    and "touchPointCount m \<le> pendingTouchPointCount m \<Longrightarrow> alive m \<subseteq> set (pending_ids m')"
    and "pendingTouchPointCount m < touchPointCount m \<Longrightarrow> set (pending_ids m') \<subseteq> alive m"
    and "\<And>k. alive m \<noteq> {} \<Longrightarrow> k \<in> set (pending_ids m') \<Longrightarrow> k \<notin> alive m \<Longrightarrow> nextTouchID m \<le> k"
    and "alive m \<noteq> {} \<Longrightarrow> nextTouchID m \<le> nxt"
  shows "identified m m'"
  unfolding identified_def using assms(2-) by (intro exI [of _ ids] exI [of _ nxt] conjI assms(1)) auto

lemma distinct_take_by_parts:
  assumes "inj_on ((!) xs) {j. j < n \<and> P j}" "inj_on ((!) xs) {j. j < n \<and> \<not> P j}" "n \<le> length xs"
    and "\<And>j k. j < n \<Longrightarrow> P j \<Longrightarrow> k < n \<Longrightarrow> \<not> P k \<Longrightarrow> xs ! j \<noteq> xs ! k"
  shows "distinct (take n xs)"
proof -
  have "xs ! j \<noteq> xs ! k" if "j < n" "k < n" "j \<noteq> k" for j k
  proof (cases "P j = P k")
    case True
    with that assms(1,2) show ?thesis by (cases "P j") (auto simp: inj_on_def)
  next
    case False
    with that assms(4) [of j k] assms(4) [of k j] show ?thesis by (cases "P j") auto
  qed
  then show ?thesis using assms(3) by (auto simp: distinct_conv_nth)
qed

lemma set_take_nth: "n \<le> length xs \<Longrightarrow> set (take n xs) = (!) xs ` {..<n}"
  by (simp add: nth_image lessThan_atLeast0)

lemma new_ids_identified:
  assumes n: "pendingTouchPointCount m \<le> 20" and m: "matched (pendingTouchPointCount m) A (mapped, ids0)"
    and A: "\<And>k. k \<in> A \<Longrightarrow> 1 \<le> k \<and> k < nxt0" "1 \<le> nxt0"
  defines "m' \<equiv> new_ids mapped (pendingTouchPointCount m) (m\<lparr>pendingTouchIDs := ids0, nextTouchID := nxt0\<rparr>)"
  shows "\<exists>ids nxt. m' = m\<lparr>pendingTouchIDs := ids, nextTouchID := nxt\<rparr> \<and> length ids = 20 \<and> nxt0 \<le> nxt \<and>
     distinct (pending_ids m') \<and> (\<forall>k \<in> set (pending_ids m'). 1 \<le> k \<and> k < nxt \<and> (k \<in> A \<or> nxt0 \<le> k)) \<and> A \<subseteq> set (pending_ids m')"
proof -
  let ?n = "pendingTouchPointCount m"
  obtain ids nxt where f: "fold (new_id mapped) [0..<?n] (ids0, nxt0) = (ids, nxt)" by force
  have l: "length ids0 = 20" "marked mapped \<subseteq> {..<?n}" "bij_betw ((!) ids0) (marked mapped) A" "length mapped = 20"
    using m by (auto simp: matched_def)
  note new = new_ids_fold [OF l(1) n f]
  have m': "m' = m\<lparr>pendingTouchIDs := ids, nextTouchID := nxt\<rparr>" by (simp add: m'_def new_ids_def f)
  have P: "pending_ids m' = take ?n ids" by (simp add: m' pending_ids_def)
  have mk: "{j. j < ?n \<and> mapped ! j} = marked mapped" using l(2,4) n by (auto simp: marked_def)
  have old: "ids ! j \<in> A \<and> ids ! j = ids0 ! j" if "j < ?n" "mapped ! j" for j
  proof -
    have "j \<in> marked mapped" using that mk by blast
    then have "ids0 ! j \<in> A" using l(3) by (auto simp: bij_betw_def)
    then show ?thesis using new that by simp
  qed
  have "inj_on ((!) ids) {j. j < ?n \<and> mapped ! j}"
  proof (rule inj_onI)
    fix j k assume jk: "j \<in> {j. j < ?n \<and> mapped ! j}" "k \<in> {j. j < ?n \<and> mapped ! j}" "ids ! j = ids ! k"
    then have "ids0 ! j = ids0 ! k" using old by simp
    then show "j = k" using l(3) jk(1,2) unfolding mk bij_betw_def by (auto dest: inj_onD)
  qed
  moreover have "ids ! j \<noteq> ids ! k" if "j < ?n" "mapped ! j" "k < ?n" "\<not> mapped ! k" for j k
  proof -
    have "ids ! j \<in> A" using old [OF that(1,2)] by blast
    from A(1) [OF this] have "ids ! j < nxt0" by blast
    moreover have "nxt0 \<le> ids ! k" using new that(3,4) by simp
    ultimately show ?thesis by simp
  qed
  ultimately have d: "distinct (take ?n ids)" using new n by (intro distinct_take_by_parts [where P = "(!) mapped"]) auto
  have "1 \<le> ids ! j \<and> ids ! j < nxt \<and> (ids ! j \<in> A \<or> nxt0 \<le> ids ! j)" if "j < ?n" for j
  proof (cases "mapped ! j")
    case True
    then show ?thesis using old [OF that] A(1) [of "ids ! j"] new by auto
  next
    case False
    then show ?thesis using new that A(2) by auto
  qed
  moreover have "A \<subseteq> (!) ids ` {..<?n}"
  proof
    fix a assume "a \<in> A"
    then obtain j where "j \<in> marked mapped" "ids0 ! j = a" using l(3) by (auto simp: bij_betw_def)
    then have "j < ?n" "ids ! j = a" using mk old [of j] by auto
    then show "a \<in> (!) ids ` {..<?n}" by blast
  qed
  ultimately show ?thesis
    using new n d by (intro exI [of _ ids] exI [of _ nxt] conjI m') (auto simp: P set_take_nth)
qed

lemma assign_ids_identified:
  assumes s: "sizes_ok m" "pending_ok m" "points_ok m" and n: "pendingTouchPointCount m \<noteq> 0"
  shows "returns (assign_ids m) (identified m)"
proof -
  let ?n = "pendingTouchPointCount m" and ?c = "touchPointCount m"
  let ?none = "replicate 20 False"
  have n20: "?n \<le> 20" "?c \<le> 20" "length (pendingTouchIDs m) = 20" "length (touchIDs m) = 20" using s(1) by (auto simp: sizes_ok_def)
  have A: "\<And>k. k \<in> alive m \<Longrightarrow> 1 \<le> k \<and> k < nextTouchID m" using s(3) by (auto simp: points_ok_def)
  have start: "matched ?n {} (?none, pendingTouchIDs m)" using n20 by (simp add: matched_def bij_betw_def)
  consider "?c = 0" | "?c \<noteq> 0" "?c \<le> ?n" | "?n < ?c" by linarith
  then show ?thesis
  proof cases
    case 1
    then have "alive m = {}" by (simp add: alive_def)
    have m: "m\<lparr>pendingTouchIDs := pendingTouchIDs m, nextTouchID := 1\<rparr> = m\<lparr>nextTouchID := 1\<rparr>" by simp
    let ?m = "new_ids ?none ?n (m\<lparr>nextTouchID := 1\<rparr>)"
    obtain ids nxt where new: "?m = m\<lparr>pendingTouchIDs := ids, nextTouchID := nxt\<rparr>" "length ids = 20"
        "distinct (pending_ids ?m)" "\<forall>k \<in> set (pending_ids ?m). 1 \<le> k \<and> k < nxt"
      using new_ids_identified [OF n20(1) start, of 1] unfolding m by blast
    then have "identified m ?m" using \<open>alive m = {}\<close> 1 by (intro identifiedI [OF new(1)]) auto
    then show ?thesis using 1 n by (simp add: assign_ids_def Let_def)
  next
    case 2
    have "returns (for_range 0 ?c (map_existing m) (?none, pendingTouchIDs m)) (matched ?n (set (take (0 + ?c) (touchIDs m))))"
      using start map_existing_step [OF s 2(2)] by (intro for_range_rule) auto
    then obtain mapped ids where r: "for_range 0 ?c (map_existing m) (?none, pendingTouchIDs m) = Some (mapped, ids)"
        "matched ?n (alive m) (mapped, ids)" by (auto simp: returns_iff alive_def)
    have "alive m \<noteq> {}" using 2 n20 by (auto simp: alive_def)
    then have "1 \<le> nextTouchID m" using A by force
    let ?m = "new_ids mapped ?n (m\<lparr>pendingTouchIDs := ids\<rparr>)"
    have m: "m\<lparr>pendingTouchIDs := ids, nextTouchID := nextTouchID m\<rparr> = m\<lparr>pendingTouchIDs := ids\<rparr>" by simp
    obtain ids' nxt where new: "?m = m\<lparr>pendingTouchIDs := ids', nextTouchID := nxt\<rparr>" "length ids' = 20"
        "nextTouchID m \<le> nxt" "distinct (pending_ids ?m)" "\<forall>k \<in> set (pending_ids ?m). 1 \<le> k \<and> k < nxt \<and> (k \<in> alive m \<or> nextTouchID m \<le> k)"
        "alive m \<subseteq> set (pending_ids ?m)"
      using new_ids_identified [OF n20(1) r(2) A \<open>1 \<le> nextTouchID m\<close>] unfolding m by blast
    have "1 \<le> k \<and> k < nxt" if "k \<in> alive m" for k using A [OF that] new(3) by simp
    then have "identified m ?m" using new(2-6) 2 by (intro identifiedI [OF new(1)]) auto
    then show ?thesis using 2 n r(1) by (simp add: assign_ids_def Let_def)
  next
    case 3
    let ?I = "\<lambda>i (mapped, ids). length mapped = 20 \<and> length ids = 20 \<and> marked mapped \<subseteq> {..<?c} \<and> card (marked mapped) = i \<and>
      distinct (take i ids) \<and> set (take i ids) = (\<lambda>j. touchIDs m ! j) ` marked mapped"
    have "returns (for_range 0 ?n (map_pending m) (?none, pendingTouchIDs m)) (?I (0 + ?n))"
    proof (rule for_range_rule)
      show "?I 0 (?none, pendingTouchIDs m)" using n20 by simp
      show "returns (map_pending m i p) (?I (Suc i))" if "i < 0 + ?n" "?I i p" for i p
        using that map_pending_step [OF s 3, of i "fst p" "snd p"] by (cases p) simp
    qed
    then obtain mapped ids where r: "for_range 0 ?n (map_pending m) (?none, pendingTouchIDs m) = Some (mapped, ids)"
        "length ids = 20" "marked mapped \<subseteq> {..<?c}" "distinct (take ?n ids)"
        "set (take ?n ids) = (\<lambda>j. touchIDs m ! j) ` marked mapped" by (auto simp: returns_iff)
    have "set (take ?n ids) \<subseteq> alive m" using r(3,5) n20 by (auto simp: alive_def set_take_nth)
    then have "identified m (m\<lparr>pendingTouchIDs := ids\<rparr>)"
      using 3 r(2,4) A by (intro identifiedI [where ids = ids and nxt = "nextTouchID m"]) (auto simp: pending_ids_def)
    then show ?thesis using 3 n r(1) by (simp add: assign_ids_def Let_def)
  qed
qed
end
