(* ===== verification/UdevReports.thy ===== *)
theory UdevReports
  imports UdevPoints
begin

text \<open>
  How the fingers of a report are told: each finger that was down and each new one has one entry.
\<close>

section \<open>Preprocessing\<close>

definition keeps :: "LensInputMouseState \<Rightarrow> LensInputMouseState \<Rightarrow> bool" where
  "keeps m m' \<longleftrightarrow> same_points m m' \<and> nextTouchID m' = nextTouchID m"

lemma alive_same: "same_points m m' \<Longrightarrow> alive m' = alive m"
  by (simp add: alive_def same_points_def)

lemma points_ok_keeps: "keeps m m' \<Longrightarrow> points_ok m' = points_ok m"
  by (auto simp: keeps_def points_ok_def alive_same) (auto simp: same_points_def)

lemma keep_point_keeps:
  assumes "sizes_ok m" "pending_ok m" "points_ok m" "i \<le> touchPointCount m"
  shows "case fold (keep_point n) [0..<i] (m, 0) of (m', k) \<Rightarrow> k \<le> i \<and> sizes_ok m' \<and> pending_ok m' \<and> keeps m m' \<and>
    pressedX m' = pressedX m"
  using assms(4)
proof (induction i)
  case 0
  then show ?case using assms by (simp add: keeps_def same_points_def)
next
  case (Suc i)
  obtain m' k where f: "fold (keep_point n) [0..<i] (m, 0) = (m', k)" by force
  with Suc have IH: "k \<le> i" "sizes_ok m'" "pending_ok m'" "keeps m m'" "pressedX m' = pressedX m" by simp_all
  have "coordinate (touchXs m' ! i) \<and> coordinate (touchYs m' ! i)"
    using Suc.prems assms(3) IH(4) by (auto simp: points_ok_def keeps_def same_points_def)
  moreover have step: "fold (keep_point n) [0..<Suc i] (m, 0) = keep_point n i (m', k)" using f by simp
  ultimately show ?case unfolding step using IH by (auto simp: keep_point_def keeps_def frame_defs near_update)
qed

lemma drop_released_ok:
  assumes "sizes_ok m" "pending_ok m" "points_ok m"
  shows "sizes_ok (drop_released m)" "pending_ok (drop_released m)" "keeps m (drop_released m)"
proof -
  obtain m' k where f: "fold (keep_point (pendingTouchPointCount m)) [0..<touchPointCount m] (m, 0) = (m', k)" by force
  with keep_point_keeps [OF assms order_refl, of "pendingTouchPointCount m"] assms(1)
  have "k \<le> 20" "sizes_ok m'" "pending_ok m'" "keeps m m'" by (auto simp: sizes_ok_def)
  then show "sizes_ok (drop_released m)" "pending_ok (drop_released m)" "keeps m (drop_released m)"
    by (simp_all add: drop_released_def f keeps_def frame_defs)
qed

lemma preprocess_ok:
  assumes "sizes_ok m" "pending_ok m" "points_ok m" "preprocess device t m = (ok, m')"
  shows "sizes_ok m' \<and> pending_ok m' \<and> keeps m m'"
  using assms drop_released_ok [OF assms(1-3)]
  by (auto simp: preprocess_def preprocess_ST_def keeps_def frame_defs near_update
      split: LensInputTouchDeviceProtocols.splits if_splits)

section \<open>Reports\<close>

text \<open>
  A report on fingers: each has one entry; those that were down (\<open>A\<close>) moved, stayed or were released, the others
  are pressed.
\<close>

definition report_ok :: "int set \<Rightarrow> int \<Rightarrow> touch_point list \<Rightarrow> bool" where
  "report_ok A nxt ps \<longleftrightarrow> distinct (map tp_id ps) \<and> length ps \<le> 20 \<and> A \<subseteq> tp_id ` set ps \<and>
     (\<forall>p \<in> set ps. tp_state p \<in> {TouchEvent_TOUCH_PRESSED, TouchEvent_TOUCH_MOVED, TouchEvent_TOUCH_STILL, TouchEvent_TOUCH_RELEASED} \<and>
       (tp_state p = TouchEvent_TOUCH_PRESSED \<longleftrightarrow> tp_id p \<notin> A) \<and> 1 \<le> tp_id p \<and> tp_id p < nxt \<and>
       coordinate (tp_x p) \<and> coordinate (tp_y p))"

definition known_point :: "int set \<Rightarrow> touch_point \<Rightarrow> bool" where
  "known_point P p \<longleftrightarrow> tp_state p \<in> {TouchEvent_TOUCH_MOVED, TouchEvent_TOUCH_STILL, TouchEvent_TOUCH_RELEASED} \<and>
     (tp_state p = TouchEvent_TOUCH_RELEASED \<longleftrightarrow> tp_id p \<notin> P) \<and> coordinate (tp_x p) \<and> coordinate (tp_y p)"

definition keeps_ids :: "LensInputMouseState \<Rightarrow> LensInputMouseState \<Rightarrow> bool" where
  "keeps_ids m m' \<longleftrightarrow> keeps m m' \<and> sizes_ok m' \<and> pending_ok m' \<and>
     pendingTouchIDs m' = pendingTouchIDs m \<and> pendingTouchPointCount m' = pendingTouchPointCount m"

lemmas keeps_ids_defs = keeps_ids_def keeps_def frame_defs

lemma find_id:
  assumes "sizes_ok m"
  shows "List.find (\<lambda>j. pendingTouchIDs m ! j = k) [0..<pendingTouchPointCount m] = None \<longleftrightarrow> k \<notin> set (pending_ids m)"
    "List.find (\<lambda>j. pendingTouchIDs m ! j = k) [0..<pendingTouchPointCount m] = Some j \<Longrightarrow>
       j < pendingTouchPointCount m \<and> k \<in> set (pending_ids m)"
  using assms by (auto simp: find_None_iff find_Some_iff pending_ids_def sizes_ok_def set_take_nth)

lemma report_existing_step:
  assumes m: "sizes_ok m" "pending_ok m" "i < touchPointCount m" "coordinate (touchXs m ! i)" "coordinate (touchYs m ! i)"
    and r: "report_existing g stack i (m, ps) = (m', ps')"
  shows "keeps_ids m m' \<and> (\<exists>p. ps' = ps @ [p] \<and> tp_id p = touchIDs m ! i \<and> known_point (set (pending_ids m)) p)"
proof (cases "List.find (\<lambda>j. pendingTouchIDs m ! j = touchIDs m ! i) [0..<pendingTouchPointCount m]")
  case None
  note r = r [unfolded report_existing_def split_conv Let_def None option.case]
  have "touchIDs m ! i \<notin> set (pending_ids m)" using None unfolding find_id(1) [OF m(1)] .
  then show ?thesis using m r by (auto simp: known_point_def keeps_ids_defs)
next
  case (Some j)
  note r = r [unfolded report_existing_def split_conv Let_def Some option.case]
  note j = find_id(2) [OF m(1) Some]
  with pending_nth [OF m(2,1)] have "coordinate (pendingTouchXs m ! j)" "coordinate (pendingTouchYs m ! j)" by auto
  then show ?thesis using m r j by (auto simp: known_point_def keeps_ids_defs near_update split: if_splits)
qed

lemma report_existing_fold:
  assumes "sizes_ok m" "pending_ok m" "points_ok m" "i \<le> touchPointCount m"
    and "fold (report_existing g stack) [0..<i] (m, []) = (m', ps)"
  shows "keeps_ids m m' \<and> map tp_id ps = take i (touchIDs m) \<and> (\<forall>p \<in> set ps. known_point (set (pending_ids m)) p)"
  using assms(4,5)
proof (induction i arbitrary: m' ps)
  case 0
  then show ?case using assms by (auto simp: keeps_ids_def keeps_def same_points_def)
next
  case (Suc i)
  obtain m1 ps1 where f: "fold (report_existing g stack) [0..<i] (m, []) = (m1, ps1)" by force
  with Suc have IH: "keeps_ids m m1" "map tp_id ps1 = take i (touchIDs m)" "\<forall>p \<in> set ps1. known_point (set (pending_ids m)) p"
    and last: "report_existing g stack i (m1, ps1) = (m', ps)" by simp_all
  have same: "touchIDs m1 = touchIDs m" "touchXs m1 = touchXs m" "touchYs m1 = touchYs m"
    "touchPointCount m1 = touchPointCount m" "pending_ids m1 = pending_ids m"
    using IH(1) by (auto simp: keeps_ids_def keeps_def same_points_def pending_ids_def)
  have "keeps_ids m1 m' \<and> (\<exists>p. ps = ps1 @ [p] \<and> tp_id p = touchIDs m1 ! i \<and> known_point (set (pending_ids m1)) p)"
    using IH(1) Suc.prems(1) assms(3) same by (intro report_existing_step [OF _ _ _ _ _ last]) (auto simp: keeps_ids_def points_ok_def)
  moreover have "keeps_ids m m'" if "keeps_ids m1 m'" using that IH(1) by (auto simp: keeps_ids_def keeps_def same_points_def)
  moreover have "i < length (touchIDs m)" using assms(1) Suc.prems(1) by (simp add: sizes_ok_def)
  ultimately show ?case using IH(2,3) same by (auto simp: take_Suc_conv_app_nth)
qed

lemma report_new_step:
  assumes m: "sizes_ok m" "pending_ok m" "i < pendingTouchPointCount m" and l: "pendingTouchIDs m ! i \<notin> alive m \<Longrightarrow> length ps < 20"
  shows "returns (report_new i (m, ps)) (\<lambda>(m', ps'). keeps_ids m m' \<and>
    (if pendingTouchIDs m ! i \<in> alive m then ps' = ps
     else \<exists>p. ps' = ps @ [p] \<and> tp_id p = pendingTouchIDs m ! i \<and> tp_state p = TouchEvent_TOUCH_PRESSED \<and>
       coordinate (tp_x p) \<and> coordinate (tp_y p)))"
proof -
  have "list_ex (\<lambda>j. touchIDs m ! j = pendingTouchIDs m ! i) [0..<touchPointCount m] \<longleftrightarrow> pendingTouchIDs m ! i \<in> alive m"
    using m(1) by (force simp: list_ex_iff alive_def sizes_ok_def set_take_nth)
  then show ?thesis
    using m l pending_nth [OF m(2,1,3)] by (auto simp: report_new_def keeps_ids_defs)
qed

lemma report_new_loop:
  assumes m: "sizes_ok m" "pending_ok m" and l: "length ps + length (filter (\<lambda>k. k \<notin> alive m) (pending_ids m)) \<le> 20"
  shows "returns (for_range 0 (pendingTouchPointCount m) report_new (m, ps)) (\<lambda>(m', ps'). keeps_ids m m' \<and>
    (\<exists>qs. ps' = ps @ qs \<and> map tp_id qs = filter (\<lambda>k. k \<notin> alive m) (pending_ids m) \<and>
       (\<forall>p \<in> set qs. tp_state p = TouchEvent_TOUCH_PRESSED \<and> coordinate (tp_x p) \<and> coordinate (tp_y p))))"
proof -
  let ?n = "pendingTouchPointCount m"
  let ?I = "\<lambda>i (m', ps'). keeps_ids m m' \<and>
    (\<exists>qs. ps' = ps @ qs \<and> map tp_id qs = filter (\<lambda>k. k \<notin> alive m) (take i (pendingTouchIDs m)) \<and>
       (\<forall>p \<in> set qs. tp_state p = TouchEvent_TOUCH_PRESSED \<and> coordinate (tp_x p) \<and> coordinate (tp_y p)))"
  have "returns (for_range 0 ?n report_new (m, ps)) (?I (0 + ?n))"
  proof (rule for_range_rule)
    show "?I 0 (m, ps)" using m by (auto simp: keeps_ids_def keeps_def same_points_def)
    fix i s assume i: "i < 0 + ?n" and I: "?I i s"
    obtain m1 ps1 where s: "s = (m1, ps1)" by force
    obtain qs where I1: "keeps_ids m m1" and qs: "ps1 = ps @ qs" "map tp_id qs = filter (\<lambda>k. k \<notin> alive m) (take i (pendingTouchIDs m))"
       "\<forall>p \<in> set qs. tp_state p = TouchEvent_TOUCH_PRESSED \<and> coordinate (tp_x p) \<and> coordinate (tp_y p)"
      using I by (auto simp: s)
    have same: "alive m1 = alive m" "pendingTouchIDs m1 = pendingTouchIDs m" "pendingTouchPointCount m1 = ?n" "sizes_ok m1" "pending_ok m1"
      using I1 by (auto simp: keeps_ids_def keeps_def alive_same)
    have len: "i < length (pendingTouchIDs m)" using i m(1) by (simp add: sizes_ok_def)
    have "length ps1 < 20" if new: "pendingTouchIDs m ! i \<notin> alive m"
    proof -
      have "length (filter (\<lambda>k. k \<notin> alive m) (take (Suc i) (pendingTouchIDs m))) = Suc (length qs)"
        using qs(2) new len by (simp add: take_Suc_conv_app_nth flip: length_map [of tp_id qs])
      moreover have "pending_ids m = take (Suc i) (pendingTouchIDs m) @ drop (Suc i) (pending_ids m)"
        using i by (simp add: pending_ids_def) (metis Suc_leI append_take_drop_id take_take min.absorb1)
      then have "length (filter (\<lambda>k. k \<notin> alive m) (take (Suc i) (pendingTouchIDs m))) \<le> length (filter (\<lambda>k. k \<notin> alive m) (pending_ids m))"
        by (metis filter_append length_append le_add1)
      ultimately show ?thesis using l qs(1) by simp
    qed
    with report_new_step [OF same(4,5), of i ps1, unfolded same(1-3)] i
    have "returns (report_new i (m1, ps1)) (\<lambda>(m', ps'). keeps_ids m1 m' \<and>
      (if pendingTouchIDs m ! i \<in> alive m then ps' = ps1
       else \<exists>p. ps' = ps1 @ [p] \<and> tp_id p = pendingTouchIDs m ! i \<and> tp_state p = TouchEvent_TOUCH_PRESSED \<and>
         coordinate (tp_x p) \<and> coordinate (tp_y p)))" by simp_all
    moreover have "keeps_ids m m'" if "keeps_ids m1 m'" for m'
      using that I1 by (auto simp: keeps_ids_def keeps_def same_points_def)
    ultimately show "returns (report_new i s) (?I (Suc i))"
      using qs len by (auto simp: s returns_iff take_Suc_conv_app_nth split: if_splits)
  qed
  then show ?thesis by (simp add: pending_ids_def)
qed

lemma filter_new_length:
  assumes "distinct P" "distinct D" "length P \<le> 20" "length D \<le> 20"
    and "if length D \<le> length P then set D \<subseteq> set P else set P \<subseteq> set D"
  shows "length D + length (filter (\<lambda>k. k \<notin> set D) P) \<le> 20"
proof (cases "length D \<le> length P")
  case True
  have "length (filter (\<lambda>k. k \<notin> set D) P) = card (set P - set D)"
    using assms(1) by (simp add: set_diff_eq flip: distinct_card)
  also have "\<dots> = length P - length D" using True assms by (simp add: card_Diff_subset distinct_card)
  finally show ?thesis using True assms(3) by simp
next
  case False
  with assms(5) have "filter (\<lambda>k. k \<notin> set D) P = []" by (auto simp: filter_empty_conv)
  with assms(4) show ?thesis by simp
qed

lemma identified_frame:
  assumes "identified m m'" "sizes_ok m" "pending_ok m" "points_ok m"
  shows "touchPointCount m' = touchPointCount m \<and> touchIDs m' = touchIDs m \<and>
    pendingTouchPointCount m' = pendingTouchPointCount m \<and> alive m' = alive m \<and> sizes_ok m' \<and> pending_ok m' \<and> points_ok m' \<and>
    same_points m m' \<and> pressedX m' = pressedX m"
proof -
  obtain ids nxt where "m' = m\<lparr>pendingTouchIDs := ids, nextTouchID := nxt\<rparr>" "length ids = 20" "\<forall>k \<in> alive m. 1 \<le> k \<and> k < nxt"
    using assms(1) unfolding identified_def by blast
  then show ?thesis using assms(2-) by (simp add: alive_def frame_defs points_ok_def)
qed

lemma touch_report_ok:
  assumes m: "sizes_ok m" "pending_ok m" "points_ok m" and m': "identified m m'" and n: "pendingTouchPointCount m \<noteq> 0"
  shows "returns (touch_report device g stack m') (\<lambda>(m'', ps, save). save \<and> keeps_ids m' m'' \<and> ps \<noteq> [] \<and>
    report_ok (alive m) (nextTouchID m') ps \<and>
    map tp_id ps = take (touchPointCount m) (touchIDs m) @ filter (\<lambda>k. k \<notin> alive m) (pending_ids m') \<and>
    (touchPointCount m \<le> pendingTouchPointCount m \<longrightarrow> (\<forall>p \<in> set ps. tp_state p \<noteq> TouchEvent_TOUCH_RELEASED)))"
proof -
  let ?c = "touchPointCount m" and ?P = "pending_ids m'" and ?D = "take (touchPointCount m) (touchIDs m)"
  have eq: "touchPointCount m' = ?c" "touchIDs m' = touchIDs m" "pendingTouchPointCount m' = pendingTouchPointCount m"
    "alive m' = alive m" and ok: "sizes_ok m'" "pending_ok m'" "points_ok m'"
    using identified_frame [OF m' m] by blast+
  have ids: "distinct ?P" "\<forall>k \<in> set ?P \<union> alive m. 1 \<le> k \<and> k < nextTouchID m'"
    "if ?c \<le> pendingTouchPointCount m then alive m \<subseteq> set ?P else set ?P \<subseteq> alive m"
    using m' by (auto simp: identified_def)
  have D: "set ?D = alive m" "distinct ?D" "length ?D = ?c" "length ?P = pendingTouchPointCount m"
    using m(1,3) ok(1) eq by (auto simp: alive_def points_ok_def sizes_ok_def pending_ids_def)
  have len: "length ?D + length (filter (\<lambda>k. k \<notin> alive m) ?P) \<le> 20"
    using filter_new_length [OF ids(1) D(2)] ids(3) D m(1) by (simp add: sizes_ok_def)
  obtain m1 ps1 where f: "fold (report_existing g stack) [0..<?c] (m', []) = (m1, ps1)" by force
  from report_existing_fold [OF ok order_refl f [folded eq(1)], unfolded eq] have r1: "keeps_ids m' m1" "map tp_id ps1 = ?D"
    "\<forall>p \<in> set ps1. known_point (set ?P) p" by blast+
  have m1: "sizes_ok m1" "pending_ok m1" "alive m1 = alive m" "pending_ids m1 = ?P" "pendingTouchPointCount m1 = pendingTouchPointCount m"
    using r1(1) eq alive_same [of m' m1] by (simp_all add: keeps_ids_def keeps_def pending_ids_def)
  have "length ps1 = length ?D" using r1(2) by (metis length_map)
  with len have "length ps1 + length (filter (\<lambda>k. k \<notin> alive m1) (pending_ids m1)) \<le> 20" by (simp add: m1)
  from report_new_loop [OF m1(1,2) this] obtain m2 qs where
    r2: "for_range 0 (pendingTouchPointCount m) report_new (m1, ps1) = Some (m2, ps1 @ qs)" "keeps_ids m1 m2"
      "map tp_id qs = filter (\<lambda>k. k \<notin> alive m) ?P"
      "\<forall>p \<in> set qs. tp_state p = TouchEvent_TOUCH_PRESSED \<and> coordinate (tp_x p) \<and> coordinate (tp_y p)"
    by (auto simp: returns_iff m1)
  have res: "touch_report device g stack m' = Some (m2, ps1 @ qs, True)"
    using n eq f r2(1) by (simp add: touch_report_def)
  have k: "keeps_ids m' m2" using r1(1) r2(2) by (auto simp: keeps_ids_def keeps_def same_points_def)
  have q: "tp_id p \<in> set ?P" "tp_id p \<notin> alive m" if "p \<in> set qs" for p
  proof -
    have "tp_id p \<in> set (map tp_id qs)" using that by simp
    then show "tp_id p \<in> set ?P" "tp_id p \<notin> alive m" unfolding r2(3) by auto
  qed
  have p: "tp_id p \<in> alive m" if "p \<in> set ps1" for p
  proof -
    have "tp_id p \<in> set (map tp_id ps1)" using that by simp
    then show ?thesis unfolding r1(2) D(1) .
  qed
  have "report_ok (alive m) (nextTouchID m') (ps1 @ qs)"
    unfolding report_ok_def
  proof (intro conjI ballI)
    show "distinct (map tp_id (ps1 @ qs))" using r1(2) r2(3) D ids(1) by auto
    show "length (ps1 @ qs) \<le> 20"
      using len unfolding r1(2) [symmetric] r2(3) [symmetric] by simp
    show "alive m \<subseteq> tp_id ` set (ps1 @ qs)" using r1(2) D(1) by (metis Un_upper1 image_Un set_append set_map)
  next
    fix x assume "x \<in> set (ps1 @ qs)"
    then consider "x \<in> set ps1" | "x \<in> set qs" by auto
    then have "tp_state x \<in> {TouchEvent_TOUCH_PRESSED, TouchEvent_TOUCH_MOVED, TouchEvent_TOUCH_STILL, TouchEvent_TOUCH_RELEASED} \<and>
       (tp_state x = TouchEvent_TOUCH_PRESSED \<longleftrightarrow> tp_id x \<notin> alive m) \<and> 1 \<le> tp_id x \<and> tp_id x < nextTouchID m' \<and>
       coordinate (tp_x x) \<and> coordinate (tp_y x)"
    proof cases
      case 1
      with p [OF 1] r1(3) ids(2) show ?thesis by (auto simp: known_point_def)
    next
      case 2
      with q [OF 2] r2(4) ids(2) show ?thesis by auto
    qed
    then show "tp_state x \<in> {TouchEvent_TOUCH_PRESSED, TouchEvent_TOUCH_MOVED, TouchEvent_TOUCH_STILL, TouchEvent_TOUCH_RELEASED}"
      "(tp_state x = TouchEvent_TOUCH_PRESSED) = (tp_id x \<notin> alive m)" "1 \<le> tp_id x" "tp_id x < nextTouchID m'"
      "coordinate (tp_x x)" "coordinate (tp_y x)" by blast+
  qed
  moreover have "ps1 @ qs \<noteq> []"
  proof
    assume "ps1 @ qs = []"
    then have "?D = []" "filter (\<lambda>k. k \<notin> alive m) ?P = []" using r1(2) r2(3) by auto
    then have "?P = []" using D(1) by (auto simp: filter_empty_conv)
    with D(4) n show False by simp
  qed
  moreover have "tp_state p \<noteq> TouchEvent_TOUCH_RELEASED" if "?c \<le> pendingTouchPointCount m" "p \<in> set (ps1 @ qs)" for p
    using that r1(3) r2(4) p ids(3) by (auto simp: known_point_def)
  ultimately show ?thesis using k r1(2) r2(3) by (simp add: res)
qed

end
