(* ===== verification/UdevTouch.thy ===== *)
theory UdevTouch
  imports UdevReports
begin

text \<open>
  The conversation between a touch screen and the window manager: each finger is pressed once, moves or
  stays, and is released once, and one of the fingers that are down is the primary one.
\<close>

section \<open>The primary finger\<close>

lemma first_index_None: "first_index P ps = None \<longleftrightarrow> (\<forall>p \<in> set ps. \<not> P p)"
  by (simp add: first_index_def find_None_iff all_set_conv_all_nth)

lemma first_index_Some: "first_index P ps = Some i \<Longrightarrow> i < length ps \<and> P (ps ! i)"
  by (auto simp: first_index_def find_Some_iff)

definition is_touching :: "touch_point \<Rightarrow> bool" where
  "is_touching p \<longleftrightarrow> tp_state p \<noteq> TouchEvent_TOUCH_RELEASED"

lemma choose_primary_alt:
  "choose_primary primary ps =
     (if primary = - 1 then
        case first_index (\<lambda>p. tp_state p = TouchEvent_TOUCH_PRESSED) ps of
          None \<Rightarrow> (primary, - 1, False)
        | Some i \<Rightarrow> (tp_id (ps ! i), int i, False)
      else if primary > 0 then
        case first_index (\<lambda>p. tp_id p = primary \<and> is_touching p) ps of
          Some i \<Rightarrow> (primary, int i, False)
        | None \<Rightarrow>
            (case first_index is_touching ps of
               None \<Rightarrow> (primary, - 1, False)
             | Some i \<Rightarrow> (tp_id (ps ! i), int i, True))
      else (primary, - 1, False))"
proof -
  have "is_touching = (\<lambda>p. tp_state p \<noteq> TouchEvent_TOUCH_RELEASED)" by (simp add: fun_eq_iff is_touching_def)
  then show ?thesis by (simp add: choose_primary_def)
qed

lemma choose_primary_spec:
  assumes r: "report_ok A nxt ps" and c: "choose_primary primary ps = (pr, index, re)"
    and "primary = - 1 \<or> primary > 0" "primary = - 1 \<Longrightarrow> A = {}"
  shows "if \<exists>p \<in> set ps. is_touching p
    then \<exists>i < length ps. index = int i \<and> is_touching (ps ! i) \<and> pr = tp_id (ps ! i) \<and>
      ((\<exists>p \<in> set ps. is_touching p \<and> tp_id p = primary) \<longrightarrow> pr = primary) \<and>
      (re \<longrightarrow> primary > 0) \<and> (\<not> re \<longrightarrow> primary = - 1 \<or> pr = primary)
    else index = - 1"
proof (cases "primary = - 1")
  case True
  have pressed: "tp_state p = TouchEvent_TOUCH_PRESSED" if "p \<in> set ps" for p
    using r that assms(4) [OF True] by (auto simp: report_ok_def)
  have pos: "1 \<le> tp_id p" if "p \<in> set ps" for p using r that by (auto simp: report_ok_def)
  show ?thesis
  proof (cases "first_index (\<lambda>p. tp_state p = TouchEvent_TOUCH_PRESSED) ps")
    case None
    with pressed have "set ps = {}" by (auto simp: first_index_None)
    moreover have "index = - 1" using None True c by (simp add: choose_primary_alt)
    ultimately show ?thesis by simp
  next
    case (Some i)
    note i = first_index_Some [OF Some]
    have r: "pr = tp_id (ps ! i)" "index = int i" "\<not> re" using Some True c by (simp_all add: choose_primary_alt)
    have "is_touching (ps ! i)" using i by (simp add: is_touching_def)
    moreover have "tp_id p \<noteq> primary" if "p \<in> set ps" for p using pos [OF that] True by simp
    ultimately show ?thesis using i r True by (auto dest: nth_mem)
  qed
next
  case False
  with assms(3) have p: "primary > 0" by simp
  show ?thesis
  proof (cases "first_index (\<lambda>p. tp_id p = primary \<and> is_touching p) ps")
    case (Some i)
    note i = first_index_Some [OF Some]
    have "(pr, index, re) = (primary, int i, False)" using Some p c False by (simp add: choose_primary_alt)
    then show ?thesis using i by (auto dest: nth_mem)
  next
    case None
    note none = None [unfolded first_index_None]
    show ?thesis
    proof (cases "first_index is_touching ps")
      case n2: None
      have "index = - 1" using None n2 p c False by (simp add: choose_primary_alt)
      then show ?thesis using n2 [unfolded first_index_None] by auto
    next
      case (Some i)
      have "(pr, index, re) = (tp_id (ps ! i), int i, True)"
        using None Some p c False by (simp add: choose_primary_alt)
      then show ?thesis using first_index_Some [OF Some] none p by (auto dest: nth_mem)
    qed
  qed
qed

section \<open>What the window manager hears about fingers\<close>

text \<open>
  A conversation about fingers, as its listener sees it. Its state is the set of fingers that are down and
  the primary one. A report has an entry for each finger that is down, which moved, stayed or was released,
  and pressed entries for others; its primary finger is one that is not released, the same as before as long as
  that is down, and there is none exactly when all are released.
\<close>

fun legal :: "request \<Rightarrow> int set \<times> int option \<Rightarrow> bool" where
  "legal (Touch states ids xs ys p) (A, prim) =
     (states \<noteq> [] \<and> length ids = length states \<and> length xs = length states \<and> length ys = length states \<and>
      distinct ids \<and> A \<subseteq> set ids \<and>
      (\<forall>(st, k) \<in> set (zip states ids).
         st \<in> {TouchEvent_TOUCH_PRESSED, TouchEvent_TOUCH_MOVED, TouchEvent_TOUCH_STILL, TouchEvent_TOUCH_RELEASED} \<and>
         (st = TouchEvent_TOUCH_PRESSED \<longleftrightarrow> k \<notin> A)) \<and>
      (if \<forall>st \<in> set states. st = TouchEvent_TOUCH_RELEASED then p = - 1
       else 0 \<le> p \<and> p < int (length states) \<and> states ! nat p \<noteq> TouchEvent_TOUCH_RELEASED \<and>
         (\<forall>(st, k) \<in> set (zip states ids). st \<noteq> TouchEvent_TOUCH_RELEASED \<and> prim = Some k \<longrightarrow> ids ! nat p = k)))"
| "legal _ _ = True"

fun follow :: "request \<Rightarrow> int set \<times> int option \<Rightarrow> int set \<times> int option" where
  "follow (Touch states ids xs ys p) a =
     (set (map snd (filter (\<lambda>(st, k). st \<noteq> TouchEvent_TOUCH_RELEASED) (zip states ids))),
      if p = - 1 then None else Some (ids ! nat p))"
| "follow _ a = a"

fun conversation :: "request list \<Rightarrow> int set \<times> int option \<Rightarrow> (int set \<times> int option) option" where
  "conversation [] a = Some a"
| "conversation (q # qs) a = (if legal q a then conversation qs (follow q a) else None)"

lemma conversation_append: "conversation (qs @ rs) a = conversation qs a \<bind> conversation rs"
  by (induction qs arbitrary: a) auto

definition touch_request :: "touch_point list \<Rightarrow> int \<Rightarrow> request" where
  "touch_request ps index = Touch (map tp_state ps) (map tp_id ps) (map tp_x ps) (map tp_y ps) index"

lemma zip_points: "zip (map tp_state ps) (map tp_id ps) = map (\<lambda>p. (tp_state p, tp_id p)) ps"
  by (induction ps) auto

lemma follow_touch_request:
  "follow (touch_request ps index) a = (tp_id ` {p \<in> set ps. is_touching p}, if index = - 1 then None else Some (map tp_id ps ! nat index))"
  by (force simp: touch_request_def zip_points is_touching_def)

lemma legal_touch_request:
  assumes r: "report_ok A nxt ps" and "ps \<noteq> []"
    and i: "if \<exists>p \<in> set ps. is_touching p
      then \<exists>i < length ps. index = int i \<and> is_touching (ps ! i) \<and>
        (\<forall>p \<in> set ps. is_touching p \<and> prim = Some (tp_id p) \<longrightarrow> tp_id (ps ! i) = tp_id p)
      else index = - 1"
  shows "legal (touch_request ps index) (A, prim)"
proof -
  have "if \<forall>st \<in> set (map tp_state ps). st = TouchEvent_TOUCH_RELEASED then index = - 1
     else 0 \<le> index \<and> index < int (length ps) \<and> map tp_state ps ! nat index \<noteq> TouchEvent_TOUCH_RELEASED \<and>
       (\<forall>(st, k) \<in> set (zip (map tp_state ps) (map tp_id ps)). st \<noteq> TouchEvent_TOUCH_RELEASED \<and> prim = Some k \<longrightarrow>
          map tp_id ps ! nat index = k)"
  proof (cases "\<exists>p \<in> set ps. is_touching p")
    case True
    then have "\<not> (\<forall>st \<in> set (map tp_state ps). st = TouchEvent_TOUCH_RELEASED)" by (auto simp: is_touching_def)
    moreover obtain i where "i < length ps" "index = int i" "is_touching (ps ! i)"
      "\<forall>p \<in> set ps. is_touching p \<and> prim = Some (tp_id p) \<longrightarrow> tp_id (ps ! i) = tp_id p"
      using i True by auto
    ultimately show ?thesis unfolding zip_points by (auto simp: is_touching_def)
  next
    case False
    then have "\<forall>st \<in> set (map tp_state ps). st = TouchEvent_TOUCH_RELEASED" by (auto simp: is_touching_def)
    moreover have "index = - 1" using i False by simp
    ultimately show ?thesis by simp
  qed
  then show ?thesis
    using r assms(2) by (auto simp: touch_request_def zip_points report_ok_def)
qed

text \<open>The state of the conversation that the device keeps.\<close>

definition spoken :: "LensInputDevice \<Rightarrow> lens_input \<Rightarrow> LensInputMouseState \<Rightarrow> int set \<times> int option" where
  "spoken device g m = (alive m,
     if touchPointCount m = 0 then None else if single_mode device g then Some 1 else Some (touchPrimaryPointID m))"

definition primary_ok :: "LensInputDevice \<Rightarrow> lens_input \<Rightarrow> LensInputMouseState \<Rightarrow> bool" where
  "primary_ok device g m \<longleftrightarrow> (touchPrimaryPointID m = - 1 \<or> touchPrimaryPointID m > 0) \<and>
     (touchPointCount m \<noteq> 0 \<longrightarrow> 1 \<le> touchPrimaryPointID m) \<and>
     (isTouch device \<longrightarrow>
        (if touchPointCount m = 0 then touchPrimaryPointID m = - 1
         else if single_mode device g then touchPointCount m = 1 \<and> touchIDs m ! 0 = 1 \<and> touchPrimaryPointID m < nextTouchID m
         else touchPrimaryPointID m \<in> alive m))"

definition device_ok :: "LensInputDevice \<Rightarrow> lens_input \<Rightarrow> LensInputMouseState \<Rightarrow> bool" where
  "device_ok device g m \<longleftrightarrow> sizes_ok m \<and> pending_ok m \<and> points_ok m \<and> primary_ok device g m"

lemma store_length: "length new \<le> length old \<Longrightarrow> length (store new old) = length old"
  by (simp add: store_def)

lemma take_store: "take (length new) (store new old) = new"
  by (simp add: store_def)

lemma nth_store: "i < length new \<Longrightarrow> store new old ! i = new ! i"
  by (simp add: store_def nth_append)

text \<open>Storing a report: the fingers in it that are not released are the ones that are down.\<close>

lemma save_points_ok:
  assumes m: "sizes_ok m" "pending_ok m" and ps: "distinct (map tp_id ps)" "length ps \<le> 20"
    "\<forall>p \<in> set ps. 1 \<le> tp_id p \<and> tp_id p < nextTouchID m \<and> coordinate (tp_x p) \<and> coordinate (tp_y p)"
  shows "sizes_ok (save_points True ps m)" "pending_ok (save_points True ps m)" "points_ok (save_points True ps m)"
    "alive (save_points True ps m) = tp_id ` {p \<in> set ps. is_touching p}"
    "touchPointCount (save_points True ps m) = length (filter is_touching ps)"
    "touchIDs (save_points True ps m) = store (map tp_id (filter is_touching ps)) (touchIDs m)"
proof -
  let ?q = "filter is_touching ps"
  have q: "filter (\<lambda>p. tp_state p \<noteq> TouchEvent_TOUCH_RELEASED) ps = ?q" by (simp add: is_touching_def [abs_def])
  have l: "length ?q \<le> 20" using ps(2) length_filter_le [of is_touching ps] by linarith
  have d: "distinct (map tp_id ?q)" using ps(1) by (simp add: distinct_map inj_on_def)
  have t: "take (length ?q) (store (map f ?q) xs) = map f ?q" for f :: "touch_point \<Rightarrow> int" and xs
    using take_store [of "map f ?q" xs] by simp
  have s: "save_points True ps m = m\<lparr>touchIDs := store (map tp_id ?q) (touchIDs m), touchXs := store (map tp_x ?q) (touchXs m),
      touchYs := store (map tp_y ?q) (touchYs m), touchTrackingIDs := store (map tp_device ?q) (touchTrackingIDs m),
      touchPointCount := length ?q\<rparr>"
    by (simp add: save_points_def q Let_def)
  show "sizes_ok (save_points True ps m)" using m(1) l by (simp add: s sizes_ok_def store_length)
  show "pending_ok (save_points True ps m)" using m(2) by (simp add: s pending_ok_def)
  show a: "alive (save_points True ps m) = tp_id ` {p \<in> set ps. is_touching p}" by (simp add: s alive_def t)
  show "touchPointCount (save_points True ps m) = length ?q" "touchIDs (save_points True ps m) = store (map tp_id ?q) (touchIDs m)"
    by (simp_all add: s)
  have "coordinate (tp_x (?q ! i)) \<and> coordinate (tp_y (?q ! i))" if "i < length ?q" for i
    using ps(3) nth_mem [OF that] by auto
  moreover have "nextTouchID (save_points True ps m) = nextTouchID m" by (simp add: s)
  ultimately show "points_ok (save_points True ps m)"
    using d ps(3) unfolding points_ok_def a by (auto simp: s t nth_store)
qed

text \<open>What is known when the points are about to be stored.\<close>

definition points_in :: "int \<Rightarrow> touch_point list \<Rightarrow> bool" where
  "points_in nxt ps \<longleftrightarrow> distinct (map tp_id ps) \<and> length ps \<le> 20 \<and>
     (\<forall>p \<in> set ps. 1 \<le> tp_id p \<and> tp_id p < nxt \<and> coordinate (tp_x p) \<and> coordinate (tp_y p))"

definition closing ::
    "LensInputDevice \<Rightarrow> lens_input \<Rightarrow> int set \<times> int option \<Rightarrow> LensInputMouseState \<Rightarrow> touch_point list \<Rightarrow> bool \<Rightarrow> bool" where
  "closing device g a m ps save \<longleftrightarrow> sizes_ok m \<and> pending_ok m \<and> (touchPrimaryPointID m = - 1 \<or> touchPrimaryPointID m > 0) \<and>
     (if save then points_in (nextTouchID m) ps \<and>
        (let q = filter is_touching ps in (q \<noteq> [] \<longrightarrow> 1 \<le> touchPrimaryPointID m) \<and>
          (isTouch device \<longrightarrow>
            (if q = [] then touchPrimaryPointID m = - 1 \<and> a = ({}, None)
             else if single_mode device g then length q = 1 \<and> tp_id (hd q) = 1 \<and> touchPrimaryPointID m < nextTouchID m \<and> a = ({1}, Some 1)
             else touchPrimaryPointID m \<in> tp_id ` set q \<and> a = (tp_id ` set q, Some (touchPrimaryPointID m)))))
      else isTouch device \<longrightarrow> touchPrimaryPointID m = - 1 \<and> a = ({}, None))"

lemma closing_ok:
  assumes "closing device g a m ps save"
  shows "device_ok device g (save_points save ps m)" "isTouch device \<Longrightarrow> spoken device g (save_points save ps m) = a"
proof -
  have *: "device_ok device g (save_points save ps m) \<and> (isTouch device \<longrightarrow> spoken device g (save_points save ps m) = a)"
  proof (cases save)
    case False
    then have "save_points save ps m = m\<lparr>touchPointCount := 0\<rparr>" by (simp add: save_points_def)
    then show ?thesis using assms False
      by (auto simp: closing_def device_ok_def spoken_def primary_ok_def sizes_ok_def pending_ok_def points_ok_def alive_def)
  next
    case True
    let ?q = "filter is_touching ps" and ?m = "save_points True ps m"
    have "sizes_ok m" "pending_ok m" "points_in (nextTouchID m) ps" using assms True by (auto simp: closing_def)
    note s = save_points_ok [OF this(1,2)] and p = this(3)
    have k: "sizes_ok ?m" "pending_ok ?m" "points_ok ?m" "alive ?m = tp_id ` set ?q" "touchPointCount ?m = length ?q"
      "touchIDs ?m = store (map tp_id ?q) (touchIDs m)"
      using s [of ps] p by (auto simp: points_in_def)
    have same: "touchPrimaryPointID ?m = touchPrimaryPointID m" "nextTouchID ?m = nextTouchID m"
      by (simp_all add: save_points_def Let_def)
    have first: "touchIDs ?m ! 0 = tp_id (hd ?q)" if "?q \<noteq> []" using that k(6) by (simp add: nth_store hd_conv_nth)
    have one: "tp_id ` set ?q = {tp_id (hd ?q)}" if "length ?q = 1" using that by (cases ?q) auto
    have c: "touchPrimaryPointID m = - 1 \<or> touchPrimaryPointID m > 0" "?q \<noteq> [] \<longrightarrow> 1 \<le> touchPrimaryPointID m"
      "isTouch device \<longrightarrow> (if ?q = [] then touchPrimaryPointID m = - 1 \<and> a = ({}, None)
         else if single_mode device g then length ?q = 1 \<and> tp_id (hd ?q) = 1 \<and> touchPrimaryPointID m < nextTouchID m \<and> a = ({1}, Some 1)
         else touchPrimaryPointID m \<in> tp_id ` set ?q \<and> a = (tp_id ` set ?q, Some (touchPrimaryPointID m)))"
      using assms True by (auto simp: closing_def Let_def)
    have "device_ok device g ?m"
      using k(1-3) c first unfolding device_ok_def primary_ok_def same k(4,5) by (auto split: if_splits)
    moreover have "spoken device g ?m = a" if "isTouch device"
      using c(3) that one unfolding spoken_def same k(4,5) by (auto simp: filter_empty_conv split: if_splits)
    ultimately show ?thesis using True by simp
  qed
  then show "device_ok device g (save_points save ps m)" "isTouch device \<Longrightarrow> spoken device g (save_points save ps m) = a"
    by blast+
qed

section \<open>Notification\<close>

definition told :: "LensInputDevice \<Rightarrow> lens_input \<Rightarrow> int set \<times> int option \<Rightarrow> lens_input \<Rightarrow> int set \<times> int option \<Rightarrow> bool" where
  "told device g a g' a' \<longleftrightarrow> same_input g g' \<and> (\<exists>qs. notified g' = notified g @ qs \<and> list_all request_ok qs \<and>
     (isTouch device \<longrightarrow> conversation qs a = Some a'))"

lemma told_refl: "told device g a g a"
  by (simp add: told_def same_input_def)

lemma report_points_in: "report_ok A nxt ps \<Longrightarrow> points_in nxt ps"
  by (auto simp: report_ok_def points_in_def)

lemma all_still_closing:
  assumes m: "sizes_ok m" "pending_ok m" "primary_ok device g m" and r: "report_ok (alive m) (nextTouchID m) ps"
    and still: "list_all (\<lambda>p. tp_state p = TouchEvent_TOUCH_STILL) ps" and "ps \<noteq> []"
    and c: "alive m = {} \<longleftrightarrow> touchPointCount m = 0" "touchPointCount m = 1 \<Longrightarrow> alive m = {touchIDs m ! 0}"
  shows "closing device g (spoken device g m) m ps True"
proof -
  have t: "filter is_touching ps = ps" using still by (auto simp: is_touching_def list_all_iff filter_id_conv)
  have "tp_id p \<in> alive m" if "p \<in> set ps" for p using r still that by (auto simp: report_ok_def list_all_iff)
  then have ids: "tp_id ` set ps = alive m" using r by (auto simp: report_ok_def)
  then have a: "alive m \<noteq> {}" "touchPointCount m \<noteq> 0" using \<open>ps \<noteq> []\<close> c(1) by auto
  have one: "length ps = 1 \<and> tp_id (hd ps) = touchIDs m ! 0" if "touchPointCount m = 1"
  proof -
    have "set (map tp_id ps) = {touchIDs m ! 0}" "distinct (map tp_id ps)" using ids c(2) that r by (auto simp: report_ok_def)
    then have "length ps = 1" by (metis distinct_card length_map card.empty card_insert_disjoint empty_iff finite.emptyI One_nat_def)
    then show ?thesis using \<open>set (map tp_id ps) = {touchIDs m ! 0}\<close> by (cases ps) auto
  qed
  show ?thesis
    using m a one ids c(2) report_points_in [OF r] \<open>ps \<noteq> []\<close>
    unfolding closing_def t primary_ok_def spoken_def by (auto simp: Let_def split: if_splits)
qed

lemma notify_touch_multi:
  assumes m: "sizes_ok m" "pending_ok m" "primary_ok device g m" and r: "report_ok (alive m) (nextTouchID m) ps" "ps \<noteq> []"
    and c: "alive m = {} \<longleftrightarrow> touchPointCount m = 0"
    and still: "\<not> list_all (\<lambda>p. tp_state p = TouchEvent_TOUCH_STILL) ps" and multi: "\<not> single_mode device g"
  shows "returns (notify_touch device m g ps save) (\<lambda>(m', g', ps', save'). \<exists>pr a. m' = m\<lparr>touchPrimaryPointID := pr\<rparr> \<and>
    (save \<or> \<not> (\<exists>p \<in> set ps. is_touching p) \<longrightarrow> told device g (spoken device g m) g' a \<and> closing device g a m' ps' save'))"
proof -
  obtain pr index re where cp: "choose_primary (touchPrimaryPointID m) ps = (pr, index, re)" by (metis prod_cases3)
  have p0: "touchPrimaryPointID m = - 1 \<or> touchPrimaryPointID m > 0" "touchPrimaryPointID m = - 1 \<Longrightarrow> alive m = {}"
    using m(3) c by (auto simp: primary_ok_def)
  note spec = choose_primary_spec [OF r(1) cp p0]
  let ?t = "\<exists>p \<in> set ps. is_touching p"
  have ix: "index = - 1 \<longleftrightarrow> \<not> ?t" "- 1 \<le> index" "index < int (length ps)" using spec r(2) by (auto split: if_splits)
  have len: "length ps \<le> 20" using r(1) by (simp add: report_ok_def)
  define g1 where "g1 = (if index > - 1 then g\<lparr>in_mousePosX := pendingTouchXs m ! nat index, in_mousePosY := pendingTouchYs m ! nat index\<rparr> else g)"
  let ?m = "m\<lparr>touchPrimaryPointID := if index = - 1 then - 1 else pr\<rparr>"
  have res: "notify_touch device m g ps save = Some (?m, notify (touch_request ps index) g1, ps, save \<and> index \<noteq> - 1)"
    using still multi cp ix len m(1)
    by (simp add: notify_touch_def g1_def touch_request_def read_at_in sizes_ok_def)
  have "legal (touch_request ps index) (spoken device g m)" if "isTouch device"
    unfolding spoken_def
  proof (rule legal_touch_request [OF r])
    show "if ?t then \<exists>i < length ps. index = int i \<and> is_touching (ps ! i) \<and>
        (\<forall>p \<in> set ps. is_touching p \<and> (if touchPointCount m = 0 then None else if single_mode device g then Some 1
            else Some (touchPrimaryPointID m)) = Some (tp_id p) \<longrightarrow> tp_id (ps ! i) = tp_id p)
      else index = - 1"
      using spec multi by (fastforce split: if_splits)
  qed
  then have told: "told device g (spoken device g m) (notify (touch_request ps index) g1) (follow (touch_request ps index) (spoken device g m))"
    using r(2) ix len by (auto simp: told_def notify_def g1_def same_input_def touch_request_def touch_args_def Suc_le_eq)
  have "closing device g (follow (touch_request ps index) (spoken device g m)) ?m ps (save \<and> index \<noteq> - 1)" if "save \<or> \<not> ?t"
  proof (cases ?t)
    case False
    then have "{p \<in> set ps. is_touching p} = {}" by auto
    then show ?thesis using False ix m by (auto simp: closing_def follow_touch_request frame_defs)
  next
    case True
    then obtain i where i: "i < length ps" "index = int i" "is_touching (ps ! i)" "pr = tp_id (ps ! i)" using spec by auto
    have "ps ! i \<in> set (filter is_touching ps)" using i by simp
    moreover have "1 \<le> pr" using r(1) i by (auto simp: report_ok_def)
    moreover have "filter is_touching ps \<noteq> []" using True by (auto simp: filter_empty_conv)
    ultimately show ?thesis
      using True that i m multi report_points_in [OF r(1)]
      by (auto simp: closing_def follow_touch_request frame_defs Let_def)
  qed
  with told show ?thesis
    unfolding res returns_Some split_conv
    by (intro exI [of _ "if index = - 1 then - 1 else pr"] exI [of _ "follow (touch_request ps index) (spoken device g m)"]) blast
qed

lemma report_okD:
  "report_ok A nxt ps \<Longrightarrow> p \<in> set ps \<Longrightarrow>
     tp_state p \<in> {TouchEvent_TOUCH_PRESSED, TouchEvent_TOUCH_MOVED, TouchEvent_TOUCH_STILL, TouchEvent_TOUCH_RELEASED} \<and>
     (tp_state p = TouchEvent_TOUCH_PRESSED \<longleftrightarrow> tp_id p \<notin> A) \<and> 1 \<le> tp_id p \<and> tp_id p < nxt \<and>
     coordinate (tp_x p) \<and> coordinate (tp_y p)"
  unfolding report_ok_def by blast

lemma notify_touch_single:
  assumes m: "sizes_ok m" "pending_ok m" "primary_ok device g m" and r: "report_ok (alive m) (nextTouchID m) ps" "ps \<noteq> []"
    and c: "alive m = {} \<longleftrightarrow> touchPointCount m = 0" "touchPointCount m = 1 \<Longrightarrow> alive m = {touchIDs m ! 0}"
    and still: "\<not> list_all (\<lambda>p. tp_state p = TouchEvent_TOUCH_STILL) ps" and single: "single_mode device g"
    and all: "(\<forall>p \<in> set ps. is_touching p) \<or> \<not> (\<exists>p \<in> set ps. is_touching p)"
    and fresh: "touchPointCount m \<noteq> 0 \<Longrightarrow> \<forall>p \<in> set ps. tp_state p = TouchEvent_TOUCH_PRESSED \<longrightarrow> tp_id p \<noteq> touchPrimaryPointID m"
  shows "returns (notify_touch device m g ps save) (\<lambda>(m', g', ps', save'). \<exists>pr a. m' = m\<lparr>touchPrimaryPointID := pr\<rparr> \<and>
    (save \<or> \<not> (\<exists>p \<in> set ps. is_touching p) \<longrightarrow> told device g (spoken device g m) g' a \<and> closing device g a m' ps' save'))"
proof -
  obtain pr index re where cp: "choose_primary (touchPrimaryPointID m) ps = (pr, index, re)" by (metis prod_cases3)
  have touch: "isTouch device" using single by (simp add: single_mode_def)
  have p0: "touchPrimaryPointID m = - 1 \<or> touchPrimaryPointID m > 0" "touchPrimaryPointID m = - 1 \<Longrightarrow> alive m = {}"
    using m(3) c by (auto simp: primary_ok_def)
  have A: "alive m = {} \<and> touchPrimaryPointID m = - 1 \<and> touchPointCount m = 0 \<or>
      alive m = {1} \<and> touchPrimaryPointID m \<ge> 1 \<and> touchPointCount m = 1"
    using m(3) c touch single by (auto simp: primary_ok_def split: if_splits)
  note spec = choose_primary_spec [OF r(1) cp p0]
  let ?t = "\<exists>p \<in> set ps. is_touching p"
  have "\<exists>index' q. single_point index re ps = (index', [q])" by (simp add: single_point_def Let_def)
  then obtain index' q where sp: "single_point index re ps = (index', [q])" by blast
  have q: "tp_id q = 1" "index' = (if index = - 1 then - 1 else 0)"
    "coordinate (tp_x q) \<and> coordinate (tp_y q)" "is_touching q \<longleftrightarrow> ?t"
    "tp_state q \<in> {TouchEvent_TOUCH_PRESSED, TouchEvent_TOUCH_MOVED, TouchEvent_TOUCH_STILL, TouchEvent_TOUCH_RELEASED}"
    "tp_state q = TouchEvent_TOUCH_PRESSED \<longleftrightarrow> 1 \<notin> alive m" and i: "index = - 1 \<longleftrightarrow> \<not> ?t" and two: "1 < nextTouchID m"
      "?t \<Longrightarrow> 1 \<le> pr \<and> pr < nextTouchID m"
  proof -
    have h: "hd ps \<in> set ps" using r(2) by simp
    then have "1 \<le> tp_id (hd ps) \<and> tp_id (hd ps) < nextTouchID m" using r(1) unfolding report_ok_def by blast
    then show "1 < nextTouchID m" by simp
    show i: "index = - 1 \<longleftrightarrow> \<not> ?t" using spec by (auto split: if_splits)
    have x: "tp_id q = 1 \<and> index' = (if index = - 1 then - 1 else 0) \<and> coordinate (tp_x q) \<and> coordinate (tp_y q) \<and>
      (is_touching q \<longleftrightarrow> ?t) \<and> tp_state q \<in> {TouchEvent_TOUCH_PRESSED, TouchEvent_TOUCH_MOVED, TouchEvent_TOUCH_STILL, TouchEvent_TOUCH_RELEASED} \<and>
      (tp_state q = TouchEvent_TOUCH_PRESSED \<longleftrightarrow> 1 \<notin> alive m) \<and> (?t \<longrightarrow> 1 \<le> pr \<and> pr < nextTouchID m)"
    proof (cases ?t)
      case False
      then have "q = (hd ps)\<lparr>tp_id := 1\<rparr>" "index' = - 1" "index = - 1" using sp i by (auto simp: single_point_def)
      moreover have "tp_state (hd ps) = TouchEvent_TOUCH_RELEASED" using False h by (auto simp: is_touching_def)
      moreover have "1 \<in> alive m" using A r(1) h calculation(4) by (auto simp: report_ok_def)
      ultimately show ?thesis using report_okD [OF r(1) h] False by (simp add: is_touching_def)
    next
      case True
      then obtain k where k: "k < length ps" "index = int k" "is_touching (ps ! k)" "pr = tp_id (ps ! k)"
        "re \<longrightarrow> touchPrimaryPointID m > 0" "\<not> re \<longrightarrow> touchPrimaryPointID m = - 1 \<or> pr = touchPrimaryPointID m"
        using spec by auto
      have mem: "ps ! k \<in> set ps" using k(1) by simp
      note e = report_okD [OF r(1) mem]
      have q: "q = (hd ps)\<lparr>tp_id := 1, tp_state := (if re \<and> tp_state (ps ! k) = TouchEvent_TOUCH_PRESSED
          then TouchEvent_TOUCH_MOVED else tp_state (ps ! k)), tp_x := tp_x (ps ! k), tp_y := tp_y (ps ! k)\<rparr>" "index' = 0"
        using sp k(2) by (auto simp: single_point_def Let_def)
      have "tp_state q = TouchEvent_TOUCH_PRESSED \<longleftrightarrow> 1 \<notin> alive m"
        using A
      proof (elim disjE conjE)
        assume "alive m = {}" "touchPrimaryPointID m = - 1"
        then show ?thesis using e k(5) by (simp add: q)
      next
        assume a: "alive m = {1}" "touchPrimaryPointID m \<ge> 1" "touchPointCount m = 1"
        then have "\<not> re \<longrightarrow> tp_state (ps ! k) \<noteq> TouchEvent_TOUCH_PRESSED" using fresh mem k(4,6) by auto
        then show ?thesis using a by (cases re) (simp_all add: q)
      qed
      moreover have "is_touching q" using k(3) by (simp add: q is_touching_def)
      moreover have "tp_state q \<in> {TouchEvent_TOUCH_PRESSED, TouchEvent_TOUCH_MOVED, TouchEvent_TOUCH_STILL, TouchEvent_TOUCH_RELEASED}"
        using e by (auto simp: q)
      moreover have "tp_id q = 1 \<and> index' = (if index = - 1 then - 1 else 0) \<and> coordinate (tp_x q) \<and> coordinate (tp_y q)"
        using e k(2) by (simp add: q)
      ultimately show ?thesis using e k(4) True by blast
    qed
    show "tp_id q = 1" "index' = (if index = - 1 then - 1 else 0)" "coordinate (tp_x q) \<and> coordinate (tp_y q)"
      "is_touching q \<longleftrightarrow> ?t" "tp_state q \<in> {TouchEvent_TOUCH_PRESSED, TouchEvent_TOUCH_MOVED, TouchEvent_TOUCH_STILL, TouchEvent_TOUCH_RELEASED}"
      "tp_state q = TouchEvent_TOUCH_PRESSED \<longleftrightarrow> 1 \<notin> alive m" "?t \<Longrightarrow> 1 \<le> pr \<and> pr < nextTouchID m"
      using x by blast+
  qed
  define g1 where "g1 = (if index' > - 1 then g\<lparr>in_mousePosX := pendingTouchXs m ! 0, in_mousePosY := pendingTouchYs m ! 0\<rparr> else g)"
  let ?m = "m\<lparr>touchPrimaryPointID := if index = - 1 then - 1 else pr\<rparr>" and ?q = "touch_request [q] index'"
  have res: "notify_touch device m g ps save = Some (?m, notify ?q g1, [q], save \<and> index \<noteq> - 1)"
    using still single cp sp q(2) m(1)
    by (simp add: notify_touch_def g1_def touch_request_def read_at_in sizes_ok_def)
  have "report_ok (alive m) (nextTouchID m) [q]" using q two A by (auto simp: report_ok_def)
  then have "legal ?q (spoken device g m)"
    unfolding spoken_def using q i by (intro legal_touch_request) auto
  then have told: "told device g (spoken device g m) (notify ?q g1) (follow ?q (spoken device g m))"
    using q(2) by (auto simp: told_def notify_def g1_def same_input_def touch_request_def touch_args_def)
  have "closing device g (follow ?q (spoken device g m)) ?m [q] (save \<and> index \<noteq> - 1)" if "save \<or> \<not> ?t"
  proof (cases ?t)
    case False
    then have "{p \<in> set [q]. is_touching p} = {}" using q by auto
    then show ?thesis using False i q(2) m by (auto simp: closing_def follow_touch_request frame_defs)
  next
    case True
    then have "{p \<in> set [q]. is_touching p} = {q}" using q by auto
    then show ?thesis
      using True that i q m single two by (auto simp: closing_def follow_touch_request frame_defs Let_def points_in_def)
  qed
  with told show ?thesis
    unfolding res returns_Some split_conv
    by (intro exI [of _ "if index = - 1 then - 1 else pr"] exI [of _ "follow ?q (spoken device g m)"]) blast
qed

lemma primary_ok_same:
  assumes "primary_ok device g m" "same_points m m'" "same_input g g'" "alive m \<noteq> {} \<Longrightarrow> nextTouchID m \<le> nextTouchID m'"
    and "touchPointCount m \<noteq> 0 \<Longrightarrow> alive m \<noteq> {}"
  shows "primary_ok device g' m'" "spoken device g' m' = spoken device g m"
proof -
  have "alive m' = alive m" "single_mode device g' = single_mode device g"
    using assms(2,3) by (simp_all add: alive_same single_mode_def same_input_def)
  then show "primary_ok device g' m'" "spoken device g' m' = spoken device g m"
    using assms by (auto simp: primary_ok_def spoken_def same_points_def)
qed

lemma alive_count:
  assumes "sizes_ok m"
  shows "alive m = {} \<longleftrightarrow> touchPointCount m = 0" "touchPointCount m = 1 \<Longrightarrow> alive m = {touchIDs m ! 0}"
  using assms by (auto simp: alive_def sizes_ok_def set_take_nth)

lemma notify_touch_closing:
  assumes m: "sizes_ok m" "pending_ok m" "primary_ok device g m" and r: "report_ok (alive m) (nextTouchID m) ps" "ps \<noteq> []"
    and all: "single_mode device g \<Longrightarrow> (\<forall>p \<in> set ps. is_touching p) \<or> \<not> (\<exists>p \<in> set ps. is_touching p)"
    and fresh: "single_mode device g \<Longrightarrow> touchPointCount m \<noteq> 0 \<Longrightarrow>
      \<forall>p \<in> set ps. tp_state p = TouchEvent_TOUCH_PRESSED \<longrightarrow> tp_id p \<noteq> touchPrimaryPointID m"
    and save: "save \<or> \<not> (\<exists>p \<in> set ps. is_touching p)"
  shows "returns (notify_touch device m g ps save) (\<lambda>(m', g', ps', save'). \<exists>pr a. m' = m\<lparr>touchPrimaryPointID := pr\<rparr> \<and>
    told device g (spoken device g m) g' a \<and> closing device g a m' ps' save')"
proof (cases "list_all (\<lambda>p. tp_state p = TouchEvent_TOUCH_STILL) ps")
  case True
  have "\<exists>p \<in> set ps. is_touching p" using True r(2) by (cases ps) (auto simp: is_touching_def)
  then have "closing device g (spoken device g m) m ps save"
    using all_still_closing [OF m r(1) True r(2) alive_count [OF m(1)]] save by simp
  moreover have res: "notify_touch device m g ps save = Some (m, g, ps, save)" using True by (simp add: notify_touch_def)
  ultimately show ?thesis
    unfolding res returns_Some split_conv using told_refl
    by (intro exI [of _ "touchPrimaryPointID m"] exI [of _ "spoken device g m"]) simp
next
  case False
  show ?thesis
  proof (cases "single_mode device g")
    case True
    note n = notify_touch_single [OF m r alive_count(1) [OF m(1)] _ False True all [OF True], of save]
    show ?thesis
      using alive_count(2) [OF m(1)] fresh [OF True] save by (intro returns_conseq [OF n]) (auto split: prod.splits)
  next
    case multi: False
    note n = notify_touch_multi [OF m r alive_count(1) [OF m(1)] False multi, of save]
    show ?thesis using save by (intro returns_conseq [OF n]) (auto split: prod.splits)
  qed
qed

lemma release_all_ok:
  assumes m: "sizes_ok m" "pending_ok m" "points_ok m" "touchPointCount m \<noteq> 0" and r: "release_all stack m = (m', ps)"
  shows "sizes_ok m'" "pending_ok m'" "keeps m m'" "report_ok (alive m) (nextTouchID m) ps" "ps \<noteq> []" "\<not> (\<exists>p \<in> set ps. is_touching p)"
proof -
  have "map tp_id ps = map ((!) (touchIDs m)) [0..<touchPointCount m]" using r by (auto simp: release_all_def)
  also have "\<dots> = take (touchPointCount m) (touchIDs m)"
    using m(1) by (simp add: sizes_ok_def list_eq_iff_nth_eq)
  finally have ids: "map tp_id ps = take (touchPointCount m) (touchIDs m)" .
  have p: "tp_id p \<in> alive m \<and> tp_state p = TouchEvent_TOUCH_RELEASED \<and> coordinate (tp_x p) \<and> coordinate (tp_y p)" if "p \<in> set ps" for p
    using r m(1,3) that by (auto simp: release_all_def points_ok_def alive_def set_take_nth sizes_ok_def)
  have "tp_id ` set ps = alive m" unfolding alive_def ids [symmetric] by simp
  then show "report_ok (alive m) (nextTouchID m) ps"
    using p m(1,3) ids by (auto simp: report_ok_def points_ok_def sizes_ok_def simp flip: length_map [of tp_id ps])
  show "\<not> (\<exists>p \<in> set ps. is_touching p)" using p by (auto simp: is_touching_def)
  show "ps \<noteq> []" "sizes_ok m'" "pending_ok m'" "keeps m m'"
    using r m by (auto simp: release_all_def keeps_def frame_defs)
qed

section \<open>A complete report\<close>

lemma closing_empty:
  assumes "sizes_ok m" "pending_ok m" "primary_ok device g m" "isTouch device \<Longrightarrow> touchPointCount m = 0"
  shows "closing device g (spoken device g m) m [] True"
  using assms by (auto simp: closing_def points_in_def primary_ok_def spoken_def alive_def)

lemma touch_report_notify:
  assumes m: "sizes_ok m" "pending_ok m" "points_ok m" "primary_ok device g m"
    and m': "identified m m'" and n: "pendingTouchPointCount m \<noteq> 0"
  shows "returns (do { (m, ps, save) \<leftarrow> touch_report device g stack m'; notify_touch device m g ps save })
    (\<lambda>(m', g', ps, save). \<exists>a. told device g (spoken device g m) g' a \<and> closing device g a m' ps save \<and>
       pendingInputEvents m' = pendingInputEvents m)"
proof -
  obtain m2 ps where r: "touch_report device g stack m' = Some (m2, ps, True)" "keeps_ids m' m2" "ps \<noteq> []"
      "report_ok (alive m) (nextTouchID m') ps"
      "map tp_id ps = take (touchPointCount m) (touchIDs m) @ filter (\<lambda>k. k \<notin> alive m) (pending_ids m')"
      "touchPointCount m \<le> pendingTouchPointCount m \<longrightarrow> (\<forall>p \<in> set ps. tp_state p \<noteq> TouchEvent_TOUCH_RELEASED)"
    using touch_report_ok [OF m(1-3) m' n, of device g stack] by (auto simp: returns_iff)
  have f: "same_points m m'" "alive m' = alive m" using identified_frame [OF m' m(1-3)] by auto
  have s2: "same_points m m2" "nextTouchID m2 = nextTouchID m'" "sizes_ok m2" "pending_ok m2"
    using r(2) f(1) by (auto simp: keeps_ids_def keeps_def same_points_def)
  have i: "alive m \<noteq> {} \<Longrightarrow> nextTouchID m \<le> nextTouchID m' \<and> (\<forall>k \<in> set (pending_ids m') - alive m. nextTouchID m \<le> k)"
    using m' by (auto simp: identified_def)
  have a2: "alive m2 = alive m" using s2(1) by (simp add: alive_same)
  have p2: "primary_ok device g m2" "spoken device g m2 = spoken device g m"
    using primary_ok_same [OF m(4) s2(1), of g] i s2(2) alive_count(1) [OF m(1)] by (auto simp: same_input_def)
  have "returns (notify_touch device m2 g ps True) (\<lambda>(m', g', ps', save'). \<exists>pr a. m' = m2\<lparr>touchPrimaryPointID := pr\<rparr> \<and>
      told device g (spoken device g m2) g' a \<and> closing device g a m' ps' save')"
  proof (rule notify_touch_closing [OF s2(3,4) p2(1) _ r(3)])
    show "report_ok (alive m2) (nextTouchID m2) ps" using r(4) by (simp add: a2 s2(2))
    assume single: "single_mode device g"
    then have c: "touchPointCount m \<le> 1" "touchPointCount m \<noteq> 0 \<Longrightarrow> touchPrimaryPointID m < nextTouchID m"
      using m(4) by (auto simp: primary_ok_def single_mode_def split: if_splits)
    then show "(\<forall>p \<in> set ps. is_touching p) \<or> \<not> (\<exists>p \<in> set ps. is_touching p)"
      using r(6) n by (auto simp: is_touching_def)
    assume "touchPointCount m2 \<noteq> 0"
    then have cm: "touchPointCount m \<noteq> 0" "touchPrimaryPointID m2 = touchPrimaryPointID m" using s2(1) by (auto simp: same_points_def)
    show "\<forall>p \<in> set ps. tp_state p = TouchEvent_TOUCH_PRESSED \<longrightarrow> tp_id p \<noteq> touchPrimaryPointID m2"
    proof (intro ballI impI)
      fix p assume p: "p \<in> set ps" "tp_state p = TouchEvent_TOUCH_PRESSED"
      then have "tp_id p \<notin> alive m" using report_okD [OF r(4)] by blast
      moreover have "tp_id p \<in> set (map tp_id ps)" using p(1) by simp
      then have "tp_id p \<in> alive m \<union> set (pending_ids m')" unfolding r(5) by (auto simp: alive_def)
      ultimately have "nextTouchID m \<le> tp_id p" using i alive_count(1) [OF m(1)] cm(1) by blast
      with c(2) cm show "tp_id p \<noteq> touchPrimaryPointID m2" by simp
    qed
  qed simp
  then show ?thesis using r(1) s2(1) p2(2) by (auto simp: returns_iff same_points_def simp del: split_paired_Ex)
qed

lemma touch_part_ok:
  assumes m: "sizes_ok m" "pending_ok m" "points_ok m" "primary_ok device g m"
  shows "returns (do { m \<leftarrow> assign_ids m; (m, ps, save) \<leftarrow> touch_report device g stack m; notify_touch device m g ps save })
    (\<lambda>(m', g', ps, save). \<exists>a. told device g (spoken device g m) g' a \<and> closing device g a m' ps save \<and>
       pendingInputEvents m' = pendingInputEvents m)"
proof (cases "pendingTouchPointCount m = 0")
  case False
  obtain m' where "assign_ids m = Some m'" "identified m m'" using assign_ids_identified [OF m(1-3) False] by (auto simp: returns_iff)
  with touch_report_notify [OF m this(2) False] show ?thesis by simp
next
  case True
  then have as: "assign_ids m = Some m" by (simp add: assign_ids_def Let_def)
  show ?thesis
  proof (cases "isTouch device \<and> touchPointCount m \<noteq> 0")
    case False
    then have tr: "touch_report device g stack m = Some (m, [], True)" using True by (auto simp: touch_report_def)
    have nt: "notify_touch device m g [] True = Some (m, g, [], True)" by (simp add: notify_touch_def)
    have "closing device g (spoken device g m) m [] True" using closing_empty [OF m(1,2,4)] False by blast
    then show ?thesis using told_refl [of device g "spoken device g m"] by (auto simp: as tr nt simp del: split_paired_Ex)
  next
    case rel: True
    obtain m' ps where ra: "release_all stack m = (m', ps)" by force
    note ok = release_all_ok [OF m(1-3) _ ra]
    have tr: "touch_report device g stack m = Some (m', ps, False)" using True rel ra by (auto simp: touch_report_def)
    have s: "same_points m m'" "nextTouchID m' = nextTouchID m" "alive m' = alive m" using ok(3) rel by (auto simp: keeps_def alive_same)
    have p: "primary_ok device g m'" "spoken device g m' = spoken device g m"
      using primary_ok_same [OF m(4) s(1), of g] s(2) alive_count(1) [OF m(1)] by (auto simp: same_input_def)
    have "returns (notify_touch device m' g ps False) (\<lambda>(m'', g', ps', save'). \<exists>pr a. m'' = m'\<lparr>touchPrimaryPointID := pr\<rparr> \<and>
        told device g (spoken device g m') g' a \<and> closing device g a m'' ps' save')"
      using ok rel s(2,3) p(1) by (intro notify_touch_closing) (auto simp: report_ok_def is_touching_def)
    then show ?thesis using s(1) p(2) by (auto simp: as tr returns_iff same_points_def simp del: split_paired_Ex)
  qed
qed

lemma mouse_events_ok:
  assumes "sizes_ok m" "keyEventIndex t < int (length (pendingInputEvents m))"
  shows "returns (mouse_events t m g) (\<lambda>(m', g'). (\<exists>axes. m' = m\<lparr>rel_axes := axes\<rparr> \<and> length axes = 16) \<and>
    same_input g g' \<and> (\<exists>qs. notified g' = notified g @ qs \<and> list_all request_ok qs))"
proof (cases "reportMouseMove t")
  case True
  then show ?thesis using assms
    by (auto simp: mouse_events_def read_at_in sizes_ok_def notify_def same_input_def lens_input_pointerEvents_handleKeyEvent_def)
next
  case False
  then show ?thesis using assms
    by (auto simp: mouse_events_def read_at_in sizes_ok_def notify_def same_input_def lens_input_pointerEvents_handleKeyEvent_def
        intro!: exI [of _ "rel_axes m"])
qed

lemma closing_frame:
  "closing device g a m ps save \<Longrightarrow> length axes = 16 \<Longrightarrow> single_mode device g' = single_mode device g \<Longrightarrow>
     closing device g' a (m\<lparr>rel_axes := axes, pendingInputEvents := []\<rparr>) ps save"
  by (auto simp: closing_def sizes_ok_def pending_ok_def Let_def)

lemma reading_start:
  assumes "device_ok device g m"
  shows "reading m g 0 (first_tally, begin_sync m, g)" "points_ok (begin_sync m)" "pendingTouchPointCount (begin_sync m) = 0"
  using assms by (auto simp: reading_def device_ok_def begin_sync_def first_tally_def frame_defs near_def coordinate_def
      points_ok_def alive_def)

lemma queue_frame:
  "device_ok device g (m\<lparr>pendingInputEvents := es\<rparr>) = device_ok device g m"
  "device_ok device g (m\<lparr>pendingInputEventCapacity := n\<rparr>) = device_ok device g m"
  "spoken device g (m\<lparr>pendingInputEvents := es\<rparr>) = spoken device g m"
  "spoken device g (m\<lparr>pendingInputEventCapacity := n\<rparr>) = spoken device g m"
  by (simp_all add: device_ok_def sizes_ok_def pending_ok_def points_ok_def primary_ok_def alive_def spoken_def)

lemma handleSync_ok:
  assumes d: "device_ok device g m" and g: "screen_size_ok g"
    and q: "\<forall>e \<in> set (pendingInputEvents m). event_ok device e \<and> ev_type e \<in> {EV_SYN, EV_KEY, EV_REL, EV_ABS}"
    and s: "slots_ok 0 (pendingInputEvents m)"
  shows "returns (lens_input_pointerEvents_handleSync stack device (m, g)) (\<lambda>(m', g'). device_ok device g' m' \<and>
    pendingInputEvents m' = [] \<and> told device g (spoken device g m) g' (spoken device g' m'))"
proof -
  note start = reading_start [OF d]
  obtain t m1 g1 where r: "sync_events device 0 (pendingInputEvents m) (first_tally, begin_sync m, g) = Some (t, m1, g1)"
      "reading m g (length (pendingInputEvents m)) (t, m1, g1)"
    using sync_events_reading [OF start(1) g q s] start(3) by (auto simp: returns_iff)
  then have m1: "sizes_ok m1" "pending_ok m1" "same_points m m1" "nextTouchID m1 = nextTouchID m" "same_input g g1"
      "notified g1 = notified g" "keyEventIndex t < int (length (pendingInputEvents m))" by (auto simp: reading_def)
  have p0: "points_ok m" "primary_ok device g m" "sizes_ok m" using d by (auto simp: device_ok_def)
  obtain ok m2 where p: "preprocess device t m1 = (ok, m2)" by force
  have "points_ok m1" using p0(1) m1(3,4) points_ok_keeps [of m m1] by (simp add: keeps_def)
  then have m2: "sizes_ok m2" "pending_ok m2" "keeps m1 m2" using preprocess_ok [OF m1(1,2) _ p] by auto
  then have k: "keeps m m2" using m1(3,4) by (auto simp: keeps_def same_points_def)
  then have m2': "points_ok m2" "same_points m m2" "pendingInputEvents m2 = pendingInputEvents m"
    using p0(1) points_ok_keeps [of m m2] by (auto simp: keeps_def same_points_def)
  have pr: "primary_ok device g1 m2" "spoken device g1 m2 = spoken device g m"
    using primary_ok_same [OF p0(2) m2'(2) m1(5)] k alive_count(1) [OF p0(3)] by (auto simp: keeps_def)
  show ?thesis
  proof (cases ok)
    case False
    have "device_ok device g1 (m2\<lparr>pendingInputEvents := []\<rparr>)" "spoken device g1 (m2\<lparr>pendingInputEvents := []\<rparr>) = spoken device g m"
      using m2(1,2) m2'(1) pr by (simp_all add: queue_frame) (simp add: device_ok_def)
    moreover have "lens_input_pointerEvents_handleSync stack device (m, g) = Some (m2\<lparr>pendingInputEvents := []\<rparr>, g1)"
      using r(1) p False by (simp add: lens_input_pointerEvents_handleSync_def)
    ultimately show ?thesis using m1(5,6) by (simp add: told_def)
  next
    case True
    obtain m3 g3 ps save a where t3: "do { m \<leftarrow> assign_ids m2; (m, ps, save) \<leftarrow> touch_report device g1 stack m; notify_touch device m g1 ps save } =
        Some (m3, g3, ps, save)" "told device g1 (spoken device g1 m2) g3 a" "closing device g1 a m3 ps save"
        "pendingInputEvents m3 = pendingInputEvents m"
      using touch_part_ok [OF m2(1,2) m2'(1) pr(1), of stack] m2'(3) by (auto simp: returns_iff simp del: split_paired_Ex)
    obtain axes g4 where mouse: "(if isTouch device then Some (m3, g3) else mouse_events t m3 g3) = Some (m3\<lparr>rel_axes := axes\<rparr>, g4)"
        "length axes = 16" "same_input g3 g4" "\<exists>qs. notified g4 = notified g3 @ qs \<and> list_all request_ok qs"
        "isTouch device \<Longrightarrow> g4 = g3"
    proof (cases "isTouch device")
      case True
      then show ?thesis
        using that [of "rel_axes m3" g3] t3(3) by (auto simp: closing_def sizes_ok_def same_input_def)
    next
      case False
      have "sizes_ok m3" using t3(3) by (simp add: closing_def)
      from mouse_events_ok [OF this, of t g3] m1(7) t3(4) obtain axes g4 where
        "mouse_events t m3 g3 = Some (m3\<lparr>rel_axes := axes\<rparr>, g4)" "length axes = 16" "same_input g3 g4"
        "\<exists>qs. notified g4 = notified g3 @ qs \<and> list_all request_ok qs" by (auto simp: returns_iff)
      with False that show ?thesis by auto
    qed
    let ?m = "m3\<lparr>rel_axes := axes, pendingInputEvents := []\<rparr>"
    have res: "lens_input_pointerEvents_handleSync stack device (m, g) = Some (save_points save ps ?m, g4)"
      using r(1) p True t3(1) mouse(1)
      by (auto simp: lens_input_pointerEvents_handleSync_def split: bind_splits)
    have input: "same_input g1 g4" "single_mode device g4 = single_mode device g1"
      using t3(2) mouse(3) by (auto simp: told_def same_input_def single_mode_def)
    then have c: "closing device g4 a ?m ps save"
      using closing_frame [OF t3(3) mouse(2)] by blast
    have "told device g (spoken device g m) g4 a"
      using t3(2) mouse(4,5) input(1) m1(5,6) by (auto simp: told_def same_input_def pr(2))
    then have "told device g (spoken device g m) g4 (spoken device g4 (save_points save ps ?m))"
      using closing_ok(2) [OF c] by (auto simp: told_def)
    moreover have "pendingInputEvents (save_points save ps ?m) = []" by (simp add: save_points_def Let_def)
    ultimately show ?thesis using closing_ok(1) [OF c] by (simp add: res)
  qed
qed

end
