(* ===== verification/UdevStream.thy ===== *)
theory UdevStream
  imports UdevTouch
begin

text \<open>
  Streams of events: what holds of a device over any run of events, the devices and the window manager
  together, and the limit of a report.
\<close>

section \<open>Streams of events\<close>

text \<open>What the kernel sends: positions within their axes, and reports on at most 20 fingers.\<close>

definition slots_after :: "nat \<Rightarrow> linux_input_event \<Rightarrow> nat" where
  "slots_after n e = (if ev_type e = EV_SYN \<and> ev_code e = SYN_REPORT then 0 else if separator e then Suc n else n)"

fun stream_ok :: "LensInputDevice \<Rightarrow> nat \<Rightarrow> linux_input_event list \<Rightarrow> bool" where
  "stream_ok device n [] = True"
| "stream_ok device n (e # es) = (event_ok device e \<and> (touch_axis e \<longrightarrow> n < 20) \<and>
     stream_ok device (slots_after n e) es)"

text \<open>Between events: the queue holds what \<open>handleSync\<close> expects, and at most \<open>n\<close> separators.\<close>

definition between :: "LensInputDevice \<Rightarrow> nat \<Rightarrow> lens_input \<Rightarrow> LensInputMouseState \<Rightarrow> bool" where
  "between device n g m \<longleftrightarrow> device_ok device g m \<and>
     (\<forall>e \<in> set (pendingInputEvents m). event_ok device e \<and> ev_type e \<in> {EV_SYN, EV_KEY, EV_REL, EV_ABS}) \<and>
     slots_ok 0 (pendingInputEvents m) \<and> length (filter separator (pendingInputEvents m)) \<le> n"

lemma slots_ok_append:
  "slots_ok k (es @ [e]) \<longleftrightarrow> slots_ok k es \<and> (touch_axis e \<longrightarrow> k + length (filter separator es) < 20)"
  by (induction es arbitrary: k) auto

lemma between_mono: "between device k g m \<Longrightarrow> k \<le> n \<Longrightarrow> between device n g m"
  by (auto simp: between_def)

lemma enqueue_between:
  assumes b: "between device n g m" and e: "event_ok device e" "touch_axis e \<longrightarrow> n < 20" "ev_type e \<in> {EV_SYN, EV_KEY, EV_REL, EV_ABS}"
  shows "between device (if separator e then Suc n else n) g (lens_input_pointerEvents_enqueuePendingEvent mem e m)"
    "spoken device g (lens_input_pointerEvents_enqueuePendingEvent mem e m) = spoken device g m"
proof -
  define m' where "m' = lens_input_pointerEvents_enqueuePendingEvent mem e m"
  have "m' = m \<or> (\<exists>k. m' = m\<lparr>pendingInputEventCapacity := k, pendingInputEvents := pendingInputEvents m @ [e]\<rparr>)"
  proof (cases "pendingInputEventCapacity m = 0 \<or> length (pendingInputEvents m) = pendingInputEventCapacity m")
    case True
    then show ?thesis by (auto simp: m'_def lens_input_pointerEvents_enqueuePendingEvent_def Let_def)
  next
    case False
    then show ?thesis
      by (intro disjI2 exI [of _ "pendingInputEventCapacity m"])
        (simp add: m'_def lens_input_pointerEvents_enqueuePendingEvent_def Let_def)
  qed
  then have "between device (if separator e then Suc n else n) g m' \<and> spoken device g m' = spoken device g m"
  proof
    assume "m' = m"
    then show ?thesis using between_mono [OF b, of "Suc n"] b by simp
  next
    assume "\<exists>k. m' = m\<lparr>pendingInputEventCapacity := k, pendingInputEvents := pendingInputEvents m @ [e]\<rparr>"
    then obtain k where m': "m' = m\<lparr>pendingInputEventCapacity := k, pendingInputEvents := pendingInputEvents m @ [e]\<rparr>" ..
    show ?thesis using b e unfolding between_def m' queue_frame by (auto simp: slots_ok_append)
  qed
  then show "between device (if separator e then Suc n else n) g (lens_input_pointerEvents_enqueuePendingEvent mem e m)"
    "spoken device g (lens_input_pointerEvents_enqueuePendingEvent mem e m) = spoken device g m"
    unfolding m'_def by blast+
qed

lemma handleEvent_ok:
  assumes b: "between device n g m" and g: "screen_size_ok g" and e: "event_ok device e" "touch_axis e \<longrightarrow> n < 20"
  shows "returns (lens_input_pointerEvents_handleEvent mem stack device e (m, g)) (\<lambda>(m', g').
    between device (slots_after n e) g' m' \<and>
    told device g (spoken device g m) g' (spoken device g' m'))"
proof (cases "ev_type e = EV_SYN \<and> ev_code e = SYN_REPORT")
  case True
  have "returns (lens_input_pointerEvents_handleSync stack device (m, g)) (\<lambda>(m', g'). device_ok device g' m' \<and>
      pendingInputEvents m' = [] \<and> told device g (spoken device g m) g' (spoken device g' m'))"
    using b by (intro handleSync_ok g) (auto simp: between_def)
  then show ?thesis using True by (auto simp: lens_input_pointerEvents_handleEvent_def returns_iff between_def slots_after_def)
next
  case False
  show ?thesis
  proof (cases "ev_type e \<in> {EV_SYN, EV_KEY, EV_REL, EV_ABS}")
    case True
    have res: "lens_input_pointerEvents_handleEvent mem stack device e (m, g) = Some (lens_input_pointerEvents_enqueuePendingEvent mem e m, g)"
      using True False by (auto simp: lens_input_pointerEvents_handleEvent_def)
    show ?thesis unfolding res returns_Some split_conv enqueue_between(2) [OF b e True]
      using enqueue_between(1) [OF b e True, of mem] False told_refl by (auto simp: slots_after_def)
  next
    case other: False
    have res: "lens_input_pointerEvents_handleEvent mem stack device e (m, g) = Some (m, g)"
      using other False by (simp add: lens_input_pointerEvents_handleEvent_def)
    have "slots_after n e = n" using other by (auto simp: separator_def slots_after_def)
    then show ?thesis unfolding res returns_Some split_conv using b False told_refl by simp
  qed
qed

lemma told_trans: "told device g a g1 b \<Longrightarrow> told device g1 b g2 c \<Longrightarrow> told device g a g2 c"
  by (auto simp: told_def same_input_def conversation_append)

lemma same_screen: "told device g a g' b \<Longrightarrow> screen_size_ok g' = screen_size_ok g"
  by (simp add: told_def same_input_def screen_size_ok_def)

text \<open>The events of one device, one after the other, with what happens to the variables.\<close>

definition device_event ::
    "LensInputDevice \<Rightarrow> bool \<times> (nat \<Rightarrow> int) \<times> linux_input_event \<Rightarrow> LensInputMouseState \<times> lens_input \<Rightarrow>
     (LensInputMouseState \<times> lens_input) option" where
  "device_event device = (\<lambda>(mem, stack, e). lens_input_pointerEvents_handleEvent mem stack device e)"

lemma device_run_ok:
  assumes "between device n g m" "screen_size_ok g" "stream_ok device n (map (\<lambda>(mem, stack, e). e) as)"
  shows "returns (run (device_event device) as (m, g)) (\<lambda>(m', g'). device_ok device g' m' \<and>
    told device g (spoken device g m) g' (spoken device g' m'))"
  using assms
proof (induction as arbitrary: n g m)
  case Nil
  then show ?case using told_refl by (simp add: between_def)
next
  case (Cons a as)
  obtain mem stack e where a: "a = (mem, stack, e)" by (cases a) auto
  let ?n = "slots_after n e"
  have e: "event_ok device e" "touch_axis e \<longrightarrow> n < 20" "stream_ok device ?n (map (\<lambda>(mem, stack, e). e) as)"
    using Cons.prems(3) by (simp_all add: a)
  from handleEvent_ok [OF Cons.prems(1,2) e(1,2), of mem stack] obtain m1 g1 where
    r: "lens_input_pointerEvents_handleEvent mem stack device e (m, g) = Some (m1, g1)" "between device ?n g1 m1"
      "told device g (spoken device g m) g1 (spoken device g1 m1)" by (auto simp: returns_iff)
  have "returns (run (device_event device) as (m1, g1)) (\<lambda>(m', g'). device_ok device g' m' \<and>
      told device g1 (spoken device g1 m1) g' (spoken device g' m'))"
    using Cons.prems(2) same_screen [OF r(3)] e(3) r(2) by (intro Cons.IH) auto
  then have "returns (run (device_event device) as (m1, g1)) (\<lambda>(m', g'). device_ok device g' m' \<and>
      told device g (spoken device g m) g' (spoken device g' m'))"
    by (elim returns_conseq) (auto intro: told_trans [OF r(3)])
  then show ?case by (simp add: a device_event_def r(1))
qed

definition new_mouse_state :: LensInputMouseState where
  "new_mouse_state = calloc_mouse_state\<lparr>touchPrimaryPointID := - 1\<rparr>"

lemma mouseStateAllocateAndInit_new:
  "mouse_state device = None \<Longrightarrow> lens_input_mouseStateAllocateAndInit True device = (LENS_OK, device\<lparr>mouse_state := Some new_mouse_state\<rparr>)"
  by (simp add: lens_input_mouseStateAllocateAndInit_def new_mouse_state_def)

lemma new_between: "between device 0 g new_mouse_state" "spoken device g new_mouse_state = ({}, None)"
  by (auto simp: between_def device_ok_def new_mouse_state_def calloc_mouse_state_def frame_defs points_ok_def primary_ok_def
      alive_def near_def coordinate_def spoken_def)

text \<open>
  C1: a touch screen talks sense to the window manager. From the state that the allocation gives, whatever
  events of a device arrive that reports at most 20 fingers at once, and whichever allocations of the queue fail,
  the processing ends without a failed assertion or an access outside an array, and the requests that were made are a
  conversation about fingers: every finger has an identifier of its own, is pressed exactly once,
  then moves or stays, and is released exactly once; every report mentions every finger that is down; one of
  the fingers that are down is the primary one and stays it until it is released. What the device stores are
  exactly the fingers that the window manager believes to be down. This holds with support for several fingers and without.
\<close>

theorem touch_conversation:
  assumes "lens_input_mouseStateAllocateAndInit True device = (LENS_OK, device')" "mouse_state device = None"
    and "mouse_state device' = Some m" "isTouch device" "screen_size_ok g" "notified g = []"
    and "stream_ok device 0 (map (\<lambda>(mem, stack, e). e) as)"
  shows "returns (run (device_event device) as (m, g)) (\<lambda>(m', g'). conversation (notified g') ({}, None) = Some (spoken device g' m'))"
proof -
  have "m = new_mouse_state" using assms(1-3) mouseStateAllocateAndInit_new [OF assms(2)] by auto
  then show ?thesis
    using device_run_ok [OF new_between(1) assms(5,7)] assms(4,6) new_between(2) [of device g]
    by (auto simp: returns_iff told_def)
qed

section \<open>The devices and the window manager together\<close>

lemma input_requests_reachable:
  assumes "reachable s" "\<not> renderLocked s" "ptr_ok (dom (windows s)) (dragGrabbingWindow s)" "list_all request_ok qs"
  shows "returns (run perform qs s) (\<lambda>s'. reachable s' \<and> \<not> renderLocked s' \<and> ptr_ok (dom (windows s')) (dragGrabbingWindow s'))"
proof -
  obtain live D V xs r where "wm_ok (True, live) D V xs False r s"
    using drag_good [OF reachable_good [OF assms(1)] assms(3)] by (auto simp: good_def)
  then have s: "wm_ok (True, live) D V xs False False s" using assms(2) by (simp add: wm_ok_def)
  note ok = input_requests_ok [OF s _ assms(4)]
  then obtain s' where "run perform qs s = Some s'" "wm_ok (True, live) D V xs False False s'" by (auto simp: returns_iff)
  with reachable_run [OF assms(1) ok(1)] show ?thesis by (auto simp: wm_ok_def)
qed

text \<open>A device that points has its state; a keyboard needs none.\<close>

definition attached :: "nat \<Rightarrow> lens_input \<Rightarrow> LensInputDevice \<Rightarrow> bool" where
  "attached n g device \<longleftrightarrow>
     (\<not> isKeyboard device \<and> (isPointer device \<or> isTouch device) \<longrightarrow> (\<exists>m. mouse_state device = Some m \<and> between device n g m))"

lemma between_cong:
  assumes "between device n g m" "same_input g g'"
  shows "between device n g' m" "between (device\<lparr>mouse_state := st\<rparr>) n g m"
proof -
  have "single_mode device g' = single_mode device g" "single_mode (device\<lparr>mouse_state := st\<rparr>) g = single_mode device g"
    using assms(2) by (simp_all add: single_mode_def same_input_def)
  moreover have "event_ok (device\<lparr>mouse_state := st\<rparr>) e = event_ok device e" for e by (simp add: event_ok_def)
  ultimately have "primary_ok device g' m = primary_ok device g m" "primary_ok (device\<lparr>mouse_state := st\<rparr>) g m = primary_ok device g m"
    "event_ok (device\<lparr>mouse_state := st\<rparr>) = event_ok device"
    by (simp_all add: primary_ok_def fun_eq_iff)
  then show "between device n g' m" "between (device\<lparr>mouse_state := st\<rparr>) n g m"
    using assms(1) by (simp_all add: between_def device_ok_def)
qed

lemma stream_ok_state [simp]: "stream_ok (device\<lparr>mouse_state := st\<rparr>) n es = stream_ok device n es"
  by (induction es arbitrary: n) (simp_all add: event_ok_def)

lemma keyEvents_requests:
  "\<exists>qs. lens_input_keyEvents_handleEvent e f g = g\<lparr>notified := notified g @ qs\<rparr> \<and> list_all request_ok qs"
proof -
  let ?h = "lens_input_keyEvents_handleEvent e f g"
  have "?h = g \<or> (\<exists>t k b. ?h = notify (Key t k b) g)" by (auto simp: lens_input_keyEvents_handleEvent_def Let_def)
  then show ?thesis
  proof
    assume "?h = g"
    then show ?thesis by (intro exI [of _ "[]"]) simp
  next
    assume "\<exists>t k b. ?h = notify (Key t k b) g"
    then obtain t k b where "?h = notify (Key t k b) g" by blast
    then show ?thesis by (intro exI [of _ "[Key t k b]"]) (simp add: notify_def)
  qed
qed

lemma handle_input_ok:
  assumes a: "attached n g device" and g: "screen_size_ok g" "notified g = []" and s: "reachable s" "\<not> renderLocked s" "ptr_ok (dom (windows s)) (dragGrabbingWindow s)"
    and e: "stream_ok device n (e # es)"
  shows "returns (handle_input mem stack e (device, g, s)) (\<lambda>(device', g', s'). attached (slots_after n e) g' device' \<and>
    (\<exists>st. device' = device\<lparr>mouse_state := st\<rparr>) \<and> same_input g g' \<and> notified g' = [] \<and> reachable s' \<and> \<not> renderLocked s' \<and> ptr_ok (dom (windows s')) (dragGrabbingWindow s'))"
proof -
  have clear: "same_input g (g1\<lparr>notified := []\<rparr>)" if "same_input g g1" for g1 using that by (simp add: same_input_def)
  have same: "\<exists>st. device = device\<lparr>mouse_state := st\<rparr>" by (intro exI [of _ "mouse_state device"]) simp
  consider (key) "isKeyboard device" | (point) "\<not> isKeyboard device" "isPointer device \<or> isTouch device"
    | (none) "\<not> isKeyboard device" "\<not> (isPointer device \<or> isTouch device)" by blast
  then show ?thesis
  proof cases
    case key
    obtain qs where k: "lens_input_keyEvents_handleEvent e (glass_window_getFocusedWindow s) g = g\<lparr>notified := qs\<rparr>" "list_all request_ok qs"
      using keyEvents_requests [of e "glass_window_getFocusedWindow s" g] g(2) by auto
    obtain s' where "run perform qs s = Some s'" "reachable s'" "\<not> renderLocked s'" "ptr_ok (dom (windows s')) (dragGrabbingWindow s')"
      using input_requests_reachable [OF s k(2)] by (auto simp: returns_iff)
    moreover have "same_input g (g\<lparr>notified := []\<rparr>)" by (simp add: same_input_def)
    ultimately show ?thesis using key k(1) same by (simp add: handle_input_def attached_def)
  next
    case point
    then obtain m where m: "mouse_state device = Some m" "between device n g m" using a by (auto simp: attached_def)
    have ev: "event_ok device e" "touch_axis e \<longrightarrow> n < 20" using e by auto
    obtain m' g1 where r: "lens_input_pointerEvents_handleEvent mem stack device e (m, g) = Some (m', g1)"
      "between device (slots_after n e) g1 m'" "told device g (spoken device g m) g1 (spoken device g1 m')"
      using handleEvent_ok [OF m(2) g(1) ev, of mem stack] by (auto simp: returns_iff)
    then have q: "list_all request_ok (notified g1)" "same_input g g1" using g(2) by (auto simp: told_def)
    obtain s' where "run perform (notified g1) s = Some s'" "reachable s'" "\<not> renderLocked s'" "ptr_ok (dom (windows s')) (dragGrabbingWindow s')"
      using input_requests_reachable [OF s q(1)] by (auto simp: returns_iff)
    moreover have "between (device\<lparr>mouse_state := Some m'\<rparr>) (slots_after n e) (g1\<lparr>notified := []\<rparr>) m'"
      using between_cong [OF r(2)] between_cong(1) [of "device\<lparr>mouse_state := Some m'\<rparr>" _ g1 m' "g1\<lparr>notified := []\<rparr>"]
      by (simp add: same_input_def)
    ultimately show ?thesis
      using point m(1) r(1) clear [OF q(2)] by (auto simp: handle_input_def attached_def)
  next
    case none
    have "same_input g (g\<lparr>notified := []\<rparr>)" by (simp add: same_input_def)
    then show ?thesis using none same s g(2) by (auto simp: handle_input_def attached_def)
  qed
qed

text \<open>The events of device \<open>i\<close> in a sequence of arrivals.\<close>

definition events_of :: "nat \<Rightarrow> arrival list \<Rightarrow> linux_input_event list" where
  "events_of i as = map (\<lambda>(j, mem, stack, e). e) (filter (\<lambda>(j, mem, stack, e). j = i) as)"

lemma events_of_Cons: "events_of i ((j, mem, stack, e) # as) = (if j = i then [e] else []) @ events_of i as"
  by (simp add: events_of_def)

lemma attached_cong: "attached n g device \<Longrightarrow> same_input g g' \<Longrightarrow> attached n g' device"
  using between_cong(1) by (auto simp: attached_def)

lemma input_run_ok:
  assumes "\<And>i. i < length devices \<Longrightarrow> attached (n i) g (devices ! i) \<and> stream_ok (devices ! i) (n i) (events_of i as)"
    and "screen_size_ok g" "notified g = []" "reachable s" "\<not> renderLocked s" "ptr_ok (dom (windows s)) (dragGrabbingWindow s)"
  shows "returns (run loop_step as (devices, g, s)) (\<lambda>(devices', g', s'). length devices' = length devices \<and>
    reachable s' \<and> \<not> renderLocked s' \<and> ptr_ok (dom (windows s')) (dragGrabbingWindow s') \<and> (\<forall>i < length devices. \<exists>k. attached k g' (devices' ! i)))"
  using assms
proof (induction as arbitrary: devices n g s)
  case Nil
  then show ?case by auto
next
  case (Cons a as)
  obtain i mem stack e where a: "a = (i, mem, stack, e)" by (cases a) auto
  show ?case
  proof (cases "i < length devices")
    case False
    then have "\<And>j. j < length devices \<Longrightarrow> attached (n j) g (devices ! j) \<and> stream_ok (devices ! j) (n j) (events_of j as)"
      using Cons.prems(1) by (force simp: a events_of_Cons)
    from Cons.IH [OF this Cons.prems(2-)] False show ?thesis by (simp add: a loop_step_def)
  next
    case True
    have i: "attached (n i) g (devices ! i)" "stream_ok (devices ! i) (n i) (e # events_of i as)"
      using Cons.prems(1) [OF True] by (simp_all add: a events_of_Cons)
    have "stream_ok (devices ! i) (n i) [e]" using i(2) by simp
    from handle_input_ok [OF i(1) Cons.prems(2-6) this, of mem stack] obtain d g1 s1 st where
      h: "handle_input mem stack e (devices ! i, g, s) = Some (d, g1, s1)" "attached (slots_after (n i) e) g1 d"
        "d = (devices ! i)\<lparr>mouse_state := st\<rparr>" "same_input g g1" "notified g1 = []" "reachable s1" "\<not> renderLocked s1" "ptr_ok (dom (windows s1)) (dragGrabbingWindow s1)"
      by (auto simp: returns_iff)
    have sc: "screen_size_ok g1" using Cons.prems(2) h(4) by (simp add: screen_size_ok_def same_input_def)
    have "attached ((n(i := slots_after (n i) e)) j) g1 (devices[i := d] ! j) \<and>
        stream_ok (devices[i := d] ! j) ((n(i := slots_after (n i) e)) j) (events_of j as)" if "j < length (devices[i := d])" for j
    proof (cases "j = i")
      case True
      then show ?thesis using that h(2,3) i(2) by simp
    next
      case False
      then show ?thesis using that Cons.prems(1) [of j] attached_cong [OF _ h(4)] by (simp add: a events_of_Cons)
    qed
    from Cons.IH [OF this sc h(5-8)] True h(1) show ?thesis by (simp add: a loop_step_def)
  qed
qed

text \<open>
  C4: input alone never gets the window system stuck. Take any interleaving of the events of any number of
  keyboards, mice and touch screens, each sending positions within its axes and reports on at most 20 fingers, from any reachable
  state in which nothing is being painted and the window that holds a drag, if any, has not been closed. It is
  processed to its end: each event is decoded, its requests reach the window manager at once, and all of them return; the
  state it leads to is reachable again, and the window that holds a drag in it still is allocated.
\<close>

theorem input_never_stuck:
  assumes "\<forall>device \<in> set devices. mouse_state device = Some new_mouse_state"
    and "\<forall>i < length devices. stream_ok (devices ! i) 0 (events_of i as)"
    and "screen_size_ok g" "notified g = []" "reachable s" "\<not> renderLocked s" "ptr_ok (dom (windows s)) (dragGrabbingWindow s)"
  shows "returns (run loop_step as (devices, g, s)) (\<lambda>(devices', g', s'). reachable s' \<and> \<not> renderLocked s' \<and>
    ptr_ok (dom (windows s')) (dragGrabbingWindow s'))"
proof -
  have "attached 0 g (devices ! i) \<and> stream_ok (devices ! i) 0 (events_of i as)" if "i < length devices" for i
    using assms(1,2) that new_between(1) by (simp add: attached_def)
  then have "returns (run loop_step as (devices, g, s)) (\<lambda>(devices', g', s'). length devices' = length devices \<and>
      reachable s' \<and> \<not> renderLocked s' \<and> ptr_ok (dom (windows s')) (dragGrabbingWindow s') \<and>
      (\<forall>i < length devices. \<exists>k. attached k g' (devices' ! i)))"
    by (intro input_run_ok [where n = "\<lambda>_. 0"] assms(3-7)) auto
  then show ?thesis by (elim returns_conseq) auto
qed

section \<open>The limit of a report\<close>

lemma touch_axis_stuck:
  assumes "touch_axis e" "pendingTouchPointCount m = 20" "sizes_ok m"
  shows "sync_event device i e (t, m, g) = None"
proof -
  have w: "write_at xs 20 x = None" if "length xs = 20" for xs :: "int list" and x using that by (simp add: write_at_def)
  have m: "length (pendingTouchXs m) = 20" "length (pendingTouchYs m) = 20" "length (pendingTouchTrackingIDs m) = 20"
    using assms(3) by (simp_all add: sizes_ok_def)
  have "returns (lens_input_pointerEvents_handleAbsMotion device e (m, g)) (\<lambda>(m', g').
      ev_code e = ABS_MT_TRACKING_ID \<and> pendingTouchPointCount m' = 20 \<and> length (pendingTouchTrackingIDs m') = 20) \<or>
    lens_input_pointerEvents_handleAbsMotion device e (m, g) = None"
    using assms m by (auto simp: lens_input_pointerEvents_handleAbsMotion_def touch_axis_def w returns_iff split: bind_splits)
  then show ?thesis
    using assms(1) w by (auto simp: sync_event_def touch_axis_def returns_iff store_tracking_id_def split: bind_splits)
qed

lemma sync_events_stuck:
  assumes "reading m0 g0 i (t, m, g)" "screen_size_ok g0" "\<forall>e \<in> set es. event_ok device e \<and> ev_type e \<in> {EV_SYN, EV_KEY, EV_REL, EV_ABS}"
    and "\<not> slots_ok n es" "pendingTouchPointCount m = min 20 n"
  shows "sync_events device i es (t, m, g) = None"
  using assms
proof (induction es arbitrary: i t m g n)
  case (Cons e es)
  show ?case
  proof (cases "touch_axis e \<and> pendingTouchPointCount m = 20")
    case True
    then show ?thesis using touch_axis_stuck [of e m device i t g] Cons.prems(1) by (simp add: reading_def)
  next
    case False
    then have room: "touch_axis e \<longrightarrow> n < 20 \<and> pendingTouchPointCount m < 20" using Cons.prems(5) by auto
    have "returns (sync_event device i e (t, m, g)) (\<lambda>(t', m', g'). reading m0 g0 (Suc i) (t', m', g') \<and>
        pendingTouchPointCount m' = min 20 (pendingTouchPointCount m + (if separator e then 1 else 0)))"
      using Cons.prems room by (intro sync_event_reading) auto
    then obtain t' m' g' where r: "sync_event device i e (t, m, g) = Some (t', m', g')" "reading m0 g0 (Suc i) (t', m', g')"
        "pendingTouchPointCount m' = min 20 (pendingTouchPointCount m + (if separator e then 1 else 0))"
      by (auto simp: returns_iff)
    have "sync_events device (Suc i) es (t', m', g') = None"
      using Cons.prems room r by (intro Cons.IH [of _ _ _ _ "if separator e then Suc n else n"]) auto
    with r(1) show ?thesis by simp
  qed
qed simp

text \<open>
  C31: the limit of 20 fingers is not enforced where it counts. A report of positions that exist is
  processed if and only if no coordinate and no tracking identifier follows the twentieth separator: the comment
  promises that the points past the limit are dropped, but their coordinates are written behind the arrays.
\<close>

theorem report_limit_exact:
  assumes "device_ok device g m" "screen_size_ok g"
    and "\<forall>e \<in> set (pendingInputEvents m). event_ok device e \<and> ev_type e \<in> {EV_SYN, EV_KEY, EV_REL, EV_ABS}"
  shows "lens_input_pointerEvents_handleSync stack device (m, g) \<noteq> None \<longleftrightarrow> slots_ok 0 (pendingInputEvents m)"
proof (cases "slots_ok 0 (pendingInputEvents m)")
  case True
  with handleSync_ok [OF assms True, of stack] show ?thesis by (auto simp: returns_iff)
next
  case False
  note start = reading_start [OF assms(1)]
  have "sync_events device 0 (pendingInputEvents m) (first_tally, begin_sync m, g) = None"
    using sync_events_stuck [OF start(1) assms(2,3) False] start(3) by simp
  with False show ?thesis by (simp add: lens_input_pointerEvents_handleSync_def)
qed

text \<open>
  C32: the state of a pointing device stays well-formed under any stream of events that has positions within the axes
  and reports on at most 20 fingers (a report that goes on after 20 fingers gets stuck, see C31). The arrays keep their 20
  elements and the counts stay within them; the identifiers of the fingers that are down are distinct,
  positive and below the next one to be given out; there is a primary finger whenever a finger is down.
\<close>

theorem touch_state_well_formed:
  assumes "mouse_state device = Some new_mouse_state" "screen_size_ok g" "stream_ok device 0 (map (\<lambda>(mem, stack, e). e) as)"
  shows "returns (run (device_event device) as (new_mouse_state, g)) (\<lambda>(m, g').
    touchPointCount m \<le> 20 \<and> pendingTouchPointCount m \<le> 20 \<and>
    (\<forall>xs \<in> {touchIDs m, touchXs m, touchYs m, touchTrackingIDs m, pendingTouchIDs m, pendingTouchXs m, pendingTouchYs m,
              pendingTouchTrackingIDs m}. length xs = 20) \<and>
    distinct (take (touchPointCount m) (touchIDs m)) \<and>
    (\<forall>k \<in> set (take (touchPointCount m) (touchIDs m)). 1 \<le> k \<and> k < nextTouchID m) \<and>
    (touchPrimaryPointID m = - 1 \<or> 1 \<le> touchPrimaryPointID m) \<and> (touchPointCount m \<noteq> 0 \<longrightarrow> 1 \<le> touchPrimaryPointID m))"
  using device_run_ok [OF new_between(1) assms(2,3)]
  by (elim returns_conseq) (auto simp: device_ok_def sizes_ok_def points_ok_def primary_ok_def alive_def)

text \<open>
  C35: a position on an axis of a touch screen, computed with numbers of type \<open>float\<close>, is mapped between 0 and
  the extent of the screen; the largest position of the axis is mapped to the extent itself, one pixel outside the screen.
\<close>

theorem touch_position_bounds:
  assumes "axis_ok info v" "0 \<le> extent" "extent < 2 ^ 24"
  shows "returns (scaled info v extent) (\<lambda>x. 0 \<le> x \<and> x \<le> extent \<and> (v = axis_maximum info \<longrightarrow> x = extent))"
  using scaled_within [OF assms] scaled_maximum [OF assms] by (auto simp: returns_iff)

theorem touch_position_bounds_witness:
  "returns (scaled \<lparr>axis_minimum = 0, axis_maximum = 4095\<rparr> 4095 600) (\<lambda>x. x = 600)"
  using touch_position_bounds [of "\<lparr>axis_minimum = 0, axis_maximum = 4095\<rparr>" 4095 600]
  by (simp add: axis_ok_def returns_iff)

section \<open>The properties at work\<close>

definition a_touch_screen :: "LensInputTouchDeviceProtocols \<Rightarrow> LensInputDevice" where
  "a_touch_screen protocol = \<lparr>isKeyboard = False, isPointer = False, isTouch = True, touchProtocolType = protocol,
     absbits = (\<lambda>_. True), absinfo = replicate 64 \<lparr>axis_minimum = 0, axis_maximum = 4095\<rparr>, mouse_state = None\<rparr>"

definition a_mouse :: LensInputDevice where
  "a_mouse = (a_touch_screen TOUCH_PROTOCOL_NONE)\<lparr>isTouch := False, isPointer := True, mouse_state := Some new_mouse_state\<rparr>"

definition an_input :: lens_input where
  "an_input = \<lparr>screenWidth = 600, screenHeight = 800, in_mousePosX = 300, in_mousePosY = 400, newMousePosX = 300,
     newMousePosY = 400, gTapRadius = 20, gTouchMoveSensitivity = 20, gUseMultiTouch = True, notified = []\<rparr>"

definition event :: "int \<Rightarrow> int \<Rightarrow> int \<Rightarrow> linux_input_event" where
  "event t c v = \<lparr>ev_type = t, ev_code = c, ev_value = v\<rparr>"

definition finger_at :: "int \<Rightarrow> int \<Rightarrow> linux_input_event list" where
  "finger_at x y = [event EV_ABS ABS_MT_POSITION_X x, event EV_ABS ABS_MT_POSITION_Y y, event EV_SYN SYN_MT_REPORT 0]"

definition two_fingers :: "linux_input_event list" where
  "two_fingers = finger_at 100 200 @ finger_at 3000 4095 @ [event EV_SYN SYN_REPORT 0]"

lemmas example_defs = a_touch_screen_def a_mouse_def an_input_def event_def finger_at_def two_fingers_def
  event_ok_def axis_ok_def touch_axis_def separator_def slots_after_def screen_size_ok_def

lemma two_fingers_ok: "stream_ok (a_touch_screen p) 0 two_fingers"
  by (simp add: example_defs)

theorem touch_conversation_witness:
  "\<exists>m g. run (device_event (a_touch_screen TOUCH_PROTOCOL_MT_A)) (map (\<lambda>e. (True, (\<lambda>_. 0), e)) two_fingers) (new_mouse_state, an_input)
     = Some (m, g) \<and> conversation (notified g) ({}, None) = Some (spoken (a_touch_screen TOUCH_PROTOCOL_MT_A) g m)"
proof -
  let ?d = "a_touch_screen TOUCH_PROTOCOL_MT_A" and ?as = "map (\<lambda>e. (True, (\<lambda>_::nat. 0::int), e)) two_fingers"
  have "mouse_state ?d = None" by (simp add: example_defs)
  note new = mouseStateAllocateAndInit_new [OF this] this
  have "stream_ok ?d 0 (map (\<lambda>(mem, stack, e). e) ?as)" using two_fingers_ok by (simp add: comp_def)
  from touch_conversation [OF new _ _ _ _ this, of new_mouse_state an_input]
  show ?thesis by (auto simp: returns_iff example_defs)
qed

theorem input_never_stuck_witness:
  "\<exists>devices g s. run loop_step (map (\<lambda>e. (0, True, (\<lambda>_. 0), e)) two_fingers)
     ([(a_touch_screen TOUCH_PROTOCOL_MT_A)\<lparr>mouse_state := Some new_mouse_state\<rparr>], an_input, started) = Some (devices, g, s) \<and> reachable s"
proof -
  let ?d = "(a_touch_screen TOUCH_PROTOCOL_MT_A)\<lparr>mouse_state := Some new_mouse_state\<rparr>"
    and ?as = "map (\<lambda>e. (0::nat, True, (\<lambda>_::nat. 0::int), e)) two_fingers"
  have "events_of 0 ?as = two_fingers" by (simp add: events_of_def comp_def)
  then have "\<forall>i < length [?d]. stream_ok ([?d] ! i) 0 (events_of i ?as)" using two_fingers_ok by simp
  from input_never_stuck [OF _ this, of an_input started]
  have "returns (run loop_step ?as ([?d], an_input, started)) (\<lambda>(devices', g', s'). reachable s' \<and> \<not> renderLocked s' \<and>
      ptr_ok (dom (windows s')) (dragGrabbingWindow s'))"
    using started_reachable by (simp add: an_input_def screen_size_ok_def started_def lens_init_def)
  then show ?thesis by (auto simp: returns_iff)
qed

theorem report_limit_exact_witness:
  "lens_input_pointerEvents_handleSync (\<lambda>_. 0) (a_touch_screen TOUCH_PROTOCOL_MT_A)
     (new_mouse_state\<lparr>pendingInputEvents := replicate 20 (event EV_SYN SYN_MT_REPORT 0) @ [event EV_ABS ABS_MT_POSITION_X 7]\<rparr>, an_input) = None"
proof -
  let ?d = "a_touch_screen TOUCH_PROTOCOL_MT_A"
  let ?q = "replicate 20 (event EV_SYN SYN_MT_REPORT 0) @ [event EV_ABS ABS_MT_POSITION_X 7]"
  let ?m = "new_mouse_state\<lparr>pendingInputEvents := ?q\<rparr>"
  have d: "device_ok ?d an_input ?m" using new_between(1) by (simp add: queue_frame between_def)
  have "\<forall>e \<in> set ?q. event_ok ?d e \<and> ev_type e \<in> {EV_SYN, EV_KEY, EV_REL, EV_ABS}" by (auto simp: example_defs)
  moreover have "\<not> slots_ok 0 ?q" by (simp add: slots_ok_append) (simp add: example_defs)
  moreover have screen: "screen_size_ok an_input" by (simp add: an_input_def screen_size_ok_def)
  moreover have q: "pendingInputEvents ?m = ?q" by simp
  ultimately show ?thesis using report_limit_exact [OF d screen, unfolded q] by blast
qed

theorem touch_state_well_formed_witness:
  "\<exists>m g. run (device_event ((a_touch_screen TOUCH_PROTOCOL_ST)\<lparr>mouse_state := Some new_mouse_state\<rparr>))
     (map (\<lambda>e. (True, (\<lambda>_. 0), e)) two_fingers) (new_mouse_state, an_input) = Some (m, g) \<and> touchPointCount m \<le> 20"
proof -
  let ?d = "(a_touch_screen TOUCH_PROTOCOL_ST)\<lparr>mouse_state := Some new_mouse_state\<rparr>"
    and ?as = "map (\<lambda>e. (True, (\<lambda>_::nat. 0::int), e)) two_fingers"
  have "stream_ok ?d 0 (map (\<lambda>(mem, stack, e). e) ?as)" using two_fingers_ok by (simp add: comp_def)
  from touch_state_well_formed [OF _ _ this, of an_input] show ?thesis by (auto simp: returns_iff an_input_def screen_size_ok_def)
qed

end
