(* ===== verification/UdevLosses.thy ===== *)
theory UdevLosses
  imports UdevStream
begin

text \<open>
  What gets lost in the processing of a report: all buttons of a mouse but the last, and the release of a
  finger that is not the first when it is reported alone.
\<close>

section \<open>Buttons\<close>

text \<open>What a report tells of the pointer itself.\<close>

fun of_pointer :: "request \<Rightarrow> bool" where
  "of_pointer (Button _ _ _ _) = True"
| "of_pointer (Motion _ _) = True"
| "of_pointer _ = False"

definition keys_of :: "linux_input_event list \<Rightarrow> linux_input_event list" where
  "keys_of es = filter (\<lambda>e. ev_type e = EV_KEY) es"

definition moves :: "linux_input_event list \<Rightarrow> bool" where
  "moves es = list_ex (\<lambda>e. ev_type e = EV_REL) es"

lemma sync_event_tally:
  assumes "sync_event device i e (t, m, g) = Some (t', m', g')"
  shows "keyEventIndex t' = (if ev_type e = EV_KEY then int i else keyEventIndex t)"
    "reportMouseMove t' = (reportMouseMove t \<or> ev_type e = EV_REL)"
  using assms by (auto simp: sync_event_def count_point_def split: bind_splits if_splits)

lemma sync_events_tally:
  assumes "sync_events device i es (t, m, g) = Some (t', m', g')"
  shows "reportMouseMove t' = (reportMouseMove t \<or> moves es) \<and>
    (if keys_of es = [] then keyEventIndex t' = keyEventIndex t
     else \<exists>j < length es. keyEventIndex t' = int (i + j) \<and> es ! j = last (keys_of es))"
  using assms
proof (induction es arbitrary: i t m g)
  case Nil
  then show ?case by (simp add: moves_def keys_of_def)
next
  case (Cons e es)
  obtain t1 m1 g1 where s: "sync_event device i e (t, m, g) = Some (t1, m1, g1)" "sync_events device (Suc i) es (t1, m1, g1) = Some (t', m', g')"
    using Cons.prems by (auto split: bind_splits)
  note IH = Cons.IH [OF s(2)] and t1 = sync_event_tally [OF s(1)]
  have r: "reportMouseMove t' = (reportMouseMove t \<or> moves (e # es))" using IH t1(2) by (auto simp: moves_def)
  show ?case
  proof (cases "keys_of es = []")
    case True
    with IH t1(1) r show ?thesis by (auto simp: keys_of_def intro!: exI [of _ "0::nat"])
  next
    case False
    with IH obtain j where "j < length es" "keyEventIndex t' = int (Suc i + j)" "es ! j = last (keys_of es)" by auto
    with False r show ?thesis by (auto simp: keys_of_def intro!: exI [of _ "Suc j"])
  qed
qed

lemma notify_touch_tells:
  assumes "notify_touch device m g ps save = Some (m', g', ps', save')"
  shows "filter of_pointer (notified g') = filter of_pointer (notified g)" "newMousePosX g' = newMousePosX g" "newMousePosY g' = newMousePosY g"
  using assms by (auto simp: notify_touch_def notify_def Let_def split: bind_splits if_splits prod.splits)

lemma mouse_events_tell:
  assumes "mouse_events t m g = Some (m', g')"
  shows "filter of_pointer (notified g') = filter of_pointer (notified g) @
      (if keyEventIndex t < 0 then []
       else let e = pendingInputEvents m ! nat (keyEventIndex t)
         in [Button (ev_value e = 1) (lens_input_convertButtonToFXButtonCode (ev_code e)) (newMousePosX g') (newMousePosY g')]) @
      (if reportMouseMove t then [Motion (newMousePosX g') (newMousePosY g')] else [])"
  using assms
  by (auto simp: mouse_events_def notify_def Let_def read_at_def lens_input_pointerEvents_handleKeyEvent_def
      split: bind_splits if_splits)

text \<open>
  C34: of the buttons that change in the same report of a mouse only the last one is told to the window manager.
  After any report, whatever else it holds, of a device that is not a touch screen, with positions within the axes
  and on at most 20 fingers, the window manager hears
  of the pointer exactly this: if there was an event of a button, the last of them, pressed or released, at the
  new position of the pointer; then, if there was a relative motion, that position. The other buttons are lost.
\<close>

theorem last_button_only:
  assumes "device_ok device g m" "screen_size_ok g" "touchProtocolType device = TOUCH_PROTOCOL_NONE" "\<not> isTouch device"
    and "\<forall>e \<in> set (pendingInputEvents m). event_ok device e \<and> ev_type e \<in> {EV_SYN, EV_KEY, EV_REL, EV_ABS}"
    and "slots_ok 0 (pendingInputEvents m)"
  shows "returns (lens_input_pointerEvents_handleSync stack device (m, g)) (\<lambda>(m', g').
    filter of_pointer (notified g') = filter of_pointer (notified g) @
      (case rev (keys_of (pendingInputEvents m)) of
         [] \<Rightarrow> []
       | e # _ \<Rightarrow> [Button (ev_value e = 1) (lens_input_convertButtonToFXButtonCode (ev_code e)) (newMousePosX g') (newMousePosY g')]) @
      (if moves (pendingInputEvents m) then [Motion (newMousePosX g') (newMousePosY g')] else []))"
proof -
  let ?es = "pendingInputEvents m"
  obtain m' g' where r: "lens_input_pointerEvents_handleSync stack device (m, g) = Some (m', g')"
    using handleSync_ok [OF assms(1,2,5,6), of stack] by (auto simp: returns_iff)
  then obtain t m1 g1 m2 m3 ps save m4 g4 ps' save' m5 where
    s: "sync_events device 0 ?es (first_tally, begin_sync m, g) = Some (t, m1, g1)" "assign_ids m1 = Some m2"
      "touch_report device g1 stack m2 = Some (m3, ps, save)" "notify_touch device m3 g1 ps save = Some (m4, g4, ps', save')"
      "mouse_events t m4 g4 = Some (m5, g')"
    using assms(3,4) by (auto simp: lens_input_pointerEvents_handleSync_def preprocess_def split: bind_splits)
  note start = reading_start [OF assms(1)]
  have "reading m g (length ?es) (t, m1, g1)"
    using sync_events_reading [OF start(1) assms(2,5,6)] start(3) s(1) by (auto simp: returns_iff)
  then have m1: "sizes_ok m1" "pending_ok m1" "keeps m m1" "same_input g g1" "notified g1 = notified g"
    by (auto simp: reading_def keeps_def)
  have m: "points_ok m" "primary_ok device g m" "sizes_ok m" using assms(1) by (auto simp: device_ok_def)
  have p: "points_ok m1" "primary_ok device g1 m1"
    using m points_ok_keeps [OF m1(3)] primary_ok_same(1) [OF m(2) _ m1(4)] m1(3) alive_count(1) [OF m(3)] by (auto simp: keeps_def)
  have q: "pendingInputEvents m4 = ?es"
    using touch_part_ok [OF m1(1,2) p, of stack] s(2-4) m1(3) by (auto simp: returns_iff keeps_def same_points_def simp del: split_paired_Ex)
  have tally: "reportMouseMove t = moves ?es"
      "if keys_of ?es = [] then keyEventIndex t = - 1 else \<exists>j < length ?es. keyEventIndex t = int j \<and> ?es ! j = last (keys_of ?es)"
    using sync_events_tally [OF s(1)] by (auto simp: first_tally_def split: if_splits)
  note tells = mouse_events_tell [OF s(5), unfolded q tally(1)] notify_touch_tells(1) [OF s(4), unfolded m1(5)]
  show ?thesis
  proof (cases "keys_of ?es" rule: rev_cases)
    case Nil
    with tally(2) tells show ?thesis by (simp add: r)
  next
    case (snoc ks e)
    with tally(2) obtain j where "keyEventIndex t = int j" "?es ! j = e" by auto
    with snoc tells show ?thesis by (simp add: r Let_def)
  qed
qed

section \<open>Releases by tracking identifier\<close>

text \<open>A report whose pending points are the fingers that are down.\<close>

definition at_rest :: "LensInputMouseState \<Rightarrow> bool" where
  "at_rest m \<longleftrightarrow> pendingTouchPointCount m = touchPointCount m \<and> touchPointCount m \<noteq> 0 \<and>
     (\<forall>i < touchPointCount m. pendingTouchXs m ! i = touchXs m ! i \<and> pendingTouchYs m ! i = touchYs m ! i \<and>
        pendingTouchTrackingIDs m ! i = touchTrackingIDs m ! i)"

lemma nearer_skip: "\<forall>j \<in> set js. mapped ! j \<Longrightarrow> fold (nearer mapped xs ys x y) js a = a"
  by (induction js arbitrary: a) (auto simp: nearer_def Let_def)

lemma nearer_zero: "fold (nearer mapped xs ys x y) js (0, k) = (0, k)"
proof (induction js)
  case (Cons j js)
  have "\<not> dist2 xs ys x y j < 0" by (simp add: dist2_def not_less)
  then have "nearer mapped xs ys x y j (0, k) = (0, k)" by (simp add: nearer_def dist2_def Let_def)
  then show ?case using Cons by simp
qed simp

lemma nearest_self:
  assumes "i < n" "\<forall>j < i. mapped ! j" "\<not> mapped ! i" "xs ! i = x" "ys ! i = y"
  shows "nearest n mapped xs ys x y = int i"
proof -
  have "[0..<n] = [0..<i] @ i # [Suc i..<n]" using assms(1) upt_add_eq_append [of 0 i "n - i"] by (simp add: upt_conv_Cons)
  moreover have "fold (nearer mapped xs ys x y) [0..<i] (2147483647, - 1) = (2147483647, - 1)"
    using assms(2) by (intro nearer_skip) simp
  moreover have "nearer mapped xs ys x y i (2147483647, - 1) = (0, int i)" using assms(3-5) by (simp add: nearer_def)
  ultimately show ?thesis by (simp add: nearest_def nearer_zero)
qed

lemma update_prefix: "i < length as \<Longrightarrow> i < length bs \<Longrightarrow> (take i as @ drop i bs)[i := as ! i] = take (Suc i) as @ drop (Suc i) bs"
  by (simp add: list_update_append take_Suc_conv_app_nth Cons_nth_drop_Suc [symmetric])

lemma map_existing_rest:
  assumes m: "sizes_ok m" "at_rest m" and "i + k = touchPointCount m"
  shows "for_range i k (map_existing m) (replicate i True @ replicate (20 - i) False, take i (touchIDs m) @ drop i (pendingTouchIDs m)) =
    Some (replicate (touchPointCount m) True @ replicate (20 - touchPointCount m) False,
      take (touchPointCount m) (touchIDs m) @ drop (touchPointCount m) (pendingTouchIDs m))"
  using assms(3)
proof (induction k arbitrary: i)
  case (Suc k)
  let ?mapped = "replicate i True @ replicate (20 - i) False"
  have i: "i < touchPointCount m" "i < 20" using Suc.prems m(1) by (auto simp: sizes_ok_def)
  have "nearest (pendingTouchPointCount m) ?mapped (pendingTouchXs m) (pendingTouchYs m) (touchXs m ! i) (touchYs m ! i) = int i"
    using i m(2) by (intro nearest_self) (auto simp: at_rest_def nth_append)
  moreover have "?mapped[i := True] = replicate (Suc i) True @ replicate (20 - Suc i) False"
    using i(2) by (intro nth_equalityI) (auto simp: nth_append nth_list_update nth_Cons' simp del: replicate_Suc)

  moreover have "(take i (touchIDs m) @ drop i (pendingTouchIDs m))[i := touchIDs m ! i] = take (Suc i) (touchIDs m) @ drop (Suc i) (pendingTouchIDs m)"
    using i m(1) by (intro update_prefix) (auto simp: sizes_ok_def)
  ultimately have "map_existing m i (?mapped, take i (touchIDs m) @ drop i (pendingTouchIDs m)) =
      Some (replicate (Suc i) True @ replicate (20 - Suc i) False, take (Suc i) (touchIDs m) @ drop (Suc i) (pendingTouchIDs m))"
    by (simp add: map_existing_def del: replicate_Suc)
  with Suc.IH [of "Suc i"] Suc.prems show ?case by (simp del: replicate_Suc)
qed simp

lemma new_id_skip: "\<forall>i \<in> set is. mapped ! i \<Longrightarrow> fold (new_id mapped) is a = a"
  by (induction "is" arbitrary: a) (auto simp: new_id_def)

lemma assign_ids_rest:
  assumes m: "sizes_ok m" "at_rest m"
  shows "assign_ids m = Some (m\<lparr>pendingTouchIDs := take (touchPointCount m) (touchIDs m) @ drop (touchPointCount m) (pendingTouchIDs m)\<rparr>)"
proof -
  let ?c = "touchPointCount m"
  let ?mapped = "replicate ?c True @ replicate (20 - ?c) False"
  have c: "?c \<noteq> 0" "pendingTouchPointCount m = ?c" using m(2) by (auto simp: at_rest_def)
  have "for_range 0 ?c (map_existing m) (replicate 20 False, pendingTouchIDs m) =
      Some (?mapped, take ?c (touchIDs m) @ drop ?c (pendingTouchIDs m))"
    using map_existing_rest [OF m, of 0 ?c] by simp
  moreover have "fold (new_id ?mapped) [0..<?c] a = a" for a by (intro new_id_skip) (simp add: nth_append)
  ultimately show ?thesis using c by (simp add: assign_ids_def new_ids_def Let_def)
qed

definition resting :: "LensInputMouseState \<Rightarrow> nat \<Rightarrow> touch_point" where
  "resting m i = \<lparr>tp_state = TouchEvent_TOUCH_STILL, tp_id = touchIDs m ! i, tp_x = touchXs m ! i, tp_y = touchYs m ! i,
     tp_device = touchTrackingIDs m ! i\<rparr>"

lemma find_own_id:
  assumes "distinct (take c ids)" "i < c" "c \<le> length ids" "\<forall>j < c. ids' ! j = ids ! j"
  shows "List.find (\<lambda>j. ids' ! j = ids ! i) [0..<c] = Some i"
proof -
  have "ids ! j \<noteq> ids ! i" if "j < i" for j
    using assms(1-3) that nth_eq_iff_index_eq [OF assms(1), of j i] by simp
  then show ?thesis
    using assms(2,4) by (auto simp: find_Some_iff intro!: exI [of _ i])
qed

lemma report_existing_rest:
  assumes m: "sizes_ok m" "at_rest m" "points_ok m" and ids: "\<forall>j < touchPointCount m. pendingTouchIDs m ! j = touchIDs m ! j"
    and g: "0 < gTouchMoveSensitivity g" and "i \<le> touchPointCount m"
  shows "fold (report_existing g stack) [0..<i] (m, []) = (m, map (resting m) [0..<i])"
  using assms(6)
proof (induction i)
  case (Suc i)
  let ?c = "touchPointCount m"
  have i: "i < ?c" "i < 20" "?c \<le> 20" using Suc.prems m(1) by (auto simp: sizes_ok_def)
  have p: "pendingTouchXs m ! i = touchXs m ! i" "pendingTouchYs m ! i = touchYs m ! i"
    "pendingTouchTrackingIDs m ! i = touchTrackingIDs m ! i" "pendingTouchPointCount m = ?c"
    using m(2) i by (auto simp: at_rest_def)
  have f: "List.find (\<lambda>j. pendingTouchIDs m ! j = touchIDs m ! i) [0..<?c] = Some i"
    using find_own_id [of ?c "touchIDs m" i "pendingTouchIDs m"] m(1,3) ids i by (auto simp: points_ok_def sizes_ok_def)
  have same: "m\<lparr>pendingTouchXs := (pendingTouchXs m)[i := touchXs m ! i], pendingTouchYs := (pendingTouchYs m)[i := touchYs m ! i]\<rparr> = m"
    by (simp add: p(1,2) [symmetric])
  have "0 < gTouchMoveSensitivity g * gTouchMoveSensitivity g" using g by simp
  moreover have "\<not> 0 > gTapRadius g * gTapRadius g" by (simp add: not_less)
  ultimately have "report_existing g stack i (m, ps) = (m, ps @ [resting m i])" for ps
    using p f same by (simp add: report_existing_def resting_def Let_def)
  then show ?case using Suc by simp
qed simp

lemma report_new_rest:
  assumes "\<forall>j < touchPointCount m. pendingTouchIDs m ! j = touchIDs m ! j" "i + k \<le> touchPointCount m"
  shows "for_range i k report_new (m, ps) = Some (m, ps)"
  using assms(2)
proof (induction k arbitrary: i)
  case (Suc k)
  then have "list_ex (\<lambda>j. touchIDs m ! j = pendingTouchIDs m ! i) [0..<touchPointCount m]"
    using assms(1) by (auto simp: list_ex_iff)
  then have "report_new i (m, ps) = Some (m, ps)" by (simp add: report_new_def)
  with Suc show ?case by simp
qed simp

lemma report_rest:
  assumes m: "sizes_ok m" "at_rest m" "points_ok m" and g: "0 < gTouchMoveSensitivity g"
  defines "m' \<equiv> m\<lparr>pendingTouchIDs := take (touchPointCount m) (touchIDs m) @ drop (touchPointCount m) (pendingTouchIDs m)\<rparr>"
  shows "do { m \<leftarrow> assign_ids m; (m, ps, save) \<leftarrow> touch_report device g stack m; notify_touch device m g ps save } =
    Some (m', g, map (resting m) [0..<touchPointCount m], True)"
proof -
  let ?c = "touchPointCount m"
  have c: "?c \<le> 20" "?c \<noteq> 0" "pendingTouchPointCount m = ?c" using m(1,2) by (auto simp: sizes_ok_def at_rest_def)
  have m': "sizes_ok m'" "at_rest m'" "points_ok m'" "touchPointCount m' = ?c" "pendingTouchPointCount m' = ?c" "resting m' = resting m"
    using m by (auto simp: m'_def sizes_ok_def at_rest_def points_ok_def alive_def resting_def fun_eq_iff)
  have ids: "\<forall>j < touchPointCount m'. pendingTouchIDs m' ! j = touchIDs m' ! j"
    using m(1) c by (auto simp: m'_def nth_append sizes_ok_def)
  have "touch_report device g stack m' = Some (m', map (resting m) [0..<?c], True)"
    using report_existing_rest [OF m'(1-3) ids g, of ?c stack] report_new_rest [OF ids, of 0 ?c] c m'(4-6)
    by (simp add: touch_report_def)
  moreover have "list_all (\<lambda>p. tp_state p = TouchEvent_TOUCH_STILL) (map (resting m) [0..<?c])"
    by (simp add: list_all_iff resting_def)
  ultimately show ?thesis
    using assign_ids_rest [OF m(1,2)] by (simp add: m'_def [symmetric] notify_touch_def)
qed

lemma save_rest:
  assumes "sizes_ok m"
  defines "m' \<equiv> save_points True (map (resting m) [0..<touchPointCount m]) m"
  shows "touchPointCount m' = touchPointCount m" "touchIDs m' = touchIDs m" "touchXs m' = touchXs m" "touchYs m' = touchYs m"
    "touchTrackingIDs m' = touchTrackingIDs m"
proof -
  let ?c = "touchPointCount m"
  have f: "filter (\<lambda>p. tp_state p \<noteq> TouchEvent_TOUCH_RELEASED) (map (resting m) [0..<?c]) = map (resting m) [0..<?c]"
    by (simp add: filter_id_conv resting_def)
  have s: "store (map ((!) xs) [0..<?c]) xs = xs" if "length xs = 20" for xs :: "int list"
  proof -
    have "?c \<le> length xs" using assms(1) that by (simp add: sizes_ok_def)
    then have "map ((!) xs) [0..<?c] = take ?c xs" by (metis map_nth take_map take_upt diff_zero length_upt add_0 le_add_diff_inverse upt_0) 
    then show ?thesis using \<open>?c \<le> length xs\<close> by (simp add: store_def min_def)
  qed
  have l: "length (touchIDs m) = 20" "length (touchXs m) = 20" "length (touchYs m) = 20" "length (touchTrackingIDs m) = 20"
    using assms(1) by (simp_all add: sizes_ok_def)
  show "touchPointCount m' = ?c" "touchIDs m' = touchIDs m" "touchXs m' = touchXs m" "touchYs m' = touchYs m"
    "touchTrackingIDs m' = touchTrackingIDs m"
    using s [OF l(1)] s [OF l(2)] s [OF l(3)] s [OF l(4)]
    by (simp_all add: m'_def save_points_def f Let_def comp_def) (simp_all add: resting_def)
qed


lemma drop_released_rest:
  assumes m: "sizes_ok m" "pendingTouchPointCount m = 1" "pendingTouchTrackingIDs m ! 0 \<noteq> touchTrackingIDs m ! 0"
    "touchXs m ! 0 \<noteq> - 1" "touchPointCount m \<noteq> 0"
  shows "at_rest (drop_released m)" "touchTrackingIDs (drop_released m) = touchTrackingIDs m"
proof -
  let ?F = "\<lambda>i. m\<lparr>pendingTouchTrackingIDs := take i (touchTrackingIDs m) @ drop i (pendingTouchTrackingIDs m),
      pendingTouchXs := take i (touchXs m) @ drop i (pendingTouchXs m), pendingTouchYs := take i (touchYs m) @ drop i (pendingTouchYs m)\<rparr>"
  have "fold (keep_point 1) [0..<i] (m, 0) = (?F i, i)" if "i \<le> touchPointCount m" for i
    using that
  proof (induction i)
    case (Suc i)
    have i: "i < 20" using Suc.prems m(1) by (simp add: sizes_ok_def)
    have l: "length (touchTrackingIDs m) = 20" "length (touchXs m) = 20" "length (touchYs m) = 20"
      "length (pendingTouchTrackingIDs m) = 20" "length (pendingTouchXs m) = 20" "length (pendingTouchYs m) = 20"
      using m(1) by (simp_all add: sizes_ok_def)
    have "\<not> to_be_released (?F i) 1 i"
      using m(3,4) l by (cases i) (auto simp: to_be_released_def nth_append)
    then have "keep_point 1 i (?F i, i) = (?F (Suc i), Suc i)"
      using update_prefix [of i "touchTrackingIDs m" "pendingTouchTrackingIDs m"] update_prefix [of i "touchXs m" "pendingTouchXs m"]
        update_prefix [of i "touchYs m" "pendingTouchYs m"] i l by (simp add: keep_point_def)
    with Suc show ?case by simp
  qed simp
  from this [OF order_refl] have "drop_released m = (?F (touchPointCount m))\<lparr>pendingTouchPointCount := touchPointCount m\<rparr>"
    by (simp add: drop_released_def m(2) del: One_nat_def)
  then show "at_rest (drop_released m)" "touchTrackingIDs (drop_released m) = touchTrackingIDs m"
    using m(1,5) by (simp_all add: at_rest_def sizes_ok_def nth_append)
qed


text \<open>What a device with tracking identifiers sends when the finger \<open>k\<close>, and no other, is lifted.\<close>

definition release_report :: "int \<Rightarrow> linux_input_event list" where
  "release_report k = [\<lparr>ev_type = EV_ABS, ev_code = ABS_MT_TRACKING_ID, ev_value = k\<rparr>,
     \<lparr>ev_type = EV_ABS, ev_code = ABS_MT_TOUCH_MAJOR, ev_value = 0\<rparr>, \<lparr>ev_type = EV_SYN, ev_code = SYN_MT_REPORT, ev_value = 0\<rparr>]"

lemma release_read:
  assumes "sizes_ok m" "length (absinfo device) = 64" "touchProtocolType device = TOUCH_PROTOCOL_MT_A_WITH_TRACKING_ID"
  shows "\<exists>axes. length axes = 64 \<and> sync_events device 0 (release_report k) (first_tally, begin_sync m, g) =
    Some (first_tally\<lparr>numOfReleasePoints := 1\<rparr>, (begin_sync m)\<lparr>abs_axes := axes, pendingTouchPointCount := 1,
      pendingTouchTrackingIDs := (pendingTouchTrackingIDs m)[0 := k]\<rparr>, g)"
  using assms
  by (intro exI [of _ "(abs_axes m)[57 := clamp_axis (absinfo device ! 57) k, 48 := clamp_axis (absinfo device ! 48) 0]"])
    (simp add: release_report_def sync_event_def lens_input_pointerEvents_handleAbsMotion_def read_at_in write_at_in sizes_ok_def
      begin_sync_def store_tracking_id_def count_point_def first_tally_def)

text \<open>
  C33: the release of a finger is lost if it comes alone and is not the one of the first finger. In any well-formed state of a touch screen
  with tracking identifiers and a positive sensitivity, whose first finger has a known position, a complete report which only says that the finger of a later
  place is gone leaves the variables of the input as they were, so nothing is told, and all fingers are still stored as down, each
  with its identifiers and its position: the first finger is copied over the only pending point before that is compared with the others.
\<close>

theorem later_release_lost:
  assumes "device_ok device g m" "isTouch device" "length (absinfo device) = 64" "0 < gTouchMoveSensitivity g"
    and "touchProtocolType device = TOUCH_PROTOCOL_MT_A_WITH_TRACKING_ID"
    and "pendingInputEvents m = release_report (touchTrackingIDs m ! k)" "k < touchPointCount m"
    and "touchTrackingIDs m ! k \<noteq> touchTrackingIDs m ! 0" "touchXs m ! 0 \<noteq> - 1"
  shows "returns (lens_input_pointerEvents_handleSync stack device (m, g)) (\<lambda>(m', g'). g' = g \<and>
    touchPointCount m' = touchPointCount m \<and> touchIDs m' = touchIDs m \<and> touchXs m' = touchXs m \<and> touchYs m' = touchYs m \<and>
    touchTrackingIDs m' = touchTrackingIDs m)"
proof -
  have m: "sizes_ok m" "points_ok m" "pending_ok m" using assms(1) by (simp_all add: device_ok_def)
  obtain axes where axes: "length axes = 64" and
    read: "sync_events device 0 (pendingInputEvents m) (first_tally, begin_sync m, g) =
      Some (first_tally\<lparr>numOfReleasePoints := 1\<rparr>, (begin_sync m)\<lparr>abs_axes := axes, pendingTouchPointCount := 1,
        pendingTouchTrackingIDs := (pendingTouchTrackingIDs m)[0 := touchTrackingIDs m ! k]\<rparr>, g)"
    using release_read [OF m(1) assms(3,5)] unfolding assms(6) by blast
  define m1 where "m1 = (begin_sync m)\<lparr>abs_axes := axes, pendingTouchPointCount := 1,
        pendingTouchTrackingIDs := (pendingTouchTrackingIDs m)[0 := touchTrackingIDs m ! k]\<rparr>"
  note read = read [folded m1_def]
  have m1: "sizes_ok m1" "pending_ok m1" "keeps m m1" "pendingTouchPointCount m1 = 1" "touchPointCount m1 \<noteq> 0"
    "pendingTouchTrackingIDs m1 ! 0 \<noteq> touchTrackingIDs m1 ! 0" "touchXs m1 ! 0 \<noteq> - 1" "touchTrackingIDs m1 = touchTrackingIDs m"
    using m axes assms(7-9) by (auto simp: m1_def begin_sync_def keeps_def frame_defs near_def coordinate_def)
  define m2 where "m2 = drop_released m1"
  have "points_ok m1" using m(2) points_ok_keeps [OF m1(3)] by simp
  note d = drop_released_ok [OF m1(1,2) this, folded m2_def] drop_released_rest [OF m1(1,4,6,7,5), folded m2_def]
  have k: "keeps m m2" using m1(3) d(3) by (auto simp: keeps_def same_points_def)
  then have p2: "points_ok m2" using m(2) points_ok_keeps by blast
  have pre: "preprocess device (first_tally\<lparr>numOfReleasePoints := 1\<rparr>) m1 = (True, m2)"
    using assms(5) by (simp add: preprocess_def m2_def)
  define m3 where "m3 = m2\<lparr>pendingTouchIDs := take (touchPointCount m2) (touchIDs m2) @ drop (touchPointCount m2) (pendingTouchIDs m2)\<rparr>"
  have steps: "do { m \<leftarrow> assign_ids m2; (m, ps, save) \<leftarrow> touch_report device g stack m; notify_touch device m g ps save } =
      Some (m3, g, map (resting m2) [0..<touchPointCount m2], True)"
    unfolding m3_def by (rule report_rest [OF d(1,4) p2 assms(4)])
  let ?m = "m3\<lparr>pendingInputEvents := []\<rparr>"
  have res: "lens_input_pointerEvents_handleSync stack device (m, g) =
      Some (save_points True (map (resting m2) [0..<touchPointCount m2]) ?m, g)"
    using read pre steps assms(2)
    by (auto simp: lens_input_pointerEvents_handleSync_def split: bind_splits)
  have "sizes_ok ?m" "resting ?m = resting m2" "touchPointCount ?m = touchPointCount m2"
    using d(1) by (auto simp: m3_def sizes_ok_def resting_def fun_eq_iff)
  then have "touchPointCount (save_points True (map (resting m2) [0..<touchPointCount m2]) ?m) = touchPointCount ?m \<and>
    touchIDs (save_points True (map (resting m2) [0..<touchPointCount m2]) ?m) = touchIDs ?m \<and>
    touchXs (save_points True (map (resting m2) [0..<touchPointCount m2]) ?m) = touchXs ?m \<and>
    touchYs (save_points True (map (resting m2) [0..<touchPointCount m2]) ?m) = touchYs ?m \<and>
    touchTrackingIDs (save_points True (map (resting m2) [0..<touchPointCount m2]) ?m) = touchTrackingIDs ?m"
    using save_rest [of ?m] by simp
  then show ?thesis
    using k d(5) m1(8) unfolding res returns_Some split_conv by (simp add: m3_def keeps_def same_points_def)
qed

section \<open>The properties at work\<close>

theorem last_button_only_witness:
  "returns (lens_input_pointerEvents_handleSync (\<lambda>_. 0) a_mouse
      (new_mouse_state\<lparr>pendingInputEvents := [event EV_KEY BTN_LEFT 1, event EV_REL REL_X 5, event EV_KEY BTN_RIGHT 0]\<rparr>, an_input))
    (\<lambda>(m', g'). filter of_pointer (notified g') =
       [Button False MouseEvent_BUTTON_RIGHT (newMousePosX g') (newMousePosY g'), Motion (newMousePosX g') (newMousePosY g')])"
proof -
  let ?q = "[event EV_KEY BTN_LEFT 1, event EV_REL REL_X 5, event EV_KEY BTN_RIGHT 0]"
  let ?m = "new_mouse_state\<lparr>pendingInputEvents := ?q\<rparr>"
  have d: "device_ok a_mouse an_input ?m" using new_between(1) by (simp add: queue_frame between_def)
  have "\<forall>e \<in> set (pendingInputEvents ?m). event_ok a_mouse e \<and> ev_type e \<in> {EV_SYN, EV_KEY, EV_REL, EV_ABS}"
    by (simp add: example_defs)
  moreover have "slots_ok 0 (pendingInputEvents ?m)" by (simp add: example_defs)
  moreover have "screen_size_ok an_input" by (simp add: an_input_def screen_size_ok_def)
  moreover have "touchProtocolType a_mouse = TOUCH_PROTOCOL_NONE" "\<not> isTouch a_mouse" by (simp_all add: a_mouse_def a_touch_screen_def)
  ultimately show ?thesis
    using last_button_only [OF d, of "\<lambda>_. 0"]
    by (simp add: keys_of_def moves_def event_def an_input_def lens_input_convertButtonToFXButtonCode_def)
qed

definition two_down :: LensInputMouseState where
  "two_down = new_mouse_state\<lparr>touchPointCount := 2, touchIDs := 1 # 2 # replicate 18 0, touchXs := 10 # 30 # replicate 18 0,
     touchTrackingIDs := 5 # 6 # replicate 18 0, touchPrimaryPointID := 1, nextTouchID := 3, pendingInputEvents := release_report 6\<rparr>"

theorem later_release_lost_witness:
  "returns (lens_input_pointerEvents_handleSync (\<lambda>_. 0) (a_touch_screen TOUCH_PROTOCOL_MT_A_WITH_TRACKING_ID) (two_down, an_input))
    (\<lambda>(m', g'). notified g' = [] \<and> take (touchPointCount m') (touchXs m') = [10, 30])"
proof -
  let ?d = "a_touch_screen TOUCH_PROTOCOL_MT_A_WITH_TRACKING_ID"
  have d: "device_ok ?d an_input two_down"
    by (auto simp: two_down_def new_mouse_state_def calloc_mouse_state_def device_ok_def frame_defs near_def coordinate_def points_ok_def
        primary_ok_def alive_def single_mode_def a_touch_screen_def an_input_def less_Suc_eq numeral_2_eq_2)
  have m: "touchPointCount two_down = 2" "touchXs two_down = 10 # 30 # replicate 18 0"
    "touchTrackingIDs two_down = 5 # 6 # replicate 18 0" "pendingInputEvents two_down = release_report 6"
    by (simp_all add: two_down_def)
  have "length (absinfo ?d) = 64" "isTouch ?d" "touchProtocolType ?d = TOUCH_PROTOCOL_MT_A_WITH_TRACKING_ID"
    "0 < gTouchMoveSensitivity an_input" "notified an_input = []" by (simp_all add: a_touch_screen_def an_input_def)
  then show ?thesis
    using later_release_lost [OF d, of 1 "\<lambda>_. 0"] m by (auto simp: returns_iff)
qed

end
