(* ===== verification/Spec2Isabelle.thy ===== *)
theory Spec2Isabelle
  imports LensMachine PiscesFill FlvStream ColorExact UdevLosses
begin

text \<open>
  A verification library for the native C code of JavaFX.

  \<^bold>\<open>The program.\<close> JavaFX is a Java toolkit over a layer of native C code. Four parts of that layer have
  state and algorithms of their own and do not just bind another library; they are modelled here.

  \<^item> Lens (\<open>modules/graphics/src/main/native-glass/lens\<close>), the window system that JavaFX brings along on
    embedded Linux. The reader of input devices (\<open>input/udev/udevInput.c\<close>) decodes the events of the kernel and
    calls the \<open>notify\<close> functions of the window manager, which decides which window an event belongs to and calls Java (\<open>LensApplication.c\<close>). Java calls native methods of windows, views and the
    robot, which change the list of windows, the focus and the frame buffer of the screen.
  \<^item> Pisces (\<open>modules/graphics/src/main/native-prism-sw\<close>), the software renderer. Java sets modes; a drawing
    operation first validates the choice of its inner routines and then draws rows of pixels in an array of Java.
  \<^item> The FLV demuxer (\<open>modules/media/src/main/native/gstreamer/plugins/vp6\<close>), an element of a GStreamer
    pipeline. It gets buffers pushed, or pulls a file, cuts the bytes into blocks, reads the metadata, and pushes
    frames of sound and video downstream; an index of key frames serves the seeks.
  \<^item> The colour conversion (\<open>modules/media/src/main/native/jfxmedia/Utils/ColorConverter.c\<close>), which turns the
    decoded frames of video into pixels for the screen.

  \<^bold>\<open>Theories and sources.\<close> Each theory opens with what it models.

  \<^item> \<open>GlassPrelude\<close>: the outcome of a C function, an \<open>option\<close> whose \<open>None\<close> is undefined behaviour (an
    invalid pointer, an access outside a buffer, a mutex taken twice) or not returning; \<open>returns\<close>, the
    total correctness of such a result; loops and accesses by index.
  \<^item> \<open>LensTypes\<close> (\<open>LensCommon.h\<close>; the record of the whole state, with a heap of windows and views and
    the trace of the calls into Java), \<open>LensApplication\<close>, \<open>LensInputEvents\<close>, \<open>LensWindowList\<close> and
    \<open>LensWindow\<close> (\<open>LensWindow.c\<close>), \<open>LensView\<close>, \<open>LensRobot\<close> (\<open>wm/robot.c\<close>, \<open>LensRobot.c\<close>),
    \<open>LensFocus\<close>, \<open>LensWindowState\<close> and \<open>LensMouse\<close> (\<open>wm/LensWindowManager.c\<close>),
    \<open>HeadlessScreen\<close> (\<open>wm/screen/headlessScreen.c\<close>) with its properties in \<open>ScreenPaint\<close>.
    \<open>LensInvariant\<close> and \<open>LensMachine\<close> put them together: a request is anything a device or Java may ask,
    and the reachable states are those after any sequence of requests that respects what the callers of the code
    respect (\<open>allowed\<close>: handles are those of live objects, Java paints into a part of the screen and closes a view
    only when no window shows it). The two safety contracts, with a released drag window and without one, are two
    interpretations of the locale \<open>machine\<close>.
  \<^item> \<open>UdevInput\<close> (\<open>udevInput.c\<close>): mice, keyboards and touch screens; a complete report (\<open>handleSync\<close>) is one
    definition per step of that long function. Properties in \<open>UdevPoints\<close> (reading a report, identifiers of
    fingers), \<open>UdevReports\<close> (the entries of a report), \<open>UdevTouch\<close> (the primary finger, what is told, what is
    stored), \<open>UdevStream\<close> (any stream of events, several devices, the window manager) and \<open>UdevLosses\<close> (buttons
    and releases that get lost).
  \<^item> \<open>SingleFloat\<close>, \<open>PiscesTypes\<close>, \<open>PiscesRenderer\<close> (\<open>PiscesRenderer.inl\<close>), \<open>PiscesBlend\<close> and
    \<open>PiscesBlit\<close> (\<open>PiscesBlit.c\<close>), \<open>PiscesDraw\<close> (\<open>JPiscesRenderer.c\<close>, \<open>JJavaSurface.c\<close>); properties in
    \<open>PiscesState\<close> (the modes), \<open>PiscesRows\<close> (the pixels) and \<open>PiscesFill\<close> (rectangles).
  \<^item> \<open>DoubleFloat\<close>, \<open>FlvBytes\<close>, \<open>FlvMetadata\<close> (\<open>flvmetadata.c\<close>), \<open>FlvParser\<close> (\<open>flvparser.c\<close>),
    \<open>FlvDemux\<close> and \<open>FlvSeek\<close> (\<open>flvdemux.c\<close>); properties in \<open>FlvReader\<close> (safety of the metadata
    reader, over the locale \<open>callback\<close>), \<open>FlvScript\<close> (encodings of metadata), \<open>FlvBlocks\<close> (the invariant of the
    demuxer), \<open>FlvTags\<close> (files as runs of tags) and \<open>FlvStream\<close>.
  \<^item> \<open>ColorConverter\<close> (\<open>ColorConverter.c\<close>) with its properties in \<open>ColorExact\<close>.

  \<^bold>\<open>State and operations.\<close> A definition has the name of the C function or structure that it models, and a part
  of a function that is a definition of its own is called after what it does. State is passed explicitly and
  returned; a structure is a record; a linked list keeps its links in the heap. What a function does to the
  world outside is recorded: the calls into Java and into GStreamer, in order, are a list in the state.

  \<^bold>\<open>What is assumed.\<close> Coordinates, sizes and counters of Lens and of the edges in Pisces are \<open>int\<close> without
  overflow; pixels, sizes and positions in files and everything else whose wrap-around matters are words of their width.
  An allocation that the code tests gives its result as an argument of the definition; the few that it
  does not test succeed. A call into Java only adds to the trace and does not call back. A \<open>float\<close> is a rational rounded
  to 24 bits; a \<open>double\<close> is its 64 bits, and its arithmetic is rounded to 53 bits. These are parameters: the generators of paint
  and the gamma tables of Pisces, the answers of GStreamer (\<open>reply\<close>, \<open>source\<close>, \<open>do_seek\<close>), the result of a conversion
  that C leaves undefined (\<open>wild\<close>), and what an array on the stack holds before it is written (\<open>stack\<close>). The kernel
  sends positions within the range that it gives for their axis (\<open>event_ok\<close>). The theorems hold for all of their values unless a hypothesis says otherwise.

  \<^bold>\<open>Loops.\<close> There is no fuel. A loop is structural recursion where it is bounded, and a \<open>partial_function\<close> where
  it need not end; its theorems then say that it returns. The loops over the list of windows end because the links
  form a list (\<open>zlist\<close>), those of the demuxer because every block has at least four bytes, and those over the metadata
  because every entry moves the reader or fails.

  \<^bold>\<open>What the lemmas show.\<close> For Lens: the list of windows refines the list in Z order; a sequence of requests that callers may make runs to
  its end from every reachable state, except in case it tells something to a window that was released while it held a drag, and
  keeps the invariant; the events that Java gets for a change of focus, a motion, a button, a drag, a touch
  are exactly the specified ones; sizes stay within limits and window states can be undone; painting and capturing have their exact
  pixels. For Pisces: the routines that a drawing operation uses are those its modes call for, however the modes were
  set; blending and the coverage of masks give exact values; a fill stays inside its bounds. For FLV: reading never
  leaves the memory of a block and always ends; cutting a stream differently changes nothing; frames and metadata arrive
  unchanged; searches of the index and of the file are exact. For the input devices: whatever arrives with positions within their
  axes and at most 20 fingers in a report, the window manager
  hears a conversation in which each finger is pressed once, moves and is released once, and input alone does not
  get the window manager stuck; a report on more fingers is written behind the arrays. For the
  colours: the converted frame has exactly the specified bytes, and they differ from the formula of the standard by little. Several properties state behaviour that the code can hardly intend
  (a released window that is still used, a seek that goes back to the start); they are theorems about the code as it is.

  \<^bold>\<open>Not modelled.\<close> Of Lens: cursors (images and one handle), logging, the screens of real hardware, remote screens, the Android
  variants; of the input devices their discovery by udev, the polling and reading of their files and the test device. Of
  Pisces: freeing, gradients, textures and transforms, whose results are the parameter for paint. Of FLV: disposal and
  queries. Of the colours: the variants in SSE2 instructions. All other native code is either a binding to another library (GTK,
  Direct3D, OpenGL, FreeType, libjpeg), geometry in floating point (the rasterizer of Prism) or vendored (WebKit, SQLite, libxml,
  GStreamer, GLib, libffi).
\<close>

end
